(* ===== verification/JsPrelude.thy ===== *)
theory JsPrelude
  imports Main
begin

text \<open>
  Prelude of the development: the part of JavaScript's strings and arrays that the
  frontend uses, and the generic lemmas the component theories share.

  \<^item> A JavaScript string is a \<open>string\<close>: one \<open>char\<close> is one UTF-16 code unit below 256.
    Three punctuation marks of the display copy lie outside that range (the em dash, the
    ellipsis and the right single quote); they are written with their Windows-1252 codes
    (0x97, 0x85, 0x92), so that lengths agree with the source.
  \<^item> \<open>string.trim\<close> and the regular expression class \<open>\s\<close> use the same set of characters.
  \<^item> \<open>xs.find\<close>, \<open>xs.findIndex\<close>, \<open>xs.filter((_, j) => j !== i)\<close> and \<open>new Set(xs)\<close> are the
    list functions below; a missing element is \<open>None\<close>, as \<open>undefined\<close> is in the source.
\<close>

section \<open>Fact collections\<close>

named_theorems js_str_simps \<open>rewriting of string operations on well-formed pieces\<close>
named_theorems js_list_simps \<open>rewriting of array operations\<close>

section \<open>Characters\<close>

definition em_dash :: char where "em_dash = CHR 0x97"
definition ellipsis :: char where "ellipsis = CHR 0x85"
definition right_quote :: char where "right_quote = CHR 0x92"
definition middle_dot :: char where "middle_dot = CHR 0xB7"

text \<open>The Latin-1 part of JavaScript's white space and line terminators.\<close>

definition is_ws :: "char \<Rightarrow> bool" where
  "is_ws c \<longleftrightarrow> c \<in> {CHR 0x09, CHR 0x0A, CHR 0x0B, CHR 0x0C, CHR 0x0D, CHR '' '', CHR 0xA0}"

definition is_digit :: "char \<Rightarrow> bool" where
  "is_digit c \<longleftrightarrow> c \<in> set ''0123456789''"

definition is_lower :: "char \<Rightarrow> bool" where
  "is_lower c \<longleftrightarrow> c \<in> set ''abcdefghijklmnopqrstuvwxyz''"

definition is_upper :: "char \<Rightarrow> bool" where
  "is_upper c \<longleftrightarrow> c \<in> set ''ABCDEFGHIJKLMNOPQRSTUVWXYZ''"

definition is_word :: "char \<Rightarrow> bool" where
  "is_word c \<longleftrightarrow> is_digit c \<or> is_lower c \<or> is_upper c \<or> c = CHR ''_''"

text \<open>A line terminator, the characters that the regular expression \<open>.\<close> does not match.\<close>

definition is_newline :: "char \<Rightarrow> bool" where
  "is_newline c \<longleftrightarrow> c = CHR 0x0A \<or> c = CHR 0x0D"

definition to_lower :: "char \<Rightarrow> char" where
  "to_lower c = (let n = of_char c :: nat in
     if 65 \<le> n \<and> n \<le> 90 \<or> 192 \<le> n \<and> n \<le> 222 \<and> n \<noteq> 215 then char_of (n + 32) else c)"

text \<open>ASCII upper case; the source applies \<open>toUpperCase\<close> to \<open>\w\<close> strings and ASCII copy only.\<close>

definition to_upper :: "char \<Rightarrow> char" where
  "to_upper c = (let n = of_char c :: nat in if 97 \<le> n \<and> n \<le> 122 then char_of (n - 32) else c)"

section \<open>Strings\<close>

definition trim_start :: "string \<Rightarrow> string" where
  "trim_start s = dropWhile is_ws s"

definition trim_end :: "string \<Rightarrow> string" where
  "trim_end s = rev (dropWhile is_ws (rev s))"

definition trim :: "string \<Rightarrow> string" where
  "trim s = trim_end (trim_start s)"

definition trimmed :: "string \<Rightarrow> bool" where
  "trimmed s \<longleftrightarrow> s = [] \<or> (\<not> is_ws (hd s) \<and> \<not> is_ws (last s))"

definition starts_with :: "string \<Rightarrow> string \<Rightarrow> bool" where
  "starts_with p s \<longleftrightarrow> take (length p) s = p"

text \<open>\<open>s.split(c)\<close> for a one-character separator.\<close>

fun split_on :: "char \<Rightarrow> string \<Rightarrow> string list" where
  "split_on c [] = [[]]"
| "split_on c (x # xs) =
     (if x = c then [] # split_on c xs
      else (case split_on c xs of [] \<Rightarrow> [[x]] | y # ys \<Rightarrow> (x # y) # ys))"

lemma drop_run_shorter:
  "dropWhile (\<lambda>c. \<not> P c) s \<noteq> [] \<Longrightarrow> length (dropWhile P (dropWhile (\<lambda>c. \<not> P c) s)) < length s"
  by (induction s) (auto simp: le_imp_less_Suc length_dropWhile_le)

text \<open>\<open>s.split(/\s+/)\<close>: each maximal run of white space separates.\<close>

function split_ws :: "string \<Rightarrow> string list" where
  "split_ws s =
     (let w = takeWhile (\<lambda>c. \<not> is_ws c) s; r = dropWhile (\<lambda>c. \<not> is_ws c) s in
      if r = [] then [w] else w # split_ws (dropWhile is_ws r))"
  by pat_completeness auto
termination
  by (relation "measure length") (auto simp: Let_def intro: drop_run_shorter)

declare split_ws.simps [simp del]

fun join :: "string \<Rightarrow> string list \<Rightarrow> string" where
  "join sep [] = []"
| "join sep [x] = x"
| "join sep (x # y # ys) = x @ sep @ join sep (y # ys)"

section \<open>Decimal numbers\<close>

definition digit_char :: "nat \<Rightarrow> char" where
  "digit_char d = ''0123456789'' ! (d mod 10)"

definition digit_val :: "char \<Rightarrow> nat" where
  "digit_val c = of_char c - 48"

fun nat_str :: "nat \<Rightarrow> string" where
  "nat_str n = (if n < 10 then [digit_char n] else nat_str (n div 10) @ [digit_char (n mod 10)])"

declare nat_str.simps [simp del]

definition int_str :: "int \<Rightarrow> string" where
  "int_str i = (if i < 0 then CHR ''-'' # nat_str (nat (- i)) else nat_str (nat i))"

text \<open>\<open>parseInt(s, 10)\<close> of a string of digits.\<close>

definition digits_val :: "string \<Rightarrow> nat" where
  "digits_val s = foldl (\<lambda>a c. 10 * a + digit_val c) 0 s"

definition all_digits :: "string \<Rightarrow> bool" where
  "all_digits s \<longleftrightarrow> s \<noteq> [] \<and> list_all is_digit s"

definition pad_start :: "nat \<Rightarrow> char \<Rightarrow> string \<Rightarrow> string" where
  "pad_start n c s = replicate (n - length s) c @ s"

section \<open>Arrays\<close>

definition find_index :: "('a \<Rightarrow> bool) \<Rightarrow> 'a list \<Rightarrow> nat option" where
  "find_index P xs = (let n = length (takeWhile (\<lambda>x. \<not> P x) xs) in if n < length xs then Some n else None)"

definition index_of :: "'a \<Rightarrow> 'a list \<Rightarrow> nat option" where
  "index_of x xs = find_index (\<lambda>y. y = x) xs"

definition at :: "'a list \<Rightarrow> nat \<Rightarrow> 'a option" where
  "at xs i = (if i < length xs then Some (xs ! i) else None)"

text \<open>\<open>xs.filter((_, j) => j !== i)\<close>\<close>

definition remove_at :: "nat \<Rightarrow> 'a list \<Rightarrow> 'a list" where
  "remove_at i xs = take i xs @ drop (Suc i) xs"

text \<open>The insertion order of a \<open>Set\<close> built from a list: first occurrences.\<close>

fun dedupe_from :: "'a list \<Rightarrow> 'a list \<Rightarrow> 'a list" where
  "dedupe_from seen [] = []"
| "dedupe_from seen (x # xs) =
     (if x \<in> set seen then dedupe_from seen xs else x # dedupe_from (x # seen) xs)"

definition dedupe :: "'a list \<Rightarrow> 'a list" where
  "dedupe xs = dedupe_from [] xs"

text \<open>\<open>x ?? d\<close> and \<open>x || d\<close> on strings.\<close>

definition or_else :: "'a option \<Rightarrow> 'a \<Rightarrow> 'a" where
  "or_else x d = (case x of None \<Rightarrow> d | Some v \<Rightarrow> v)"

definition str_or :: "string \<Rightarrow> string \<Rightarrow> string" where
  "str_or s d = (if s = [] then d else s)"

definition non_empty :: "string \<Rightarrow> bool" where
  "non_empty s \<longleftrightarrow> s \<noteq> []"


section \<open>Lemmas on strings\<close>

lemma is_ws_space [simp]: "is_ws CHR '' ''"
  by (simp add: is_ws_def)

lemma trim_end_snoc: "trim_end (s @ [c]) = (if is_ws c then trim_end s else s @ [c])"
  by (simp add: trim_end_def)

lemma trim_nil [simp]: "trim [] = []"
  by (simp add: trim_def trim_start_def trim_end_def)

lemma trim_start_id: "s = [] \<or> \<not> is_ws (hd s) \<Longrightarrow> trim_start s = s"
  by (cases s) (auto simp: trim_start_def)

lemma trim_end_id: "s = [] \<or> \<not> is_ws (last s) \<Longrightarrow> trim_end s = s"
  by (cases s rule: rev_cases) (auto simp: trim_end_def)

lemma trim_id [js_str_simps]: "trimmed s \<Longrightarrow> trim s = s"
  by (auto simp: trim_def trimmed_def trim_start_id trim_end_id)

lemma trim_start_ws [js_str_simps]: "is_ws c \<Longrightarrow> trim (c # s) = trim s"
  by (simp add: trim_def trim_start_def)

lemma hd_trim_start: "trim_start s \<noteq> [] \<Longrightarrow> \<not> is_ws (hd (trim_start s))"
  by (simp add: trim_start_def hd_dropWhile)

lemma last_trim_end: "trim_end s \<noteq> [] \<Longrightarrow> \<not> is_ws (last (trim_end s))"
  using hd_dropWhile [of is_ws "rev s"] by (auto simp: trim_end_def last_rev)

lemma trim_end_prefix: "\<exists>t. s = trim_end s @ t \<and> list_all is_ws t"
proof -
  have "rev s = takeWhile is_ws (rev s) @ dropWhile is_ws (rev s)" by simp
  then have "s = rev (dropWhile is_ws (rev s)) @ rev (takeWhile is_ws (rev s))"
    by (metis rev_append rev_rev_ident)
  then show ?thesis
    unfolding trim_end_def
    by (intro exI [of _ "rev (takeWhile is_ws (rev s))"]) (auto simp: list_all_iff dest: set_takeWhileD)
qed

lemma trimmed_trim: "trimmed (trim s)"
proof (cases "trim s = []")
  case True
  then show ?thesis by (simp add: trimmed_def)
next
  case False
  obtain t where t: "trim_start s = trim s @ t"
    using trim_end_prefix unfolding trim_def by blast
  from False t have "hd (trim_start s) = hd (trim s)" and "trim_start s \<noteq> []" by auto
  then have "\<not> is_ws (hd (trim s))" using hd_trim_start by metis
  moreover have "\<not> is_ws (last (trim s))"
    using False last_trim_end unfolding trim_def by blast
  ultimately show ?thesis by (simp add: trimmed_def)
qed

lemma trim_idem [simp]: "trim (trim s) = trim s"
  by (rule trim_id) (rule trimmed_trim)

lemma set_trim: "set (trim s) \<subseteq> set s"
  by (auto simp: trim_def trim_start_def trim_end_def dest!: set_dropWhileD)

lemma starts_with_append [simp]: "starts_with p (p @ s)"
  by (simp add: starts_with_def)

lemma starts_withD: "starts_with p s \<Longrightarrow> s = p @ drop (length p) s"
  by (metis append_take_drop_id starts_with_def)

lemma starts_with_Cons [simp]: "starts_with [c] (x # s) \<longleftrightarrow> x = c"
  by (simp add: starts_with_def)

lemma starts_with_nil [simp]: "starts_with (c # p) [] \<longleftrightarrow> False"
  by (simp add: starts_with_def)

lemma split_on_not_nil [simp]: "split_on c s \<noteq> []"
  by (induction s) (auto split: list.splits)

lemma join_split_on: "join [c] (split_on c s) = s"
proof (induction s)
  case (Cons x xs)
  then show ?case
    by (cases "split_on c xs"; cases "tl (split_on c xs)") (auto simp: neq_Nil_conv)
qed simp

lemma split_on_word [js_str_simps]: "c \<notin> set w \<Longrightarrow> split_on c w = [w]"
  by (induction w) auto

lemma split_on_append [js_str_simps]: "c \<notin> set w \<Longrightarrow> split_on c (w @ c # s) = w # split_on c s"
  by (induction w) auto

lemma split_on_join_sep:
  assumes "xs \<noteq> []" and "\<forall>x \<in> set xs. c \<notin> set x" and "c \<notin> set sep"
  shows "split_on c (join (c # sep) xs) = hd xs # map (\<lambda>x. sep @ x) (tl xs)"
  using assms
proof (induction xs rule: induct_list012)
  case (3 x y ys)
  have "split_on c (join (c # sep) (x # y # ys)) = x # split_on c (sep @ join (c # sep) (y # ys))"
    using 3 by (simp add: split_on_append)
  moreover have "split_on c (sep @ s) = (sep @ hd (split_on c s)) # tl (split_on c s)" for s
    using 3(5) by (induction sep) (auto split: list.splits)
  ultimately show ?case using 3 by simp
qed (auto simp: split_on_word)

lemma split_on_join: "xs \<noteq> [] \<Longrightarrow> \<forall>x \<in> set xs. c \<notin> set x \<Longrightarrow> split_on c (join [c] xs) = xs"
  using split_on_join_sep [of xs c "[]"] by simp

lemma split_ws_not_nil: "split_ws s \<noteq> []"
  by (subst split_ws.simps) (simp add: Let_def)

lemma split_ws_word [js_str_simps]:
  assumes "list_all (\<lambda>c. \<not> is_ws c) w"
  shows "split_ws w = [w]"
  using assms by (subst split_ws.simps) (auto simp: list_all_iff takeWhile_eq_all_conv dropWhile_eq_Nil_conv)

lemma split_ws_append [js_str_simps]:
  assumes "list_all (\<lambda>c. \<not> is_ws c) w" and "is_ws c" and "s = [] \<or> \<not> is_ws (hd s)"
  shows "split_ws (w @ c # s) = w # split_ws s"
proof -
  have tw: "takeWhile (\<lambda>c. \<not> is_ws c) (w @ c # s) = w" and dw: "dropWhile (\<lambda>c. \<not> is_ws c) (w @ c # s) = c # s"
    using assms(1,2) by (auto simp: list_all_iff takeWhile_append takeWhile_eq_all_conv dropWhile_append)
  have "dropWhile is_ws (c # s) = s" using assms(2,3) by (cases s) auto
  then show ?thesis by (subst split_ws.simps) (simp only: Let_def tw dw, simp)
qed

section \<open>Lemmas on numbers\<close>

lemma digit_chars: "\<forall>d \<in> set [0..<10]. is_digit (digit_char d) \<and> digit_val (digit_char d) = d"
  by code_simp

lemma digit_char_val: "d < 10 \<Longrightarrow> is_digit (digit_char d) \<and> digit_val (digit_char d) = d"
  using digit_chars by simp

lemma all_digits_nat_str: "all_digits (nat_str n)"
proof (induction n rule: nat_str.induct)
  case (1 n)
  then show ?case
    by (subst nat_str.simps) (auto simp: all_digits_def digit_char_val)
qed

lemma digits_val_snoc: "digits_val (s @ [c]) = 10 * digits_val s + digit_val c"
  by (simp add: digits_val_def)

lemma digits_val_nat_str: "digits_val (nat_str n) = n"
proof (induction n rule: nat_str.induct)
  case (1 n)
  then show ?case
    by (subst nat_str.simps)
      (auto simp: digits_val_snoc digit_char_val digits_val_def [of "[_]"])
qed

lemma nat_str_inject: "nat_str m = nat_str n \<longleftrightarrow> m = n"
  by (metis digits_val_nat_str)

section \<open>Lemmas on arrays\<close>

lemma find_index_Some:
  "find_index P xs = Some i \<longleftrightarrow> i < length xs \<and> P (xs ! i) \<and> (\<forall>j < i. \<not> P (xs ! j))"
proof -
  let ?n = "length (takeWhile (\<lambda>x. \<not> P x) xs)"
  have below: "j < ?n \<Longrightarrow> \<not> P (xs ! j)" for j
    by (metis nth_mem set_takeWhileD takeWhile_nth)
  have at: "?n < length xs \<Longrightarrow> P (xs ! ?n)"
    using nth_length_takeWhile [of "\<lambda>x. \<not> P x" xs] by blast
  show ?thesis
    unfolding find_index_def Let_def
    using below at by (auto dest: nat_neq_iff [THEN iffD1])
qed

lemma find_index_None: "find_index P xs = None \<longleftrightarrow> (\<forall>x \<in> set xs. \<not> P x)"
proof
  assume "find_index P xs = None"
  then have "length (takeWhile (\<lambda>x. \<not> P x) xs) = length xs"
    using length_takeWhile_le [of "\<lambda>x. \<not> P x" xs] by (simp add: find_index_def Let_def split: if_splits)
  then have "takeWhile (\<lambda>x. \<not> P x) xs = xs"
    by (metis takeWhile_eq_take take_all_iff order_refl)
  then show "\<forall>x \<in> set xs. \<not> P x" by (metis set_takeWhileD)
next
  assume "\<forall>x \<in> set xs. \<not> P x"
  then have "takeWhile (\<lambda>x. \<not> P x) xs = xs" by (simp add: takeWhile_eq_all_conv)
  then show "find_index P xs = None" by (simp only: find_index_def Let_def) simp
qed

lemma set_remove_at: "set (remove_at i xs) \<subseteq> set xs"
  by (auto simp: remove_at_def dest: in_set_takeD in_set_dropD)

lemma length_remove_at: "i < length xs \<Longrightarrow> length (remove_at i xs) = length xs - 1"
  by (simp add: remove_at_def)

lemma map_remove_at: "map f (remove_at i xs) = remove_at i (map f xs)"
  by (simp add: remove_at_def take_map drop_map)

lemma distinct_remove_at: "distinct xs \<Longrightarrow> distinct (remove_at i xs)"
  by (auto simp: remove_at_def set_take_disj_set_drop_if_distinct)

lemma set_dedupe_from: "set (dedupe_from seen xs) = set xs - set seen"
  by (induction seen xs rule: dedupe_from.induct) auto

lemma distinct_dedupe_from: "distinct (dedupe_from seen xs)"
  by (induction seen xs rule: dedupe_from.induct) (auto simp: set_dedupe_from)

lemma set_dedupe [simp]: "set (dedupe xs) = set xs"
  by (simp add: dedupe_def set_dedupe_from)

lemma distinct_dedupe [simp]: "distinct (dedupe xs)"
  by (simp add: dedupe_def distinct_dedupe_from)

lemma dedupe_from_distinct: "distinct xs \<Longrightarrow> set xs \<inter> set seen = {} \<Longrightarrow> dedupe_from seen xs = xs"
  by (induction seen xs rule: dedupe_from.induct) auto

lemma dedupe_distinct: "distinct xs \<Longrightarrow> dedupe xs = xs"
  by (simp add: dedupe_def dedupe_from_distinct)

lemma dedupe_nil_iff [simp]: "dedupe xs = [] \<longleftrightarrow> xs = []"
  by (metis set_dedupe set_empty)

lemma to_upper_idem [simp]: "to_upper (to_upper c) = to_upper c"
proof (cases "97 \<le> (of_char c :: nat) \<and> (of_char c :: nat) \<le> 122")
  case True
  then have "(of_char (char_of (of_char c - 32 :: nat) :: char) :: nat) = of_char c - 32"
    by (subst of_char_of, intro mod_less) (use True in arith)
  with True show ?thesis by (auto simp: to_upper_def Let_def)
qed (auto simp: to_upper_def Let_def)

lemma split_ws_words: "w \<in> set (split_ws s) \<Longrightarrow> list_all (\<lambda>c. \<not> is_ws c) w \<and> set w \<subseteq> set s"
proof (induction s rule: split_ws.induct)
  case (1 s)
  let ?r = "dropWhile (\<lambda>c. \<not> is_ws c) s"
  have tw: "list_all (\<lambda>c. \<not> is_ws c) (takeWhile (\<lambda>c. \<not> is_ws c) s)" "set (takeWhile (\<lambda>c. \<not> is_ws c) s) \<subseteq> set s"
    by (auto simp: list_all_iff dest: set_takeWhileD)
  have sub: "set (dropWhile is_ws ?r) \<subseteq> set s"
    by (auto dest!: set_dropWhileD)
  show ?case
  proof (cases "w = takeWhile (\<lambda>c. \<not> is_ws c) s")
    case True
    with tw show ?thesis by simp
  next
    case False
    with "1.prems" have "?r \<noteq> []" and "w \<in> set (split_ws (dropWhile is_ws ?r))"
      by (subst (asm) split_ws.simps, simp add: Let_def split: if_splits)+
    with "1.IH" [OF refl refl] sub show ?thesis by blast
  qed
qed

lemma some_the: "\<not> Option.is_none x \<Longrightarrow> x = Some (the x)"
  by (cases x) simp_all

end
