(* ===== verification/Interfaces.thy ===== *)
theory Interfaces
  imports JsPrelude
begin

text \<open>
  The interfaces between the components, each a locale with the laws its client relies on.
  Every locale is interpreted on the model's own definitions, in the theory of the
  component that provides the operations.

  \<^item> \<open>normalising_codec\<close> and \<open>codec\<close>: a printer and a parser (routes, command rules, plan
    graphs).
  \<^item> \<open>id_collection\<close>: a collection of values with identifiers (windows, plan nodes, command
    rules), with removal and update by identifier.
  \<^item> \<open>guarded_steps\<close>: a step function with an invariant, run over a list of events.
\<close>

section \<open>Printers and parsers\<close>

locale normalising_codec =
  fixes enc :: "'a \<Rightarrow> 'b"
    and dec :: "'b \<Rightarrow> 'a option"
    and norm :: "'a \<Rightarrow> 'a"
    and ok :: "'a \<Rightarrow> bool"
  assumes dec_enc: "ok x \<Longrightarrow> dec (enc x) = Some (norm x)"
    and ok_norm: "ok x \<Longrightarrow> ok (norm x)"
    and enc_norm: "ok x \<Longrightarrow> enc (norm x) = enc x"
begin

lemma norm_idem: "ok x \<Longrightarrow> norm (norm x) = norm x"
  using dec_enc [of x] dec_enc [of "norm x"] ok_norm enc_norm by simp

lemma enc_determines: "ok x \<Longrightarrow> ok y \<Longrightarrow> enc x = enc y \<Longrightarrow> norm x = norm y"
  using dec_enc [of x] dec_enc [of y] by simp

lemma reprint: "ok x \<Longrightarrow> map_option enc (dec (enc x)) = Some (enc x)"
  by (simp add: dec_enc enc_norm)

end

locale codec =
  fixes enc :: "'a \<Rightarrow> 'b"
    and dec :: "'b \<Rightarrow> 'a option"
    and ok :: "'a \<Rightarrow> bool"
  assumes dec_enc_id: "ok x \<Longrightarrow> dec (enc x) = Some x"

sublocale codec \<subseteq> normalising_codec enc dec id ok
  by unfold_locales (simp_all add: dec_enc_id)

context codec
begin

lemma enc_inject: "ok x \<Longrightarrow> ok y \<Longrightarrow> enc x = enc y \<longleftrightarrow> x = y"
  using enc_determines [of x y] by auto

end

section \<open>Collections with identifiers\<close>

text \<open>
  \<open>look\<close> finds the value with an identifier, \<open>drop_id\<close> removes it, \<open>modify\<close> rewrites it in
  place. The order of the collection is part of its state, so the laws speak of \<open>look\<close>.
\<close>

locale id_collection =
  fixes look :: "'s \<Rightarrow> 'k \<Rightarrow> 'v option"
    and drop_id :: "'k \<Rightarrow> 's \<Rightarrow> 's"
    and modify :: "'k \<Rightarrow> ('v \<Rightarrow> 'v) \<Rightarrow> 's \<Rightarrow> 's"
    and keeps :: "('v \<Rightarrow> 'v) \<Rightarrow> bool"
    and inv :: "'s \<Rightarrow> bool"
  assumes look_drop: "inv s \<Longrightarrow> look (drop_id k s) = (look s)(k := None)"
    and look_modify: "inv s \<Longrightarrow> keeps f \<Longrightarrow> look (modify k f s) = (look s)(k := map_option f (look s k))"
    and inv_drop: "inv s \<Longrightarrow> inv (drop_id k s)"
    and inv_modify: "inv s \<Longrightarrow> keeps f \<Longrightarrow> inv (modify k f s)"
begin

lemma look_drop_same: "inv s \<Longrightarrow> look (drop_id k s) k = None"
  by (simp add: look_drop)

lemma look_drop_other: "inv s \<Longrightarrow> j \<noteq> k \<Longrightarrow> look (drop_id k s) j = look s j"
  by (simp add: look_drop)

lemma look_modify_other: "inv s \<Longrightarrow> keeps f \<Longrightarrow> j \<noteq> k \<Longrightarrow> look (modify k f s) j = look s j"
  by (simp add: look_modify)

lemma dom_modify: "inv s \<Longrightarrow> keeps f \<Longrightarrow> dom (look (modify k f s)) = dom (look s)"
  by (auto simp: look_modify split: if_splits)

lemma modify_drop_commute:
  "inv s \<Longrightarrow> keeps f \<Longrightarrow> look (modify k f (drop_id j s)) = look (drop_id j (modify k f s))"
  by (auto simp: look_modify look_drop inv_drop inv_modify fun_eq_iff)

end

text \<open>Collections that also take new values; \<open>key\<close> is the identifier a value carries.\<close>

locale id_collection_add = id_collection look drop_id modify keeps inv
  for look :: "'s \<Rightarrow> 'k \<Rightarrow> 'v option"
    and drop_id :: "'k \<Rightarrow> 's \<Rightarrow> 's"
    and modify :: "'k \<Rightarrow> ('v \<Rightarrow> 'v) \<Rightarrow> 's \<Rightarrow> 's"
    and keeps :: "('v \<Rightarrow> 'v) \<Rightarrow> bool"
    and inv :: "'s \<Rightarrow> bool" +
  fixes key :: "'v \<Rightarrow> 'k"
    and add :: "'v \<Rightarrow> 's \<Rightarrow> 's"
  assumes look_add: "inv s \<Longrightarrow> look s (key v) = None \<Longrightarrow> look (add v s) = (look s)(key v \<mapsto> v)"
    and inv_add: "inv s \<Longrightarrow> look s (key v) = None \<Longrightarrow> inv (add v s)"
begin

lemma drop_add_fresh: "inv s \<Longrightarrow> look s (key v) = None \<Longrightarrow> look (drop_id (key v) (add v s)) = look s"
  by (simp add: look_drop inv_add look_add fun_upd_idem)

lemma dom_add: "inv s \<Longrightarrow> look s (key v) = None \<Longrightarrow> dom (look (add v s)) = insert (key v) (dom (look s))"
  by (simp add: look_add)

end

section \<open>Lists as collections with identifiers\<close>

text \<open>\<open>xs.find(x => x.id === k)\<close>, \<open>xs.filter(x => x.id !== k)\<close> and
  \<open>xs.map(x => x.id === k ? f(x) : x)\<close>, for the identifier \<open>key\<close>.\<close>

definition find_by :: "('v \<Rightarrow> 'k) \<Rightarrow> 'v list \<Rightarrow> 'k \<Rightarrow> 'v option" where
  "find_by key xs k = find (\<lambda>x. key x = k) xs"

definition drop_by :: "('v \<Rightarrow> 'k) \<Rightarrow> 'k \<Rightarrow> 'v list \<Rightarrow> 'v list" where
  "drop_by key k xs = filter (\<lambda>x. key x \<noteq> k) xs"

definition map_by :: "('v \<Rightarrow> 'k) \<Rightarrow> 'k \<Rightarrow> ('v \<Rightarrow> 'v) \<Rightarrow> 'v list \<Rightarrow> 'v list" where
  "map_by key k f xs = map (\<lambda>x. if key x = k then f x else x) xs"

lemma find_by_simps [simp]:
  "find_by key [] k = None"
  "find_by key (x # xs) k = (if key x = k then Some x else find_by key xs k)"
  by (simp_all add: find_by_def)

lemma drop_by_simps [simp]:
  "drop_by key k [] = []"
  "drop_by key k (x # xs) = (if key x = k then drop_by key k xs else x # drop_by key k xs)"
  by (simp_all add: drop_by_def)

lemma map_by_simps [simp]:
  "map_by key k f [] = []"
  "map_by key k f (x # xs) = (if key x = k then f x else x) # map_by key k f xs"
  by (simp_all add: map_by_def)

lemma find_by_append: "find_by key (xs @ ys) k = (case find_by key xs k of None \<Rightarrow> find_by key ys k | Some v \<Rightarrow> Some v)"
  by (induction xs) auto

lemma find_by_None: "find_by key xs k = None \<longleftrightarrow> k \<notin> key ` set xs"
  by (induction xs) auto

lemma find_by_Some_key: "find_by key xs k = Some x \<Longrightarrow> key x = k \<and> x \<in> set xs"
  by (induction xs) (auto split: if_splits)

lemma find_by_mem: "distinct (map key xs) \<Longrightarrow> x \<in> set xs \<Longrightarrow> find_by key xs (key x) = Some x"
  by (induction xs) auto

lemma find_by_drop: "find_by key (drop_by key k xs) j = (if j = k then None else find_by key xs j)"
  by (induction xs) auto

lemma set_drop_by: "set (drop_by key k xs) = {x \<in> set xs. key x \<noteq> k}"
  by (simp add: drop_by_def)

lemma map_key_drop_by: "map key (drop_by key k xs) = filter (\<lambda>j. j \<noteq> k) (map key xs)"
  by (induction xs) auto

lemma map_key_map_by: "\<forall>x. key (f x) = key x \<Longrightarrow> map key (map_by key k f xs) = map key xs"
  by (induction xs) auto

lemma find_by_map: "\<forall>x. key (f x) = key x \<Longrightarrow>
    find_by key (map_by key k f xs) j = (if j = k then map_option f (find_by key xs k) else find_by key xs j)"
  by (induction xs) auto

text \<open>Any list with distinct identifiers is such a collection: the facts the component
  theories use to discharge the interface.\<close>

lemmas by_key_laws = find_by_append find_by_None find_by_drop find_by_map map_key_drop_by map_key_map_by

section \<open>Step functions with an invariant\<close>

fun run_steps :: "('e \<Rightarrow> 's \<Rightarrow> 's) \<Rightarrow> 'e list \<Rightarrow> 's \<Rightarrow> 's" where
  "run_steps step [] s = s"
| "run_steps step (e # es) s = run_steps step es (step e s)"

lemma run_steps_append: "run_steps step (xs @ ys) s = run_steps step ys (run_steps step xs s)"
  by (induction xs arbitrary: s) auto

text \<open>The events of a run that are enabled where they happen.\<close>

fun admissible :: "('e \<Rightarrow> 's \<Rightarrow> bool) \<Rightarrow> ('e \<Rightarrow> 's \<Rightarrow> 's) \<Rightarrow> 'e list \<Rightarrow> 's \<Rightarrow> bool" where
  "admissible guard step [] s = True"
| "admissible guard step (e # es) s = (guard e s \<and> admissible guard step es (step e s))"

locale guarded_steps =
  fixes step :: "'e \<Rightarrow> 's \<Rightarrow> 's"
    and inv :: "'s \<Rightarrow> bool"
    and guard :: "'e \<Rightarrow> 's \<Rightarrow> bool"
  assumes step_inv: "inv s \<Longrightarrow> guard e s \<Longrightarrow> inv (step e s)"
begin

lemma run_inv: "inv s \<Longrightarrow> admissible guard step es s \<Longrightarrow> inv (run_steps step es s)"
  by (induction es arbitrary: s) (auto simp: step_inv)

lemma run_inv_unguarded: "inv s \<Longrightarrow> (\<And>e s. guard e s) \<Longrightarrow> inv (run_steps step es s)"
  by (induction es arbitrary: s) (auto simp: step_inv)

end

end
