(* ===== verification/Router.thy ===== *)
theory Router
  imports Interfaces
begin

text \<open>
  \<open>frontend/src/router.ts\<close>: the routes of the application, the table of path patterns
  (\<open>patterns\<close>, \<open>parseRoute\<close>), the printer \<open>routePath\<close> and \<open>navigate\<close>, which pushes a
  history entry and notifies the listeners of \<open>popstate\<close>.
\<close>

section \<open>Routes\<close>

datatype route =
    Chat "string option"
  | Plans "string option"
  | Channels
  | Hosts
  | Skills
  | Logs
  | Llm
  | GuardProfiles "string option"
  | Setup

section \<open>Parsing\<close>

text \<open>\<open>/^pre(.+)$/\<close>: the rest of the path, non-empty and without a line terminator.\<close>

definition match_rest :: "string \<Rightarrow> string \<Rightarrow> string option" where
  "match_rest pre path =
     (let rest = drop (length pre) path in
      if starts_with pre path \<and> rest \<noteq> [] \<and> list_all (\<lambda>c. \<not> is_newline c) rest
      then Some rest else None)"

text \<open>\<open>/^pre\/?$/\<close>\<close>

definition match_exact :: "string \<Rightarrow> string \<Rightarrow> bool" where
  "match_exact pre path \<longleftrightarrow> path = pre \<or> path = pre @ ''/''"

definition patterns :: "(string \<Rightarrow> route option) list" where
  "patterns =
    [\<lambda>p. map_option (\<lambda>m. Chat (Some m)) (match_rest ''/chat/'' p),
     \<lambda>p. if match_exact ''/chat'' p then Some (Chat None) else None,
     \<lambda>p. map_option (\<lambda>m. Plans (Some m)) (match_rest ''/plans/'' p),
     \<lambda>p. if match_exact ''/plans'' p then Some (Plans None) else None,
     \<lambda>p. if match_exact ''/channels'' p then Some Channels else None,
     \<lambda>p. if match_exact ''/hosts'' p then Some Hosts else None,
     \<lambda>p. if match_exact ''/connections'' p then Some Hosts else None,
     \<lambda>p. if match_exact ''/runtimes'' p then Some Hosts else None,
     \<lambda>p. if match_exact ''/skills'' p then Some Skills else None,
     \<lambda>p. if match_exact ''/logs'' p then Some Logs else None,
     \<lambda>p. if match_exact ''/llm'' p then Some Llm else None,
     \<lambda>p. map_option (\<lambda>m. GuardProfiles (Some m)) (match_rest ''/guard-profiles/'' p),
     \<lambda>p. if match_exact ''/guard-profiles'' p then Some (GuardProfiles None) else None,
     \<lambda>p. if match_exact ''/setup'' p then Some Setup else None]"

fun first_match :: "(string \<Rightarrow> route option) list \<Rightarrow> string \<Rightarrow> route" where
  "first_match [] p = Chat None"
| "first_match (f # fs) p = (case f p of Some r \<Rightarrow> r | None \<Rightarrow> first_match fs p)"

definition parseRoute :: "string \<Rightarrow> route" where
  "parseRoute p = first_match patterns p"

section \<open>Printing\<close>

definition with_id :: "string \<Rightarrow> string option \<Rightarrow> string" where
  "with_id base i = (case i of None \<Rightarrow> base | Some s \<Rightarrow> if s = [] then base else base @ ''/'' @ s)"

fun routePath :: "route \<Rightarrow> string" where
  "routePath (Chat i) = with_id ''/chat'' i"
| "routePath (Plans i) = with_id ''/plans'' i"
| "routePath (GuardProfiles i) = with_id ''/guard-profiles'' i"
| "routePath Channels = ''/channels''"
| "routePath Hosts = ''/hosts''"
| "routePath Skills = ''/skills''"
| "routePath Logs = ''/logs''"
| "routePath Llm = ''/llm''"
| "routePath Setup = ''/setup''"

section \<open>Navigation\<close>

text \<open>
  The browser's side of \<open>navigate\<close>: the current path name, the entries behind it, and the
  routes the \<open>popstate\<close> listener of \<open>App.tsx\<close> has set, latest first. \<open>resolve\<close> stands for
  the URL parser that \<open>history.pushState\<close> applies to the path it is given.
\<close>

record browser =
  pathname :: string
  history_back :: "string list"
  app_routes :: "route list"

definition app_sync :: "browser \<Rightarrow> browser" where
  "app_sync b = b\<lparr>app_routes := parseRoute (pathname b) # app_routes b\<rparr>"

definition navigate :: "(string \<Rightarrow> string) \<Rightarrow> route \<Rightarrow> browser \<Rightarrow> browser" where
  "navigate resolve r b =
     (let path = routePath r;
          b' = (if pathname b \<noteq> path
                then b\<lparr>history_back := pathname b # history_back b, pathname := resolve path\<rparr>
                else b)
      in app_sync b')"

section \<open>The round trip\<close>

fun norm_id :: "string option \<Rightarrow> string option" where
  "norm_id (Some s) = (if s = [] then None else Some s)"
| "norm_id None = None"

fun norm_route :: "route \<Rightarrow> route" where
  "norm_route (Chat i) = Chat (norm_id i)"
| "norm_route (Plans i) = Plans (norm_id i)"
| "norm_route (GuardProfiles i) = GuardProfiles (norm_id i)"
| "norm_route r = r"

fun route_id :: "route \<Rightarrow> string option" where
  "route_id (Chat i) = i"
| "route_id (Plans i) = i"
| "route_id (GuardProfiles i) = i"
| "route_id r = None"

definition printable :: "route \<Rightarrow> bool" where
  "printable r \<longleftrightarrow> (case route_id r of None \<Rightarrow> True | Some s \<Rightarrow> list_all (\<lambda>c. \<not> is_newline c) s)"

lemma match_rest_prefix: "match_rest pre (pre @ s) = (if s \<noteq> [] \<and> list_all (\<lambda>c. \<not> is_newline c) s then Some s else None)"
  by (simp add: match_rest_def)

lemmas route_defs = parseRoute_def patterns_def match_exact_def with_id_def printable_def

lemma parse_with_id:
  assumes "s \<noteq> []" and "list_all (\<lambda>c. \<not> is_newline c) s"
  shows "parseRoute (''/chat/'' @ s) = Chat (Some s)"
    and "parseRoute (''/plans/'' @ s) = Plans (Some s)"
    and "parseRoute (''/guard-profiles/'' @ s) = GuardProfiles (Some s)"
  using assms by (simp_all add: route_defs match_rest_def starts_with_def)

lemma parse_fixed:
  "parseRoute ''/chat'' = Chat None" "parseRoute ''/plans'' = Plans None"
  "parseRoute ''/guard-profiles'' = GuardProfiles None" "parseRoute ''/channels'' = Channels"
  "parseRoute ''/hosts'' = Hosts" "parseRoute ''/skills'' = Skills" "parseRoute ''/logs'' = Logs"
  "parseRoute ''/llm'' = Llm" "parseRoute ''/setup'' = Setup"
  by (simp_all add: route_defs match_rest_def starts_with_def)

lemma parse_print: "printable r \<Longrightarrow> parseRoute (routePath r) = norm_route r"
  by (cases r; cases "route_id r")
    (auto simp: printable_def with_id_def parse_fixed parse_with_id [simplified])

interpretation routes: normalising_codec routePath "\<lambda>p. Some (parseRoute p)" norm_route printable
proof unfold_locales
  fix r
  assume r: "printable r"
  then show "Some (parseRoute (routePath r)) = Some (norm_route r)" by (simp add: parse_print)
  from r show "printable (norm_route r)"
    by (cases r; cases "route_id r") (auto simp: printable_def)
  from r show "routePath (norm_route r) = routePath r"
    by (cases r; cases "route_id r") (auto simp: with_id_def)
qed

section \<open>What navigation shows\<close>

lemma match_rest_Some: "match_rest pre p = Some s \<Longrightarrow> s \<noteq> [] \<and> list_all (\<lambda>c. \<not> is_newline c) s"
  by (auto simp: match_rest_def Let_def split: if_splits)

lemma parse_printable: "printable (parseRoute p) \<and> norm_route (parseRoute p) = parseRoute p"
proof -
  have "(printable r \<and> norm_route r = r)" if "r = first_match patterns p" for r
    using that by (auto simp: patterns_def printable_def split: option.splits if_splits dest!: match_rest_Some)
  then show ?thesis by (simp add: parseRoute_def)
qed

text \<open>C35: Whatever path the page was loaded with, the address of the route that is shown for it
  opens the same route, and that address is stable: printing it again gives the same text.\<close>

theorem shown_route_has_its_address:
  "parseRoute (routePath (parseRoute p)) = parseRoute p
   \<and> routePath (parseRoute (routePath (parseRoute p))) = routePath (parseRoute p)"
  using routes.dec_enc [of "parseRoute p"] parse_printable [of p] by simp

text \<open>After \<open>navigate\<close> the listener shows the route asked for, with an empty identifier
  read as none; the address bar holds its path, and one history entry is pushed exactly when the
  path changed, so navigating twice to one route pushes once.\<close>

theorem navigate_shows_route:
  assumes "printable r" and "resolve (routePath r) = routePath r"
  shows "app_routes (navigate resolve r b) = norm_route r # app_routes b
     \<and> pathname (navigate resolve r b) = routePath r
     \<and> history_back (navigate resolve r b)
         = (if pathname b = routePath r then history_back b else pathname b # history_back b)
     \<and> history_back (navigate resolve r (navigate resolve r b)) = history_back (navigate resolve r b)"
  using routes.dec_enc [OF assms(1)] assms(2)
  by (simp add: navigate_def app_sync_def Let_def)

lemma navigate_shows_route_witness:
  "app_routes (navigate id (Plans (Some ''p1'')) \<lparr>pathname = ''/chat'', history_back = [], app_routes = []\<rparr>)
     = norm_route (Plans (Some ''p1'')) # app_routes \<lparr>pathname = ''/chat'', history_back = [], app_routes = []\<rparr>"
  by (rule navigate_shows_route [where resolve = id, THEN conjunct1]) (simp_all add: printable_def is_newline_def)

end
