(* ===== verification/GuardRules.thy ===== *)
theory GuardRules
  imports Interfaces
begin

text \<open>
  \<open>frontend/src/pages/guard-profiles/types.ts\<close>, first part: the command rules of a guard
  profile as text. \<open>parseCommandRule\<close> reads what the user types, \<open>formatCommandRule\<close> prints
  a rule for the list and for editing, \<open>mergeCommandRule\<close> joins two rules for one command.
\<close>

section \<open>Command rules\<close>

record command_rule =
  command :: string
  allowed_args :: "string list option"
  allowed_sql :: "string list option"
  blocked_args :: "string list option"
  blocked_sql :: "string list option"

definition plain_rule :: "string \<Rightarrow> command_rule" where
  "plain_rule c = \<lparr>command = c, allowed_args = None, allowed_sql = None, blocked_args = None, blocked_sql = None\<rparr>"

definition SQL_CLIENTS :: "string list" where
  "SQL_CLIENTS = [''psql'', ''mysql'', ''sqlite3'']"

section \<open>Reading a rule\<close>

text \<open>\<open>/^([^\s[(!]+)/\<close>\<close>

definition head_char :: "char \<Rightarrow> bool" where
  "head_char c \<longleftrightarrow> \<not> is_ws c \<and> c \<noteq> CHR ''['' \<and> c \<noteq> CHR ''('' \<and> c \<noteq> CHR ''!''"

text \<open>\<open>/^\[([^\]]*)\]\s*/\<close> and \<open>/^\(([^)]*)\)\s*/\<close>: the text between the brackets and the
  rest after the match, if the text starts with the opening bracket and a closing one
  follows.\<close>

definition bracket_match :: "char \<Rightarrow> char \<Rightarrow> string \<Rightarrow> (string \<times> string) option" where
  "bracket_match opn cls s =
     (case s of
        [] \<Rightarrow> None
      | c # r \<Rightarrow>
          if c \<noteq> opn then None
          else (let inner = takeWhile (\<lambda>x. x \<noteq> cls) r; tail = dropWhile (\<lambda>x. x \<noteq> cls) r in
                case tail of [] \<Rightarrow> None | _ # after \<Rightarrow> Some (inner, dropWhile is_ws after)))"

text \<open>\<open>split(',').map(a => a.trim()).filter(Boolean)\<close>\<close>

definition list_items :: "string \<Rightarrow> string list" where
  "list_items s = filter non_empty (map trim (split_on CHR '','' s))"

text \<open>\<open>split(/,\s*(?=!)/)\<close>: a comma separates when an exclamation mark follows it after white
  space; the comma and that white space are dropped.\<close>

definition bang_follows :: "string \<Rightarrow> bool" where
  "bang_follows s = starts_with ''!'' (dropWhile is_ws s)"

function split_bang :: "string \<Rightarrow> string list" where
  "split_bang [] = [[]]"
| "split_bang (c # s) =
     (if c = CHR '','' \<and> bang_follows s then [] # split_bang (dropWhile is_ws s)
      else (case split_bang s of [] \<Rightarrow> [[c]] | y # ys \<Rightarrow> (c # y) # ys))"
  by pat_completeness auto
termination
  by (relation "measure length") (auto simp: le_imp_less_Suc length_dropWhile_le)

text \<open>\<open>t.replace(/^!\s*/, '').trim()\<close>\<close>

definition strip_bang :: "string \<Rightarrow> string" where
  "strip_bang t = trim (case t of [] \<Rightarrow> [] | c # r \<Rightarrow> if c = CHR ''!'' then dropWhile is_ws r else t)"

definition bang_items :: "string \<Rightarrow> string list" where
  "bang_items s = filter non_empty (map strip_bang (split_bang s))"

definition parse_allowed :: "char \<Rightarrow> char \<Rightarrow> string \<Rightarrow> string list option \<times> string" where
  "parse_allowed opn cls rest =
     (case bracket_match opn cls rest of
        None \<Rightarrow> (None, rest)
      | Some (inner, after) \<Rightarrow>
          (let items = list_items inner in (if items = [] then None else Some items, trim after)))"

definition parse_blocked :: "string \<Rightarrow> string list option" where
  "parse_blocked rest =
     (let items = (if starts_with ''!'' rest then bang_items rest else [])
      in if items = [] then None else Some items)"

definition parseCommandRule :: "string \<Rightarrow> command_rule option" where
  "parseCommandRule input =
     (let s = trim input in
      if s = [] then None
      else let cmd = takeWhile head_char s in
      if cmd = [] then None
      else
        let rest0 = trim (drop (length cmd) s);
            (args, rest1) = parse_allowed CHR ''['' CHR '']'' rest0;
            (sql, rest2) = parse_allowed CHR ''('' CHR '')'' rest1;
            blocked = parse_blocked rest2
        in Some \<lparr>command = cmd, allowed_args = args, allowed_sql = sql,
                 blocked_args = (if cmd \<in> set SQL_CLIENTS then None else blocked),
                 blocked_sql = (if cmd \<in> set SQL_CLIENTS then blocked else None)\<rparr>)"

section \<open>Merging and printing\<close>

text \<open>The local \<open>dedupe\<close> of \<open>mergeCommandRule\<close>.\<close>

definition dedupe_opt :: "string list option \<Rightarrow> string list option \<Rightarrow> string list option" where
  "dedupe_opt xs ys =
     (let out = dedupe (or_else xs [] @ or_else ys []) in if out = [] then None else Some out)"

definition mergeCommandRule :: "command_rule \<Rightarrow> command_rule \<Rightarrow> command_rule" where
  "mergeCommandRule a b =
     \<lparr>command = command a,
      allowed_args = dedupe_opt (allowed_args a) (allowed_args b),
      allowed_sql = dedupe_opt (allowed_sql a) (allowed_sql b),
      blocked_args = dedupe_opt (blocked_args a) (blocked_args b),
      blocked_sql = dedupe_opt (blocked_sql a) (blocked_sql b)\<rparr>"

text \<open>\<open>xs?.length\<close> as a test.\<close>

definition has_items :: "string list option \<Rightarrow> bool" where
  "has_items xs \<longleftrightarrow> or_else xs [] \<noteq> []"

definition bang_block :: "string list option \<Rightarrow> string list" where
  "bang_block xs = (if has_items xs then [''!'' @ join '', !'' (or_else xs [])] else [])"

definition formatCommandRule :: "command_rule \<Rightarrow> string" where
  "formatCommandRule c =
     (let blocks = bang_block (blocked_sql c) @ bang_block (blocked_args c);
          tail = (if blocks \<noteq> [] then '' '' @ join '' '' blocks else [])
      in if has_items (allowed_args c)
         then command c @ '' ['' @ join '', '' (or_else (allowed_args c) []) @ '']'' @ tail
         else if has_items (allowed_sql c)
         then command c @ '' ('' @ join '', '' (or_else (allowed_sql c) []) @ '')'' @ tail
         else if blocks \<noteq> [] then command c @ '' '' @ join '' '' blocks
         else command c)"

section \<open>Printed rules are read back\<close>

fun no_bang_sep :: "string \<Rightarrow> bool" where
  "no_bang_sep [] = True"
| "no_bang_sep (c # s) = (\<not> (c = CHR '','' \<and> bang_follows s) \<and> no_bang_sep s)"

definition item_ok :: "char \<Rightarrow> string \<Rightarrow> bool" where
  "item_ok cls x \<longleftrightarrow> x \<noteq> [] \<and> trimmed x \<and> CHR '','' \<notin> set x \<and> cls \<notin> set x"

definition bang_item_ok :: "string \<Rightarrow> bool" where
  "bang_item_ok x \<longleftrightarrow> x \<noteq> [] \<and> trimmed x \<and> no_bang_sep x"

definition opt_items :: "(string \<Rightarrow> bool) \<Rightarrow> string list option \<Rightarrow> bool" where
  "opt_items P xs \<longleftrightarrow> (case xs of None \<Rightarrow> True | Some ys \<Rightarrow> ys \<noteq> [] \<and> list_all P ys)"

definition rule_shape :: "command_rule \<Rightarrow> bool" where
  "rule_shape r \<longleftrightarrow> command r \<noteq> [] \<and> list_all head_char (command r)
     \<and> opt_items (item_ok CHR '']'') (allowed_args r) \<and> opt_items (item_ok CHR '')'') (allowed_sql r)
     \<and> opt_items bang_item_ok (blocked_args r) \<and> opt_items bang_item_ok (blocked_sql r)
     \<and> (if command r \<in> set SQL_CLIENTS then blocked_args r = None else blocked_sql r = None)"

definition one_list :: "command_rule \<Rightarrow> bool" where
  "one_list r \<longleftrightarrow> allowed_args r = None \<or> allowed_sql r = None"

lemma set_join: "set (join sep xs) \<subseteq> set sep \<union> \<Union> (set ` set xs)"
  by (induction sep xs rule: join.induct) auto

lemma join_not_nil: "xs \<noteq> [] \<Longrightarrow> \<forall>x \<in> set xs. x \<noteq> [] \<Longrightarrow> join sep xs \<noteq> []"
  by (induction sep xs rule: join.induct) auto

lemma last_join: "xs \<noteq> [] \<Longrightarrow> \<forall>x \<in> set xs. x \<noteq> [] \<Longrightarrow> last (join sep xs) = last (last xs)"
  by (induction sep xs rule: join.induct) (auto simp: join_not_nil)

lemma list_items_join:
  assumes "xs \<noteq> []" and "list_all (item_ok cls) xs"
  shows "list_items (join '', '' xs) = xs"
proof -
  have "split_on CHR '','' (join '', '' xs) = hd xs # map (\<lambda>x. '' '' @ x) (tl xs)"
    using assms by (intro split_on_join_sep) (auto simp: list_all_iff item_ok_def)
  then have "list_items (join '', '' xs) = filter non_empty (map trim (hd xs # tl xs))"
    by (simp add: list_items_def trim_start_ws comp_def)
  also have "\<dots> = filter non_empty (map trim xs)" using assms(1) by simp
  also have "map trim xs = xs"
    using assms(2) by (intro map_idI) (auto simp: list_all_iff item_ok_def trim_id)
  finally show ?thesis
    using assms(2) by (auto simp: list_all_iff item_ok_def non_empty_def filter_id_conv)
qed

lemma bracket_match_print:
  assumes "cls \<notin> set inner"
  shows "bracket_match opn cls (opn # inner @ cls # rest) = Some (inner, dropWhile is_ws rest)"
  using assms by (simp add: bracket_match_def takeWhile_append takeWhile_eq_all_conv dropWhile_append)

lemma parse_allowed_print:
  assumes "xs \<noteq> []" and "list_all (item_ok cls) xs" and "cls \<noteq> CHR '',''" and "cls \<noteq> CHR '' ''"
  shows "parse_allowed opn cls (opn # join '', '' xs @ cls # rest) = (Some xs, trim rest)"
proof -
  have "cls \<notin> set (join '', '' xs)"
    using set_join [of "'', ''" xs] assms by (auto simp: list_all_iff item_ok_def)
  moreover have "trim (dropWhile is_ws rest) = trim rest"
    by (simp add: trim_def trim_start_def)
  ultimately show ?thesis
    using assms(1,2) by (simp add: parse_allowed_def bracket_match_print list_items_join)
qed

lemma parse_allowed_none: "s = [] \<or> hd s \<noteq> opn \<Longrightarrow> parse_allowed opn cls s = (None, s)"
  by (cases s) (auto simp: parse_allowed_def bracket_match_def)

lemma bang_follows_append: "bang_follows x \<Longrightarrow> bang_follows (x @ y)"
  by (induction x) (auto simp: bang_follows_def)

lemma bang_follows_last:
  "x \<noteq> [] \<Longrightarrow> \<not> is_ws (last x) \<Longrightarrow> bang_follows (x @ y) = bang_follows x"
  by (induction x) (auto simp: bang_follows_def split: if_splits)

lemma split_bang_none: "no_bang_sep s \<Longrightarrow> split_bang s = [s]"
  by (induction s) auto

lemma split_bang_append:
  assumes "no_bang_sep x" and "x \<noteq> []" and "\<not> is_ws (last x)"
  shows "split_bang (x @ '', !'' @ s) = x # split_bang (CHR ''!'' # s)"
  using assms
proof (induction x)
  case (Cons c x)
  show ?case
  proof (cases "x = []")
    case True
    have "\<not> bang_follows ('', !'' @ s)" by (simp add: bang_follows_def is_ws_def)
    moreover have "split_bang ('', !'' @ s) = [] # split_bang (CHR ''!'' # s)"
      by (simp add: bang_follows_def is_ws_def)
    ultimately show ?thesis using True by simp
  next
    case False
    with Cons show ?thesis by (auto simp: bang_follows_last)
  qed
qed simp

lemma split_bang_join:
  "xs \<noteq> [] \<Longrightarrow> list_all bang_item_ok xs \<Longrightarrow> split_bang (CHR ''!'' # join '', !'' xs) = map (Cons CHR ''!'') xs"
proof (induction xs rule: induct_list012)
  case (2 x)
  then show ?case by (simp add: split_bang_none bang_item_ok_def)
next
  case (3 x y ys)
  have "split_bang ((CHR ''!'' # x) @ '', !'' @ join '', !'' (y # ys))
      = (CHR ''!'' # x) # split_bang (CHR ''!'' # join '', !'' (y # ys))"
    using 3 by (intro split_bang_append) (auto simp: bang_item_ok_def trimmed_def)
  with 3 show ?case by simp
qed simp

lemma strip_bang_item: "bang_item_ok x \<Longrightarrow> strip_bang (CHR ''!'' # x) = x"
  by (cases x) (auto simp: strip_bang_def bang_item_ok_def trimmed_def intro!: trim_id)

lemma bang_items_print:
  assumes "xs \<noteq> []" and "list_all bang_item_ok xs"
  shows "bang_items (CHR ''!'' # join '', !'' xs) = xs"
proof -
  have "map strip_bang (map (Cons CHR ''!'') xs) = xs"
    using assms(2) by (simp add: map_idI list_all_iff strip_bang_item)
  then have "bang_items (CHR ''!'' # join '', !'' xs) = filter non_empty xs"
    unfolding bang_items_def using split_bang_join [OF assms] by simp
  then show ?thesis
    using assms(2) by (auto simp: list_all_iff bang_item_ok_def non_empty_def filter_id_conv)
qed

definition blocked_of :: "command_rule \<Rightarrow> string list option" where
  "blocked_of r = (if command r \<in> set SQL_CLIENTS then blocked_sql r else blocked_args r)"

lemma has_items_shape: "opt_items P xs \<Longrightarrow> has_items xs \<longleftrightarrow> xs \<noteq> None"
  by (auto simp: has_items_def opt_items_def or_else_def split: option.splits)

lemma blocks_shape:
  assumes "rule_shape r"
  shows "bang_block (blocked_sql r) @ bang_block (blocked_args r) =
    (case blocked_of r of None \<Rightarrow> [] | Some xs \<Rightarrow> [''!'' @ join '', !'' xs])"
  using assms
  by (auto simp: rule_shape_def blocked_of_def bang_block_def has_items_def or_else_def opt_items_def
      split: option.splits if_splits)

lemma blocked_of_shape: "rule_shape r \<Longrightarrow> opt_items bang_item_ok (blocked_of r)"
  by (simp add: rule_shape_def blocked_of_def split: if_splits)

text \<open>The three pieces of a printed rule after its command.\<close>

definition bang_text :: "string list option \<Rightarrow> string" where
  "bang_text b = (case b of None \<Rightarrow> [] | Some xs \<Rightarrow> CHR ''!'' # join '', !'' xs)"

definition spaced :: "string \<Rightarrow> string" where
  "spaced s = (if s = [] then [] else CHR '' '' # s)"

lemma format_shape:
  assumes "rule_shape r" and "one_list r"
  shows "formatCommandRule r = command r @
     (case allowed_args r of
        Some xs \<Rightarrow> '' ['' @ join '', '' xs @ '']'' @ spaced (bang_text (blocked_of r))
      | None \<Rightarrow> (case allowed_sql r of
          Some xs \<Rightarrow> '' ('' @ join '', '' xs @ '')'' @ spaced (bang_text (blocked_of r))
        | None \<Rightarrow> spaced (bang_text (blocked_of r))))"
proof -
  have a: "has_items (allowed_args r) \<longleftrightarrow> allowed_args r \<noteq> None"
    and b: "has_items (allowed_sql r) \<longleftrightarrow> allowed_sql r \<noteq> None"
    using assms(1) has_items_shape unfolding rule_shape_def by blast+
  show ?thesis
    by (auto simp: formatCommandRule_def Let_def blocks_shape [OF assms(1)] a b or_else_def bang_text_def spaced_def
        split: option.splits)
qed

lemma trimmed_bang_text:
  assumes "opt_items bang_item_ok b"
  shows "trimmed (bang_text b)" and "bang_text b \<noteq> [] \<Longrightarrow> \<not> is_ws (last (bang_text b))"
proof -
  show l: "bang_text b \<noteq> [] \<Longrightarrow> \<not> is_ws (last (bang_text b))"
  proof (cases b)
    case (Some xs)
    with assms have xs: "xs \<noteq> []" "\<forall>x \<in> set xs. x \<noteq> []" and "bang_item_ok (last xs)"
      by (auto simp: opt_items_def list_all_iff bang_item_ok_def)
    then have "\<not> is_ws (last (last xs))" by (auto simp: bang_item_ok_def trimmed_def)
    with Some xs show ?thesis by (simp add: bang_text_def last_join join_not_nil)
  qed (simp add: bang_text_def)
  show "trimmed (bang_text b)"
    using l by (auto simp: trimmed_def bang_text_def is_ws_def split: option.splits)
qed

lemma bang_read:
  assumes "opt_items bang_item_ok b"
  shows "parse_blocked (bang_text b) = b"
  using assms by (cases b) (auto simp: parse_blocked_def bang_text_def opt_items_def bang_items_print)

lemma trim_spaced: "trimmed t \<Longrightarrow> trim (spaced t) = t"
  by (simp add: spaced_def trim_start_ws trim_id)

lemma format_tail_parse:
  assumes r: "rule_shape r" and one: "one_list r"
    and tail: "formatCommandRule r = command r @ t"
  shows "\<exists>rest1. parse_allowed CHR ''['' CHR '']'' (trim t) = (allowed_args r, rest1)
      \<and> parse_allowed CHR ''('' CHR '')'' rest1 = (allowed_sql r, bang_text (blocked_of r))"
proof -
  let ?b = "bang_text (blocked_of r)"
  have tb: "trimmed ?b" using trimmed_bang_text(1) blocked_of_shape [OF r] by blast
  have hb: "?b = [] \<or> hd ?b = CHR ''!''" by (auto simp: bang_text_def split: option.splits)
  have none: "parse_allowed CHR ''['' CHR '']'' ?b = (None, ?b)" "parse_allowed CHR ''('' CHR '')'' ?b = (None, ?b)"
    using hb by (auto intro!: parse_allowed_none)
  have lastb: "?b \<noteq> [] \<Longrightarrow> \<not> is_ws (last ?b)"
    using trimmed_bang_text(2) blocked_of_shape [OF r] by blast
  have brk: "trim ('' '' @ o1 # j @ c1 # spaced ?b) = o1 # j @ c1 # spaced ?b"
    if "\<not> is_ws o1" "\<not> is_ws c1" for o1 c1 j
    using that lastb by (auto simp: trim_start_ws spaced_def trimmed_def intro!: trim_id)
  show ?thesis
  proof (cases "allowed_args r")
    case (Some xs)
    then have sq: "allowed_sql r = None" using one by (auto simp: one_list_def)
    have t: "t = '' '' @ CHR ''['' # join '', '' xs @ CHR '']'' # spaced ?b"
      using format_shape [OF r one] tail Some by simp
    have "parse_allowed CHR ''['' CHR '']'' (trim t) = (Some xs, trim (spaced ?b))"
      unfolding t using r Some
      by (subst brk) (auto simp: is_ws_def rule_shape_def opt_items_def intro!: parse_allowed_print)
    with Some sq none tb show ?thesis by (simp add: trim_spaced)
  next
    case None
    show ?thesis
    proof (cases "allowed_sql r")
      case (Some xs)
      have t: "t = '' '' @ CHR ''('' # join '', '' xs @ CHR '')'' # spaced ?b"
        using format_shape [OF r one] tail Some None by simp
      have tt: "trim t = CHR ''('' # join '', '' xs @ CHR '')'' # spaced ?b"
        unfolding t by (rule brk) (auto simp: is_ws_def)
      have "parse_allowed CHR ''('' CHR '')'' (trim t) = (Some xs, trim (spaced ?b))"
        unfolding tt using r Some
        by (auto simp: rule_shape_def opt_items_def intro!: parse_allowed_print)
      moreover have "parse_allowed CHR ''['' CHR '']'' (trim t) = (None, trim t)"
        unfolding tt by (rule parse_allowed_none) simp
      ultimately show ?thesis using Some None tb by (simp add: trim_spaced)
    next
      case none2: None
      have "t = spaced ?b" using format_shape [OF r one] tail none2 None by simp
      then show ?thesis using none none2 None tb by (simp add: trim_spaced)
    qed
  qed
qed


lemma format_not_ws_ends:
  assumes "rule_shape r" and "one_list r"
  shows "trimmed (formatCommandRule r)"
proof -
  have c: "command r \<noteq> []" "\<not> is_ws (hd (command r))" "\<not> is_ws (last (command r))"
    using assms(1) by (auto simp: rule_shape_def list_all_iff head_char_def)
  have "bang_text (blocked_of r) \<noteq> [] \<Longrightarrow> \<not> is_ws (last (bang_text (blocked_of r)))"
    using trimmed_bang_text(2) blocked_of_shape [OF assms(1)] by blast
  then show ?thesis
    using c by (auto simp: format_shape [OF assms] trimmed_def spaced_def is_ws_def split: option.splits)
qed

lemma format_head:
  assumes "rule_shape r" and "one_list r"
  obtains t where "formatCommandRule r = command r @ t" and "t = [] \<or> hd t = CHR '' ''"
  using format_shape [OF assms] by (auto simp: spaced_def split: option.splits if_splits)

lemma parse_format:
  assumes "rule_shape r" and "one_list r"
  shows "parseCommandRule (formatCommandRule r) = Some r"
proof -
  obtain t where t: "formatCommandRule r = command r @ t" and ht: "t = [] \<or> hd t = CHR '' ''"
    using format_head [OF assms] by blast
  have cmd: "command r \<noteq> []" "list_all head_char (command r)"
    using assms(1) by (auto simp: rule_shape_def)
  have tr: "trim (command r @ t) = command r @ t"
    using format_not_ws_ends [OF assms] t by (simp add: trim_id)
  have tw: "takeWhile head_char (command r @ t) = command r"
    using cmd ht by (cases t) (auto simp: takeWhile_append list_all_iff head_char_def)
  obtain rest1 where p1: "parse_allowed CHR ''['' CHR '']'' (trim t) = (allowed_args r, rest1)"
    and p2: "parse_allowed CHR ''('' CHR '')'' rest1 = (allowed_sql r, bang_text (blocked_of r))"
    using format_tail_parse [OF assms t] by blast
  have b: "parse_blocked (bang_text (blocked_of r)) = blocked_of r"
    by (rule bang_read) (rule blocked_of_shape [OF assms(1)])
  have sides: "\<lparr>command = command r, allowed_args = allowed_args r, allowed_sql = allowed_sql r,
      blocked_args = (if command r \<in> set SQL_CLIENTS then None else blocked_of r),
      blocked_sql = (if command r \<in> set SQL_CLIENTS then blocked_of r else None)\<rparr> = r"
    using assms(1) by (cases r) (auto simp: rule_shape_def blocked_of_def)
  show ?thesis
    unfolding t parseCommandRule_def tr
    by (simp add: Let_def tw cmd p1 p2 b sides cong: if_cong split del: if_split)
qed

section \<open>Every rule that is read has the printable shape\<close>

lemma list_items_ok:
  assumes "cls \<notin> set s"
  shows "list_all (item_ok cls) (list_items s)"
proof -
  have "y \<in> set (split_on CHR '','' s) \<Longrightarrow> set y \<subseteq> set s \<and> CHR '','' \<notin> set y" for y
  proof (induction s arbitrary: y)
    case (Cons x s)
    from Cons.prems show ?case
      by (cases "split_on CHR '','' s") (use Cons.IH in \<open>fastforce split: if_splits\<close>)+
  qed simp
  then show ?thesis
    using assms set_trim
    by (fastforce simp: list_items_def list_all_iff item_ok_def non_empty_def trimmed_trim)
qed

lemma no_bang_sep_append: "no_bang_sep (x @ y) \<Longrightarrow> no_bang_sep x \<and> no_bang_sep y"
  by (induction x) (auto dest: bang_follows_append)

lemma split_bang_prefix: "\<exists>t. s = hd (split_bang s) @ t"
  by (induction s rule: split_bang.induct) (auto split: list.splits)

lemma split_bang_not_nil: "split_bang s \<noteq> []"
  by (induction s rule: split_bang.induct) (auto split: list.splits)

lemma split_bang_pieces: "p \<in> set (split_bang s) \<Longrightarrow> no_bang_sep p"
proof (induction s arbitrary: p rule: split_bang.induct)
  case (2 c s)
  show ?case
  proof (cases "c = CHR '','' \<and> bang_follows s")
    case True
    with 2 show ?thesis by auto
  next
    case False
    obtain y ys where ys: "split_bang s = y # ys" using split_bang_not_nil by (cases "split_bang s") auto
    obtain t where "s = y @ t" using split_bang_prefix [of s] ys by auto
    then have "c = CHR '','' \<longrightarrow> \<not> bang_follows y" using False bang_follows_append by blast
    with 2(2) [OF False] 2(3) False ys show ?thesis by auto
  qed
qed simp

lemma trim_infix: "\<exists>u v. s = u @ trim s @ v"
proof -
  obtain v where v: "trim_start s = trim s @ v" using trim_end_prefix unfolding trim_def by blast
  have "s = takeWhile is_ws s @ trim_start s" by (simp add: trim_start_def)
  with v show ?thesis by metis
qed

lemma no_bang_sep_trim: "no_bang_sep s \<Longrightarrow> no_bang_sep (trim s)"
  using trim_infix [of s] no_bang_sep_append by metis

lemma no_bang_sep_dropWhile: "no_bang_sep s \<Longrightarrow> no_bang_sep (dropWhile P s)"
  using takeWhile_dropWhile_id [of P s] no_bang_sep_append by metis

lemma bang_items_ok: "list_all bang_item_ok (bang_items s)"
  by (auto simp: bang_items_def list_all_iff bang_item_ok_def non_empty_def strip_bang_def trimmed_trim
      no_bang_sep_trim no_bang_sep_dropWhile dest!: split_bang_pieces split: list.splits if_splits)

lemma parse_allowed_ok: "parse_allowed opn cls s = (xs, rest) \<Longrightarrow> opt_items (item_ok cls) xs"
  by (auto simp: parse_allowed_def bracket_match_def opt_items_def Let_def
      split: option.splits list.splits if_splits dest: set_takeWhileD intro!: list_items_ok)

lemma parse_rule_shape:
  assumes "parseCommandRule s = Some r"
  shows "rule_shape r"
proof -
  have "list_all head_char (takeWhile head_char t)" for t
    by (auto simp: list_all_iff dest: set_takeWhileD)
  then show ?thesis
    using assms bang_items_ok
    by (auto simp: parseCommandRule_def parse_blocked_def Let_def rule_shape_def opt_items_def
        split: if_splits prod.splits option.splits dest!: parse_allowed_ok)
qed

interpretation rule_text: codec formatCommandRule parseCommandRule "\<lambda>r. rule_shape r \<and> one_list r"
  by unfold_locales (simp add: parse_format)

text \<open>C2: A rule the user typed is shown, and offered for editing, as a text that reads back as
  the same rule, when it has at most one of the two bracketed lists.\<close>

theorem typed_rule_reads_back:
  assumes "parseCommandRule s = Some r" and "allowed_args r = None \<or> allowed_sql r = None"
  shows "parseCommandRule (formatCommandRule r) = Some r"
  using assms parse_rule_shape by (intro rule_text.dec_enc_id) (simp add: one_list_def)

lemma typed_rule_reads_back_witness:
  "parseCommandRule (formatCommandRule \<lparr>command = ''kubectl'', allowed_args = Some [''get pods'', ''logs''],
      allowed_sql = None, blocked_args = Some [''delete'', ''exec''], blocked_sql = None\<rparr>)
   = Some \<lparr>command = ''kubectl'', allowed_args = Some [''get pods'', ''logs''],
      allowed_sql = None, blocked_args = Some [''delete'', ''exec''], blocked_sql = None\<rparr>"
  by (rule typed_rule_reads_back [where s = "''kubectl [get pods , logs] !delete,  ! exec''"]) code_simp+

text \<open>A rule with an argument list and a statement list is printed without its statement
  list: reading the printed text back, as every edit of a chip does, loses that list.\<close>

theorem typed_rule_with_both_lists_loses_sql:
  assumes "parseCommandRule s = Some r" and "allowed_args r \<noteq> None" and "allowed_sql r \<noteq> None"
  shows "parseCommandRule (formatCommandRule r) = Some (r\<lparr>allowed_sql := None\<rparr>)"
proof -
  have shape: "rule_shape r" using assms(1) by (rule parse_rule_shape)
  then have "has_items (allowed_args r)" using assms(2) has_items_shape by (auto simp: rule_shape_def)
  then have "formatCommandRule r = formatCommandRule (r\<lparr>allowed_sql := None\<rparr>)"
    by (simp add: formatCommandRule_def)
  moreover have "rule_shape (r\<lparr>allowed_sql := None\<rparr>)" using shape by (simp add: rule_shape_def opt_items_def)
  ultimately show ?thesis by (simp add: parse_format one_list_def)
qed

lemma typed_rule_with_both_lists_loses_sql_witness:
  "parseCommandRule (formatCommandRule \<lparr>command = ''psql'', allowed_args = Some [''-c''],
      allowed_sql = Some [''SELECT''], blocked_args = None, blocked_sql = None\<rparr>)
   = Some \<lparr>command = ''psql'', allowed_args = Some [''-c''],
      allowed_sql = None, blocked_args = None, blocked_sql = None\<rparr>"
  using typed_rule_with_both_lists_loses_sql [where s = "''psql [-c] (SELECT)''" and r = "\<lparr>command = ''psql'', allowed_args = Some [''-c''],
      allowed_sql = Some [''SELECT''], blocked_args = None, blocked_sql = None\<rparr>"]
  by (simp, code_simp)

end
