(* ===== verification/GuardStudio.thy ===== *)
theory GuardStudio
  imports GuardRules
begin

text \<open>
  \<open>frontend/src/pages/guard-profiles/types.ts\<close>, second part, with the guard types of
  \<open>frontend/src/types.ts\<close>: the profile form of the studio, its modes, capabilities and
  presets, and the suggested fixes, functions on the form that the tester and the activity
  list offer for a verdict.
\<close>

section \<open>Profiles\<close>

record capabilities =
  pipes :: bool
  redirects :: bool
  cmdSubst :: bool
  background :: bool
  sudo :: bool
  codeExec :: bool
  download :: bool
  cap_install :: bool
  writeFs :: bool
  networkOut :: bool
  cron :: bool
  unrestricted :: bool

datatype mode = Open | Closed | Whitelist | Blacklist

record egress_policy =
  egress_mode :: mode
  hosts :: "string list"
  cidrs :: "string list"

record guard_profile =
  gp_id :: string
  gp_name :: string
  gp_description :: string
  gp_builtin :: bool
  gp_capabilities :: capabilities
  gp_commandsMode :: "mode option"
  gp_commands :: "command_rule list"
  gp_egress :: "egress_policy option"

record studio_form =
  form_name :: string
  form_description :: string
  form_caps :: capabilities
  commandsMode :: mode
  commands :: "command_rule list"
  egress :: egress_policy

text \<open>The body of a create or update request: the profile without \<open>id\<close> and \<open>builtin\<close>.\<close>

record profile_payload =
  pl_name :: string
  pl_description :: string
  pl_capabilities :: capabilities
  pl_commandsMode :: mode
  pl_commands :: "command_rule list"
  pl_egress :: egress_policy

definition DEFAULT_CAPS :: capabilities where
  "DEFAULT_CAPS = \<lparr>pipes = False, redirects = False, cmdSubst = False, background = False,
     sudo = False, codeExec = False, download = False, cap_install = False,
     writeFs = False, networkOut = False, cron = False, unrestricted = False\<rparr>"

definition DEFAULT_EGRESS :: egress_policy where
  "DEFAULT_EGRESS = \<lparr>egress_mode = Open, hosts = [], cidrs = []\<rparr>"

text \<open>The copy of the source makes fresh arrays; values have no identity here. A missing
  policy, or one of its missing fields, takes its default.\<close>

definition cloneEgress :: "egress_policy option \<Rightarrow> egress_policy" where
  "cloneEgress e = (case e of None \<Rightarrow> \<lparr>egress_mode = Open, hosts = [], cidrs = []\<rparr>
     | Some p \<Rightarrow> \<lparr>egress_mode = egress_mode p, hosts = hosts p, cidrs = cidrs p\<rparr>)"

definition EMPTY_FORM :: studio_form where
  "EMPTY_FORM = \<lparr>form_name = [], form_description = [], form_caps = DEFAULT_CAPS,
     commandsMode = Whitelist, commands = [], egress = cloneEgress (Some DEFAULT_EGRESS)\<rparr>"

definition fromProfile :: "guard_profile \<Rightarrow> studio_form" where
  "fromProfile p = \<lparr>form_name = gp_name p, form_description = gp_description p,
     form_caps = gp_capabilities p, commandsMode = or_else (gp_commandsMode p) Whitelist,
     commands = gp_commands p, egress = cloneEgress (gp_egress p)\<rparr>"

definition toPayload :: "studio_form \<Rightarrow> profile_payload" where
  "toPayload f = \<lparr>pl_name = form_name f, pl_description = form_description f,
     pl_capabilities = form_caps f, pl_commandsMode = commandsMode f,
     pl_commands = commands f, pl_egress = egress f\<rparr>"

section \<open>Modes\<close>

datatype tone = ToneOpen | ToneSafe | ToneWarn | ToneClosed

record mode_option =
  opt_id :: mode
  opt_label :: string
  opt_description :: string
  opt_icon :: string
  opt_badge :: string
  opt_tone :: tone

definition COMMANDS_MODES :: "mode_option list" where
  "COMMANDS_MODES =
    [\<lparr>opt_id = Open, opt_label = ''Allow everything'',
       opt_description = ''The agent can run any shell command without checks.'',
       opt_icon = ''Infinity'', opt_badge = ''Allow all'', opt_tone = ToneOpen\<rparr>,
     \<lparr>opt_id = Whitelist, opt_label = ''Only what I list'',
       opt_description = ''Strictest. Only commands you add below will run.'',
       opt_icon = ''ShieldCheck'', opt_badge = ''Listed only'', opt_tone = ToneSafe\<rparr>,
     \<lparr>opt_id = Blacklist, opt_label = ''Allow except my list'',
       opt_description = ''Run anything, except the commands you forbid below.'',
       opt_icon = ''Filter'', opt_badge = ''Except listed'', opt_tone = ToneWarn\<rparr>,
     \<lparr>opt_id = Closed, opt_label = ''Block everything'',
       opt_description = ''No commands can run at all.'',
       opt_icon = ''Ban'', opt_badge = ''Block all'', opt_tone = ToneClosed\<rparr>]"

definition EGRESS_MODES :: "mode_option list" where
  "EGRESS_MODES =
    [\<lparr>opt_id = Open, opt_label = ''Reach anywhere'',
       opt_description = ''The agent can connect to any host on the network.'',
       opt_icon = ''Infinity'', opt_badge = ''Allow all'', opt_tone = ToneOpen\<rparr>,
     \<lparr>opt_id = Whitelist, opt_label = ''Only what I list'',
       opt_description = ''Strictest. Only the hosts and IPs you add are reachable.'',
       opt_icon = ''ShieldCheck'', opt_badge = ''Listed only'', opt_tone = ToneSafe\<rparr>,
     \<lparr>opt_id = Blacklist, opt_label = ''Allow except my list'',
       opt_description = ''Reach anywhere, except the hosts and IPs you forbid.'',
       opt_icon = ''Filter'', opt_badge = ''Except listed'', opt_tone = ToneWarn\<rparr>,
     \<lparr>opt_id = Closed, opt_label = ''Block everything'',
       opt_description = ''No outbound network connections at all.'',
       opt_icon = ''Ban'', opt_badge = ''Block all'', opt_tone = ToneClosed\<rparr>]"

definition findCommandsMode :: "mode option \<Rightarrow> mode_option" where
  "findCommandsMode m =
     or_else (find (\<lambda>o1. opt_id o1 = or_else m Whitelist) COMMANDS_MODES) (COMMANDS_MODES ! 1)"

definition findEgressMode :: "mode option \<Rightarrow> mode_option" where
  "findEgressMode m =
     or_else (find (\<lambda>o1. opt_id o1 = or_else m Open) EGRESS_MODES) (EGRESS_MODES ! 0)"

section \<open>Capabilities\<close>

datatype cap = Pipes | Redirects | CmdSubst | Background | Sudo | CodeExec | Download | Install
  | WriteFs | NetworkOut | Cron | Unrestricted

text \<open>\<open>caps[k]\<close> and \<open>{ ...caps, [k]: v }\<close>.\<close>

fun get_cap :: "capabilities \<Rightarrow> cap \<Rightarrow> bool" where
  "get_cap c Pipes = pipes c"
| "get_cap c Redirects = redirects c"
| "get_cap c CmdSubst = cmdSubst c"
| "get_cap c Background = background c"
| "get_cap c Sudo = sudo c"
| "get_cap c CodeExec = codeExec c"
| "get_cap c Download = download c"
| "get_cap c Install = cap_install c"
| "get_cap c WriteFs = writeFs c"
| "get_cap c NetworkOut = networkOut c"
| "get_cap c Cron = cron c"
| "get_cap c Unrestricted = unrestricted c"

fun set_cap :: "cap \<Rightarrow> bool \<Rightarrow> capabilities \<Rightarrow> capabilities" where
  "set_cap Pipes v c = c\<lparr>pipes := v\<rparr>"
| "set_cap Redirects v c = c\<lparr>redirects := v\<rparr>"
| "set_cap CmdSubst v c = c\<lparr>cmdSubst := v\<rparr>"
| "set_cap Background v c = c\<lparr>background := v\<rparr>"
| "set_cap Sudo v c = c\<lparr>sudo := v\<rparr>"
| "set_cap CodeExec v c = c\<lparr>codeExec := v\<rparr>"
| "set_cap Download v c = c\<lparr>download := v\<rparr>"
| "set_cap Install v c = c\<lparr>cap_install := v\<rparr>"
| "set_cap WriteFs v c = c\<lparr>writeFs := v\<rparr>"
| "set_cap NetworkOut v c = c\<lparr>networkOut := v\<rparr>"
| "set_cap Cron v c = c\<lparr>cron := v\<rparr>"
| "set_cap Unrestricted v c = c\<lparr>unrestricted := v\<rparr>"

fun CAP_LABELS :: "cap \<Rightarrow> string" where
  "CAP_LABELS Pipes = ''Chain commands together''"
| "CAP_LABELS Redirects = ''Save output to files''"
| "CAP_LABELS CmdSubst = ''Use one command inside another''"
| "CAP_LABELS Background = ''Run commands in the background''"
| "CAP_LABELS Sudo = ''Run as administrator''"
| "CAP_LABELS CodeExec = ''Run inline scripts''"
| "CAP_LABELS Download = ''Download files from the internet''"
| "CAP_LABELS Install = ''Install software packages''"
| "CAP_LABELS WriteFs = ''Edit files and folders''"
| "CAP_LABELS NetworkOut = ''Connect to network services''"
| "CAP_LABELS Cron = ''Schedule tasks for later''"
| "CAP_LABELS Unrestricted = ''Bypass every check (use with care)''"

fun CAP_HINTS :: "cap \<Rightarrow> string" where
  "CAP_HINTS Pipes = ''Pipes like cmd1 | cmd2.''"
| "CAP_HINTS Redirects = ''Redirects with > and <.''"
| "CAP_HINTS CmdSubst = ''Embed $(cmd) inside arguments.''"
| "CAP_HINTS Background = ''Detach with & or nohup.''"
| "CAP_HINTS Sudo = ''Elevate with sudo.''"
| "CAP_HINTS CodeExec = ''bash -c, python -c, sh -c, '' @ [ellipsis]"
| "CAP_HINTS Download = ''curl, wget, scp, rsync, '' @ [ellipsis]"
| "CAP_HINTS Install = ''apt, pip, npm, brew, '' @ [ellipsis]"
| "CAP_HINTS WriteFs = ''cp, mv, mkdir, chmod, '' @ [ellipsis]"
| "CAP_HINTS NetworkOut = ''Outbound TCP/UDP connections.''"
| "CAP_HINTS Cron = ''crontab and at scheduling.''"
| "CAP_HINTS Unrestricted = ''Skips every other rule on this profile.''"

definition CAP_ORDER :: "cap list" where
  "CAP_ORDER = [Pipes, Redirects, CmdSubst, Background, Sudo, CodeExec, Download, Install,
     WriteFs, NetworkOut, Cron, Unrestricted]"

definition capList :: "capabilities \<Rightarrow> string" where
  "capList c =
     (if unrestricted c then CAP_LABELS Unrestricted
      else let on = filter (\<lambda>k. k \<noteq> Unrestricted \<and> get_cap c k) CAP_ORDER in
           if on \<noteq> [] then join '', '' (map CAP_LABELS on) else ''Nothing extra enabled'')"

definition RULE_TO_CAP :: "string \<Rightarrow> cap option" where
  "RULE_TO_CAP rule = map_of
    [(''pipes-disabled'', Pipes), (''redirects-disabled'', Redirects),
     (''cmd-subst-disabled'', CmdSubst), (''background-disabled'', Background),
     (''sudo-disabled'', Sudo), (''code-exec-disabled'', CodeExec),
     (''download-disabled'', Download), (''install-disabled'', Install),
     (''write-fs-disabled'', WriteFs), (''cron-disabled'', Cron)] rule"

section \<open>Changes of the form\<close>

definition extractCommandName :: "string \<Rightarrow> string option" where
  "extractCommandName cmd =
     (let t = trim cmd in
      if t = [] then None
      else let words = split_ws t; head = hd words in
           if head = ''sudo'' \<or> head = ''nohup'' then at words 1 else Some head)"

definition addCommandRule :: "studio_form \<Rightarrow> command_rule \<Rightarrow> studio_form" where
  "addCommandRule f r =
     (if list_ex (\<lambda>c. command c = command r) (commands f) then f
      else f\<lparr>commands := commands f @ [r]\<rparr>)"

definition removeCommand :: "studio_form \<Rightarrow> string \<Rightarrow> studio_form" where
  "removeCommand f n = f\<lparr>commands := drop_by command n (commands f)\<rparr>"

definition addArgToCommand :: "studio_form \<Rightarrow> string \<Rightarrow> string \<Rightarrow> studio_form" where
  "addArgToCommand f n arg =
     (case find_index (\<lambda>c. command c = n) (commands f) of
        None \<Rightarrow> f\<lparr>commands := commands f @ [(plain_rule n)\<lparr>allowed_args := Some [arg]\<rparr>]\<rparr>
      | Some i \<Rightarrow>
          (let c = commands f ! i; args = dedupe (or_else (allowed_args c) [] @ [arg])
           in f\<lparr>commands := (commands f)[i := c\<lparr>allowed_args := Some args\<rparr>]\<rparr>))"

definition addSqlToCommand :: "studio_form \<Rightarrow> string \<Rightarrow> string \<Rightarrow> studio_form" where
  "addSqlToCommand f n keyword =
     (case find_index (\<lambda>c. command c = n) (commands f) of
        None \<Rightarrow> f\<lparr>commands := commands f @ [(plain_rule n)\<lparr>allowed_sql := Some [keyword]\<rparr>]\<rparr>
      | Some i \<Rightarrow>
          (let c = commands f ! i; sql = dedupe (or_else (allowed_sql c) [] @ [keyword])
           in f\<lparr>commands := (commands f)[i := c\<lparr>allowed_sql := Some sql\<rparr>]\<rparr>))"

definition addHost :: "string list \<Rightarrow> string \<Rightarrow> string list" where
  "addHost xs h = (if h \<in> set xs then xs else xs @ [h])"

section \<open>Suggested fixes\<close>

record suggested_fix =
  fix_label :: string
  fix_apply :: "studio_form \<Rightarrow> studio_form"

definition quoted :: "string \<Rightarrow> string" where
  "quoted s = CHR 0x22 # s @ [CHR 0x22]"

text \<open>
  \<open>/"([^"]+) ([^"]+)" not allowed/\<close> searched in a message. At a quotation mark the greedy
  first group extends over the text up to the next quotation mark and gives back until a
  space follows it: the split is at the last space with text on both sides.
\<close>

fun last_space_split :: "string \<Rightarrow> (string \<times> string) option" where
  "last_space_split [] = None"
| "last_space_split (c # s) =
     (case last_space_split s of
        Some (a, b) \<Rightarrow> Some (c # a, b)
      | None \<Rightarrow> (case s of d # r \<Rightarrow> if d = CHR '' '' \<and> r \<noteq> [] then Some ([c], r) else None | [] \<Rightarrow> None))"

fun match_arg_message :: "string \<Rightarrow> (string \<times> string) option" where
  "match_arg_message [] = None"
| "match_arg_message (c # s) =
     (let inner = takeWhile (\<lambda>x. x \<noteq> CHR 0x22) s; after = dropWhile (\<lambda>x. x \<noteq> CHR 0x22) s;
          here = (if c = CHR 0x22 \<and> starts_with (CHR 0x22 # '' not allowed'') after
                  then last_space_split inner else None)
      in case here of Some p \<Rightarrow> Some p | None \<Rightarrow> match_arg_message s)"

text \<open>\<open>/SQL "?(\\?\w+)/i\<close>: the keyword after \<open>SQL \<close>, an optional quotation mark and an
  optional backslash.\<close>

definition sql_keyword_at :: "string \<Rightarrow> string option" where
  "sql_keyword_at s =
     (if map to_lower (take 4 s) \<noteq> ''sql '' then None
      else let r = drop 4 s;
               r1 = (case r of c # t \<Rightarrow> if c = CHR 0x22 then t else r | [] \<Rightarrow> []);
               (bs, r2) = (case r1 of c # t \<Rightarrow> if c = CHR 0x5C then ([c], t) else ([], r1) | [] \<Rightarrow> ([], []));
               w = takeWhile is_word r2
           in if w = [] then None else Some (bs @ w))"

fun match_sql_message :: "string \<Rightarrow> string option" where
  "match_sql_message [] = None"
| "match_sql_message (c # s) =
     (case sql_keyword_at (c # s) of Some k \<Rightarrow> Some k | None \<Rightarrow> match_sql_message s)"

definition suggestAllowCommand :: "string \<Rightarrow> string \<Rightarrow> string \<Rightarrow> suggested_fix option" where
  "suggestAllowCommand cmd rule message =
     (case RULE_TO_CAP rule of
        Some k \<Rightarrow> Some \<lparr>fix_label = ''Enable '' @ quoted (CAP_LABELS k),
                        fix_apply = (\<lambda>f. f\<lparr>form_caps := set_cap k True (form_caps f)\<rparr>)\<rparr>
      | None \<Rightarrow>
      if rule = ''commands-closed'' then
        map_option (\<lambda>n. \<lparr>fix_label = ''Allow '' @ quoted n,
                         fix_apply = (\<lambda>f. addCommandRule (f\<lparr>commandsMode := Whitelist\<rparr>) (plain_rule n))\<rparr>)
          (extractCommandName cmd)
      else if rule = ''command-blacklisted'' then
        map_option (\<lambda>n. \<lparr>fix_label = ''Unblock '' @ quoted n, fix_apply = (\<lambda>f. removeCommand f n)\<rparr>)
          (extractCommandName cmd)
      else if rule = ''command-not-allowed'' then
        map_option (\<lambda>n. \<lparr>fix_label = ''Allow '' @ quoted n,
                         fix_apply = (\<lambda>f. addCommandRule f (plain_rule n))\<rparr>)
          (extractCommandName cmd)
      else if rule = ''arg-not-allowed'' then
        map_option (\<lambda>(n, arg). \<lparr>fix_label = ''Allow '' @ quoted (n @ '' '' @ arg),
                                fix_apply = (\<lambda>f. addArgToCommand f n arg)\<rparr>)
          (match_arg_message message)
      else if rule = ''sql-not-allowed'' then
        (let n = or_else (extractCommandName cmd) [] in
         map_option (\<lambda>k. \<lparr>fix_label = ''Allow '' @ map to_upper k @ '' via '' @ n,
                          fix_apply = (\<lambda>f. addSqlToCommand f n (map to_upper k))\<rparr>)
           (match_sql_message message))
      else if rule = ''pipe-to-shell'' then
        Some \<lparr>fix_label = ''Enable inline scripts'',
              fix_apply = (\<lambda>f. f\<lparr>form_caps := (form_caps f)\<lparr>codeExec := True\<rparr>\<rparr>)\<rparr>
      else None)"

definition suggestBlockCommand :: "string \<Rightarrow> suggested_fix option" where
  "suggestBlockCommand cmd =
     map_option (\<lambda>n. \<lparr>fix_label = ''Block '' @ quoted n,
        fix_apply = (\<lambda>f.
          if commandsMode f = Open \<or> commandsMode f = Whitelist then
            (if commands (removeCommand (f\<lparr>commandsMode := Blacklist, commands := []\<rparr>) n) = []
             then f\<lparr>commandsMode := Blacklist, commands := [plain_rule n]\<rparr>
             else addCommandRule (f\<lparr>commandsMode := Blacklist\<rparr>) (plain_rule n))
          else if commandsMode f = Blacklist then addCommandRule f (plain_rule n)
          else f)\<rparr>)
       (extractCommandName cmd)"

text \<open>\<open>/^(?:\d{1,3}\.){3}\d{1,3}(?:\/\d{1,2})?$/\<close>\<close>

definition digits_upto :: "nat \<Rightarrow> string \<Rightarrow> bool" where
  "digits_upto n s \<longleftrightarrow> all_digits s \<and> length s \<le> n"

definition is_ipv4 :: "string \<Rightarrow> bool" where
  "is_ipv4 s = (case split_on CHR ''/'' s of
      [addr] \<Rightarrow> (case split_on CHR ''.'' addr of
          [a, b, c, d] \<Rightarrow> list_all (digits_upto 3) [a, b, c, d] | _ \<Rightarrow> False)
    | [addr, len] \<Rightarrow> (case split_on CHR ''.'' addr of
          [a, b, c, d] \<Rightarrow> list_all (digits_upto 3) [a, b, c, d] \<and> digits_upto 2 len | _ \<Rightarrow> False)
    | _ \<Rightarrow> False)"

text \<open>\<open>replace(/^host:|^cidr:|^ip:/, '')\<close>\<close>

definition strip_label :: "string \<Rightarrow> string" where
  "strip_label s =
     (if starts_with ''host:'' s then drop 5 s
      else if starts_with ''cidr:'' s then drop 5 s
      else if starts_with ''ip:'' s then drop 3 s
      else s)"

definition suggestAllowHost :: "string \<Rightarrow> string \<Rightarrow> suggested_fix option" where
  "suggestAllowHost target reason =
     (if reason = ''closed'' then
        Some \<lparr>fix_label = ''Allow '' @ quoted target,
              fix_apply = (\<lambda>f. f\<lparr>egress := \<lparr>egress_mode = Whitelist,
                 hosts = addHost (hosts (egress f)) target, cidrs = cidrs (egress f)\<rparr>\<rparr>)\<rparr>
      else if reason = ''not-in-whitelist'' then
        (if is_ipv4 target then
           Some \<lparr>fix_label = ''Allow '' @ target,
                 fix_apply = (\<lambda>f. f\<lparr>egress := (egress f)\<lparr>cidrs := addHost (cidrs (egress f)) target\<rparr>\<rparr>)\<rparr>
         else
           Some \<lparr>fix_label = ''Allow '' @ quoted target,
                 fix_apply = (\<lambda>f. f\<lparr>egress := (egress f)\<lparr>hosts := addHost (hosts (egress f)) target\<rparr>\<rparr>)\<rparr>)
      else if starts_with ''blacklist:'' reason then
        (let matched = strip_label (drop (length ''blacklist:'') reason) in
         Some \<lparr>fix_label = ''Unblock '' @ matched,
               fix_apply = (\<lambda>f. f\<lparr>egress := (egress f)
                 \<lparr>hosts := filter (\<lambda>h. h \<noteq> matched) (hosts (egress f)),
                  cidrs := filter (\<lambda>c. c \<noteq> matched) (cidrs (egress f))\<rparr>\<rparr>)\<rparr>)
      else None)"

definition suggestBlockHost :: "string \<Rightarrow> suggested_fix option" where
  "suggestBlockHost target =
     (if target = [] then None
      else Some \<lparr>fix_label = ''Block '' @ quoted target,
        fix_apply = (\<lambda>f.
          if egress_mode (egress f) = Open \<or> egress_mode (egress f) = Whitelist then
            f\<lparr>egress := \<lparr>egress_mode = Blacklist,
               hosts = (if is_ipv4 target then hosts (egress f) else addHost [] target),
               cidrs = (if is_ipv4 target then addHost [] target else cidrs (egress f))\<rparr>\<rparr>
          else if egress_mode (egress f) = Blacklist then
            f\<lparr>egress := (egress f)
              \<lparr>hosts := (if is_ipv4 target then hosts (egress f) else addHost (hosts (egress f)) target),
               cidrs := (if is_ipv4 target then addHost (cidrs (egress f)) target else cidrs (egress f))\<rparr>\<rparr>
          else f)\<rparr>)"

section \<open>Presets\<close>

record preset_card =
  card_id :: string
  card_label :: string
  card_hint :: string
  card_build :: studio_form

definition presets :: "preset_card list" where
  "presets =
    [\<lparr>card_id = ''readonly'', card_label = ''Look but don'' @ [right_quote] @ ''t touch'',
      card_hint = ''Inspect-only commands, no internet.'',
      card_build = \<lparr>form_name = [], form_description = ''Read-only inspection'',
        form_caps = DEFAULT_CAPS\<lparr>pipes := True\<rparr>, commandsMode = Whitelist,
        commands = map plain_rule [''ls'', ''cat'', ''grep'', ''head'', ''tail'', ''df'', ''ps'', ''wc'', ''find'', ''jq''],
        egress = \<lparr>egress_mode = Closed, hosts = [], cidrs = []\<rparr>\<rparr>\<rparr>,
     \<lparr>card_id = ''web'', card_label = ''Talk to APIs'',
      card_hint = ''curl, jq, downloads to a few trusted hosts.'',
      card_build = \<lparr>form_name = [], form_description = ''Curl + jq with a short list of hosts'',
        form_caps = DEFAULT_CAPS\<lparr>pipes := True, redirects := True, networkOut := True, download := True\<rparr>,
        commandsMode = Whitelist,
        commands = map plain_rule [''curl'', ''jq'', ''cat'', ''head''],
        egress = \<lparr>egress_mode = Whitelist, hosts = [''api.openai.com'', ''*.github.com''], cidrs = []\<rparr>\<rparr>\<rparr>,
     \<lparr>card_id = ''blocklist'', card_label = ''Mostly free'',
      card_hint = ''Allow most things, block dangerous commands.'',
      card_build = \<lparr>form_name = [], form_description = ''Most commands allowed; dangerous ones blocked'',
        form_caps = DEFAULT_CAPS\<lparr>pipes := True, redirects := True, cmdSubst := True, networkOut := True,
          download := True, writeFs := True, cap_install := True\<rparr>,
        commandsMode = Blacklist,
        commands = map plain_rule [''rm'', ''dd'', ''mkfs'', ''reboot'', ''shutdown'', ''halt'', ''init''],
        egress = \<lparr>egress_mode = Blacklist, hosts = [], cidrs = []\<rparr>\<rparr>\<rparr>,
     \<lparr>card_id = ''unrestricted'', card_label = ''No limits'',
      card_hint = ''Allow absolutely everything (risky).'',
      card_build = \<lparr>form_name = [], form_description = ''Allow everything (dangerous)'',
        form_caps = DEFAULT_CAPS\<lparr>unrestricted := True\<rparr>, commandsMode = Open, commands = [],
        egress = \<lparr>egress_mode = Open, hosts = [], cidrs = []\<rparr>\<rparr>\<rparr>]"

end
