(* ===== verification/GuardPolicy.thy ===== *)
theory GuardPolicy
  imports GuardStudio "HOL-Library.AList"
begin

text \<open>
  The server's reading of a guard profile, \<open>core/plugins/guard/guard.go\<close> and
  \<open>core/types/egress.go\<close>, as far as the studio's fixes are about it: the merge of the
  profile's command rules, the check of one call expression and of a SQL query, and the
  evaluation of an egress policy.

  The shell parser is a third-party package. A call expression arrives as the list of its
  words (\<open>resolveArgs\<close>), and \<open>nested\<close> is the check of the code given to a shell with \<open>-c\<close>,
  which parses that code. \<open>order\<close> is the order in which Go ranges over a map, which shows
  only in the text of messages. \<open>net.ParseIP\<close> and \<open>net.ParseCIDR\<close> are the parameters
  \<open>parse_ip\<close> and \<open>in_cidr\<close>.
\<close>

section \<open>Merging the rules of a profile\<close>

record merged_command =
  allow_all :: bool
  mc_allowed_args :: "string list"
  mc_allowed_sql :: "string list"
  mc_blocked_args :: "string list"
  mc_blocked_sql :: "string list list"

record merged_profile =
  mp_caps :: capabilities
  mp_mode :: mode
  mp_commands :: "(string \<times> merged_command) list"

record violation =
  v_rule :: string
  v_message :: string

definition fields :: "string \<Rightarrow> string list" where
  "fields s = filter non_empty (split_ws (trim s))"

definition splitSQLTokens :: "string \<Rightarrow> string list" where
  "splitSQLTokens s = map (map to_upper) (fields s)"

definition empty_merged :: merged_command where
  "empty_merged = \<lparr>allow_all = False, mc_allowed_args = [], mc_allowed_sql = [],
     mc_blocked_args = [], mc_blocked_sql = []\<rparr>"

definition merge_rule :: "command_rule \<Rightarrow> (string \<times> merged_command) list \<Rightarrow> (string \<times> merged_command) list" where
  "merge_rule r cmds =
     (let old = or_else (map_of cmds (command r)) empty_merged;
          aargs = or_else (allowed_args r) []; asql = or_else (allowed_sql r) [] in
      AList.update (command r)
        \<lparr>allow_all = allow_all old \<or> aargs = [] \<and> asql = [],
         mc_allowed_args = mc_allowed_args old @ aargs,
         mc_allowed_sql = mc_allowed_sql old @ map (map to_upper) asql,
         mc_blocked_args = mc_blocked_args old @ or_else (blocked_args r) [],
         mc_blocked_sql = mc_blocked_sql old
            @ filter (\<lambda>t. t \<noteq> []) (map splitSQLTokens (or_else (blocked_sql r) []))\<rparr> cmds)"

definition merge_profile :: "profile_payload \<Rightarrow> merged_profile" where
  "merge_profile p = \<lparr>mp_caps = pl_capabilities p, mp_mode = pl_commandsMode p,
     mp_commands = fold merge_rule (pl_commands p) []\<rparr>"

section \<open>Checking one call expression\<close>

definition shellInterpreters :: "string \<Rightarrow> string option" where
  "shellInterpreters = map_of
    [(''bash'', ''-c''), (''sh'', ''-c''), (''zsh'', ''-c''), (''dash'', ''-c''), (''python'', ''-c''),
     (''python3'', ''-c''), (''perl'', ''-e''), (''ruby'', ''-e''), (''node'', ''-e'')]"

definition sqlInterpreters :: "string \<Rightarrow> string option" where
  "sqlInterpreters = map_of [(''psql'', ''-c''), (''mysql'', ''-e''), (''sqlite3'', [])]"

definition nestingShells :: "string list" where
  "nestingShells = [''bash'', ''sh'', ''zsh'', ''dash'']"

definition downloadCommands :: "string list" where
  "downloadCommands = [''curl'', ''wget'', ''scp'', ''rsync'']"

definition installCommands :: "string list" where
  "installCommands = [''apt'', ''apt-get'', ''yum'', ''dnf'', ''pip'', ''pip3'', ''npm'', ''yarn'', ''brew'',
     ''snap'', ''gem'', ''cargo'', ''pacman'', ''zypper'', ''apk'']"

definition writeCommands :: "string list" where
  "writeCommands = [''cp'', ''mv'', ''mkdir'', ''touch'', ''tee'', ''chmod'', ''chown'', ''chgrp'', ''ln'',
     ''install'', ''rsync'']"

definition cronCommands :: "string list" where
  "cronCommands = [''crontab'', ''at'']"

fun scan_flag :: "string \<Rightarrow> string list \<Rightarrow> string" where
  "scan_flag flag [] = []"
| "scan_flag flag (a # rest) =
     (if a = flag \<and> rest \<noteq> [] then hd rest
      else if starts_with (flag @ ''='') a then drop (length flag + 1) a
      else if starts_with flag a \<and> length flag < length a then drop (length flag) a
      else scan_flag flag rest)"

definition extractFlag :: "string list \<Rightarrow> string \<Rightarrow> string" where
  "extractFlag args flag = (if flag = [] \<and> args \<noteq> [] then hd args else scan_flag flag args)"

definition trim_semis :: "string \<Rightarrow> string" where
  "trim_semis s = rev (dropWhile (\<lambda>c. c = CHR '';'') (rev s))"

definition matchSQLBlock :: "string \<Rightarrow> string list list \<Rightarrow> string" where
  "matchSQLBlock query blocks =
     (let tokens = splitSQLTokens query in
      if tokens = [] then []
      else case find (\<lambda>b. b \<noteq> [] \<and> length b \<le> length tokens
                       \<and> map trim_semis (take (length b) tokens) = b) blocks of
             Some b \<Rightarrow> join '' '' b | None \<Rightarrow> [])"

definition deny :: "string \<Rightarrow> string \<Rightarrow> violation option" where
  "deny rule msg = Some \<lparr>v_rule = rule, v_message = msg\<rparr>"

definition dashed :: "string \<Rightarrow> string \<Rightarrow> string" where
  "dashed a b = CHR '' '' # a @ [CHR '' '', em_dash, CHR '' ''] @ b"

text \<open>The names of a message, in the order in which the map of the commands is walked: the
  parameter \<open>order\<close>.\<close>

definition allowedCommandNames :: "(string list \<Rightarrow> string list) \<Rightarrow> merged_profile \<Rightarrow> string" where
  "allowedCommandNames order mp =
     (let names = order (map fst (mp_commands mp)) in
      if 20 < length names
      then join '', '' (take 20 names) @ '' (and '' @ nat_str (length names - 20) @ '' more)''
      else join '', '' names)"

text \<open>The three mode tests that \<open>checkCallExpr\<close> and \<open>checkSQL\<close> share, with what each does for
  a whitelisted command.\<close>

definition check_mode ::
  "(string list \<Rightarrow> string list) \<Rightarrow> merged_profile \<Rightarrow> string \<Rightarrow> (merged_command \<Rightarrow> violation option) \<Rightarrow> violation option" where
  "check_mode order mp name listed =
     (case mp_mode mp of
        Open \<Rightarrow> None
      | Closed \<Rightarrow> deny ''commands-closed'' (quoted name @ dashed ''blocked'' ''commands are closed in this profile'')
      | Blacklist \<Rightarrow>
          (case map_of (mp_commands mp) name of
             Some _ \<Rightarrow> deny ''command-blacklisted'' (quoted name @ '' is blocklisted in this profile'')
           | None \<Rightarrow> None)
      | Whitelist \<Rightarrow>
          (case map_of (mp_commands mp) name of
             None \<Rightarrow> deny ''command-not-allowed''
                 (quoted name @ '' is not allowed. Allowed: '' @ allowedCommandNames order mp)
           | Some mc \<Rightarrow> listed mc))"

definition checkSQL ::
  "(string list \<Rightarrow> string list) \<Rightarrow> merged_profile \<Rightarrow> string \<Rightarrow> string \<Rightarrow> violation option" where
  "checkSQL order mp name query =
     (let blocked = (case map_of (mp_commands mp) name of
                       Some mc \<Rightarrow> matchSQLBlock query (mc_blocked_sql mc) | None \<Rightarrow> []) in
      if blocked \<noteq> [] then
        deny ''sql-blocked'' (''SQL '' @ quoted blocked @ '' is blocked by this profile via '' @ name)
      else check_mode order mp name (\<lambda>mc.
        if allow_all mc \<or> mc_allowed_sql mc = [] then None
        else let t = trim query in
             if t = [] then None
             else let token = hd (fields t) in
                  if map to_upper token \<in> set (mc_allowed_sql mc) then None
                  else deny ''sql-not-allowed''
                    (''SQL '' @ (if hd t = CHR 0x5C then quoted token else map to_upper token)
                     @ '' not allowed via '' @ name @ ''. Allowed: '' @ join '', '' (order (remdups (mc_allowed_sql mc))))))"

text \<open>The capability a command name needs, with the rule of its violation, in the order of
  the source.\<close>

definition check_kind :: "capabilities \<Rightarrow> string \<Rightarrow> violation option" where
  "check_kind caps name =
     (if name \<in> set downloadCommands \<and> \<not> download caps then deny ''download-disabled'' (quoted name @ dashed ''blocked'' ''downloads not allowed'')
      else if name \<in> set installCommands \<and> \<not> cap_install caps then deny ''install-disabled'' (quoted name @ dashed ''blocked'' ''package install not allowed'')
      else if name \<in> set writeCommands \<and> \<not> writeFs caps then deny ''write-fs-disabled'' (quoted name @ dashed ''blocked'' ''filesystem writes not allowed (read-only)'')
      else if name \<in> set cronCommands \<and> \<not> cron caps then deny ''cron-disabled'' (quoted name @ dashed ''blocked'' ''scheduling not allowed'')
      else None)"

definition check_listed ::
  "(string list \<Rightarrow> string list) \<Rightarrow> merged_profile \<Rightarrow> string \<Rightarrow> string list \<Rightarrow> violation option" where
  "check_listed order mp name args =
     (let blocked = (case map_of (mp_commands mp) name of
          Some mc \<Rightarrow> 1 < length args \<and> args ! 1 \<in> set (mc_blocked_args mc) | None \<Rightarrow> False) in
      if blocked then deny ''arg-blocked'' (quoted (name @ '' '' @ args ! 1) @ '' is blocked by this profile'')
      else case check_kind (mp_caps mp) name of
        Some v \<Rightarrow> Some v
      | None \<Rightarrow> check_mode order mp name (\<lambda>mc.
          if allow_all mc then None
          else if mc_allowed_args mc \<noteq> [] \<and> 1 < length args \<and> args ! 1 \<notin> set (mc_allowed_args mc)
          then deny ''arg-not-allowed''
                 (quoted (name @ '' '' @ args ! 1) @ '' not allowed. Allowed for '' @ name @ '': ''
                  @ join '', '' (order (remdups (mc_allowed_args mc))))
          else None))"

text \<open>\<open>checkCallExpr\<close> after \<open>sudo\<close> and \<open>nohup\<close> have been taken off: \<open>args\<close> starts with the
  command name.\<close>

definition check_named ::
  "(string list \<Rightarrow> string list) \<Rightarrow> (string \<Rightarrow> violation option) \<Rightarrow> merged_profile \<Rightarrow> string list \<Rightarrow> violation option" where
  "check_named order nested mp args =
     (let name = hd args;
          code = (case shellInterpreters name of Some flag \<Rightarrow> extractFlag (tl args) flag | None \<Rightarrow> []);
          query = (case sqlInterpreters name of Some flag \<Rightarrow> extractFlag (tl args) flag | None \<Rightarrow> []) in
      if code \<noteq> [] \<and> \<not> codeExec (mp_caps mp) then
        deny ''code-exec-disabled'' (name @ '' -c'' @ dashed ''is not allowed'' ''run commands directly'')
      else if code \<noteq> [] \<and> name \<in> set nestingShells then nested code
      else if query \<noteq> [] then checkSQL order mp name query
      else check_listed order mp name args)"

definition strip_sudo :: "capabilities \<Rightarrow> string list \<Rightarrow> violation option + string list" where
  "strip_sudo caps args =
     (if args = [] then Inl None
      else if hd args = ''sudo'' then
        (if \<not> sudo caps then Inl (deny ''sudo-disabled'' (''sudo'' @ dashed ''is not allowed'' ''run without sudo''))
         else if tl args = [] then Inl None else Inr (tl args))
      else Inr args)"

definition strip_nohup :: "capabilities \<Rightarrow> string list \<Rightarrow> violation option + string list" where
  "strip_nohup caps args =
     (if hd args = ''nohup'' then
        (if \<not> background caps then Inl (deny ''background-disabled'' (''nohup'' @ dashed ''is not allowed'' ''run in foreground''))
         else if tl args = [] then Inl None else Inr (tl args))
      else Inr args)"

definition checkCallExpr ::
  "(string list \<Rightarrow> string list) \<Rightarrow> (string \<Rightarrow> violation option) \<Rightarrow> merged_profile \<Rightarrow> string list \<Rightarrow> violation option" where
  "checkCallExpr order nested mp args =
     (case strip_sudo (mp_caps mp) args of
        Inl v \<Rightarrow> v
      | Inr args1 \<Rightarrow>
          (case strip_nohup (mp_caps mp) args1 of
             Inl v \<Rightarrow> v
           | Inr args2 \<Rightarrow> check_named order nested mp args2))"

text \<open>\<open>Evaluate\<close> for one profile and a command that is one call expression.\<close>

definition evaluate_call ::
  "(string list \<Rightarrow> string list) \<Rightarrow> (merged_profile \<Rightarrow> string \<Rightarrow> violation option) \<Rightarrow> profile_payload \<Rightarrow> string list \<Rightarrow> violation option" where
  "evaluate_call order nested p args =
     (let mp = merge_profile p in
      if unrestricted (mp_caps mp) then None else checkCallExpr order (nested mp) mp args)"

section \<open>Evaluating an egress policy\<close>

definition trim_suffix_dot :: "string \<Rightarrow> string" where
  "trim_suffix_dot s = (if s \<noteq> [] \<and> last s = CHR ''.'' then butlast s else s)"

definition has_suffix :: "string \<Rightarrow> string \<Rightarrow> bool" where
  "has_suffix suf s \<longleftrightarrow> length suf \<le> length s \<and> drop (length s - length suf) s = suf"

definition norm_host :: "string \<Rightarrow> string" where
  "norm_host h = map to_lower (trim (trim_suffix_dot h))"

definition host_hit :: "string \<Rightarrow> string \<Rightarrow> string option" where
  "host_hit host h =
     (let n = norm_host h in
      if n = [] then None
      else if starts_with ''*.'' n then (if has_suffix (tl n) host then Some (''host:'' @ n) else None)
      else if n = host then Some (''host:'' @ n) else None)"

definition ip_hit :: "(string \<Rightarrow> string \<Rightarrow> bool) \<Rightarrow> string \<Rightarrow> string \<Rightarrow> string option" where
  "ip_hit in_cidr target c =
     (let n = trim c in
      if n = [] then None
      else if CHR ''/'' \<notin> set n then (if n = target then Some (''ip:'' @ n) else None)
      else if in_cidr n target then Some (''cidr:'' @ n) else None)"

fun first_some :: "('a \<Rightarrow> 'b option) \<Rightarrow> 'a list \<Rightarrow> 'b option" where
  "first_some f [] = None"
| "first_some f (x # xs) = (case f x of Some y \<Rightarrow> Some y | None \<Rightarrow> first_some f xs)"

definition egress_matches ::
  "(string \<Rightarrow> bool) \<Rightarrow> (string \<Rightarrow> string \<Rightarrow> bool) \<Rightarrow> egress_policy \<Rightarrow> string \<Rightarrow> string option" where
  "egress_matches parse_ip in_cidr p target =
     (if parse_ip target then first_some (ip_hit in_cidr target) (cidrs p)
      else first_some (host_hit (map to_lower (trim_suffix_dot target))) (hosts p))"

definition egress_evaluate ::
  "(string \<Rightarrow> bool) \<Rightarrow> (string \<Rightarrow> string \<Rightarrow> bool) \<Rightarrow> egress_policy \<Rightarrow> string \<Rightarrow> bool \<times> string" where
  "egress_evaluate parse_ip in_cidr p target0 =
     (let target = trim target0 in
      if target = [] then (True, ''empty'')
      else case egress_mode p of
        Open \<Rightarrow> (True, ''open'')
      | Closed \<Rightarrow> (False, ''closed'')
      | Whitelist \<Rightarrow>
          (case egress_matches parse_ip in_cidr p target of
             Some label \<Rightarrow> (True, ''whitelist:'' @ label) | None \<Rightarrow> (False, ''not-in-whitelist''))
      | Blacklist \<Rightarrow>
          (case egress_matches parse_ip in_cidr p target of
             Some label \<Rightarrow> (False, ''blacklist:'' @ label) | None \<Rightarrow> (True, ''not-in-blacklist'')))"

section \<open>The merged rules of a profile\<close>

lemma map_of_merge_rule: "map_of (merge_rule r cmds) = (map_of cmds)(command r \<mapsto>
    (let old = or_else (map_of cmds (command r)) empty_merged;
          aargs = or_else (allowed_args r) []; asql = or_else (allowed_sql r) [] in
        \<lparr>allow_all = allow_all old \<or> aargs = [] \<and> asql = [],
         mc_allowed_args = mc_allowed_args old @ aargs,
         mc_allowed_sql = mc_allowed_sql old @ map (map to_upper) asql,
         mc_blocked_args = mc_blocked_args old @ or_else (blocked_args r) [],
         mc_blocked_sql = mc_blocked_sql old
            @ filter (\<lambda>t. t \<noteq> []) (map splitSQLTokens (or_else (blocked_sql r) []))\<rparr>))"
  by (simp add: merge_rule_def Let_def update_conv')

lemma merge_rule_other: "j \<noteq> command r \<Longrightarrow> map_of (merge_rule r cmds) j = map_of cmds j"
  by (simp add: map_of_merge_rule)

lemma merge_rule_cong:
  "map_of c1 j = map_of c2 j \<Longrightarrow> map_of (merge_rule r c1) j = map_of (merge_rule r c2) j"
  by (auto simp: map_of_merge_rule)

lemma merge_rules_cong:
  "map_of c1 j = map_of c2 j \<Longrightarrow> map_of (fold merge_rule rs c1) j = map_of (fold merge_rule rs c2) j"
proof (induction rs arbitrary: c1 c2)
  case (Cons r rs)
  from Cons.IH [OF merge_rule_cong [OF Cons.prems]] show ?case by simp
qed simp

lemma merge_rules_fresh: "j \<notin> command ` set rs \<Longrightarrow> map_of (fold merge_rule rs cmds) j = map_of cmds j"
  by (induction rs arbitrary: cmds) (auto simp: merge_rule_other)

lemma merge_rules_dom: "map_of (fold merge_rule rs cmds) j = None \<longleftrightarrow> j \<notin> command ` set rs \<and> map_of cmds j = None"
  by (induction rs arbitrary: cmds) (auto simp: map_of_merge_rule)

lemma merge_rules_drop:
  "j \<noteq> n \<Longrightarrow> map_of (fold merge_rule (drop_by command n rs) cmds) j = map_of (fold merge_rule rs cmds) j"
proof (induction rs arbitrary: cmds)
  case (Cons r rs)
  then show ?case
    using merge_rules_cong [of "merge_rule r cmds" j cmds rs] by (auto simp: merge_rule_other)
qed simp

lemma merge_rules_plain:
  "n \<notin> command ` set rs \<Longrightarrow> map_of (fold merge_rule (rs @ [plain_rule n]) []) n
     = Some (empty_merged\<lparr>allow_all := True\<rparr>)"
  by (simp add: map_of_merge_rule merge_rules_fresh plain_rule_def or_else_def empty_merged_def)

section \<open>What the check of a call depends on\<close>

text \<open>The command name the guard looks at: the first word after \<open>sudo\<close> and \<open>nohup\<close>.\<close>

definition call_args :: "string list \<Rightarrow> string list" where
  "call_args args =
     (let a = (if args \<noteq> [] \<and> hd args = ''sudo'' then tl args else args)
      in if a \<noteq> [] \<and> hd a = ''nohup'' then tl a else a)"

definition call_name :: "string list \<Rightarrow> string" where
  "call_name args = hd (call_args args)"

definition mode_rules :: "string set" where
  "mode_rules = {''commands-closed'', ''command-blacklisted'', ''command-not-allowed'',
     ''arg-not-allowed'', ''sql-not-allowed''}"

definition unblocked :: "merged_command \<Rightarrow> bool" where
  "unblocked mc \<longleftrightarrow> mc_blocked_args mc = [] \<and> mc_blocked_sql mc = []"

text \<open>The merged profile lets the command through, whatever its arguments.\<close>

definition permits :: "merged_profile \<Rightarrow> string \<Rightarrow> bool" where
  "permits mp n \<longleftrightarrow> (case map_of (mp_commands mp) n of
      None \<Rightarrow> mp_mode mp = Open \<or> mp_mode mp = Blacklist
    | Some mc \<Rightarrow> unblocked mc \<and> (mp_mode mp = Open \<or> mp_mode mp = Whitelist \<and> allow_all mc))"

lemma matchSQLBlock_nil [simp]: "matchSQLBlock q [] = []"
  by (simp add: matchSQLBlock_def Let_def)

lemma permits_mode:
  assumes "permits mp n" and "\<And>mc. allow_all mc \<Longrightarrow> listed mc = None"
  shows "check_mode order mp n listed = None"
  using assms by (auto simp: permits_def check_mode_def split: option.splits mode.splits)

lemma permits_sql: "permits mp n \<Longrightarrow> checkSQL order mp n q = None"
  unfolding checkSQL_def Let_def
  by (subst permits_mode) (auto simp: permits_def unblocked_def split: option.splits)

lemma permits_listed:
  "permits mp n \<Longrightarrow> check_kind (mp_caps mp) n = None \<Longrightarrow> check_listed order mp n args = None"
  unfolding check_listed_def Let_def
  by (auto simp: permits_mode permits_def [of mp n] unblocked_def split: option.splits)

lemma check_kind_rule: "check_kind caps n = Some v \<Longrightarrow> v_rule v \<notin> mode_rules"
  by (auto simp: check_kind_def deny_def mode_rules_def split: if_splits)

lemma check_named_mode_rule:
  assumes "check_named order nst mp args = Some v" and "v_rule v \<in> mode_rules"
    and "hd args \<notin> set nestingShells" and "mp_caps mp' = mp_caps mp" and "permits mp' (hd args)"
  shows "check_named order nst' mp' args = None"
proof -
  have kind: "check_kind (mp_caps mp) (hd args) = None"
    if "check_listed order mp (hd args) args = Some v"
    using that assms(2) check_kind_rule
    by (auto simp: check_listed_def Let_def mode_rules_def deny_def split: option.splits if_splits)
  then show ?thesis
    using assms
    by (auto simp: check_named_def Let_def permits_sql deny_def mode_rules_def
        intro!: permits_listed split: if_splits option.splits)
qed

lemma checkCallExpr_named:
  assumes "checkCallExpr order nst mp args = Some v" and "v_rule v \<in> mode_rules"
  shows "check_named order nst mp (call_args args) = Some v"
    and "\<And>mp' nst'. mp_caps mp' = mp_caps mp \<Longrightarrow>
      checkCallExpr order nst' mp' args = check_named order nst' mp' (call_args args)"
  using assms
  by (auto simp: checkCallExpr_def strip_sudo_def strip_nohup_def call_args_def deny_def mode_rules_def
      split: if_splits)

lemma checkCallExpr_mode_rule:
  assumes "checkCallExpr order nst mp args = Some v" and "v_rule v \<in> mode_rules"
    and "call_name args \<notin> set nestingShells" and "mp_caps mp' = mp_caps mp"
    and "permits mp' (call_name args)"
  shows "checkCallExpr order nst' mp' args = None"
  using check_named_mode_rule [OF checkCallExpr_named(1) [OF assms(1,2)] assms(2)]
    checkCallExpr_named(2) [OF assms(1,2) assms(4)] assms(3-5)
  by (simp add: call_name_def)

section \<open>The name in the text of a command\<close>

lemma extract_call_name:
  assumes "trim cmd \<noteq> []" and "\<not> (at (split_ws (trim cmd)) 0 = Some ''sudo'' \<and> at (split_ws (trim cmd)) 1 = Some ''nohup'')"
    and "call_args (split_ws (trim cmd)) \<noteq> []"
  shows "extractCommandName cmd = Some (call_name (split_ws (trim cmd)))"
proof -
  obtain w ws where w: "split_ws (trim cmd) = w # ws"
    using split_ws_not_nil by (cases "split_ws (trim cmd)") auto
  show ?thesis
    using assms w
    by (cases ws) (auto simp: extractCommandName_def call_name_def call_args_def at_def split: if_splits)
qed

end
