(* ===== verification/GuardFixes.thy ===== *)
theory GuardFixes
  imports GuardPolicy
begin

text \<open>The one-click fixes of the guard studio (\<open>frontend/src/guard-profiles/types.ts\<close>) against the
  server's verdict (\<open>core/plugins/guard/guard.go\<close>, \<open>core/types/egress.go\<close>): how each edit of the
  form changes the merged profile, and which violations a fix clears.\<close>

section \<open>Fixes that let a command through\<close>

lemma last_space_split_none: "CHR '' '' \<notin> set s \<Longrightarrow> last_space_split s = None"
  by (induction s) (auto split: list.splits)

lemma last_space_split_words:
  "a \<noteq> [] \<Longrightarrow> b \<noteq> [] \<Longrightarrow> CHR '' '' \<notin> set a \<Longrightarrow> CHR '' '' \<notin> set b \<Longrightarrow>
   last_space_split (a @ CHR '' '' # b) = Some (a, b)"
proof (induction a)
  case (Cons c a)
  have sp: "last_space_split (CHR '' '' # b) = None"
    using Cons.prems last_space_split_none [of b]
    by (subst last_space_split.simps) (auto simp del: last_space_split.simps split: list.splits)
  show ?case
    using Cons sp by (cases "a = []") auto
qed simp

lemma match_arg_message_words:
  assumes "a \<noteq> []" "b \<noteq> []" "CHR '' '' \<notin> set a" "CHR '' '' \<notin> set b" "CHR 0x22 \<notin> set a" "CHR 0x22 \<notin> set b"
  shows "match_arg_message (quoted (a @ '' '' @ b) @ '' not allowed'' @ t) = Some (a, b)"
proof -
  let ?i = "a @ CHR '' '' # b"
  have q: "CHR 0x22 \<notin> set ?i" using assms by auto
  have "takeWhile (\<lambda>x. x \<noteq> CHR 0x22) (?i @ CHR 0x22 # r) = ?i"
    and "dropWhile (\<lambda>x. x \<noteq> CHR 0x22) (?i @ CHR 0x22 # r) = CHR 0x22 # r" for r
    using q by (auto simp: takeWhile_append takeWhile_eq_all_conv dropWhile_append)
  then show ?thesis
    using last_space_split_words [OF assms(1-4)] by (simp add: quoted_def starts_with_def)
qed

text \<open>The row of one command in a merged profile.\<close>

definition rows_of :: "string \<Rightarrow> command_rule list \<Rightarrow> command_rule list" where
  "rows_of n rs = filter (\<lambda>r. command r = n) rs"

definition merged_row :: "command_rule list \<Rightarrow> merged_command" where
  "merged_row rs =
     \<lparr>allow_all = list_ex (\<lambda>r. or_else (allowed_args r) [] = [] \<and> or_else (allowed_sql r) [] = []) rs,
      mc_allowed_args = concat (map (\<lambda>r. or_else (allowed_args r) []) rs),
      mc_allowed_sql = concat (map (\<lambda>r. map (map to_upper) (or_else (allowed_sql r) [])) rs),
      mc_blocked_args = concat (map (\<lambda>r. or_else (blocked_args r) []) rs),
      mc_blocked_sql = concat (map (\<lambda>r. filter (\<lambda>t. t \<noteq> []) (map splitSQLTokens (or_else (blocked_sql r) []))) rs)\<rparr>"

lemma merged_row_append: "merged_row (xs @ ys) =
    (let a = merged_row xs; b = merged_row ys in
     \<lparr>allow_all = allow_all a \<or> allow_all b, mc_allowed_args = mc_allowed_args a @ mc_allowed_args b,
      mc_allowed_sql = mc_allowed_sql a @ mc_allowed_sql b, mc_blocked_args = mc_blocked_args a @ mc_blocked_args b,
      mc_blocked_sql = mc_blocked_sql a @ mc_blocked_sql b\<rparr>)"
  by (simp add: merged_row_def)

lemma merged_row_nil: "merged_row [] = empty_merged"
  by (simp add: merged_row_def empty_merged_def)

lemma map_of_merge_rules: "map_of (fold merge_rule rs []) n =
    (if rows_of n rs = [] then None else Some (merged_row (rows_of n rs)))"
proof (induction rs rule: rev_induct)
  case (snoc r rs)
  show ?case
  proof (cases "command r = n")
    case True
    have "or_else (if rows_of n rs = [] then None else Some (merged_row (rows_of n rs))) empty_merged
        = merged_row (rows_of n rs)"
      by (simp add: or_else_def merged_row_nil)
    with snoc True show ?thesis
      by (simp add: map_of_merge_rule rows_of_def merged_row_append Let_def) (simp add: merged_row_def)
  next
    case False
    with snoc show ?thesis by (simp add: merge_rule_other rows_of_def)
  qed
qed (simp add: rows_of_def)

lemma rows_of_update:
  assumes "i < length rs" and "command (rs ! i) = n"
  shows "\<exists>xs ys. rows_of n rs = xs @ rs ! i # ys \<and> (\<forall>r. command r = n \<longrightarrow> rows_of n (rs[i := r]) = xs @ r # ys)"
proof (intro exI conjI allI impI)
  have "rows_of n rs = rows_of n (take i rs @ rs ! i # drop (Suc i) rs)"
    by (rule arg_cong [where f = "rows_of n"]) (rule id_take_nth_drop [OF assms(1)])
  then show "rows_of n rs = rows_of n (take i rs) @ rs ! i # rows_of n (drop (Suc i) rs)"
    using assms(2) by (simp add: rows_of_def)
  show "rows_of n (rs[i := r]) = rows_of n (take i rs) @ r # rows_of n (drop (Suc i) rs)" if "command r = n" for r
    using that by (simp add: upd_conv_take_nth_drop [OF assms(1)] rows_of_def)
qed

lemma updated_row:
  assumes "map_of (fold merge_rule rs []) n = Some mc"
  obtains i xs ys where "find_index (\<lambda>c. command c = n) rs = Some i" and "command (rs ! i) = n"
    and "rows_of n rs = xs @ rs ! i # ys" and "\<And>r. command r = n \<Longrightarrow> rows_of n (rs[i := r]) = xs @ r # ys"
proof -
  have "n \<in> command ` set rs" using assms merge_rules_dom [of rs "[]" n] by auto
  then obtain i where i: "find_index (\<lambda>c. command c = n) rs = Some i"
    using find_index_None [of "\<lambda>c. command c = n" rs] by (cases "find_index (\<lambda>c. command c = n) rs") auto
  then have "i < length rs" and c: "command (rs ! i) = n" by (auto simp: find_index_Some)
  from rows_of_update [OF this] that [OF i c] show ?thesis by blast
qed

text \<open>A row that was extended: nothing new is blocked, and more is allowed.\<close>

definition extends_row :: "merged_command \<Rightarrow> merged_command \<Rightarrow> bool" where
  "extends_row a b \<longleftrightarrow> mc_blocked_args b = mc_blocked_args a \<and> mc_blocked_sql b = mc_blocked_sql a
     \<and> set (mc_allowed_args a) \<subseteq> set (mc_allowed_args b) \<and> set (mc_allowed_sql a) \<subseteq> set (mc_allowed_sql b)"

lemma extends_row_replace:
  assumes "blocked_args r' = blocked_args r" and "blocked_sql r' = blocked_sql r"
    and "set (or_else (allowed_args r) []) \<subseteq> set (or_else (allowed_args r') [])"
    and "set (or_else (allowed_sql r) []) \<subseteq> set (or_else (allowed_sql r') [])"
  shows "extends_row (merged_row (xs @ r # ys)) (merged_row (xs @ r' # ys))"
proof -
  have "(map to_upper) ` set (or_else (allowed_sql r) []) \<subseteq> (map to_upper) ` set (or_else (allowed_sql r') [])"
    using assms(4) by (rule image_mono)
  with assms(1-3) show ?thesis by (simp add: extends_row_def merged_row_def) blast
qed

lemma addArg_row:
  assumes "map_of (fold merge_rule (commands f) []) n = Some mc"
  obtains mc' where "map_of (fold merge_rule (commands (addArgToCommand f n arg)) []) n = Some mc'"
    and "extends_row mc mc'" and "arg \<in> set (mc_allowed_args mc')"
proof -
  obtain i xs ys where i: "find_index (\<lambda>c. command c = n) (commands f) = Some i"
    and c: "command (commands f ! i) = n" and rows: "rows_of n (commands f) = xs @ commands f ! i # ys"
    and upd: "\<And>r. command r = n \<Longrightarrow> rows_of n ((commands f)[i := r]) = xs @ r # ys"
    using updated_row [OF assms] by blast
  let ?r = "(commands f ! i)\<lparr>allowed_args := Some (dedupe (or_else (allowed_args (commands f ! i)) [] @ [arg]))\<rparr>"
  have new: "rows_of n (commands (addArgToCommand f n arg)) = xs @ ?r # ys"
    using upd [of ?r] c by (simp add: addArgToCommand_def i Let_def)
  have old: "mc = merged_row (xs @ commands f ! i # ys)"
    using assms by (simp add: map_of_merge_rules rows)
  show ?thesis
  proof (rule that [of "merged_row (xs @ ?r # ys)"])
    show "extends_row mc (merged_row (xs @ ?r # ys))"
      unfolding old by (rule extends_row_replace) (auto simp: or_else_def)
  qed (auto simp: new map_of_merge_rules merged_row_def or_else_def)
qed

lemma addSql_row:
  assumes "map_of (fold merge_rule (commands f) []) n = Some mc"
  obtains mc' where "map_of (fold merge_rule (commands (addSqlToCommand f n k)) []) n = Some mc'"
    and "extends_row mc mc'" and "map to_upper k \<in> set (mc_allowed_sql mc')"
proof -
  obtain i xs ys where i: "find_index (\<lambda>c. command c = n) (commands f) = Some i"
    and c: "command (commands f ! i) = n" and rows: "rows_of n (commands f) = xs @ commands f ! i # ys"
    and upd: "\<And>r. command r = n \<Longrightarrow> rows_of n ((commands f)[i := r]) = xs @ r # ys"
    using updated_row [OF assms] by blast
  let ?r = "(commands f ! i)\<lparr>allowed_sql := Some (dedupe (or_else (allowed_sql (commands f ! i)) [] @ [k]))\<rparr>"
  have new: "rows_of n (commands (addSqlToCommand f n k)) = xs @ ?r # ys"
    using upd [of ?r] c by (simp add: addSqlToCommand_def i Let_def)
  have old: "mc = merged_row (xs @ commands f ! i # ys)"
    using assms by (simp add: map_of_merge_rules rows)
  show ?thesis
  proof (rule that [of "merged_row (xs @ ?r # ys)"])
    show "extends_row mc (merged_row (xs @ ?r # ys))"
      unfolding old by (rule extends_row_replace) (auto simp: or_else_def)
  qed (auto simp: new map_of_merge_rules merged_row_def or_else_def)
qed


section \<open>The fixes of the studio and the server's verdict\<close>

abbreviation listed_in :: "studio_form \<Rightarrow> string \<Rightarrow> bool" where
  "listed_in f n \<equiv> n \<in> command ` set (commands f)"

lemma addCommandRule_fresh: "\<not> listed_in f n \<Longrightarrow> addCommandRule f (plain_rule n) = f\<lparr>commands := commands f @ [plain_rule n]\<rparr>"
  by (auto simp: addCommandRule_def list_ex_iff plain_rule_def)

lemma permits_plain:
  assumes "\<not> listed_in f n" and "commandsMode f' = Whitelist" and "commands f' = commands f @ [plain_rule n]"
  shows "permits (merge_profile (toPayload f')) n"
  using merge_rules_plain [of n "commands f"] assms
  by (simp add: permits_def merge_profile_def toPayload_def unblocked_def empty_merged_def)

lemma permits_removed:
  assumes "commandsMode f = Blacklist"
  shows "permits (merge_profile (toPayload (removeCommand f n))) n"
proof -
  have "map_of (fold merge_rule (drop_by command n (commands f)) []) n = None"
    by (auto simp: merge_rules_dom set_drop_by)
  with assms show ?thesis
    by (simp add: permits_def merge_profile_def toPayload_def removeCommand_def)
qed

lemma evaluate_checks: "evaluate_call order nst p args = Some v \<Longrightarrow>
    checkCallExpr order (nst (merge_profile p)) (merge_profile p) args = Some v \<and> \<not> unrestricted (pl_capabilities p)"
  by (auto simp: evaluate_call_def Let_def merge_profile_def split: if_splits)

lemma evaluate_mode_rule:
  assumes "evaluate_call order nst p args = Some v" and "v_rule v \<in> mode_rules"
    and "call_name args \<notin> set nestingShells" and "pl_capabilities p' = pl_capabilities p"
    and "permits (merge_profile p') (call_name args)"
  shows "evaluate_call order nst p' args = None"
  using checkCallExpr_mode_rule [OF evaluate_checks [OF assms(1), THEN conjunct1] assms(2,3) _ assms(5)] assms(4)
  by (simp add: evaluate_call_def Let_def merge_profile_def)

text \<open>What a violation of one of the three mode rules says of the merged profile.\<close>

definition mode_facts :: "merged_profile \<Rightarrow> string \<Rightarrow> violation \<Rightarrow> bool" where
  "mode_facts mp n v \<longleftrightarrow>
     (v_rule v = ''command-not-allowed'' \<longrightarrow> mp_mode mp = Whitelist \<and> map_of (mp_commands mp) n = None)
   \<and> (v_rule v = ''command-blacklisted'' \<longrightarrow> mp_mode mp = Blacklist \<and> map_of (mp_commands mp) n \<noteq> None)
   \<and> (v_rule v = ''commands-closed'' \<longrightarrow> mp_mode mp = Closed)"

lemma check_mode_facts:
  assumes "check_mode order mp n listed = Some v"
    and "\<And>mc w. listed mc = Some w \<Longrightarrow> v_rule w = ''arg-not-allowed'' \<or> v_rule w = ''sql-not-allowed''"
  shows "mode_facts mp n v"
  using assms(1) assms(2) [of _ v]
  by (auto simp: check_mode_def mode_facts_def deny_def split: mode.splits option.splits)

lemma deny_facts: "deny r m = Some v \<Longrightarrow> r \<notin> mode_rules \<Longrightarrow> mode_facts mp n v"
  by (auto simp: deny_def mode_facts_def mode_rules_def)

lemma checkSQL_facts:
  assumes "checkSQL order mp n q = Some v"
  shows "mode_facts mp n v"
proof (cases "case map_of (mp_commands mp) n of Some mc \<Rightarrow> matchSQLBlock q (mc_blocked_sql mc) | None \<Rightarrow> []")
  case Nil
  with assms show ?thesis
    by (simp add: checkSQL_def) (erule check_mode_facts, auto simp: deny_def Let_def split: if_splits)
next
  case (Cons c cs)
  with assms show ?thesis
    by (auto simp: checkSQL_def Let_def mode_rules_def intro!: deny_facts)
qed

lemma check_listed_facts:
  assumes "check_listed order mp n args = Some v"
  shows "mode_facts mp n v"
proof (cases "case map_of (mp_commands mp) n of
          Some mc \<Rightarrow> 1 < length args \<and> args ! 1 \<in> set (mc_blocked_args mc) | None \<Rightarrow> False")
  case True
  with assms show ?thesis
    by (auto simp: check_listed_def Let_def mode_rules_def intro!: deny_facts)
next
  case False
  show ?thesis
  proof (cases "check_kind (mp_caps mp) n")
    case None
    with assms False show ?thesis
      by (simp add: check_listed_def) (erule check_mode_facts, auto simp: deny_def Let_def split: if_splits)
  next
    case (Some w)
    then have "v = w" using assms False by (simp add: check_listed_def Let_def)
    with check_kind_rule [OF Some] show ?thesis by (auto simp: mode_facts_def mode_rules_def)
  qed
qed

lemma check_named_facts:
  assumes "check_named order nst mp args = Some v" and "hd args \<notin> set nestingShells"
  shows "mode_facts mp (hd args) v"
  using assms
  by (auto simp: check_named_def Let_def mode_rules_def intro: checkSQL_facts check_listed_facts deny_facts
      split: if_splits)

lemma evaluate_violation_facts:
  assumes "evaluate_call order nst (toPayload f) args = Some v" and "call_name args \<notin> set nestingShells"
  shows "v_rule v = ''command-not-allowed'' \<Longrightarrow> commandsMode f = Whitelist \<and> \<not> listed_in f (call_name args)"
    and "v_rule v = ''command-blacklisted'' \<Longrightarrow> commandsMode f = Blacklist"
    and "v_rule v = ''commands-closed'' \<Longrightarrow> commandsMode f = Closed"
proof -
  let ?mp = "merge_profile (toPayload f)"
  have named: "check_named order (nst ?mp) ?mp (call_args args) = Some v" if "v_rule v \<in> mode_rules"
    using checkCallExpr_named(1) evaluate_checks [OF assms(1)] that by blast
  have mp: "mp_mode ?mp = commandsMode f" "mp_commands ?mp = fold merge_rule (commands f) []"
    by (simp_all add: merge_profile_def toPayload_def)
  have "mode_facts ?mp (call_name args) v" if "v_rule v \<in> mode_rules"
    using check_named_facts [OF named [OF that]] assms(2) by (simp add: call_name_def)
  then have facts: "v_rule v \<in> mode_rules \<longrightarrow> mode_facts ?mp (call_name args) v" by blast
  show "v_rule v = ''command-not-allowed'' \<Longrightarrow> commandsMode f = Whitelist \<and> \<not> listed_in f (call_name args)"
    using facts mp merge_rules_dom [of "commands f" "[]" "call_name args"]
    by (simp add: mode_rules_def mode_facts_def)
  show "v_rule v = ''command-blacklisted'' \<Longrightarrow> commandsMode f = Blacklist"
    and "v_rule v = ''commands-closed'' \<Longrightarrow> commandsMode f = Closed"
    using facts mp by (simp_all add: mode_rules_def mode_facts_def)
qed

lemmas suggest_allow_simps = suggestAllowCommand_def RULE_TO_CAP_def

lemma allow_fix_lets_through:
  assumes v: "evaluate_call order nst (toPayload f) args = Some v"
    and rule: "v_rule v = ''command-not-allowed'' \<or> v_rule v = ''command-blacklisted''
      \<or> v_rule v = ''commands-closed'' \<and> \<not> listed_in f (call_name args)"
    and name: "extractCommandName cmd = Some (call_name args)"
    and shell: "call_name args \<notin> set nestingShells"
  shows "\<exists>fix. suggestAllowCommand cmd (v_rule v) (v_message v) = Some fix
     \<and> evaluate_call order nst (toPayload (fix_apply fix f)) args = None"
proof -
  have mr: "v_rule v \<in> mode_rules" using rule by (auto simp: mode_rules_def)
  note through = evaluate_mode_rule [OF v mr shell]
  consider (listed) "v_rule v = ''command-not-allowed''" | (black) "v_rule v = ''command-blacklisted''"
    | (closed) "v_rule v = ''commands-closed''" "\<not> listed_in f (call_name args)"
    using rule by blast
  then show ?thesis
  proof cases
    case listed
    then have w: "commandsMode f = Whitelist" and nl: "\<not> listed_in f (call_name args)"
      using evaluate_violation_facts(1) [OF v shell] by blast+
    let ?f = "addCommandRule f (plain_rule (call_name args))"
    have "evaluate_call order nst (toPayload ?f) args = None"
      using nl w by (intro through permits_plain [OF nl])
        (auto simp: addCommandRule_fresh toPayload_def)
    with listed name show ?thesis by (simp add: suggest_allow_simps)
  next
    case black
    then have b: "commandsMode f = Blacklist" using evaluate_violation_facts(2) [OF v shell] by blast
    have "evaluate_call order nst (toPayload (removeCommand f (call_name args))) args = None"
      by (intro through permits_removed b) (simp add: toPayload_def removeCommand_def)
    with black name show ?thesis by (simp add: suggest_allow_simps)
  next
    case closed
    let ?f = "addCommandRule (f\<lparr>commandsMode := Whitelist\<rparr>) (plain_rule (call_name args))"
    have "evaluate_call order nst (toPayload ?f) args = None"
      using closed(2) by (intro through permits_plain [OF closed(2)])
        (auto simp: addCommandRule_fresh toPayload_def)
    with closed name show ?thesis by (simp add: suggest_allow_simps)
  qed
qed

section \<open>The name in the text of a command\<close>

lemma mode_rule_args:
  assumes "checkCallExpr order nst mp args = Some v" and "v_rule v \<in> mode_rules"
  shows "call_args args \<noteq> []"
  using assms
  by (auto simp: checkCallExpr_def strip_sudo_def strip_nohup_def call_args_def deny_def mode_rules_def
      split: if_splits)

abbreviation both_prefixes :: "string list \<Rightarrow> bool" where
  "both_prefixes ws \<equiv> at ws 0 = Some ''sudo'' \<and> at ws 1 = Some ''nohup''"

lemma mode_rule_name:
  assumes "evaluate_call order nst p (split_ws (trim cmd)) = Some v" and "v_rule v \<in> mode_rules"
    and "trim cmd \<noteq> []" and "\<not> both_prefixes (split_ws (trim cmd))"
  shows "extractCommandName cmd = Some (call_name (split_ws (trim cmd)))"
  using extract_call_name [OF assms(3,4)] mode_rule_args evaluate_checks [OF assms(1)] assms(2) by blast

section \<open>Fixes that widen one rule\<close>


lemma checkSQL_not_arg: "checkSQL order mp n q = Some v \<Longrightarrow> v_rule v \<noteq> ''arg-not-allowed''"
  by (auto simp: checkSQL_def check_mode_def deny_def Let_def split: if_splits option.splits mode.splits)

lemma check_listed_not_sql: "check_listed order mp n args = Some v \<Longrightarrow> v_rule v \<noteq> ''sql-not-allowed''"
  by (auto simp: check_listed_def check_mode_def deny_def check_kind_def Let_def
      split: if_splits option.splits mode.splits)

lemma named_arg:
  assumes "check_named order nst mp args = Some v" and "v_rule v = ''arg-not-allowed''"
    and "hd args \<notin> set nestingShells"
  shows "check_listed order mp (hd args) args = Some v"
    and "\<And>mp' nst'. mp_caps mp' = mp_caps mp \<Longrightarrow>
      check_named order nst' mp' args = check_listed order mp' (hd args) args"
  using assms by (auto simp: check_named_def deny_def Let_def dest: checkSQL_not_arg split: if_splits)

lemma named_sql:
  assumes "check_named order nst mp args = Some v" and "v_rule v = ''sql-not-allowed''"
    and "hd args \<notin> set nestingShells"
  obtains q where "checkSQL order mp (hd args) q = Some v"
    and "\<And>mp' nst'. mp_caps mp' = mp_caps mp \<Longrightarrow>
      check_named order nst' mp' args = checkSQL order mp' (hd args) q"
  using assms by (auto simp: check_named_def deny_def Let_def dest: check_listed_not_sql split: if_splits)

lemma listed_arg:
  assumes "check_listed order mp n args = Some v" and "v_rule v = ''arg-not-allowed''"
  obtains mc t where "mp_mode mp = Whitelist" and "map_of (mp_commands mp) n = Some mc"
    and "args ! 1 \<notin> set (mc_blocked_args mc)" and "check_kind (mp_caps mp) n = None" and "1 < length args"
    and "v_message v = quoted (n @ '' '' @ args ! 1) @ '' not allowed'' @ t"
  using assms
  by (auto simp: check_listed_def check_mode_def deny_def check_kind_def Let_def
      split: if_splits option.splits mode.splits)

lemma listed_arg_through:
  assumes "mp_mode mp = Whitelist" and "map_of (mp_commands mp) n = Some mc"
    and "args ! 1 \<notin> set (mc_blocked_args mc)" and "check_kind (mp_caps mp) n = None"
    and "args ! 1 \<in> set (mc_allowed_args mc)"
  shows "check_listed order mp n args = None"
  using assms by (simp add: check_listed_def check_mode_def)

lemma arg_fix_lets_through:
  assumes v: "evaluate_call order nst (toPayload f) args = Some v" and rule: "v_rule v = ''arg-not-allowed''"
    and shell: "call_name args \<notin> set nestingShells"
  shows "\<exists>t. v_message v = quoted (call_name args @ '' '' @ call_args args ! 1) @ '' not allowed'' @ t"
    and "evaluate_call order nst (toPayload (addArgToCommand f (call_name args) (call_args args ! 1))) args = None"
    and "1 < length (call_args args)"
proof -
  let ?n = "call_name args" let ?f = "addArgToCommand f ?n (call_args args ! 1)"
  let ?mp = "merge_profile (toPayload f)" let ?mp' = "merge_profile (toPayload ?f)"
  have mr: "v_rule v \<in> mode_rules" using rule by (simp add: mode_rules_def)
  have ev: "checkCallExpr order (nst ?mp) ?mp args = Some v" "\<not> unrestricted (form_caps f)"
    using evaluate_checks [OF v] by (auto simp: toPayload_def)
  have caps: "mp_caps ?mp' = mp_caps ?mp" "mp_mode ?mp' = mp_mode ?mp"
    by (simp_all add: merge_profile_def toPayload_def addArgToCommand_def Let_def split: option.split)
  have cmds: "mp_commands (merge_profile (toPayload g)) = fold merge_rule (commands g) []" for g
    by (simp add: merge_profile_def toPayload_def)
  have hdn: "hd (call_args args) = ?n" by (simp add: call_name_def)
  note named = checkCallExpr_named [OF ev(1) mr]
  note arg = named_arg [OF named(1) rule, unfolded hdn, OF shell]
  obtain mc t where mc: "mp_mode ?mp = Whitelist" "map_of (mp_commands ?mp) ?n = Some mc"
    "call_args args ! 1 \<notin> set (mc_blocked_args mc)" "check_kind (mp_caps ?mp) ?n = None"
    "1 < length (call_args args)" "v_message v = quoted (?n @ '' '' @ call_args args ! 1) @ '' not allowed'' @ t"
    using listed_arg [OF arg(1) rule] by blast
  then show "\<exists>t. v_message v = quoted (?n @ '' '' @ call_args args ! 1) @ '' not allowed'' @ t"
    and "1 < length (call_args args)" by blast+
  obtain mc' where mc': "map_of (mp_commands ?mp') ?n = Some mc'" "extends_row mc mc'"
    "call_args args ! 1 \<in> set (mc_allowed_args mc')"
    using addArg_row mc(2) unfolding cmds by metis
  have "check_listed order ?mp' ?n (call_args args) = None"
    using mc mc' caps by (intro listed_arg_through) (auto simp: extends_row_def)
  then have "checkCallExpr order (nst ?mp') ?mp' args = None"
    using named(2) [OF caps(1)] arg(2) [OF caps(1)] by simp
  then show "evaluate_call order nst (toPayload ?f) args = None"
    by (simp add: evaluate_call_def Let_def)
qed

lemma words_plain: "w \<in> set (split_ws s) \<Longrightarrow> CHR '' '' \<notin> set w"
  using split_ws_words [of w s] by (auto simp: list_all_iff is_ws_def)

lemma call_args_subset: "set (call_args args) \<subseteq> set args"
  by (cases args; cases "tl args") (auto simp: call_args_def Let_def dest: list.set_sel(2))

lemma blocked_mode:
  assumes "mp_mode mp = Blacklist" "map_of (mp_commands mp) n \<noteq> None" shows "check_mode order mp n l \<noteq> None"
  using assms by (auto simp: check_mode_def deny_def)

lemma forbids:
  assumes "mp_mode mp = Closed \<or> mp_mode mp = Blacklist \<and> map_of (mp_commands mp) (hd args) \<noteq> None"
    and "hd args \<notin> set nestingShells"
  shows "check_named order nst mp args \<noteq> None"
proof -
  have "check_mode order mp (hd args) l \<noteq> None" for l
    using assms(1) by (auto simp: check_mode_def deny_def)
  then show ?thesis
    using assms(2) by (auto simp: check_named_def Let_def checkSQL_def check_listed_def deny_def split: option.splits)
qed

lemma forbids_call:
  assumes "call_args args \<noteq> []" and "call_name args \<notin> set nestingShells"
    and "mp_mode mp = Closed \<or> mp_mode mp = Blacklist \<and> map_of (mp_commands mp) (call_name args) \<noteq> None"
  shows "checkCallExpr order nst mp args \<noteq> None"
proof -
  have n: "check_named order nst mp (call_args args) \<noteq> None"
    using forbids [of mp "call_args args"] assms by (auto simp: call_name_def)
  show ?thesis
    using n assms(1)
    by (auto simp: checkCallExpr_def strip_sudo_def strip_nohup_def call_args_def Let_def deny_def split: if_splits)
qed

lemma split_ws_ne:
  assumes "w \<in> set (split_ws s)" and "s \<noteq> []" and "\<not> is_ws (hd s)" and "\<not> is_ws (last s)"
  shows "w \<noteq> []"
  using assms
proof (induction s rule: split_ws.induct)
  case (1 s)
  let ?r = "dropWhile (\<lambda>c. \<not> is_ws c) s" let ?t = "dropWhile is_ws ?r"
  show ?case
  proof (cases "w = takeWhile (\<lambda>c. \<not> is_ws c) s")
    case True
    with "1.prems" show ?thesis by (cases s) auto
  next
    case False
    with "1.prems" have r: "?r \<noteq> []" and w: "w \<in> set (split_ws ?t)"
      by (subst (asm) split_ws.simps, simp add: Let_def split: if_splits)+
    have lr: "last ?r = last s" using r takeWhile_dropWhile_id last_appendR by metis
    then have "\<exists>x \<in> set ?r. \<not> is_ws x" using last_in_set [OF r] "1.prems" by metis
    then have "?t \<noteq> []" by simp
    moreover from this have "last ?t = last ?r" using takeWhile_dropWhile_id last_appendR by metis
    moreover from \<open>?t \<noteq> []\<close> have "\<not> is_ws (hd ?t)" by (rule hd_dropWhile)
    ultimately show ?thesis
      using "1.IH" [OF refl refl r w] lr "1.prems" by simp
  qed
qed

lemma trim_words_ne: "w \<in> set (split_ws (trim s)) \<Longrightarrow> trim s \<noteq> [] \<Longrightarrow> w \<noteq> []"
  using split_ws_ne [of w "trim s"] trimmed_trim [of s] by (auto simp: trimmed_def)

lemma addCommandRule_fields [simp]:
  "commandsMode (addCommandRule f r) = commandsMode f" "form_caps (addCommandRule f r) = form_caps f"
  "egress (addCommandRule f r) = egress f"
  by (simp_all add: addCommandRule_def)

lemma addCommandRule_listed [simp]: "listed_in (addCommandRule f r) (command r)"
  by (auto simp: addCommandRule_def list_ex_iff intro: rev_image_eqI)

lemma command_plain [simp]: "command (plain_rule n) = n"
  by (simp add: plain_rule_def)

text \<open>What the Block button does: the emptied list of the test is always empty.\<close>

lemma block_fix_form:
  assumes "suggestBlockCommand cmd = Some fix" and "extractCommandName cmd = Some n"
  shows "fix_apply fix f =
    (if commandsMode f = Open \<or> commandsMode f = Whitelist
     then f\<lparr>commandsMode := Blacklist, commands := [plain_rule n]\<rparr>
     else if commandsMode f = Blacklist then addCommandRule f (plain_rule n) else f)"
  using assms by (auto simp: suggestBlockCommand_def removeCommand_def)



text \<open>Blocking one command under a whitelist turns the profile into a blacklist with
  that command alone: a call of any other command that the whitelist refused is allowed afterwards.\<close>

theorem block_fix_opens_whitelist:
  assumes "commandsMode f = Whitelist" and "suggestBlockCommand cmd = Some fix"
    and "evaluate_call order nst (toPayload f) args = Some v" and "v_rule v \<in> mode_rules"
    and "call_name args \<notin> set nestingShells" and "extractCommandName cmd \<noteq> Some (call_name args)"
  shows "evaluate_call order nst (toPayload (fix_apply fix f)) args = None"
proof -
  obtain n where n: "extractCommandName cmd = Some n" "n \<noteq> call_name args"
    using assms(2,6) by (auto simp: suggestBlockCommand_def)
  note form = block_fix_form [OF assms(2) n(1), of f]
  show ?thesis
    by (rule evaluate_mode_rule [OF assms(3-5)])
      (use assms(1) n(2) in \<open>simp_all add: form toPayload_def permits_def merge_profile_def merge_rule_other\<close>)
qed

section \<open>Fixes of the network policy\<close>

lemma first_some_append: "first_some f (xs @ ys) = (case first_some f xs of Some y \<Rightarrow> Some y | None \<Rightarrow> first_some f ys)"
  by (induction xs) (auto split: option.splits)

lemma first_some_not_None: "first_some f xs \<noteq> None \<longleftrightarrow> (\<exists>x \<in> set xs. f x \<noteq> None)"
  by (induction xs) (auto split: option.splits)

lemma set_addHost [simp]: "set (addHost xs h) = insert h (set xs)"
  by (auto simp: addHost_def)

lemma has_suffix_refl [simp]: "has_suffix s (c # s)"
  by (simp add: has_suffix_def Suc_diff_le)

text \<open>A word as a target: the server's two normal forms of it agree.\<close>

definition word_target :: "string \<Rightarrow> bool" where
  "word_target t \<longleftrightarrow> list_all (\<lambda>c. \<not> is_ws c) t \<and> trim_suffix_dot t \<noteq> []"

lemma trim_word: "list_all (\<lambda>c. \<not> is_ws c) t \<Longrightarrow> trim t = t"
  by (rule trim_id) (cases t; auto simp: trimmed_def list_all_iff dest: last_in_set)

lemma list_all_trim_suffix_dot: "list_all P t \<Longrightarrow> list_all P (trim_suffix_dot t)"
  by (auto simp: trim_suffix_dot_def list_all_iff dest: in_set_butlastD)

lemma host_hit_self:
  assumes "word_target t"
  shows "host_hit (map to_lower (trim_suffix_dot t)) t \<noteq> None"
proof -
  have "norm_host t = map to_lower (trim_suffix_dot t)"
    using assms trim_word [OF list_all_trim_suffix_dot] by (simp add: norm_host_def word_target_def)
  moreover obtain c n where "map to_lower (trim_suffix_dot t) = c # n"
    using assms by (cases "trim_suffix_dot t") (auto simp: word_target_def)
  ultimately show ?thesis by (simp add: host_hit_def Let_def)
qed

lemma ip_hit_self:
  assumes "word_target t" and "CHR ''/'' \<notin> set t"
  shows "ip_hit in_cidr t t \<noteq> None"
  using assms trim_word [of t] by (auto simp: ip_hit_def word_target_def Let_def trim_suffix_dot_def)

lemma egress_allows:
  assumes "word_target t" and "egress_mode p = Whitelist"
    and "if parse_ip t then t \<in> set (cidrs p) \<and> CHR ''/'' \<notin> set t else t \<in> set (hosts p)"
  shows "fst (egress_evaluate parse_ip in_cidr p t)"
proof -
  have "t \<noteq> []" using assms(1) by (auto simp: word_target_def trim_suffix_dot_def)
  moreover have "egress_matches parse_ip in_cidr p t \<noteq> None"
    using assms(3) host_hit_self [OF assms(1)] ip_hit_self [OF assms(1)]
    by (cases "parse_ip t"; simp add: egress_matches_def first_some_not_None del: not_None_eq; blast)
  ultimately show ?thesis
    using assms(1,2) trim_word [of t] by (auto simp: egress_evaluate_def word_target_def Let_def)
qed

lemma egress_reason:
  assumes "egress_evaluate parse_ip in_cidr p t = (False, r)"
  shows "r = ''not-in-whitelist'' \<Longrightarrow> egress_mode p = Whitelist"
    and "r = ''closed'' \<Longrightarrow> egress_mode p = Closed"
  using assms by (auto simp: egress_evaluate_def Let_def split: mode.splits option.splits if_splits)

text \<open>C15: The Allow fix for a refused network target makes the policy allow it: for a target that is not in the
  whitelist, and, where the policy was closed, for a host name; the target is one word without a slash, and an address for
  the server exactly when it is a dotted quad. What happens to the other targets is in \<open>allow_host_fix_misses_address\<close> and
  \<open>unblock_host_fix_iff_same_spelling\<close>.\<close>

theorem allow_host_fix_lets_through:
  assumes "egress_evaluate parse_ip in_cidr (egress f) t = (False, reason)"
    and "reason = ''not-in-whitelist'' \<or> reason = ''closed'' \<and> \<not> parse_ip t"
    and "word_target t" and "parse_ip t \<longleftrightarrow> is_ipv4 t" and "CHR ''/'' \<notin> set t"
  shows "\<exists>fix. suggestAllowHost t reason = Some fix
    \<and> fst (egress_evaluate parse_ip in_cidr (egress (fix_apply fix f)) t)"
  using assms(2)
proof
  assume r: "reason = ''not-in-whitelist''"
  then have "egress_mode (egress f) = Whitelist" using egress_reason assms(1) by blast
  with r assms(3-5) show ?thesis
    by (cases "is_ipv4 t") (auto simp: suggestAllowHost_def intro!: egress_allows)
next
  assume r: "reason = ''closed'' \<and> \<not> parse_ip t"
  with assms(3-5) show ?thesis by (auto simp: suggestAllowHost_def intro!: egress_allows)
qed

text \<open>For an address the Allow fix writes the wrong list: on a closed policy, and for an
  address that is not a dotted quad, the address goes into the host names, which the server does
  not look at for addresses, and the target stays refused.\<close>

theorem allow_host_fix_misses_address:
  assumes "egress_evaluate parse_ip in_cidr (egress f) t = (False, reason)" and "parse_ip (trim t)"
    and "suggestAllowHost t reason = Some fix"
    and "reason = ''closed'' \<and> cidrs (egress f) = [] \<or> reason = ''not-in-whitelist'' \<and> \<not> is_ipv4 t"
  shows "egress_evaluate parse_ip in_cidr (egress (fix_apply fix f)) t = (False, ''not-in-whitelist'')"
proof -
  have "trim t \<noteq> []" using assms(1) by (auto simp: egress_evaluate_def Let_def)
  with assms egress_reason [OF assms(1)] show ?thesis
    by (auto simp: suggestAllowHost_def egress_evaluate_def egress_matches_def Let_def split: option.splits)
qed

text \<open>Blocking an address under a whitelist keeps the list of allowed host names
  and turns the policy into a blacklist: every host name changes its verdict.\<close>

theorem block_address_blocks_allowed_hosts:
  assumes "egress_mode (egress f) = Whitelist" and "suggestBlockHost a = Some fix" and "is_ipv4 a"
    and "trim t \<noteq> []" and "\<not> parse_ip (trim t)" 
    and "egress_evaluate parse_ip in_cidr (egress f) t = (allowed, reason)"
  shows "fst (egress_evaluate parse_ip in_cidr (egress (fix_apply fix f)) t) \<longleftrightarrow> \<not> allowed"
  using assms
  by (auto simp: suggestBlockHost_def egress_evaluate_def egress_matches_def Let_def split: option.splits if_splits)

lemma split_ws_nil: "split_ws [] = [[]]"
  by (simp add: split_ws.simps [of "[]"])


text \<open>Behind two wrappers the fix lists the inner wrapper, and the call stays refused.\<close>

lemma fix_names_the_wrapper:
  "let f = EMPTY_FORM\<lparr>form_caps := DEFAULT_CAPS\<lparr>sudo := True, background := True\<rparr>, commandsMode := Whitelist, commands := []\<rparr>;
     args = split_ws ''sudo nohup rm x''
   in case evaluate_call id (\<lambda>_ _. None) (toPayload f) args of None \<Rightarrow> False
      | Some v \<Rightarrow> (case suggestAllowCommand ''sudo nohup rm x'' (v_rule v) (v_message v) of None \<Rightarrow> False
          | Some fix \<Rightarrow> map command (commands (fix_apply fix f)) = [''nohup'']
              \<and> evaluate_call id (\<lambda>_ _. None) (toPayload (fix_apply fix f)) args \<noteq> None)"
  by code_simp

section \<open>Fixes that enable a capability\<close>

lemma RULE_TO_CAP_cases:
  assumes "RULE_TO_CAP rule = Some k"
  shows "(rule, k) \<in> {(''pipes-disabled'', Pipes), (''redirects-disabled'', Redirects),
     (''cmd-subst-disabled'', CmdSubst), (''background-disabled'', Background),
     (''sudo-disabled'', Sudo), (''code-exec-disabled'', CodeExec),
     (''download-disabled'', Download), (''install-disabled'', Install),
     (''write-fs-disabled'', WriteFs), (''cron-disabled'', Cron)}"
  using map_of_SomeD [OF assms [unfolded RULE_TO_CAP_def]] by simp

text \<open>Every violation of a capability rule says that the capability is off.\<close>

definition cap_facts :: "capabilities \<Rightarrow> violation \<Rightarrow> bool" where
  "cap_facts caps v \<longleftrightarrow> (\<forall>k. RULE_TO_CAP (v_rule v) = Some k \<longrightarrow> \<not> get_cap caps k)"

lemma cap_facts_other: "v_rule v \<in> insert ''sql-blocked'' (insert ''arg-blocked'' mode_rules) \<Longrightarrow> cap_facts caps v"
  by (auto simp: cap_facts_def mode_rules_def RULE_TO_CAP_def)

lemma deny_other: "deny r m = Some v \<Longrightarrow> r \<in> insert ''sql-blocked'' (insert ''arg-blocked'' mode_rules) \<Longrightarrow> cap_facts caps v"
  by (rule cap_facts_other) (auto simp: deny_def)

lemma check_mode_rules:
  assumes "check_mode order mp n listed = Some v" and "\<And>mc w. listed mc = Some w \<Longrightarrow> v_rule w \<in> mode_rules"
  shows "v_rule v \<in> mode_rules"
  using assms by (auto simp: check_mode_def deny_def mode_rules_def split: mode.splits option.splits)

lemma checkSQL_cap:
  assumes "checkSQL order mp n q = Some v"
  shows "cap_facts caps v"
proof (cases "case map_of (mp_commands mp) n of Some mc \<Rightarrow> matchSQLBlock q (mc_blocked_sql mc) | None \<Rightarrow> []")
  case Nil
  with assms have "v_rule v \<in> mode_rules"
    by (simp add: checkSQL_def)
      (erule check_mode_rules, auto simp: deny_def mode_rules_def Let_def split: if_splits)
  then show ?thesis by (auto intro: cap_facts_other)
next
  case (Cons c cs)
  with assms show ?thesis
    by (intro deny_other [where r = "''sql-blocked''"]) (auto simp: checkSQL_def Let_def)
qed

lemma cap_rules:
  "RULE_TO_CAP ''background-disabled'' = Some Background" "RULE_TO_CAP ''sudo-disabled'' = Some Sudo"
  "RULE_TO_CAP ''code-exec-disabled'' = Some CodeExec" "RULE_TO_CAP ''download-disabled'' = Some Download"
  "RULE_TO_CAP ''install-disabled'' = Some Install" "RULE_TO_CAP ''write-fs-disabled'' = Some WriteFs"
  "RULE_TO_CAP ''cron-disabled'' = Some Cron"
  by (simp_all add: RULE_TO_CAP_def)

lemma deny_cap: "deny r m = Some v \<Longrightarrow> RULE_TO_CAP r = Some k \<Longrightarrow> \<not> get_cap caps k \<Longrightarrow> cap_facts caps v"
  by (auto simp: deny_def cap_facts_def)

lemma check_kind_cap: "check_kind caps n = Some v \<Longrightarrow> cap_facts caps v"
  unfolding check_kind_def
  by (auto elim!: deny_cap simp: cap_rules split: if_split_asm)

lemma check_listed_cap:
  assumes "check_listed order mp n args = Some v"
  shows "cap_facts (mp_caps mp) v"
proof (cases "case map_of (mp_commands mp) n of
          Some mc \<Rightarrow> 1 < length args \<and> args ! 1 \<in> set (mc_blocked_args mc) | None \<Rightarrow> False")
  case True
  with assms show ?thesis
    by (intro deny_other [where r = "''arg-blocked''"]) (auto simp: check_listed_def Let_def)
next
  case False
  show ?thesis
  proof (cases "check_kind (mp_caps mp) n")
    case None
    with assms False have "v_rule v \<in> mode_rules"
      by (simp add: check_listed_def)
        (erule check_mode_rules, auto simp: deny_def mode_rules_def Let_def split: if_splits)
    then show ?thesis by (auto intro: cap_facts_other)
  next
    case (Some w)
    with assms False show ?thesis using check_kind_cap by (simp add: check_listed_def Let_def)
  qed
qed

lemma check_named_cap:
  assumes "check_named order nst mp args = Some v" and "hd args \<notin> set nestingShells"
  shows "cap_facts (mp_caps mp) v"
  using assms unfolding check_named_def Let_def
  by (auto intro: checkSQL_cap check_listed_cap elim!: deny_cap simp: cap_rules split: if_split_asm)

lemma checkCallExpr_cap:
  assumes "checkCallExpr order nst mp args = Some v" and "call_name args \<notin> set nestingShells"
  shows "cap_facts (mp_caps mp) v"
  using assms unfolding checkCallExpr_def strip_sudo_def strip_nohup_def call_name_def call_args_def Let_def
  by (auto intro: check_named_cap elim!: deny_cap simp: cap_rules split: if_split_asm)

lemma get_set_cap: "get_cap (set_cap k v c) j = (if j = k then v else get_cap c j)"
  by (cases k; cases j) auto

text \<open>The fix for a capability rule turns on that capability and nothing else, and the
  server no longer gives that rule for any call.\<close>

theorem capability_fix_enables:
  assumes "RULE_TO_CAP rule = Some k" and "suggestAllowCommand cmd rule msg = Some fix"
    and "call_name args \<notin> set nestingShells"
  shows "get_cap (form_caps (fix_apply fix f)) j = (j = k \<or> get_cap (form_caps f) j)
    \<and> commandsMode (fix_apply fix f) = commandsMode f \<and> commands (fix_apply fix f) = commands f
    \<and> egress (fix_apply fix f) = egress f
    \<and> (\<forall>w. evaluate_call order nst (toPayload (fix_apply fix f)) args = Some w \<longrightarrow> v_rule w \<noteq> rule)"
proof -
  have form: "fix_apply fix f = f\<lparr>form_caps := set_cap k True (form_caps f)\<rparr>"
    using assms(1,2) by (auto simp: suggestAllowCommand_def)
  have "v_rule w \<noteq> rule" if "evaluate_call order nst (toPayload (fix_apply fix f)) args = Some w" for w
  proof -
    have "cap_facts (form_caps (fix_apply fix f)) w"
      using checkCallExpr_cap [OF evaluate_checks [OF that, THEN conjunct1] assms(3)]
      by (simp add: merge_profile_def toPayload_def)
    then show ?thesis using assms(1) by (auto simp: cap_facts_def form get_set_cap)
  qed
  then show ?thesis by (simp add: form get_set_cap)
qed

text \<open>The Unblock fix for a host lets the target through exactly when every entry
  that hits it is spelled like the normalised label of the verdict: an entry with capitals stays.\<close>

theorem unblock_host_fix_iff_same_spelling:
  assumes "egress_evaluate parse_ip in_cidr (egress f) t = (False, ''blacklist:host:'' @ n)"
    and "\<not> parse_ip (trim t)" and "suggestAllowHost t (''blacklist:host:'' @ n) = Some fix"
  shows "fst (egress_evaluate parse_ip in_cidr (egress (fix_apply fix f)) t)
     \<longleftrightarrow> (\<forall>h \<in> set (hosts (egress f)). host_hit (map to_lower (trim_suffix_dot (trim t))) h \<noteq> None \<longrightarrow> h = n)"
proof -
  let ?hit = "host_hit (map to_lower (trim_suffix_dot (trim t)))"
  have m: "egress_mode (egress f) = Blacklist" "trim t \<noteq> []"
    using assms(1) by (auto simp: egress_evaluate_def Let_def split: mode.splits option.splits if_splits)
  have form: "egress (fix_apply fix f) = (egress f)\<lparr>hosts := filter (\<lambda>h. h \<noteq> n) (hosts (egress f)),
      cidrs := filter (\<lambda>c. c \<noteq> n) (cidrs (egress f))\<rparr>"
    using assms(3) by (auto simp: suggestAllowHost_def strip_label_def starts_with_def)
  have "fst (egress_evaluate parse_ip in_cidr (egress (fix_apply fix f)) t)
     \<longleftrightarrow> first_some ?hit (filter (\<lambda>h. h \<noteq> n) (hosts (egress f))) = None"
    using m assms(2) by (simp add: form egress_evaluate_def egress_matches_def split: option.splits)
  also have "\<dots> \<longleftrightarrow> (\<forall>h \<in> set (hosts (egress f)). ?hit h \<noteq> None \<longrightarrow> h = n)"
    using first_some_not_None [of ?hit "filter (\<lambda>h. h \<noteq> n) (hosts (egress f))"]
    by (auto simp del: not_None_eq)
  finally show ?thesis .
qed




lemma block_fix_opens_whitelist_witness:
  "evaluate_call id (\<lambda>_ _. None) (toPayload (fix_apply (the (suggestBlockCommand ''ls''))
      (EMPTY_FORM\<lparr>commands := [plain_rule ''ls'']\<rparr>))) [''shred'', ''disk''] = None"
  by (rule block_fix_opens_whitelist [OF _ some_the, where cmd = "''ls''"
      and v = "\<lparr>v_rule = ''command-not-allowed'', v_message = quoted ''shred'' @ '' is not allowed. Allowed: ls''\<rparr>"])
    code_simp+

lemma allow_host_fix_lets_through_witness:
  "\<exists>fix. suggestAllowHost ''Api.x.com'' ''not-in-whitelist'' = Some fix
    \<and> fst (egress_evaluate is_ipv4 (\<lambda>_ _. False)
        (egress (fix_apply fix (EMPTY_FORM\<lparr>egress := \<lparr>egress_mode = Whitelist, hosts = [''*.y.com''], cidrs = []\<rparr>\<rparr>))) ''Api.x.com'')"
  by (rule allow_host_fix_lets_through) code_simp+

lemma allow_host_fix_misses_address_witness:
  "egress_evaluate is_ipv4 (\<lambda>_ _. False)
     (egress (fix_apply (the (suggestAllowHost ''10.0.0.1'' ''closed''))
        (EMPTY_FORM\<lparr>egress := \<lparr>egress_mode = Closed, hosts = [], cidrs = []\<rparr>\<rparr>))) ''10.0.0.1''
   = (False, ''not-in-whitelist'')"
  by (rule allow_host_fix_misses_address [OF _ _ some_the, where reason = "''closed''"]) code_simp+

lemma block_address_blocks_allowed_hosts_witness:
  "fst (egress_evaluate is_ipv4 (\<lambda>_ _. False)
     (egress (fix_apply (the (suggestBlockHost ''10.0.0.1''))
        (EMPTY_FORM\<lparr>egress := \<lparr>egress_mode = Whitelist, hosts = [''x.com''], cidrs = []\<rparr>\<rparr>))) ''x.com'') \<longleftrightarrow> \<not> True"
  by (rule block_address_blocks_allowed_hosts [OF _ some_the, where reason = "''whitelist:host:x.com''"]) code_simp+

lemma capability_fix_enables_witness:
  "get_cap (form_caps (fix_apply (the (suggestAllowCommand ''sudo ls'' ''sudo-disabled'' [])) EMPTY_FORM)) Sudo
     = (Sudo = Sudo \<or> get_cap (form_caps EMPTY_FORM) Sudo)"
  by (rule capability_fix_enables [OF _ some_the, where rule = "''sudo-disabled''" and k = Sudo and cmd = "''sudo ls''"
      and msg = "[]" and args = "[''sudo'', ''ls'']", THEN conjunct1]) code_simp+

lemma unblock_host_fix_iff_same_spelling_witness:
  "\<not> fst (egress_evaluate is_ipv4 (\<lambda>_ _. False)
     (egress (fix_apply (the (suggestAllowHost ''evil.com'' ''blacklist:host:evil.com''))
        (EMPTY_FORM\<lparr>egress := \<lparr>egress_mode = Blacklist, hosts = [''Evil.com''], cidrs = []\<rparr>\<rparr>))) ''evil.com'')"
proof -
  let ?f = "EMPTY_FORM\<lparr>egress := \<lparr>egress_mode = Blacklist, hosts = [''Evil.com''], cidrs = []\<rparr>\<rparr>"
  have e: "egress_evaluate is_ipv4 (\<lambda>_ _. False) (egress ?f) ''evil.com'' = (False, ''blacklist:host:'' @ ''evil.com'')"
    and i: "\<not> is_ipv4 (trim ''evil.com'')"
    and sn: "\<not> Option.is_none (suggestAllowHost ''evil.com'' (''blacklist:host:'' @ ''evil.com''))"
    and sx: "''blacklist:host:'' @ ''evil.com'' = ''blacklist:host:evil.com''"
    and h: "\<not> (\<forall>h \<in> set (hosts (egress ?f)). host_hit (map to_lower (trim_suffix_dot (trim ''evil.com''))) h \<noteq> None \<longrightarrow> h = ''evil.com'')"
    by code_simp+
  show ?thesis using unblock_host_fix_iff_same_spelling [OF e i some_the [OF sn]] h unfolding sx by blast
qed

end
