(* ===== verification/WindowGeometry.thy ===== *)
theory WindowGeometry
  imports JsPrelude
begin

text \<open>
  The geometry of the desktop shell in \<open>frontend/src/pages/chat-winxp\<close>: the drag helper
  \<open>useDraggable.ts\<close>, the resize helper \<open>useResizable.ts\<close>, and the size functions at the end of
  \<open>WinXpExperiment.tsx\<close>. Pixels are whole numbers. The source's \<open>Math.floor(n * 0.92)\<close> is
  \<open>(23 * n) div 25\<close>, and \<open>Math.round(n / 2)\<close> is \<open>(n + 1) div 2\<close>, for whole \<open>n\<close>.
\<close>

record position =
  left :: int
  top :: int

record size =
  width :: int
  height :: int

section \<open>Dragging\<close>

text \<open>\<open>Math.max(lo, Math.min(hi, v))\<close>; \<open>hi = None\<close> is \<open>Infinity\<close>.\<close>

definition clamp :: "int \<Rightarrow> int \<Rightarrow> int \<Rightarrow> int" where
  "clamp v lo hi = max lo (min hi v)"

record drag_start =
  ds_x :: int
  ds_y :: int
  ds_left :: int
  ds_top :: int

text \<open>A pointer event of a title bar: the button, whether the pointer is on a control of the
  title bar or on a button, and the place.\<close>

record drag_event =
  de_button :: int
  de_on_controls :: bool
  de_on_button :: bool
  de_x :: int
  de_y :: int

definition drag_down :: "position \<Rightarrow> drag_event \<Rightarrow> drag_start option \<Rightarrow> drag_start option" where
  "drag_down pos e start =
     (if de_button e \<noteq> 0 then start
      else if de_on_controls e then start
      else if de_on_button e then start
      else Some \<lparr>ds_x = de_x e, ds_y = de_y e, ds_left = left pos, ds_top = top pos\<rparr>)"

definition drag_move :: "int \<Rightarrow> int \<Rightarrow> drag_start option \<Rightarrow> drag_event \<Rightarrow> position option" where
  "drag_move vw vh start e =
     map_option (\<lambda>s.
        let dx = de_x e - ds_x s; dy = de_y e - ds_y s;
            minLeft = -200; maxLeft = vw - 80; minTop = 0; maxTop = vh - 60
        in \<lparr>left = clamp (ds_left s + dx) minLeft maxLeft, top = clamp (ds_top s + dy) minTop maxTop\<rparr>)
       start"

definition drag_up :: "drag_start option \<Rightarrow> drag_start option" where
  "drag_up start = None"

section \<open>Resizing\<close>

datatype edge = EdgeRight | EdgeBottom | EdgeCorner

record resize_options =
  ro_edge :: edge
  minWidth :: "int option"
  minHeight :: "int option"
  maxWidth :: "int option"
  maxHeight :: "int option"

record resize_start =
  rs_x :: int
  rs_y :: int
  rs_width :: int
  rs_height :: int

definition clamp_inf :: "int \<Rightarrow> int \<Rightarrow> int option \<Rightarrow> int" where
  "clamp_inf v lo hi = (case hi of None \<Rightarrow> max lo v | Some h \<Rightarrow> clamp v lo h)"

definition resize_down :: "size \<Rightarrow> drag_event \<Rightarrow> resize_start option \<Rightarrow> resize_start option" where
  "resize_down sz e start =
     (if de_button e \<noteq> 0 then start
      else Some \<lparr>rs_x = de_x e, rs_y = de_y e, rs_width = width sz, rs_height = height sz\<rparr>)"

definition resize_move :: "resize_options \<Rightarrow> resize_start option \<Rightarrow> drag_event \<Rightarrow> size option" where
  "resize_move opts start e =
     map_option (\<lambda>s.
        let minW = or_else (minWidth opts) 320; minH = or_else (minHeight opts) 200;
            w = (if ro_edge opts = EdgeRight \<or> ro_edge opts = EdgeCorner
                 then clamp_inf (rs_width s + (de_x e - rs_x s)) minW (maxWidth opts) else rs_width s);
            h = (if ro_edge opts = EdgeBottom \<or> ro_edge opts = EdgeCorner
                 then clamp_inf (rs_height s + (de_y e - rs_y s)) minH (maxHeight opts) else rs_height s)
        in \<lparr>width = w, height = h\<rparr>) start"

fun resize_cursor :: "edge \<Rightarrow> string" where
  "resize_cursor EdgeRight = ''ew-resize''"
| "resize_cursor EdgeBottom = ''ns-resize''"
| "resize_cursor EdgeCorner = ''nwse-resize''"

section \<open>Sizes of new and maximized windows\<close>

definition CHAT_OFFSET_X :: int where "CHAT_OFFSET_X = 48"
definition CHAT_OFFSET_Y :: int where "CHAT_OFFSET_Y = 36"
definition CMD_OFFSET_X :: int where "CMD_OFFSET_X = 30"
definition CMD_OFFSET_Y :: int where "CMD_OFFSET_Y = 30"
definition TASKBAR_H :: int where "TASKBAR_H = 30"

definition DEFAULT_CHAT_SIZE :: size where "DEFAULT_CHAT_SIZE = \<lparr>width = 860, height = 640\<rparr>"
definition DEFAULT_CMD_SIZE :: size where "DEFAULT_CMD_SIZE = \<lparr>width = 720, height = 460\<rparr>"
definition DEFAULT_NOTEPAD_SIZE :: size where "DEFAULT_NOTEPAD_SIZE = \<lparr>width = 560, height = 460\<rparr>"
definition WIZARD_BASE_SIZE :: size where "WIZARD_BASE_SIZE = \<lparr>width = 800, height = 600\<rparr>"

text \<open>\<open>Math.floor(n * 0.92)\<close>\<close>

definition ninety_two :: "int \<Rightarrow> int" where
  "ninety_two n = (23 * n) div 25"

definition maxSize :: "int \<Rightarrow> int \<Rightarrow> size" where
  "maxSize vw vh = \<lparr>width = vw, height = vh - TASKBAR_H\<rparr>"

definition clampToViewport :: "int \<Rightarrow> int \<Rightarrow> size \<Rightarrow> size" where
  "clampToViewport vw vh sz =
     (let maxW = ninety_two vw; maxH = ninety_two (vh - TASKBAR_H)
      in \<lparr>width = min (width sz) maxW, height = min (height sz) maxH\<rparr>)"

definition computeWizardSize :: "int \<Rightarrow> int \<Rightarrow> size" where
  "computeWizardSize vw vh =
     \<lparr>width = min (width WIZARD_BASE_SIZE) (ninety_two vw), height = min (height WIZARD_BASE_SIZE) (ninety_two vh)\<rparr>"

text \<open>The wizard opens in the middle of the viewport.\<close>

definition wizard_position :: "int \<Rightarrow> int \<Rightarrow> size \<Rightarrow> position" where
  "wizard_position vw vh sz =
     \<lparr>left = max 0 ((vw - width sz + 1) div 2), top = max 0 ((vh - height sz + 1) div 2)\<rparr>"

section \<open>Bounds\<close>

lemma clamp_bounds: "lo \<le> hi \<Longrightarrow> lo \<le> clamp v lo hi \<and> clamp v lo hi \<le> hi"
  by (auto simp: clamp_def)

lemma clamp_id: "lo \<le> v \<Longrightarrow> v \<le> hi \<Longrightarrow> clamp v lo hi = v"
  by (auto simp: clamp_def)

lemma ninety_two_bounds: "0 \<le> n \<Longrightarrow> 0 \<le> ninety_two n \<and> ninety_two n \<le> n"
  by (auto simp: ninety_two_def)

lemma wizard_fits:
  assumes "0 \<le> vw" and "0 \<le> vh" and "sz = computeWizardSize vw vh" and "p = wizard_position vw vh sz"
  shows "0 \<le> left p \<and> left p + width sz \<le> vw \<and> 0 \<le> top p \<and> top p + height sz \<le> vh"
proof -
  have "width sz \<le> vw" "height sz \<le> vh"
    using assms ninety_two_bounds [of vw] ninety_two_bounds [of vh] by (auto simp: computeWizardSize_def)
  then show ?thesis using assms(4) by (auto simp: wizard_position_def)
qed

section \<open>Gestures\<close>

text \<open>A drag as the window sees it: press, moves, release. The host stores every position the
  helper reports.\<close>

fun drag_moves :: "int \<Rightarrow> int \<Rightarrow> drag_start option \<Rightarrow> drag_event list \<Rightarrow> position \<Rightarrow> position" where
  "drag_moves vw vh start [] pos = pos"
| "drag_moves vw vh start (e # es) pos = drag_moves vw vh start es (or_else (drag_move vw vh start e) pos)"

definition drag_gesture :: "int \<Rightarrow> int \<Rightarrow> drag_event \<Rightarrow> drag_event list \<Rightarrow> position \<Rightarrow> position" where
  "drag_gesture vw vh e0 es pos = drag_moves vw vh (drag_down pos e0 None) es pos"

lemma drag_moves_last:
  "es \<noteq> [] \<Longrightarrow> drag_moves vw vh (Some s) es pos = the (drag_move vw vh (Some s) (last es))"
  by (induction es arbitrary: pos) (auto simp: drag_move_def or_else_def)

lemma drag_moves_none: "drag_moves vw vh None es pos = pos"
  by (induction es arbitrary: pos) (auto simp: drag_move_def or_else_def)

text \<open>C38: A drag with the main button on the bare title bar ends where the pointer's total
  displacement puts the window, whatever lies between, clamped so that the title bar stays in
  reach: no drift accumulates. A press on a button or on a control moves nothing.\<close>

theorem drag_gesture_displacement:
  assumes "es \<noteq> []"
  shows "drag_gesture vw vh e0 es pos =
    (if de_button e0 = 0 \<and> \<not> de_on_controls e0 \<and> \<not> de_on_button e0
     then \<lparr>left = max (-200) (min (vw - 80) (left pos + de_x (last es) - de_x e0)),
           top = max 0 (min (vh - 60) (top pos + de_y (last es) - de_y e0))\<rparr>
     else pos)"
  using assms
  by (auto simp: drag_gesture_def drag_down_def drag_moves_last drag_moves_none drag_move_def Let_def clamp_def algebra_simps)

lemma drag_gesture_displacement_witness:
  "drag_gesture 1280 800 \<lparr>de_button = 0, de_on_controls = False, de_on_button = False, de_x = 100, de_y = 10\<rparr>
     [\<lparr>de_button = 0, de_on_controls = False, de_on_button = False, de_x = 90, de_y = 5\<rparr>,
      \<lparr>de_button = 0, de_on_controls = False, de_on_button = False, de_x = 2000, de_y = -90\<rparr>]
     \<lparr>left = 80, top = 60\<rparr> = \<lparr>left = 1200, top = 0\<rparr>"
  using drag_gesture_displacement
    [of "[\<lparr>de_button = 0, de_on_controls = False, de_on_button = False, de_x = 90, de_y = 5\<rparr>,
      \<lparr>de_button = 0, de_on_controls = False, de_on_button = False, de_x = 2000, de_y = -90\<rparr>]" 1280 800
      "\<lparr>de_button = 0, de_on_controls = False, de_on_button = False, de_x = 100, de_y = 10\<rparr>" "\<lparr>left = 80, top = 60\<rparr>"]
  by simp

end
