(* ===== verification/ApiTypes.thy ===== *)
theory ApiTypes
  imports Interfaces
begin

text \<open>The data of \<open>frontend/src/types.ts\<close> that the chat components share. An optional field
  is an option; times are the texts the server sends.\<close>

record chat_session =
  session_id :: string
  title :: string
  source :: "string option"
  active :: "bool option"
  created_at :: string
  summary_version :: "nat option"
  last_context_tokens :: "nat option"

datatype step_status = StepRunning | StepCompleted | StepError | StepCancelled

record step =
  step_id :: string
  tool :: string
  step_label :: string
  icon :: string
  step_args :: string
  step_state :: step_status
  step_result :: "string option"
  log_id :: "string option"
  step_model_id :: "string option"
  step_model_name :: "string option"
  step_preset_id :: "string option"
  step_preset_name :: "string option"
  step_model_role :: "string option"
  content_offset :: "int option"
  started_at :: string
  finished_at :: "string option"

end
