(* ===== verification/WindowManager.thy ===== *)
theory WindowManager
  imports WindowGeometry ApiTypes
begin

text \<open>
  The window manager of the desktop shell, \<open>frontend/src/pages/chat-winxp/WinXpExperiment.tsx\<close>:
  the open chat windows, terminals, the notepad and the setup wizard, the stacking order, and
  every handler that changes them. Session and step identifiers are texts of the server;
  \<open>now\<close> is \<open>Date.now()\<close>; the viewport is part of the state, changed by the resize event.
  Asynchronous handlers are split at their \<open>await\<close>: the answer of the server is an event.
\<close>

section \<open>State\<close>

text \<open>\<open>{ id, position, size }\<close>, the fields of the wizard's window, and the record every other
  window extends.\<close>

record xp_box =
  wid :: string
  position :: position
  size :: size

record xp_frame = xp_box +
  maximized :: bool
  prev :: "(position \<times> size) option"

record open_window = xp_frame +
  session :: chat_session
  minimized :: bool

record open_cmd = xp_frame +
  cmd_step :: step

text \<open>The two documents of \<open>NOTEPAD_DOCS\<close>; \<open>np_content\<close> says which of the two constant texts
  the editor was given.\<close>

datatype notepad_doc = Untitled | GonkaTxt

record open_notepad = xp_frame +
  doc :: notepad_doc
  np_title :: string
  np_content :: notepad_doc
  np_minimized :: bool

type_synonym open_wizard = xp_box

text \<open>\<open>exits\<close> and \<open>setups\<close> count the calls of \<open>onExit\<close> and \<open>onSetupDone\<close>. \<open>menu\<close> is the place
  of the desktop's context menu.\<close>

record xp_state =
  windows :: "open_window list"
  terminals :: "open_cmd list"
  xp_notepad :: "open_notepad option"
  wizard :: "open_wizard option"
  zStack :: "string list"
  menu :: "(int \<times> int) option"
  iconResetSignal :: nat
  deleteTarget :: "(string \<times> string) option"
  isFlenovMode :: bool
  viewport :: "int \<times> int"
  inSetupMode :: bool
  exits :: nat
  setups :: nat

definition NOTEPAD_ID :: string where "NOTEPAD_ID = ''__notepad''"
definition WIZARD_ID :: string where "WIZARD_ID = ''__wizard''"

definition vp_max :: "xp_state \<Rightarrow> size" where
  "vp_max s = maxSize (fst (viewport s)) (snd (viewport s))"

definition vp_clamp :: "xp_state \<Rightarrow> size \<Rightarrow> size" where
  "vp_clamp s = clampToViewport (fst (viewport s)) (snd (viewport s))"

definition origin :: position where
  "origin = \<lparr>left = 0, top = 0\<rparr>"

section \<open>Updates that the window kinds share\<close>

text \<open>The bodies of \<open>toggleMaximize\<close>, \<open>toggleMaximizeTerminal\<close> and \<open>toggleMaximizeNotepad\<close> are
  the same code on the three kinds.\<close>

definition toggle_frame :: "size \<Rightarrow> 'a xp_frame_scheme \<Rightarrow> 'a xp_frame_scheme" where
  "toggle_frame mx w =
     (case (maximized w, prev w) of
        (True, Some (p, sz)) \<Rightarrow> w\<lparr>maximized := False, position := p, size := sz, prev := None\<rparr>
      | _ \<Rightarrow> w\<lparr>maximized := True, prev := Some (position w, size w), position := origin, size := mx\<rparr>)"

definition move_frame :: "position \<Rightarrow> 'a xp_frame_scheme \<Rightarrow> 'a xp_frame_scheme" where
  "move_frame p w = (if \<not> maximized w then w\<lparr>position := p\<rparr> else w)"

definition size_frame :: "size \<Rightarrow> 'a xp_frame_scheme \<Rightarrow> 'a xp_frame_scheme" where
  "size_frame sz w = (if \<not> maximized w then w\<lparr>size := sz\<rparr> else w)"

definition refit_frame :: "size \<Rightarrow> 'a xp_frame_scheme \<Rightarrow> 'a xp_frame_scheme" where
  "refit_frame mx w = (if maximized w then w\<lparr>size := mx, position := origin\<rparr> else w)"

definition off_stack :: "string \<Rightarrow> xp_state \<Rightarrow> xp_state" where
  "off_stack i s = s\<lparr>zStack := filter (\<lambda>x. x \<noteq> i) (zStack s)\<rparr>"

definition bringToFront :: "string \<Rightarrow> xp_state \<Rightarrow> xp_state" where
  "bringToFront i s = s\<lparr>zStack := filter (\<lambda>x. x \<noteq> i) (zStack s) @ [i]\<rparr>"

definition focused :: "xp_state \<Rightarrow> string option" where
  "focused s = (if zStack s = [] then None else Some (last (zStack s)))"

section \<open>Chat windows\<close>

definition openChat :: "chat_session \<Rightarrow> xp_state \<Rightarrow> xp_state" where
  "openChat ses s =
     (let ws = windows s;
          ws' = (case find_by wid ws (session_id ses) of
                   Some _ \<Rightarrow> map_by wid (session_id ses) (\<lambda>w. w\<lparr>minimized := False\<rparr>) ws
                 | None \<Rightarrow>
                    (let offset = int (length ws) in
                     ws @ [\<lparr>wid = session_id ses,
                            position = \<lparr>left = 80 + offset * CHAT_OFFSET_X, top = 60 + offset * CHAT_OFFSET_Y\<rparr>,
                            size = vp_clamp s DEFAULT_CHAT_SIZE, maximized = False, prev = None,
                            session = ses, minimized = False\<rparr>]))
      in bringToFront (session_id ses) (s\<lparr>windows := ws'\<rparr>))"

definition closeWindow :: "string option \<Rightarrow> xp_state \<Rightarrow> xp_state" where
  "closeWindow i s = (case i of None \<Rightarrow> s
     | Some k \<Rightarrow> if k = [] then s else off_stack k (s\<lparr>windows := drop_by wid k (windows s)\<rparr>))"

definition minimizeWindow :: "string \<Rightarrow> xp_state \<Rightarrow> xp_state" where
  "minimizeWindow i s =
     off_stack i (s\<lparr>windows := map_by wid i (\<lambda>w. w\<lparr>minimized := True\<rparr>) (windows s)\<rparr>)"

definition toggleMaximize :: "string \<Rightarrow> xp_state \<Rightarrow> xp_state" where
  "toggleMaximize i s = s\<lparr>windows := map_by wid i (toggle_frame (vp_max s)) (windows s)\<rparr>"

definition moveWindow :: "string \<Rightarrow> position \<Rightarrow> xp_state \<Rightarrow> xp_state" where
  "moveWindow i p s = s\<lparr>windows := map_by wid i (move_frame p) (windows s)\<rparr>"

definition sizeWindow :: "string \<Rightarrow> size \<Rightarrow> xp_state \<Rightarrow> xp_state" where
  "sizeWindow i sz s = s\<lparr>windows := map_by wid i (size_frame sz) (windows s)\<rparr>"

section \<open>Terminals\<close>

definition terminal_id :: "string \<Rightarrow> nat \<Rightarrow> string" where
  "terminal_id sid now = ''cmd-'' @ sid @ ''-'' @ nat_str now"

definition openTerminal :: "step \<Rightarrow> nat \<Rightarrow> xp_state \<Rightarrow> xp_state" where
  "openTerminal st now s =
     (let i = terminal_id (step_id st) now; offset = int (length (terminals s)) in
      bringToFront i (s\<lparr>terminals := terminals s @
        [\<lparr>wid = i, position = \<lparr>left = 200 + offset * CMD_OFFSET_X, top = 120 + offset * CMD_OFFSET_Y\<rparr>,
          size = vp_clamp s DEFAULT_CMD_SIZE, maximized = False, prev = None, cmd_step = st\<rparr>]\<rparr>))"

definition closeTerminal :: "string \<Rightarrow> xp_state \<Rightarrow> xp_state" where
  "closeTerminal i s = off_stack i (s\<lparr>terminals := drop_by wid i (terminals s)\<rparr>)"

definition moveTerminal :: "string \<Rightarrow> position \<Rightarrow> xp_state \<Rightarrow> xp_state" where
  "moveTerminal i p s = s\<lparr>terminals := map_by wid i (move_frame p) (terminals s)\<rparr>"

definition sizeTerminal :: "string \<Rightarrow> size \<Rightarrow> xp_state \<Rightarrow> xp_state" where
  "sizeTerminal i sz s = s\<lparr>terminals := map_by wid i (size_frame sz) (terminals s)\<rparr>"

definition toggleMaximizeTerminal :: "string \<Rightarrow> xp_state \<Rightarrow> xp_state" where
  "toggleMaximizeTerminal i s = s\<lparr>terminals := map_by wid i (toggle_frame (vp_max s)) (terminals s)\<rparr>"

section \<open>The notepad and the wizard\<close>

fun doc_title :: "notepad_doc \<Rightarrow> string" where
  "doc_title Untitled = ''New Text Document''"
| "doc_title GonkaTxt = ''gonka.txt''"

definition openNotepad :: "notepad_doc \<Rightarrow> xp_state \<Rightarrow> xp_state" where
  "openNotepad d s =
     (let n = (case xp_notepad s of
          Some n \<Rightarrow>
            if doc n = d then n\<lparr>np_minimized := False\<rparr>
            else n\<lparr>doc := d, np_title := doc_title d, np_content := d, np_minimized := False\<rparr>
        | None \<Rightarrow>
            \<lparr>wid = NOTEPAD_ID, position = \<lparr>left = 140, top = 90\<rparr>, size = vp_clamp s DEFAULT_NOTEPAD_SIZE,
             maximized = False, prev = None, doc = d, np_title = doc_title d, np_content = d, np_minimized = False\<rparr>)
      in bringToFront NOTEPAD_ID (s\<lparr>xp_notepad := Some n\<rparr>))"

definition closeNotepad :: "xp_state \<Rightarrow> xp_state" where
  "closeNotepad s = off_stack NOTEPAD_ID (s\<lparr>xp_notepad := None\<rparr>)"

definition moveNotepad :: "position \<Rightarrow> xp_state \<Rightarrow> xp_state" where
  "moveNotepad p s = s\<lparr>xp_notepad := map_option (move_frame p) (xp_notepad s)\<rparr>"

definition sizeNotepad :: "size \<Rightarrow> xp_state \<Rightarrow> xp_state" where
  "sizeNotepad sz s = s\<lparr>xp_notepad := map_option (size_frame sz) (xp_notepad s)\<rparr>"

definition toggleMaximizeNotepad :: "xp_state \<Rightarrow> xp_state" where
  "toggleMaximizeNotepad s = s\<lparr>xp_notepad := map_option (toggle_frame (vp_max s)) (xp_notepad s)\<rparr>"

definition openWizard :: "xp_state \<Rightarrow> xp_state" where
  "openWizard s =
     (let vw = fst (viewport s); vh = snd (viewport s); sz = computeWizardSize vw vh;
          w = (case wizard s of Some w \<Rightarrow> w
               | None \<Rightarrow> \<lparr>wid = WIZARD_ID, position = wizard_position vw vh sz, size = sz\<rparr>)
      in bringToFront WIZARD_ID (s\<lparr>wizard := Some w\<rparr>))"

definition closeWizard :: "xp_state \<Rightarrow> xp_state" where
  "closeWizard s = off_stack WIZARD_ID (s\<lparr>wizard := None\<rparr>)"

definition moveWizard :: "position \<Rightarrow> xp_state \<Rightarrow> xp_state" where
  "moveWizard p s = s\<lparr>wizard := map_option (\<lambda>w. w\<lparr>position := p\<rparr>) (wizard s)\<rparr>"

text \<open>The wizard's close button: \<open>inSetupMode ? onExit : closeWizard\<close>, and its last page.\<close>

definition onExit :: "xp_state \<Rightarrow> xp_state" where
  "onExit s = s\<lparr>exits := Suc (exits s)\<rparr>"

definition wizardOnClose :: "xp_state \<Rightarrow> xp_state" where
  "wizardOnClose s = (if inSetupMode s then onExit s else closeWizard s)"

definition wizardOnDone :: "xp_state \<Rightarrow> xp_state" where
  "wizardOnDone s = (closeWizard s)\<lparr>setups := Suc (setups s)\<rparr>"

section \<open>Keys, taskbar and desktop\<close>

definition onEscape :: "xp_state \<Rightarrow> xp_state" where
  "onEscape s =
     (if menu s \<noteq> None then s
      else case focused s of
        None \<Rightarrow> s
      | Some i \<Rightarrow>
          if i = [] then s
          else if i = WIZARD_ID \<and> wizard s \<noteq> None then wizardOnClose s
          else if i = NOTEPAD_ID \<and> xp_notepad s \<noteq> None then closeNotepad s
          else if i \<in> wid ` set (terminals s) then closeTerminal i s
          else if i \<in> wid ` set (windows s) then closeWindow (Some i) s
          else s)"

definition taskClick :: "string \<Rightarrow> xp_state \<Rightarrow> xp_state" where
  "taskClick i s =
     (case find_by wid (windows s) i of
        None \<Rightarrow> s
      | Some w \<Rightarrow>
          if minimized w then
            bringToFront i (s\<lparr>windows := map_by wid i (\<lambda>x. x\<lparr>minimized := False\<rparr>) (windows s)\<rparr>)
          else if focused s = Some i then minimizeWindow i s
          else bringToFront i s)"

definition taskClickNotepad :: "xp_state \<Rightarrow> xp_state" where
  "taskClickNotepad s =
     (case xp_notepad s of
        None \<Rightarrow> s
      | Some n \<Rightarrow>
          if np_minimized n then bringToFront (wid n) (s\<lparr>xp_notepad := Some (n\<lparr>np_minimized := False\<rparr>)\<rparr>)
          else if focused s = Some (wid n) then off_stack (wid n) (s\<lparr>xp_notepad := Some (n\<lparr>np_minimized := True\<rparr>)\<rparr>)
          else bringToFront (wid n) s)"

definition onResize :: "int \<Rightarrow> int \<Rightarrow> xp_state \<Rightarrow> xp_state" where
  "onResize vw vh s =
     (let s' = s\<lparr>viewport := (vw, vh)\<rparr> in
      s'\<lparr>windows := map (refit_frame (vp_max s')) (windows s),
         terminals := map (refit_frame (vp_max s')) (terminals s),
         xp_notepad := map_option (refit_frame (vp_max s')) (xp_notepad s)\<rparr>)"

definition confirmDelete :: "xp_state \<Rightarrow> xp_state" where
  "confirmDelete s = (case deleteTarget s of
      None \<Rightarrow> s
    | Some (i, label) \<Rightarrow> closeWindow (Some i) (s\<lparr>deleteTarget := None\<rparr>))"

text \<open>The address the browser is given for the focused chat, by the effect on
  \<open>[focused, windows]\<close>.\<close>

definition focused_path :: "xp_state \<Rightarrow> string option" where
  "focused_path s =
     (case focused s of
        None \<Rightarrow> None
      | Some i \<Rightarrow> map_option (\<lambda>w. ''/chat/'' @ session_id (session w))
                    (find (\<lambda>w. wid w = i \<and> \<not> minimized w) (windows s)))"

text \<open>\<open>10 + (z >= 0 ? z : 0)\<close> for \<open>z = zStack.indexOf(id)\<close>.\<close>

definition z_index :: "xp_state \<Rightarrow> string \<Rightarrow> nat" where
  "z_index s i = 10 + or_else (index_of i (zStack s)) 0"

section \<open>The step function\<close>

datatype xp_event =
    OpenChat chat_session
  | CloseWindow string
  | MinimizeWindow string
  | ToggleMaximize string
  | MoveWindow string position
  | SizeWindow string size
  | Activate string
  | OpenTerminal step nat
  | CloseTerminal string
  | MoveTerminal string position
  | SizeTerminal string size
  | ToggleMaximizeTerminal string
  | OpenNotepad notepad_doc
  | CloseNotepad
  | MoveNotepad position
  | SizeNotepad size
  | ToggleMaximizeNotepad
  | OpenWizard
  | WizardOnClose
  | WizardOnDone
  | MoveWizard position
  | Escape
  | TaskClick string
  | TaskClickNotepad
  | ViewportResize int int
  | ShowDesktopMenu int int
  | CloseMenu
  | AutoArrange
  | RequestDelete string string
  | CancelDelete
  | ConfirmDelete
  | StartClick
  | StartContextMenu

fun xp_step :: "xp_event \<Rightarrow> xp_state \<Rightarrow> xp_state" where
  "xp_step (OpenChat ses) s = openChat ses s"
| "xp_step (CloseWindow i) s = closeWindow (Some i) s"
| "xp_step (MinimizeWindow i) s = minimizeWindow i s"
| "xp_step (ToggleMaximize i) s = toggleMaximize i s"
| "xp_step (MoveWindow i p) s = moveWindow i p s"
| "xp_step (SizeWindow i sz) s = sizeWindow i sz s"
| "xp_step (Activate i) s = bringToFront i s"
| "xp_step (OpenTerminal st now) s = openTerminal st now s"
| "xp_step (CloseTerminal i) s = closeTerminal i s"
| "xp_step (MoveTerminal i p) s = moveTerminal i p s"
| "xp_step (SizeTerminal i sz) s = sizeTerminal i sz s"
| "xp_step (ToggleMaximizeTerminal i) s = toggleMaximizeTerminal i s"
| "xp_step (OpenNotepad d) s = openNotepad d s"
| "xp_step CloseNotepad s = closeNotepad s"
| "xp_step (MoveNotepad p) s = moveNotepad p s"
| "xp_step (SizeNotepad sz) s = sizeNotepad sz s"
| "xp_step ToggleMaximizeNotepad s = toggleMaximizeNotepad s"
| "xp_step OpenWizard s = openWizard s"
| "xp_step WizardOnClose s = wizardOnClose s"
| "xp_step WizardOnDone s = wizardOnDone s"
| "xp_step (MoveWizard p) s = moveWizard p s"
| "xp_step Escape s = onEscape s"
| "xp_step (TaskClick i) s = taskClick i s"
| "xp_step TaskClickNotepad s = taskClickNotepad s"
| "xp_step (ViewportResize vw vh) s = onResize vw vh s"
| "xp_step (ShowDesktopMenu x y) s = s\<lparr>menu := Some (x, y)\<rparr>"
| "xp_step CloseMenu s = s\<lparr>menu := None\<rparr>"
| "xp_step AutoArrange s = s\<lparr>iconResetSignal := Suc (iconResetSignal s)\<rparr>"
| "xp_step (RequestDelete i label) s = s\<lparr>deleteTarget := Some (i, label)\<rparr>"
| "xp_step CancelDelete s = s\<lparr>deleteTarget := None\<rparr>"
| "xp_step ConfirmDelete s = confirmDelete s"
| "xp_step StartClick s = onExit s"
| "xp_step StartContextMenu s = s\<lparr>isFlenovMode := True\<rparr>"

text \<open>The first state of the shell; in setup mode the wizard is opened by the mount effect.\<close>

definition xp_init :: "bool \<Rightarrow> int \<Rightarrow> int \<Rightarrow> xp_state" where
  "xp_init setup vw vh =
     (let s = \<lparr>windows = [], terminals = [], xp_notepad = None, wizard = None, zStack = [], menu = None,
        iconResetSignal = 0, deleteTarget = None, isFlenovMode = False, viewport = (vw, vh),
        inSetupMode = setup, exits = 0, setups = 0\<rparr>
      in if setup then openWizard s else s)"

section \<open>The invariant\<close>

text \<open>Identifiers: the server's session identifiers are neither empty nor of the two forms
  that the shell makes for its own windows.\<close>

definition session_id_ok :: "string \<Rightarrow> bool" where
  "session_id_ok i \<longleftrightarrow> i \<noteq> [] \<and> \<not> starts_with ''cmd-'' i \<and> \<not> starts_with ''__'' i"

definition chat_ids :: "open_window list \<Rightarrow> string set" where
  "chat_ids ws = wid ` {w \<in> set ws. \<not> minimized w}"

definition notepad_ids :: "open_notepad option \<Rightarrow> string set" where
  "notepad_ids n = (case n of None \<Rightarrow> {} | Some n \<Rightarrow> if np_minimized n then {} else {wid n})"

definition wizard_ids :: "open_wizard option \<Rightarrow> string set" where
  "wizard_ids w = (case w of None \<Rightarrow> {} | Some w \<Rightarrow> {wid w})"

text \<open>The windows that are open and not minimized, and those of them that are rendered: while the wizard is open, it alone
  (\<open>!wizard && windows.map(...)\<close> and the like).\<close>

definition open_ids :: "xp_state \<Rightarrow> string set" where
  "open_ids s = chat_ids (windows s) \<union> wid ` set (terminals s) \<union> notepad_ids (xp_notepad s) \<union> wizard_ids (wizard s)"

definition visible_ids :: "xp_state \<Rightarrow> string set" where
  "visible_ids s =
     (if wizard s = None then chat_ids (windows s) \<union> wid ` set (terminals s) \<union> notepad_ids (xp_notepad s) else {})
     \<union> wizard_ids (wizard s)"

lemma visible_open: "visible_ids s \<subseteq> open_ids s" "wizard s = None \<Longrightarrow> visible_ids s = open_ids s"
  "wizard s = Some w \<Longrightarrow> visible_ids s = {wid w}"
  by (auto simp: visible_ids_def open_ids_def wizard_ids_def)

definition stack_inv :: "xp_state \<Rightarrow> bool" where
  "stack_inv s \<longleftrightarrow> distinct (zStack s) \<and> set (zStack s) = open_ids s"

definition ids_inv :: "xp_state \<Rightarrow> bool" where
  "ids_inv s \<longleftrightarrow> distinct (map wid (windows s)) \<and> distinct (map wid (terminals s))
     \<and> (\<forall>i \<in> wid ` set (windows s). session_id_ok i) \<and> (\<forall>i \<in> wid ` set (terminals s). starts_with ''cmd-'' i)
     \<and> (\<forall>n. xp_notepad s = Some n \<longrightarrow> wid n = NOTEPAD_ID) \<and> (\<forall>w. wizard s = Some w \<longrightarrow> wid w = WIZARD_ID)
     \<and> (\<forall>t. deleteTarget s = Some t \<longrightarrow> session_id_ok (fst t))"

definition frame_ok :: "size \<Rightarrow> 'a xp_frame_scheme \<Rightarrow> bool" where
  "frame_ok mx w \<longleftrightarrow> (maximized w \<longleftrightarrow> prev w \<noteq> None) \<and> (maximized w \<longrightarrow> position w = origin \<and> size w = mx)"

definition frames_inv :: "xp_state \<Rightarrow> bool" where
  "frames_inv s \<longleftrightarrow> (\<forall>w \<in> set (windows s). frame_ok (vp_max s) w \<and> wid w = session_id (session w))
     \<and> (\<forall>t \<in> set (terminals s). frame_ok (vp_max s) t)
     \<and> (\<forall>n. xp_notepad s = Some n \<longrightarrow> frame_ok (vp_max s) n)"

definition xp_inv :: "xp_state \<Rightarrow> bool" where
  "xp_inv s \<longleftrightarrow> stack_inv s \<and> ids_inv s \<and> frames_inv s"

text \<open>When a handler can run: a window's handlers while it is open, activation while it is
  shown, a new terminal at a time that no open terminal of that step has.\<close>

fun xp_enabled :: "xp_event \<Rightarrow> xp_state \<Rightarrow> bool" where
  "xp_enabled (OpenChat ses) s = session_id_ok (session_id ses)"
| "xp_enabled (CloseWindow i) s = (i \<in> wid ` set (windows s))"
| "xp_enabled (MinimizeWindow i) s = (i \<in> wid ` set (windows s))"
| "xp_enabled (Activate i) s = (i \<in> open_ids s)"
| "xp_enabled (OpenTerminal st now) s = (terminal_id (step_id st) now \<notin> wid ` set (terminals s))"
| "xp_enabled (CloseTerminal i) s = (i \<in> wid ` set (terminals s))"
| "xp_enabled (RequestDelete i label) s = session_id_ok i"
| "xp_enabled _ s = True"

lemmas xp_ops = closeWindow_def minimizeWindow_def toggleMaximize_def moveWindow_def sizeWindow_def
  closeTerminal_def moveTerminal_def sizeTerminal_def toggleMaximizeTerminal_def
  closeNotepad_def moveNotepad_def sizeNotepad_def toggleMaximizeNotepad_def
  closeWizard_def moveWizard_def onExit_def wizardOnClose_def wizardOnDone_def off_stack_def bringToFront_def

lemma frame_keeps [simp]:
  "wid (toggle_frame mx w) = wid w" "wid (move_frame p w) = wid w"
  "wid (size_frame sz w) = wid w" "wid (refit_frame mx w) = wid w"
  by (simp_all add: toggle_frame_def move_frame_def size_frame_def refit_frame_def split: bool.split option.split prod.split)

lemma window_keeps [simp]:
  "minimized (toggle_frame mx w) = minimized w" "minimized (move_frame p w) = minimized w"
  "minimized (size_frame sz w) = minimized w" "minimized (refit_frame mx w) = minimized w"
  "session (toggle_frame mx w) = session w" "session (move_frame p w) = session w"
  "session (size_frame sz w) = session w" "session (refit_frame mx w) = session w"
  by (simp_all add: toggle_frame_def move_frame_def size_frame_def refit_frame_def split: bool.split option.split prod.split)

lemma notepad_keeps [simp]:
  "np_minimized (toggle_frame mx w) = np_minimized w" "np_minimized (move_frame p w) = np_minimized w"
  "np_minimized (size_frame sz w) = np_minimized w" "np_minimized (refit_frame mx w) = np_minimized w"
  by (simp_all add: toggle_frame_def move_frame_def size_frame_def refit_frame_def split: bool.split option.split prod.split)

lemma chat_ids_Cons [simp]:
  "chat_ids [] = {}" "chat_ids (w # ws) = (if minimized w then chat_ids ws else insert (wid w) (chat_ids ws))"
  by (auto simp: chat_ids_def)

lemma chat_ids_map_by: "\<forall>w. wid (f w) = wid w \<and> minimized (f w) = minimized w \<Longrightarrow> chat_ids (map_by wid i f ws) = chat_ids ws"
  by (induction ws) (auto simp: chat_ids_Cons)

lemma chat_ids_map: "\<forall>w. wid (f w) = wid w \<and> minimized (f w) = minimized w \<Longrightarrow> chat_ids (map f ws) = chat_ids ws"
  by (induction ws) (auto simp: chat_ids_Cons)

lemma chat_ids_minimize: "chat_ids (map_by wid i (\<lambda>w. w\<lparr>minimized := True\<rparr>) ws) = chat_ids ws - {i}"
  by (induction ws) (auto simp: chat_ids_Cons)

lemma chat_ids_restore: "chat_ids (map_by wid i (\<lambda>w. w\<lparr>minimized := False\<rparr>) ws)
    = (if i \<in> wid ` set ws then insert i (chat_ids ws) else chat_ids ws)"
  by (induction ws) (auto simp: chat_ids_Cons)

lemma chat_ids_drop: "chat_ids (drop_by wid i ws) = chat_ids ws - {i}"
  by (induction ws) (auto simp: chat_ids_Cons)

lemma chat_ids_append: "chat_ids (ws @ [w]) = (if minimized w then chat_ids ws else insert (wid w) (chat_ids ws))"
  by (auto simp: chat_ids_def)

lemmas chat_ids_simps = chat_ids_map_by chat_ids_map chat_ids_minimize chat_ids_restore chat_ids_drop chat_ids_append

lemma wid_map_by [simp]: "\<forall>w. wid (f w) = wid w \<Longrightarrow> wid ` set (map_by wid i f ws) = wid ` set ws"
  using map_key_map_by [of wid f i ws] by (metis image_set)

lemma wid_drop_by [simp]: "wid ` set (drop_by wid i ws) = wid ` set ws - {i}"
  by (auto simp: set_drop_by)

lemma chat_ids_sub: "chat_ids ws \<subseteq> wid ` set ws"
  by (auto simp: chat_ids_def)

lemma id_kinds:
  "session_id_ok NOTEPAD_ID = False" "session_id_ok WIZARD_ID = False"
  "starts_with ''cmd-'' NOTEPAD_ID = False" "starts_with ''cmd-'' WIZARD_ID = False"
  "session_id_ok i \<Longrightarrow> starts_with ''cmd-'' i = False" "NOTEPAD_ID \<noteq> WIZARD_ID"
  by (auto simp: session_id_ok_def NOTEPAD_ID_def WIZARD_ID_def starts_with_def)

lemma ids_kinds:
  assumes "ids_inv s"
  shows "NOTEPAD_ID \<notin> wid ` set (windows s)" "WIZARD_ID \<notin> wid ` set (windows s)"
    "NOTEPAD_ID \<notin> wid ` set (terminals s)" "WIZARD_ID \<notin> wid ` set (terminals s)"
    "i \<in> wid ` set (windows s) \<Longrightarrow> i \<notin> wid ` set (terminals s)"
    "session_id_ok i \<Longrightarrow> i \<notin> wid ` set (terminals s) \<and> i \<noteq> NOTEPAD_ID \<and> i \<noteq> WIZARD_ID"
    "i \<in> wid ` set (terminals s) \<Longrightarrow> i \<noteq> NOTEPAD_ID \<and> i \<noteq> WIZARD_ID"
  using assms id_kinds unfolding ids_inv_def by metis+

section \<open>Every handler keeps the invariant\<close>

lemma open_ids_stack [simp]:
  "open_ids (bringToFront i s) = open_ids s" "open_ids (off_stack i s) = open_ids s"
  by (simp_all add: open_ids_def bringToFront_def off_stack_def)

lemma stack_front:
  "stack_inv s \<Longrightarrow> zStack s' = zStack s \<Longrightarrow> open_ids s' = insert i (open_ids s) \<Longrightarrow> stack_inv (bringToFront i s')"
  unfolding stack_inv_def by (auto simp: bringToFront_def open_ids_def)

lemma stack_off:
  "stack_inv s \<Longrightarrow> zStack s' = zStack s \<Longrightarrow> open_ids s' = open_ids s - {i} \<Longrightarrow> stack_inv (off_stack i s')"
  unfolding stack_inv_def by (auto simp: off_stack_def open_ids_def)

lemma stack_same: "stack_inv s \<Longrightarrow> zStack s' = zStack s \<Longrightarrow> open_ids s' = open_ids s \<Longrightarrow> stack_inv s'"
  by (simp add: stack_inv_def)

lemma notepad_ids_simps [simp]:
  "notepad_ids None = {}" "notepad_ids (Some n) = (if np_minimized n then {} else {wid n})"
  "wizard_ids None = {}" "wizard_ids (Some w) = {wid w}"
  by (simp_all add: notepad_ids_def wizard_ids_def)

lemma notepad_ids_map: "\<forall>n. wid (f n) = wid n \<and> np_minimized (f n) = np_minimized n \<Longrightarrow> notepad_ids (map_option f n) = notepad_ids n"
  by (cases n) auto

lemma wizard_ids_map: "\<forall>w. wid (f w) = wid w \<Longrightarrow> wizard_ids (map_option f w) = wizard_ids w"
  by (cases w) auto

text \<open>What each part shows besides an identifier of another kind.\<close>

lemma ids_parts:
  assumes "ids_inv s"
  shows "chat_ids (windows s) \<subseteq> wid ` set (windows s)"
    and "notepad_ids (xp_notepad s) \<subseteq> {NOTEPAD_ID}" and "wizard_ids (wizard s) \<subseteq> {WIZARD_ID}"
  using assms by (auto simp: chat_ids_sub ids_inv_def notepad_ids_def wizard_ids_def split: option.splits if_splits)

lemma visible_minus_chat:
  assumes "ids_inv s" and "session_id_ok i"
  shows "(chat_ids (windows s) - {i}) \<union> wid ` set (terminals s) \<union> notepad_ids (xp_notepad s) \<union> wizard_ids (wizard s)
    = open_ids s - {i}"
  using ids_parts [OF assms(1)] ids_kinds(6) [OF assms] by (auto simp: open_ids_def)

lemma visible_minus_terminal:
  assumes "ids_inv s" and "i \<in> wid ` set (terminals s)"
  shows "chat_ids (windows s) \<union> (wid ` set (terminals s) - {i}) \<union> notepad_ids (xp_notepad s) \<union> wizard_ids (wizard s)
    = open_ids s - {i}"
  using ids_parts [OF assms(1)] ids_kinds(5,7) [OF assms(1), of i] assms(2) by (auto simp: open_ids_def)

lemma visible_minus_notepad:
  assumes "ids_inv s"
  shows "chat_ids (windows s) \<union> wid ` set (terminals s) \<union> wizard_ids (wizard s) = open_ids s - {NOTEPAD_ID}"
  using ids_parts [OF assms] ids_kinds(1,3) [OF assms] id_kinds by (auto simp: open_ids_def)

lemma visible_minus_wizard:
  assumes "ids_inv s"
  shows "chat_ids (windows s) \<union> wid ` set (terminals s) \<union> notepad_ids (xp_notepad s) = open_ids s - {WIZARD_ID}"
  using ids_parts [OF assms] ids_kinds(2,4) [OF assms] id_kinds by (auto simp: open_ids_def)

lemma stack_openChat: "stack_inv s \<Longrightarrow> stack_inv (openChat ses s)"
  unfolding openChat_def Let_def
  by (rule stack_front, assumption, simp)
    (auto simp: open_ids_def chat_ids_simps find_by_None image_iff split: option.split dest!: find_by_Some_key)

lemma stack_closeWindow:
  assumes "stack_inv s" "ids_inv s" "session_id_ok i"
  shows "stack_inv (closeWindow (Some i) s)"
proof -
  have "i \<noteq> []" using assms(3) by (simp add: session_id_ok_def)
  moreover have "stack_inv (off_stack i (s\<lparr>windows := drop_by wid i (windows s)\<rparr>))"
    by (rule stack_off [OF assms(1)])
      (simp_all add: open_ids_def chat_ids_drop visible_minus_chat [OF assms(2,3), unfolded open_ids_def])
  ultimately show ?thesis by (simp add: closeWindow_def)
qed

lemma stack_minimizeWindow:
  assumes "stack_inv s" "ids_inv s" "session_id_ok i"
  shows "stack_inv (minimizeWindow i s)"
  unfolding minimizeWindow_def
  by (rule stack_off [OF assms(1)])
    (simp_all add: open_ids_def chat_ids_minimize visible_minus_chat [OF assms(2,3), unfolded open_ids_def])

lemma stack_closeTerminal:
  assumes "stack_inv s" "ids_inv s" "i \<in> wid ` set (terminals s)"
  shows "stack_inv (closeTerminal i s)"
  unfolding closeTerminal_def
  by (rule stack_off [OF assms(1)])
    (simp_all add: open_ids_def chat_ids_minimize visible_minus_terminal [OF assms(2,3), unfolded open_ids_def])

lemma stack_closeNotepad:
  assumes "stack_inv s" "ids_inv s"
  shows "stack_inv (closeNotepad s)"
  unfolding closeNotepad_def
  by (rule stack_off [OF assms(1)])
    (simp_all add: open_ids_def chat_ids_minimize visible_minus_notepad [OF assms(2), unfolded open_ids_def])

lemma stack_closeWizard:
  assumes "stack_inv s" "ids_inv s"
  shows "stack_inv (closeWizard s)"
proof -
  have "open_ids (s\<lparr>wizard := None\<rparr>) = open_ids s - {WIZARD_ID}"
    by (subst visible_minus_wizard [OF assms(2), symmetric]) (simp add: open_ids_def)
  then show ?thesis unfolding closeWizard_def by (intro stack_off [OF assms(1)]) simp_all
qed

lemma stack_openNotepad:
  assumes "stack_inv s" "ids_inv s"
  shows "stack_inv (openNotepad d s)"
proof -
  have "stack_inv (bringToFront NOTEPAD_ID (s\<lparr>xp_notepad := Some n\<rparr>))" if "wid n = NOTEPAD_ID" "\<not> np_minimized n" for n
    by (rule stack_front [OF assms(1)]) (use that ids_parts(2) [OF assms(2)] in \<open>auto simp: open_ids_def\<close>)
  then show ?thesis
    using assms(2) by (cases "xp_notepad s") (simp_all add: openNotepad_def ids_inv_def)
qed

lemma stack_openWizard:
  assumes "stack_inv s" "ids_inv s"
  shows "stack_inv (openWizard s)"
proof -
  have "stack_inv (bringToFront WIZARD_ID (s\<lparr>wizard := Some w\<rparr>))" if "wid w = WIZARD_ID" for w
    by (rule stack_front [OF assms(1)]) (use that ids_parts(3) [OF assms(2)] in \<open>auto simp: open_ids_def\<close>)
  then show ?thesis
    using assms(2) by (cases "wizard s") (simp_all add: openWizard_def ids_inv_def Let_def)
qed

lemma stack_openTerminal: "stack_inv s \<Longrightarrow> stack_inv (openTerminal st now s)"
  unfolding openTerminal_def Let_def
  by (rule stack_front, assumption, simp) (auto simp: open_ids_def)

lemma stack_taskClick:
  assumes "stack_inv s" "ids_inv s"
  shows "stack_inv (taskClick i s)"
proof (cases "find_by wid (windows s) i")
  case None
  with assms show ?thesis by (simp add: taskClick_def)
next
  case (Some w)
  then have w: "wid w = i" "w \<in> set (windows s)" using find_by_Some_key by fastforce+
  then have ok: "session_id_ok i" and mem: "i \<in> wid ` set (windows s)" using assms(2) by (auto simp: ids_inv_def)
  show ?thesis
  proof (cases "minimized w")
    case True
    have "stack_inv (bringToFront i (s\<lparr>windows := map_by wid i (\<lambda>x. x\<lparr>minimized := False\<rparr>) (windows s)\<rparr>))"
      by (rule stack_front [OF assms(1)]) (use mem in \<open>auto simp: open_ids_def chat_ids_simps\<close>)
    with True Some show ?thesis by (simp add: taskClick_def)
  next
    case False
    with w have "i \<in> open_ids s" by (auto simp: open_ids_def chat_ids_def)
    then have "stack_inv (bringToFront i s)" by (intro stack_front [OF assms(1)]) auto
    with False Some stack_minimizeWindow [OF assms ok] show ?thesis by (simp add: taskClick_def)
  qed
qed

lemma stack_taskClickNotepad:
  assumes "stack_inv s" "ids_inv s"
  shows "stack_inv (taskClickNotepad s)"
proof (cases "xp_notepad s")
  case (Some n)
  then have n: "wid n = NOTEPAD_ID" using assms(2) by (simp add: ids_inv_def)
  have "stack_inv (bringToFront NOTEPAD_ID (s\<lparr>xp_notepad := Some (n\<lparr>np_minimized := False\<rparr>)\<rparr>))"
    by (rule stack_front [OF assms(1)]) (use Some n in \<open>auto simp: open_ids_def\<close>)
  moreover have "stack_inv (off_stack NOTEPAD_ID (s\<lparr>xp_notepad := Some (n\<lparr>np_minimized := True\<rparr>)\<rparr>))"
    by (rule stack_off [OF assms(1)]) (use visible_minus_notepad [OF assms(2)] in \<open>auto simp: open_ids_def\<close>)
  moreover have "stack_inv (bringToFront NOTEPAD_ID s)" if "\<not> np_minimized n"
    by (rule stack_front [OF assms(1)]) (use Some n that in \<open>auto simp: open_ids_def\<close>)
  ultimately show ?thesis using Some n by (simp add: taskClickNotepad_def)
qed (simp add: taskClickNotepad_def assms)

lemma stack_onEscape:
  assumes "stack_inv s" "ids_inv s"
  shows "stack_inv (onEscape s)"
proof -
  have exit: "stack_inv (onExit s)" by (rule stack_same [OF assms(1)]) (simp_all add: onExit_def open_ids_def)
  have win: "stack_inv (closeWindow (Some i) s)" if "i \<in> wid ` set (windows s)" for i
    using stack_closeWindow [OF assms] that assms(2) by (auto simp: ids_inv_def)
  show ?thesis
    using assms exit win stack_closeWizard [OF assms] stack_closeNotepad [OF assms] stack_closeTerminal [OF assms]
    by (simp add: onEscape_def wizardOnClose_def split: option.split)
qed

lemma ball_map_by: "\<forall>x \<in> set xs. P x \<Longrightarrow> (\<And>x. P x \<Longrightarrow> P (f x)) \<Longrightarrow> \<forall>x \<in> set (map_by key k f xs). P x"
  by (induction xs) auto

lemma mem_map_by: "x \<in> set (map_by key k f xs) \<Longrightarrow> \<exists>y \<in> set xs. x = y \<or> x = f y"
  by (induction xs) auto

lemma distinct_map_by: "\<forall>x. key (f x) = key x \<Longrightarrow> distinct (map key (map_by key k f xs)) = distinct (map key xs)"
  by (simp add: map_key_map_by)

lemma distinct_drop_by: "distinct (map key xs) \<Longrightarrow> distinct (map key (drop_by key k xs))"
  by (simp add: map_key_drop_by)

lemma frame_ok_ops:
  "frame_ok mx w \<Longrightarrow> frame_ok mx (toggle_frame mx w)"
  "frame_ok mx w \<Longrightarrow> frame_ok mx (move_frame p w)"
  "frame_ok mx w \<Longrightarrow> frame_ok mx (size_frame sz w)"
  "frame_ok mx w \<Longrightarrow> frame_ok mx' (refit_frame mx' w)"
  by (auto simp: frame_ok_def toggle_frame_def move_frame_def size_frame_def refit_frame_def split: bool.split option.split)

lemma frame_ok_min [simp]:
  "frame_ok mx (w\<lparr>minimized := b\<rparr>) = frame_ok mx w"
  "frame_ok mx (n\<lparr>np_minimized := b\<rparr>) = frame_ok mx n" "frame_ok mx (n\<lparr>doc := d\<rparr>) = frame_ok mx n"
  "frame_ok mx (n\<lparr>np_title := t\<rparr>) = frame_ok mx n" "frame_ok mx (n\<lparr>np_content := c\<rparr>) = frame_ok mx n"
  by (simp_all add: frame_ok_def)

lemma vp_max_cong: "viewport s' = viewport s \<Longrightarrow> vp_max s' = vp_max s"
  by (simp add: vp_max_def)

lemma escape_cases:
  assumes "P s" "P (onExit s)" "P (closeWizard s)" "P (closeNotepad s)" "\<And>i. P (closeTerminal i s)"
    "\<And>i. P (closeWindow (Some i) s)"
  shows "P (onEscape s)"
  using assms by (simp add: onEscape_def wizardOnClose_def split: option.split)

lemma ids_step:
  assumes "ids_inv s" and "xp_enabled e s"
  shows "ids_inv (xp_step e s)"
proof (cases e)
  case (OpenChat ses)
  with assms show ?thesis
    by (auto simp: openChat_def Let_def ids_inv_def bringToFront_def distinct_map_by find_by_None split: option.split dest!: mem_map_by)
next
  case (OpenTerminal st now)
  with assms show ?thesis
    by (auto simp: openTerminal_def Let_def ids_inv_def bringToFront_def terminal_id_def starts_with_def)
next
  case (OpenNotepad d)
  with assms show ?thesis
    by (cases "xp_notepad s") (simp_all add: openNotepad_def ids_inv_def bringToFront_def)
next
  case OpenWizard
  with assms show ?thesis
    by (auto simp: openWizard_def Let_def ids_inv_def bringToFront_def split: option.split)
next
  case Escape
  have "ids_inv (onEscape s)"
    by (rule escape_cases) (use assms(1) in \<open>auto simp: ids_inv_def xp_ops distinct_drop_by set_drop_by\<close>)
  with Escape show ?thesis by simp
next
  case (TaskClick i)
  with assms show ?thesis
    by (auto simp: taskClick_def ids_inv_def xp_ops distinct_map_by split: option.split dest!: mem_map_by)
next
  case TaskClickNotepad
  with assms show ?thesis
    by (auto simp: taskClickNotepad_def ids_inv_def xp_ops split: option.split)
next
  case (ViewportResize vw vh)
  with assms show ?thesis
    by (auto simp: onResize_def ids_inv_def Let_def comp_def)
next
  case ConfirmDelete
  with assms show ?thesis
    by (auto simp: confirmDelete_def ids_inv_def xp_ops distinct_drop_by set_drop_by split: option.split)
qed (use assms in \<open>auto simp: xp_ops ids_inv_def distinct_map_by distinct_drop_by set_drop_by\<close>)

lemma frames_step:
  assumes "frames_inv s"
  shows "frames_inv (xp_step e s)"
proof (cases e)
  case (OpenChat ses)
  with assms show ?thesis
    by (auto simp: openChat_def Let_def frames_inv_def bringToFront_def vp_max_def frame_ok_def split: option.split dest!: mem_map_by)
next
  case (OpenTerminal st now)
  with assms show ?thesis
    by (auto simp: openTerminal_def Let_def frames_inv_def bringToFront_def vp_max_def frame_ok_def)
next
  case (OpenNotepad d)
  with assms show ?thesis
    by (cases "xp_notepad s") (simp_all add: openNotepad_def frames_inv_def bringToFront_def vp_max_def frame_ok_def)
next
  case OpenWizard
  with assms show ?thesis
    by (auto simp: openWizard_def Let_def frames_inv_def bringToFront_def vp_max_def split: option.split)
next
  case Escape
  have "frames_inv (onEscape s)"
    by (rule escape_cases) (use assms in \<open>auto simp: frames_inv_def xp_ops vp_max_def set_drop_by\<close>)
  with Escape show ?thesis by simp
next
  case (TaskClick i)
  with assms show ?thesis
    by (auto simp: taskClick_def frames_inv_def xp_ops vp_max_def split: option.split dest!: mem_map_by)
next
  case TaskClickNotepad
  with assms show ?thesis
    by (auto simp: taskClickNotepad_def frames_inv_def xp_ops vp_max_def split: option.split)
next
  case (ViewportResize vw vh)
  with assms show ?thesis
    by (auto simp: onResize_def frames_inv_def Let_def vp_max_def intro: frame_ok_ops)
next
  case ConfirmDelete
  with assms show ?thesis
    by (auto simp: confirmDelete_def frames_inv_def xp_ops vp_max_def set_drop_by split: option.split)
qed (use assms in \<open>auto simp: xp_ops frames_inv_def vp_max_def set_drop_by intro: frame_ok_ops dest!: mem_map_by\<close>)

lemma stack_step:
  assumes "stack_inv s" and "ids_inv s" and "xp_enabled e s"
  shows "stack_inv (xp_step e s)"
proof -
  note same = stack_same [OF assms(1)]
  have win: "session_id_ok i" if "i \<in> wid ` set (windows s)" for i
    using that assms(2) by (auto simp: ids_inv_def)
  show ?thesis
  proof (cases e)
    case (OpenChat x) then show ?thesis using assms stack_openChat by simp
  next
    case (CloseWindow x) then show ?thesis using assms stack_closeWindow win by simp
  next
    case (MinimizeWindow x) then show ?thesis using assms stack_minimizeWindow win by simp
  next
    case (OpenTerminal x y) then show ?thesis using assms stack_openTerminal by simp
  next
    case (CloseTerminal x) then show ?thesis using assms stack_closeTerminal by simp
  next
    case (Activate i) then show ?thesis
      using assms(3) stack_front [OF assms(1) refl, of i] by (simp add: insert_absorb)
  next
    case (OpenNotepad d) then show ?thesis using assms stack_openNotepad by simp
  next
    case CloseNotepad then show ?thesis using assms stack_closeNotepad by simp
  next
    case OpenWizard then show ?thesis using assms stack_openWizard by simp
  next
    case WizardOnClose then show ?thesis
      using assms stack_closeWizard by (auto simp: wizardOnClose_def onExit_def open_ids_def intro!: same)
  next
    case WizardOnDone
    have "stack_inv (closeWizard s)" by (rule stack_closeWizard [OF assms(1,2)])
    with WizardOnDone show ?thesis by (simp add: wizardOnDone_def stack_inv_def open_ids_def)
  next
    case Escape then show ?thesis using assms stack_onEscape by simp
  next
    case (TaskClick i) then show ?thesis using assms stack_taskClick by simp
  next
    case TaskClickNotepad then show ?thesis using assms stack_taskClickNotepad by simp
  next
    case ConfirmDelete
    have del: "stack_inv (s\<lparr>deleteTarget := None\<rparr>)" "ids_inv (s\<lparr>deleteTarget := None\<rparr>)"
      using assms(1,2) by (simp_all add: stack_inv_def open_ids_def ids_inv_def)
    from ConfirmDelete show ?thesis
      using assms(1,2) stack_closeWindow [OF del]
      by (auto simp: confirmDelete_def ids_inv_def split: option.split)
  next
    case (ViewportResize vw vh) then show ?thesis
      by (auto simp: open_ids_def chat_ids_simps notepad_ids_map image_image onResize_def Let_def intro!: same)
  qed (auto simp: xp_ops open_ids_def chat_ids_simps notepad_ids_map wizard_ids_map onResize_def Let_def intro!: same)
qed

lemma xp_init_inv: "xp_inv (xp_init setup vw vh)"
proof -
  have "xp_inv \<lparr>windows = [], terminals = [], xp_notepad = None, wizard = None, zStack = [], menu = None,
        iconResetSignal = 0, deleteTarget = None, isFlenovMode = False, viewport = (vw, vh),
        inSetupMode = b, exits = 0, setups = 0\<rparr>" for b
    by (simp add: xp_inv_def stack_inv_def ids_inv_def frames_inv_def open_ids_def)
  then show ?thesis
    using stack_openWizard ids_step [of _ OpenWizard] frames_step [of _ OpenWizard]
    by (simp add: xp_init_def Let_def xp_inv_def)
qed

interpretation xp: guarded_steps xp_step xp_inv xp_enabled
  by unfold_locales (simp add: xp_inv_def ids_step frames_step stack_step)

interpretation wins: id_collection_add "find_by wid" "drop_by wid" "map_by wid"
  "\<lambda>f. \<forall>w :: open_window. wid (f w) = wid w" "\<lambda>ws. distinct (map wid ws)" wid "\<lambda>w ws. ws @ [w]"
proof unfold_locales
  fix ws :: "open_window list" and w :: open_window
  assume "find_by wid ws (wid w) = None"
  then show "find_by wid (ws @ [w]) = (find_by wid ws)(wid w \<mapsto> w)"
    by (auto simp: fun_eq_iff find_by_append split: option.split)
qed (auto simp: fun_eq_iff find_by_drop find_by_map distinct_map_by distinct_drop_by find_by_None)

section \<open>What the invariant gives\<close>

abbreviation xp_run :: "xp_event list \<Rightarrow> bool \<Rightarrow> int \<Rightarrow> int \<Rightarrow> xp_state" where
  "xp_run es setup vw vh \<equiv> run_steps xp_step es (xp_init setup vw vh)"

lemma xp_run_inv: "admissible xp_enabled xp_step es (xp_init setup vw vh) \<Longrightarrow> xp_inv (xp_run es setup vw vh)"
  by (rule xp.run_inv [OF xp_init_inv])

lemma index_of_mem: "i \<in> set xs \<Longrightarrow> index_of i xs \<noteq> None"
  by (auto simp: index_of_def find_index_None)

lemma index_of_nth: "index_of i xs = Some k \<Longrightarrow> xs ! k = i"
  by (auto simp: index_of_def find_index_Some)

lemma index_of_inject: "i \<in> set xs \<Longrightarrow> index_of i xs = index_of j xs \<Longrightarrow> i = j"
  using index_of_mem index_of_nth by (metis not_None_eq)

lemma z_index_inject:
  assumes "stack_inv s" "i \<in> open_ids s" "j \<in> open_ids s" "z_index s i = z_index s j"
  shows "i = j"
  using assms index_of_mem [of i "zStack s"] index_of_mem [of j "zStack s"] index_of_inject [of i "zStack s" j]
  by (auto simp: stack_inv_def z_index_def or_else_def)

lemma focused_open: "stack_inv s \<Longrightarrow> (focused s = None \<longleftrightarrow> open_ids s = {}) \<and> (focused s = Some i \<longrightarrow> i \<in> open_ids s)"
  by (auto simp: stack_inv_def focused_def dest: last_in_set split: if_splits)

text \<open>C3: In every state the shell can reach, the stacking order lists every window that is open and not minimized exactly
  once and nothing else, and no two of them have the same z-index. While the setup wizard is closed these are the windows
  shown, and the focused window is one of them, missing only when nothing is shown; while it is open, the wizard alone is
  shown and the other windows keep their places behind it, so that the focused one need not be visible.\<close>

theorem stacking_order_is_what_is_shown:
  assumes "admissible xp_enabled xp_step es (xp_init setup vw vh)" and "s = xp_run es setup vw vh"
  shows "distinct (zStack s) \<and> set (zStack s) = open_ids s \<and> inj_on (z_index s) (open_ids s)
     \<and> (\<forall>i. focused s = Some i \<longrightarrow> i \<in> open_ids s)
     \<and> (case wizard s of
          None \<Rightarrow> visible_ids s = open_ids s \<and> (focused s = None \<longleftrightarrow> visible_ids s = {})
        | Some w \<Rightarrow> visible_ids s = {wid w} \<and> wid w \<in> set (zStack s))"
proof -
  have inv: "stack_inv s" using xp_run_inv [OF assms(1)] assms(2) by (simp add: xp_inv_def)
  have "inj_on (z_index s) (open_ids s)" using z_index_inject [OF inv] by (auto simp: inj_on_def)
  moreover have "visible_ids s = {wid w} \<and> wid w \<in> set (zStack s)" if "wizard s = Some w" for w
    using inv visible_open(1) [of s] visible_open(3) [OF that] by (simp add: stack_inv_def)
  ultimately show ?thesis
    using inv focused_open [OF inv] visible_open(2) [of s] by (auto simp: stack_inv_def split: option.split)
qed

lemma stacking_order_is_what_is_shown_witness:
  "let ses = \<lparr>session_id = ''s1'', title = ''One'', source = None, active = None, created_at = [],
         summary_version = None, last_context_tokens = None\<rparr>;
       s = xp_run [OpenChat ses, OpenNotepad GonkaTxt, TaskClick ''s1'', TaskClick ''s1''] False 1280 800
   in distinct (zStack s) \<and> set (zStack s) = open_ids s \<and> inj_on (z_index s) (open_ids s)
     \<and> (\<forall>i. focused s = Some i \<longrightarrow> i \<in> open_ids s)
     \<and> (case wizard s of
          None \<Rightarrow> visible_ids s = open_ids s \<and> (focused s = None \<longleftrightarrow> visible_ids s = {})
        | Some w \<Rightarrow> visible_ids s = {wid w} \<and> wid w \<in> set (zStack s))"
  unfolding Let_def by (rule stacking_order_is_what_is_shown [OF _ refl]) code_simp

text \<open>C19: In every state the shell can reach, a window is maximized exactly when it remembers a
  place to go back to, and then it covers the viewport above the taskbar, also after the viewport
  changed.\<close>

theorem maximized_windows_cover_the_desktop:
  assumes "admissible xp_enabled xp_step es (xp_init setup vw vh)" and "s = xp_run es setup vw vh"
    and "w \<in> set (windows s)" and "maximized w"
  shows "prev w \<noteq> None \<and> position w = \<lparr>left = 0, top = 0\<rparr>
     \<and> size w = \<lparr>width = fst (viewport s), height = snd (viewport s) - 30\<rparr>"
  using xp_run_inv [OF assms(1)] assms(2-4)
  by (auto simp: xp_inv_def frames_inv_def frame_ok_def origin_def vp_max_def maxSize_def TASKBAR_H_def)

lemma maximized_windows_cover_the_desktop_witness:
  "let ses = \<lparr>session_id = ''s1'', title = ''One'', source = None, active = None, created_at = [],
         summary_version = None, last_context_tokens = None\<rparr>;
       s = xp_run [OpenChat ses, ToggleMaximize ''s1'', ViewportResize 1000 700] False 1280 800
   in position (hd (windows s)) = \<lparr>left = 0, top = 0\<rparr> \<and> size (hd (windows s)) = \<lparr>width = 1000, height = 670\<rparr>"
proof -
  let ?es = "[OpenChat \<lparr>session_id = ''s1'', title = ''One'', source = None, active = None, created_at = [],
         summary_version = None, last_context_tokens = None\<rparr>, ToggleMaximize ''s1'', ViewportResize 1000 700]"
  have a: "admissible xp_enabled xp_step ?es (xp_init False 1280 800)" by code_simp
  have m: "hd (windows (xp_run ?es False 1280 800)) \<in> set (windows (xp_run ?es False 1280 800))"
    and x: "maximized (hd (windows (xp_run ?es False 1280 800)))"
    and v: "viewport (xp_run ?es False 1280 800) = (1000, 700)"
    by code_simp+
  show ?thesis
    using maximized_windows_cover_the_desktop [OF a refl m x] v unfolding Let_def by simp
qed

text \<open>A window that was maximized from the state \<open>w\<close>.\<close>

definition parked :: "open_window \<Rightarrow> open_window \<Rightarrow> bool" where
  "parked w x \<longleftrightarrow> maximized x \<and> prev x = Some (position w, size w)
     \<and> x\<lparr>maximized := False, position := position w, size := size w, prev := None\<rparr> = w"

lemma parked_toggle: "\<not> maximized w \<Longrightarrow> prev w = None \<Longrightarrow> parked w (toggle_frame mx w)"
  by (auto simp: parked_def toggle_frame_def)

lemma parked_back: "parked w x \<Longrightarrow> toggle_frame mx x = w"
  by (auto simp: parked_def toggle_frame_def)

lemma parked_ops: "parked w x \<Longrightarrow> parked w (move_frame p x)" "parked w x \<Longrightarrow> parked w (size_frame sz x)"
  "parked w x \<Longrightarrow> parked w (refit_frame mx x)"
  by (auto simp: parked_def move_frame_def size_frame_def refit_frame_def)

fun geometry_event :: "xp_event \<Rightarrow> bool" where
  "geometry_event (MoveWindow i p) = True"
| "geometry_event (SizeWindow i sz) = True"
| "geometry_event (ViewportResize vw vh) = True"
| "geometry_event (Activate i) = True"
| "geometry_event _ = False"

lemma find_by_map_all: "\<forall>x. key (f x) = key x \<Longrightarrow> find_by key (map f xs) k = map_option f (find_by key xs k)"
  by (induction xs) auto

lemma geometry_parked:
  assumes "geometry_event e" and "find_by wid (windows s) i = Some x" and "parked w x"
  shows "\<exists>y. find_by wid (windows (xp_step e s)) i = Some y \<and> parked w y"
  using assms
  by (cases e) (auto simp: moveWindow_def sizeWindow_def onResize_def bringToFront_def Let_def find_by_map
      find_by_map_all parked_ops)

lemma geometry_run_parked:
  assumes "list_all geometry_event es" and "find_by wid (windows s) i = Some x" and "parked w x"
  shows "\<exists>y. find_by wid (windows (run_steps xp_step es s)) i = Some y \<and> parked w y"
  using assms
proof (induction es arbitrary: s x)
  case (Cons e es)
  then obtain y where "find_by wid (windows (xp_step e s)) i = Some y" "parked w y"
    using geometry_parked [of e s i x w] by auto
  with Cons show ?case by simp
qed auto

text \<open>Maximizing a window and restoring it gives back the same window, whatever moves,
  resizes, activations and changes of the viewport arrive in between.\<close>

theorem restore_undoes_maximize:
  assumes "admissible xp_enabled xp_step es0 (xp_init setup vw vh)" and "s = xp_run es0 setup vw vh"
    and "find_by wid (windows s) i = Some w" and "\<not> maximized w" and "list_all geometry_event es"
  shows "find_by wid (windows (toggleMaximize i (run_steps xp_step es (toggleMaximize i s)))) i = Some w"
proof -
  have "frame_ok (vp_max s) w"
    using xp_run_inv [OF assms(1)] find_by_Some_key [OF assms(3)] assms(2) by (auto simp: xp_inv_def frames_inv_def)
  then have "parked w (toggle_frame (vp_max s) w)" using assms(4) by (intro parked_toggle) (cases "prev w"; simp add: frame_ok_def)+
  moreover have "find_by wid (windows (toggleMaximize i s)) i = Some (toggle_frame (vp_max s) w)"
    using assms(3) by (simp add: toggleMaximize_def find_by_map)
  ultimately obtain y where "find_by wid (windows (run_steps xp_step es (toggleMaximize i s))) i = Some y" "parked w y"
    using geometry_run_parked [OF assms(5)] by blast
  then show ?thesis by (simp add: toggleMaximize_def find_by_map parked_back)
qed

lemma restore_undoes_maximize_witness:
  "let ses = \<lparr>session_id = ''s1'', title = ''One'', source = None, active = None, created_at = [],
         summary_version = None, last_context_tokens = None\<rparr>;
       s = xp_run [OpenChat ses] False 1280 800
   in find_by wid (windows (toggleMaximize ''s1'' (run_steps xp_step
        [MoveWindow ''s1'' \<lparr>left = 5, top = 5\<rparr>, ViewportResize 900 600] (toggleMaximize ''s1'' s)))) ''s1''
      = Some (hd (windows s))"
  unfolding Let_def by (rule restore_undoes_maximize [OF _ refl]) code_simp+

text \<open>The taskbar button of the focused chat hides it, and a second click puts everything
  back: the window, the stacking order and the focus.\<close>

theorem task_button_twice_restores:
  assumes "admissible xp_enabled xp_step es (xp_init setup vw vh)" and "s = xp_run es setup vw vh"
    and "focused s = Some i" and "i \<in> wid ` set (windows s)"
  shows "i \<notin> open_ids (taskClick i s) \<and> taskClick i (taskClick i s) = s"
proof -
  have inv: "xp_inv s" using xp_run_inv [OF assms(1)] assms(2) by simp
  then have dist: "distinct (map wid (windows s))" and ids: "ids_inv s" and st: "stack_inv s"
    by (auto simp: xp_inv_def ids_inv_def)
  have i: "i \<in> open_ids s" using focused_open [OF st] assms(3) by blast
  have sid: "session_id_ok i" using ids assms(4) by (auto simp: ids_inv_def)
  have "i \<in> chat_ids (windows s)"
    using i ids_parts [OF ids] ids_kinds(6) [OF ids sid] by (auto simp: open_ids_def)
  then obtain w where w: "w \<in> set (windows s)" "wid w = i" "\<not> minimized w" by (auto simp: chat_ids_def)
  have f: "find_by wid (windows s) i = Some w" using find_by_mem [OF dist w(1)] w(2) by simp
  obtain zs where z: "zStack s = zs @ [i]" "i \<notin> set zs"
    using assms(3) st by (cases "zStack s" rule: rev_cases) (auto simp: focused_def stack_inv_def split: if_splits)
  have fz: "filter (\<lambda>x. x \<noteq> i) zs = zs" using z(2) by (auto simp: filter_id_conv)
  have once: "taskClick i s = minimizeWindow i s" using f w assms(3) by (simp add: taskClick_def)
  have zs: "zStack (minimizeWindow i s) = zs"
    using z by (auto simp: minimizeWindow_def off_stack_def filter_id_conv)
  have "stack_inv (minimizeWindow i s)" by (rule stack_minimizeWindow [OF st ids sid])
  then have hid: "i \<notin> open_ids (minimizeWindow i s)" using zs z by (auto simp: stack_inv_def)
  have undo: "map_by wid i (\<lambda>x. x\<lparr>minimized := False\<rparr>) (map_by wid i (\<lambda>x. x\<lparr>minimized := True\<rparr>) ws) = ws"
    if "\<forall>x \<in> set ws. wid x = i \<longrightarrow> \<not> minimized x" for ws
    using that by (induction ws) auto
  have all: "\<forall>x \<in> set (windows s). wid x = i \<longrightarrow> \<not> minimized x"
    using find_by_mem [OF dist] f w by (metis option.inject)
  have fm: "find_by wid (windows (minimizeWindow i s)) i = Some (w\<lparr>minimized := True\<rparr>)"
    using f by (simp add: minimizeWindow_def off_stack_def find_by_map)
  have "taskClick i (minimizeWindow i s) = s\<lparr>windows := windows s, zStack := zs @ [i]\<rparr>"
    using zs fz fm undo [OF all]
    by (simp add: taskClick_def bringToFront_def) (simp add: minimizeWindow_def off_stack_def)
  then show ?thesis using hid once z(1) by simp
qed

lemma task_button_twice_restores_witness:
  "let ses = \<lparr>session_id = ''s1'', title = ''One'', source = None, active = None, created_at = [],
         summary_version = None, last_context_tokens = None\<rparr>;
       s = xp_run [OpenNotepad Untitled, OpenChat ses] False 1280 800
   in ''s1'' \<notin> open_ids (taskClick ''s1'' s) \<and> taskClick ''s1'' (taskClick ''s1'' s) = s"
  unfolding Let_def by (rule task_button_twice_restores [OF _ refl]) code_simp+

text \<open>Escape closes the focused window and only that one: the order of the others stays,
  and nothing else stops being shown. In setup mode Escape on the wizard leaves the shell and
  closes nothing; with the desktop menu open it does nothing to the windows.\<close>

theorem escape_closes_the_focused_window:
  assumes "admissible xp_enabled xp_step es (xp_init setup vw vh)" and "s = xp_run es setup vw vh"
    and "focused s = Some i"
  shows "if menu s \<noteq> None then onEscape s = s
     else if i = WIZARD_ID \<and> inSetupMode s then onEscape s = s\<lparr>exits := Suc (exits s)\<rparr>
     else zStack (onEscape s) = butlast (zStack s) \<and> open_ids (onEscape s) = open_ids s - {i}"
proof -
  have inv: "xp_inv s" using xp_run_inv [OF assms(1)] assms(2) by simp
  then have ids: "ids_inv s" and st: "stack_inv s" by (auto simp: xp_inv_def)
  have i: "i \<in> open_ids s" using focused_open [OF st] assms(3) by blast
  obtain zs where z: "zStack s = zs @ [i]" "i \<notin> set zs"
    using assms(3) st by (cases "zStack s" rule: rev_cases) (auto simp: focused_def stack_inv_def split: if_splits)
  have close: "zStack s' = zs \<Longrightarrow> stack_inv s' \<Longrightarrow> open_ids s' = open_ids s - {i}" for s'
    using z st by (auto simp: stack_inv_def)
  have ne: "i \<noteq> []"
  proof -
    have "i \<in> wid ` set (windows s) \<or> i \<in> wid ` set (terminals s) \<or> i = NOTEPAD_ID \<or> i = WIZARD_ID"
      using i ids_parts [OF ids] by (auto simp: open_ids_def)
    then show ?thesis
      using ids by (auto simp: ids_inv_def session_id_ok_def NOTEPAD_ID_def WIZARD_ID_def starts_with_def)
  qed
  have kinds: "i = WIZARD_ID \<and> wizard s \<noteq> None \<or> i \<noteq> WIZARD_ID \<and> (i = NOTEPAD_ID \<and> xp_notepad s \<noteq> None
      \<or> i \<noteq> NOTEPAD_ID \<and> (i \<in> wid ` set (terminals s) \<or> i \<notin> wid ` set (terminals s) \<and> i \<in> wid ` set (windows s)))"
    using i ids_parts [OF ids] ids_kinds [OF ids] id_kinds(6)
    by (auto simp: open_ids_def notepad_ids_def wizard_ids_def split: option.splits)
  have off: "zStack (off_stack i t) = zs" if "zStack t = zStack s" for t
    using that z by (auto simp: off_stack_def filter_id_conv)
  have sid: "session_id_ok i" if "i \<in> wid ` set (windows s)" using that ids by (auto simp: ids_inv_def)
  have win: "zStack (closeWindow (Some i) s) = zs \<and> stack_inv (closeWindow (Some i) s)" if "i \<in> wid ` set (windows s)"
    using stack_closeWindow [OF st ids sid [OF that]] ne off by (simp add: closeWindow_def)
  have ter: "zStack (closeTerminal i s) = zs \<and> stack_inv (closeTerminal i s)" if "i \<in> wid ` set (terminals s)"
    using stack_closeTerminal [OF st ids that] off by (simp add: closeTerminal_def)
  have pad: "zStack (closeNotepad s) = zs \<and> stack_inv (closeNotepad s)" if "i = NOTEPAD_ID"
    using stack_closeNotepad [OF st ids] off that by (simp add: closeNotepad_def)
  have wiz: "zStack (closeWizard s) = zs \<and> stack_inv (closeWizard s)" if "i = WIZARD_ID"
    using stack_closeWizard [OF st ids] off that by (simp add: closeWizard_def)
  have "menu s = None \<Longrightarrow> \<not> (i = WIZARD_ID \<and> inSetupMode s) \<Longrightarrow> zStack (onEscape s) = zs \<and> stack_inv (onEscape s)"
    using kinds win ter pad wiz assms(3) ne by (elim disjE conjE) (simp_all add: onEscape_def wizardOnClose_def)
  moreover have "onEscape s = onExit s" if "menu s = None" "i = WIZARD_ID" "inSetupMode s"
    using that kinds assms(3) ne by (simp add: onEscape_def wizardOnClose_def)
  moreover have "menu s \<noteq> None \<Longrightarrow> onEscape s = s" by (simp add: onEscape_def)
  ultimately show ?thesis using close z(1) by (cases "menu s") (simp_all add: onExit_def)
qed

lemma escape_closes_the_focused_window_witness:
  "let ses = \<lparr>session_id = ''s1'', title = ''One'', source = None, active = None, created_at = [],
         summary_version = None, last_context_tokens = None\<rparr>;
       s = xp_run [OpenChat ses, OpenNotepad Untitled] False 1280 800
   in zStack (onEscape s) = butlast (zStack s) \<and> open_ids (onEscape s) = open_ids s - {NOTEPAD_ID}"
proof -
  let ?es = "[OpenChat \<lparr>session_id = ''s1'', title = ''One'', source = None, active = None, created_at = [],
         summary_version = None, last_context_tokens = None\<rparr>, OpenNotepad Untitled]"
  have a: "admissible xp_enabled xp_step ?es (xp_init False 1280 800)"
    and f: "focused (xp_run ?es False 1280 800) = Some NOTEPAD_ID"
    and m: "menu (xp_run ?es False 1280 800) = None" and w: "NOTEPAD_ID \<noteq> WIZARD_ID"
    by code_simp+
  show ?thesis
    using escape_closes_the_focused_window [OF a refl f] m w unfolding Let_def by simp
qed

text \<open>While the wizard is shown every other window is hidden, but the desktop menu's New
  chat still opens one above it: Escape then closes that hidden chat and the wizard stays.\<close>

theorem escape_behind_the_wizard_closes_a_hidden_chat:
  assumes "wizard s = Some w" and "menu s = None" and "session_id_ok (session_id ses)"
    and "session_id ses \<notin> wid ` set (terminals s)"
  shows "wizard (onEscape (openChat ses s)) = Some w
     \<and> session_id ses \<in> chat_ids (windows (openChat ses s))
     \<and> session_id ses \<notin> wid ` set (windows (onEscape (openChat ses s)))"
proof -
  let ?i = "session_id ses" let ?s = "openChat ses s"
  have k: "?i \<noteq> []" "?i \<noteq> WIZARD_ID" "?i \<noteq> NOTEPAD_ID"
    using assms(3) id_kinds by (auto simp: session_id_ok_def)
  have o: "focused ?s = Some ?i" "wizard ?s = Some w" "menu ?s = None" "terminals ?s = terminals s"
    using assms(1,2) by (simp_all add: openChat_def bringToFront_def Let_def focused_def)
  have c: "?i \<in> chat_ids (windows ?s)"
    by (auto simp: openChat_def bringToFront_def Let_def chat_ids_simps find_by_None image_iff
        split: option.split dest!: find_by_Some_key)
  then have "?i \<in> wid ` set (windows ?s)" using chat_ids_sub by blast
  then have "onEscape ?s = closeWindow (Some ?i) ?s" using k o assms(4) by (simp add: onEscape_def)
  then show ?thesis using c k o(2) by (simp add: closeWindow_def off_stack_def)
qed

lemma escape_behind_the_wizard_closes_a_hidden_chat_witness:
  "let ses = \<lparr>session_id = ''s1'', title = ''One'', source = None, active = None, created_at = [],
         summary_version = None, last_context_tokens = None\<rparr>
   in ''s1'' \<notin> wid ` set (windows (onEscape (openChat ses (xp_init True 1280 800))))"
proof -
  let ?ses = "\<lparr>session_id = ''s1'', title = ''One'', source = None, active = None, created_at = [],
         summary_version = None, last_context_tokens = None\<rparr> :: chat_session"
  have "session_id ?ses = ''s1''" by simp
  then show ?thesis
    unfolding Let_def
    using escape_behind_the_wizard_closes_a_hidden_chat [of "xp_init True 1280 800"
      "the (wizard (xp_init True 1280 800))" ?ses]
    by (simp add: xp_init_def openWizard_def bringToFront_def Let_def session_id_ok_def starts_with_def)
qed

end
