(* ===== verification/IconPositions.thy ===== *)
theory IconPositions
  imports WindowGeometry "HOL-Library.AList"
begin

text \<open>
  \<open>frontend/src/pages/chat-winxp/useIconPositions.ts\<close>: where the desktop's icons are. The map
  from identifiers to positions is an association list, in insertion order as a JavaScript
  object has it. \<open>vw\<close> and \<open>vh\<close> are \<open>window.innerWidth\<close> and \<open>window.innerHeight\<close>; the local
  storage is the part \<open>stored\<close> of the state, and \<open>writable\<close> says whether it takes writes (the
  source ignores the exception when it does not).
\<close>

section \<open>The grid\<close>

definition CELL_W :: int where "CELL_W = 96"
definition CELL_H :: int where "CELL_H = 96"
definition MARGIN :: int where "MARGIN = 2"
definition GRID_MARGIN :: int where "GRID_MARGIN = 16"
definition ICON_BOX :: int where "ICON_BOX = 80"

definition rectsOverlap :: "position \<Rightarrow> position \<Rightarrow> bool" where
  "rectsOverlap a b \<longleftrightarrow>
     left a < left b + ICON_BOX \<and> left a + ICON_BOX > left b
     \<and> top a < top b + ICON_BOX \<and> top a + ICON_BOX > top b"

definition hasOverlap :: "position \<Rightarrow> position list \<Rightarrow> bool" where
  "hasOverlap pos others = list_ex (rectsOverlap pos) others"

definition maxRows :: "int \<Rightarrow> nat" where
  "maxRows vh = nat (max 2 ((vh - TASKBAR_H - GRID_MARGIN) div CELL_H))"

definition cell :: "nat \<Rightarrow> nat \<Rightarrow> position" where
  "cell col row = \<lparr>left = GRID_MARGIN + int col * CELL_W, top = GRID_MARGIN + int row * CELL_H\<rparr>"

text \<open>The cells in the order of the two loops: column by column.\<close>

definition candidates :: "int \<Rightarrow> position list" where
  "candidates vh = concat (map (\<lambda>col. map (cell col) [0..<maxRows vh]) [0..<64])"

definition nextFreeGridSlot :: "int \<Rightarrow> position list \<Rightarrow> position" where
  "nextFreeGridSlot vh taken =
     or_else (find (\<lambda>c. \<not> hasOverlap c taken) (candidates vh)) \<lparr>left = GRID_MARGIN, top = GRID_MARGIN\<rparr>"

section \<open>The state and its operations\<close>

type_synonym icon_positions = "(string \<times> position) list"

record icon_state =
  positions :: icon_positions
  stored :: "icon_positions option"
  writable :: bool

definition saveToStorage :: "icon_positions \<Rightarrow> icon_state \<Rightarrow> icon_state" where
  "saveToStorage p s = (if writable s then s\<lparr>stored := Some p\<rparr> else s)"

definition loadFromStorage :: "icon_state \<Rightarrow> icon_positions" where
  "loadFromStorage s = or_else (stored s) []"

definition mount :: "icon_state \<Rightarrow> icon_state" where
  "mount s = s\<lparr>positions := loadFromStorage s\<rparr>"

text \<open>The loop of the effect on new identifiers: \<open>known\<close> is fixed, \<open>taken\<close> and \<open>next\<close> grow.\<close>

fun seed :: "int \<Rightarrow> string set \<Rightarrow> string list \<Rightarrow> position list \<Rightarrow> icon_positions \<Rightarrow> icon_positions" where
  "seed vh known [] taken nxt = nxt"
| "seed vh known (i # ids) taken nxt =
     (if i \<in> known then seed vh known ids taken nxt
      else let slot = nextFreeGridSlot vh taken
           in seed vh known ids (taken @ [slot]) (AList.update i slot nxt))"

definition addIcons :: "int \<Rightarrow> string list \<Rightarrow> icon_state \<Rightarrow> icon_state" where
  "addIcons vh allIds s =
     (let prev = positions s; known = fst ` set prev in
      if set allIds \<subseteq> known then s
      else let nxt = seed vh known allIds (map snd prev) prev
           in (saveToStorage nxt s)\<lparr>positions := nxt\<rparr>)"

text \<open>The icon clamp of this file. Positions are whole pixels already, so \<open>Math.round\<close> keeps them.\<close>

definition clampIcon :: "int \<Rightarrow> int \<Rightarrow> position \<Rightarrow> position" where
  "clampIcon vw vh pos =
     (let maxLeft = max MARGIN (vw - ICON_BOX - MARGIN);
          maxTop = max MARGIN (vh - TASKBAR_H - ICON_BOX - MARGIN)
      in \<lparr>left = min (max MARGIN (left pos)) maxLeft, top = min (max MARGIN (top pos)) maxTop\<rparr>)"

definition setIconPosition :: "int \<Rightarrow> int \<Rightarrow> string \<Rightarrow> position \<Rightarrow> icon_state \<Rightarrow> icon_state" where
  "setIconPosition vw vh i pos s =
     (let resolved = clampIcon vw vh pos in
      if map_of (positions s) i = Some resolved then s
      else let nxt = AList.update i resolved (positions s)
           in (saveToStorage nxt s)\<lparr>positions := nxt\<rparr>)"

text \<open>The loop of \<open>resetPositions\<close> starts from nothing, so it is the seeding loop with no known
  identifier.\<close>

definition resetPositions :: "int \<Rightarrow> string list \<Rightarrow> icon_state \<Rightarrow> icon_state" where
  "resetPositions vh allIds s =
     (let nxt = seed vh {} allIds [] [] in (saveToStorage nxt s)\<lparr>positions := nxt\<rparr>)"

section \<open>Cells\<close>

lemma maxRows_ge: "2 \<le> maxRows vh"
  by (simp add: maxRows_def)

lemma length_concat_rows: "length (concat (map (\<lambda>c. map (f c) [0..<r]) [0..<n])) = n * r"
  by (induction n) (simp_all add: length_concat)

lemma nth_concat_rows:
  "k < n * r \<Longrightarrow> concat (map (\<lambda>c. map (f c) [0..<r]) [0..<n]) ! k = f (k div r) (k mod r)"
proof (induction n)
  case (Suc n)
  show ?case
  proof (cases "k < n * r")
    case True
    with Suc show ?thesis by (simp add: nth_append length_concat_rows)
  next
    case False
    with Suc.prems have "k - n * r < r" by (simp add: algebra_simps)
    moreover from this False have "k div r = n \<and> k mod r = k - n * r"
      by (metis add.commute le_add_diff_inverse2 linorder_not_less mod_less mod_mult_self3 div_mult_self3 div_less
          less_nat_zero_code add_0)
    ultimately show ?thesis using False by (simp add: nth_append length_concat_rows)
  qed
qed simp

lemma length_candidates: "length (candidates vh) = 64 * maxRows vh"
  unfolding candidates_def by (rule length_concat_rows)

lemma nth_candidates: "k < 64 * maxRows vh \<Longrightarrow> candidates vh ! k = cell (k div maxRows vh) (k mod maxRows vh)"
  unfolding candidates_def by (rule nth_concat_rows)

lemmas cell_consts = CELL_W_def CELL_H_def GRID_MARGIN_def ICON_BOX_def

lemma cells_overlap: "rectsOverlap (cell a b) (cell c d) \<longleftrightarrow> a = c \<and> b = d"
  by (auto simp: rectsOverlap_def cell_def cell_consts)

section \<open>Auto arrange\<close>

lemma candidates_overlap:
  assumes "i < 64 * maxRows vh" "j < 64 * maxRows vh"
  shows "rectsOverlap (candidates vh ! i) (candidates vh ! j) \<longleftrightarrow> i = j"
  using assms by (simp add: nth_candidates cells_overlap) (metis div_mult_mod_eq)

lemma slot_take:
  assumes "k < 64 * maxRows vh"
  shows "nextFreeGridSlot vh (take k (candidates vh)) = candidates vh ! k"
proof -
  have "hasOverlap (candidates vh ! i) (take k (candidates vh)) \<longleftrightarrow> i < k" if "i < 64 * maxRows vh" for i
    using that assms candidates_overlap
    by (fastforce simp: hasOverlap_def list_ex_iff in_set_conv_nth length_candidates)
  then have "find (\<lambda>c. \<not> hasOverlap c (take k (candidates vh))) (candidates vh) = Some (candidates vh ! k)"
    using assms unfolding find_Some_iff by (intro exI [of _ k]) (auto simp: length_candidates)
  then show ?thesis by (simp add: nextFreeGridSlot_def or_else_def)
qed

lemma seed_keeps: "i \<notin> set ids \<Longrightarrow> map_of (seed vh known ids taken nxt) i = map_of nxt i"
  by (induction ids arbitrary: taken nxt) (auto simp: Let_def update_conv')

lemma seed_grid:
  assumes "distinct ids" and "set ids \<inter> known = {}" and "k + length ids \<le> 64 * maxRows vh" and "j < length ids"
  shows "map_of (seed vh known ids (take k (candidates vh)) nxt) (ids ! j) = Some (candidates vh ! (k + j))"
  using assms
proof (induction ids arbitrary: k j nxt)
  case (Cons i ids)
  have step: "take k (candidates vh) @ [nextFreeGridSlot vh (take k (candidates vh))] = take (Suc k) (candidates vh)"
    using Cons.prems by (simp add: slot_take take_Suc_conv_app_nth length_candidates)
  show ?case
  proof (cases j)
    case 0
    with Cons.prems show ?thesis by (simp add: Let_def step seed_keeps slot_take update_conv')
  next
    case (Suc j')
    with Cons show ?thesis by (simp add: Let_def step)
  qed
qed simp

lemma seed_dom: "fst ` set (seed vh known ids taken nxt) = fst ` set nxt \<union> (set ids - known)"
  by (induction ids arbitrary: taken nxt) (auto simp: Let_def dom_update)

text \<open>Auto arrange puts the icons into the cells of the grid column by column, in their
  order: the \<open>k\<close>-th icon is in row \<open>k mod rows\<close> of column \<open>k div rows\<close>, and no two icons overlap,
  as long as there are at most 64 columns of them. The arrangement is what a reload finds.\<close>

theorem auto_arrange_fills_columns:
  assumes "distinct ids" and "length ids \<le> 64 * maxRows vh" and "s' = resetPositions vh ids s"
  shows "(\<forall>k < length ids. map_of (positions s') (ids ! k)
        = Some \<lparr>left = 16 + int (k div maxRows vh) * 96, top = 16 + int (k mod maxRows vh) * 96\<rparr>)
     \<and> (\<forall>j < length ids. \<forall>k < length ids. j \<noteq> k \<longrightarrow>
          \<not> rectsOverlap (the (map_of (positions s') (ids ! j))) (the (map_of (positions s') (ids ! k))))
     \<and> (writable s \<longrightarrow> positions (mount s') = positions s')"
proof -
  have pos: "map_of (positions s') (ids ! k) = Some (candidates vh ! k)" if "k < length ids" for k
    using seed_grid [of ids "{}" 0 vh k] that assms by (simp add: resetPositions_def saveToStorage_def Let_def)
  then show ?thesis
    using assms(2) candidates_overlap [of _ vh]
    by (auto simp: nth_candidates cell_def cell_consts)
      (simp add: assms(3) mount_def loadFromStorage_def resetPositions_def saveToStorage_def Let_def or_else_def)
qed

lemma auto_arrange_fills_columns_witness:
  "map_of (positions (resetPositions 430 [''a'', ''b'', ''c'', ''d'', ''e'']
      \<lparr>positions = [], stored = None, writable = True\<rparr>)) ([''a'', ''b'', ''c'', ''d'', ''e''] ! 4)
    = Some \<lparr>left = 16 + int (4 div maxRows 430) * 96, top = 16 + int (4 mod maxRows 430) * 96\<rparr>"
  by (rule auto_arrange_fills_columns [OF _ _ refl, THEN conjunct1, rule_format])
    (simp_all add: maxRows_def TASKBAR_H_def cell_consts)

section \<open>New icons\<close>

lemma window_of_two:
  fixes x :: int
  shows "\<exists>k. \<forall>a :: nat. x - 80 < 16 + int a * 96 \<and> 16 + int a * 96 < x + 80 \<longrightarrow> a = nat k \<or> a = nat (k + 1)"
proof (intro exI allI impI)
  fix a :: nat
  let ?k = "(x - 96) div 96 + 1"
  assume a: "x - 80 < 16 + int a * 96 \<and> 16 + int a * 96 < x + 80"
  have q: "96 * ((x - 96) div 96) \<le> x - 96" "x - 96 < 96 * ((x - 96) div 96) + 96"
    by presburger+
  have "?k \<le> int a" using a q by linarith
  moreover have "int a \<le> ?k + 1" using a q by linarith
  ultimately show "a = nat ?k \<or> a = nat (?k + 1)" by linarith
qed

lemma blocked_by_one: "\<exists>A. card A \<le> 4 \<and> finite A \<and> (\<forall>c \<in> set (candidates vh). rectsOverlap c t \<longrightarrow> c \<in> A)"
proof -
  obtain k where k: "\<And>a :: nat. left t - 80 < 16 + int a * 96 \<and> 16 + int a * 96 < left t + 80 \<Longrightarrow> a = nat k \<or> a = nat (k + 1)"
    using window_of_two by blast
  obtain m where m: "\<And>a :: nat. top t - 80 < 16 + int a * 96 \<and> 16 + int a * 96 < top t + 80 \<Longrightarrow> a = nat m \<or> a = nat (m + 1)"
    using window_of_two by blast
  let ?A = "(\<lambda>(a, b). cell a b) ` ({nat k, nat (k + 1)} \<times> {nat m, nat (m + 1)})"
  have two: "card {x, y} \<le> 2" for x y :: nat by (simp add: card_insert_if)
  have "card ?A \<le> card ({nat k, nat (k + 1)} \<times> {nat m, nat (m + 1)})" by (rule card_image_le) simp
  also have "\<dots> = card {nat k, nat (k + 1)} * card {nat m, nat (m + 1)}" by (rule card_cartesian_product)
  also have "\<dots> \<le> 2 * 2" by (rule mult_le_mono [OF two two])
  finally have "card ?A \<le> 4" by simp
  moreover have "c \<in> ?A" if "c \<in> set (candidates vh)" "rectsOverlap c t" for c
  proof -
    have "\<exists>a b. c = cell a b" using that(1) by (auto simp: candidates_def)
    then obtain a b where c: "c = cell a b" by blast
    have "a \<in> {nat k, nat (k + 1)}" "b \<in> {nat m, nat (m + 1)}"
      using that(2) k [of a] m [of b] by (auto simp: c rectsOverlap_def cell_def cell_consts)
    then show ?thesis unfolding c by blast
  qed
  ultimately show ?thesis by (intro exI [of _ ?A]) auto
qed

lemma blocked_by_all: "\<exists>A. card A \<le> 4 * length taken \<and> finite A \<and> (\<forall>c \<in> set (candidates vh). hasOverlap c taken \<longrightarrow> c \<in> A)"
proof (induction taken)
  case (Cons t taken)
  then obtain A where A: "card A \<le> 4 * length taken" "finite A" "\<forall>c \<in> set (candidates vh). hasOverlap c taken \<longrightarrow> c \<in> A"
    by blast
  obtain B where B: "card B \<le> 4" "finite B" "\<forall>c \<in> set (candidates vh). rectsOverlap c t \<longrightarrow> c \<in> B"
    using blocked_by_one by blast
  have "card (A \<union> B) \<le> 4 * length (t # taken)" using card_Un_le [of A B] A(1) B(1) by simp
  with A B show ?case by (intro exI [of _ "A \<union> B"]) (auto simp: hasOverlap_def)
qed (auto intro: exI [of _ "{}"] simp: hasOverlap_def)

lemma card_candidates: "card (set (candidates vh)) = 64 * maxRows vh"
proof -
  have "distinct (candidates vh)"
    unfolding distinct_conv_nth length_candidates
  proof (intro allI impI)
    fix i j
    assume "i < 64 * maxRows vh" "j < 64 * maxRows vh" "i \<noteq> j"
    then show "candidates vh ! i \<noteq> candidates vh ! j"
      using candidates_overlap [of i vh i] candidates_overlap [of i vh j] by auto
  qed
  then show ?thesis by (simp add: distinct_card length_candidates)
qed

lemma free_slot:
  assumes "4 * length taken < 64 * maxRows vh"
  shows "\<not> hasOverlap (nextFreeGridSlot vh taken) taken"
proof -
  obtain A where A: "card A \<le> 4 * length taken" "finite A" "\<forall>c \<in> set (candidates vh). hasOverlap c taken \<longrightarrow> c \<in> A"
    using blocked_by_all by blast
  have "\<not> set (candidates vh) \<subseteq> A"
  proof
    assume "set (candidates vh) \<subseteq> A"
    then have "card (set (candidates vh)) \<le> card A" by (rule card_mono [OF A(2)])
    with A(1) assms show False by (simp add: card_candidates)
  qed
  then have "find (\<lambda>c. \<not> hasOverlap c taken) (candidates vh) \<noteq> None"
    using A(3) unfolding find_None_iff by blast
  then obtain c where c: "find (\<lambda>c. \<not> hasOverlap c taken) (candidates vh) = Some c" by blast
  then have "\<not> hasOverlap c taken" by (auto simp: find_Some_iff)
  with c show ?thesis by (simp add: nextFreeGridSlot_def or_else_def)
qed

text \<open>A new icon is put where it overlaps no other, wherever the user has dragged the others,
  as long as the desktop has four times as many cells as icons; with the least height that is
  31 icons.\<close>

theorem new_icon_does_not_overlap:
  assumes "4 * length (positions s) < 64 * maxRows vh" and "i \<notin> fst ` set (positions s)"
    and "s' = addIcons vh [i] s"
  shows "\<exists>p. map_of (positions s') i = Some p \<and> \<not> hasOverlap p (map snd (positions s))
     \<and> (\<forall>j. j \<noteq> i \<longrightarrow> map_of (positions s') j = map_of (positions s) j)"
  using assms free_slot [of "map snd (positions s)" vh]
  by (auto simp: addIcons_def Let_def update_conv' saveToStorage_def)

lemma new_icon_does_not_overlap_witness:
  "\<exists>p. map_of (positions (addIcons 430 [''n'']
      \<lparr>positions = [(''a'', \<lparr>left = 20, top = 30\<rparr>)], stored = None, writable = True\<rparr>)) ''n'' = Some p
     \<and> \<not> hasOverlap p [\<lparr>left = 20, top = 30\<rparr>]
     \<and> (\<forall>j. j \<noteq> ''n'' \<longrightarrow> map_of (positions (addIcons 430 [''n'']
      \<lparr>positions = [(''a'', \<lparr>left = 20, top = 30\<rparr>)], stored = None, writable = True\<rparr>)) j
        = map_of [(''a'', \<lparr>left = 20, top = 30\<rparr>)] j)"
  using new_icon_does_not_overlap [of "\<lparr>positions = [(''a'', \<lparr>left = 20, top = 30\<rparr>)], stored = None, writable = True\<rparr>"
      430 "''n''", OF _ _ refl] maxRows_ge [of 430]
  by simp

text \<open>A dragged icon lands on the pixel where it was dropped, pulled inside the desktop, and
  nothing moves it or the others aside: dropped on another icon's place it overlaps that icon,
  which the comment at the head of the file says cannot happen.\<close>

theorem dropped_icon_may_overlap:
  assumes "map_of (positions s) j = Some p" and "i \<noteq> j" and "clampIcon vw vh p = p"
  shows "map_of (positions (setIconPosition vw vh i p s)) i = Some p
     \<and> map_of (positions (setIconPosition vw vh i p s)) j = Some p \<and> rectsOverlap p p"
  using assms
  by (auto simp: setIconPosition_def Let_def update_conv' saveToStorage_def rectsOverlap_def ICON_BOX_def)

lemma dropped_icon_may_overlap_witness:
  "rectsOverlap \<lparr>left = 20, top = 30\<rparr> \<lparr>left = 20, top = 30\<rparr> \<and>
   map_of (positions (setIconPosition 1280 800 ''b'' \<lparr>left = 20, top = 30\<rparr>
      \<lparr>positions = [(''a'', \<lparr>left = 20, top = 30\<rparr>)], stored = None, writable = True\<rparr>)) ''b''
     = Some \<lparr>left = 20, top = 30\<rparr>"
  using dropped_icon_may_overlap [of "\<lparr>positions = [(''a'', \<lparr>left = 20, top = 30\<rparr>)], stored = None, writable = True\<rparr>"
      "''a''" "\<lparr>left = 20, top = 30\<rparr>" "''b''" 1280 800]
  by (simp add: clampIcon_def MARGIN_def ICON_BOX_def TASKBAR_H_def)

end
