(* ===== verification/Desktop.thy ===== *)
theory Desktop
  imports IconPositions ApiTypes
begin

text \<open>
  \<open>frontend/src/pages/chat-winxp/WinXpDesktop.tsx\<close>: the list of desktop icons, the drag of one
  icon with its drop on the recycle bin, the selection rectangle, and the session list with its
  optimistic deletion. A pointer event is its button and place; the bin's rectangle on screen is
  \<open>None\<close> while its cell is not mounted.
\<close>

section \<open>Icons\<close>

datatype icon_kind = NewChatIcon | VibeCodingIcon | NotepadIcon | WizardIcon | BinIcon | ChatIcon

datatype icon_action = OpenNew | ExitShell | OpenUntitled | OpenGonka | LaunchWizard | OpenSession chat_session

record desktop_icon =
  icon_id :: string
  kind :: icon_kind
  icon_label :: string
  onOpen :: "icon_action option"
  isSession :: bool
  busy :: bool

definition BIN_ID :: string where "BIN_ID = ''__bin''"

definition fixed_icon :: "string \<Rightarrow> icon_kind \<Rightarrow> string \<Rightarrow> icon_action option \<Rightarrow> desktop_icon" where
  "fixed_icon i k l a = \<lparr>icon_id = i, kind = k, icon_label = l, onOpen = a, isSession = False, busy = False\<rparr>"

definition fixed_icons :: "desktop_icon list" where
  "fixed_icons =
    [fixed_icon ''__new'' NewChatIcon ''New chat'' (Some OpenNew),
     fixed_icon ''__exit'' VibeCodingIcon ''Vibe Coding (2026)'' (Some ExitShell),
     fixed_icon ''__notepad'' NotepadIcon ''New Text Document.txt'' (Some OpenUntitled),
     fixed_icon ''__gonka_txt'' NotepadIcon ''gonka.txt'' (Some OpenGonka),
     fixed_icon ''__wizard'' WizardIcon ''GRAND Setup Wizard'' (Some LaunchWizard),
     fixed_icon BIN_ID BinIcon ''Recycle Bin'' None]"

definition session_icon :: "chat_session \<Rightarrow> desktop_icon" where
  "session_icon s = \<lparr>icon_id = session_id s, kind = ChatIcon,
     icon_label = str_or (trim (title s)) ''Untitled chat'', onOpen = Some (OpenSession s),
     isSession = True, busy = or_else (active s) False\<rparr>"

definition icons :: "bool \<Rightarrow> chat_session list \<Rightarrow> desktop_icon list" where
  "icons hideAll ss = (if hideAll then [] else fixed_icons @ map session_icon ss)"

section \<open>Dragging an icon\<close>

record pointer =
  button :: int
  clientX :: int
  clientY :: int

record rect =
  r_left :: int
  r_right :: int
  r_top :: int
  r_bottom :: int

definition isPointerOverBin :: "rect option \<Rightarrow> int \<Rightarrow> int \<Rightarrow> bool" where
  "isPointerOverBin r x y = (case r of None \<Rightarrow> False
     | Some r \<Rightarrow> r_left r \<le> x \<and> x \<le> r_right r \<and> r_top r \<le> y \<and> y \<le> r_bottom r)"

record cell_drag =
  startX :: int
  startY :: int
  moved :: bool

record desktop =
  selectedId :: "string option"
  binHover :: bool
  drag :: "cell_drag option"
  ghost :: "(int \<times> int) option"
  delete_requests :: "(string \<times> string) list"
  icon_moves :: "(string \<times> position) list"

definition cell_down :: "desktop_icon \<Rightarrow> pointer \<Rightarrow> desktop \<Rightarrow> desktop" where
  "cell_down ico e d =
     (if button e \<noteq> 0 then d
      else d\<lparr>selectedId := Some (icon_id ico),
             drag := Some \<lparr>startX = clientX e, startY = clientY e, moved = False\<rparr>\<rparr>)"

definition cell_move :: "rect option \<Rightarrow> desktop_icon \<Rightarrow> pointer \<Rightarrow> desktop \<Rightarrow> desktop" where
  "cell_move bin ico e d =
     (case drag d of
        None \<Rightarrow> d
      | Some g \<Rightarrow>
         (let dx = clientX e - startX g; dy = clientY e - startY g in
          if \<not> moved g \<and> \<bar>dx\<bar> + \<bar>dy\<bar> < 4 then d
          else let d' = d\<lparr>drag := Some (g\<lparr>moved := True\<rparr>), ghost := Some (dx, dy)\<rparr> in
               if isSession ico then d'\<lparr>binHover := isPointerOverBin bin (clientX e) (clientY e)\<rparr> else d'))"

text \<open>The release: the drop on the bin asks for a deletion and snaps the icon back; any other
  drop commits the new position, which \<open>setIconPosition\<close> takes.\<close>

definition cell_up :: "rect option \<Rightarrow> desktop_icon \<Rightarrow> position \<Rightarrow> pointer \<Rightarrow> desktop \<Rightarrow> desktop" where
  "cell_up bin ico pos e d =
     (let d' = d\<lparr>drag := None, ghost := None\<rparr> in
      case drag d of
        None \<Rightarrow> d'
      | Some g \<Rightarrow>
          if \<not> moved g then d'
          else let overBin = isSession ico \<and> isPointerOverBin bin (clientX e) (clientY e);
                   d'' = (if isSession ico then d'\<lparr>binHover := False\<rparr> else d');
                   dx = clientX e - startX g; dy = clientY e - startY g in
               if overBin then d''\<lparr>delete_requests := delete_requests d'' @ [(icon_id ico, icon_label ico)]\<rparr>
               else d''\<lparr>icon_moves := icon_moves d'' @ [(icon_id ico, \<lparr>left = left pos + dx, top = top pos + dy\<rparr>)]\<rparr>)"

fun cell_moves :: "rect option \<Rightarrow> desktop_icon \<Rightarrow> pointer list \<Rightarrow> desktop \<Rightarrow> desktop" where
  "cell_moves bin ico [] d = d"
| "cell_moves bin ico (e # es) d = cell_moves bin ico es (cell_move bin ico e d)"

definition icon_gesture ::
  "rect option \<Rightarrow> desktop_icon \<Rightarrow> position \<Rightarrow> pointer \<Rightarrow> pointer list \<Rightarrow> pointer \<Rightarrow> desktop \<Rightarrow> desktop" where
  "icon_gesture bin ico pos e0 es e1 d = cell_up bin ico pos e1 (cell_moves bin ico es (cell_down ico e0 d))"

section \<open>The selection rectangle\<close>

record marquee =
  m_startX :: int
  m_startY :: int
  m_x :: int
  m_y :: int

definition desk_down :: "int \<Rightarrow> bool \<Rightarrow> int \<Rightarrow> int \<Rightarrow> desktop \<times> marquee option \<Rightarrow> desktop \<times> marquee option" where
  "desk_down btn onDesktop x y dm =
     (if btn \<noteq> 0 then dm else if \<not> onDesktop then dm
      else ((fst dm)\<lparr>selectedId := None\<rparr>, Some \<lparr>m_startX = x, m_startY = y, m_x = x, m_y = y\<rparr>))"

definition desk_move :: "int \<Rightarrow> int \<Rightarrow> marquee option \<Rightarrow> marquee option" where
  "desk_move x y m = map_option (\<lambda>m. m\<lparr>m_x := x, m_y := y\<rparr>) m"

definition desk_up :: "marquee option \<Rightarrow> marquee option" where
  "desk_up m = None"

definition marquee_box :: "marquee \<Rightarrow> position \<times> size" where
  "marquee_box m =
     (\<lparr>left = min (m_startX m) (m_x m), top = min (m_startY m) (m_y m)\<rparr>,
      \<lparr>width = \<bar>m_x m - m_startX m\<bar>, height = \<bar>m_y m - m_startY m\<bar>\<rparr>)"

section \<open>The session list\<close>

text \<open>\<open>refresh\<close> with the server's answer, \<open>None\<close> when the request fails; \<open>deleteSession\<close> is the
  optimistic removal and then a refresh, whether the server agreed or not.\<close>

definition refresh :: "chat_session list option \<Rightarrow> chat_session list \<Rightarrow> chat_session list" where
  "refresh answer ss = (case answer of None \<Rightarrow> ss | Some l \<Rightarrow> filter (\<lambda>s. source s \<noteq> Some ''plan'') l)"

definition newChat :: "chat_session option \<Rightarrow> chat_session list option \<Rightarrow> chat_session list \<Rightarrow> chat_session option \<times> chat_session list" where
  "newChat created answer ss = (case created of None \<Rightarrow> (None, ss) | Some s \<Rightarrow> (Some s, refresh answer ss))"

definition deleteSession_begin :: "string \<Rightarrow> chat_session list \<Rightarrow> chat_session list" where
  "deleteSession_begin i ss = drop_by session_id i ss"

definition deleteSession :: "string \<Rightarrow> bool \<Rightarrow> chat_session list option \<Rightarrow> chat_session list \<Rightarrow> bool \<times> chat_session list" where
  "deleteSession i accepted answer ss = (accepted, refresh answer (deleteSession_begin i ss))"

section \<open>What a gesture does\<close>

definition slop :: "pointer \<Rightarrow> pointer \<Rightarrow> bool" where
  "slop e0 e \<longleftrightarrow> \<bar>clientX e - clientX e0\<bar> + \<bar>clientY e - clientY e0\<bar> < 4"

lemma cell_moves_drag:
  assumes "drag d = Some g"
  shows "\<exists>g'. drag (cell_moves bin ico es d) = Some g' \<and> startX g' = startX g \<and> startY g' = startY g
     \<and> (moved g' \<longleftrightarrow> moved g \<or> (\<exists>e \<in> set es. \<not> \<bar>clientX e - startX g\<bar> + \<bar>clientY e - startY g\<bar> < 4))
     \<and> delete_requests (cell_moves bin ico es d) = delete_requests d \<and> icon_moves (cell_moves bin ico es d) = icon_moves d"
  using assms
proof (induction es arbitrary: d g)
  case (Cons e es)
  let ?still = "\<not> moved g \<and> \<bar>clientX e - startX g\<bar> + \<bar>clientY e - startY g\<bar> < 4"
  let ?g1 = "if ?still then g else g\<lparr>moved := True\<rparr>"
  have d: "drag (cell_move bin ico e d) = Some ?g1"
    and kept: "delete_requests (cell_move bin ico e d) = delete_requests d"
      "icon_moves (cell_move bin ico e d) = icon_moves d"
    using Cons.prems by (simp_all add: cell_move_def Let_def)
  have g1: "startX ?g1 = startX g" "startY ?g1 = startY g" "moved ?g1 \<longleftrightarrow> \<not> ?still" by simp_all
  show ?case using Cons.IH [OF d] unfolding kept g1 by (auto simp: kept)
qed simp

text \<open>A gesture on an icon moves it or asks for its deletion exactly when some move went at
  least four pixels from the press. Then a session released over the bin asks for its deletion
  and stays where it is; every other release moves the icon by the total displacement. A fixed
  icon never asks for a deletion.\<close>

theorem icon_gesture_effect:
  assumes "button e0 = 0"
  shows "let d' = icon_gesture bin ico pos e0 es e1 d; real = (\<exists>e \<in> set es. \<not> slop e0 e);
             onBin = isSession ico \<and> isPointerOverBin bin (clientX e1) (clientY e1)
     in delete_requests d' = delete_requests d @ (if real \<and> onBin then [(icon_id ico, icon_label ico)] else [])
      \<and> icon_moves d' = icon_moves d @ (if real \<and> \<not> onBin then
           [(icon_id ico, \<lparr>left = left pos + clientX e1 - clientX e0, top = top pos + clientY e1 - clientY e0\<rparr>)] else [])
      \<and> drag d' = None \<and> ghost d' = None"
proof -
  let ?d0 = "cell_down ico e0 d"
  have "drag ?d0 = Some \<lparr>startX = clientX e0, startY = clientY e0, moved = False\<rparr>"
    using assms by (simp add: cell_down_def)
  from cell_moves_drag [OF this, of bin ico es] obtain g where
    g: "drag (cell_moves bin ico es ?d0) = Some g" "startX g = clientX e0" "startY g = clientY e0"
      "moved g \<longleftrightarrow> (\<exists>e \<in> set es. \<not> slop e0 e)"
      "delete_requests (cell_moves bin ico es ?d0) = delete_requests d" "icon_moves (cell_moves bin ico es ?d0) = icon_moves d"
    using assms by (auto simp: slop_def cell_down_def)
  then show ?thesis by (simp add: icon_gesture_def cell_up_def Let_def add_diff_eq)
qed

lemma icon_gesture_effect_witness:
  "let ico = \<lparr>icon_id = ''s1'', kind = ChatIcon, icon_label = ''One'', onOpen = None, isSession = True, busy = False\<rparr>;
       d = \<lparr>selectedId = None, binHover = False, drag = None, ghost = None, delete_requests = [], icon_moves = []\<rparr>
   in delete_requests (icon_gesture (Some \<lparr>r_left = 100, r_right = 180, r_top = 100, r_bottom = 180\<rparr>) ico \<lparr>left = 16, top = 16\<rparr>
        \<lparr>button = 0, clientX = 20, clientY = 20\<rparr> [\<lparr>button = 0, clientX = 90, clientY = 60\<rparr>]
        \<lparr>button = 0, clientX = 120, clientY = 140\<rparr> d) = [(''s1'', ''One'')]"
proof -
  let ?e0 = "\<lparr>button = 0, clientX = 20, clientY = 20\<rparr>"
  have b: "button ?e0 = 0" by simp
  show ?thesis
    using icon_gesture_effect [OF b, of "Some \<lparr>r_left = 100, r_right = 180, r_top = 100, r_bottom = 180\<rparr>"
      "\<lparr>icon_id = ''s1'', kind = ChatIcon, icon_label = ''One'', onOpen = None, isSession = True, busy = False\<rparr>"
      "\<lparr>left = 16, top = 16\<rparr>" "[\<lparr>button = 0, clientX = 90, clientY = 60\<rparr>]" "\<lparr>button = 0, clientX = 120, clientY = 140\<rparr>"
      "\<lparr>selectedId = None, binHover = False, drag = None, ghost = None, delete_requests = [], icon_moves = []\<rparr>"]
    unfolding Let_def by (simp add: slop_def isPointerOverBin_def)
qed

end
