(* ===== verification/JsNumbers.thy ===== *)
theory JsNumbers
  imports JsPrelude Complex_Main
begin

text \<open>
  JavaScript numbers as the frontend uses them: counters rounded to 53 bits, the decimal text of
  \<open>toFixed\<close>, the reading of \<open>Number\<close>, and the elapsed times that three components print. Fractions
  are exact here; the source's are binary, so a tie of \<open>toFixed\<close> may fall to the other side there.
\<close>

section \<open>Whole numbers\<close>

text \<open>Rounding to the nearest number with 53 bits, ties to the even one.\<close>

fun shrink :: "nat \<Rightarrow> nat" where
  "shrink n = (if n < 2 ^ 54 then 0 else Suc (shrink (n div 2)))"

declare shrink.simps [simp del]

definition js_round :: "nat \<Rightarrow> nat" where
  "js_round n =
     (if n < 2 ^ 53 then n
      else let k = Suc (shrink n); q = n div 2 ^ k; r = n mod 2 ^ k; half = 2 ^ (k - 1) in
        (if r < half \<or> r = half \<and> even q then q else q + 1) * 2 ^ k)"

lemma js_round_id [simp]: "n < 2 ^ 53 \<Longrightarrow> js_round n = n"
  by (simp add: js_round_def)

lemma js_round_limit: "js_round (2 ^ 53 + 1) = 2 ^ 53"
  by (simp add: js_round_def shrink.simps)

section \<open>Decimal text\<close>

text \<open>\<open>toFixed\<close>: the nearest multiple of \<open>10^-d\<close>, the larger one of two, for a number that is not
  negative.\<close>

definition to_fixed :: "nat \<Rightarrow> rat \<Rightarrow> string" where
  "to_fixed d v =
     (let n = nat \<lfloor>v * 10 ^ d + 1 / 2\<rfloor>
      in if d = 0 then nat_str n
         else nat_str (n div 10 ^ d) @ ''.'' @ pad_start d CHR ''0'' (nat_str (n mod 10 ^ d)))"

text \<open>A time span in milliseconds: \<open>fmtDuration\<close> and its copies.\<close>

definition span_text :: "int \<Rightarrow> string" where
  "span_text ms =
     (if ms < 1000 then int_str ms @ ''ms''
      else if ms < 60000 then to_fixed 1 (of_int ms / 1000) @ ''s''
      else int_str (ms div 60000) @ ''m '' @ int_str (ms mod 60000 div 1000) @ ''s'')"

section \<open>Reading a number\<close>

text \<open>The value of \<open>Number(s)\<close> on a string: a finite number (here the exact value of the literal), an
  infinity or \<open>NaN\<close>.\<close>

datatype js_number = Finite rat | Infinite bool | NotANumber

definition hex_val :: "char \<Rightarrow> nat option" where
  "hex_val c = (if is_digit c then Some (digit_val c)
     else map_option (\<lambda>i. 10 + i) (index_of (to_lower c) ''abcdef''))"

fun radix_val :: "nat \<Rightarrow> nat \<Rightarrow> string \<Rightarrow> nat option" where
  "radix_val r acc [] = Some acc"
| "radix_val r acc (c # s) = (case hex_val c of
      None \<Rightarrow> None | Some d \<Rightarrow> if d < r then radix_val r (acc * r + d) s else None)"

text \<open>\<open>e\<close> and \<open>E\<close> with a sign and digits, or nothing.\<close>

definition exponent_val :: "string \<Rightarrow> int option" where
  "exponent_val s = (case s of
      [] \<Rightarrow> Some 0
    | c # r \<Rightarrow> if to_lower c \<noteq> CHR ''e'' then None
        else (case r of
            x # ds \<Rightarrow> if x = CHR ''-'' then (if all_digits ds then Some (- int (digits_val ds)) else None)
              else if x = CHR ''+'' then (if all_digits ds then Some (int (digits_val ds)) else None)
              else if all_digits r then Some (int (digits_val r)) else None
          | [] \<Rightarrow> None))"

definition pow10 :: "int \<Rightarrow> rat" where
  "pow10 e = (if 0 \<le> e then 10 ^ nat e else 1 / 10 ^ nat (- e))"

definition decimal_val :: "string \<Rightarrow> rat option" where
  "decimal_val s =
     (let whole = takeWhile is_digit s; r = dropWhile is_digit s;
          frac = (case r of c # t \<Rightarrow> if c = CHR ''.'' then takeWhile is_digit t else [] | [] \<Rightarrow> []);
          rest = (case r of c # t \<Rightarrow> if c = CHR ''.'' then dropWhile is_digit t else r | [] \<Rightarrow> [])
      in if whole = [] \<and> frac = [] then None
         else map_option (\<lambda>e. of_nat (digits_val (whole @ frac)) * pow10 (e - int (length frac))) (exponent_val rest))"

definition unsigned_val :: "bool \<Rightarrow> string \<Rightarrow> js_number" where
  "unsigned_val neg s =
     (if s = ''Infinity'' then Infinite neg
      else case decimal_val s of None \<Rightarrow> NotANumber | Some v \<Rightarrow> Finite (if neg then - v else v))"

definition js_Number :: "string \<Rightarrow> js_number" where
  "js_Number raw =
     (let s = trim raw; radix = (\<lambda>r. if drop 2 s = [] then NotANumber
            else case radix_val r 0 (drop 2 s) of None \<Rightarrow> NotANumber | Some n \<Rightarrow> Finite (of_nat n)) in
      if s = [] then Finite 0
      else if map to_lower (take 2 s) = ''0x'' then radix 16
      else if map to_lower (take 2 s) = ''0o'' then radix 8
      else if map to_lower (take 2 s) = ''0b'' then radix 2
      else if hd s = CHR ''-'' then unsigned_val True (tl s)
      else if hd s = CHR ''+'' then unsigned_val False (tl s)
      else unsigned_val False s)"

text \<open>\<open>Number(s) || 0\<close>\<close>

definition number_or_zero :: "js_number \<Rightarrow> js_number" where
  "number_or_zero x = (if x = NotANumber then Finite 0 else x)"

section \<open>parseInt\<close>

text \<open>\<open>parseInt(s, 10)\<close>, \<open>None\<close> being \<open>NaN\<close>.\<close>

definition parse_int :: "string \<Rightarrow> int option" where
  "parse_int s =
     (let t = trim_start s; neg = starts_with ''-'' t; u = (if neg \<or> starts_with ''+'' t then drop 1 t else t);
          ds = takeWhile is_digit u; n = int (js_round (digits_val ds))
      in if ds = [] then None else Some (if neg then - n else n))"

text \<open>\<open>n || d\<close> on whole numbers.\<close>

definition int_or :: "int \<Rightarrow> int \<Rightarrow> int" where
  "int_or n d = (if n = 0 then d else n)"

lemma nat_str_starts: "\<exists>c t. nat_str n = c # t \<and> is_digit c"
  using all_digits_nat_str [of n] by (cases "nat_str n") (auto simp: all_digits_def)

lemma parse_int_str: "0 \<le> i \<Longrightarrow> i < 2 ^ 53 \<Longrightarrow> parse_int (int_str i) = Some i"
proof -
  assume i: "0 \<le> i" "i < 2 ^ 53"
  obtain c t where s: "nat_str (nat i) = c # t" "is_digit c" using nat_str_starts by blast
  have ws: "\<not> is_ws c" and sign: "c \<noteq> CHR ''-''" "c \<noteq> CHR ''+''" using s(2) by (auto simp: is_digit_def is_ws_def)
  have ds: "takeWhile is_digit (c # t) = c # t"
    using all_digits_nat_str [of "nat i"] s(1) by (simp add: all_digits_def takeWhile_eq_all_conv list_all_iff)
  have "nat i < 2 ^ 53" using i by (simp add: nat_less_iff)
  then have "int (js_round (digits_val (c # t))) = i" using i(1) digits_val_nat_str [of "nat i"] s(1) by simp
  then show ?thesis using i(1) s ws sign
    by (simp add: parse_int_def int_str_def trim_start_id Let_def ds del: takeWhile.simps)
qed

end
