(* ===== verification/WizardModel.thy ===== *)
theory WizardModel
  imports Interfaces JsNumbers
begin

text \<open>
  The data and the pure functions of the setup wizard, \<open>frontend/src/pages/wizard\<close>: the server's
  configuration (\<open>frontend/src/types.ts\<close>), the wizard's own state (\<open>types.ts\<close>), the list of steps
  (\<open>path.ts\<close>), the status of a configuration (\<open>status.ts\<close>), the texts (\<open>stepMeta.ts\<close>,
  \<open>utils.ts\<close>), the mail presets (\<open>data/emailPresets.ts\<close>), and from \<open>SetupWizard.tsx\<close> and
  \<open>NavBar.tsx\<close> the first state, the draft that is saved and the guard of the Next button.

  Amounts of coins are rational numbers. The provider is a text, because the source casts
  whatever the server sends to its type.
\<close>

section \<open>The server's configuration\<close>

datatype config_source = SrcUnset | SrcEnv | SrcDb | SrcDefault

record config_field =
  cf_value :: string
  cf_source :: config_source

record config_secret =
  cs_set :: bool
  cs_value :: string
  cs_source :: config_source

datatype model_role = RoleChat | RoleSummary | RoleVision | RoleNone

record model_row =
  mr_name :: string
  mr_role :: model_role

record telegram_config =
  tc_token :: config_secret
  tc_allowedUserIds :: "int list option"
  tc_skipped :: bool
  tc_source :: config_source

record email_config =
  ec_address :: config_field
  ec_smtpHost :: config_field
  ec_smtpPort :: config_field
  ec_smtpUsername :: config_field
  ec_smtpPassword :: config_secret
  ec_imapHost :: config_field
  ec_imapPort :: config_field
  ec_imapUsername :: config_field
  ec_imapPassword :: config_secret
  ec_skipped :: bool
  ec_source :: config_source

record openai_config =
  oc_baseUrl :: config_field
  oc_apiKey :: config_secret

record gonka_config_resolved =
  gc_nodeUrl :: config_field
  gc_privateKey :: config_secret

record global_config =
  g_provider :: config_field
  g_openai :: openai_config
  g_gonka :: gonka_config_resolved
  g_models :: "model_row list"
  g_telegram :: telegram_config
  g_email :: email_config

record gonka_config =
  defaultNodeUrl :: string
  inferencedAvailable :: bool
  minBalanceGnk :: string

record gonka_wallet =
  w_address :: string
  w_privateKeyHex :: string
  w_mnemonic :: string
  w_words :: "string list"

record gonka_balance =
  b_address :: string
  b_nodeUrl :: string
  b_amount :: string
  b_gnk :: rat
  b_label :: string

record telegram_user =
  tu_id :: int
  tu_username :: "string option"
  tu_name :: string

section \<open>The draft that is saved\<close>

record openai_draft =
  od_baseUrl :: string
  od_apiKey :: string

record gonka_draft =
  gd_nodeUrl :: string
  gd_privateKey :: string

record telegram_draft =
  td_token :: string
  td_allowedUserIds :: "int list"
  td_skipped :: bool

record email_draft =
  ed_address :: string
  ed_smtpHost :: string
  ed_smtpPort :: string
  ed_smtpUsername :: string
  ed_smtpPassword :: string
  ed_imapHost :: string
  ed_imapPort :: string
  ed_imapUsername :: string
  ed_imapPassword :: string
  ed_skipped :: bool

record global_draft =
  d_provider :: string
  d_openai :: openai_draft
  d_gonka :: gonka_draft
  d_models :: "model_row list"
  d_telegram :: telegram_draft
  d_email :: email_draft

section \<open>The wizard's state\<close>

datatype wallet_mode = CreateWallet | ImportWallet
datatype wallet_import_mode = Mnemonic | PrivateKey
datatype wizard_mode = FullMode | ResumeMode

datatype step_id = SProvider | SOpenai | SWalletChoice | SWalletImport | SWalletCreate | SWalletReveal
  | SWalletBalance | SGonkaModels | STelegram | SEmail | SFinish

record wizard_state =
  provider :: string
  openaiBaseUrl :: string
  openaiApiKey :: string
  openaiApiKeyKnown :: bool
  modelRows :: "model_row list"
  walletMode :: wallet_mode
  walletImportMode :: wallet_import_mode
  gonkaNodeUrl :: string
  gonkaPrivateKey :: string
  gonkaPrivateKeyKnown :: bool
  gonkaMnemonicInput :: string
  gonkaAddress :: string
  gonkaMnemonicWords :: "string list"
  mnemonicAcknowledged :: bool
  bypassBalance :: bool
  gonkaBalance :: "gonka_balance option"
  tgToken :: string
  tgTokenKnown :: bool
  tgLinkedUser :: "telegram_user option"
  tgAllowedUserIds :: "int list"
  tgSkip :: bool
  emailAddress :: string
  emailSmtpHost :: string
  emailSmtpPort :: string
  emailSmtpUsername :: string
  emailSmtpPassword :: string
  emailSmtpPasswordKnown :: bool
  emailImapHost :: string
  emailImapPort :: string
  emailImapUsername :: string
  emailImapPassword :: string
  emailImapPasswordKnown :: bool
  emailSkip :: bool

record step_info =
  meta_title :: string
  meta_subtitle :: string

record wstep_status =
  st_id :: step_id
  st_done :: bool
  st_source :: config_source
  st_optional :: bool

record wizard_status =
  ws_steps :: "wstep_status list"
  ws_done :: bool
  ws_firstMissing :: "step_id option"

definition MIN_BALANCE_GNK :: rat where "MIN_BALANCE_GNK = 1 / 10"
definition DEFAULT_GONKA_NODE :: string where "DEFAULT_GONKA_NODE = ''https://node4.gonka.ai''"

definition empty_row :: model_row where
  "empty_row = \<lparr>mr_name = [], mr_role = RoleChat\<rparr>"

section \<open>The list of steps\<close>

definition buildFullPath :: "wizard_state \<Rightarrow> gonka_config option \<Rightarrow> step_id list" where
  "buildFullPath st gc =
     (if provider st = ''openai'' then [SProvider, SOpenai, STelegram, SEmail, SFinish]
      else [SProvider, SWalletChoice]
        @ (if walletMode st = CreateWallet
           then [SWalletCreate]
             @ (if (case gc of Some g \<Rightarrow> inferencedAvailable g | None \<Rightarrow> False) then [SWalletReveal] else [])
           else [SWalletImport])
        @ [SWalletBalance, SGonkaModels, STelegram, SEmail, SFinish])"

text \<open>\<open>new Map(status.steps.map(...))\<close>: of two entries with one key the later stays.\<close>

definition done_by_step :: "wstep_status list \<Rightarrow> step_id \<Rightarrow> bool option" where
  "done_by_step xs = map_of (rev (map (\<lambda>s. (st_id s, st_done s)) xs))"

definition keeps_step :: "wstep_status list \<Rightarrow> step_id \<Rightarrow> bool" where
  "keeps_step xs i =
     (if i = SFinish then True
      else case done_by_step xs i of None \<Rightarrow> True | Some d \<Rightarrow> \<not> d)"

definition buildPath :: "wizard_state \<Rightarrow> gonka_config option \<Rightarrow> wizard_mode \<Rightarrow> wizard_status option \<Rightarrow> step_id list" where
  "buildPath st gc md status =
     (let full = buildFullPath st gc in
      case status of
        None \<Rightarrow> full
      | Some s \<Rightarrow>
          if md = FullMode \<or> ws_steps s = [] then full
          else let filtered = filter (keeps_step (ws_steps s)) full
               in if 1 < length filtered then filtered else full)"

section \<open>The status of a configuration\<close>

definition pickSource :: "config_source list \<Rightarrow> config_source" where
  "pickSource xs =
     (if SrcDb \<in> set xs then SrcDb
      else if SrcEnv \<in> set xs then SrcEnv
      else if SrcDefault \<in> set xs then SrcDefault
      else SrcUnset)"

definition has_chat_row :: "model_row list \<Rightarrow> bool" where
  "has_chat_row rows = list_ex (\<lambda>r. mr_role r = RoleChat \<and> trim (mr_name r) \<noteq> []) rows"

definition provider_steps :: "global_config \<Rightarrow> wstep_status list" where
  "provider_steps cfg =
     (if cf_value (g_provider cfg) = ''openai'' then
        (let baseDone = cf_source (oc_baseUrl (g_openai cfg)) \<noteq> SrcUnset;
             keyDone = cs_set (oc_apiKey (g_openai cfg)); hasChat = has_chat_row (g_models cfg)
         in [\<lparr>st_id = SOpenai, st_done = baseDone \<and> keyDone \<and> hasChat,
              st_source = pickSource [cf_source (oc_baseUrl (g_openai cfg)), cs_source (oc_apiKey (g_openai cfg))],
              st_optional = False\<rparr>])
      else if cf_value (g_provider cfg) = ''gonka'' then
        (let nodeDone = cf_source (gc_nodeUrl (g_gonka cfg)) \<noteq> SrcUnset;
             keyDone = cs_set (gc_privateKey (g_gonka cfg)); hasChat = has_chat_row (g_models cfg)
         in [\<lparr>st_id = SWalletChoice, st_done = nodeDone \<and> keyDone,
              st_source = pickSource [cf_source (gc_nodeUrl (g_gonka cfg)), cs_source (gc_privateKey (g_gonka cfg))],
              st_optional = False\<rparr>,
             \<lparr>st_id = SGonkaModels, st_done = hasChat,
              st_source = (if hasChat then SrcDb else SrcUnset), st_optional = False\<rparr>])
      else [])"

definition deriveStatus :: "global_config option \<Rightarrow> wizard_status" where
  "deriveStatus config =
     (case config of
        None \<Rightarrow> \<lparr>ws_steps = [], ws_done = False, ws_firstMissing = None\<rparr>
      | Some cfg \<Rightarrow>
         (let providerDone = cf_source (g_provider cfg) = SrcDb;
              steps = [\<lparr>st_id = SProvider, st_done = providerDone, st_source = cf_source (g_provider cfg), st_optional = False\<rparr>]
                @ provider_steps cfg
                @ [\<lparr>st_id = STelegram, st_done = cs_set (tc_token (g_telegram cfg)),
                    st_source = tc_source (g_telegram cfg), st_optional = True\<rparr>,
                   \<lparr>st_id = SEmail,
                    st_done = cs_set (ec_smtpPassword (g_email cfg)) \<or> cs_set (ec_imapPassword (g_email cfg)),
                    st_source = ec_source (g_email cfg), st_optional = True\<rparr>]
          in \<lparr>ws_steps = steps, ws_done = list_all (\<lambda>s. st_optional s \<or> st_done s) steps,
              ws_firstMissing = map_option st_id (find (\<lambda>s. \<not> st_optional s \<and> \<not> st_done s) steps)\<rparr>))"

section \<open>Validation and texts\<close>

definition hex_char :: "char \<Rightarrow> bool" where
  "hex_char c \<longleftrightarrow> is_digit c \<or> to_lower c \<in> set ''abcdef''"

definition strip_0x :: "string \<Rightarrow> string" where
  "strip_0x s = (if map to_lower (take 2 s) = ''0x'' then drop 2 s else s)"

definition isValidPrivateKey :: "string \<Rightarrow> bool" where
  "isValidPrivateKey raw = (let t = strip_0x (trim raw) in length t = 64 \<and> list_all hex_char t)"

definition MNEMONIC_LENGTHS :: "nat list" where
  "MNEMONIC_LENGTHS = [12, 15, 18, 21, 24]"

text \<open>\<open>replace(/\s+/g, ' ')\<close>: the words between the runs of white space, joined by one space.\<close>

definition normalizeMnemonic :: "string \<Rightarrow> string" where
  "normalizeMnemonic raw = join '' '' (split_ws (map to_lower (trim raw)))"

definition isValidMnemonic :: "string \<Rightarrow> bool" where
  "isValidMnemonic raw =
     (let n = normalizeMnemonic raw in
      if n = [] then False
      else if \<not> list_all (\<lambda>c. is_lower c \<or> c = CHR '' '') n then False
      else length (split_on CHR '' '' n) \<in> set MNEMONIC_LENGTHS)"

text \<open>When the two wallet steps offer their button (\<open>WalletCreateStep\<close>, \<open>WalletImportStep\<close>).\<close>

definition canCreate :: "bool \<Rightarrow> wizard_state \<Rightarrow> bool" where
  "canCreate inferencedReady st \<longleftrightarrow> inferencedReady \<and> trim (gonkaNodeUrl st) \<noteq> []"

definition canSubmit :: "wizard_state \<Rightarrow> bool" where
  "canSubmit st \<longleftrightarrow> trim (gonkaNodeUrl st) \<noteq> []
     \<and> (if walletImportMode st = Mnemonic then isValidMnemonic (gonkaMnemonicInput st) else isValidPrivateKey (gonkaPrivateKey st))"

definition formatGnk :: "rat \<Rightarrow> string" where
  "formatGnk v =
     (if 1000 \<le> v then to_fixed 0 v
      else if 1 \<le> v then to_fixed 2 v
      else if 0 < v then to_fixed 4 v
      else ''0'')"

definition off_text :: string where
  "off_text = ''off '' @ [em_dash] @ '' connect later via env''"

definition linked_text :: "string \<Rightarrow> string" where
  "linked_text x = ''linked '' @ [middle_dot] @ '' '' @ x"

definition telegramSummary :: "wizard_state \<Rightarrow> string" where
  "telegramSummary st =
     (if tgSkip st then off_text
      else case tgLinkedUser st of
        Some u \<Rightarrow> linked_text (str_or (tu_name u) (str_or (or_else (tu_username u) []) (int_str (tu_id u))))
      | None \<Rightarrow>
          if trim (tgToken st) \<noteq> [] \<or> tgTokenKnown st
          then ''token saved '' @ [middle_dot] @ '' pending link'' else off_text)"

definition emailSummary :: "wizard_state \<Rightarrow> string" where
  "emailSummary st =
     (if emailSkip st then off_text
      else let addr = trim (emailAddress st);
               hasSecret = emailSmtpPasswordKnown st \<or> emailImapPasswordKnown st
                 \<or> trim (emailSmtpPassword st) \<noteq> [] \<or> trim (emailImapPassword st) \<noteq> []
           in if addr \<noteq> [] \<and> hasSecret then linked_text addr
              else if addr \<noteq> [] then addr @ '' '' @ [middle_dot] @ '' pending password''
              else off_text)"

fun stepMeta :: "step_id \<Rightarrow> step_info" where
  "stepMeta SProvider = \<lparr>meta_title = ''Where should your AI live?'',
     meta_subtitle = ''Two ways to power GRAND. Pick the one that fits '' @ [em_dash] @ '' you can switch any time.''\<rparr>"
| "stepMeta SOpenai = \<lparr>meta_title = ''Connect your AI'',
     meta_subtitle = ''Tell GRAND where to send your messages and which models to use.''\<rparr>"
| "stepMeta SWalletChoice = \<lparr>meta_title = ''Get a Gonka wallet'',
     meta_subtitle = ''Pay-per-call needs a wallet. Brand new? We'' @ [right_quote] @ ''ll create one. Have one? Plug it in.''\<rparr>"
| "stepMeta SWalletImport = \<lparr>meta_title = ''Plug in your wallet'',
     meta_subtitle = ''Paste the recovery phrase from Keplr, Cosmostation or Leap.''\<rparr>"
| "stepMeta SWalletCreate = \<lparr>meta_title = ''Create a new wallet'',
     meta_subtitle = ''One tap and you'' @ [right_quote] @ ''re done. We'' @ [right_quote] @ ''ll show the secret words right after.''\<rparr>"
| "stepMeta SWalletReveal = \<lparr>meta_title = ''Your secret words'',
     meta_subtitle = ''Write them down somewhere safe. They'' @ [right_quote] @ ''re the only way to recover this wallet.''\<rparr>"
| "stepMeta SWalletBalance = \<lparr>meta_title = ''Add some GNK'',
     meta_subtitle = ''Scan the QR or copy the address below. Send at least '' @ ''0.1'' @ '' GNK '' @ [em_dash]
       @ '' we'' @ [right_quote] @ ''ll auto-detect it.''\<rparr>"
| "stepMeta SGonkaModels = \<lparr>meta_title = ''Pick your models'',
     meta_subtitle = ''One chat model is required. Summary and vision are nice-to-haves.''\<rparr>"
| "stepMeta STelegram = \<lparr>meta_title = ''Add Telegram'',
     meta_subtitle = ''Paste your bot token, send a code from your Telegram '' @ [em_dash] @ '' we'' @ [right_quote] @ ''ll link the account.''\<rparr>"
| "stepMeta SEmail = \<lparr>meta_title = ''Connect your mailbox'',
     meta_subtitle = ''Pick your email provider '' @ [em_dash] @ '' we'' @ [right_quote] @ ''ll guide you through generating an app password.''\<rparr>"
| "stepMeta SFinish = \<lparr>meta_title = ''You'' @ [right_quote] @ ''re all set'',
     meta_subtitle = ''Here'' @ [right_quote] @ ''s what we'' @ [right_quote] @ ''ll save. Tap Open GRAND to start your first chat.''\<rparr>"

section \<open>Mail presets\<close>

datatype email_provider = Gmail | Yandex | ICloud | Outlook

text \<open>The preset without its logo and its help texts.\<close>

record email_preset =
  ep_id :: email_provider
  ep_label :: string
  ep_smtpHost :: string
  ep_smtpPort :: string
  ep_imapHost :: string
  ep_imapPort :: string
  ep_hostsLabel :: string

definition EMAIL_PRESETS :: "email_preset list" where
  "EMAIL_PRESETS =
    [\<lparr>ep_id = Gmail, ep_label = ''Gmail'', ep_smtpHost = ''smtp.gmail.com'', ep_smtpPort = ''465'',
       ep_imapHost = ''imap.gmail.com'', ep_imapPort = ''993'',
       ep_hostsLabel = ''smtp.gmail.com:465 '' @ [middle_dot] @ '' imap.gmail.com:993''\<rparr>,
     \<lparr>ep_id = Yandex, ep_label = ''Yandex'', ep_smtpHost = ''smtp.yandex.com'', ep_smtpPort = ''465'',
       ep_imapHost = ''imap.yandex.com'', ep_imapPort = ''993'',
       ep_hostsLabel = ''smtp.yandex.com:465 '' @ [middle_dot] @ '' imap.yandex.com:993''\<rparr>,
     \<lparr>ep_id = ICloud, ep_label = ''iCloud'', ep_smtpHost = ''smtp.mail.me.com'', ep_smtpPort = ''587'',
       ep_imapHost = ''imap.mail.me.com'', ep_imapPort = ''993'',
       ep_hostsLabel = ''smtp.mail.me.com:587 (STARTTLS) '' @ [middle_dot] @ '' imap.mail.me.com:993 (SSL)''\<rparr>,
     \<lparr>ep_id = Outlook, ep_label = ''Outlook.com'', ep_smtpHost = ''smtp-mail.outlook.com'', ep_smtpPort = ''587'',
       ep_imapHost = ''outlook.office365.com'', ep_imapPort = ''993'',
       ep_hostsLabel = ''smtp-mail.outlook.com:587 (STARTTLS) '' @ [middle_dot] @ '' outlook.office365.com:993 (SSL)''\<rparr>]"

definition findEmailPreset :: "email_provider option \<Rightarrow> email_preset option" where
  "findEmailPreset i = find (\<lambda>p. Some (ep_id p) = i) EMAIL_PRESETS"

definition applyPreset :: "email_preset \<Rightarrow> wizard_state \<Rightarrow> wizard_state" where
  "applyPreset p st =
     (let st1 = st\<lparr>emailSmtpHost := ep_smtpHost p, emailSmtpPort := ep_smtpPort p,
                   emailImapHost := ep_imapHost p, emailImapPort := ep_imapPort p\<rparr>;
          addr = trim (emailAddress st)
      in if addr \<noteq> [] then
           (let st2 = (if trim (emailSmtpUsername st) = [] then st1\<lparr>emailSmtpUsername := addr\<rparr> else st1)
            in if trim (emailImapUsername st) = [] then st2\<lparr>emailImapUsername := addr\<rparr> else st2)
         else st1)"

section \<open>First state, draft and the Next button\<close>

definition buildInitialState :: "global_config \<Rightarrow> string \<Rightarrow> wizard_state" where
  "buildInitialState cfg defaultGonkaNode =
     (let allowed = or_else (tc_allowedUserIds (g_telegram cfg)) []; e = g_email cfg in
      \<lparr>provider = str_or (cf_value (g_provider cfg)) ''openai'',
       openaiBaseUrl = cf_value (oc_baseUrl (g_openai cfg)),
       openaiApiKey = cs_value (oc_apiKey (g_openai cfg)),
       openaiApiKeyKnown = cs_set (oc_apiKey (g_openai cfg)),
       modelRows = (if g_models cfg \<noteq> [] then g_models cfg else [empty_row]),
       walletMode = CreateWallet, walletImportMode = Mnemonic,
       gonkaNodeUrl = str_or (cf_value (gc_nodeUrl (g_gonka cfg))) defaultGonkaNode,
       gonkaPrivateKey = [], gonkaPrivateKeyKnown = cs_set (gc_privateKey (g_gonka cfg)),
       gonkaMnemonicInput = [], gonkaAddress = [], gonkaMnemonicWords = [], mnemonicAcknowledged = False,
       bypassBalance = False, gonkaBalance = None,
       tgToken = cs_value (tc_token (g_telegram cfg)), tgTokenKnown = cs_set (tc_token (g_telegram cfg)),
       tgLinkedUser = (case allowed of i # _ \<Rightarrow>
           if i \<noteq> 0 then Some \<lparr>tu_id = i, tu_username = None, tu_name = []\<rparr> else None | [] \<Rightarrow> None),
       tgAllowedUserIds = allowed, tgSkip = tc_skipped (g_telegram cfg),
       emailAddress = cf_value (ec_address e),
       emailSmtpHost = cf_value (ec_smtpHost e), emailSmtpPort = cf_value (ec_smtpPort e),
       emailSmtpUsername = cf_value (ec_smtpUsername e), emailSmtpPassword = cs_value (ec_smtpPassword e),
       emailSmtpPasswordKnown = cs_set (ec_smtpPassword e),
       emailImapHost = cf_value (ec_imapHost e), emailImapPort = cf_value (ec_imapPort e),
       emailImapUsername = cf_value (ec_imapUsername e), emailImapPassword = cs_value (ec_imapPassword e),
       emailImapPasswordKnown = cs_set (ec_imapPassword e), emailSkip = ec_skipped e\<rparr>)"

definition autoFillFirstModel :: "string list \<Rightarrow> wizard_state \<Rightarrow> wizard_state" where
  "autoFillFirstModel models st =
     (let rows = modelRows st;
          isEmpty = rows = [] \<or> length rows = 1 \<and> trim (mr_name (hd rows)) = []
      in if isEmpty \<and> models \<noteq> [] then st\<lparr>modelRows := [\<lparr>mr_name = hd models, mr_role = RoleChat\<rparr>]\<rparr> else st)"

definition valid_rows :: "model_row list \<Rightarrow> model_row list" where
  "valid_rows rows = map (\<lambda>r. r\<lparr>mr_name := trim (mr_name r)\<rparr>) (filter (\<lambda>r. trim (mr_name r) \<noteq> []) rows)"

definition merged_ids :: "wizard_state \<Rightarrow> int list" where
  "merged_ids st = (case tgLinkedUser st of
      Some u \<Rightarrow> if tu_id u \<noteq> 0 then dedupe (tu_id u # tgAllowedUserIds st) else tgAllowedUserIds st
    | None \<Rightarrow> tgAllowedUserIds st)"

definition buildDraft :: "wizard_state \<Rightarrow> global_draft" where
  "buildDraft st =
     \<lparr>d_provider = provider st,
      d_openai = \<lparr>od_baseUrl = trim (openaiBaseUrl st), od_apiKey = trim (openaiApiKey st)\<rparr>,
      d_gonka = \<lparr>gd_nodeUrl = trim (gonkaNodeUrl st), gd_privateKey = trim (gonkaPrivateKey st)\<rparr>,
      d_models = valid_rows (modelRows st),
      d_telegram = \<lparr>td_token = trim (tgToken st),
        td_allowedUserIds = (if tgSkip st then [] else merged_ids st), td_skipped = tgSkip st\<rparr>,
      d_email = \<lparr>ed_address = trim (emailAddress st), ed_smtpHost = trim (emailSmtpHost st),
        ed_smtpPort = trim (emailSmtpPort st), ed_smtpUsername = trim (emailSmtpUsername st),
        ed_smtpPassword = trim (emailSmtpPassword st), ed_imapHost = trim (emailImapHost st),
        ed_imapPort = trim (emailImapPort st), ed_imapUsername = trim (emailImapUsername st),
        ed_imapPassword = trim (emailImapPassword st), ed_skipped = emailSkip st\<rparr>\<rparr>"

definition hasEnoughBalance :: "wizard_state \<Rightarrow> bool" where
  "hasEnoughBalance st = (case gonkaBalance st of None \<Rightarrow> False | Some b \<Rightarrow> MIN_BALANCE_GNK \<le> b_gnk b)"

fun isNextDisabled :: "step_id \<Rightarrow> wizard_state \<Rightarrow> bool" where
  "isNextDisabled SProvider st = (provider st = [])"
| "isNextDisabled SOpenai st = (trim (openaiBaseUrl st) = [] \<or> \<not> has_chat_row (modelRows st))"
| "isNextDisabled SWalletChoice st = False"
| "isNextDisabled SWalletCreate st = True"
| "isNextDisabled SWalletImport st = True"
| "isNextDisabled SWalletReveal st = (\<not> mnemonicAcknowledged st)"
| "isNextDisabled SWalletBalance st = (\<not> bypassBalance st \<and> \<not> hasEnoughBalance st)"
| "isNextDisabled SGonkaModels st = (\<not> has_chat_row (modelRows st))"
| "isNextDisabled STelegram st =
     (if tgSkip st \<or> tgLinkedUser st \<noteq> None then False else if tgTokenKnown st then False else True)"
| "isNextDisabled SEmail st =
     (if emailSkip st then False
      else let hasAddress = trim (emailAddress st) \<noteq> [];
               hasSmtp = trim (emailSmtpHost st) \<noteq> [] \<and> (emailSmtpPasswordKnown st \<or> trim (emailSmtpPassword st) \<noteq> []);
               hasImap = trim (emailImapHost st) \<noteq> [] \<and> (emailImapPasswordKnown st \<or> trim (emailImapPassword st) \<noteq> [])
           in \<not> (hasAddress \<and> (hasSmtp \<or> hasImap)))"
| "isNextDisabled SFinish st = False"

end
