(* ===== verification/ModelEditor.thy ===== *)
theory ModelEditor
  imports WizardModel
begin

text \<open>
  The list of models with their roles that two steps of the setup wizard show: \<open>wizard/components/ModelEditor.tsx\<close> and
  \<open>wizard-steps/ModelEditor.tsx\<close>, which have the same handlers.
\<close>

section \<open>Models and roles\<close>

record model_item =
  mi_id :: string
  mi_custom :: bool

definition model_items :: "string list option \<Rightarrow> model_row list \<Rightarrow> model_item list" where
  "model_items available rows =
     (let fromServer = map (\<lambda>m. \<lparr>mi_id = m, mi_custom = False\<rparr>) (or_else available []);
          customRows = map (\<lambda>r. \<lparr>mi_id = mr_name r, mi_custom = True\<rparr>)
            (filter (\<lambda>r. trim (mr_name r) \<noteq> [] \<and> \<not> list_ex (\<lambda>s. mi_id s = mr_name r) fromServer) rows)
      in customRows @ fromServer)"

definition cleanRows :: "model_row list \<Rightarrow> model_row list" where
  "cleanRows rows = filter (\<lambda>r. trim (mr_name r) \<noteq> []) rows"

definition findRow :: "string \<Rightarrow> model_row list \<Rightarrow> model_row option" where
  "findRow name rows = find (\<lambda>r. mr_name r = name \<and> trim (mr_name r) \<noteq> []) rows"

text \<open>Appending a chosen model, as \<open>toggleSelect\<close> and \<open>addCustom\<close> do.\<close>

definition choose_model :: "string \<Rightarrow> model_row list \<Rightarrow> model_row list" where
  "choose_model name rows =
     (let nxt = cleanRows rows; hasChat = list_ex (\<lambda>r. mr_role r = RoleChat) nxt
      in nxt @ [\<lparr>mr_name = name, mr_role = (if hasChat then RoleNone else RoleChat)\<rparr>])"

definition toggleSelect :: "string \<Rightarrow> model_row list \<Rightarrow> model_row list" where
  "toggleSelect name rows =
     (if findRow name rows \<noteq> None then filter (\<lambda>r. mr_name r \<noteq> name) (cleanRows rows) else choose_model name rows)"

definition setRowRole :: "string \<Rightarrow> model_role \<Rightarrow> model_row list \<Rightarrow> model_row list" where
  "setRowRole name role rows =
     map (\<lambda>r. if mr_name r = name then r\<lparr>mr_role := role\<rparr>
              else if role \<noteq> RoleNone \<and> mr_role r = role then r\<lparr>mr_role := RoleNone\<rparr> else r) (cleanRows rows)"

text \<open>The field for a model the server does not list: the text it is left with, and the rows.\<close>

definition addCustom :: "string \<Rightarrow> model_row list \<Rightarrow> string \<times> model_row list" where
  "addCustom draft rows =
     (let name = trim draft in
      if name = [] then (draft, rows)
      else if findRow name rows \<noteq> None then ([], rows)
      else ([], choose_model name rows))"

text \<open>A click on a role that is on takes it away (\<open>RolePicker\<close>).\<close>

definition click_role :: "string \<Rightarrow> model_role \<Rightarrow> model_row list \<Rightarrow> model_row list" where
  "click_role name role rows =
     (let value = (case findRow name rows of Some r \<Rightarrow> mr_role r | None \<Rightarrow> RoleNone)
      in setRowRole name (if value = role then RoleNone else role) rows)"

end
