(* ===== verification/WizardMachine.thy ===== *)
theory WizardMachine
  imports ModelEditor
begin

text \<open>
  The setup wizard \<open>frontend/src/pages/wizard/SetupWizard.tsx\<close> as a state machine, with the fields its steps change
  and the buttons it offers (\<open>components/NavBar.tsx\<close>, \<open>steps/*.tsx\<close>). Every asynchronous handler is two operations, what
  it does before the request and what it does with the answer: \<open>Inl\<close> a failure with its message, \<open>Inr\<close> the
  server's value. The direction of the page-turn animation is left out.
\<close>

section \<open>State\<close>

text \<open>The requests that are shown as \<open>submitting\<close>. \<open>wm_request\<close> is the one that runs, \<open>wm_listing\<close> counts the requests for
  lists of models; with \<open>wm_saved\<close> and \<open>wm_done\<close> they say what the page has asked the server for.\<close>

datatype wizard_request = CreationRequest | MnemonicRequest | AddressRequest | CompletionRequest

record wizard =
  wm_state :: "wizard_state option"
  stepId :: step_id
  wm_mode :: wizard_mode
  wm_gonka :: "gonka_config option"
  wm_resolved :: "global_config option"
  wm_error :: string
  submitting :: bool
  availableModels :: "string list option"
  loadingModels :: bool
  modelsError :: string
  wm_request :: "wizard_request option"
  wm_listing :: nat
  wm_saved :: "global_draft option"
  wm_done :: nat

definition wizard_start :: "wizard_mode \<Rightarrow> wizard" where
  "wizard_start md = \<lparr>wm_state = None, stepId = SProvider, wm_mode = md, wm_gonka = None, wm_resolved = None,
     wm_error = [], submitting = False, availableModels = None, loadingModels = False, modelsError = [],
     wm_request = None, wm_listing = 0, wm_saved = None, wm_done = 0\<rparr>"

text \<open>The effect that loads the configuration; \<open>gonka\<close> is \<open>None\<close> when its request failed.\<close>

definition loaded :: "global_config \<Rightarrow> gonka_config option \<Rightarrow> wizard \<Rightarrow> wizard" where
  "loaded cfg gonka m =
     (let fallback = (case gonka of Some g \<Rightarrow> str_or (defaultNodeUrl g) DEFAULT_GONKA_NODE | None \<Rightarrow> DEFAULT_GONKA_NODE);
          gc = (case gonka of Some g \<Rightarrow> g
                | None \<Rightarrow> \<lparr>defaultNodeUrl = fallback, inferencedAvailable = False, minBalanceGnk = ''0.1''\<rparr>);
          m' = m\<lparr>wm_resolved := Some cfg, wm_gonka := Some gc, wm_state := Some (buildInitialState cfg fallback)\<rparr>
      in case ws_firstMissing (deriveStatus (Some cfg)) of
           Some i \<Rightarrow> if wm_mode m = ResumeMode then m'\<lparr>stepId := i\<rparr> else m'
         | None \<Rightarrow> m')"

definition path :: "wizard \<Rightarrow> step_id list" where
  "path m = (case wm_state m of None \<Rightarrow> []
     | Some st \<Rightarrow> buildPath st (wm_gonka m) (wm_mode m) (Some (deriveStatus (wm_resolved m))))"

definition currentIdx :: "wizard \<Rightarrow> nat" where
  "currentIdx m = (case wm_state m of None \<Rightarrow> 0 | Some _ \<Rightarrow> or_else (index_of (stepId m) (path m)) 0)"

definition canBack :: "wizard \<Rightarrow> bool" where
  "canBack m \<longleftrightarrow> 0 < currentIdx m \<and> stepId m \<noteq> SWalletReveal"

definition canNext :: "wizard \<Rightarrow> bool" where
  "canNext m = (case wm_state m of None \<Rightarrow> False | Some st \<Rightarrow> \<not> isNextDisabled (stepId m) st)"

section \<open>Fields\<close>

text \<open>What the steps hand to \<open>update\<close>, field by field; the rows of models are what the editor of models makes of them.\<close>

datatype field_edit =
    Set_openaiBaseUrl string
  | Set_openaiApiKey string
  | Toggle_model string
  | Set_model_role string model_role
  | Add_model string
  | Set_walletImportMode wallet_import_mode
  | Set_gonkaMnemonicInput string
  | Set_gonkaPrivateKey string
  | Set_gonkaNodeUrl string
  | Set_mnemonicAcknowledged bool
  | Set_gonkaBalance gonka_balance
  | Set_bypassBalance bool
  | Set_tgToken string
  | Set_tgLinkedUser "telegram_user option"
  | Set_tgSkip bool
  | Set_emailAddress string
  | Set_emailSmtpHost string
  | Set_emailSmtpPort string
  | Set_emailSmtpUsername string
  | Set_emailSmtpPassword string
  | Set_emailImapHost string
  | Set_emailImapPort string
  | Set_emailImapUsername string
  | Set_emailImapPassword string
  | Set_emailSkip bool

fun edit_field :: "field_edit \<Rightarrow> wizard_state \<Rightarrow> wizard_state" where
  "edit_field (Set_openaiBaseUrl v) st = st\<lparr>openaiBaseUrl := v\<rparr>"
| "edit_field (Set_openaiApiKey v) st = st\<lparr>openaiApiKey := v\<rparr>"
| "edit_field (Toggle_model n) st = st\<lparr>modelRows := toggleSelect n (modelRows st)\<rparr>"
| "edit_field (Set_model_role n r) st = st\<lparr>modelRows := click_role n r (modelRows st)\<rparr>"
| "edit_field (Add_model d) st = st\<lparr>modelRows := snd (addCustom d (modelRows st))\<rparr>"
| "edit_field (Set_walletImportMode v) st = st\<lparr>walletImportMode := v\<rparr>"
| "edit_field (Set_gonkaMnemonicInput v) st = st\<lparr>gonkaMnemonicInput := v\<rparr>"
| "edit_field (Set_gonkaPrivateKey v) st = st\<lparr>gonkaPrivateKey := v\<rparr>"
| "edit_field (Set_gonkaNodeUrl v) st = st\<lparr>gonkaNodeUrl := v\<rparr>"
| "edit_field (Set_mnemonicAcknowledged v) st = st\<lparr>mnemonicAcknowledged := v\<rparr>"
| "edit_field (Set_gonkaBalance v) st = st\<lparr>gonkaBalance := Some v\<rparr>"
| "edit_field (Set_bypassBalance v) st = st\<lparr>bypassBalance := v\<rparr>"
| "edit_field (Set_tgToken v) st = st\<lparr>tgToken := v\<rparr>"
| "edit_field (Set_tgLinkedUser v) st = st\<lparr>tgLinkedUser := v\<rparr>"
| "edit_field (Set_tgSkip v) st = st\<lparr>tgSkip := v\<rparr>"
| "edit_field (Set_emailAddress v) st = st\<lparr>emailAddress := v\<rparr>"
| "edit_field (Set_emailSmtpHost v) st = st\<lparr>emailSmtpHost := v\<rparr>"
| "edit_field (Set_emailSmtpPort v) st = st\<lparr>emailSmtpPort := v\<rparr>"
| "edit_field (Set_emailSmtpUsername v) st = st\<lparr>emailSmtpUsername := v\<rparr>"
| "edit_field (Set_emailSmtpPassword v) st = st\<lparr>emailSmtpPassword := v\<rparr>"
| "edit_field (Set_emailImapHost v) st = st\<lparr>emailImapHost := v\<rparr>"
| "edit_field (Set_emailImapPort v) st = st\<lparr>emailImapPort := v\<rparr>"
| "edit_field (Set_emailImapUsername v) st = st\<lparr>emailImapUsername := v\<rparr>"
| "edit_field (Set_emailImapPassword v) st = st\<lparr>emailImapPassword := v\<rparr>"
| "edit_field (Set_emailSkip v) st = st\<lparr>emailSkip := v\<rparr>"

text \<open>The steps that hold the field. The answer to a request for the balance may come when its step was left.\<close>

fun edit_steps :: "field_edit \<Rightarrow> step_id list" where
  "edit_steps (Set_openaiBaseUrl v) = [SOpenai]"
| "edit_steps (Set_openaiApiKey v) = [SOpenai]"
| "edit_steps (Toggle_model n) = [SOpenai, SGonkaModels]"
| "edit_steps (Set_model_role n r) = [SOpenai, SGonkaModels]"
| "edit_steps (Add_model d) = [SOpenai, SGonkaModels]"
| "edit_steps (Set_walletImportMode v) = [SWalletImport]"
| "edit_steps (Set_gonkaMnemonicInput v) = [SWalletImport]"
| "edit_steps (Set_gonkaPrivateKey v) = [SWalletImport]"
| "edit_steps (Set_gonkaNodeUrl v) = [SWalletImport, SWalletCreate]"
| "edit_steps (Set_mnemonicAcknowledged v) = [SWalletReveal]"
| "edit_steps (Set_gonkaBalance v) = [SProvider, SOpenai, SWalletChoice, SWalletImport, SWalletCreate, SWalletReveal, SWalletBalance,
     SGonkaModels, STelegram, SEmail, SFinish]"
| "edit_steps (Set_bypassBalance v) = [SWalletBalance]"
| "edit_steps (Set_tgToken v) = [STelegram]"
| "edit_steps (Set_tgLinkedUser v) = [STelegram]"
| "edit_steps (Set_tgSkip v) = [STelegram]"
| "edit_steps e = [SEmail]"

section \<open>Handlers\<close>

definition on_state :: "(wizard_state \<Rightarrow> wizard_state) \<Rightarrow> wizard \<Rightarrow> wizard" where
  "on_state f m = m\<lparr>wm_state := map_option f (wm_state m)\<rparr>"

definition goTo :: "step_id \<Rightarrow> wizard \<Rightarrow> wizard" where
  "goTo nxt m = m\<lparr>stepId := nxt\<rparr>"

definition goNext :: "wizard \<Rightarrow> wizard" where
  "goNext m =
     (let m1 = m\<lparr>wm_error := []\<rparr> in
      case JsPrelude.at (path m) (currentIdx m + 1) of Some i \<Rightarrow> goTo i m1 | None \<Rightarrow> m1)"

text \<open>\<open>path[-1]\<close> is undefined.\<close>

definition goBack :: "wizard \<Rightarrow> wizard" where
  "goBack m =
     (let m1 = m\<lparr>wm_error := []\<rparr> in
      if currentIdx m = 0 then m1
      else case JsPrelude.at (path m) (currentIdx m - 1) of Some i \<Rightarrow> goTo i m1 | None \<Rightarrow> m1)"

text \<open>The effect on a change of the provider forgets the list of models.\<close>

definition onProviderSelect :: "string \<Rightarrow> wizard \<Rightarrow> wizard" where
  "onProviderSelect p m =
     (case wm_state m of
        None \<Rightarrow> m
      | Some st \<Rightarrow>
          if provider st = p then m
          else m\<lparr>wm_state := Some (st\<lparr>provider := p, modelRows := [empty_row]\<rparr>),
                 availableModels := None, modelsError := []\<rparr>)"

definition onWalletModeSelect :: "wallet_mode \<Rightarrow> wizard \<Rightarrow> wizard" where
  "onWalletModeSelect wm m = on_state (\<lambda>st. st\<lparr>walletMode := wm\<rparr>) m"

definition submit_begin :: "wizard_request \<Rightarrow> wizard \<Rightarrow> wizard" where
  "submit_begin r m = m\<lparr>submitting := True, wm_error := [], wm_request := Some r\<rparr>"

definition onCreateWallet :: "string + gonka_wallet \<Rightarrow> wizard \<Rightarrow> wizard" where
  "onCreateWallet answer m =
     (let m1 = m\<lparr>wm_request := None\<rparr> in
      case answer of
        Inl msg \<Rightarrow> m1\<lparr>wm_error := msg, submitting := False\<rparr>
      | Inr w \<Rightarrow>
          (goTo SWalletReveal (on_state (\<lambda>st. st\<lparr>gonkaPrivateKey := w_privateKeyHex w, gonkaPrivateKeyKnown := True,
             gonkaAddress := w_address w, gonkaMnemonicWords := w_words w, mnemonicAcknowledged := False\<rparr>) m1))
          \<lparr>submitting := False\<rparr>)"

datatype import_answer = ImportedWallet gonka_wallet | DerivedAddress string

definition onUseExisting_begin :: "wizard \<Rightarrow> wizard" where
  "onUseExisting_begin m = (case wm_state m of None \<Rightarrow> m
     | Some st \<Rightarrow> submit_begin (if walletImportMode st = Mnemonic then MnemonicRequest else AddressRequest) m)"

definition onUseExisting :: "string + import_answer \<Rightarrow> wizard \<Rightarrow> wizard" where
  "onUseExisting answer m =
     (let m1 = m\<lparr>wm_request := None\<rparr> in
      case answer of
        Inl msg \<Rightarrow> m1\<lparr>wm_error := msg, submitting := False\<rparr>
      | Inr a \<Rightarrow>
          (goTo SWalletBalance (on_state (\<lambda>st. case a of
               ImportedWallet w \<Rightarrow> st\<lparr>gonkaPrivateKey := w_privateKeyHex w, gonkaPrivateKeyKnown := True,
                 gonkaAddress := w_address w, gonkaMnemonicWords := w_words w\<rparr>
             | DerivedAddress d \<Rightarrow> st\<lparr>gonkaAddress := d, gonkaPrivateKeyKnown := True\<rparr>) m1))
          \<lparr>submitting := False\<rparr>)"

text \<open>\<open>loadModels\<close>: the request is made when there is a URL. The answer is handled the same way
  whichever step and provider are current when it comes.\<close>

definition loadModels_begin :: "string \<Rightarrow> wizard \<Rightarrow> wizard" where
  "loadModels_begin baseUrl m =
     (if trim baseUrl = [] then m\<lparr>modelsError := ''Fill in the server URL first.''\<rparr>
      else m\<lparr>loadingModels := True, modelsError := [], wm_listing := Suc (wm_listing m)\<rparr>)"

definition loadModels_end :: "string + string list \<Rightarrow> wizard \<Rightarrow> wizard" where
  "loadModels_end answer m =
     (let m1 = m\<lparr>wm_listing := wm_listing m - 1\<rparr> in
      case answer of
        Inl msg \<Rightarrow> on_state (autoFillFirstModel []) (m1\<lparr>modelsError := msg, loadingModels := False\<rparr>)
      | Inr models \<Rightarrow> on_state (autoFillFirstModel models) (m1\<lparr>availableModels := Some models, loadingModels := False\<rparr>))"

text \<open>When the typed URL or the step starts a request, after the pause: the two effects.\<close>

definition autoloads_openai :: "wizard \<Rightarrow> bool" where
  "autoloads_openai m = (case wm_state m of None \<Rightarrow> False
     | Some st \<Rightarrow> stepId m = SOpenai \<and> trim (openaiBaseUrl st) \<noteq> [])"

definition autoloads_gonka :: "bool \<Rightarrow> wizard \<Rightarrow> bool" where
  "autoloads_gonka alreadyLoaded m = (case wm_state m of None \<Rightarrow> False
     | Some st \<Rightarrow> stepId m = SGonkaModels \<and> \<not> alreadyLoaded \<and> availableModels m = None \<and> \<not> loadingModels m
         \<and> trim (gonkaNodeUrl st) \<noteq> [] \<and> trim (gonkaPrivateKey st) \<noteq> [])"

definition onComplete_begin :: "wizard \<Rightarrow> wizard" where
  "onComplete_begin m = (case wm_state m of None \<Rightarrow> m
     | Some st \<Rightarrow> (submit_begin CompletionRequest m)\<lparr>wm_saved := Some (buildDraft st)\<rparr>)"

definition onComplete_end :: "string option \<Rightarrow> wizard \<Rightarrow> wizard" where
  "onComplete_end failure m =
     (let m1 = m\<lparr>wm_request := None\<rparr> in
      case failure of
        None \<Rightarrow> m1\<lparr>wm_done := Suc (wm_done m), submitting := False\<rparr>
      | Some msg \<Rightarrow> m1\<lparr>wm_error := msg, submitting := False\<rparr>)"

section \<open>The machine\<close>

datatype wizard_event =
    Loaded global_config "gonka_config option"
  | Edit field_edit
  | Next
  | Back
  | SelectProvider string
  | SelectWalletMode wallet_mode
  | CreateStart
  | CreateEnd "string + gonka_wallet"
  | UseStart
  | UseEnd "string + import_answer"
  | ModelsStart string
  | ModelsEnd "string + string list"
  | CompleteStart
  | CompleteEnd "string option"

fun wizard_step :: "wizard_event \<Rightarrow> wizard \<Rightarrow> wizard" where
  "wizard_step (Loaded cfg gonka) m = loaded cfg gonka m"
| "wizard_step (Edit e) m = on_state (edit_field e) m"
| "wizard_step Next m = goNext m"
| "wizard_step Back m = goBack m"
| "wizard_step (SelectProvider p) m = onProviderSelect p m"
| "wizard_step (SelectWalletMode w) m = onWalletModeSelect w m"
| "wizard_step CreateStart m = submit_begin CreationRequest m"
| "wizard_step (CreateEnd a) m = onCreateWallet a m"
| "wizard_step UseStart m = onUseExisting_begin m"
| "wizard_step (UseEnd a) m = onUseExisting a m"
| "wizard_step (ModelsStart url) m = loadModels_begin url m"
| "wizard_step (ModelsEnd a) m = loadModels_end a m"
| "wizard_step CompleteStart m = onComplete_begin m"
| "wizard_step (CompleteEnd f) m = onComplete_end f m"

definition inferenced :: "wizard \<Rightarrow> bool" where
  "inferenced m = (case wm_gonka m of Some g \<Rightarrow> inferencedAvailable g | None \<Rightarrow> False)"

definition on_form :: "(wizard_state \<Rightarrow> bool) \<Rightarrow> wizard \<Rightarrow> bool" where
  "on_form P m = (case wm_state m of None \<Rightarrow> False | Some st \<Rightarrow> P st)"

text \<open>What can happen next: the handlers that the page offers on the step it shows, and the answers to the requests that run.
  A setup is resumed only where a step is missing (\<open>SetupPage.tsx\<close>).\<close>

fun wizard_offered :: "wizard_event \<Rightarrow> wizard \<Rightarrow> bool" where
  "wizard_offered (Loaded cfg gonka) m = (wm_state m = None \<and> stepId m = SProvider
     \<and> (wm_mode m = ResumeMode \<longrightarrow> ws_firstMissing (deriveStatus (Some cfg)) \<noteq> None))"
| "wizard_offered (Edit e) m = (wm_state m \<noteq> None \<and> stepId m \<in> set (edit_steps e))"
| "wizard_offered Next m = (canNext m \<and> stepId m \<noteq> SFinish)"
| "wizard_offered Back m = canBack m"
| "wizard_offered (SelectProvider p) m = (stepId m = SProvider \<and> (p = ''openai'' \<or> p = ''gonka'' \<and> inferenced m))"
| "wizard_offered (SelectWalletMode w) m = (stepId m = SWalletChoice \<and> (w = CreateWallet \<longrightarrow> inferenced m))"
| "wizard_offered CreateStart m = (stepId m = SWalletCreate \<and> on_form (canCreate (inferenced m)) m \<and> \<not> submitting m)"
| "wizard_offered (CreateEnd a) m = (wm_request m = Some CreationRequest)"
| "wizard_offered UseStart m = (stepId m = SWalletImport \<and> on_form canSubmit m \<and> \<not> submitting m)"
| "wizard_offered (UseEnd a) m =
     (case a of Inl _ \<Rightarrow> wm_request m = Some MnemonicRequest \<or> wm_request m = Some AddressRequest
      | Inr (ImportedWallet _) \<Rightarrow> wm_request m = Some MnemonicRequest
      | Inr (DerivedAddress _) \<Rightarrow> wm_request m = Some AddressRequest)"
| "wizard_offered (ModelsStart url) m = (wm_state m \<noteq> None)"
| "wizard_offered (ModelsEnd a) m = (0 < wm_listing m)"
| "wizard_offered CompleteStart m = (stepId m = SFinish \<and> \<not> submitting m)"
| "wizard_offered (CompleteEnd f) m = (wm_request m = Some CompletionRequest)"

text \<open>A wallet that the server made or knew finds the step it was asked for on: the user did not leave it while the request
  ran. The code does not see to that.\<close>

definition timely :: "wizard_event \<Rightarrow> wizard \<Rightarrow> bool" where
  "timely e m = (case e of
      CreateEnd (Inr _) \<Rightarrow> stepId m = SWalletCreate
    | UseEnd (Inr _) \<Rightarrow> stepId m = SWalletImport
    | _ \<Rightarrow> True)"

definition wizard_enabled :: "wizard_event \<Rightarrow> wizard \<Rightarrow> bool" where
  "wizard_enabled e m \<longleftrightarrow> wizard_offered e m \<and> timely e m"

definition keeps_route :: "(wizard_state \<Rightarrow> wizard_state) \<Rightarrow> bool" where
  "keeps_route f \<longleftrightarrow> (\<forall>st. provider (f st) = provider st \<and> walletMode (f st) = walletMode st)"

lemma keeps_edit: "keeps_route (edit_field e)"
  unfolding keeps_route_def by (cases e) simp_all

text \<open>The page's own record of its requests: \<open>submitting\<close> stands for the one that runs, and a wallet is created only where
  the server has the tool for it.\<close>

definition asked_inv :: "wizard \<Rightarrow> bool" where
  "asked_inv m \<longleftrightarrow> (submitting m \<longleftrightarrow> wm_request m \<noteq> None) \<and> (wm_request m = Some CreationRequest \<longrightarrow> inferenced m)
     \<and> (wm_state m = None \<longrightarrow> wm_request m = None)"

lemma goNext_keeps [simp]:
  "wm_state (goNext m) = wm_state m" "wm_mode (goNext m) = wm_mode m" "wm_gonka (goNext m) = wm_gonka m"
  "wm_resolved (goNext m) = wm_resolved m" "submitting (goNext m) = submitting m" "wm_request (goNext m) = wm_request m"
  by (simp_all add: goNext_def goTo_def Let_def split: option.split)

lemma goBack_keeps [simp]:
  "wm_state (goBack m) = wm_state m" "wm_mode (goBack m) = wm_mode m" "wm_gonka (goBack m) = wm_gonka m"
  "wm_resolved (goBack m) = wm_resolved m" "submitting (goBack m) = submitting m" "wm_request (goBack m) = wm_request m"
  by (simp_all add: goBack_def goTo_def Let_def split: option.split)

lemma asked_step:
  assumes "asked_inv m" and "wizard_offered e m"
  shows "asked_inv (wizard_step e m)"
proof (cases e)
  case (Loaded cfg gonka)
  then show ?thesis using assms
    by (cases "ws_firstMissing (deriveStatus (Some cfg))"; cases gonka) (auto simp: asked_inv_def loaded_def Let_def)
next
  case CreateStart
  then show ?thesis using assms
    by (auto simp: asked_inv_def submit_begin_def on_form_def canCreate_def inferenced_def split: option.splits)
next
  case UseStart
  then show ?thesis using assms
    by (auto simp: asked_inv_def onUseExisting_begin_def submit_begin_def on_form_def split: option.splits)
qed (use assms in \<open>auto simp: asked_inv_def inferenced_def on_state_def onProviderSelect_def onWalletModeSelect_def
    onCreateWallet_def onUseExisting_def loadModels_begin_def loadModels_end_def onComplete_begin_def onComplete_end_def submit_begin_def
    goTo_def Let_def split: option.splits sum.splits\<close>)

section \<open>The current step is on the path\<close>

lemma full_path_ends: "\<exists>xs. buildFullPath st gc = SProvider # xs @ [SFinish] \<and> xs \<noteq> []"
  by (auto simp: buildFullPath_def)

lemma distinct_full_path: "distinct (buildFullPath st gc)"
  by (simp add: buildFullPath_def)

lemma distinct_path: "distinct (path m)"
  by (auto simp: path_def buildPath_def Let_def distinct_full_path split: option.split)

lemma full_path_cases:
  "provider st = ''openai'' \<Longrightarrow> set (buildFullPath st gc) = {SProvider, SOpenai, STelegram, SEmail, SFinish}"
  "provider st \<noteq> ''openai'' \<Longrightarrow> set (buildFullPath st gc) \<supseteq> {SProvider, SWalletChoice, SWalletBalance, SGonkaModels, STelegram, SEmail, SFinish}"
  by (auto simp: buildFullPath_def)

lemma status_steps: "ws_steps (deriveStatus (Some cfg)) =
    [\<lparr>st_id = SProvider, st_done = cf_source (g_provider cfg) = SrcDb, st_source = cf_source (g_provider cfg), st_optional = False\<rparr>]
    @ provider_steps cfg
    @ [\<lparr>st_id = STelegram, st_done = cs_set (tc_token (g_telegram cfg)), st_source = tc_source (g_telegram cfg), st_optional = True\<rparr>,
       \<lparr>st_id = SEmail, st_done = cs_set (ec_smtpPassword (g_email cfg)) \<or> cs_set (ec_imapPassword (g_email cfg)),
        st_source = ec_source (g_email cfg), st_optional = True\<rparr>]"
  by (simp add: deriveStatus_def Let_def)

lemma status_ids: "st_id ` set (provider_steps cfg) \<subseteq> {SOpenai, SWalletChoice, SGonkaModels}"
  by (auto simp: provider_steps_def Let_def)

lemma distinct_status: "distinct (map st_id (ws_steps (deriveStatus c)))"
  by (cases c) (auto simp: status_steps provider_steps_def Let_def deriveStatus_def)

lemma done_by_step_mem:
  assumes "distinct (map st_id xs)" and "s \<in> set xs"
  shows "done_by_step xs (st_id s) = Some (st_done s)"
proof -
  have "distinct (map fst (rev (map (\<lambda>s. (st_id s, st_done s)) xs)))"
    using assms(1) by (simp add: rev_map [symmetric] comp_def)
  moreover have "(st_id s, st_done s) \<in> set (rev (map (\<lambda>s. (st_id s, st_done s)) xs))" using assms(2) by auto
  ultimately show ?thesis unfolding done_by_step_def by (rule map_of_is_SomeI)
qed

lemma keeps_unknown: "i \<notin> st_id ` set xs \<Longrightarrow> keeps_step xs i"
proof -
  assume "i \<notin> st_id ` set xs"
  then have "done_by_step xs i = None" unfolding done_by_step_def by (subst map_of_eq_None_iff) (auto simp: image_iff)
  then show ?thesis by (simp add: keeps_step_def)
qed

lemma keeps_missing:
  assumes "ws_firstMissing (deriveStatus c) = Some i"
  shows "keeps_step (ws_steps (deriveStatus c)) i \<and> (\<exists>cfg. c = Some cfg \<and>
     (i = SProvider \<or> cf_value (g_provider cfg) = ''openai'' \<and> i = SOpenai
      \<or> cf_value (g_provider cfg) = ''gonka'' \<and> i \<in> {SWalletChoice, SGonkaModels}))"
proof -
  obtain cfg where c: "c = Some cfg" using assms by (cases c) (auto simp: deriveStatus_def)
  obtain s where s: "find (\<lambda>s. \<not> st_optional s \<and> \<not> st_done s) (ws_steps (deriveStatus c)) = Some s" "i = st_id s"
    using assms by (auto simp: c deriveStatus_def Let_def)
  then have mem: "s \<in> set (ws_steps (deriveStatus c))" "\<not> st_done s" "\<not> st_optional s"
    by (auto simp: find_Some_iff)
  have "keeps_step (ws_steps (deriveStatus c)) i"
    using done_by_step_mem [OF distinct_status mem(1)] mem(2) s(2) by (simp add: keeps_step_def)
  moreover have "i = SProvider \<or> s \<in> set (provider_steps cfg)"
    using mem s(2) by (auto simp: c status_steps)
  ultimately show ?thesis
    using s(2) c by (auto simp: provider_steps_def Let_def split: if_splits)
qed

lemma keeps_finish: "keeps_step xs SFinish"
  by (simp add: keeps_step_def)

lemma two_members: "a \<in> set xs \<Longrightarrow> b \<in> set xs \<Longrightarrow> a \<noteq> b \<Longrightarrow> 1 < length xs"
  by (cases xs; cases "tl xs") auto

lemma resume_path:
  assumes "ws_firstMissing (deriveStatus c) = Some i"
  shows "buildPath st gc ResumeMode (Some (deriveStatus c)) = filter (keeps_step (ws_steps (deriveStatus c))) (buildFullPath st gc)"
proof -
  let ?k = "keeps_step (ws_steps (deriveStatus c))" let ?f = "filter ?k (buildFullPath st gc)"
  obtain cfg where c: "c = Some cfg" and k: "?k i" and i: "i = SProvider \<or> cf_value (g_provider cfg) = ''openai'' \<and> i = SOpenai
      \<or> cf_value (g_provider cfg) = ''gonka'' \<and> i \<in> {SWalletChoice, SGonkaModels}"
    using keeps_missing [OF assms] by blast
  have fin: "SFinish \<in> set ?f" using full_path_cases [of st gc] keeps_finish by auto
  have "\<exists>j. j \<in> set ?f \<and> j \<noteq> SFinish"
  proof (cases "provider st = ''openai''")
    case True
    have "?k SOpenai \<or> ?k SProvider"
    proof (cases "i = SProvider \<or> i = SOpenai")
      case False
      then have "SOpenai \<notin> st_id ` set (ws_steps (deriveStatus c))"
        using i by (auto simp: c status_steps provider_steps_def Let_def)
      then show ?thesis by (simp add: keeps_unknown)
    qed (use k in auto)
    then show ?thesis using True full_path_cases(1) [of st gc] by auto
  next
    case False
    have "SWalletBalance \<notin> st_id ` set (ws_steps (deriveStatus c))"
      using status_ids [of cfg] by (auto simp: c status_steps)
    then show ?thesis using False full_path_cases(2) [of st gc] keeps_unknown by (intro exI [of _ SWalletBalance]) auto
  qed
  then have "1 < length ?f" using two_members [OF fin] by blast
  moreover have "ws_steps (deriveStatus c) \<noteq> []" by (simp add: c status_steps)
  ultimately show ?thesis by (simp add: buildPath_def Let_def)
qed

definition wizard_inv :: "wizard \<Rightarrow> bool" where
  "wizard_inv m \<longleftrightarrow>
     (case wm_state m of None \<Rightarrow> True
      | Some st \<Rightarrow> (wm_mode m = ResumeMode \<longrightarrow> ws_firstMissing (deriveStatus (wm_resolved m)) \<noteq> None)
          \<and> stepId m \<in> set (path m))"

text \<open>The path as a set: what the provider and the wallet choice allow, less the steps that
  were done when a setup is resumed.\<close>

definition shows_step :: "wizard \<Rightarrow> step_id \<Rightarrow> bool" where
  "shows_step m i \<longleftrightarrow> wm_mode m = FullMode \<or> keeps_step (ws_steps (deriveStatus (wm_resolved m))) i"

lemma set_path:
  assumes "wm_state m = Some st" and "wm_mode m = ResumeMode \<longrightarrow> ws_firstMissing (deriveStatus (wm_resolved m)) \<noteq> None"
  shows "set (path m) = {i \<in> set (buildFullPath st (wm_gonka m)). shows_step m i}"
proof (cases "wm_mode m")
  case FullMode
  with assms(1) show ?thesis by (simp add: path_def buildPath_def Let_def shows_step_def)
next
  case ResumeMode
  with assms obtain i where "ws_firstMissing (deriveStatus (wm_resolved m)) = Some i" by auto
  from resume_path [OF this] ResumeMode assms(1) show ?thesis by (auto simp: path_def shows_step_def)
qed

lemma shows_unknown: "i \<in> {SWalletReveal, SWalletBalance, SWalletCreate, SWalletImport} \<Longrightarrow> shows_step m i"
proof (cases "wm_resolved m")
  case None
  then show ?thesis by (auto simp: shows_step_def deriveStatus_def keeps_unknown)
next
  case (Some cfg)
  assume "i \<in> {SWalletReveal, SWalletBalance, SWalletCreate, SWalletImport}"
  then have "i \<notin> st_id ` set (ws_steps (deriveStatus (wm_resolved m)))"
    using status_ids [of cfg] by (auto simp: Some status_steps)
  then show ?thesis by (simp add: shows_step_def keeps_unknown)
qed


lemma path_cong:
  assumes "wm_mode m' = wm_mode m" "wm_gonka m' = wm_gonka m" "wm_resolved m' = wm_resolved m"
    and "wm_state m = Some st" "wm_state m' = Some st'" "provider st' = provider st" "walletMode st' = walletMode st"
  shows "path m' = path m"
  using assms by (simp add: path_def buildPath_def buildFullPath_def)

lemma inv_cong:
  assumes "wizard_inv m" and "wm_mode m' = wm_mode m" "wm_gonka m' = wm_gonka m" "wm_resolved m' = wm_resolved m"
    and "stepId m' = stepId m" and "wm_state m' = map_option f (wm_state m)" and "keeps_route f"
  shows "wizard_inv m'"
proof (cases "wm_state m")
  case None
  with assms show ?thesis by (simp add: wizard_inv_def)
next
  case (Some st)
  then have "path m' = path m"
    using assms(2-4,6,7) by (intro path_cong [of m' m st "f st"]) (simp_all add: keeps_route_def)
  with assms Some show ?thesis by (simp add: wizard_inv_def)
qed

lemma wiz_inv_same:
  assumes "wizard_inv m" and "wm_mode m' = wm_mode m" "wm_gonka m' = wm_gonka m" "wm_resolved m' = wm_resolved m"
    and "stepId m' = stepId m" and "wm_state m' = wm_state m"
  shows "wizard_inv m'"
  using inv_cong [OF assms(1-5), of "\<lambda>x. x"] assms(6) by (simp add: keeps_route_def option.map_ident)

lemma keeps_autofill: "keeps_route (autoFillFirstModel l)"
  by (simp add: keeps_route_def autoFillFirstModel_def Let_def)

lemma inv_at:
  assumes "wizard_inv m" and "i \<in> set (path m)" and "wm_mode m' = wm_mode m" "wm_gonka m' = wm_gonka m"
    "wm_resolved m' = wm_resolved m" and "wm_state m' = map_option f (wm_state m)" and "keeps_route f" and "stepId m' = i"
  shows "wizard_inv m'"
proof (cases "wm_state m")
  case None
  with assms show ?thesis by (simp add: wizard_inv_def)
next
  case (Some st)
  then have "path m' = path m"
    using assms(3-7) by (intro path_cong [of m' m st "f st"]) (simp_all add: keeps_route_def)
  with assms Some show ?thesis by (simp add: wizard_inv_def)
qed

lemma inv_load:
  assumes "wm_mode m = ResumeMode \<longrightarrow> ws_firstMissing (deriveStatus (Some cfg)) \<noteq> None" and "stepId m = SProvider"
  shows "wizard_inv (loaded cfg gonka m)"
proof -
  let ?m = "loaded cfg gonka m"
  have "\<exists>fb. wm_state ?m = Some (buildInitialState cfg fb)"
    by (cases "ws_firstMissing (deriveStatus (Some cfg))") (auto simp: loaded_def Let_def)
  then obtain st where st: "wm_state ?m = Some st" "provider st = str_or (cf_value (g_provider cfg)) ''openai''"
    by (auto simp: buildInitialState_def Let_def)
  have r: "wm_resolved ?m = Some cfg" "wm_mode ?m = wm_mode m"
    by (cases "ws_firstMissing (deriveStatus (Some cfg))"; simp add: loaded_def Let_def)+
  have ok: "wm_mode ?m = ResumeMode \<longrightarrow> ws_firstMissing (deriveStatus (wm_resolved ?m)) \<noteq> None" using assms(1) r by simp
  note sp = set_path [OF st(1) ok]
  have prov: "SProvider \<in> set (buildFullPath st g)" for g using full_path_ends [of st g] by auto
  have "stepId ?m \<in> set (path ?m)"
  proof (cases "wm_mode m")
    case FullMode
    then have "stepId ?m = SProvider" using assms(2) by (auto simp: loaded_def Let_def split: option.split)
    then show ?thesis using FullMode r(2) prov by (simp add: sp shows_step_def)
  next
    case ResumeMode
    then obtain i where i: "ws_firstMissing (deriveStatus (Some cfg)) = Some i" using assms(1) by auto
    then have "stepId ?m = i" using ResumeMode by (simp add: loaded_def Let_def)
    moreover have "i \<in> set (buildFullPath st (wm_gonka ?m))"
      using keeps_missing [OF i] prov full_path_cases [of st "wm_gonka ?m"] st(2) by (auto simp: str_or_def)
    ultimately show ?thesis using keeps_missing [OF i] r by (simp add: sp shows_step_def)
  qed
  then show ?thesis using st(1) ok by (simp add: wizard_inv_def)
qed

lemma at_mem: "JsPrelude.at xs k = Some x \<Longrightarrow> x \<in> set xs"
  by (auto simp: at_def split: if_splits)

lemma inv_provider:
  assumes "wizard_inv m" and "stepId m = SProvider"
  shows "wizard_inv (onProviderSelect p m)"
proof (cases "wm_state m")
  case None
  with assms show ?thesis by (simp add: onProviderSelect_def)
next
  case (Some st)
  let ?m = "m\<lparr>wm_state := Some (st\<lparr>provider := p, modelRows := [empty_row]\<rparr>), availableModels := None, modelsError := []\<rparr>"
  have ok: "wm_mode m = ResumeMode \<longrightarrow> ws_firstMissing (deriveStatus (wm_resolved m)) \<noteq> None"
    using assms(1) Some by (simp add: wizard_inv_def)
  have "shows_step m SProvider" using assms Some set_path [OF Some ok] by (simp add: wizard_inv_def)
  moreover have "SProvider \<in> set (buildFullPath s g)" for s g using full_path_ends [of s g] by auto
  ultimately have "SProvider \<in> set (path ?m)"
    using set_path [of ?m "st\<lparr>provider := p, modelRows := [empty_row]\<rparr>"] ok by (simp add: shows_step_def)
  then have "wizard_inv ?m" using assms(2) ok by (simp add: wizard_inv_def)
  then show ?thesis using assms(1) Some by (simp add: onProviderSelect_def)
qed

lemma inv_wallet_mode:
  assumes "wizard_inv m" and "stepId m = SWalletChoice"
  shows "wizard_inv (onWalletModeSelect w m)"
proof (cases "wm_state m")
  case None
  with assms show ?thesis by (simp add: onWalletModeSelect_def on_state_def wizard_inv_def)
next
  case (Some st)
  let ?m = "onWalletModeSelect w m"
  have st': "wm_state ?m = Some (st\<lparr>walletMode := w\<rparr>)" using Some by (simp add: onWalletModeSelect_def on_state_def)
  have same: "wm_mode ?m = wm_mode m" "wm_resolved ?m = wm_resolved m" "wm_gonka ?m = wm_gonka m" "stepId ?m = stepId m"
    by (simp_all add: onWalletModeSelect_def on_state_def)
  have ok: "wm_mode m = ResumeMode \<longrightarrow> ws_firstMissing (deriveStatus (wm_resolved m)) \<noteq> None"
    using assms(1) Some by (simp add: wizard_inv_def)
  have "SWalletChoice \<in> set (buildFullPath st (wm_gonka m))" "shows_step m SWalletChoice"
    using assms Some set_path [OF Some ok] by (simp_all add: wizard_inv_def)
  then have "SWalletChoice \<in> set (path ?m)"
    using set_path [OF st'] ok same by (auto simp: shows_step_def buildFullPath_def split: if_splits)
  then show ?thesis using st' same ok assms(2) by (simp add: wizard_inv_def)
qed

lemma path_wallet:
  assumes "wizard_inv m" and "wm_state m = Some st" and "stepId m \<in> {SWalletCreate, SWalletImport}"
  shows "SWalletBalance \<in> set (path m)" and "stepId m = SWalletCreate \<Longrightarrow> inferenced m \<Longrightarrow> SWalletReveal \<in> set (path m)"
proof -
  have ok: "wm_mode m = ResumeMode \<longrightarrow> ws_firstMissing (deriveStatus (wm_resolved m)) \<noteq> None"
    and on: "stepId m \<in> set (path m)"
    using assms(1,2) by (simp_all add: wizard_inv_def)
  note sp = set_path [OF assms(2) ok]
  have full: "stepId m \<in> set (buildFullPath st (wm_gonka m))" using on by (simp add: sp)
  show "SWalletBalance \<in> set (path m)"
    using full assms(3) shows_unknown [of SWalletBalance m] by (auto simp: sp buildFullPath_def split: if_splits)
  show "SWalletReveal \<in> set (path m)" if "stepId m = SWalletCreate" "inferenced m"
    using full that shows_unknown [of SWalletReveal m]
    by (auto simp: sp buildFullPath_def inferenced_def split: if_splits option.splits)
qed

lemma inv_goTo: "wizard_inv m \<Longrightarrow> i \<in> set (path m) \<Longrightarrow> wizard_inv (goTo i (m\<lparr>wm_error := x\<rparr>))"
  by (rule inv_at [where f = "\<lambda>x. x"]) (simp_all add: goTo_def keeps_route_def option.map_ident)

lemma inv_error: "wizard_inv m \<Longrightarrow> wizard_inv (m\<lparr>wm_error := x\<rparr>)"
  by (rule wiz_inv_same) simp_all

lemma inv_created:
  assumes inv: "wizard_inv m" and "wizard_enabled (CreateEnd (Inr w)) m" and "asked_inv m"
  shows "wizard_inv (onCreateWallet (Inr w) m)"
proof (cases "wm_state m")
  case (Some st)
  have "stepId m = SWalletCreate" "inferenced m" using assms(2,3) by (simp_all add: wizard_enabled_def timely_def asked_inv_def)
  then have "SWalletReveal \<in> set (path m)" using path_wallet(2) [OF inv Some] by simp
  then show ?thesis
    by (intro inv_at [OF inv, where f = "\<lambda>st. st\<lparr>gonkaPrivateKey := w_privateKeyHex w, gonkaPrivateKeyKnown := True,
             gonkaAddress := w_address w, gonkaMnemonicWords := w_words w, mnemonicAcknowledged := False\<rparr>"])
      (simp_all add: onCreateWallet_def on_state_def keeps_route_def goTo_def Let_def)
qed (simp add: onCreateWallet_def on_state_def wizard_inv_def goTo_def Let_def)

lemma inv_imported:
  assumes inv: "wizard_inv m" and "wizard_enabled (UseEnd (Inr a)) m"
  shows "wizard_inv (onUseExisting (Inr a) m)"
proof (cases "wm_state m")
  case (Some st)
  have "stepId m = SWalletImport" using assms(2) by (simp add: wizard_enabled_def timely_def)
  then have "SWalletBalance \<in> set (path m)" using path_wallet(1) [OF inv Some] by simp
  then show ?thesis
    by (intro inv_at [OF inv, where f = "\<lambda>st. case a of
               ImportedWallet w \<Rightarrow> st\<lparr>gonkaPrivateKey := w_privateKeyHex w, gonkaPrivateKeyKnown := True,
                 gonkaAddress := w_address w, gonkaMnemonicWords := w_words w\<rparr>
             | DerivedAddress d \<Rightarrow> st\<lparr>gonkaAddress := d, gonkaPrivateKeyKnown := True\<rparr>"])
      (simp_all add: onUseExisting_def on_state_def keeps_route_def goTo_def Let_def split: import_answer.split)
qed (simp add: onUseExisting_def on_state_def wizard_inv_def goTo_def Let_def)

lemma wizard_step_inv:
  assumes inv: "wizard_inv m" and asked: "asked_inv m" and en: "wizard_enabled e m"
  shows "wizard_inv (wizard_step e m)"
proof -
  note same = wiz_inv_same [OF inv] and cong = inv_cong [OF inv]
  have of: "wizard_offered e m" using en by (simp add: wizard_enabled_def)
  show ?thesis
  proof (cases e)
    case (Loaded cfg gonka) with of inv_load show ?thesis by simp
  next
    case (Edit f) show ?thesis by (auto simp: Edit on_state_def intro: cong [OF _ _ _ _ _ keeps_edit])
  next
    case Next
    show ?thesis using inv_error [OF inv] inv_goTo [OF inv at_mem] by (simp add: Next goNext_def Let_def split: option.split)
  next
    case Back
    show ?thesis using inv_error [OF inv] inv_goTo [OF inv at_mem] by (simp add: Back goBack_def Let_def split: option.split)
  next
    case (SelectProvider p) with of inv inv_provider show ?thesis by simp
  next
    case (SelectWalletMode p) with of inv inv_wallet_mode show ?thesis by simp
  next
    case CreateStart show ?thesis by (auto simp: CreateStart submit_begin_def intro: same)
  next
    case UseStart show ?thesis by (auto simp: UseStart onUseExisting_begin_def submit_begin_def intro: same inv split: option.split)
  next
    case (CreateEnd a)
    then show ?thesis using en inv_created [OF inv _ asked]
      by (cases a) (auto simp: onCreateWallet_def Let_def intro: same)
  next
    case (UseEnd a)
    then show ?thesis using en inv_imported [OF inv]
      by (cases a) (auto simp: onUseExisting_def Let_def intro: same)
  next
    case (ModelsStart u) show ?thesis by (auto simp: ModelsStart loadModels_begin_def intro: same)
  next
    case (ModelsEnd a) show ?thesis
      by (cases a) (auto simp: ModelsEnd loadModels_end_def on_state_def Let_def intro!: cong keeps_autofill)
  next
    case CompleteStart show ?thesis
      by (auto simp: CompleteStart onComplete_begin_def submit_begin_def intro: same inv split: option.split)
  next
    case (CompleteEnd f) show ?thesis
      by (auto simp: CompleteEnd onComplete_end_def Let_def intro: same split: option.split)
  qed
qed

interpretation asked: guarded_steps wizard_step asked_inv wizard_offered
  by unfold_locales (rule asked_step)

interpretation wiz: guarded_steps wizard_step "\<lambda>m. wizard_inv m \<and> asked_inv m" wizard_enabled
  by unfold_locales (auto simp: wizard_enabled_def intro: wizard_step_inv asked_step)

end
