(* ===== verification/WizardRuns.thy ===== *)
theory WizardRuns
  imports WizardMachine
begin

text \<open>
  What the setup wizard does over a whole run: the step shown is on the path while answers find their step, Back undoes Next,
  every setup can be finished whatever answers came when, and what the saved draft keeps of the configuration it started
  from. Two runs show answers that come too late.
\<close>

section \<open>The path is ordered\<close>

fun step_rank :: "step_id \<Rightarrow> nat" where
  "step_rank SProvider = 0"
| "step_rank SOpenai = 1"
| "step_rank SWalletChoice = 1"
| "step_rank SWalletImport = 2"
| "step_rank SWalletCreate = 2"
| "step_rank SWalletReveal = 3"
| "step_rank SWalletBalance = 4"
| "step_rank SGonkaModels = 5"
| "step_rank STelegram = 6"
| "step_rank SEmail = 7"
| "step_rank SFinish = 8"

lemma sorted_path: "sorted_wrt (\<lambda>i j. step_rank i < step_rank j) (path m)"
proof -
  have "sorted_wrt (\<lambda>i j. step_rank i < step_rank j) (buildFullPath st gc)" for st gc
    by (auto simp: buildFullPath_def)
  then show ?thesis by (auto simp: path_def buildPath_def Let_def sorted_wrt_filter split: option.split)
qed

lemma current_index:
  assumes "stepId m \<in> set (path m)"
  shows "currentIdx m < length (path m)" and "path m ! currentIdx m = stepId m"
proof -
  obtain st where st: "wm_state m = Some st" using assms by (cases "wm_state m") (auto simp: path_def)
  obtain k where "index_of (stepId m) (path m) = Some k"
    using assms by (cases "index_of (stepId m) (path m)") (auto simp: index_of_def find_index_None)
  then show "currentIdx m < length (path m)" "path m ! currentIdx m = stepId m"
    using st by (simp_all add: currentIdx_def or_else_def) (simp_all add: index_of_def find_index_Some)
qed

lemma current_index_unique:
  assumes "k < length (path m)" and "path m ! k = stepId m"
  shows "currentIdx m = k"
proof -
  have on: "stepId m \<in> set (path m)" using assms nth_mem by metis
  show ?thesis
    using current_index [OF on] assms nth_eq_iff_index_eq [OF distinct_path [of m] current_index(1) [OF on] assms(1)] by simp
qed

lemma inv_on_path: "wizard_inv m \<Longrightarrow> wm_state m = Some st \<Longrightarrow> stepId m \<in> set (path m)"
  by (simp add: wizard_inv_def)

lemma finish_on_path: "wizard_inv m \<Longrightarrow> wm_state m = Some st \<Longrightarrow> SFinish \<in> set (path m)"
  using full_path_ends [of st "wm_gonka m"]
  by (auto simp: wizard_inv_def set_path shows_step_def keeps_step_def)

lemma path_goTo [simp]: "path (goTo i m) = path m"
  by (simp add: path_def goTo_def cong: option.case_cong)

lemma path_error [simp]: "path (m\<lparr>wm_error := x\<rparr>) = path m" "currentIdx (m\<lparr>wm_error := x\<rparr>) = currentIdx m"
  by (simp_all add: path_def currentIdx_def cong: option.case_cong)

lemma advance:
  assumes "wizard_inv m" and "wm_state m = Some st" and "stepId m \<noteq> SFinish"
  shows "\<exists>i \<in> set (path m). goNext m = goTo i (m\<lparr>wm_error := []\<rparr>) \<and> step_rank (stepId m) < step_rank i
    \<and> currentIdx (goNext m) = Suc (currentIdx m)"
proof -
  note cur = current_index [OF inv_on_path [OF assms(1,2)]]
  obtain k where k: "k < length (path m)" "path m ! k = SFinish"
    using finish_on_path [OF assms(1,2)] by (auto simp: in_set_conv_nth)
  have "Suc (currentIdx m) < length (path m)"
  proof (rule ccontr)
    assume "\<not> ?thesis"
    then have "k \<le> currentIdx m" using k by simp
    moreover have "k \<noteq> currentIdx m" using k cur assms(3) by auto
    ultimately have "step_rank SFinish < step_rank (stepId m)"
      using sorted_path [of m] cur k by (metis sorted_wrt_nth_less le_neq_implies_less)
    then show False by (cases "stepId m") simp_all
  qed
  then obtain i where i: "path m ! Suc (currentIdx m) = i" "i \<in> set (path m)" "Suc (currentIdx m) < length (path m)"
    using nth_mem by auto
  have g: "goNext m = goTo i (m\<lparr>wm_error := []\<rparr>)" using i by (simp add: goNext_def at_def Let_def)
  have "currentIdx (goNext m) = Suc (currentIdx m)" unfolding g
    by (rule current_index_unique) (simp_all add: i, simp add: goTo_def)
  moreover have "step_rank (stepId m) < step_rank i"
    using sorted_wrt_nth_less [OF sorted_path [of m] lessI i(3)] i(1) cur(2) by simp
  ultimately show ?thesis using i g by blast
qed

section \<open>Runs\<close>

lemma wizard_starts_inv: "wizard_inv (wizard_start md) \<and> asked_inv (wizard_start md)"
  by (simp add: wizard_inv_def asked_inv_def wizard_start_def)

lemma wizard_run_inv:
  "admissible wizard_enabled wizard_step es (wizard_start md) \<Longrightarrow>
     wizard_inv (run_steps wizard_step es (wizard_start md)) \<and> asked_inv (run_steps wizard_step es (wizard_start md))"
  by (rule wiz.run_inv [OF wizard_starts_inv])

definition sample_config :: global_config where
  "sample_config =
     (let f = \<lparr>cf_value = [], cf_source = SrcUnset\<rparr>; s = \<lparr>cs_set = False, cs_value = [], cs_source = SrcUnset\<rparr> in
      \<lparr>g_provider = \<lparr>cf_value = ''gonka'', cf_source = SrcDb\<rparr>,
       g_openai = \<lparr>oc_baseUrl = f, oc_apiKey = s\<rparr>,
       g_gonka = \<lparr>gc_nodeUrl = \<lparr>cf_value = ''https://n'', cf_source = SrcDb\<rparr>, gc_privateKey = s\<rparr>,
       g_models = [\<lparr>mr_name = ''m1'', mr_role = RoleChat\<rparr>],
       g_telegram = \<lparr>tc_token = s, tc_allowedUserIds = Some [7, 9], tc_skipped = False, tc_source = SrcUnset\<rparr>,
       g_email = \<lparr>ec_address = f, ec_smtpHost = f, ec_smtpPort = f, ec_smtpUsername = f, ec_smtpPassword = s,
         ec_imapHost = f, ec_imapPort = f, ec_imapUsername = f, ec_imapPassword = s, ec_skipped = True, ec_source = SrcUnset\<rparr>\<rparr>)"

definition sample_gonka :: gonka_config where
  "sample_gonka = \<lparr>defaultNodeUrl = ''https://d'', inferencedAvailable = True, minBalanceGnk = ''0.1''\<rparr>"

definition sample_wallet :: gonka_wallet where
  "sample_wallet = \<lparr>w_address = ''gonka1'', w_privateKeyHex = ''ab'', w_mnemonic = ''a b'', w_words = [''a'', ''b'']\<rparr>"

text \<open>C21: While every wallet the server makes or finds is shown on the step it was asked for on (\<open>timely\<close>), the step shown
  is a step of the current path, whatever else the page, the server and the user do, in any order in which the page offers
  its buttons: no sequence of handlers leaves the wizard on a step that the progress bar and the Back and Next buttons do not
  know, and the index they count from is the index of that step. The same holds when a half finished setup is resumed. The
  code does not tie a wallet to its step; \<open>late_wallet_leaves_the_path\<close> shows what happens then.\<close>

theorem current_step_is_on_the_path:
  assumes "admissible wizard_enabled wizard_step es (wizard_start md)"
  shows "let m = run_steps wizard_step es (wizard_start md) in
    wm_state m = None \<or> (stepId m \<in> set (path m) \<and> distinct (path m) \<and> JsPrelude.at (path m) (currentIdx m) = Some (stepId m))"
proof -
  let ?m = "run_steps wizard_step es (wizard_start md)"
  have inv: "wizard_inv ?m" using wizard_run_inv [OF assms] by simp
  show ?thesis
  proof (cases "wm_state ?m")
    case (Some st)
    then have "stepId ?m \<in> set (path ?m)" using inv_on_path [OF inv] by simp
    then show ?thesis using current_index [of ?m] distinct_path [of ?m] by (simp add: Let_def at_def)
  qed (simp add: Let_def)
qed

definition sample_run :: "wizard_event list" where
  "sample_run = [Loaded sample_config (Some sample_gonka), SelectProvider ''gonka'', Next, Next, CreateStart, CreateEnd (Inr sample_wallet)]"

lemmas wizard_evals = wizard_start_def loaded_def sample_config_def sample_gonka_def deriveStatus_def provider_steps_def
  wizard_enabled_def timely_def onUseExisting_begin_def onProviderSelect_def goNext_def goTo_def path_def buildPath_def buildFullPath_def currentIdx_def submit_begin_def onCreateWallet_def
  on_state_def inferenced_def canNext_def buildInitialState_def at_def index_of_def find_index_def or_else_def str_or_def on_form_def canCreate_def
  keeps_step_def done_by_step_def has_chat_row_def trim_def trim_start_def trim_end_def is_ws_def

lemma sample_admissible: "admissible wizard_enabled wizard_step
    [Loaded sample_config (Some sample_gonka), Next, CreateStart, CreateEnd (Inr sample_wallet)] (wizard_start ResumeMode)"
  by (simp add: wizard_evals Let_def)

theorem current_step_is_on_the_path_witness:
  "let m = run_steps wizard_step [Loaded sample_config (Some sample_gonka), Next, CreateStart, CreateEnd (Inr sample_wallet)]
      (wizard_start ResumeMode)
   in wm_state m = None \<or> (stepId m \<in> set (path m) \<and> distinct (path m) \<and> JsPrelude.at (path m) (currentIdx m) = Some (stepId m))"
  by (rule current_step_is_on_the_path [OF sample_admissible])

text \<open>In any state the wizard can reach, Back takes back what Next did: it returns to the same
  step with the same answers. The one exception is the step that shows the secret words of a new
  wallet, which Back cannot leave.\<close>

theorem back_undoes_next:
  assumes "admissible wizard_enabled wizard_step es (wizard_start md)"
    and "m = run_steps wizard_step es (wizard_start md)" and "wm_state m \<noteq> None" and "stepId m \<noteq> SFinish"
  shows "goBack (goNext m) = m\<lparr>wm_error := []\<rparr> \<and> canBack (goNext m) = (stepId (goNext m) \<noteq> SWalletReveal)"
proof -
  have inv: "wizard_inv m" using wizard_run_inv [OF assms(1)] assms(2) by simp
  obtain st where st: "wm_state m = Some st" using assms(3) by auto
  obtain i where i: "goNext m = goTo i (m\<lparr>wm_error := []\<rparr>)" "currentIdx (goNext m) = Suc (currentIdx m)"
    using advance [OF inv st assms(4)] by auto
  have p: "path (goNext m) = path m" by (simp add: i(1))
  have "goBack (goNext m) = m\<lparr>wm_error := []\<rparr>"
    using current_index [OF inv_on_path [OF inv st]] unfolding goBack_def Let_def i(2) p
    by (simp add: at_def) (simp add: i(1) goTo_def)
  then show ?thesis using i by (simp add: canBack_def)
qed

section \<open>Every setup can be finished\<close>

text \<open>What holds whenever answers come, in a setup that starts at its first step: the step shown is on the path, or one of
  the two that a late answer leads to.\<close>

definition live_inv :: "wizard \<Rightarrow> bool" where
  "live_inv m \<longleftrightarrow> asked_inv m \<and> wm_mode m = FullMode
     \<and> (case wm_state m of None \<Rightarrow> stepId m = SProvider
        | Some st \<Rightarrow> provider st \<noteq> [] \<and> (stepId m \<in> set (path m) \<or> stepId m = SWalletReveal \<or> stepId m = SWalletBalance))"

lemma full_path: "wm_mode m = FullMode \<Longrightarrow> wm_state m = Some st \<Longrightarrow> path m = buildFullPath st (wm_gonka m)"
  by (simp add: path_def buildPath_def Let_def)

lemma live_cong:
  assumes "live_inv m" and "asked_inv m'" and "wm_mode m' = wm_mode m" "wm_gonka m' = wm_gonka m" "wm_resolved m' = wm_resolved m"
    and "wm_state m' = map_option f (wm_state m)" and "keeps_route f" and "stepId m' \<in> {stepId m, SWalletReveal, SWalletBalance}"
    and "wm_state m \<noteq> None \<or> stepId m' = stepId m"
  shows "live_inv m'"
proof (cases "wm_state m")
  case None
  with assms show ?thesis by (auto simp: live_inv_def)
next
  case (Some st)
  then have "path m' = path m" using assms(3-7) by (intro path_cong [of m' m st "f st"]) (simp_all add: keeps_route_def)
  with assms Some show ?thesis by (auto simp: live_inv_def keeps_route_def)
qed

lemma live_move:
  assumes "live_inv m" and "asked_inv m'" and "wm_mode m' = wm_mode m" "path m' = path m" "wm_state m' = wm_state m"
    and "stepId m' = stepId m \<or> stepId m' \<in> set (path m)"
  shows "live_inv m'"
  using assms by (cases "wm_state m") (auto simp: live_inv_def path_def)

lemma starts_full: "SProvider \<in> set (buildFullPath st gc)"
  using full_path_ends [of st gc] by auto

lemma moved: "path (goNext m) = path m" "path (goBack m) = path m"
  "stepId (goNext m) = stepId m \<or> stepId (goNext m) \<in> set (path m)" "stepId (goBack m) = stepId m \<or> stepId (goBack m) \<in> set (path m)"
  by (auto simp: goNext_def goBack_def goTo_def Let_def path_def dest: at_mem split: option.splits)

lemma live_step:
  assumes "live_inv m" and "wizard_offered e m"
  shows "live_inv (wizard_step e m)"
proof -
  have a: "asked_inv (wizard_step e m)" using asked_step assms by (simp add: live_inv_def)
  note cong = live_cong [OF assms(1) a]
  have route: "keeps_route (\<lambda>x. x)" by (simp add: keeps_route_def)
  have full: "wm_mode m = FullMode" using assms(1) by (simp add: live_inv_def)
  show ?thesis
  proof (cases e)
    case (Loaded cfg gonka)
    let ?m = "wizard_step e m"
    have l: "wm_mode ?m = FullMode \<and> stepId ?m = SProvider \<and> (\<exists>fb. wm_state ?m = Some (buildInitialState cfg fb))"
      using assms full by (cases "ws_firstMissing (deriveStatus (Some cfg))") (auto simp: Loaded loaded_def Let_def)
    then obtain st where st: "wm_state ?m = Some st" "provider st \<noteq> []" by (auto simp: buildInitialState_def Let_def str_or_def)
    then have "SProvider \<in> set (path ?m)" using full_path [of ?m] l starts_full by simp
    then show ?thesis using a l st by (simp add: live_inv_def)
  next
    case (Edit f) then show ?thesis using assms(2) by (intro cong [OF _ _ _ _ keeps_edit [of f]]) (simp_all add: on_state_def)
  next
    case Next show ?thesis using live_move [OF assms(1), of "goNext m"] a moved by (simp add: Next)
  next
    case Back show ?thesis using live_move [OF assms(1), of "goBack m"] a moved by (simp add: Back)
  next
    case (SelectProvider p)
    let ?m = "wizard_step e m"
    have l: "wm_mode ?m = FullMode" "stepId ?m = SProvider" using assms full SelectProvider
      by (simp_all add: onProviderSelect_def split: option.split)
    have "SProvider \<in> set (path ?m)" if "wm_state ?m = Some st" for st using full_path [OF l(1) that] starts_full by simp
    moreover have "provider st \<noteq> []" if "wm_state ?m = Some st" for st
      using that assms SelectProvider by (auto simp: live_inv_def onProviderSelect_def split: option.splits if_splits)
    ultimately show ?thesis using a l by (simp add: live_inv_def split: option.split)
  next
    case (SelectWalletMode w)
    let ?m = "wizard_step e m"
    have l: "wm_mode ?m = FullMode" "stepId ?m = SWalletChoice" "stepId m = SWalletChoice"
      "wm_state ?m = map_option (\<lambda>st. st\<lparr>walletMode := w\<rparr>) (wm_state m)" "wm_gonka ?m = wm_gonka m"
      using assms(2) full SelectWalletMode by (simp_all add: onWalletModeSelect_def on_state_def)
    obtain st where st: "wm_state m = Some st" "provider st \<noteq> []" "SWalletChoice \<in> set (buildFullPath st (wm_gonka m))"
      using assms(1) l(3) full_path [OF full] by (auto simp: live_inv_def split: option.splits)
    have "SWalletChoice \<in> set (buildFullPath (st\<lparr>walletMode := w\<rparr>) (wm_gonka m))"
      using st(3) by (auto simp: buildFullPath_def split: if_splits)
    then show ?thesis using a l st full_path [of ?m] by (simp add: live_inv_def)
  next
    case CreateStart then show ?thesis by (intro cong [OF _ _ _ _ route]) (simp_all add: submit_begin_def option.map_ident)
  next
    case UseStart then show ?thesis
      by (intro cong [OF _ _ _ _ route]) (simp_all add: onUseExisting_begin_def submit_begin_def option.map_ident split: option.split)
  next
    case (CreateEnd a)
    then have "wm_state m \<noteq> None" using assms by (auto simp: live_inv_def asked_inv_def)
    then show ?thesis
      by (cases a; intro cong [where f = "case a of Inl _ \<Rightarrow> \<lambda>x. x | Inr w \<Rightarrow> \<lambda>st. st\<lparr>gonkaPrivateKey := w_privateKeyHex w, gonkaPrivateKeyKnown := True,
             gonkaAddress := w_address w, gonkaMnemonicWords := w_words w, mnemonicAcknowledged := False\<rparr>"])
        (simp_all add: CreateEnd onCreateWallet_def on_state_def goTo_def Let_def keeps_route_def option.map_ident)
  next
    case (UseEnd a)
    then have "wm_state m \<noteq> None" using assms by (auto simp: live_inv_def asked_inv_def split: sum.splits import_answer.splits)
    then show ?thesis
      by (cases a; intro cong [where f = "case a of Inl _ \<Rightarrow> \<lambda>x. x | Inr r \<Rightarrow> \<lambda>st. case r of
               ImportedWallet w \<Rightarrow> st\<lparr>gonkaPrivateKey := w_privateKeyHex w, gonkaPrivateKeyKnown := True,
                 gonkaAddress := w_address w, gonkaMnemonicWords := w_words w\<rparr>
             | DerivedAddress d \<Rightarrow> st\<lparr>gonkaAddress := d, gonkaPrivateKeyKnown := True\<rparr>"])
        (simp_all add: UseEnd onUseExisting_def on_state_def goTo_def Let_def keeps_route_def option.map_ident split: import_answer.split)
  next
    case (ModelsStart u) then show ?thesis
      by (intro cong [OF _ _ _ _ route]) (simp_all add: loadModels_begin_def option.map_ident)
  next
    case (ModelsEnd a) then show ?thesis
      by (cases a; intro cong [OF _ _ _ _ keeps_autofill [of "case a of Inl _ \<Rightarrow> [] | Inr l \<Rightarrow> l"]])
        (simp_all add: loadModels_end_def on_state_def Let_def)
  next
    case CompleteStart then show ?thesis
      by (intro cong [OF _ _ _ _ route]) (simp_all add: onComplete_begin_def submit_begin_def option.map_ident split: option.split)
  next
    case (CompleteEnd f) then show ?thesis
      by (intro cong [OF _ _ _ _ route]) (simp_all add: onComplete_end_def Let_def option.map_ident split: option.split)
  qed
qed

interpretation live: guarded_steps wizard_step live_inv wizard_offered
  by unfold_locales (rule live_step)

text \<open>A run of what is offered that ends on the last step, with the provider it began with and the last button on.\<close>

definition setup_provider :: "wizard \<Rightarrow> string option" where
  "setup_provider m = map_option provider (wm_state m)"

definition finishable :: "wizard \<Rightarrow> bool" where
  "finishable m \<longleftrightarrow> (\<exists>fs. admissible wizard_offered wizard_step fs m
     \<and> wizard_offered CompleteStart (run_steps wizard_step fs m) \<and> setup_provider (run_steps wizard_step fs m) = setup_provider m)"

lemma finishable_run:
  assumes "admissible wizard_offered wizard_step es m" and "setup_provider (run_steps wizard_step es m) = setup_provider m"
    and "finishable (run_steps wizard_step es m)"
  shows "finishable m"
proof -
  have adm: "admissible wizard_offered wizard_step (xs @ ys) s \<longleftrightarrow>
      admissible wizard_offered wizard_step xs s \<and> admissible wizard_offered wizard_step ys (run_steps wizard_step xs s)" for xs ys s
    by (induction xs arbitrary: s) auto
  obtain fs where "admissible wizard_offered wizard_step fs (run_steps wizard_step es m)"
    "wizard_offered CompleteStart (run_steps wizard_step fs (run_steps wizard_step es m))"
    "setup_provider (run_steps wizard_step fs (run_steps wizard_step es m)) = setup_provider m"
    using assms(2,3) by (auto simp: finishable_def simp del: wizard_offered.simps)
  then show ?thesis using assms(1) by (auto simp: finishable_def adm run_steps_append simp del: wizard_offered.simps intro!: exI [of _ "es @ fs"])
qed

text \<open>Editing the fields of one step.\<close>

lemma edits_run: "run_steps wizard_step (map Edit fs) m = on_state (fold edit_field fs) m"
proof (induction fs arbitrary: m)
  case Nil
  then show ?case by (simp add: on_state_def option.map_ident)
next
  case (Cons f fs)
  then show ?case by (simp add: on_state_def option.map_comp comp_def)
qed

lemma keeps_edits: "keeps_route (fold edit_field fs)"
  using keeps_edit by (induction fs) (simp_all add: keeps_route_def)

lemma edits_admissible:
  "wm_state m \<noteq> None \<Longrightarrow> list_all (\<lambda>f. stepId m \<in> set (edit_steps f)) fs \<Longrightarrow> admissible wizard_offered wizard_step (map Edit fs) m"
  by (induction fs arbitrary: m) (simp_all add: on_state_def)

lemma fresh_model: "\<exists>n. trimmed n \<and> n \<noteq> [] \<and> findRow n rows = None"
proof -
  define n where "n = replicate (Suc (sum_list (map (length \<circ> mr_name) rows))) CHR ''m''"
  have le: "length (mr_name r) < length n" if "r \<in> set rows" for r
    using member_le_sum_list [of "length (mr_name r)" "map (length \<circ> mr_name) rows"] that by (force simp: n_def)
  have "findRow n rows = None"
  proof (cases "findRow n rows")
    case (Some r)
    then have "r \<in> set rows" "mr_name r = n" by (auto simp: findRow_def find_Some_iff)
    then show ?thesis using le [of r] by simp
  qed simp
  moreover have "trimmed n" "n \<noteq> []" by (simp_all add: n_def trimmed_def is_ws_def)
  ultimately show ?thesis by blast
qed

lemma add_chat_model:
  assumes "\<not> has_chat_row rows"
  shows "\<exists>n. has_chat_row (snd (addCustom n rows))"
proof -
  obtain n where n: "trimmed n" "n \<noteq> []" "findRow n rows = None" using fresh_model by blast
  have "\<not> list_ex (\<lambda>r. mr_role r = RoleChat) (cleanRows rows)" using assms by (auto simp: has_chat_row_def cleanRows_def list_ex_iff)
  then show ?thesis using n
    by (intro exI [of _ n]) (simp add: addCustom_def trim_id choose_model_def has_chat_row_def)
qed

text \<open>Every form that Next waits for can be filled in on its step.\<close>

lemma form_edits:
  assumes "i \<notin> {SWalletCreate, SWalletImport, SFinish}" and "provider st \<noteq> []"
  shows "\<exists>fs. list_all (\<lambda>f. i \<in> set (edit_steps f)) fs \<and> \<not> isNextDisabled i (fold edit_field fs st)"
proof (cases i)
  case SProvider then show ?thesis using assms by (intro exI [of _ "[]"]) simp
next
  case SOpenai
  have t: "trim ''http://h'' \<noteq> []" by code_simp
  show ?thesis
  proof (cases "has_chat_row (modelRows st)")
    case True then show ?thesis using SOpenai t by (intro exI [of _ "[Set_openaiBaseUrl ''http://h'']"]) simp
  next
    case False
    then obtain n where "has_chat_row (snd (addCustom n (modelRows st)))" using add_chat_model by blast
    then show ?thesis using SOpenai t by (intro exI [of _ "[Set_openaiBaseUrl ''http://h'', Add_model n]"]) simp
  qed
next
  case SWalletChoice then show ?thesis by (intro exI [of _ "[]"]) simp
next
  case SWalletReveal then show ?thesis by (intro exI [of _ "[Set_mnemonicAcknowledged True]"]) simp
next
  case SWalletBalance then show ?thesis by (intro exI [of _ "[Set_bypassBalance True]"]) simp
next
  case SGonkaModels
  show ?thesis
  proof (cases "has_chat_row (modelRows st)")
    case True then show ?thesis using SGonkaModels by (intro exI [of _ "[]"]) simp
  next
    case False
    then obtain n where "has_chat_row (snd (addCustom n (modelRows st)))" using add_chat_model by blast
    then show ?thesis using SGonkaModels by (intro exI [of _ "[Add_model n]"]) simp
  qed
next
  case STelegram then show ?thesis by (intro exI [of _ "[Set_tgSkip True]"]) simp
next
  case SEmail then show ?thesis by (intro exI [of _ "[Set_emailSkip True]"]) simp
qed (use assms in auto)

text \<open>A setup that waits for nothing, with the step it shows on the path.\<close>

definition settled :: "wizard \<Rightarrow> bool" where
  "settled m \<longleftrightarrow> live_inv m \<and> wm_state m \<noteq> None \<and> stepId m \<in> set (path m) \<and> \<not> submitting m"

lemma settled_inv: "settled m \<Longrightarrow> wizard_inv m"
  by (auto simp: settled_def live_inv_def wizard_inv_def split: option.split)

lemma settled_run:
  assumes "settled m" and "admissible wizard_offered wizard_step es m"
    and "wm_state (run_steps wizard_step es m) \<noteq> None" and "stepId (run_steps wizard_step es m) \<in> set (path (run_steps wizard_step es m))"
    and "\<not> submitting (run_steps wizard_step es m)"
  shows "settled (run_steps wizard_step es m)"
  using live.run_inv [OF _ assms(2)] assms by (simp add: settled_def)

lemma filled_in:
  assumes "live_inv m" and "wm_state m = Some st" and "stepId m \<notin> {SWalletCreate, SWalletImport, SFinish}"
  shows "\<exists>fs. admissible wizard_offered wizard_step (map Edit fs @ [Next]) m
    \<and> (let m1 = on_state (fold edit_field fs) m in run_steps wizard_step (map Edit fs @ [Next]) m = goNext m1
        \<and> path m1 = path m \<and> stepId m1 = stepId m \<and> wm_gonka m1 = wm_gonka m \<and> submitting m1 = submitting m
        \<and> setup_provider m1 = setup_provider m \<and> wm_state m1 \<noteq> None \<and> currentIdx m1 = currentIdx m)"
proof -
  have "provider st \<noteq> []" using assms(1,2) by (simp add: live_inv_def)
  then obtain fs where fs: "list_all (\<lambda>f. stepId m \<in> set (edit_steps f)) fs" "\<not> isNextDisabled (stepId m) (fold edit_field fs st)"
    using form_edits [OF assms(3)] by blast
  let ?m = "on_state (fold edit_field fs) m"
  have p: "path ?m = path m"
    using keeps_edits [of fs] assms(2) by (intro path_cong [of ?m m st "fold edit_field fs st"]) (simp_all add: on_state_def keeps_route_def)
  have "admissible wizard_offered wizard_step (xs @ [Next]) s \<longleftrightarrow>
      admissible wizard_offered wizard_step xs s \<and> wizard_offered Next (run_steps wizard_step xs s)" for xs s
    by (induction xs arbitrary: s) simp_all
  then have "admissible wizard_offered wizard_step (map Edit fs @ [Next]) m"
    using edits_admissible [OF _ fs(1)] fs(2) assms by (auto simp: edits_run on_state_def canNext_def)
  moreover have "setup_provider ?m = setup_provider m" using keeps_edits [of fs] assms(2)
    by (simp add: setup_provider_def on_state_def keeps_route_def)
  moreover have "currentIdx ?m = currentIdx m" using p assms(2) by (simp add: currentIdx_def) (simp add: on_state_def)
  ultimately show ?thesis using p assms(2)
    by (intro exI [of _ fs]) (simp add: run_steps_append edits_run Let_def, simp add: on_state_def)
qed

text \<open>A step that can create a wallet only with a tool that the server does not have.\<close>

definition create_is_off :: "wizard \<Rightarrow> bool" where
  "create_is_off m \<longleftrightarrow> SWalletCreate \<in> set (path m) \<and> \<not> inferenced m"

definition steps_to_go :: "wizard \<Rightarrow> nat" where
  "steps_to_go m = (if create_is_off m then 9 else 0) + (8 - step_rank (stepId m))"

lemma settled_step:
  assumes "settled m" and "wm_state m = Some st" and "stepId m \<notin> {SWalletCreate, SWalletImport, SFinish}"
  shows "\<exists>es. admissible wizard_offered wizard_step es m \<and> settled (run_steps wizard_step es m)
    \<and> setup_provider (run_steps wizard_step es m) = setup_provider m \<and> steps_to_go (run_steps wizard_step es m) < steps_to_go m"
proof -
  have live: "live_inv m" using assms(1) by (simp add: settled_def)
  obtain fs where adm: "admissible wizard_offered wizard_step (map Edit fs @ [Next]) m"
    and m1: "let m1 = on_state (fold edit_field fs) m in run_steps wizard_step (map Edit fs @ [Next]) m = goNext m1
        \<and> path m1 = path m \<and> stepId m1 = stepId m \<and> wm_gonka m1 = wm_gonka m \<and> submitting m1 = submitting m
        \<and> setup_provider m1 = setup_provider m \<and> wm_state m1 \<noteq> None \<and> currentIdx m1 = currentIdx m"
    using filled_in [OF live assms(2,3)] by blast
  define a where "a = on_state (fold edit_field fs) m"
  note m1 = m1 [folded a_def, unfolded Let_def]
  obtain st1 where st1: "wm_state a = Some st1" using m1 by auto
  have "wm_mode a = FullMode" using live by (simp add: a_def on_state_def live_inv_def)
  then have inv: "wizard_inv a" using m1 st1 assms(1) by (simp add: wizard_inv_def settled_def)
  obtain i where i: "i \<in> set (path a)" "goNext a = goTo i (a\<lparr>wm_error := []\<rparr>)" "step_rank (stepId a) < step_rank i"
    using advance [OF inv st1] m1 assms(3) by auto
  have s: "stepId (goNext a) = i" using i(2) by (simp add: goTo_def)
  have r: "step_rank i \<le> 8" by (cases i) simp_all
  have "settled (run_steps wizard_step (map Edit fs @ [Next]) m)"
    by (rule settled_run [OF assms(1) adm]) (use m1 s i(1) moved(1) [of a] assms(1) in \<open>simp_all add: settled_def\<close>)
  moreover have "create_is_off (goNext a) = create_is_off m" using m1 moved(1) [of a] by (simp add: create_is_off_def inferenced_def)
  then have "steps_to_go (goNext a) < steps_to_go m" using i(3) m1 r s by (simp add: steps_to_go_def)
  moreover have "setup_provider (goNext a) = setup_provider m" using m1 by (simp add: setup_provider_def)
  ultimately show ?thesis using adm m1 by metis
qed

lemma settled_import:
  assumes "settled m" and "wm_state m = Some st" and "stepId m = SWalletImport"
  shows "\<exists>es. admissible wizard_offered wizard_step es m \<and> settled (run_steps wizard_step es m)
    \<and> setup_provider (run_steps wizard_step es m) = setup_provider m \<and> steps_to_go (run_steps wizard_step es m) < steps_to_go m"
proof -
  let ?key = "replicate 64 CHR ''a''"
  let ?es = "[Edit (Set_walletImportMode PrivateKey), Edit (Set_gonkaPrivateKey ?key), Edit (Set_gonkaNodeUrl ''n''), UseStart,
    UseEnd (Inr (DerivedAddress ''gonka1''))]"
  let ?st = "st\<lparr>walletImportMode := PrivateKey, gonkaPrivateKey := ?key, gonkaNodeUrl := ''n'', gonkaAddress := ''gonka1'', gonkaPrivateKeyKnown := True\<rparr>"
  have k: "isValidPrivateKey ?key" "trim ''n'' \<noteq> []" by code_simp+
  define m' where "m' = run_steps wizard_step ?es m"
  have m': "m' = m\<lparr>wm_state := Some ?st, submitting := False, wm_error := [], wm_request := None, stepId := SWalletBalance\<rparr>"
    by (simp add: m'_def assms(2) on_state_def onUseExisting_begin_def submit_begin_def onUseExisting_def goTo_def Let_def)
  have adm: "admissible wizard_offered wizard_step ?es m"
    using assms k by (simp add: settled_def on_state_def on_form_def canSubmit_def onUseExisting_begin_def submit_begin_def)
  have p: "path m' = path m" using assms(2) by (intro path_cong [of m' m st ?st]) (simp_all add: m')
  have "SWalletBalance \<in> set (path m)" using path_wallet(1) [OF settled_inv [OF assms(1)] assms(2)] assms(3) by simp
  then have "settled (run_steps wizard_step ?es m)"
    by (intro settled_run [OF assms(1) adm]) (unfold m'_def [symmetric], simp_all add: p, simp_all add: m')
  moreover have "steps_to_go m' < steps_to_go m"
    using assms(3) p by (simp add: steps_to_go_def create_is_off_def) (simp add: m' inferenced_def)
  moreover have "setup_provider m' = setup_provider m" using assms(2) by (simp add: m' setup_provider_def)
  ultimately show ?thesis using adm unfolding m'_def by blast
qed

lemma settled_create:
  assumes "settled m" and "wm_state m = Some st" and "stepId m = SWalletCreate" and "inferenced m"
  shows "\<exists>es. admissible wizard_offered wizard_step es m \<and> settled (run_steps wizard_step es m)
    \<and> setup_provider (run_steps wizard_step es m) = setup_provider m \<and> steps_to_go (run_steps wizard_step es m) < steps_to_go m"
proof -
  let ?w = sample_wallet
  let ?es = "[Edit (Set_gonkaNodeUrl ''n''), CreateStart, CreateEnd (Inr ?w)]"
  let ?st = "st\<lparr>gonkaNodeUrl := ''n'', gonkaPrivateKey := w_privateKeyHex ?w, gonkaPrivateKeyKnown := True,
             gonkaAddress := w_address ?w, gonkaMnemonicWords := w_words ?w, mnemonicAcknowledged := False\<rparr>"
  have k: "trim ''n'' \<noteq> []" by code_simp
  define m' where "m' = run_steps wizard_step ?es m"
  have m': "m' = m\<lparr>wm_state := Some ?st, submitting := False, wm_error := [], wm_request := None, stepId := SWalletReveal\<rparr>"
    by (simp add: m'_def assms(2) on_state_def submit_begin_def onCreateWallet_def goTo_def Let_def)
  have adm: "admissible wizard_offered wizard_step ?es m"
    using assms k by (simp add: settled_def on_state_def on_form_def canCreate_def submit_begin_def inferenced_def)
  have p: "path m' = path m" using assms(2) by (intro path_cong [of m' m st ?st]) (simp_all add: m')
  have "SWalletReveal \<in> set (path m)" using path_wallet(2) [OF settled_inv [OF assms(1)] assms(2)] assms(3,4) by simp
  then have "settled (run_steps wizard_step ?es m)"
    by (intro settled_run [OF assms(1) adm]) (unfold m'_def [symmetric], simp_all add: p, simp_all add: m')
  moreover have "steps_to_go m' < steps_to_go m"
    using assms(3) p by (simp add: steps_to_go_def create_is_off_def) (simp add: m' inferenced_def)
  moreover have "setup_provider m' = setup_provider m" using assms(2) by (simp add: m' setup_provider_def)
  ultimately show ?thesis using adm unfolding m'_def by blast
qed

lemma choose_import:
  assumes "settled m" and "stepId m = SWalletChoice" and "create_is_off m"
  shows "settled (onWalletModeSelect ImportWallet m) \<and> setup_provider (onWalletModeSelect ImportWallet m) = setup_provider m
    \<and> steps_to_go (onWalletModeSelect ImportWallet m) = 7"
proof -
  let ?m = "onWalletModeSelect ImportWallet m"
  obtain st where st: "wm_state m = Some st" using assms(1) by (auto simp: settled_def)
  have st': "wm_state ?m = Some (st\<lparr>walletMode := ImportWallet\<rparr>)" using st by (simp add: onWalletModeSelect_def on_state_def)
  have s: "stepId ?m = SWalletChoice" using assms(2) by (simp add: onWalletModeSelect_def on_state_def)
  have off: "wizard_offered (SelectWalletMode ImportWallet) m" using assms(2) by simp
  have inv: "wizard_inv ?m" using inv_wallet_mode [OF settled_inv [OF assms(1)] assms(2)] .
  have live: "live_inv ?m" using live_step [OF _ off] assms(1) by (simp add: settled_def)
  then have "settled ?m" using inv_on_path [OF inv st'] assms(1) st' by (simp add: settled_def onWalletModeSelect_def on_state_def)
  moreover have "SWalletCreate \<notin> set (path ?m)" using full_path [of ?m] live st'
    by (simp add: live_inv_def buildFullPath_def)
  then have "steps_to_go ?m = 7" using s by (simp add: steps_to_go_def create_is_off_def)
  ultimately show ?thesis using st st' by (simp add: setup_provider_def)
qed

lemma create_path:
  assumes "wm_state m = Some st" and "provider st \<noteq> ''openai''" and "walletMode st = CreateWallet" and "wm_mode m = FullMode"
    and "stepId m = SWalletCreate"
  shows "currentIdx m = 2 \<and> stepId (goBack m) = SWalletChoice"
proof -
  have p: "\<exists>r. path m = SProvider # SWalletChoice # SWalletCreate # r"
    using assms by (simp add: path_def buildPath_def buildFullPath_def Let_def)
  then have "currentIdx m = 2" by (intro current_index_unique) (auto simp: assms(5))
  then show ?thesis using p by (auto simp: goBack_def at_def goTo_def Let_def)
qed

lemma leave_create:
  assumes "settled m" and "stepId m = SWalletCreate" and "\<not> inferenced m"
  shows "canBack m \<and> settled (goBack m) \<and> stepId (goBack m) = SWalletChoice \<and> create_is_off (goBack m)"
proof -
  obtain st where st: "wm_state m = Some st" using assms(1) by (auto simp: settled_def)
  have full: "wm_mode m = FullMode" and on: "SWalletCreate \<in> set (path m)" using assms by (simp_all add: settled_def live_inv_def)
  then have "provider st \<noteq> ''openai''" "walletMode st = CreateWallet"
    using full_path [OF full st] by (auto simp: buildFullPath_def split: if_splits)
  note b = create_path [OF st this full assms(2)]
  have cb: "canBack m" using b assms(2) by (simp add: canBack_def)
  have "SWalletChoice \<in> set (path m)" using on full_path [OF full st] by (auto simp: buildFullPath_def split: if_splits)
  then have "settled (goBack m)" using live_step [of m Back] assms(1) b cb moved(2) [of m] by (simp add: settled_def)
  moreover have "create_is_off (goBack m)" using on moved(2) [of m] assms(3) by (simp add: create_is_off_def inferenced_def)
  ultimately show ?thesis using b cb by simp
qed

lemma settled_finishable: "settled m \<Longrightarrow> finishable m"
proof (induction "steps_to_go m" arbitrary: m rule: less_induct)
  case less
  obtain st where st: "wm_state m = Some st" using less.prems by (auto simp: settled_def)
  have ahead: "finishable m" if "\<exists>es. admissible wizard_offered wizard_step es m \<and> settled (run_steps wizard_step es m)
    \<and> setup_provider (run_steps wizard_step es m) = setup_provider m \<and> steps_to_go (run_steps wizard_step es m) < steps_to_go m"
    using that less.hyps finishable_run by blast
  have chosen: "finishable s" if s: "settled s" "stepId s = SWalletChoice" "create_is_off s" and go: "7 < steps_to_go m" for s
  proof (rule finishable_run [of "[SelectWalletMode ImportWallet]"])
    note c = choose_import [OF s]
    show "admissible wizard_offered wizard_step [SelectWalletMode ImportWallet] s" using s(2) by simp
    show "setup_provider (run_steps wizard_step [SelectWalletMode ImportWallet] s) = setup_provider s" using c by simp
    show "finishable (run_steps wizard_step [SelectWalletMode ImportWallet] s)" using less.hyps c go by simp
  qed
  consider "stepId m = SFinish" | "stepId m = SWalletImport" | "stepId m = SWalletCreate" "inferenced m"
    | "stepId m = SWalletCreate" "\<not> inferenced m" | "stepId m \<notin> {SWalletCreate, SWalletImport, SFinish}" by blast
  then show ?case
  proof cases
    case 1
    then show ?thesis using less.prems by (auto simp: finishable_def settled_def intro!: exI [of _ "[]"])
  next
    case 2
    then show ?thesis using ahead settled_import [OF less.prems st] by blast
  next
    case 3
    then show ?thesis using ahead settled_create [OF less.prems st] by blast
  next
    case 4
    note b = leave_create [OF less.prems 4]
    have "create_is_off m" using 4 less.prems by (simp add: create_is_off_def settled_def)
    then have "finishable (goBack m)" using b 4(1) chosen [of "goBack m"] by (simp add: steps_to_go_def)
    then show ?thesis using b by (intro finishable_run [of "[Back]" m]) (auto simp: setup_provider_def)
  next
    case 5
    then show ?thesis using ahead settled_step [OF less.prems st] by blast
  qed
qed

lemma idle_finishable:
  assumes "live_inv m" and "wm_state m = Some st" and "\<not> submitting m"
  shows "finishable m"
proof (cases "stepId m \<in> set (path m)")
  case True
  then show ?thesis using settled_finishable [of m] assms by (simp add: settled_def)
next
  case False
  then have at: "stepId m = SWalletReveal \<or> stepId m = SWalletBalance" and "wm_mode m = FullMode"
    using assms(1,2) by (auto simp: live_inv_def)
  have "index_of (stepId m) (path m) = None" using False by (auto simp: index_of_def find_index_None)
  then have idx: "currentIdx m = 0" using assms(2) by (simp add: currentIdx_def or_else_def)
  obtain i where i: "JsPrelude.at (path m) 1 = Some i" "i \<in> set (path m)"
  proof -
    obtain xs where xs: "path m = SProvider # xs @ [SFinish]" "xs \<noteq> []"
      using full_path_ends [of st "wm_gonka m"] full_path [OF \<open>wm_mode m = FullMode\<close> assms(2)] by auto
    then have "JsPrelude.at (path m) 1 = Some (hd xs)" by (simp add: at_def nth_append hd_conv_nth)
    then show ?thesis using that xs by simp
  qed
  obtain fs where adm: "admissible wizard_offered wizard_step (map Edit fs @ [Next]) m"
    and m1: "let m1 = on_state (fold edit_field fs) m in run_steps wizard_step (map Edit fs @ [Next]) m = goNext m1
        \<and> path m1 = path m \<and> stepId m1 = stepId m \<and> wm_gonka m1 = wm_gonka m \<and> submitting m1 = submitting m
        \<and> setup_provider m1 = setup_provider m \<and> wm_state m1 \<noteq> None \<and> currentIdx m1 = currentIdx m"
    using filled_in [OF assms(1,2)] at by auto
  let ?m = "run_steps wizard_step (map Edit fs @ [Next]) m"
  have "stepId ?m = i" "path ?m = path m" "wm_state ?m \<noteq> None" "\<not> submitting ?m" "setup_provider ?m = setup_provider m"
    using m1 i(1) idx assms(3) moved(1) [of "on_state (fold edit_field fs) m"]
    by (simp_all add: Let_def setup_provider_def) (simp add: goNext_def goTo_def Let_def)
  then have "settled ?m" using live.run_inv [OF assms(1) adm] i(2) by (simp add: settled_def)
  then show ?thesis using finishable_run [OF adm] settled_finishable \<open>setup_provider ?m = setup_provider m\<close> by blast
qed

lemma live_finishable:
  assumes "live_inv m" and "wm_state m = Some st"
  shows "finishable m"
proof (cases "submitting m")
  case False
  then show ?thesis using idle_finishable [OF assms] by simp
next
  case True
  then obtain r where r: "wm_request m = Some r" using assms(1) by (auto simp: live_inv_def asked_inv_def)
  define e where "e = (case r of CreationRequest \<Rightarrow> CreateEnd (Inl []) | MnemonicRequest \<Rightarrow> UseEnd (Inl [])
    | AddressRequest \<Rightarrow> UseEnd (Inl []) | CompletionRequest \<Rightarrow> CompleteEnd (Some []))"
  have e: "wizard_offered e m" "wm_state (wizard_step e m) = Some st" "\<not> submitting (wizard_step e m)"
    using r assms(2) by (cases r; simp add: e_def onCreateWallet_def onUseExisting_def onComplete_end_def Let_def)+
  have "finishable (wizard_step e m)" using idle_finishable [OF live_step [OF assms(1) e(1)] e(2,3)] .
  then show ?thesis using e assms(2) finishable_run [of "[e]" m] by (simp add: setup_provider_def)
qed

text \<open>C22: The wizard has no dead end. From every state of a setup that starts at its first step, whatever the user, the page
  and the server did and in whatever order answers came, late wallets included, there is a sequence of edits and buttons
  that the page offers on the steps it shows, and of answers to the requests made, that ends on the last step with its
  button on; and the provider need not be changed for it. So the forms can be filled in on their steps, an amount too small
  can be passed over, and where the server cannot create a wallet one can be imported.\<close>

theorem setup_can_be_finished:
  assumes "admissible wizard_offered wizard_step es (wizard_start FullMode)"
    and "m = run_steps wizard_step es (wizard_start FullMode)" and "wm_state m = Some st"
  shows "\<exists>fs st'. admissible wizard_offered wizard_step fs m \<and> wizard_offered CompleteStart (run_steps wizard_step fs m)
    \<and> wm_state (run_steps wizard_step fs m) = Some st' \<and> provider st' = provider st"
proof -
  have "live_inv (wizard_start FullMode)" by (simp add: live_inv_def asked_inv_def wizard_start_def)
  then have "finishable m" using live.run_inv [OF _ assms(1)] live_finishable [OF _ assms(3)] assms(2) by simp
  then show ?thesis using assms(3) by (auto simp: finishable_def setup_provider_def simp del: wizard_offered.simps)
qed

text \<open>The witness is a setup that was left on a step off its path by a wallet that came late.\<close>

definition late_run :: "wizard_event list" where
  "late_run = [Loaded sample_config (Some sample_gonka), Next, Next, CreateStart, Back, SelectWalletMode ImportWallet, CreateEnd (Inr sample_wallet)]"

lemma late_run_offered: "admissible wizard_offered wizard_step late_run (wizard_start FullMode)"
  by (simp add: late_run_def wizard_evals onWalletModeSelect_def goBack_def canBack_def Let_def)

lemma late_run_state: "\<exists>st. wm_state (run_steps wizard_step late_run (wizard_start FullMode)) = Some st \<and> provider st = ''gonka''"
  by (simp add: late_run_def wizard_evals onWalletModeSelect_def goBack_def canBack_def Let_def)

theorem setup_can_be_finished_witness:
  "\<exists>fs st'. admissible wizard_offered wizard_step fs (run_steps wizard_step late_run (wizard_start FullMode))
    \<and> wizard_offered CompleteStart (run_steps wizard_step fs (run_steps wizard_step late_run (wizard_start FullMode)))
    \<and> wm_state (run_steps wizard_step fs (run_steps wizard_step late_run (wizard_start FullMode))) = Some st' \<and> provider st' = ''gonka''"
  using late_run_state setup_can_be_finished [OF late_run_offered refl] by fastforce

text \<open>A setup that is resumed can be stuck. Where the wallet of a Gonka setup is stored but no chat model, and the server cannot
  create wallets, the steps before the models are those of a new wallet, and Back leads onto the one that makes it: the
  wallet choice is not on the path, Back, Next and Create are off.\<close>

definition half_done_config :: global_config where
  "half_done_config = sample_config\<lparr>g_gonka := (g_gonka sample_config)\<lparr>gc_privateKey := \<lparr>cs_set = True, cs_value = [], cs_source = SrcDb\<rparr>\<rparr>, g_models := []\<rparr>"

lemma resumed_setup_can_be_stuck:
  "let es = [Loaded half_done_config None, Back, Back]; m = run_steps wizard_step es (wizard_start ResumeMode) in
   admissible wizard_enabled wizard_step es (wizard_start ResumeMode) \<and> stepId m = SWalletCreate
   \<and> \<not> canBack m \<and> \<not> canNext m \<and> \<not> wizard_offered CreateStart m \<and> SWalletChoice \<notin> set (path m)"
  by code_simp

lemma ready_admissible: "admissible wizard_enabled wizard_step [Loaded sample_config (Some sample_gonka), Next] (wizard_start FullMode)"
  by (simp add: wizard_evals Let_def)

lemma ready_shown: "let m = run_steps wizard_step [Loaded sample_config (Some sample_gonka), Next] (wizard_start FullMode)
   in wm_state m \<noteq> None \<and> stepId m \<noteq> SFinish"
  by (simp add: wizard_evals Let_def)

theorem back_undoes_next_witness:
  "let m = run_steps wizard_step [Loaded sample_config (Some sample_gonka), Next] (wizard_start FullMode)
   in goBack (goNext m) = m\<lparr>wm_error := []\<rparr> \<and> canBack (goNext m) = (stepId (goNext m) \<noteq> SWalletReveal)"
  using back_undoes_next [OF ready_admissible refl] ready_shown by (simp only: Let_def simp_thms)

section \<open>What the draft keeps\<close>

definition trimmed_field :: "config_field \<Rightarrow> bool" where
  "trimmed_field x \<longleftrightarrow> trimmed (cf_value x)"

definition trimmed_secret :: "config_secret \<Rightarrow> bool" where
  "trimmed_secret x \<longleftrightarrow> trimmed (cs_value x)"

text \<open>A configuration as the wizard itself would save it.\<close>

definition tidy_config :: "global_config \<Rightarrow> bool" where
  "tidy_config cfg \<longleftrightarrow>
     cf_value (g_provider cfg) \<noteq> []
     \<and> list_all trimmed_field [oc_baseUrl (g_openai cfg), gc_nodeUrl (g_gonka cfg), ec_address (g_email cfg),
         ec_smtpHost (g_email cfg), ec_smtpPort (g_email cfg), ec_smtpUsername (g_email cfg),
         ec_imapHost (g_email cfg), ec_imapPort (g_email cfg), ec_imapUsername (g_email cfg)]
     \<and> list_all trimmed_secret [oc_apiKey (g_openai cfg), tc_token (g_telegram cfg),
         ec_smtpPassword (g_email cfg), ec_imapPassword (g_email cfg)]
     \<and> list_all (\<lambda>r. mr_name r \<noteq> [] \<and> trimmed (mr_name r)) (g_models cfg)
     \<and> distinct (or_else (tc_allowedUserIds (g_telegram cfg)) [])"

lemma valid_rows_tidy: "list_all (\<lambda>r. mr_name r \<noteq> [] \<and> trimmed (mr_name r)) rows \<Longrightarrow> valid_rows rows = rows"
  by (induction rows) (simp_all add: valid_rows_def trim_id)

lemma merged_ids_initial:
  assumes "distinct (or_else (tc_allowedUserIds (g_telegram cfg)) [])"
  shows "merged_ids (buildInitialState cfg node) = or_else (tc_allowedUserIds (g_telegram cfg)) []"
proof (cases "or_else (tc_allowedUserIds (g_telegram cfg)) []")
  case Nil
  then show ?thesis by (simp add: merged_ids_def buildInitialState_def Let_def)
next
  case (Cons i js)
  have "dedupe (i # i # js) = dedupe (i # js)" by (simp add: dedupe_def)
  then show ?thesis using assms dedupe_distinct [of "i # js"] by (simp add: merged_ids_def buildInitialState_def Let_def Cons)
qed

text \<open>Opening the wizard on a configuration and saving at once changes nothing in it: the provider,
  the addresses, the passwords the server gave out, the models and the allowed Telegram users all come
  back. Two things are left out on purpose: the Gonka key is sent empty, and with Telegram skipped the list
  of allowed users is sent empty. An empty Gonka address is replaced by the default one.\<close>

theorem untouched_setup_saves_the_configuration:
  assumes "tidy_config cfg" and "trimmed node"
  shows "let d = buildDraft (buildInitialState cfg node); e = g_email cfg in
    d_provider d = cf_value (g_provider cfg)
    \<and> d_openai d = \<lparr>od_baseUrl = cf_value (oc_baseUrl (g_openai cfg)), od_apiKey = cs_value (oc_apiKey (g_openai cfg))\<rparr>
    \<and> d_gonka d = \<lparr>gd_nodeUrl = str_or (cf_value (gc_nodeUrl (g_gonka cfg))) node, gd_privateKey = []\<rparr>
    \<and> d_models d = g_models cfg
    \<and> d_telegram d = \<lparr>td_token = cs_value (tc_token (g_telegram cfg)),
         td_allowedUserIds = (if tc_skipped (g_telegram cfg) then [] else or_else (tc_allowedUserIds (g_telegram cfg)) []),
         td_skipped = tc_skipped (g_telegram cfg)\<rparr>
    \<and> d_email d = \<lparr>ed_address = cf_value (ec_address e), ed_smtpHost = cf_value (ec_smtpHost e),
         ed_smtpPort = cf_value (ec_smtpPort e), ed_smtpUsername = cf_value (ec_smtpUsername e),
         ed_smtpPassword = cs_value (ec_smtpPassword e), ed_imapHost = cf_value (ec_imapHost e),
         ed_imapPort = cf_value (ec_imapPort e), ed_imapUsername = cf_value (ec_imapUsername e),
         ed_imapPassword = cs_value (ec_imapPassword e), ed_skipped = ec_skipped e\<rparr>"
proof -
  let ?st = "buildInitialState cfg node"
  have tidy: "trim (cf_value x) = cf_value x" if "trimmed_field x" for x using that by (simp add: trimmed_field_def trim_id)
  have tidy': "trim (cs_value x) = cs_value x" if "trimmed_secret x" for x using that by (simp add: trimmed_secret_def trim_id)
  have ids: "merged_ids ?st = or_else (tc_allowedUserIds (g_telegram cfg)) []"
    using assms(1) by (intro merged_ids_initial) (simp add: tidy_config_def)
  have rows: "valid_rows (modelRows ?st) = g_models cfg"
    using assms(1) by (auto simp: buildInitialState_def Let_def tidy_config_def valid_rows_tidy)
      (simp add: valid_rows_def empty_row_def)
  show ?thesis
    using assms unfolding buildDraft_def ids rows
    by (simp add: Let_def buildInitialState_def tidy_config_def tidy tidy' str_or_def trim_id)
qed

theorem untouched_setup_saves_the_configuration_witness:
  "d_models (buildDraft (buildInitialState sample_config ''n'')) = g_models sample_config"
proof -
  have "tidy_config sample_config" by code_simp
  moreover have "trimmed ''n''" by code_simp
  ultimately show ?thesis using untouched_setup_saves_the_configuration [of sample_config "''n''"] by (simp add: Let_def)
qed

section \<open>Telegram users\<close>

text \<open>The Relink button, and the poll that finds the account that sent the code
  (\<open>steps/TelegramStep.tsx\<close>): only the linked user is set.\<close>

definition relink :: "telegram_user \<Rightarrow> wizard_state \<Rightarrow> wizard_state" where
  "relink u st = (st\<lparr>tgLinkedUser := None\<rparr>)\<lparr>tgLinkedUser := Some u\<rparr>"

text \<open>Linking another Telegram account keeps the one linked before among the allowed users: after
  Relink and a new account the saved list begins with the new account and still holds every user
  that was allowed. The wizard has no way to take a user off the list short of turning Telegram
  off.\<close>

theorem relink_keeps_the_old_user:
  assumes "tu_id u \<noteq> 0" and "\<not> tgSkip st"
  shows "let ids = td_allowedUserIds (d_telegram (buildDraft (relink u st))) in
    hd ids = tu_id u \<and> set ids = insert (tu_id u) (set (tgAllowedUserIds st)) \<and> distinct ids"
  using assms by (simp add: buildDraft_def relink_def merged_ids_def Let_def) (simp add: dedupe_def)

theorem relink_keeps_the_old_user_witness:
  "7 \<in> set (td_allowedUserIds (d_telegram (buildDraft (relink \<lparr>tu_id = 8, tu_username = None, tu_name = []\<rparr>
      (buildInitialState sample_config ''n'')))))"
proof -
  have "\<not> tgSkip (buildInitialState sample_config ''n'')" "7 \<in> set (tgAllowedUserIds (buildInitialState sample_config ''n''))"
    by code_simp+
  then show ?thesis
    using relink_keeps_the_old_user [of "\<lparr>tu_id = 8, tu_username = None, tu_name = []\<rparr>" "buildInitialState sample_config ''n''"]
    by (simp add: Let_def)
qed

section \<open>Answers that come too late\<close>

text \<open>The answer to Create is not tied to the step it was asked on. If the user goes back while the
  wallet is made, chooses to import one and then the answer comes, the wizard shows the step of the
  secret words although it is not on the path; the index falls back to 0, so Back is off, and Next
  leads from there to the step after the provider's, the wallet choice. All of it is offered.\<close>

theorem late_wallet_leaves_the_path:
  assumes "wm_state m = Some st" and "provider st \<noteq> ''openai''" and "walletMode st = CreateWallet" and "wm_mode m = FullMode"
    and "stepId m = SWalletCreate" and "canCreate (inferenced m) st" and "\<not> submitting m"
  shows "admissible wizard_offered wizard_step [CreateStart, Back, SelectWalletMode ImportWallet, CreateEnd (Inr w)] m
    \<and> (let m' = run_steps wizard_step [CreateStart, Back, SelectWalletMode ImportWallet, CreateEnd (Inr w)] m in
      stepId m' = SWalletReveal \<and> SWalletReveal \<notin> set (path m') \<and> currentIdx m' = 0 \<and> \<not> canBack m'
      \<and> stepId (goNext m') = SWalletChoice)"
proof -
  let ?b = "submit_begin CreationRequest m"
  let ?m = "run_steps wizard_step [CreateStart, Back, SelectWalletMode ImportWallet, CreateEnd (Inr w)] m"
  have b: "wm_state ?b = Some st" "wm_mode ?b = FullMode" "stepId ?b = SWalletCreate" using assms by (simp_all add: submit_begin_def)
  note cb = create_path [OF b(1) assms(2,3) b(2,3)]
  obtain st' where st': "wm_state ?m = Some st'" "provider st' = provider st" "walletMode st' = ImportWallet"
    and "stepId ?m = SWalletReveal" and md: "wm_mode ?m = FullMode"
    by (simp add: b onWalletModeSelect_def on_state_def onCreateWallet_def goTo_def Let_def)
  have id: "stepId ?m = SWalletReveal" by fact
  have p: "path ?m = [SProvider, SWalletChoice, SWalletImport, SWalletBalance, SGonkaModels, STelegram, SEmail, SFinish]"
    using st' md assms(2) by (simp only: path_def) (simp add: buildPath_def buildFullPath_def Let_def)
  then have "index_of SWalletReveal (path ?m) = None" by (simp only: p) (simp add: index_of_def find_index_None)
  then have c: "currentIdx ?m = 0" using st'(1) id by (simp only: currentIdx_def or_else_def option.case)
  have "admissible wizard_offered wizard_step [CreateStart, Back, SelectWalletMode ImportWallet, CreateEnd (Inr w)] m"
    using assms cb b by (simp add: canBack_def on_form_def onWalletModeSelect_def on_state_def) (simp add: submit_begin_def)
  moreover have "stepId (goNext ?m) = SWalletChoice" by (simp only: goNext_def c p) (simp add: at_def goTo_def Let_def)
  ultimately show ?thesis unfolding Let_def by (simp only: id p c canBack_def) simp
qed

definition at_create :: wizard where
  "at_create = run_steps wizard_step [Loaded sample_config (Some sample_gonka), Next, Next] (wizard_start FullMode)"

theorem late_wallet_leaves_the_path_witness:
  "stepId (run_steps wizard_step [CreateStart, Back, SelectWalletMode ImportWallet, CreateEnd (Inr sample_wallet)] at_create) = SWalletReveal"
proof -
  have "wm_state at_create = Some (buildInitialState sample_config ''https://d'')" "wm_mode at_create = FullMode"
    "stepId at_create = SWalletCreate" "inferenced at_create" "\<not> submitting at_create"
    by (simp_all add: at_create_def wizard_evals Let_def)
  moreover have "provider (buildInitialState sample_config ''https://d'') \<noteq> ''openai''"
    "walletMode (buildInitialState sample_config ''https://d'') = CreateWallet" "canCreate True (buildInitialState sample_config ''https://d'')" by code_simp+
  ultimately show ?thesis using late_wallet_leaves_the_path [of at_create "buildInitialState sample_config ''https://d''" sample_wallet] by (simp add: Let_def)
qed

text \<open>The list of models a request brings is used whatever provider is chosen when it comes: if
  the user switches the provider while the request runs, which empties the list and the model row,
  the other provider's first model is filled in as the chat model and the list is shown.\<close>

theorem late_models_fill_the_wrong_provider:
  assumes "wm_state m = Some st" and "provider st \<noteq> p" and "models \<noteq> []"
  shows "let m' = run_steps wizard_step [SelectProvider p, ModelsEnd (Inr models)] m in
    availableModels m' = Some models
    \<and> map_option provider (wm_state m') = Some p
    \<and> map_option modelRows (wm_state m') = Some [\<lparr>mr_name = hd models, mr_role = RoleChat\<rparr>]"
  using assms by (simp add: onProviderSelect_def loadModels_end_def on_state_def autoFillFirstModel_def empty_row_def Let_def)

theorem late_models_fill_the_wrong_provider_witness:
  "map_option modelRows (wm_state (run_steps wizard_step [SelectProvider ''openai'', ModelsEnd (Inr [''m9''])] at_create))
    = Some [\<lparr>mr_name = ''m9'', mr_role = RoleChat\<rparr>]"
proof -
  have "wm_state at_create = Some (buildInitialState sample_config ''https://d'')"
    by (simp add: at_create_def wizard_evals Let_def)
  moreover have "provider (buildInitialState sample_config ''https://d'') \<noteq> ''openai''" by code_simp
  ultimately show ?thesis using late_models_fill_the_wrong_provider [of at_create _ "''openai''" "[''m9'']"] by (simp add: Let_def)
qed

end
