(* ===== verification/CronDescribe.thy ===== *)
theory CronDescribe
  imports JsPrelude
begin

text \<open>
  The plain text of a cron schedule, \<open>frontend/src/lib/cron.ts\<close>. Numbers are unbounded here; the
  source reads them as JavaScript numbers, which agree for schedules a clock can have.
\<close>

section \<open>The source's functions\<close>

definition DAY_NAMES :: "string list" where
  "DAY_NAMES = [''Sun'', ''Mon'', ''Tue'', ''Wed'', ''Thu'', ''Fri'', ''Sat'']"

definition DAY_FULL :: "string list" where
  "DAY_FULL = [''Sunday'', ''Monday'', ''Tuesday'', ''Wednesday'', ''Thursday'', ''Friday'', ''Saturday'']"

definition MONTH_FULL :: "string list" where
  "MONTH_FULL = [''January'', ''February'', ''March'', ''April'', ''May'', ''June'',
     ''July'', ''August'', ''September'', ''October'', ''November'', ''December'']"

definition pad2 :: "nat \<Rightarrow> string" where
  "pad2 n = pad_start 2 CHR ''0'' (nat_str n)"

text \<open>The regular expressions \<open>^[0-6]$\<close> and \<open>^[0-6](,[0-6])+$\<close>, the second on the split text.\<close>

definition is_day :: "string \<Rightarrow> bool" where
  "is_day s \<longleftrightarrow> length s = 1 \<and> list_all (\<lambda>c. c \<in> set ''0123456'') s"

definition is_day_list :: "string \<Rightarrow> bool" where
  "is_day_list s \<longleftrightarrow> 2 \<le> length (split_on CHR '','' s) \<and> list_all is_day (split_on CHR '','' s)"

definition is_any :: "string \<Rightarrow> bool" where
  "is_any s \<longleftrightarrow> s = ''*'' \<or> s = ''?''"

definition describeDayOfWeek :: "string \<Rightarrow> string option" where
  "describeDayOfWeek dow =
     (if is_any dow then None
      else if dow = ''1-5'' \<or> dow = ''MON-FRI'' then Some ''on weekdays''
      else if dow \<in> {''0,6'', ''6,0'', ''SAT,SUN'', ''SUN,SAT''} then Some ''on weekends''
      else if is_day dow then Some (''on '' @ DAY_FULL ! digits_val dow)
      else if is_day_list dow
        then Some (''on '' @ join '', '' (map (\<lambda>d. DAY_NAMES ! digits_val d) (split_on CHR '','' dow)))
      else None)"

definition day_suffix :: "nat \<Rightarrow> string" where
  "day_suffix n = (if n = 1 \<or> n = 21 \<or> n = 31 then ''st''
     else if n = 2 \<or> n = 22 then ''nd''
     else if n = 3 \<or> n = 23 then ''rd''
     else ''th'')"

definition describeDayOfMonth :: "string \<Rightarrow> string option" where
  "describeDayOfMonth dm =
     (if is_any dm then None
      else if all_digits dm then (let n = digits_val dm in Some (''on the '' @ nat_str n @ day_suffix n))
      else None)"

definition describeMonth :: "string \<Rightarrow> string option" where
  "describeMonth mon =
     (if is_any mon then None
      else if all_digits mon then
        (let n = digits_val mon in if 1 \<le> n \<and> n \<le> 12 then Some (''in '' @ MONTH_FULL ! (n - 1)) else None)
      else None)"

definition capitalize :: "string \<Rightarrow> string" where
  "capitalize s = (case s of [] \<Rightarrow> [] | c # r \<Rightarrow> to_upper c # r)"

text \<open>\<open>s.replace(/^p/, q)\<close> for a plain text \<open>p\<close>.\<close>

definition replace_start :: "string \<Rightarrow> string \<Rightarrow> string \<Rightarrow> string" where
  "replace_start p q s = (if starts_with p s then q @ drop (length p) s else s)"

text \<open>\<open>s.match(/^\*\/(\d+)$/)\<close>\<close>

definition step_match :: "string \<Rightarrow> nat option" where
  "step_match s = (if starts_with ''*/'' s \<and> all_digits (drop 2 s) then Some (digits_val (drop 2 s)) else None)"

definition time_text :: "nat \<Rightarrow> nat \<Rightarrow> string" where
  "time_text h m = pad2 h @ '':'' @ pad2 m @ '' UTC''"

text \<open>The branch for a minute and an hour that are numbers.\<close>

definition describe_time :: "string \<Rightarrow> string \<Rightarrow> string \<Rightarrow> string \<Rightarrow> string \<Rightarrow> string \<Rightarrow> string" where
  "describe_time expr mi ho dm mon dow =
     (let time = time_text (digits_val ho) (digits_val mi); dowDesc = describeDayOfWeek dow;
          domDesc = describeDayOfMonth dm; monDesc = describeMonth mon in
      if dm = ''*'' \<and> mon = ''*'' \<and> (dowDesc = None \<or> dow = ''*'') then ''Daily at '' @ time
      else if dowDesc \<noteq> None \<and> dm = ''*'' \<and> mon = ''*'' then
        replace_start ''On weekends'' ''Weekends''
          (replace_start ''On weekdays'' ''Weekdays'' (capitalize (the dowDesc) @ '' at '' @ time))
      else if domDesc \<noteq> None \<and> mon = ''*'' \<and> dow = ''*'' then ''Monthly '' @ the domDesc @ '' at '' @ time
      else if domDesc \<noteq> None \<and> monDesc \<noteq> None \<and> dow = ''*''
        then ''Yearly '' @ the monDesc @ '' '' @ the domDesc @ '' at '' @ time
      else expr)"

definition describe_parts :: "string \<Rightarrow> string \<Rightarrow> string \<Rightarrow> string \<Rightarrow> string \<Rightarrow> string \<Rightarrow> string" where
  "describe_parts expr mi ho dm mon dow =
     (let rest = dm = ''*'' \<and> mon = ''*'' \<and> dow = ''*'' in
      if mi = ''*'' \<and> ho = ''*'' \<and> rest then ''Every minute''
      else if step_match mi \<noteq> None \<and> ho = ''*'' \<and> rest then
        (let n = the (step_match mi) in if n = 1 then ''Every minute'' else ''Every '' @ nat_str n @ '' minutes'')
      else if all_digits mi \<and> step_match ho \<noteq> None \<and> rest then
        (let n = the (step_match ho) in
         if n = 1 then ''Hourly at :'' @ pad2 (digits_val mi)
         else ''Every '' @ nat_str n @ '' hours at :'' @ pad2 (digits_val mi))
      else if all_digits mi \<and> ho = ''*'' \<and> rest then ''Hourly at :'' @ pad2 (digits_val mi)
      else if all_digits mi \<and> all_digits ho then describe_time expr mi ho dm mon dow
      else expr)"

definition describeCron :: "string \<Rightarrow> string" where
  "describeCron expr =
     (if expr = [] then []
      else case split_ws (trim expr) of
          [mi, ho, dm, mon, dow] \<Rightarrow> describe_parts expr mi ho dm mon dow
        | _ \<Rightarrow> expr)"

section \<open>Schedules\<close>

text \<open>The schedules that have a text of their own, their cron expression and what a reader is to be
  told: the specification.\<close>

datatype schedule =
    EveryMinutes nat
  | EveryHours nat nat
  | HourlyAt nat
  | DailyAt nat nat
  | WeekdaysAt nat nat
  | WeekendsAt nat nat
  | DaysAt "nat list" nat nat
  | MonthlyAt nat nat nat
  | YearlyAt nat nat nat nat

fun cron_fields :: "schedule \<Rightarrow> string list" where
  "cron_fields (EveryMinutes n) = [if n = 1 then ''*'' else ''*/'' @ nat_str n, ''*'', ''*'', ''*'', ''*'']"
| "cron_fields (EveryHours n m) = [nat_str m, ''*/'' @ nat_str n, ''*'', ''*'', ''*'']"
| "cron_fields (HourlyAt m) = [nat_str m, ''*'', ''*'', ''*'', ''*'']"
| "cron_fields (DailyAt h m) = [nat_str m, nat_str h, ''*'', ''*'', ''*'']"
| "cron_fields (WeekdaysAt h m) = [nat_str m, nat_str h, ''*'', ''*'', ''1-5'']"
| "cron_fields (WeekendsAt h m) = [nat_str m, nat_str h, ''*'', ''*'', ''0,6'']"
| "cron_fields (DaysAt ds h m) = [nat_str m, nat_str h, ''*'', ''*'', join '','' (map nat_str ds)]"
| "cron_fields (MonthlyAt d h m) = [nat_str m, nat_str h, nat_str d, ''*'', ''*'']"
| "cron_fields (YearlyAt mo d h m) = [nat_str m, nat_str h, nat_str d, nat_str mo, ''*'']"

definition cron_of :: "schedule \<Rightarrow> string" where
  "cron_of s = join '' '' (cron_fields s)"

fun text_of :: "schedule \<Rightarrow> string" where
  "text_of (EveryMinutes n) = (if n = 1 then ''Every minute'' else ''Every '' @ nat_str n @ '' minutes'')"
| "text_of (EveryHours n m) = (if n = 1 then ''Hourly at :'' else ''Every '' @ nat_str n @ '' hours at :'') @ pad2 m"
| "text_of (HourlyAt m) = ''Hourly at :'' @ pad2 m"
| "text_of (DailyAt h m) = ''Daily at '' @ time_text h m"
| "text_of (WeekdaysAt h m) = ''Weekdays at '' @ time_text h m"
| "text_of (WeekendsAt h m) = ''Weekends at '' @ time_text h m"
| "text_of (DaysAt ds h m) = ''On '' @ (case ds of [d] \<Rightarrow> DAY_FULL ! d | _ \<Rightarrow> join '', '' (map ((!) DAY_NAMES) ds))
     @ '' at '' @ time_text h m"
| "text_of (MonthlyAt d h m) = ''Monthly on the '' @ nat_str d @ day_suffix d @ '' at '' @ time_text h m"
| "text_of (YearlyAt mo d h m) = ''Yearly in '' @ MONTH_FULL ! (mo - 1) @ '' on the '' @ nat_str d @ day_suffix d
     @ '' at '' @ time_text h m"

fun valid_schedule :: "schedule \<Rightarrow> bool" where
  "valid_schedule (DaysAt ds h m) \<longleftrightarrow> ds \<noteq> [] \<and> list_all (\<lambda>d. d < 7) ds \<and> ds \<noteq> [0, 6] \<and> ds \<noteq> [6, 0]"
| "valid_schedule (YearlyAt mo d h m) \<longleftrightarrow> 1 \<le> mo \<and> mo \<le> 12"
| "valid_schedule _ \<longleftrightarrow> True"

section \<open>The fields of an expression\<close>

definition is_field :: "string \<Rightarrow> bool" where
  "is_field f \<longleftrightarrow> f \<noteq> [] \<and> list_all (\<lambda>c. \<not> is_ws c) f"

lemma trimmed_join: "xs \<noteq> [] \<Longrightarrow> list_all is_field xs \<Longrightarrow> trimmed (join '' '' xs) \<and> join '' '' xs \<noteq> []"
proof (induction xs rule: induct_list012)
  case (2 x)
  then show ?case by (auto simp: trimmed_def is_field_def list_all_iff)
next
  case (3 x y zs)
  then show ?case by (auto simp: trimmed_def is_field_def list_all_iff hd_append)
qed simp

lemma split_ws_join: "xs \<noteq> [] \<Longrightarrow> list_all is_field xs \<Longrightarrow> split_ws (join '' '' xs) = xs"
proof (induction xs rule: induct_list012)
  case (2 x)
  then show ?case by (simp add: is_field_def split_ws_word)
next
  case (3 x y zs)
  have "\<not> is_ws (hd (join '' '' (y # zs)))"
    using trimmed_join [of "y # zs"] 3(4) by (auto simp: trimmed_def)
  then have "split_ws (x @ CHR '' '' # join '' '' (y # zs)) = x # split_ws (join '' '' (y # zs))"
    using 3(4) by (intro split_ws_append) (simp_all add: is_field_def)
  then show ?case using 3 by simp
qed simp

lemma describeCron_fields:
  assumes "list_all is_field [mi, ho, dm, mon, dow]" and "expr = join '' '' [mi, ho, dm, mon, dow]"
  shows "describeCron expr = describe_parts expr mi ho dm mon dow"
proof -
  have "trimmed expr" "expr \<noteq> []" using trimmed_join [of "[mi, ho, dm, mon, dow]"] assms by (simp_all only: list.distinct simp_thms)
  moreover have "split_ws expr = [mi, ho, dm, mon, dow]" using split_ws_join [of "[mi, ho, dm, mon, dow]"] assms
    by (simp only: list.distinct simp_thms)
  ultimately show ?thesis by (simp add: describeCron_def trim_id)
qed

lemma digit_not_ws: "is_digit c \<Longrightarrow> \<not> is_ws c"
  by (auto simp: is_digit_def is_ws_def)

lemma digits_not_ws: "all_digits s \<Longrightarrow> is_field s"
  using digit_not_ws by (auto simp: all_digits_def is_field_def elim!: list.pred_mono_strong)

lemma digits_field [simp]: "is_field (nat_str n)"
  by (rule digits_not_ws) (rule all_digits_nat_str)

lemma const_fields [simp]: "is_field ''*''" "is_field ''1-5''" "is_field ''0,6''"
  by (code_simp)+

lemma step_field [simp]: "is_field (CHR ''*'' # CHR ''/'' # nat_str n)"
  using digits_field [of n] by (simp add: is_field_def) (simp add: is_ws_def)

lemma digits_first: "all_digits s \<Longrightarrow> hd s \<in> set ''0123456789'' \<and> s \<noteq> []"
  by (cases s) (auto simp: all_digits_def is_digit_def)

lemma nat_str_not_star [simp]: "nat_str n \<noteq> ''*''" "nat_str n \<noteq> ''?''" "nat_str n \<noteq> []"
  using digits_first [OF all_digits_nat_str [of n]] by auto

lemma hd_nat_str: "hd (nat_str n) \<noteq> CHR ''*''"
  using digits_first [OF all_digits_nat_str [of n]] by auto

lemma step_match_simps [simp]:
  "step_match (nat_str n) = None" "step_match ''*'' = None" "step_match (CHR ''*'' # CHR ''/'' # nat_str n) = Some n"
proof -
  show "step_match (nat_str n) = None"
    using hd_nat_str [of n] by (cases "nat_str n") (auto simp: step_match_def starts_with_def)
qed (simp_all add: step_match_def starts_with_def all_digits_nat_str digits_val_nat_str)

lemma star_no_digits [simp]: "all_digits ''*'' = False" "all_digits (CHR ''*'' # CHR ''/'' # s) = False"
  by (simp_all add: all_digits_def is_digit_def)

lemmas cron_nums [simp] = all_digits_nat_str digits_val_nat_str

lemma day_names [simp]: "describeDayOfWeek ''*'' = None" "describeDayOfWeek ''1-5'' = Some ''on weekdays''"
  "describeDayOfWeek ''0,6'' = Some ''on weekends''"
  by code_simp+

section \<open>Days of the week\<close>

lemma nat_str_digit: "d < 10 \<Longrightarrow> nat_str d = [digit_char d]"
  by (simp add: nat_str.simps)

lemma day_chars: "\<forall>d \<in> set [0..<7]. is_day (nat_str d) \<and> CHR '','' \<notin> set (nat_str d)
    \<and> describeDayOfWeek (nat_str d) = Some (''on '' @ DAY_FULL ! d)"
  by code_simp

lemma day_char: "d < 7 \<Longrightarrow> is_day (nat_str d) \<and> CHR '','' \<notin> set (nat_str d)
    \<and> describeDayOfWeek (nat_str d) = Some (''on '' @ DAY_FULL ! d)"
  using day_chars by simp

lemma days_split: "ds \<noteq> [] \<Longrightarrow> list_all (\<lambda>d. d < 7) ds \<Longrightarrow> split_on CHR '','' (join '','' (map nat_str ds)) = map nat_str ds"
  using day_char by (intro split_on_join) (auto simp: list_all_iff)

lemma describe_days:
  assumes "list_all (\<lambda>d. d < 7) ds" and "2 \<le> length ds" and "ds \<noteq> [0, 6]" "ds \<noteq> [6, 0]"
  shows "describeDayOfWeek (join '','' (map nat_str ds)) = Some (''on '' @ join '', '' (map ((!) DAY_NAMES) ds))"
proof -
  let ?s = "join '','' (map nat_str ds)"
  have sp: "split_on CHR '','' ?s = map nat_str ds" using assms(1,2) by (intro days_split) auto
  have days: "list_all is_day (map nat_str ds)" using assms(1) day_char by (auto simp: list_all_iff)
  have one: "length (split_on CHR '','' ?s) \<noteq> 1" using assms(2) by (simp add: sp)
  have alt: "?s \<noteq> t" if "length (split_on CHR '','' t) = 1" for t using one that by auto
  have ne: "\<not> is_any ?s" "?s \<noteq> ''1-5''" "?s \<noteq> ''MON-FRI''"
    using alt [of "''*''"] alt [of "''?''"] alt [of "''1-5''"] alt [of "''MON-FRI''"] by (simp_all add: is_any_def)
  have "\<not> is_day ?s"
  proof
    assume day: "is_day ?s"
    then obtain c where c: "?s = [c]" by (auto simp: is_day_def length_Suc_conv)
    with day have "c \<noteq> CHR '',''" by (auto simp: is_day_def)
    then show False using alt [of "[c]"] c by simp
  qed
  moreover have pair: "?s \<noteq> t" if "split_on CHR '','' t = map nat_str es" "es = [0, 6] \<or> es = [6, 0]" for t es
  proof
    assume "?s = t"
    then have "map nat_str ds = map nat_str es" using sp that(1) by simp
    then have "ds = es" by (metis inj_map_eq_map inj_def nat_str_inject)
    then show False using assms(3,4) that(2) by blast
  qed
  have "split_on CHR '','' ''0,6'' = map nat_str [0, 6]" "split_on CHR '','' ''6,0'' = map nat_str [6, 0]" by code_simp+
  then have "?s \<noteq> ''0,6''" "?s \<noteq> ''6,0''" using pair by blast+
  moreover have nd: "?s \<noteq> t" if "\<not> list_all is_day (split_on CHR '','' t)" for t using that days sp by metis
  have "?s \<noteq> ''SAT,SUN''" by (rule nd) code_simp
  moreover have "?s \<noteq> ''SUN,SAT''" by (rule nd) code_simp
  ultimately have "\<not> is_day ?s" "?s \<notin> {''0,6'', ''6,0'', ''SAT,SUN'', ''SUN,SAT''}" by blast+
  moreover have "is_day_list ?s" using sp days assms(2) by (simp add: is_day_list_def)
  ultimately show ?thesis using ne sp by (simp add: describeDayOfWeek_def comp_def)
qed

section \<open>The text of a schedule\<close>

lemma upper_o: "to_upper CHR ''o'' = CHR ''O''"
  by code_simp

lemma month_text: "1 \<le> mo \<Longrightarrow> mo \<le> 12 \<Longrightarrow> describeMonth (nat_str mo) = Some (''in '' @ MONTH_FULL ! (mo - 1))"
  by (simp add: describeMonth_def is_any_def)

lemma day_of_month_text: "describeDayOfMonth (nat_str d) = Some (''on the '' @ nat_str d @ day_suffix d)"
  by (simp add: describeDayOfMonth_def is_any_def Let_def)

lemma days_field:
  assumes "ds \<noteq> []" and "list_all (\<lambda>d. d < 7) ds"
  shows "is_field (join '','' (map nat_str ds))" and "join '','' (map nat_str ds) \<noteq> ''*''"
proof -
  show "is_field (join '','' (map nat_str ds))" using assms(1)
  proof (induction ds rule: induct_list012)
    case (3 x y zs)
    then show ?case using digits_field [of x] by (simp add: is_field_def) (simp add: is_ws_def)
  qed simp_all
  have "hd (join '','' (map nat_str ds)) = hd (nat_str (hd ds))"
    using assms(1) by (cases ds rule: remdups_adj.cases) simp_all
  then show "join '','' (map nat_str ds) \<noteq> ''*''" using hd_nat_str [of "hd ds"] by auto
qed

lemma week_text:
  assumes "ds \<noteq> []" and "list_all (\<lambda>d. d < 7) ds" and "ds \<noteq> [0, 6]" "ds \<noteq> [6, 0]"
  shows "describeDayOfWeek (join '','' (map nat_str ds)) = Some (''on '' @ (case ds of [d] \<Rightarrow> DAY_FULL ! d | _ \<Rightarrow> join '', '' (map ((!) DAY_NAMES) ds)))"
proof (cases "length ds = 1")
  case True
  then obtain d where "ds = [d]" by (auto simp: length_Suc_conv)
  with assms(2) day_char show ?thesis by simp
next
  case False
  with assms(1) have "2 \<le> length ds" by (cases ds) (auto simp: Suc_le_eq)
  with assms describe_days have "describeDayOfWeek (join '','' (map nat_str ds)) = Some (''on '' @ join '', '' (map ((!) DAY_NAMES) ds))" by blast
  with False show ?thesis by (auto split: list.split)
qed

lemma on_days_start: "replace_start ''On weekends'' q (replace_start ''On weekdays'' p (''On '' @ t)) = ''On '' @ t"
  if "t \<noteq> []" and "hd t \<noteq> CHR ''w''" for t
  using that by (cases t) (simp_all add: replace_start_def starts_with_def)

lemma describe_step:
  assumes "is_field a" "is_field b" "expr = join '' '' [a, b, ''*'', ''*'', ''*'']"
  shows "describeCron expr = describe_parts expr a b ''*'' ''*'' ''*''"
  using describeCron_fields [of a b "''*''" "''*''" "''*''"] assms by simp

lemma day_name_start: "d < 7 \<Longrightarrow> DAY_FULL ! d \<noteq> [] \<and> hd (DAY_FULL ! d) \<noteq> CHR ''w'' \<and> DAY_NAMES ! d \<noteq> [] \<and> hd (DAY_NAMES ! d) \<noteq> CHR ''w''"
proof -
  have "\<forall>d \<in> set [0..<7]. DAY_FULL ! d \<noteq> [] \<and> hd (DAY_FULL ! d) \<noteq> CHR ''w'' \<and> DAY_NAMES ! d \<noteq> [] \<and> hd (DAY_NAMES ! d) \<noteq> CHR ''w''"
    by code_simp
  then show "d < 7 \<Longrightarrow> ?thesis" by simp
qed

lemma week_names_start:
  assumes "ds \<noteq> []" and "list_all (\<lambda>d. d < 7) ds"
  shows "(case ds of [d] \<Rightarrow> DAY_FULL ! d | _ \<Rightarrow> join '', '' (map ((!) DAY_NAMES) ds)) \<noteq> []
    \<and> hd (case ds of [d] \<Rightarrow> DAY_FULL ! d | _ \<Rightarrow> join '', '' (map ((!) DAY_NAMES) ds)) \<noteq> CHR ''w''"
  using assms day_name_start by (cases ds rule: remdups_adj.cases) auto

text \<open>C31: Every schedule of the supported forms - every so many minutes, every so many hours, hourly, daily, on
  weekdays, at weekends, on chosen days of the week, monthly, yearly - printed as a cron expression is
  described by the text that says so: the days by name in the order given, the hour and the minute with
  two digits.\<close>

theorem describeCron_says_the_schedule:
  assumes "valid_schedule s"
  shows "describeCron (cron_of s) = text_of s"
proof (cases s)
  case (EveryMinutes n)
  then show ?thesis
    using describe_step [of "if n = 1 then ''*'' else ''*/'' @ nat_str n" "''*''" "cron_of s"]
    by (simp add: cron_of_def describe_parts_def split: if_splits)
next
  case (EveryHours n m)
  then show ?thesis
    using describe_step [of "nat_str m" "''*/'' @ nat_str n" "cron_of s"]
    by (simp add: cron_of_def describe_parts_def Let_def)
next
  case (HourlyAt m)
  then show ?thesis
    using describe_step [of "nat_str m" "''*''" "cron_of s"] by (simp add: cron_of_def describe_parts_def Let_def)
next
  case (DailyAt h m)
  then show ?thesis
    using describe_step [of "nat_str m" "nat_str h" "cron_of s"] by (simp add: cron_of_def describe_parts_def describe_time_def Let_def)
next
  case (WeekdaysAt h m)
  then show ?thesis
    using describeCron_fields [of "nat_str m" "nat_str h" "''*''" "''*''" "''1-5''" "cron_of s"]
    by (simp add: cron_of_def describe_parts_def describe_time_def Let_def capitalize_def replace_start_def starts_with_def upper_o)
next
  case (WeekendsAt h m)
  then show ?thesis
    using describeCron_fields [of "nat_str m" "nat_str h" "''*''" "''*''" "''0,6''" "cron_of s"]
    by (simp add: cron_of_def describe_parts_def describe_time_def Let_def capitalize_def replace_start_def starts_with_def upper_o)
next
  case (DaysAt ds h m)
  let ?w = "join '','' (map nat_str ds)" let ?t = "case ds of [d] \<Rightarrow> DAY_FULL ! d | _ \<Rightarrow> join '', '' (map ((!) DAY_NAMES) ds)"
  have ds: "ds \<noteq> []" "list_all (\<lambda>d. d < 7) ds" "ds \<noteq> [0, 6]" "ds \<noteq> [6, 0]" using assms DaysAt by simp_all
  have cap: "capitalize (''on '' @ ?t) = ''On '' @ ?t" by (simp add: capitalize_def upper_o)
  have "replace_start ''On weekends'' ''Weekends'' (replace_start ''On weekdays'' ''Weekdays'' (''On '' @ ?t @ '' at '' @ time_text h m))
      = ''On '' @ ?t @ '' at '' @ time_text h m"
    using week_names_start [OF ds(1,2)] by (intro on_days_start) simp_all
  then have "describe_time (cron_of s) (nat_str m) (nat_str h) ''*'' ''*'' ?w = text_of s"
    using days_field [OF ds(1,2)] cap by (simp add: DaysAt describe_time_def Let_def week_text [OF ds])
  then show ?thesis
    using describeCron_fields [of "nat_str m" "nat_str h" "''*''" "''*''" ?w "cron_of s"] days_field [OF ds(1,2)]
    by (simp add: cron_of_def describe_parts_def DaysAt Let_def)
next
  case (MonthlyAt d h m)
  then show ?thesis
    using describeCron_fields [of "nat_str m" "nat_str h" "nat_str d" "''*''" "''*''" "cron_of s"]
    by (simp add: cron_of_def describe_parts_def describe_time_def Let_def day_of_month_text)
next
  case (YearlyAt mo d h m)
  then show ?thesis
    using describeCron_fields [of "nat_str m" "nat_str h" "nat_str d" "nat_str mo" "''*''" "cron_of s"] assms
    by (simp add: cron_of_def describe_parts_def describe_time_def Let_def day_of_month_text month_text)
qed

theorem describeCron_says_the_schedule_witness:
  "describeCron ''30 9 * * 1,3'' = ''On Mon, Wed at 09:30 UTC''"
proof -
  have "cron_of (DaysAt [1, 3] 9 30) = ''30 9 * * 1,3''" "text_of (DaysAt [1, 3] 9 30) = ''On Mon, Wed at 09:30 UTC''"
    "valid_schedule (DaysAt [1, 3] 9 30)" by code_simp+
  then show ?thesis using describeCron_says_the_schedule [of "DaysAt [1, 3] 9 30"] by simp
qed

text \<open>A day-of-week field that the description does not know is dropped, not shown: with a minute and an hour
  given and the rest open, the schedule is called daily whatever days it runs on, for instance
  \<open>MON\<close>, \<open>1-3\<close> or \<open>7\<close>.\<close>

theorem unknown_days_are_called_daily:
  assumes "is_field dow" and "describeDayOfWeek dow = None"
  shows "describeCron (join '' '' [nat_str m, nat_str h, ''*'', ''*'', dow]) = text_of (DailyAt h m)"
  using describeCron_fields [of "nat_str m" "nat_str h" "''*''" "''*''" dow] assms
  by (simp add: describe_parts_def describe_time_def Let_def)

theorem unknown_days_are_called_daily_witness:
  "describeCron ''0 9 * * 1-3'' = ''Daily at 09:00 UTC''"
proof -
  have "is_field ''1-3''" "describeDayOfWeek ''1-3'' = None" "join '' '' [nat_str 0, nat_str 9, ''*'', ''*'', ''1-3''] = ''0 9 * * 1-3''"
    "text_of (DailyAt 9 0) = ''Daily at 09:00 UTC''" by code_simp+
  then show ?thesis using unknown_days_are_called_daily [of "''1-3''" 0 9] by (simp only:)
qed

end
