(* ===== verification/PlanParams.thy ===== *)
theory PlanParams
  imports Interfaces JsNumbers
begin

text \<open>
  The parameters of a plan: the editor of the schema (\<open>components/ParameterEditor.tsx\<close>), the buttons
  that put a parameter into a prompt (\<open>components/ParamButtons.tsx\<close>), and the form that reads the
  inputs of a run (\<open>components/plans/PlanRuns.tsx\<close>). A schema is the part of the JSON object that these
  read: its properties in the order \<open>Object.entries\<close> lists them, and the list of required names.
\<close>

section \<open>Objects\<close>

text \<open>Keys that are array indices come first, in numeric order; the others in the order they were set.\<close>

definition is_index :: "string \<Rightarrow> bool" where
  "is_index k \<longleftrightarrow> all_digits k \<and> (k = ''0'' \<or> hd k \<noteq> CHR ''0'') \<and> digits_val k < 2 ^ 32 - 1"

definition goes_before :: "string \<Rightarrow> string \<Rightarrow> bool" where
  "goes_before k j \<longleftrightarrow> is_index k \<and> (is_index j \<longrightarrow> digits_val k < digits_val j)"

definition obj_put :: "string \<Rightarrow> 'v \<Rightarrow> (string \<times> 'v) list \<Rightarrow> (string \<times> 'v) list" where
  "obj_put k v o' =
     (if k \<in> fst ` set o' then map (\<lambda>p. if fst p = k then (k, v) else p) o'
      else takeWhile (\<lambda>p. \<not> goes_before k (fst p)) o' @ (k, v) # dropWhile (\<lambda>p. \<not> goes_before k (fst p)) o')"

section \<open>The schema editor\<close>

datatype param_type = TString | TNumber | TInteger | TBoolean

fun type_name :: "param_type \<Rightarrow> string" where
  "type_name TString = ''string''"
| "type_name TNumber = ''number''"
| "type_name TInteger = ''integer''"
| "type_name TBoolean = ''boolean''"

definition paramTypes :: "param_type list" where
  "paramTypes = [TString, TNumber, TInteger, TBoolean]"

record param =
  pr_name :: string
  pr_type :: param_type
  pr_description :: string
  pr_required :: bool

record prop_schema =
  ps_type :: "string option"
  ps_description :: "string option"

record schema =
  sc_properties :: "(string \<times> prop_schema) list option"
  sc_required :: "string list option"

definition fromSchema :: "schema \<Rightarrow> param list" where
  "fromSchema s =
     (let req = or_else (sc_required s) [] in
      map (\<lambda>(name, p). \<lparr>pr_name = name,
          pr_type = or_else (find (\<lambda>t. ps_type p = Some (type_name t)) paramTypes) TString,
          pr_description = or_else (ps_description p) [], pr_required = name \<in> set req\<rparr>)
        (or_else (sc_properties s) []))"

fun schema_fold :: "param list \<Rightarrow> (string \<times> prop_schema) list \<times> string list \<Rightarrow> (string \<times> prop_schema) list \<times> string list" where
  "schema_fold [] acc = acc"
| "schema_fold (p # ps) (properties, required) =
     (let key = trim (pr_name p) in
      if key = [] then schema_fold ps (properties, required)
      else schema_fold ps
        (obj_put key \<lparr>ps_type = Some (type_name (pr_type p)), ps_description = Some (pr_description p)\<rparr> properties,
         if pr_required p then required @ [key] else required))"

definition toSchema :: "param list \<Rightarrow> schema" where
  "toSchema ps =
     (let r = schema_fold ps ([], []) in
      \<lparr>sc_properties = Some (fst r), sc_required = (if snd r \<noteq> [] then Some (snd r) else None)\<rparr>)"

text \<open>The editor keeps its own rows; every change sets them and hands the schema on.\<close>

record param_editor =
  pe_params :: "param list"
  pe_schema :: schema

definition editor_open :: "schema \<Rightarrow> param_editor" where
  "editor_open s = \<lparr>pe_params = fromSchema s, pe_schema = s\<rparr>"

definition emit :: "param list \<Rightarrow> param_editor \<Rightarrow> param_editor" where
  "emit nxt e = e\<lparr>pe_params := nxt, pe_schema := toSchema nxt\<rparr>"

definition add_param :: "param_editor \<Rightarrow> param_editor" where
  "add_param e = emit (pe_params e @ [\<lparr>pr_name = [], pr_type = TString, pr_description = [], pr_required = False\<rparr>]) e"

definition update_param :: "nat \<Rightarrow> (param \<Rightarrow> param) \<Rightarrow> param_editor \<Rightarrow> param_editor" where
  "update_param i f e = emit (if i < length (pe_params e) then (pe_params e)[i := f (pe_params e ! i)] else pe_params e) e"

definition remove_param :: "nat \<Rightarrow> param_editor \<Rightarrow> param_editor" where
  "remove_param i e = emit (remove_at i (pe_params e)) e"

text \<open>What may be typed as a name: \<open>replace(/[^a-zA-Z0-9_]/g, '')\<close>.\<close>

definition clean_name :: "string \<Rightarrow> string" where
  "clean_name = filter is_word"

section \<open>Parameter buttons\<close>

definition param_names :: "schema \<Rightarrow> string list" where
  "param_names s = map fst (or_else (sc_properties s) [])"

definition param_snippet :: "string \<Rightarrow> string" where
  "param_snippet name = ''{{.'' @ name @ ''}}''"

text \<open>\<open>insertAtCursor\<close>: the selection is \<open>None\<close> without a text field; the result is the text and the
  caret that is set afterwards. \<open>slice\<close> is \<open>take\<close> and \<open>drop\<close>.\<close>

definition insertAtCursor :: "(nat option \<times> nat option) option \<Rightarrow> string \<Rightarrow> string \<Rightarrow> string \<times> nat option" where
  "insertAtCursor el snippet currentValue =
     (case el of
        None \<Rightarrow> (currentValue @ snippet, None)
      | Some (selStart, selEnd) \<Rightarrow>
          (let s = or_else selStart (length currentValue); e = or_else selEnd s
           in (take s currentValue @ snippet @ drop e currentValue, Some (s + length snippet))))"

section \<open>The inputs of a run\<close>

record param_def =
  pd_name :: string
  pd_type :: string
  pd_description :: string

definition extractParams :: "schema \<Rightarrow> param_def list" where
  "extractParams s = map (\<lambda>(name, p). \<lparr>pd_name = name, pd_type = or_else (ps_type p) ''string'',
      pd_description = or_else (ps_description p) []\<rparr>) (or_else (sc_properties s) [])"

datatype input_value = InNumber js_number | InBool bool | InText string

definition input_value_of :: "param_def \<Rightarrow> string \<Rightarrow> input_value" where
  "input_value_of p raw =
     (if pd_type p = ''number'' \<or> pd_type p = ''integer'' then InNumber (number_or_zero (js_Number raw))
      else if pd_type p = ''boolean'' then InBool (raw = ''true'')
      else InText raw)"

text \<open>\<open>handleRunClick\<close> fills the form with empty texts; \<open>submitInput\<close> reads it.\<close>

definition run_defaults :: "param_def list \<Rightarrow> (string \<times> string) list" where
  "run_defaults ps = foldl (\<lambda>o' p. obj_put (pd_name p) [] o') [] ps"

definition submitInput :: "param_def list \<Rightarrow> (string \<Rightarrow> string option) \<Rightarrow> (string \<times> input_value) list" where
  "submitInput ps inputValues =
     foldl (\<lambda>o' p. obj_put (pd_name p) (input_value_of p (or_else (inputValues (pd_name p)) [])) o') [] ps"

section \<open>A schema through its editor\<close>

lemma obj_put_snoc:
  assumes "k \<notin> fst ` set o'" and "\<not> is_index k"
  shows "obj_put k v o' = o' @ [(k, v)]"
proof -
  have "\<not> goes_before k j" for j using assms(2) by (simp add: goes_before_def)
  then show ?thesis using assms(1) by (simp add: obj_put_def takeWhile_eq_all_conv [THEN iffD2] dropWhile_eq_Nil_conv [THEN iffD2])
qed

definition plain_param :: "param \<Rightarrow> bool" where
  "plain_param p \<longleftrightarrow> pr_name p \<noteq> [] \<and> trimmed (pr_name p) \<and> \<not> is_index (pr_name p)"

definition prop_of :: "param \<Rightarrow> string \<times> prop_schema" where
  "prop_of p = (pr_name p, \<lparr>ps_type = Some (type_name (pr_type p)), ps_description = Some (pr_description p)\<rparr>)"

lemma schema_fold_plain:
  "list_all plain_param ps \<Longrightarrow> distinct (map fst os @ map pr_name ps) \<Longrightarrow>
    schema_fold ps (os, req) = (os @ map prop_of ps, req @ map pr_name (filter pr_required ps))"
proof (induction ps arbitrary: os req)
  case (Cons p ps)
  have "trim (pr_name p) = pr_name p" "pr_name p \<noteq> []" "\<not> is_index (pr_name p)"
    using Cons.prems(1) by (simp_all add: plain_param_def trim_id)
  moreover have "pr_name p \<notin> fst ` set os" using Cons.prems(2) by (auto simp: image_iff)
  moreover have "distinct (map fst (os @ [prop_of p]) @ map pr_name ps)" using Cons.prems(2) by (auto simp: prop_of_def)
  ultimately show ?case using Cons.IH [of "os @ [prop_of p]"] Cons.prems(1) by (simp add: obj_put_snoc Let_def prop_of_def)
qed simp

lemma find_type: "find (\<lambda>t. type_name ty = type_name t) paramTypes = Some ty"
  by (cases ty) (simp_all add: paramTypes_def)

lemma required_iff: "distinct (map pr_name ps) \<Longrightarrow> p \<in> set ps \<Longrightarrow> pr_name p \<in> pr_name ` {q \<in> set ps. pr_required q} \<longleftrightarrow> pr_required p"
  by (auto simp: distinct_map inj_on_def)

lemma schema_roundtrip:
  assumes "list_all plain_param ps" and "distinct (map pr_name ps)"
  shows "fromSchema (toSchema ps) = ps"
proof -
  have "schema_fold ps ([], []) = (map prop_of ps, map pr_name (filter pr_required ps))"
    using schema_fold_plain [of ps "[]" "[]"] assms by simp
  then have "fromSchema (toSchema ps) = map (\<lambda>p. \<lparr>pr_name = pr_name p, pr_type = pr_type p, pr_description = pr_description p,
      pr_required = pr_name p \<in> pr_name ` {q \<in> set ps. pr_required q}\<rparr>) ps"
    by (auto simp: fromSchema_def toSchema_def Let_def or_else_def prop_of_def find_type image_iff filter_empty_conv)
  also have "\<dots> = map (\<lambda>p. p) ps"
    by (rule map_cong [OF refl]) (simp add: required_iff [OF assms(2)])
  finally show ?thesis by simp
qed

interpretation params: codec toSchema "\<lambda>s. Some (fromSchema s)" "\<lambda>ps. list_all plain_param ps \<and> distinct (map pr_name ps)"
  by unfold_locales (simp add: schema_roundtrip)

text \<open>The parameters of a plan survive the schema: rows with different names that are not blank, not
  padded with spaces and not plain numbers come back from the schema they are stored as, in order,
  with type, description and whether they are required; two such lists with one schema are
  the same list.\<close>

theorem parameters_roundtrip:
  assumes "list_all plain_param ps" and "distinct (map pr_name ps)"
    and "list_all plain_param qs" and "distinct (map pr_name qs)"
  shows "fromSchema (toSchema ps) = ps \<and> (toSchema ps = toSchema qs) = (ps = qs)"
  using schema_roundtrip [OF assms(1,2)] params.enc_inject [of ps qs] assms by simp

definition sample_params :: "param list" where
  "sample_params = [\<lparr>pr_name = ''env'', pr_type = TString, pr_description = ''target'', pr_required = True\<rparr>,
     \<lparr>pr_name = ''n'', pr_type = TInteger, pr_description = [], pr_required = False\<rparr>]"

theorem parameters_roundtrip_witness: "fromSchema (toSchema sample_params) = sample_params"
proof -
  have "list_all plain_param sample_params" "distinct (map pr_name sample_params)" by code_simp+
  then show ?thesis using parameters_roundtrip [of sample_params sample_params] by simp
qed

end
