(* ===== verification/PlanGraph.thy ===== *)
theory PlanGraph
  imports Interfaces JsNumbers
begin

text \<open>
  Plans and their graphs: the plan's data (\<open>frontend/src/types.ts\<close>) and its conversion from and to
  the nodes and edges of the React Flow canvas (\<open>components/plans/PlanFlowNodes.tsx\<close>). Of a canvas
  node and edge only the fields the source sets are kept; positions are rational numbers.
\<close>

section \<open>Data\<close>

datatype node_kind = ActionKind | DecisionKind

datatype step_state = StepPending | StepRunning | StepCompleted | StepFailed | StepSkipped

record plan_node =
  pn_id :: string
  pn_type :: node_kind
  pn_label :: string
  pn_prompt :: string
  pn_x :: rat
  pn_y :: rat
  pn_clearContext :: "bool option"
  pn_maxRetries :: "int option"

record plan_edge =
  pg_id :: string
  pg_source :: string
  pg_target :: string
  pg_label :: string

record plan_graph =
  gr_nodes :: "plan_node list"
  gr_edges :: "plan_edge list"

text \<open>The data a canvas node carries; a field that was never set is \<open>None\<close>.\<close>

record flow_node =
  fn_id :: string
  fn_type :: "node_kind option"
  fn_x :: rat
  fn_y :: rat
  fn_label :: "string option"
  fn_prompt :: "string option"
  fn_clearContext :: "bool option"
  fn_maxRetries :: "int option"
  fn_status :: "step_state option"

record flow_edge =
  fe_id :: string
  fe_source :: string
  fe_target :: string
  fe_sourceHandle :: "string option"
  fe_label :: "string option"
  fe_color :: string

section \<open>Conversions\<close>

definition edgeColor :: "string \<Rightarrow> string" where
  "edgeColor label =
     (if label = ''no'' then ''#f87171'' else if label = ''yes'' then ''#34d399'' else ''#71717a'')"

text \<open>\<open>s || undefined\<close> and \<open>x || d\<close> on a value that may be missing.\<close>

definition or_undef :: "string \<Rightarrow> string option" where
  "or_undef s = (if s = [] then None else Some s)"

definition str_or_empty :: "string option \<Rightarrow> string" where
  "str_or_empty x = (case x of None \<Rightarrow> [] | Some s \<Rightarrow> s)"

definition bool_or_false :: "bool option \<Rightarrow> bool" where
  "bool_or_false x = (case x of None \<Rightarrow> False | Some b \<Rightarrow> b)"

definition int_or_zero :: "int option \<Rightarrow> int" where
  "int_or_zero x = (case x of None \<Rightarrow> 0 | Some i \<Rightarrow> i)"

definition to_flow_node :: "(string \<Rightarrow> step_state option) \<Rightarrow> plan_node \<Rightarrow> flow_node" where
  "to_flow_node statuses n =
     \<lparr>fn_id = pn_id n, fn_type = Some (pn_type n), fn_x = pn_x n, fn_y = pn_y n,
      fn_label = Some (pn_label n), fn_prompt = Some (pn_prompt n),
      fn_clearContext = pn_clearContext n, fn_maxRetries = pn_maxRetries n, fn_status = statuses (pn_id n)\<rparr>"

definition toFlowNodes :: "plan_node list \<Rightarrow> (string \<Rightarrow> step_state option) \<Rightarrow> flow_node list" where
  "toFlowNodes planNodes statuses = map (to_flow_node statuses) planNodes"

definition to_flow_edge :: "plan_edge \<Rightarrow> flow_edge" where
  "to_flow_edge e =
     \<lparr>fe_id = pg_id e, fe_source = pg_source e, fe_target = pg_target e, fe_sourceHandle = or_undef (pg_label e),
      fe_label = or_undef (pg_label e), fe_color = edgeColor (pg_label e)\<rparr>"

definition toFlowEdges :: "plan_edge list \<Rightarrow> flow_edge list" where
  "toFlowEdges = map to_flow_edge"

definition from_flow_node :: "flow_node \<Rightarrow> plan_node" where
  "from_flow_node n =
     \<lparr>pn_id = fn_id n, pn_type = or_else (fn_type n) ActionKind, pn_label = str_or_empty (fn_label n),
      pn_prompt = str_or_empty (fn_prompt n), pn_x = fn_x n, pn_y = fn_y n,
      pn_clearContext = Some (bool_or_false (fn_clearContext n)),
      pn_maxRetries = Some (int_or_zero (fn_maxRetries n))\<rparr>"

definition fromFlowNodes :: "flow_node list \<Rightarrow> plan_node list" where
  "fromFlowNodes = map from_flow_node"

definition from_flow_edge :: "flow_edge \<Rightarrow> plan_edge" where
  "from_flow_edge e =
     \<lparr>pg_id = fe_id e, pg_source = fe_source e, pg_target = fe_target e, pg_label = str_or_empty (fe_sourceHandle e)\<rparr>"

definition fromFlowEdges :: "flow_edge list \<Rightarrow> plan_edge list" where
  "fromFlowEdges = map from_flow_edge"

text \<open>The graph on the canvas, and the graph that is saved from it.\<close>

definition open_graph :: "plan_graph \<Rightarrow> flow_node list \<times> flow_edge list" where
  "open_graph g = (toFlowNodes (gr_nodes g) (\<lambda>_. None), toFlowEdges (gr_edges g))"

definition saved_graph :: "flow_node list \<times> flow_edge list \<Rightarrow> plan_graph" where
  "saved_graph c = \<lparr>gr_nodes = fromFlowNodes (fst c), gr_edges = fromFlowEdges (snd c)\<rparr>"

section \<open>Saving what was opened\<close>

text \<open>The two optional fields are always written.\<close>

definition filled_node :: "plan_node \<Rightarrow> plan_node" where
  "filled_node n = n\<lparr>pn_clearContext := Some (bool_or_false (pn_clearContext n)),
     pn_maxRetries := Some (int_or_zero (pn_maxRetries n))\<rparr>"

definition filled_graph :: "plan_graph \<Rightarrow> plan_graph" where
  "filled_graph g = g\<lparr>gr_nodes := map filled_node (gr_nodes g)\<rparr>"

lemma from_to_node: "from_flow_node (to_flow_node statuses n) = filled_node n"
  by (simp add: from_flow_node_def to_flow_node_def filled_node_def or_else_def str_or_empty_def)

lemma from_to_edge: "from_flow_edge (to_flow_edge e) = e"
  by (simp add: from_flow_edge_def to_flow_edge_def or_undef_def str_or_empty_def)

lemma to_filled_node: "filled_node (filled_node n) = filled_node n"
  by (simp add: filled_node_def bool_or_false_def int_or_zero_def)

lemma saved_opened: "saved_graph (open_graph g) = filled_graph g"
  by (simp add: saved_graph_def open_graph_def filled_graph_def toFlowNodes_def fromFlowNodes_def toFlowEdges_def
      fromFlowEdges_def from_to_node from_to_edge comp_def)

text \<open>Saving as the printer, reading the saved graph back onto the canvas as the parser: what is on
  the canvas comes back up to the fields the plan does not store (the status of a step, and a label
  that differs from the source handle).\<close>

definition canvas_norm :: "flow_node list \<times> flow_edge list \<Rightarrow> flow_node list \<times> flow_edge list" where
  "canvas_norm c = open_graph (saved_graph c)"

lemma saved_norm: "saved_graph (canvas_norm c) = saved_graph c"
  by (simp add: canvas_norm_def saved_opened)
    (simp add: saved_graph_def filled_graph_def fromFlowNodes_def from_flow_node_def filled_node_def bool_or_false_def int_or_zero_def comp_def)

interpretation plans: normalising_codec saved_graph "\<lambda>g. Some (open_graph g)" canvas_norm "\<lambda>_. True"
  by unfold_locales (simp_all add: saved_norm, simp add: canvas_norm_def)

text \<open>C33: Opening a plan on the canvas and saving it changes nothing in its graph but that the two
  optional fields of a step are written out with their defaults, and whatever is on the canvas, opening
  what it saved and saving again gives the same graph once more.\<close>

theorem plan_graph_roundtrip:
  "saved_graph (open_graph g) = filled_graph g \<and> saved_graph (open_graph (saved_graph c)) = saved_graph c"
  using plans.reprint [of c] by (simp add: saved_opened)

end
