(* ===== verification/PlanEditor.thy ===== *)
theory PlanEditor
  imports PlanGraph
begin

text \<open>
  The plan editor, \<open>frontend/src/components/plans/PlanEditor.tsx\<close>: its state and its handlers. The
  canvas library is not in the repository: its \<open>addEdge\<close> is a parameter, and what it does to the
  nodes while they are dragged and selected is a function that keeps identifiers and kinds. The
  counter for new nodes is a JavaScript number, so it is rounded to 53 significant bits; it is
  printed in full below \<open>10 ^ 21\<close>.
\<close>

section \<open>Numbers\<close>

text \<open>\<open>parseInt(id.replace(/\D/g, ''), 10)\<close>; \<open>None\<close> is \<open>NaN\<close>.\<close>

definition id_number :: "string \<Rightarrow> nat option" where
  "id_number i = (let ds = filter is_digit i in if ds = [] then None else Some (js_round (digits_val ds)))"

definition max_id :: "plan_node list \<Rightarrow> nat" where
  "max_id nodes = foldl (\<lambda>mx n. case id_number (pn_id n) of None \<Rightarrow> mx | Some k \<Rightarrow> max mx k) 0 nodes"

section \<open>State\<close>

text \<open>The schema of the parameters is a value the editor passes on.\<close>

record 'p plan =
  p_id :: string
  p_name :: string
  p_description :: string
  p_schedule :: string
  p_enabled :: bool
  p_parameters :: "'p option"
  p_graph :: plan_graph

record 'p meta_form =
  mf_name :: string
  mf_description :: string
  mf_schedule :: string
  mf_enabled :: bool
  mf_parameters :: 'p

record node_form =
  nf_label :: string
  nf_prompt :: string
  nf_clearContext :: bool
  nf_maxRetries :: int

record plan_step_run =
  sr_nodeId :: string
  sr_status :: step_state
  sr_result :: "string option"
  sr_messageId :: "string option"
  sr_startedAt :: "string option"
  sr_finishedAt :: "string option"

datatype toast = Success string | Failure string

record 'p plan_editor =
  ed_plan :: "'p plan"
  metaOpen :: bool
  metaForm :: "'p meta_form"
  ed_nodes :: "flow_node list"
  ed_edges :: "flow_edge list"
  selectedNode :: "flow_node option"
  nodeForm :: node_form
  selectedEdge :: "flow_edge option"
  edgeLabel :: string
  activeRunSteps :: "plan_step_run list option"
  nodeIdCounter :: nat
  toasts :: "toast list"
  ed_backs :: nat
  ed_saves :: nat

definition empty_node_form :: node_form where
  "empty_node_form = \<lparr>nf_label = [], nf_prompt = [], nf_clearContext = False, nf_maxRetries = 0\<rparr>"

definition editor_start :: "'p \<Rightarrow> 'p plan \<Rightarrow> 'p plan_editor" where
  "editor_start emptySchema p =
     \<lparr>ed_plan = p, metaOpen = (p_id p = []),
      metaForm = \<lparr>mf_name = p_name p, mf_description = p_description p, mf_schedule = p_schedule p,
        mf_enabled = p_enabled p, mf_parameters = or_else (p_parameters p) emptySchema\<rparr>,
      ed_nodes = toFlowNodes (gr_nodes (p_graph p)) (\<lambda>_. None), ed_edges = toFlowEdges (gr_edges (p_graph p)),
      selectedNode = None, nodeForm = empty_node_form, selectedEdge = None, edgeLabel = [],
      activeRunSteps = None, nodeIdCounter = max_id (gr_nodes (p_graph p)), toasts = [], ed_backs = 0, ed_saves = 0\<rparr>"

text \<open>The nodes that are drawn: with a run shown, each has the status of its step.\<close>

definition displayNodes :: "'p plan_editor \<Rightarrow> flow_node list" where
  "displayNodes m = (case activeRunSteps m of
      None \<Rightarrow> ed_nodes m
    | Some steps \<Rightarrow>
        let statusMap = map_of (rev (map (\<lambda>s. (sr_nodeId s, sr_status s)) steps))
        in map (\<lambda>n. n\<lparr>fn_status := statusMap (fn_id n)\<rparr>) (ed_nodes m))"

section \<open>Handlers\<close>

definition toast :: "toast \<Rightarrow> 'p plan_editor \<Rightarrow> 'p plan_editor" where
  "toast t m = m\<lparr>toasts := toasts m @ [t]\<rparr>"

text \<open>\<open>jitter\<close> is the random number.\<close>

definition addNode :: "node_kind \<Rightarrow> rat \<Rightarrow> 'p plan_editor \<Rightarrow> 'p plan_editor" where
  "addNode kind jitter m =
     (let k = js_round (nodeIdCounter m + 1);
          n = \<lparr>fn_id = CHR ''n'' # nat_str k, fn_type = Some kind, fn_x = 250 + jitter * 100 - 50,
               fn_y = 100 + of_nat (length (ed_nodes m)) * 120,
               fn_label = Some (if kind = ActionKind then ''New Action'' else ''New Decision''), fn_prompt = Some [],
               fn_clearContext = None, fn_maxRetries = None, fn_status = None\<rparr>
      in m\<lparr>nodeIdCounter := k, ed_nodes := ed_nodes m @ [n]\<rparr>)"

record connection =
  cn_source :: string
  cn_target :: string
  cn_sourceHandle :: "string option"

definition connection_label :: "flow_node option \<Rightarrow> connection \<Rightarrow> string" where
  "connection_label sourceNode c =
     (if Option.bind sourceNode fn_type = Some DecisionKind then or_else (cn_sourceHandle c) [] else [])"

definition connection_edge :: "string \<Rightarrow> connection \<Rightarrow> flow_edge" where
  "connection_edge label c =
     \<lparr>fe_id = CHR ''e'' # cn_source c @ ''-'' @ cn_target c @ ''-'' @ label, fe_source = cn_source c,
      fe_target = cn_target c, fe_sourceHandle = cn_sourceHandle c, fe_label = or_undef label,
      fe_color = edgeColor label\<rparr>"

definition onConnect :: "(flow_edge \<Rightarrow> flow_edge list \<Rightarrow> flow_edge list) \<Rightarrow> connection \<Rightarrow> 'p plan_editor \<Rightarrow> 'p plan_editor" where
  "onConnect addEdge c m =
     (let sourceNode = find_by fn_id (ed_nodes m) (cn_source c);
          existingOut = filter (\<lambda>e. fe_source e = cn_source c) (ed_edges m);
          kind = Option.bind sourceNode fn_type
      in if kind = Some ActionKind \<and> 1 \<le> length existingOut
         then toast (Failure ''Action nodes can only have one outgoing connection'') m
         else if kind = Some DecisionKind \<and> 2 \<le> length existingOut
         then toast (Failure ''Decision nodes can have at most two connections (yes/no)'') m
         else m\<lparr>ed_edges := addEdge (connection_edge (connection_label sourceNode c) c) (ed_edges m)\<rparr>)"

definition onNodeClick :: "flow_node \<Rightarrow> 'p plan_editor \<Rightarrow> 'p plan_editor" where
  "onNodeClick n m = m\<lparr>selectedNode := Some n,
     nodeForm := \<lparr>nf_label = str_or_empty (fn_label n), nf_prompt = str_or_empty (fn_prompt n),
       nf_clearContext = bool_or_false (fn_clearContext n), nf_maxRetries = int_or_zero (fn_maxRetries n)\<rparr>,
     selectedEdge := None\<rparr>"

definition onEdgeClick :: "flow_edge \<Rightarrow> 'p plan_editor \<Rightarrow> 'p plan_editor" where
  "onEdgeClick e m = m\<lparr>selectedEdge := Some e, edgeLabel := str_or_empty (fe_label e), selectedNode := None\<rparr>"

definition onPaneClick :: "'p plan_editor \<Rightarrow> 'p plan_editor" where
  "onPaneClick m = m\<lparr>selectedNode := None, selectedEdge := None\<rparr>"

definition updateSelectedNode :: "'p plan_editor \<Rightarrow> 'p plan_editor" where
  "updateSelectedNode m = (case selectedNode m of
      None \<Rightarrow> m
    | Some s \<Rightarrow> m\<lparr>ed_nodes := map_by fn_id (fn_id s) (\<lambda>n. n\<lparr>fn_label := Some (nf_label (nodeForm m)),
          fn_prompt := Some (nf_prompt (nodeForm m)), fn_clearContext := Some (nf_clearContext (nodeForm m)),
          fn_maxRetries := Some (nf_maxRetries (nodeForm m))\<rparr>) (ed_nodes m),
        selectedNode := None\<rparr>)"

definition deleteSelectedNode :: "'p plan_editor \<Rightarrow> 'p plan_editor" where
  "deleteSelectedNode m = (case selectedNode m of
      None \<Rightarrow> m
    | Some s \<Rightarrow> m\<lparr>ed_nodes := drop_by fn_id (fn_id s) (ed_nodes m),
        ed_edges := filter (\<lambda>e. fe_source e \<noteq> fn_id s \<and> fe_target e \<noteq> fn_id s) (ed_edges m),
        selectedNode := None\<rparr>)"

definition updateSelectedEdge :: "'p plan_editor \<Rightarrow> 'p plan_editor" where
  "updateSelectedEdge m = (case selectedEdge m of
      None \<Rightarrow> m
    | Some s \<Rightarrow> m\<lparr>ed_edges := map_by fe_id (fe_id s) (\<lambda>e. e\<lparr>fe_label := or_undef (edgeLabel m),
          fe_sourceHandle := or_undef (edgeLabel m), fe_color := edgeColor (edgeLabel m)\<rparr>) (ed_edges m),
        selectedEdge := None\<rparr>)"

definition deleteSelectedEdge :: "'p plan_editor \<Rightarrow> 'p plan_editor" where
  "deleteSelectedEdge m = (case selectedEdge m of
      None \<Rightarrow> m
    | Some s \<Rightarrow> m\<lparr>ed_edges := drop_by fe_id (fe_id s) (ed_edges m), selectedEdge := None\<rparr>)"

definition submitMeta :: "'p plan_editor \<Rightarrow> 'p plan_editor" where
  "submitMeta m =
     (let f = metaForm m in
      if trim (mf_name f) = [] then toast (Failure ''Name is required'') m
      else m\<lparr>ed_plan := (ed_plan m)\<lparr>p_name := mf_name f, p_description := mf_description f, p_schedule := mf_schedule f,
          p_enabled := mf_enabled f, p_parameters := Some (mf_parameters f)\<rparr>, metaOpen := False\<rparr>)"

definition closeMeta :: "'p plan_editor \<Rightarrow> 'p plan_editor" where
  "closeMeta m = (let m' = m\<lparr>metaOpen := False\<rparr> in
     if p_id (ed_plan m) = [] \<and> p_name (ed_plan m) = [] then m'\<lparr>ed_backs := Suc (ed_backs m)\<rparr> else m')"

text \<open>What is sent: the plan without its identifier, and the graph of the canvas. \<open>None\<close> as the
  first part is a request that creates a plan; \<open>noParameters\<close> is the empty object, sent for a plan without parameters.\<close>

record 'p plan_payload =
  pl_name :: string
  pl_description :: string
  pl_schedule :: string
  pl_enabled :: bool
  pl_parameters :: 'p
  pl_graph :: plan_graph

definition canvas_graph :: "'p plan_editor \<Rightarrow> plan_graph" where
  "canvas_graph m = saved_graph (ed_nodes m, ed_edges m)"

definition plan_request :: "'p \<Rightarrow> bool \<Rightarrow> 'p plan_editor \<Rightarrow> string option \<times> 'p plan_payload" where
  "plan_request noParameters enabled m =
     (let p = ed_plan m in
      (if p_id p = [] then None else Some (p_id p),
       \<lparr>pl_name = p_name p, pl_description = p_description p, pl_schedule = p_schedule p, pl_enabled = enabled,
        pl_parameters = or_else (p_parameters p) noParameters, pl_graph = canvas_graph m\<rparr>))"

definition savePlan_begin :: "'p \<Rightarrow> 'p plan_editor \<Rightarrow> string option \<times> 'p plan_payload" where
  "savePlan_begin noParameters m = plan_request noParameters (p_enabled (ed_plan m)) m"

text \<open>\<open>wasNew\<close>: the request was a creation; its answer is the plan the server made.\<close>

definition savePlan_end :: "bool \<Rightarrow> string + 'p plan \<Rightarrow> 'p plan_editor \<Rightarrow> 'p plan_editor" where
  "savePlan_end wasNew answer m = (case answer of
      Inl msg \<Rightarrow> toast (Failure msg) m
    | Inr created \<Rightarrow>
        (if wasNew then toast (Success ''Plan created'') (m\<lparr>ed_plan := created\<rparr>)
         else toast (Success ''Plan saved'') m)\<lparr>ed_saves := Suc (ed_saves m)\<rparr>)"

definition set_enabled :: "bool \<Rightarrow> 'p plan_editor \<Rightarrow> 'p plan_editor" where
  "set_enabled b m = m\<lparr>ed_plan := (ed_plan m)\<lparr>p_enabled := b\<rparr>, metaForm := (metaForm m)\<lparr>mf_enabled := b\<rparr>\<rparr>"

definition toggleEnabled_begin :: "'p plan_editor \<Rightarrow> 'p plan_editor" where
  "toggleEnabled_begin m = set_enabled (\<not> p_enabled (ed_plan m)) m"

definition toggleEnabled_request :: "'p \<Rightarrow> 'p plan_editor \<Rightarrow> (string option \<times> 'p plan_payload) option" where
  "toggleEnabled_request noParameters m =
     (if p_id (ed_plan m) = [] then None else Some (plan_request noParameters (\<not> p_enabled (ed_plan m)) m))"

definition toggleEnabled_end :: "bool \<Rightarrow> string option \<Rightarrow> 'p plan_editor \<Rightarrow> 'p plan_editor" where
  "toggleEnabled_end nextEnabled failure m = (case failure of
      None \<Rightarrow> (toast (Success (if nextEnabled then ''Plan enabled'' else ''Plan disabled'')) m)\<lparr>ed_saves := Suc (ed_saves m)\<rparr>
    | Some msg \<Rightarrow> toast (Failure msg) (set_enabled (\<not> nextEnabled) m))"

text \<open>The number field of the panel: \<open>Math.max(0, parseInt(v) || 0)\<close>, \<open>None\<close> being \<open>NaN\<close>.\<close>

definition set_maxRetries :: "int option \<Rightarrow> 'p plan_editor \<Rightarrow> 'p plan_editor" where
  "set_maxRetries v m = m\<lparr>nodeForm := (nodeForm m)\<lparr>nf_maxRetries := max 0 (int_or_zero v)\<rparr>\<rparr>"

section \<open>The machine\<close>

datatype 'p editor_event =
    AddNode node_kind rat
  | Connect connection
  | ClickNode flow_node
  | ClickEdge flow_edge
  | ClickPane
  | TypeNode node_form
  | TypeEdge string
  | ApplyNode
  | DeleteNode
  | ApplyEdge
  | DeleteEdge
  | TypeMeta "'p meta_form"
  | OpenMeta
  | SubmitMeta
  | CloseMeta
  | SaveAnswer bool "string + 'p plan"
  | ToggleStart
  | ToggleAnswer bool "string option"
  | ShowRun "plan_step_run list option"
  | CanvasNodes "flow_node list \<Rightarrow> flow_node list"
  | CanvasEdges "flow_edge list \<Rightarrow> flow_edge list"

fun editor_step :: "(flow_edge \<Rightarrow> flow_edge list \<Rightarrow> flow_edge list) \<Rightarrow> 'p editor_event \<Rightarrow> 'p plan_editor \<Rightarrow> 'p plan_editor" where
  "editor_step addEdge (AddNode k j) m = addNode k j m"
| "editor_step addEdge (Connect c) m = onConnect addEdge c m"
| "editor_step addEdge (ClickNode n) m = onNodeClick n m"
| "editor_step addEdge (ClickEdge e) m = onEdgeClick e m"
| "editor_step addEdge ClickPane m = onPaneClick m"
| "editor_step addEdge (TypeNode f) m = m\<lparr>nodeForm := f\<rparr>"
| "editor_step addEdge (TypeEdge l) m = m\<lparr>edgeLabel := l\<rparr>"
| "editor_step addEdge ApplyNode m = updateSelectedNode m"
| "editor_step addEdge DeleteNode m = deleteSelectedNode m"
| "editor_step addEdge ApplyEdge m = updateSelectedEdge m"
| "editor_step addEdge DeleteEdge m = deleteSelectedEdge m"
| "editor_step addEdge (TypeMeta f) m = m\<lparr>metaForm := f\<rparr>"
| "editor_step addEdge OpenMeta m = m\<lparr>metaOpen := True\<rparr>"
| "editor_step addEdge SubmitMeta m = submitMeta m"
| "editor_step addEdge CloseMeta m = closeMeta m"
| "editor_step addEdge (SaveAnswer new a) m = savePlan_end new a m"
| "editor_step addEdge ToggleStart m = toggleEnabled_begin m"
| "editor_step addEdge (ToggleAnswer b f) m = toggleEnabled_end b f m"
| "editor_step addEdge (ShowRun s) m = m\<lparr>activeRunSteps := s\<rparr>"
| "editor_step addEdge (CanvasNodes f) m = m\<lparr>ed_nodes := f (ed_nodes m)\<rparr>"
| "editor_step addEdge (CanvasEdges f) m = m\<lparr>ed_edges := f (ed_edges m)\<rparr>"

text \<open>What the library's documentation says of \<open>addEdge\<close>: the edge is added at the end, or the list
  is left as it is (the connection is there already).\<close>

definition addEdge_adds :: "(flow_edge \<Rightarrow> flow_edge list \<Rightarrow> flow_edge list) \<Rightarrow> bool" where
  "addEdge_adds addEdge \<longleftrightarrow> (\<forall>e es. addEdge e es = es @ [e] \<or> addEdge e es = es)"

text \<open>A connection is drawn between two nodes of the canvas; dragging and selecting keep the
  identifiers, the kinds and the ends; and the counter is in the range where a JavaScript number
  counts.\<close>

fun editor_enabled :: "(flow_edge \<Rightarrow> flow_edge list \<Rightarrow> flow_edge list) \<Rightarrow> 'p editor_event \<Rightarrow> 'p plan_editor \<Rightarrow> bool" where
  "editor_enabled addEdge (AddNode k j) m = (nodeIdCounter m + 1 < 2 ^ 53)"
| "editor_enabled addEdge (Connect c) m =
     (addEdge_adds addEdge \<and> cn_source c \<in> fn_id ` set (ed_nodes m) \<and> cn_target c \<in> fn_id ` set (ed_nodes m))"
| "editor_enabled addEdge (CanvasNodes f) m =
     (map (\<lambda>n. (fn_id n, fn_type n)) (f (ed_nodes m)) = map (\<lambda>n. (fn_id n, fn_type n)) (ed_nodes m))"
| "editor_enabled addEdge (CanvasEdges f) m =
     (map (\<lambda>e. (fe_source e, fe_target e)) (f (ed_edges m)) = map (\<lambda>e. (fe_source e, fe_target e)) (ed_edges m))"
| "editor_enabled addEdge _ m = True"

section \<open>Well-formed plans\<close>

definition max_out :: "node_kind \<Rightarrow> nat" where
  "max_out k = (if k = ActionKind then 1 else 2)"

text \<open>A graph as its nodes with their kinds and its edges with their ends: distinct identifiers, edges
  between nodes that are there, at most one way out of an action and two out of a decision.\<close>

definition out_degree :: "string \<Rightarrow> (string \<times> string) list \<Rightarrow> nat" where
  "out_degree i es = length (filter (\<lambda>e. fst e = i) es)"

definition wf_shape :: "(string \<times> node_kind) list \<Rightarrow> (string \<times> string) list \<Rightarrow> bool" where
  "wf_shape ns es \<longleftrightarrow> distinct (map fst ns) \<and> fst ` set es \<subseteq> fst ` set ns \<and> snd ` set es \<subseteq> fst ` set ns
     \<and> (\<forall>(i, k) \<in> set ns. out_degree i es \<le> max_out k)"

definition plan_shape :: "plan_graph \<Rightarrow> (string \<times> node_kind) list \<times> (string \<times> string) list" where
  "plan_shape g = (map (\<lambda>n. (pn_id n, pn_type n)) (gr_nodes g), map (\<lambda>e. (pg_source e, pg_target e)) (gr_edges g))"

definition wf_plan_graph :: "plan_graph \<Rightarrow> bool" where
  "wf_plan_graph g \<longleftrightarrow> wf_shape (fst (plan_shape g)) (snd (plan_shape g))"

definition node_shape :: "flow_node list \<Rightarrow> (string \<times> node_kind) list" where
  "node_shape ns = map (\<lambda>n. (fn_id n, or_else (fn_type n) ActionKind)) ns"

definition edge_shape :: "flow_edge list \<Rightarrow> (string \<times> string) list" where
  "edge_shape es = map (\<lambda>e. (fe_source e, fe_target e)) es"

lemma saved_shape: "plan_shape (saved_graph (ns, es)) = (node_shape ns, edge_shape es)"
  by (simp add: plan_shape_def saved_graph_def fromFlowNodes_def fromFlowEdges_def from_flow_node_def from_flow_edge_def
      node_shape_def edge_shape_def)

lemma opened_shape: "node_shape (toFlowNodes ns st) = fst (plan_shape \<lparr>gr_nodes = ns, gr_edges = es\<rparr>)"
  "edge_shape (toFlowEdges es) = snd (plan_shape \<lparr>gr_nodes = ns, gr_edges = es\<rparr>)"
  by (simp_all add: plan_shape_def node_shape_def edge_shape_def toFlowNodes_def toFlowEdges_def to_flow_node_def
      to_flow_edge_def or_else_def)

text \<open>Operations on shapes: the abstract editor.\<close>

lemma out_degree_snoc: "out_degree i (es @ [e]) = out_degree i es + (if fst e = i then 1 else 0)"
  by (simp add: out_degree_def)

lemma out_degree_filter: "out_degree i (filter P es) \<le> out_degree i es"
  unfolding out_degree_def by (induction es) auto

lemma wf_shapeI:
  "distinct (map fst ns) \<Longrightarrow> (\<And>s t. (s, t) \<in> set es \<Longrightarrow> s \<in> fst ` set ns \<and> t \<in> fst ` set ns)
    \<Longrightarrow> (\<And>i k. (i, k) \<in> set ns \<Longrightarrow> out_degree i es \<le> max_out k) \<Longrightarrow> wf_shape ns es"
  unfolding wf_shape_def by (intro conjI) auto

lemma wf_shapeD:
  assumes "wf_shape ns es"
  shows "distinct (map fst ns)" and "(s, t) \<in> set es \<Longrightarrow> s \<in> fst ` set ns \<and> t \<in> fst ` set ns"
    and "(i, k) \<in> set ns \<Longrightarrow> out_degree i es \<le> max_out k"
proof -
  show "distinct (map fst ns)" using assms by (simp add: wf_shape_def)
  show "s \<in> fst ` set ns \<and> t \<in> fst ` set ns" if "(s, t) \<in> set es"
    using imageI [OF that, of fst] imageI [OF that, of snd] assms by (auto simp only: wf_shape_def fst_conv snd_conv)
  show "out_degree i es \<le> max_out k" if "(i, k) \<in> set ns" using assms that by (auto simp: wf_shape_def)
qed

lemma out_degree_absent: "wf_shape ns es \<Longrightarrow> i \<notin> fst ` set ns \<Longrightarrow> out_degree i es = 0"
  using wf_shapeD(2) by (fastforce simp: out_degree_def filter_empty_conv)

lemma wf_shape_add_node:
  assumes wf: "wf_shape ns es" and new: "i \<notin> fst ` set ns"
  shows "wf_shape (ns @ [(i, k)]) es"
proof (rule wf_shapeI)
  show "distinct (map fst (ns @ [(i, k)]))" using wf_shapeD(1) [OF wf] new by auto
  show "s \<in> fst ` set (ns @ [(i, k)]) \<and> t \<in> fst ` set (ns @ [(i, k)])" if "(s, t) \<in> set es" for s t
    using wf_shapeD(2) [OF wf that] by simp
  show "out_degree j es \<le> max_out l" if "(j, l) \<in> set (ns @ [(i, k)])" for j l
    using that wf_shapeD(3) [OF wf] out_degree_absent [OF wf new] by auto
qed

lemma wf_shape_add_edge:
  assumes wf: "wf_shape ns es" and ends: "s \<in> fst ` set ns" "t \<in> fst ` set ns"
    and room: "\<And>k. (s, k) \<in> set ns \<Longrightarrow> out_degree s es < max_out k"
  shows "wf_shape ns (es @ [(s, t)])"
proof (rule wf_shapeI)
  show "distinct (map fst ns)" by (rule wf_shapeD(1) [OF wf])
  show "a \<in> fst ` set ns \<and> b \<in> fst ` set ns" if "(a, b) \<in> set (es @ [(s, t)])" for a b
    using that ends wf_shapeD(2) [OF wf] by auto
  show "out_degree i (es @ [(s, t)]) \<le> max_out k" if "(i, k) \<in> set ns" for i k
    using wf_shapeD(3) [OF wf that] room [of k] that by (auto simp: out_degree_snoc)
qed

lemma wf_shape_fewer:
  assumes wf: "wf_shape ns es" and "set es' \<subseteq> set es" and "\<And>i. out_degree i es' \<le> out_degree i es"
  shows "wf_shape ns es'"
proof (rule wf_shapeI)
  show "out_degree i es' \<le> max_out k" if "(i, k) \<in> set ns" for i k
    using wf_shapeD(3) [OF wf that] assms(3) le_trans by blast
qed (use wf_shapeD [OF wf] assms(2) in auto)

lemma wf_shape_del_node:
  assumes wf: "wf_shape ns es"
  shows "wf_shape (filter (\<lambda>n. fst n \<noteq> i) ns) (filter (\<lambda>e. fst e \<noteq> i \<and> snd e \<noteq> i) es)"
proof (rule wf_shapeI)
  show "distinct (map fst (filter (\<lambda>n. fst n \<noteq> i) ns))" using wf_shapeD(1) [OF wf] by (simp add: distinct_map_filter)
  show "a \<in> fst ` set (filter (\<lambda>n. fst n \<noteq> i) ns) \<and> b \<in> fst ` set (filter (\<lambda>n. fst n \<noteq> i) ns)"
    if "(a, b) \<in> set (filter (\<lambda>e. fst e \<noteq> i \<and> snd e \<noteq> i) es)" for a b
  proof -
    have "(a, b) \<in> set es" "a \<noteq> i" "b \<noteq> i" using that by simp_all
    then obtain k l where "(a, k) \<in> set ns" "(b, l) \<in> set ns" using wf_shapeD(2) [OF wf, of a b] by auto
    with \<open>a \<noteq> i\<close> \<open>b \<noteq> i\<close> show ?thesis by force
  qed
  show "out_degree j (filter (\<lambda>e. fst e \<noteq> i \<and> snd e \<noteq> i) es) \<le> max_out k" if "(j, k) \<in> set (filter (\<lambda>n. fst n \<noteq> i) ns)" for j k
  proof -
    have "out_degree j es \<le> max_out k" using that wf_shapeD(3) [OF wf, of j k] by simp
    with out_degree_filter [of j "\<lambda>e. fst e \<noteq> i \<and> snd e \<noteq> i" es] show ?thesis by linarith
  qed
qed

section \<open>The invariant\<close>

definition id_below :: "nat \<Rightarrow> string \<Rightarrow> bool" where
  "id_below c i = (case id_number i of None \<Rightarrow> True | Some k \<Rightarrow> k \<le> c)"

definition editor_inv :: "'p plan_editor \<Rightarrow> bool" where
  "editor_inv m \<longleftrightarrow> wf_shape (node_shape (ed_nodes m)) (edge_shape (ed_edges m))
     \<and> list_all (\<lambda>n. fn_type n \<noteq> None) (ed_nodes m) \<and> list_all (\<lambda>n. id_below (nodeIdCounter m) (fn_id n)) (ed_nodes m)"

lemma filter_digits: "filter is_digit (nat_str k) = nat_str k"
  using all_digits_nat_str [of k] by (simp add: all_digits_def list_all_iff filter_id_conv)

lemma new_id_number: "k < 2 ^ 53 \<Longrightarrow> id_number (CHR ''n'' # nat_str k) = Some k"
proof -
  have "\<not> is_digit CHR ''n''" by code_simp
  moreover have "nat_str k \<noteq> []" using all_digits_nat_str [of k] by (simp add: all_digits_def)
  ultimately show "k < 2 ^ 53 \<Longrightarrow> ?thesis"
    by (simp add: id_number_def filter_digits digits_val_nat_str Let_def)
qed

lemma id_below_mono: "id_below c i \<Longrightarrow> c \<le> d \<Longrightarrow> id_below d i"
  by (auto simp: id_below_def split: option.splits)

lemma max_id_bounds: "n \<in> set ns \<Longrightarrow> id_below (max_id ns) (pn_id n)"
proof -
  let ?f = "\<lambda>mx n. case id_number (pn_id n) of None \<Rightarrow> mx | Some k \<Rightarrow> max mx k"
  have up: "a \<le> foldl ?f a xs" for a xs
    by (induction xs arbitrary: a) (auto split: option.split intro: le_trans [OF max.cobounded1])
  have "n \<in> set xs \<Longrightarrow> id_below (foldl ?f a xs) (pn_id n)" for a xs
  proof (induction xs arbitrary: a)
    case (Cons x xs)
    show ?case
    proof (cases "n = x")
      case True
      have "id_below (?f a x) (pn_id x)" by (auto simp: id_below_def split: option.split)
      then show ?thesis using id_below_mono [OF _ up] True by simp
    qed (use Cons in auto)
  qed simp
  then show "n \<in> set ns \<Longrightarrow> ?thesis" by (simp add: max_id_def)
qed

lemma map_fst_node_shape: "fst ` set (node_shape ns) = fn_id ` set ns" "map fst (node_shape ns) = map fn_id ns"
  by (simp_all add: node_shape_def image_image)

lemma inv_start:
  assumes "wf_plan_graph (p_graph p)"
  shows "editor_inv (editor_start sch p)"
proof -
  have "p_graph p = \<lparr>gr_nodes = gr_nodes (p_graph p), gr_edges = gr_edges (p_graph p)\<rparr>" by simp
  then have "wf_shape (node_shape (toFlowNodes (gr_nodes (p_graph p)) (\<lambda>_. None))) (edge_shape (toFlowEdges (gr_edges (p_graph p))))"
    using assms opened_shape by (metis wf_plan_graph_def)
  then show ?thesis using max_id_bounds
    by (auto simp: editor_inv_def editor_start_def list_all_iff toFlowNodes_def to_flow_node_def)
qed

text \<open>Handlers that leave the graph and the counter alone.\<close>

lemma inv_same:
  "editor_inv m \<Longrightarrow> ed_nodes m' = ed_nodes m \<Longrightarrow> ed_edges m' = ed_edges m \<Longrightarrow> nodeIdCounter m' = nodeIdCounter m \<Longrightarrow> editor_inv m'"
  by (simp add: editor_inv_def)

lemma inv_nodes:
  assumes "editor_inv m" and "map (\<lambda>n. (fn_id n, fn_type n)) (ed_nodes m') = map (\<lambda>n. (fn_id n, fn_type n)) (ed_nodes m)"
    and "ed_edges m' = ed_edges m" "nodeIdCounter m' = nodeIdCounter m"
  shows "editor_inv m'"
proof -
  have shape: "node_shape xs = map (\<lambda>(i, t). (i, or_else t ActionKind)) (map (\<lambda>n. (fn_id n, fn_type n)) xs)" for xs
    by (simp add: node_shape_def)
  have all: "list_all (\<lambda>n. fn_type n \<noteq> None) xs \<and> list_all (\<lambda>n. id_below c (fn_id n)) xs
      \<longleftrightarrow> list_all (\<lambda>(i, t). t \<noteq> None \<and> id_below c i) (map (\<lambda>n. (fn_id n, fn_type n)) xs)" for xs c
    by (auto simp: list_all_iff)
  from assms show ?thesis unfolding editor_inv_def shape all by simp
qed

lemma inv_edges:
  assumes "editor_inv m" and "edge_shape (ed_edges m') = edge_shape (ed_edges m)"
    and "ed_nodes m' = ed_nodes m" "nodeIdCounter m' = nodeIdCounter m"
  shows "editor_inv m'"
  using assms by (simp add: editor_inv_def)

lemma inv_addNode:
  assumes inv: "editor_inv m" and "nodeIdCounter m + 1 < 2 ^ 53"
  shows "editor_inv (addNode k j m)"
proof -
  let ?c = "nodeIdCounter m + 1" let ?i = "CHR ''n'' # nat_str ?c"
  have below: "list_all (\<lambda>n. id_below (nodeIdCounter m) (fn_id n)) (ed_nodes m)" using inv by (simp add: editor_inv_def)
  have "?i \<notin> fn_id ` set (ed_nodes m)"
  proof
    assume "?i \<in> fn_id ` set (ed_nodes m)"
    then have "id_below (nodeIdCounter m) ?i" using below by (auto simp: list_all_iff)
    then show False using new_id_number [OF assms(2)] by (simp add: id_below_def)
  qed
  then have "wf_shape (node_shape (ed_nodes m) @ [(?i, k)]) (edge_shape (ed_edges m))"
    using inv by (intro wf_shape_add_node) (simp_all add: editor_inv_def map_fst_node_shape)
  moreover have "id_below ?c ?i" using new_id_number [OF assms(2)] by (simp add: id_below_def)
  moreover have "list_all (\<lambda>n. id_below ?c (fn_id n)) (ed_nodes m)"
    using below by (rule list.pred_mono_strong) (auto intro: id_below_mono)
  ultimately show ?thesis using inv assms(2) by (simp add: addNode_def editor_inv_def Let_def node_shape_def or_else_def)
qed

lemma kind_of_node:
  assumes "editor_inv m" and "(i, k) \<in> set (node_shape (ed_nodes m))"
  shows "Option.bind (find_by fn_id (ed_nodes m) i) fn_type = Some k"
proof -
  obtain n where n: "n \<in> set (ed_nodes m)" "fn_id n = i" "or_else (fn_type n) ActionKind = k" using assms(2) by (auto simp: node_shape_def)
  have "find_by fn_id (ed_nodes m) i = Some n"
    using assms(1) n(1,2) find_by_mem [of fn_id "ed_nodes m" n] by (simp add: editor_inv_def wf_shape_def map_fst_node_shape)
  moreover have "fn_type n = Some k" using assms(1) n by (auto simp: editor_inv_def list_all_iff or_else_def split: option.splits)
  ultimately show ?thesis by simp
qed

lemma out_degree_edges: "out_degree i (edge_shape es) = length (filter (\<lambda>e. fe_source e = i) es)"
  by (simp add: out_degree_def edge_shape_def filter_map comp_def)

lemma inv_onConnect:
  assumes inv: "editor_inv m" and en: "editor_enabled addEdge (Connect c) m"
  shows "editor_inv (onConnect addEdge c m)"
proof -
  let ?kind = "Option.bind (find_by fn_id (ed_nodes m) (cn_source c)) fn_type"
  let ?out = "length (filter (\<lambda>e. fe_source e = cn_source c) (ed_edges m))"
  let ?e = "connection_edge (connection_label (find_by fn_id (ed_nodes m) (cn_source c)) c) c"
  consider (refused) "\<exists>t. onConnect addEdge c m = toast t m"
    | (added) "\<not> (?kind = Some ActionKind \<and> 1 \<le> ?out)" "\<not> (?kind = Some DecisionKind \<and> 2 \<le> ?out)"
      "onConnect addEdge c m = m\<lparr>ed_edges := addEdge ?e (ed_edges m)\<rparr>"
    unfolding onConnect_def Let_def by (cases "?kind = Some ActionKind \<and> 1 \<le> ?out"; cases "?kind = Some DecisionKind \<and> 2 \<le> ?out") auto
  then show ?thesis
  proof cases
    case refused
    then show ?thesis using inv by (auto simp: toast_def intro: inv_same)
  next
    case added
    have "wf_shape (node_shape (ed_nodes m)) (edge_shape (ed_edges m) @ [(cn_source c, cn_target c)])"
    proof (rule wf_shape_add_edge)
      show "out_degree (cn_source c) (edge_shape (ed_edges m)) < max_out k" if "(cn_source c, k) \<in> set (node_shape (ed_nodes m))" for k
        using kind_of_node [OF inv that] added(1,2) by (cases k) (auto simp: out_degree_edges max_out_def Suc_le_eq not_le)
    qed (use inv en in \<open>simp_all add: editor_inv_def map_fst_node_shape\<close>)
    then have "editor_inv (m\<lparr>ed_edges := ed_edges m @ [?e]\<rparr>)"
      using inv by (simp add: editor_inv_def edge_shape_def connection_edge_def)
    moreover have "addEdge ?e (ed_edges m) = ed_edges m @ [?e] \<or> addEdge ?e (ed_edges m) = ed_edges m"
      using en by (simp add: addEdge_adds_def)
    ultimately show ?thesis using added(3) inv by (auto intro: inv_same)
  qed
qed

lemma inv_deleteNode: "editor_inv m \<Longrightarrow> editor_inv (deleteSelectedNode m)"
proof (cases "selectedNode m")
  case (Some s)
  assume inv: "editor_inv m"
  have "node_shape (drop_by fn_id i ns) = filter (\<lambda>n. fst n \<noteq> i) (node_shape ns)" for i ns
    by (simp add: node_shape_def drop_by_def filter_map comp_def)
  moreover have "edge_shape (filter (\<lambda>e. fe_source e \<noteq> i \<and> fe_target e \<noteq> i) es) = filter (\<lambda>e. fst e \<noteq> i \<and> snd e \<noteq> i) (edge_shape es)" for i es
    by (simp add: edge_shape_def filter_map comp_def)
  ultimately show ?thesis
    using inv Some wf_shape_del_node by (auto simp: editor_inv_def deleteSelectedNode_def list_all_iff set_drop_by)
qed (simp add: deleteSelectedNode_def)

lemma inv_deleteEdge: "editor_inv m \<Longrightarrow> editor_inv (deleteSelectedEdge m)"
proof (cases "selectedEdge m")
  case (Some s)
  assume inv: "editor_inv m"
  have "set (edge_shape (drop_by fe_id i es)) \<subseteq> set (edge_shape es)" for i es
    by (auto simp: edge_shape_def set_drop_by)
  moreover have "out_degree j (edge_shape (drop_by fe_id i es)) \<le> out_degree j (edge_shape es)" for i j es
    by (induction es) (auto simp: edge_shape_def out_degree_def)
  ultimately have "wf_shape (node_shape (ed_nodes m)) (edge_shape (drop_by fe_id (fe_id s) (ed_edges m)))"
    using inv wf_shape_fewer by (auto simp: editor_inv_def)
  then show ?thesis using inv Some by (simp add: editor_inv_def deleteSelectedEdge_def)
qed (simp add: deleteSelectedEdge_def)


lemma inv_step:
  assumes inv: "editor_inv m" and en: "editor_enabled addEdge ev m"
  shows "editor_inv (editor_step addEdge ev m)"
proof -
  note same = inv_same [OF inv]
  show ?thesis
  proof (cases ev)
    case (AddNode k j) with inv en show ?thesis by (simp add: inv_addNode)
  next
    case (Connect c) with inv en show ?thesis using inv_onConnect [of m addEdge c] by simp
  next
    case ApplyNode
    show ?thesis unfolding ApplyNode editor_step.simps updateSelectedNode_def
      by (cases "selectedNode m") (auto simp: inv map_by_def intro!: inv_nodes [OF inv])
  next
    case DeleteNode with inv inv_deleteNode show ?thesis by simp
  next
    case ApplyEdge
    show ?thesis unfolding ApplyEdge editor_step.simps updateSelectedEdge_def
      by (cases "selectedEdge m") (auto simp: inv map_by_def edge_shape_def intro!: inv_edges [OF inv])
  next
    case DeleteEdge with inv inv_deleteEdge show ?thesis by simp
  next
    case (CanvasNodes f) with en show ?thesis by (auto intro: inv_nodes [OF inv])
  next
    case (CanvasEdges f) with en show ?thesis by (auto simp: edge_shape_def intro: inv_edges [OF inv])
  qed (auto simp: onNodeClick_def onEdgeClick_def onPaneClick_def submitMeta_def closeMeta_def savePlan_end_def
      toggleEnabled_begin_def toggleEnabled_end_def set_enabled_def toast_def Let_def intro: same split: sum.split option.split)
qed

interpretation editor: guarded_steps "editor_step addEdge" editor_inv "editor_enabled addEdge" for addEdge
  by unfold_locales (rule inv_step)

text \<open>C17: From a plan whose graph is well formed, whatever is clicked, typed, drawn, dragged and deleted
  in the editor, in any order and with any answers of the server, the graph that Save sends is well
  formed: no two steps have one identifier, every edge joins two steps of the graph, an action has at
  most one way out and a decision at most two.\<close>

theorem editor_saves_well_formed_plans:
  assumes "wf_plan_graph (p_graph p)" and "admissible (editor_enabled addEdge) (editor_step addEdge) es (editor_start sch p)"
  shows "wf_plan_graph (pl_graph (snd (savePlan_begin noParameters (run_steps (editor_step addEdge) es (editor_start sch p)))))"
  using editor.run_inv [OF inv_start [OF assms(1)] assms(2)]
  by (simp add: savePlan_begin_def plan_request_def Let_def canvas_graph_def wf_plan_graph_def saved_shape editor_inv_def)

definition small_plan :: "nat plan" where
  "small_plan = \<lparr>p_id = ''p1'', p_name = ''Deploy'', p_description = [], p_schedule = [], p_enabled = True, p_parameters = None,
     p_graph = \<lparr>gr_nodes = [\<lparr>pn_id = ''n1'', pn_type = DecisionKind, pn_label = ''ok?'', pn_prompt = [], pn_x = 0, pn_y = 0,
       pn_clearContext = None, pn_maxRetries = None\<rparr>], gr_edges = []\<rparr>\<rparr>"

definition small_run :: "nat editor_event list" where
  "small_run = [AddNode ActionKind 0, Connect \<lparr>cn_source = ''n1'', cn_target = ''n2'', cn_sourceHandle = Some ''yes''\<rparr>, SaveAnswer False (Inl ''x'')]"

lemma small_n2: "nat_str (Suc (Suc 0)) = ''2''" "id_number ''n1'' = Some (Suc 0)"
proof -
  have one: "nat_str 1 = ''1''" by code_simp
  show "nat_str (Suc (Suc 0)) = ''2''" by code_simp
  show "id_number ''n1'' = Some (Suc 0)" using new_id_number [of 1] one by simp
qed

lemma small_admissible: "admissible (editor_enabled (\<lambda>e es. es @ [e])) (editor_step (\<lambda>e es. es @ [e])) small_run (editor_start 0 small_plan)"
  by (simp add: small_run_def small_plan_def editor_start_def addNode_def toFlowNodes_def to_flow_node_def max_id_def small_n2
      Let_def addEdge_adds_def)

theorem editor_saves_well_formed_plans_witness:
  "wf_plan_graph (pl_graph (snd (savePlan_begin 0 (run_steps (editor_step (\<lambda>e es. es @ [e])) small_run (editor_start 0 small_plan)))))"
proof -
  have "wf_plan_graph (p_graph small_plan)" by (simp add: small_plan_def wf_plan_graph_def plan_shape_def wf_shape_def out_degree_def)
  then show ?thesis using small_admissible by (rule editor_saves_well_formed_plans)
qed

section \<open>Identifiers that repeat\<close>

text \<open>The counter for new steps is a JavaScript number: on a plan whose largest step number is
  \<open>2 ^ 53\<close> it stands still, so two steps added one after the other get one identifier - the next
  identifier is a fresh one only below that bound.\<close>

theorem step_ids_repeat_past_the_safe_integers:
  assumes "nodeIdCounter m = 2 ^ 53"
  shows "nodeIdCounter (addNode k j m) = 2 ^ 53
    \<and> \<not> distinct (map fn_id (ed_nodes (addNode k' j' (addNode k j m))))"
  using assms js_round_limit by (simp add: addNode_def Let_def)

theorem step_ids_repeat_past_the_safe_integers_witness:
  "\<not> distinct (map fn_id (ed_nodes (addNode ActionKind 0 (addNode ActionKind 0 ((editor_start 0 small_plan)\<lparr>nodeIdCounter := 2 ^ 53\<rparr>)))))"
  using step_ids_repeat_past_the_safe_integers [of "(editor_start 0 small_plan)\<lparr>nodeIdCounter := 2 ^ 53\<rparr>" ActionKind 0 ActionKind 0]
  by simp

text \<open>What the documentation says of a connection that is not there yet.\<close>

definition addEdge_adds_new :: "(flow_edge \<Rightarrow> flow_edge list \<Rightarrow> flow_edge list) \<Rightarrow> bool" where
  "addEdge_adds_new addEdge \<longleftrightarrow> (\<forall>e es. list_all (\<lambda>x. (fe_source x, fe_target x, fe_sourceHandle x)
     \<noteq> (fe_source e, fe_target e, fe_sourceHandle e)) es \<longrightarrow> addEdge e es = es @ [e])"

text \<open>The identifier of an edge is made from the label it is drawn with and is not changed with the
  label. Draw the yes branch of a decision, relabel it no, draw the yes branch to the same step
  again: two edges have one identifier, and deleting one of them deletes both.\<close>

theorem relabelled_edge_shares_its_id:
  assumes "addEdge_adds_new addEdge" and "find_by fn_id (ed_nodes m) d = Some n" and "fn_type n = Some DecisionKind"
    and "list_all (\<lambda>x. fe_source x \<noteq> d \<and> fe_id x \<noteq> CHR ''e'' # d @ ''-'' @ t @ ''-yes'') (ed_edges m)"
    and "e = connection_edge ''yes'' \<lparr>cn_source = d, cn_target = t, cn_sourceHandle = Some ''yes''\<rparr>"
    and "m' = run_steps (editor_step addEdge) [Connect \<lparr>cn_source = d, cn_target = t, cn_sourceHandle = Some ''yes''\<rparr>,
        ClickEdge e, TypeEdge ''no'', ApplyEdge, Connect \<lparr>cn_source = d, cn_target = t, cn_sourceHandle = Some ''yes''\<rparr>] m"
  shows "ed_edges m' = ed_edges m @ [e\<lparr>fe_label := Some ''no'', fe_sourceHandle := Some ''no'', fe_color := edgeColor ''no''\<rparr>, e]
    \<and> ed_edges (deleteSelectedEdge (onEdgeClick e m')) = ed_edges m"
proof -
  have keep: "map_by fe_id (fe_id e) f (ed_edges m) = ed_edges m" "drop_by fe_id (fe_id e) (ed_edges m) = ed_edges m" for f
    using assms(4) by (auto simp: map_by_def drop_by_def list_all_iff assms(5) connection_edge_def intro!: map_idI)
  have none: "filter (\<lambda>x. fe_source x = d) (ed_edges m) = []" using assms(4) by (auto simp: list_all_iff filter_empty_conv)
  have lab: "connection_label (Some n) \<lparr>cn_source = d, cn_target = t, cn_sourceHandle = Some ''yes''\<rparr> = ''yes''"
    using assms(3) by (simp add: connection_label_def or_else_def)
  have new: "list_all (\<lambda>x. (fe_source x, fe_target x, fe_sourceHandle x) \<noteq> (d, t', h)) (ed_edges m)" for t' h
    using assms(4) by (auto simp: list_all_iff)
  have e: "fe_source e = d" "fe_target e = t" "fe_sourceHandle e = Some ''yes''" by (simp_all add: assms(5) connection_edge_def)
  have add1: "addEdge e (ed_edges m) = ed_edges m @ [e]"
    using assms(1) new e by (simp add: addEdge_adds_new_def)
  let ?no = "e\<lparr>fe_label := Some ''no'', fe_sourceHandle := Some ''no'', fe_color := edgeColor ''no''\<rparr>"
  have add2: "addEdge e (ed_edges m @ [?no]) = (ed_edges m @ [?no]) @ [e]"
  proof -
    have "list_all (\<lambda>x. (fe_source x, fe_target x, fe_sourceHandle x) \<noteq> (fe_source e, fe_target e, fe_sourceHandle e)) (ed_edges m @ [?no])"
      using new e by simp
    then show ?thesis using assms(1) by (simp only: addEdge_adds_new_def)
  qed
  have "map_by fe_id (fe_id e) f (ed_edges m @ [e]) = ed_edges m @ [f e]" for f using keep by (simp add: map_by_def)
  then have "ed_edges m' = ed_edges m @ [?no, e]"
    using assms(2,3) add1 add2 none lab e
    by (simp add: assms(6) onConnect_def onEdgeClick_def updateSelectedEdge_def or_undef_def flip: assms(5))
  moreover have "drop_by fe_id (fe_id e) (ed_edges m @ [?no, e]) = ed_edges m" using keep by (simp add: drop_by_def)
  ultimately show ?thesis by (simp add: deleteSelectedEdge_def onEdgeClick_def)
qed


theorem relabelled_edge_shares_its_id_witness:
  "let e = connection_edge ''yes'' \<lparr>cn_source = ''n1'', cn_target = ''n2'', cn_sourceHandle = Some ''yes''\<rparr>;
       m = run_steps (editor_step (\<lambda>e es. es @ [e])) [Connect \<lparr>cn_source = ''n1'', cn_target = ''n2'', cn_sourceHandle = Some ''yes''\<rparr>,
        ClickEdge e, TypeEdge ''no'', ApplyEdge, Connect \<lparr>cn_source = ''n1'', cn_target = ''n2'', cn_sourceHandle = Some ''yes''\<rparr>]
        (editor_start (0 :: nat) small_plan)
   in ed_edges (deleteSelectedEdge (onEdgeClick e m)) = []"
proof -
  have "addEdge_adds_new (\<lambda>e es. es @ [e])" by (simp add: addEdge_adds_new_def)
  moreover have "find_by fn_id (ed_nodes (editor_start (0 :: nat) small_plan)) ''n1'' = Some (to_flow_node (\<lambda>_. None) (hd (gr_nodes (p_graph small_plan))))"
    "fn_type (to_flow_node (\<lambda>_. None) (hd (gr_nodes (p_graph small_plan)))) = Some DecisionKind"
    "ed_edges (editor_start (0 :: nat) small_plan) = []"
    by (simp_all add: editor_start_def small_plan_def toFlowNodes_def toFlowEdges_def to_flow_node_def)
  ultimately show ?thesis
    using relabelled_edge_shares_its_id [OF _ _ _ _ refl refl, of "\<lambda>e es. es @ [e]" "editor_start (0 :: nat) small_plan" "''n1''" _ "''n2''"]
    unfolding Let_def by simp
qed

end
