(* ===== verification/PlanRunList.thy ===== *)
theory PlanRunList
  imports PlanParams PlanEditor
begin

text \<open>
  The list of a plan's runs, \<open>frontend/src/components/plans/PlanRuns.tsx\<close>: loading and polling, the run
  whose steps are shown, its messages, starting and cancelling a run. Times are milliseconds; \<open>'m\<close> is
  the type of a chat message.
\<close>

section \<open>Texts\<close>

definition timeAgo :: "int \<Rightarrow> int \<Rightarrow> string" where
  "timeAgo now date =
     (let s = (now - date) div 1000 in
      if s < 60 then int_str s @ ''s ago''
      else if s < 3600 then int_str (s div 60) @ ''m ago''
      else if s < 86400 then int_str (s div 3600) @ ''h ago''
      else int_str (s div 86400) @ ''d ago'')"

definition run_duration :: "int \<Rightarrow> int option \<Rightarrow> int option \<Rightarrow> string" where
  "run_duration now start end' = (case start of
      None \<Rightarrow> [em_dash]
    | Some s \<Rightarrow> span_text (or_else end' now - s))"

section \<open>State\<close>

datatype run_status = RunRunning | RunCompleted | RunFailed | RunCancelled | RunPaused
datatype run_trigger = Manual | Scheduled

record plan_run =
  rn_id :: string
  rn_planId :: string
  rn_status :: run_status
  rn_trigger :: run_trigger
  rn_input :: "(string \<times> input_value) list"
  rn_steps :: "plan_step_run list"
  rn_startedAt :: int
  rn_finishedAt :: "int option"

record 'm run_list =
  rl_planId :: string
  rl_params :: "param_def list"
  rl_runs :: "plan_run list"
  rl_loading :: bool
  expandedId :: "string option"
  runMessages :: "string \<Rightarrow> 'm list option"
  inputOpen :: bool
  inputValues :: "string \<Rightarrow> string option"
  rl_active :: "plan_step_run list option"
  rl_toasts :: "toast list"
  rl_opened :: "string list"

definition run_list_start :: "string \<Rightarrow> schema \<Rightarrow> 'm run_list" where
  "run_list_start planId sch = \<lparr>rl_planId = planId, rl_params = extractParams sch, rl_runs = [], rl_loading = True,
     expandedId = None, runMessages = (\<lambda>_. None), inputOpen = False, inputValues = (\<lambda>_. None), rl_active = None,
     rl_toasts = [], rl_opened = []\<rparr>"

section \<open>Handlers\<close>

text \<open>The answer of a load: \<open>asked\<close> is the run that was expanded when the request was made.\<close>

definition loadRuns :: "string option \<Rightarrow> plan_run list option \<Rightarrow> 'm run_list \<Rightarrow> 'm run_list" where
  "loadRuns asked answer l =
     (case answer of
        None \<Rightarrow> l\<lparr>rl_loading := False\<rparr>
      | Some data \<Rightarrow>
          (let l' = l\<lparr>rl_runs := data, rl_loading := False\<rparr> in
           case Option.bind asked (find_by rn_id data) of
             Some r \<Rightarrow> l'\<lparr>rl_active := Some (rn_steps r)\<rparr>
           | None \<Rightarrow> l'))"

definition poll_interval :: "'m run_list \<Rightarrow> nat" where
  "poll_interval l = (if list_ex (\<lambda>r. rn_status r = RunRunning) (rl_runs l) then 2000 else 10000)"

definition polls_messages :: "'m run_list \<Rightarrow> bool" where
  "polls_messages l =
     (case Option.bind (expandedId l) (find_by rn_id (rl_runs l)) of
        Some r \<Rightarrow> rn_status r = RunRunning | None \<Rightarrow> False)"

definition plan_session :: "string \<Rightarrow> string \<Rightarrow> string" where
  "plan_session planId runId = ''plan:'' @ planId @ '':'' @ runId"

definition fetchMessages :: "string \<Rightarrow> 'm list option \<Rightarrow> 'm run_list \<Rightarrow> 'm run_list" where
  "fetchMessages runId answer l = (case answer of
      None \<Rightarrow> l | Some msgs \<Rightarrow> l\<lparr>runMessages := (runMessages l)(runId \<mapsto> msgs)\<rparr>)"

text \<open>The second part: whether the messages of the run are asked for.\<close>

definition toggle_run :: "plan_run \<Rightarrow> 'm run_list \<Rightarrow> 'm run_list \<times> bool" where
  "toggle_run r l =
     (if expandedId l = Some (rn_id r) then (l\<lparr>expandedId := None, rl_active := None\<rparr>, False)
      else (l\<lparr>expandedId := Some (rn_id r), rl_active := Some (rn_steps r)\<rparr>, runMessages l (rn_id r) = None))"

definition cancelRun :: "string option \<Rightarrow> 'm run_list \<Rightarrow> 'm run_list" where
  "cancelRun failure l = l\<lparr>rl_toasts := rl_toasts l @ [case failure of
      None \<Rightarrow> Success ''Run cancelled'' | Some msg \<Rightarrow> Failure msg]\<rparr>"

text \<open>\<open>Some []\<close>: the run is started at once.\<close>

definition handleRunClick :: "'m run_list \<Rightarrow> 'm run_list \<times> (string \<times> input_value) list option" where
  "handleRunClick l =
     (if rl_params l \<noteq> [] then
        (l\<lparr>inputValues := map_of (run_defaults (rl_params l)), inputOpen := True\<rparr>, None)
      else (l, Some []))"

definition submit_run :: "'m run_list \<Rightarrow> 'm run_list \<times> (string \<times> input_value) list" where
  "submit_run l = (l\<lparr>inputOpen := False\<rparr>, submitInput (rl_params l) (inputValues l))"

text \<open>The answer of the start; on success a load follows, asked with the run that was expanded when the
  button was pressed, and then the run's chat is opened.\<close>

definition run_started :: "string + plan_run \<Rightarrow> 'm run_list \<Rightarrow> 'm run_list" where
  "run_started answer l = (case answer of
      Inl msg \<Rightarrow> l\<lparr>rl_toasts := rl_toasts l @ [Failure msg]\<rparr>
    | Inr r \<Rightarrow> l\<lparr>rl_toasts := rl_toasts l @ [Success ''Plan execution started''], expandedId := Some (rn_id r),
        rl_active := Some (rn_steps r)\<rparr>)"

definition run_opened :: "string \<Rightarrow> 'm run_list \<Rightarrow> 'm run_list" where
  "run_opened runId l = l\<lparr>rl_opened := rl_opened l @ [plan_session (rl_planId l) runId]\<rparr>"

section \<open>Row contents\<close>

definition completed_steps :: "plan_run \<Rightarrow> nat" where
  "completed_steps r = length (filter (\<lambda>s. sr_status s = StepCompleted) (rn_steps r))"

definition row_label :: "plan_node list \<Rightarrow> plan_step_run \<Rightarrow> string" where
  "row_label nodes s = (case map_of (rev (map (\<lambda>n. (pn_id n, n)) nodes)) (sr_nodeId s) of
      Some n \<Rightarrow> str_or (pn_label n) (sr_nodeId s) | None \<Rightarrow> sr_nodeId s)"

section \<open>The steps that are shown\<close>

text \<open>The steps on the canvas are those of the expanded run, as the list has it or as it was when it was
  expanded, unless the answer of a load that was asked for another run comes in between.\<close>

definition shows_expanded :: "'m run_list \<Rightarrow> bool" where
  "shows_expanded l \<longleftrightarrow> (expandedId l = None) = (rl_active l = None)"

lemma shows_expanded_toggle: "shows_expanded (fst (toggle_run r l))"
  by (simp add: shows_expanded_def toggle_run_def)

lemma shows_expanded_load: "shows_expanded l \<Longrightarrow> expandedId l = asked \<Longrightarrow> shows_expanded (loadRuns asked answer l)"
  by (cases asked) (auto simp: shows_expanded_def loadRuns_def Let_def split: option.split)

text \<open>Starting a run while another one is expanded shows the steps of the other one: the load that
  follows was made with the old expanded run.\<close>

lemma start_shows_other_steps:
  assumes "expandedId l = Some i" and "find_by rn_id data i = Some old"
  shows "let l' = loadRuns (expandedId l) (Some data) (run_started (Inr new) l) in
    expandedId l' = Some (rn_id new) \<and> rl_active l' = Some (rn_steps old)"
  using assms by (simp add: loadRuns_def run_started_def Let_def)

end
