(* ===== verification/ToolOutput.thy ===== *)
theory ToolOutput
  imports Interfaces JsNumbers
begin

text \<open>
  The text a shell tool hands back and what the log view reads out of it. The server writes it
  (\<open>core/agents/ssh.go\<close>: the status line, the tag of a blocked command, the footer of blocked hosts); the
  frontend takes it apart (\<open>components/chat-messages/GuardBlockBadge.tsx\<close>,
  \<open>components/LogEntries.tsx\<close>). The two angle quotation marks of the sanitizer have their Windows-1252
  codes, like the dashes of the prelude.
\<close>

section \<open>Searching in a text\<close>

fun contains :: "string \<Rightarrow> string \<Rightarrow> bool" where
  "contains p s = (starts_with p s \<or> (case s of [] \<Rightarrow> False | _ # t \<Rightarrow> contains p t))"

declare contains.simps [simp del]

text \<open>The text before and after the first occurrence.\<close>

fun cut_at :: "string \<Rightarrow> string \<Rightarrow> (string \<times> string) option" where
  "cut_at p s = (if starts_with p s then Some ([], drop (length p) s)
     else case s of [] \<Rightarrow> None
     | c # t \<Rightarrow> map_option (\<lambda>(a, b). (c # a, b)) (cut_at p t))"

declare cut_at.simps [simp del]

definition strip_prefix :: "string \<Rightarrow> string \<Rightarrow> string option" where
  "strip_prefix p s = (if starts_with p s then Some (drop (length p) s) else None)"

section \<open>The server's side\<close>

definition angle_open :: char where "angle_open = CHR 0x8B"
definition angle_close :: char where "angle_close = CHR 0x9B"

definition sanitizeTagPayload :: "string \<Rightarrow> string" where
  "sanitizeTagPayload s = map (\<lambda>c. if c = CHR ''>'' then angle_close else c) (map (\<lambda>c. if c = CHR ''<'' then angle_open else c) s)"

definition sanitizeAttrValue :: "string \<Rightarrow> string" where
  "sanitizeAttrValue s = filter (\<lambda>c. c \<notin> set ''\",<>'') s"

text \<open>The prelude's white space stands for the server's \<open>TrimSpace\<close> as well.\<close>

definition profilesAttr :: "string list \<Rightarrow> string" where
  "profilesAttr ids =
     (let clean = map sanitizeAttrValue (dedupe (filter (\<lambda>i. i \<noteq> []) (map trim ids))) in
      if ids = [] \<or> clean = [] then [] else '' profiles=\"'' @ join '','' clean @ ''\"'')"

record host_block =
  hb_host :: string
  hb_reason :: string
  hb_count :: int
  hb_profiles :: "string list"

definition host_entry :: "host_block \<Rightarrow> string" where
  "host_entry h = sanitizeTagPayload (hb_host h)
     @ (if hb_reason h \<noteq> [] then '':'' @ sanitizeTagPayload (hb_reason h) else [])
     @ (if 1 < hb_count h then '' x'' @ int_str (hb_count h) else [])"

definition block_profiles :: "host_block list \<Rightarrow> string list" where
  "block_profiles blocks = dedupe (filter (\<lambda>i. i \<noteq> []) (concat (map hb_profiles blocks)))"

definition tag_end :: string where "tag_end = ''</guard-block>''"

definition egressFooter :: "host_block list \<Rightarrow> string" where
  "egressFooter blocks =
     (if blocks = [] then []
      else [CHR 0x0A] @ ''<guard-block kind=\"network\"'' @ profilesAttr (block_profiles blocks)
        @ ''>policy block (not network/DNS). edit /guard-profiles. hosts: '' @ join '', '' (map host_entry blocks) @ tag_end)"

definition commandBlockTag :: "string \<Rightarrow> string \<Rightarrow> string \<Rightarrow> string list \<Rightarrow> string" where
  "commandBlockTag command rule message profileIDs =
     (let cmd = str_or (sanitizeTagPayload (trim command)) ''(empty)'';
          detail = str_or (sanitizeTagPayload (trim message)) (sanitizeTagPayload (trim rule));
          body = ''policy block (not a server error). edit /guard-profiles. cmd: '' @ cmd
            @ (if detail \<noteq> [] then '' '' @ [em_dash] @ '' '' @ detail else [])
      in ''<guard-block kind=\"command\"'' @ profilesAttr profileIDs @ ''>'' @ body @ tag_end)"

text \<open>How a command ended: with an exit status, or without one.\<close>

datatype run_error = ExitStatus int | OtherError string

definition status_line :: "run_error option \<Rightarrow> string" where
  "status_line runErr = (case runErr of
      None \<Rightarrow> ''status: exit 0 (success)''
    | Some (ExitStatus n) \<Rightarrow> ''status: exit '' @ int_str n @ '' (error)''
    | Some (OtherError msg) \<Rightarrow> ''status: error ('' @ trim msg @ '')'')"

definition formatCommandToolResult :: "string \<Rightarrow> run_error option \<Rightarrow> string" where
  "formatCommandToolResult output runErr =
     status_line runErr @ [CHR 0x0A] @ ''output:'' @ [CHR 0x0A] @ (if trim output = [] then ''(no output)'' else output)"

definition with_footer :: "string \<Rightarrow> host_block list \<Rightarrow> string" where
  "with_footer out blocks =
     (if blocks = [] then out
      else (if out \<noteq> [] \<and> last out \<noteq> CHR 0x0A then out @ [CHR 0x0A] else out) @ egressFooter blocks)"

section \<open>The frontend's side: guard blocks\<close>

datatype block_kind = NetworkBlock | CommandBlock

record guard_block =
  gb_kind :: block_kind
  gb_items :: "string list"
  gb_note :: string
  gb_profileIds :: "string list"

definition NOTE_BY_KIND :: "block_kind \<Rightarrow> string" where
  "NOTE_BY_KIND k = (case k of
      NetworkBlock \<Rightarrow> ''Not a network/DNS error '' @ [em_dash] @ '' the egress gateway blocked these hosts.''
    | CommandBlock \<Rightarrow> ''Not a server error '' @ [em_dash] @ '' your guard profile blocked this command.'')"

text \<open>One match of \<open>TAG_RE\<close> at the start of a text: the kind, the profiles, the body and the rest.\<close>

definition tag_kind :: "string \<Rightarrow> (block_kind \<times> string) option" where
  "tag_kind s = (case strip_prefix ''<guard-block kind=\"'' s of
      None \<Rightarrow> None
    | Some r \<Rightarrow> (case strip_prefix ''network\"'' r of
        Some t \<Rightarrow> Some (NetworkBlock, t)
      | None \<Rightarrow> map_option (Pair CommandBlock) (strip_prefix ''command\"'' r)))"

definition tag_profiles :: "string \<Rightarrow> (string \<times> string) option" where
  "tag_profiles s = (case strip_prefix '' profiles=\"'' s of
      Some r \<Rightarrow> map_option (Pair (takeWhile (\<lambda>c. c \<noteq> CHR 0x22) r)) (strip_prefix ''\">'' (dropWhile (\<lambda>c. c \<noteq> CHR 0x22) r))
    | None \<Rightarrow> map_option (Pair []) (strip_prefix ''>'' s))"

definition match_tag :: "string \<Rightarrow> (block_kind \<times> string \<times> string \<times> string) option" where
  "match_tag s = Option.bind (tag_kind s) (\<lambda>(k, r). Option.bind (tag_profiles r) (\<lambda>(p, t).
     map_option (\<lambda>(b, u). (k, p, b, u)) (cut_at tag_end t)))"

lemma strip_prefix_length: "strip_prefix p s = Some t \<Longrightarrow> length t \<le> length s"
  by (auto simp: strip_prefix_def split: if_splits)

lemma cut_at_length: "cut_at p s = Some (a, b) \<Longrightarrow> length b \<le> length s"
proof (induction s arbitrary: a)
  case Nil
  then show ?case by (auto simp: cut_at.simps [of p "[]"] split: if_splits)
next
  case (Cons c s)
  show ?case
  proof (cases "starts_with p (c # s)")
    case True
    then show ?thesis using Cons.prems by (auto simp: cut_at.simps [of p "c # s"])
  next
    case False
    then obtain a' where "cut_at p s = Some (a', b)" using Cons.prems by (auto simp: cut_at.simps [of p "c # s"])
    then show ?thesis using Cons.IH by fastforce
  qed
qed

lemma match_tag_shorter: "match_tag s = Some (k, p, b, u) \<Longrightarrow> length u < length s"
proof -
  assume m: "match_tag s = Some (k, p, b, u)"
  then obtain r q t where r: "tag_kind s = Some (k, r)" "tag_profiles r = Some (q, t)" "cut_at tag_end t = Some (b, u)"
    by (auto simp: match_tag_def split: Option.bind_splits)
  have "length t \<le> length r"
  proof (cases "strip_prefix '' profiles=\"'' r")
    case None
    then show ?thesis using r(2) strip_prefix_length by (fastforce simp: tag_profiles_def)
  next
    case (Some v)
    then have "strip_prefix ''\">'' (dropWhile (\<lambda>c. c \<noteq> CHR 0x22) v) = Some t"
      using r(2) by (auto simp: tag_profiles_def)
    then show ?thesis
      using strip_prefix_length [OF Some] strip_prefix_length length_dropWhile_le [of _ v] le_trans by metis
  qed
  moreover have "length r < length s"
  proof -
    obtain v where v: "strip_prefix ''<guard-block kind=\"'' s = Some v"
      and "strip_prefix ''network\"'' v = Some r \<or> strip_prefix ''command\"'' v = Some r"
      using r(1) by (auto simp: tag_kind_def split: option.splits)
    then have "length r \<le> length v" using strip_prefix_length by metis
    moreover have "length v < length s"
      using v by (cases s) (auto simp: strip_prefix_def split: if_splits)
    ultimately show ?thesis by simp
  qed
  ultimately show ?thesis using cut_at_length [OF r(3)] by simp
qed

text \<open>All matches, and the text without them: \<open>matchAll\<close> and \<open>replace\<close>.\<close>

function scan_tags :: "string \<Rightarrow> (block_kind \<times> string \<times> string) list \<times> string" where
  "scan_tags s =
     (case match_tag s of
        Some (k, p, b, u) \<Rightarrow> (let r = scan_tags u in ((k, p, b) # fst r, snd r))
      | None \<Rightarrow> (case s of [] \<Rightarrow> ([], []) | c # t \<Rightarrow> (let r = scan_tags t in (fst r, c # snd r))))"
  by pat_completeness auto
termination
  by (relation "measure length") (auto intro: match_tag_shorter)

declare scan_tags.simps [simp del]

text \<open>\<open>replace(/\n{3,}/g, '\n\n')\<close>\<close>

fun squeeze_run :: "nat \<Rightarrow> string \<Rightarrow> string" where
  "squeeze_run n [] = []"
| "squeeze_run n (c # s) =
     (if c = CHR 0x0A then (if 2 \<le> n then squeeze_run n s else c # squeeze_run (Suc n) s)
      else c # squeeze_run 0 s)"

definition squeeze_newlines :: "string \<Rightarrow> string" where
  "squeeze_newlines = squeeze_run 0"

definition comma_list :: "string \<Rightarrow> string list" where
  "comma_list s = filter (\<lambda>x. x \<noteq> []) (map trim (split_on CHR '','' s))"

definition parseBody :: "block_kind \<Rightarrow> string \<Rightarrow> string list \<Rightarrow> guard_block" where
  "parseBody kind body profileIds =
     \<lparr>gb_kind = kind,
      gb_items = (case cut_at (if kind = NetworkBlock then ''hosts:'' else ''cmd:'') body of
          None \<Rightarrow> [body]
        | Some (_, rest) \<Rightarrow> if kind = NetworkBlock then comma_list (trim rest) else [trim rest]),
      gb_note = NOTE_BY_KIND kind, gb_profileIds = profileIds\<rparr>"

definition extractGuardBlocks :: "string \<Rightarrow> guard_block list \<times> string" where
  "extractGuardBlocks input =
     (if input = [] \<or> \<not> contains ''<guard-block'' input then ([], input)
      else let r = scan_tags input in
        (map (\<lambda>(k, p, b). parseBody k (trim b) (comma_list p)) (fst r), trim (squeeze_newlines (snd r))))"

text \<open>How an item is shown: \<open>host:reason x3\<close> becomes \<open>host (reason) x3\<close>. The regular expression is
  \<open>/^(.*?)( x\d+)?$/\<close>.\<close>

definition split_count :: "string \<Rightarrow> string \<times> string" where
  "split_count raw =
     (let ds = rev (takeWhile is_digit (rev raw)); front = take (length raw - length ds) raw in
      if ds \<noteq> [] \<and> 2 \<le> length front \<and> drop (length front - 2) front = '' x''
         \<and> list_all (\<lambda>c. \<not> is_newline c) raw
      then (take (length front - 2) front, '' x'' @ ds) else (raw, []))"

definition formatItem :: "block_kind \<Rightarrow> string \<Rightarrow> string" where
  "formatItem kind raw =
     (if kind \<noteq> NetworkBlock then raw
      else case cut_at '':'' (fst (split_count raw)) of
          None \<Rightarrow> raw
        | Some (host, reason) \<Rightarrow> host @ '' ('' @ trim reason @ '')'' @ snd (split_count raw))"

section \<open>The frontend's side: the output\<close>

record parsed_output =
  po_exitCode :: "int option"
  po_body :: string
  po_guardBlocks :: "guard_block list"
  po_blocked :: bool
  po_errorText :: "string option"

text \<open>\<open>\s*\n+output:\n?([\s\S]*)$\<close>: the white space before \<open>output:\<close> has to end with a line feed.\<close>

definition match_output :: "string \<Rightarrow> string option" where
  "match_output s =
     (let w = takeWhile is_ws s in
      if w = [] \<or> last w \<noteq> CHR 0x0A then None
      else map_option (\<lambda>r. case r of c # t \<Rightarrow> if c = CHR 0x0A then t else r | [] \<Rightarrow> [])
        (strip_prefix ''output:'' (dropWhile is_ws s)))"

definition match_int :: "string \<Rightarrow> (int \<times> string) option" where
  "match_int s =
     (let neg = starts_with ''-'' s; t = (if neg then tl s else s); ds = takeWhile is_digit t in
      if ds = [] then None
      else Some (if neg then - int (digits_val ds) else int (digits_val ds), dropWhile is_digit t))"

text \<open>\<open>STATUS_EXIT\<close>; the text in brackets is optional.\<close>

definition match_exit :: "string \<Rightarrow> (int \<times> string) option" where
  "match_exit s = Option.bind (strip_prefix ''status:'' s) (\<lambda>r. Option.bind (strip_prefix ''exit'' (dropWhile is_ws r)) (\<lambda>t.
     if takeWhile is_ws t = [] then None
     else Option.bind (match_int (dropWhile is_ws t)) (\<lambda>(n, u).
       map_option (Pair n) (case strip_prefix ''('' (dropWhile is_ws u) of
           Some v \<Rightarrow> Option.bind (cut_at '')'' v) (\<lambda>(_, x). match_output x)
         | None \<Rightarrow> match_output u))))"

text \<open>\<open>STATUS_ERR\<close>: the text in brackets ends at the first closing bracket.\<close>

definition match_err :: "string \<Rightarrow> (string \<times> string) option" where
  "match_err s = Option.bind (strip_prefix ''status:'' s) (\<lambda>r. Option.bind (strip_prefix ''error'' (dropWhile is_ws r)) (\<lambda>t.
     Option.bind (strip_prefix ''('' (dropWhile is_ws t)) (\<lambda>v. Option.bind (cut_at '')'' v) (\<lambda>(msg, x).
       if msg = [] then None else map_option (Pair msg) (match_output x)))))"

definition parseToolOutput :: "string \<Rightarrow> parsed_output" where
  "parseToolOutput raw =
     (case match_exit raw of
        Some (n, out) \<Rightarrow>
          (let e = extractGuardBlocks (trim out) in
           \<lparr>po_exitCode = Some n, po_body = snd e, po_guardBlocks = fst e, po_blocked = False, po_errorText = None\<rparr>)
      | None \<Rightarrow> (case match_err raw of
          Some (msg, out) \<Rightarrow>
            (let e = extractGuardBlocks (trim out) in
             \<lparr>po_exitCode = None, po_body = snd e, po_guardBlocks = fst e, po_blocked = False, po_errorText = Some msg\<rparr>)
        | None \<Rightarrow>
            (let e = extractGuardBlocks raw in
             \<lparr>po_exitCode = None, po_body = snd e, po_guardBlocks = fst e,
              po_blocked = list_ex (\<lambda>b. gb_kind b = CommandBlock) (fst e) \<and> trim (snd e) = [], po_errorText = None\<rparr>)))"

section \<open>Lemmas on searching\<close>

lemma strip_prefix_append [simp]: "strip_prefix p (p @ s) = Some s"
  by (simp add: strip_prefix_def)

lemma strip_prefix_Cons: "strip_prefix (c # p) (d # s) = (if c = d then strip_prefix p s else None)"
  by (auto simp: strip_prefix_def starts_with_def)

lemma strip_prefix_nil [simp]: "strip_prefix [] s = Some s" "strip_prefix (c # p) [] = None"
  by (simp_all add: strip_prefix_def starts_with_def)

lemma starts_with_Cons_Cons [simp]: "starts_with (c # p) (d # s) \<longleftrightarrow> c = d \<and> starts_with p s"
  by (auto simp: starts_with_def)

lemma starts_with_empty [simp]: "starts_with [] s"
  by (simp add: starts_with_def)

lemma cut_at_here [simp]: "cut_at p (p @ s) = Some ([], s)"
  by (subst cut_at.simps) simp

lemma cut_at_hd: "p = h # q \<Longrightarrow> h \<notin> set a \<Longrightarrow> cut_at p (a @ p @ s) = Some (a, s)"
proof (induction a)
  case Nil
  then show ?case using cut_at_here [of p s] by simp
next
  case (Cons c a)
  then show ?case by (simp add: cut_at.simps [of "h # q" "c # _"])
qed

lemma contains_Cons: "contains p (c # s) \<longleftrightarrow> starts_with p (c # s) \<or> contains p s"
  by (subst contains.simps) simp

lemma contains_nil: "contains p [] \<longleftrightarrow> p = []"
  by (subst contains.simps) (auto simp: starts_with_def)

lemma contains_prefix: "starts_with p s \<Longrightarrow> contains p s"
  by (subst contains.simps) simp

lemma contains_append: "contains p s \<Longrightarrow> contains p (a @ s)"
  by (induction a) (auto simp: contains_Cons)

lemma contains_iff: "contains p s \<longleftrightarrow> (\<exists>a b. s = a @ p @ b)"
proof
  show "contains p s \<Longrightarrow> \<exists>a b. s = a @ p @ b"
  proof (induction s)
    case Nil
    then show ?case by (simp add: contains_nil)
  next
    case (Cons c s)
    show ?case
    proof (cases "starts_with p (c # s)")
      case True
      then show ?thesis using starts_withD by (metis append_Nil)
    next
      case False
      then obtain a b where "s = a @ p @ b" using Cons by (auto simp: contains_Cons)
      then have "c # s = (c # a) @ p @ b" by simp
      then show ?thesis by blast
    qed
  qed
  show "\<exists>a b. s = a @ p @ b \<Longrightarrow> contains p s"
    by (metis contains_append contains_prefix starts_with_append)
qed

lemma contains_trim: "contains p (trim s) \<Longrightarrow> contains p s"
proof -
  obtain t where t: "trim_start s = trim s @ t" using trim_end_prefix unfolding trim_def by blast
  moreover have "s = takeWhile is_ws s @ trim_start s" by (simp add: trim_start_def)
  ultimately have "s = takeWhile is_ws s @ trim s @ t" by metis
  then show "contains p (trim s) \<Longrightarrow> contains p s" by (metis contains_iff append.assoc)
qed

text \<open>An occurrence does not reach over a character the pattern does not have.\<close>

lemma starts_with_over:
  assumes "c \<notin> set p" "p \<noteq> []" "\<not> starts_with p s" shows "\<not> starts_with p (s @ c # t)"
proof
  assume "starts_with p (s @ c # t)"
  then have p: "take (length p) (s @ c # t) = p" by (simp add: starts_with_def)
  show False
  proof (cases "length p \<le> length s")
    case True
    then show ?thesis using p assms(3) by (simp add: starts_with_def)
  next
    case False
    then obtain n where "length p - length s = Suc n" by (cases "length p - length s") auto
    then have "c \<in> set (take (length p) (s @ c # t))" by simp
    then show ?thesis unfolding p using assms(1) by blast
  qed
qed

section \<open>Lemmas on the tags\<close>

definition tag_start :: string where "tag_start = ''<guard-block''"

lemma match_tag_start: "match_tag s \<noteq> None \<Longrightarrow> starts_with tag_start s"
proof -
  assume "match_tag s \<noteq> None"
  then obtain v where "strip_prefix ''<guard-block kind=\"'' s = Some v"
    by (auto simp: match_tag_def tag_kind_def split: option.splits Option.bind_splits)
  then have "starts_with ''<guard-block kind=\"'' s" by (auto simp: strip_prefix_def split: if_splits)
  then have "starts_with (tag_start @ '' kind=\"'') s" by (simp add: tag_start_def)
  then show ?thesis by (metis starts_withD append.assoc starts_with_append)
qed

lemma scan_skip: "match_tag (c # t) = None \<Longrightarrow> scan_tags (c # t) = (fst (scan_tags t), c # snd (scan_tags t))"
  by (subst scan_tags.simps) (simp add: Let_def)

lemma scan_match: "match_tag s = Some (k, p, b, u) \<Longrightarrow> scan_tags s = ((k, p, b) # fst (scan_tags u), snd (scan_tags u))"
  by (subst scan_tags.simps) (simp add: Let_def)

lemma scan_nil [simp]: "scan_tags [] = ([], [])"
  by (subst scan_tags.simps) (simp add: match_tag_def tag_kind_def)

lemma scan_over: "\<not> contains tag_start out \<Longrightarrow> c \<notin> set tag_start \<Longrightarrow>
    scan_tags (out @ c # t) = (fst (scan_tags t), out @ c # snd (scan_tags t))"
proof (induction out)
  case Nil
  then have "\<not> starts_with tag_start (c # t)" by (auto simp: tag_start_def)
  then have "match_tag (c # t) = None" using match_tag_start by blast
  then show ?case by (simp add: scan_skip)
next
  case (Cons d out)
  then have "\<not> starts_with tag_start (d # out @ c # t)"
    using starts_with_over [of c tag_start "d # out" t] by (simp add: contains_Cons tag_start_def)
  then have "match_tag (d # out @ c # t) = None" using match_tag_start by blast
  then show ?case using Cons by (simp add: scan_skip contains_Cons)
qed

lemma sanitized_payload: "CHR ''<'' \<notin> set (sanitizeTagPayload s)" "CHR ''>'' \<notin> set (sanitizeTagPayload s)"
  by (auto simp: sanitizeTagPayload_def angle_open_def angle_close_def split: if_splits)

lemma sanitized_attr: "CHR 0x22 \<notin> set (sanitizeAttrValue s)" "CHR '','' \<notin> set (sanitizeAttrValue s)"
  by (auto simp: sanitizeAttrValue_def)

definition kind_name :: "block_kind \<Rightarrow> string" where
  "kind_name k = (case k of NetworkBlock \<Rightarrow> ''network'' | CommandBlock \<Rightarrow> ''command'')"

definition attr_list :: "string list \<Rightarrow> string list" where
  "attr_list ids = map sanitizeAttrValue (dedupe (filter (\<lambda>i. i \<noteq> []) (map trim ids)))"

lemma profilesAttr_attr_list:
  "profilesAttr ids = (if attr_list ids = [] then [] else '' profiles=\"'' @ join '','' (attr_list ids) @ ''\"'')"
  by (auto simp: profilesAttr_def attr_list_def Let_def)

lemma set_join_sep: "set (join sep xs) \<subseteq> set sep \<union> \<Union> (set ` set xs)"
  by (induction sep xs rule: join.induct) auto

lemma attr_list_quote: "CHR 0x22 \<notin> set (join '','' (attr_list ids))"
  using set_join_sep [of "'',''" "attr_list ids"] sanitized_attr(1) by (auto simp: attr_list_def)

lemma takeWhile_upto: "c \<notin> set a \<Longrightarrow> takeWhile (\<lambda>x. x \<noteq> c) (a @ c # s) = a"
  "c \<notin> set a \<Longrightarrow> dropWhile (\<lambda>x. x \<noteq> c) (a @ c # s) = c # s"
  by (induction a) auto

lemma tag_profiles_attr: "tag_profiles (profilesAttr ids @ ''>'' @ s) = Some (join '','' (attr_list ids), s)"
proof (cases "attr_list ids = []")
  case True
  then show ?thesis by (simp add: profilesAttr_attr_list tag_profiles_def strip_prefix_Cons)
next
  case False
  then show ?thesis using takeWhile_upto [OF attr_list_quote]
    by (simp add: profilesAttr_attr_list tag_profiles_def strip_prefix_Cons)
qed

lemma match_guard_tag:
  assumes "CHR ''<'' \<notin> set b"
  shows "match_tag (''<guard-block kind=\"'' @ kind_name k @ ''\"'' @ profilesAttr ids @ ''>'' @ b @ tag_end @ u)
     = Some (k, join '','' (attr_list ids), b, u)"
proof -
  have "tag_kind (''<guard-block kind=\"'' @ kind_name k @ ''\"'' @ s) = Some (k, s)" for s
    by (cases k) (simp_all add: tag_kind_def kind_name_def strip_prefix_Cons)
  moreover have "cut_at tag_end (b @ tag_end @ u) = Some (b, u)"
    by (rule cut_at_hd [of _ "CHR ''<''" "''/guard-block>''"]) (simp_all add: tag_end_def assms)
  ultimately show ?thesis using tag_profiles_attr by (simp add: match_tag_def)
qed

lemma comma_list_attr: "comma_list (join '','' (attr_list ids)) = filter (\<lambda>i. i \<noteq> []) (map trim (attr_list ids))"
proof (cases "attr_list ids = []")
  case False
  then have "split_on CHR '','' (join '','' (attr_list ids)) = attr_list ids"
    by (rule split_on_join) (auto simp: attr_list_def sanitized_attr)
  then show ?thesis by (simp add: comma_list_def)
qed (simp add: comma_list_def)

section \<open>Lemmas on the output\<close>

lemma trim_end_ws: "list_all is_ws w \<Longrightarrow> trim_end (s @ w) = trim_end s"
  by (induction w rule: rev_induct) (auto simp: trim_end_snoc simp flip: append_assoc)

lemma trim_start_append: "list_all is_ws w \<Longrightarrow> trim_start (w @ s) = trim_start s"
  by (induction w) (auto simp: trim_start_def)

lemma trim_start_end_ws: "list_all is_ws w \<Longrightarrow> trim (s @ w) = trim s"
proof -
  assume w: "list_all is_ws w"
  show ?thesis
  proof (cases "list_all is_ws s")
    case True
    then have "trim_start (s @ w) = []" "trim_start s = []"
      using w by (auto simp: trim_start_def list_all_iff)
    then show ?thesis by (simp add: trim_def)
  next
    case False
    then have "trim_start (s @ w) = trim_start s @ w"
      by (induction s) (auto simp: trim_start_def)
    then show ?thesis using w by (simp add: trim_def trim_end_ws)
  qed
qed

lemma trim_around: "list_all is_ws v \<Longrightarrow> list_all is_ws w \<Longrightarrow> trim (v @ s @ w) = trim s"
  using trim_start_end_ws [of w "v @ s"] trim_start_append [of v s] by (simp add: trim_def)

lemma trim_split: "\<exists>v w. s = v @ trim s @ w \<and> list_all is_ws v \<and> list_all is_ws w"
proof -
  obtain w where w: "trim_start s = trim s @ w" "list_all is_ws w" using trim_end_prefix unfolding trim_def by blast
  have "s = takeWhile is_ws s @ trim s @ w" using w(1) by (metis takeWhile_dropWhile_id trim_start_def)
  moreover have "list_all is_ws (takeWhile is_ws s)" by (auto simp: list_all_iff dest: set_takeWhileD)
  ultimately show ?thesis using w(2) by blast
qed

lemma trim_append_solid: "t \<noteq> [] \<Longrightarrow> \<not> is_ws (hd t) \<Longrightarrow> \<not> is_ws (last t) \<Longrightarrow> trim (s @ t) = trim_start s @ t"
proof -
  assume t: "t \<noteq> []" "\<not> is_ws (hd t)" "\<not> is_ws (last t)"
  have "trim_start (s @ t) = trim_start s @ t"
    using t trim_start_id [of t] by (induction s) (auto simp: trim_start_def)
  then show ?thesis using t trim_end_id [of "trim_start s @ t"] by (simp add: trim_def)
qed

lemma newline_ws [simp]: "is_ws CHR 0x0A"
  by (simp add: is_ws_def)

lemma squeeze_append_ws: "list_all is_ws w \<Longrightarrow> \<exists>v. list_all is_ws v \<and> squeeze_run n (s @ w) = squeeze_run n s @ v"
proof (induction n s rule: squeeze_run.induct)
  case (1 n)
  have "set (squeeze_run n w) \<subseteq> set w" by (induction n w rule: squeeze_run.induct) (auto split: if_splits)
  then show ?case using 1 by (auto simp: list_all_iff)
next
  case (2 n c s)
  then show ?case by auto
qed

lemma squeeze_ws_append: "list_all is_ws w \<Longrightarrow> \<exists>v k. list_all is_ws v \<and> squeeze_run n (w @ s) = v @ squeeze_run k s"
proof (induction n w rule: squeeze_run.induct)
  case (1 n)
  have "squeeze_run n ([] @ s) = [] @ squeeze_run n s" by simp
  moreover have "list_all is_ws []" by simp
  ultimately show ?case by blast
next
  case (2 n c w)
  show ?case
  proof (cases "c = CHR 0x0A \<and> 2 \<le> n")
    case True
    then show ?thesis using 2 by auto
  next
    case False
    then obtain v k m where "list_all is_ws v" "squeeze_run n ((c # w) @ s) = c # squeeze_run m (w @ s)"
        "squeeze_run m (w @ s) = v @ squeeze_run k s"
      using 2 by (cases "c = CHR 0x0A") auto
    then have "list_all is_ws (c # v)" "squeeze_run n ((c # w) @ s) = (c # v) @ squeeze_run k s" using 2(4) by auto
    then show ?thesis by blast
  qed
qed

lemma squeeze_solid: "s = [] \<or> \<not> is_ws (hd s) \<Longrightarrow> squeeze_run n s = squeeze_run 0 s"
  by (cases s) auto

lemma hd_squeeze: "s \<noteq> [] \<Longrightarrow> \<not> is_ws (hd s) \<Longrightarrow> squeeze_newlines s \<noteq> [] \<and> hd (squeeze_newlines s) = hd s"
  by (cases s) (auto simp: squeeze_newlines_def)

lemma last_squeeze_run: "s \<noteq> [] \<Longrightarrow> \<not> is_ws (last s) \<Longrightarrow> squeeze_run n s \<noteq> [] \<and> last (squeeze_run n s) = last s"
  by (induction n s rule: squeeze_run.induct) (auto split: if_splits)

lemma trimmed_squeeze: "trimmed s \<Longrightarrow> trimmed (squeeze_newlines s)"
  using hd_squeeze [of s] last_squeeze_run [of s 0] by (cases "s = []") (auto simp: trimmed_def squeeze_newlines_def)

lemma trim_squeeze: "trim (squeeze_newlines s) = squeeze_newlines (trim s)"
proof -
  obtain v w where vw: "s = v @ trim s @ w" "list_all is_ws v" "list_all is_ws w" using trim_split by blast
  obtain v' k where v': "list_all is_ws v'" "squeeze_newlines s = v' @ squeeze_run k (trim s @ w)"
    using squeeze_ws_append [OF vw(2), of 0 "trim s @ w"] vw(1) by (metis squeeze_newlines_def)
  obtain w' where w': "list_all is_ws w'" "squeeze_run k (trim s @ w) = squeeze_run k (trim s) @ w'"
    using squeeze_append_ws [OF vw(3)] by blast
  have "squeeze_run k (trim s) = squeeze_newlines (trim s)"
    using squeeze_solid [of "trim s" k] trimmed_trim [of s] by (auto simp: squeeze_newlines_def trimmed_def)
  then have "trim (squeeze_newlines s) = trim (squeeze_newlines (trim s))"
    using trim_around [OF v'(1) w'(1)] v'(2) w'(2) by simp
  then show ?thesis using trim_id [OF trimmed_squeeze [OF trimmed_trim]] by simp
qed

lemma nat_str_digits: "list_all is_digit (nat_str n)" "nat_str n \<noteq> []"
  using all_digits_nat_str [of n] by (auto simp: all_digits_def)

lemma takeWhile_digits: "\<not> is_digit c \<Longrightarrow> takeWhile is_digit (nat_str n @ c # s) = nat_str n \<and> dropWhile is_digit (nat_str n @ c # s) = c # s"
  using nat_str_digits(1) [of n] by (auto simp: list_all_iff takeWhile_append dropWhile_append takeWhile_eq_all_conv)

lemma match_int_str: "\<not> is_digit c \<Longrightarrow> match_int (int_str i @ c # s) = Some (i, c # s)"
proof (cases "i < 0")
  case False
  then have "\<not> starts_with ''-'' (nat_str (nat i) @ c # s)"
    using nat_str_digits [of "nat i"] by (cases "nat_str (nat i)") (auto simp: is_digit_def)
  then show "\<not> is_digit c \<Longrightarrow> ?thesis"
    using takeWhile_digits [of c "nat i" s] False nat_str_digits(2) by (simp add: match_int_def int_str_def digits_val_nat_str Let_def)
qed (use takeWhile_digits [of c "nat (- i)" s] nat_str_digits(2) in \<open>simp add: match_int_def int_str_def digits_val_nat_str Let_def\<close>)

lemma match_output_text: "match_output ([CHR 0x0A] @ ''output:'' @ [CHR 0x0A] @ s) = Some s"
  by (simp add: match_output_def is_ws_def strip_prefix_Cons)

section \<open>What the frontend reads\<close>

lemma match_exit_status:
  "match_exit (status_line (Some (ExitStatus n)) @ [CHR 0x0A] @ ''output:'' @ [CHR 0x0A] @ s) = Some (n, s)"
  "match_exit (status_line None @ [CHR 0x0A] @ ''output:'' @ [CHR 0x0A] @ s) = Some (0, s)"
proof -
  have ws: "is_ws CHR 0x0A" "\<not> is_ws CHR ''e''" "\<not> is_ws CHR ''('' " "\<not> is_digit CHR '' ''"
    by (simp_all add: is_ws_def is_digit_def)
  have d: "takeWhile is_ws (int_str n @ t) = [] \<and> dropWhile is_ws (int_str n @ t) = int_str n @ t" for n t
  proof -
    obtain c u where "int_str n = c # u" using nat_str_digits(2) by (cases "int_str n") (auto simp: int_str_def split: if_splits)
    moreover have "c = CHR ''-'' \<or> is_digit c"
      using calculation nat_str_digits(1) [of "nat n"] by (auto simp: int_str_def split: if_splits)
    ultimately show ?thesis by (auto simp: is_ws_def is_digit_def)
  qed
  have m: "match_exit (''status: exit '' @ int_str n @ '' '' @ w @ [CHR 0x0A] @ ''output:'' @ [CHR 0x0A] @ s) = Some (n, s)"
    if "w = ''(error)'' \<or> w = ''(success)''" for n w
    using that d [of n] match_int_str [of "CHR '' ''" n] match_output_text [of s] ws
    by (auto simp: match_exit_def strip_prefix_Cons cut_at.simps)
  show "match_exit (status_line (Some (ExitStatus n)) @ [CHR 0x0A] @ ''output:'' @ [CHR 0x0A] @ s) = Some (n, s)"
    using m [of "''(error)''" n] by (simp add: status_line_def)
  have "int_str 0 = ''0''" by (simp add: int_str_def nat_str.simps digit_char_def)
  then show "match_exit (status_line None @ [CHR 0x0A] @ ''output:'' @ [CHR 0x0A] @ s) = Some (0, s)"
    using m [of "''(success)''" 0] by (simp add: status_line_def)
qed

definition exit_code :: "run_error option \<Rightarrow> int" where
  "exit_code e = (case e of Some (ExitStatus n) \<Rightarrow> n | _ \<Rightarrow> 0)"

text \<open>Hosts and reasons as the gateway records them: no commas, no white space at the ends.\<close>

definition plain_host :: "host_block \<Rightarrow> bool" where
  "plain_host h \<longleftrightarrow> hb_host h \<noteq> [] \<and> CHR '','' \<notin> set (hb_host h @ hb_reason h) \<and> trimmed (hb_host h) \<and> trimmed (hb_reason h)"

lemma int_str_plain: "CHR '','' \<notin> set (int_str n)" "int_str n \<noteq> [] \<and> \<not> is_ws (last (int_str n))" "CHR ''<'' \<notin> set (int_str n)"
proof -
  have "\<not> is_digit CHR '',''" "\<not> is_digit CHR ''<''" "\<forall>c. is_digit c \<longrightarrow> \<not> is_ws c" by (auto simp: is_digit_def is_ws_def)
  moreover have "nat_str k \<noteq> [] \<and> is_digit (last (nat_str k))" for k
    using nat_str_digits [of k] by (auto simp: list_all_iff)
  ultimately show "CHR '','' \<notin> set (int_str n)" "int_str n \<noteq> [] \<and> \<not> is_ws (last (int_str n))" "CHR ''<'' \<notin> set (int_str n)"
    using nat_str_digits(1) by (auto simp: int_str_def list_all_iff)
qed

lemma sanitize_ws: "trimmed s \<Longrightarrow> trimmed (sanitizeTagPayload s)"
  by (cases "s = []") (auto simp: trimmed_def sanitizeTagPayload_def hd_map last_map angle_open_def angle_close_def is_ws_def)

lemma sanitize_nil [simp]: "sanitizeTagPayload s = [] \<longleftrightarrow> s = []" "sanitizeTagPayload [] = []"
  by (auto simp: sanitizeTagPayload_def)

lemma sanitize_comma: "CHR '','' \<notin> set s \<Longrightarrow> CHR '','' \<notin> set (sanitizeTagPayload s)"
  by (auto simp: sanitizeTagPayload_def angle_open_def angle_close_def split: if_splits)

lemma host_entry_plain:
  assumes "plain_host h"
  shows "trimmed (host_entry h)" "host_entry h \<noteq> []" "CHR '','' \<notin> set (host_entry h)" "CHR ''<'' \<notin> set (host_entry h)"
proof -
  note p = assms [unfolded plain_host_def]
  show "host_entry h \<noteq> []" using p by (simp add: host_entry_def)
  have "trimmed (sanitizeTagPayload (hb_host h))" "trimmed (sanitizeTagPayload (hb_reason h))"
    using p sanitize_ws by auto
  then show "trimmed (host_entry h)"
    using p int_str_plain(2) [of "hb_count h"] by (auto simp: host_entry_def trimmed_def)
  show "CHR '','' \<notin> set (host_entry h)"
    using p sanitize_comma int_str_plain(1) by (auto simp: host_entry_def)
  show "CHR ''<'' \<notin> set (host_entry h)"
    using sanitized_payload(1) int_str_plain(3) by (auto simp: host_entry_def)
qed

lemma comma_list_entries:
  assumes "hs \<noteq> []" "list_all plain_host hs"
  shows "comma_list (join '', '' (map host_entry hs)) = map host_entry hs"
proof -
  have e: "trimmed (host_entry h) \<and> host_entry h \<noteq> [] \<and> CHR '','' \<notin> set (host_entry h)" if "h \<in> set hs" for h
    using assms(2) that host_entry_plain by (auto simp: list_all_iff)
  have "split_on CHR '','' (join (CHR '','' # '' '') (map host_entry hs)) = hd (map host_entry hs) # map (\<lambda>x. '' '' @ x) (tl (map host_entry hs))"
    by (rule split_on_join_sep) (use assms e in auto)
  then have s: "split_on CHR '','' (join '', '' (map host_entry hs)) = host_entry (hd hs) # map (\<lambda>h. '' '' @ host_entry h) (tl hs)"
    using assms(1) by (simp add: hd_map map_tl comp_def)
  have "trim (host_entry h) = host_entry h" "trim ('' '' @ host_entry h) = host_entry h" if "h \<in> set hs" for h
    using e [OF that] by (simp_all add: trim_id trim_start_ws)
  then have "map trim (host_entry (hd hs) # map (\<lambda>h. '' '' @ host_entry h) (tl hs)) = map host_entry (hd hs # tl hs)"
    using assms(1) by (cases hs) auto
  then show ?thesis using s e assms(1) by (simp add: comma_list_def)
qed

definition shown_profiles :: "string list \<Rightarrow> string list" where
  "shown_profiles ids = filter (\<lambda>i. i \<noteq> []) (map trim (attr_list ids))"

definition network_badge :: "host_block list \<Rightarrow> guard_block" where
  "network_badge bs = \<lparr>gb_kind = NetworkBlock, gb_items = map host_entry bs, gb_note = NOTE_BY_KIND NetworkBlock,
     gb_profileIds = shown_profiles (block_profiles bs)\<rparr>"

definition network_body :: "host_block list \<Rightarrow> string" where
  "network_body bs = ''policy block (not network/DNS). edit /guard-profiles. hosts: '' @ join '', '' (map host_entry bs)"

lemma network_body_lt: "list_all plain_host bs \<Longrightarrow> CHR ''<'' \<notin> set (network_body bs)"
  using set_join_sep [of "'', ''" "map host_entry bs"] host_entry_plain(4)
  by (auto simp: network_body_def list_all_iff)

lemma join_trimmed: "xs \<noteq> [] \<Longrightarrow> (\<forall>x \<in> set xs. trimmed x \<and> x \<noteq> []) \<Longrightarrow> join sep xs \<noteq> [] \<and> trimmed (join sep xs)"
proof (induction sep xs rule: join.induct)
  case (3 sep x y ys)
  then have "join sep (y # ys) \<noteq> []" "trimmed (join sep (y # ys))" "trimmed x" "x \<noteq> []" by auto
  then show ?case by (auto simp: trimmed_def)
qed auto

lemma parse_network_body:
  assumes "bs \<noteq> []" "list_all plain_host bs"
  shows "parseBody NetworkBlock (trim (network_body bs)) ids
     = \<lparr>gb_kind = NetworkBlock, gb_items = map host_entry bs, gb_note = NOTE_BY_KIND NetworkBlock, gb_profileIds = ids\<rparr>"
proof -
  have j: "join '', '' (map host_entry bs) \<noteq> [] \<and> trimmed (join '', '' (map host_entry bs))"
    by (rule join_trimmed) (use assms host_entry_plain in \<open>auto simp: list_all_iff\<close>)
  then have "trimmed (network_body bs)" by (auto simp: network_body_def trimmed_def is_ws_def)
  moreover have "cut_at ''hosts:'' (network_body bs) = Some (''policy block (not network/DNS). edit /guard-profiles. '', '' '' @ join '', '' (map host_entry bs))"
    by (simp add: network_body_def cut_at.simps)
  ultimately show ?thesis using comma_list_entries [OF assms] j
    by (simp add: parseBody_def trim_id trim_start_ws)
qed

lemma egress_tag: "bs \<noteq> [] \<Longrightarrow> egressFooter bs = CHR 0x0A # ''<guard-block kind=\"'' @ kind_name NetworkBlock @ ''\"''
    @ profilesAttr (block_profiles bs) @ ''>'' @ network_body bs @ tag_end @ []"
  by (simp add: egressFooter_def kind_name_def network_body_def)

lemma scan_footer:
  assumes "bs \<noteq> []" "list_all plain_host bs" "\<not> contains tag_start out"
  shows "scan_tags (out @ egressFooter bs)
     = ([(NetworkBlock, join '','' (attr_list (block_profiles bs)), network_body bs)], out @ [CHR 0x0A])"
  using scan_over [OF assms(3), of "CHR 0x0A"] match_guard_tag [OF network_body_lt [OF assms(2)], of NetworkBlock "block_profiles bs" "[]", THEN scan_match]
  by (simp add: egress_tag [OF assms(1)] tag_start_def)

lemma extract_footer:
  assumes "bs \<noteq> []" "list_all plain_host bs" "\<not> contains tag_start out"
  shows "extractGuardBlocks (trim (out @ egressFooter bs)) = ([network_badge bs], squeeze_newlines (trim out))"
proof -
  let ?t = "''<guard-block kind=\"'' @ kind_name NetworkBlock @ ''\"'' @ profilesAttr (block_profiles bs) @ ''>'' @ network_body bs @ tag_end"
  have f: "egressFooter bs = CHR 0x0A # ?t" using egress_tag [OF assms(1)] by simp
  have t: "?t \<noteq> []" "\<not> is_ws (hd ?t)" "\<not> is_ws (last ?t)" by (simp_all add: tag_end_def is_ws_def)
  have scan_t: "scan_tags ?t = ([(NetworkBlock, join '','' (attr_list (block_profiles bs)), network_body bs)], [])"
    using match_guard_tag [OF network_body_lt [OF assms(2)], of NetworkBlock "block_profiles bs" "[]", THEN scan_match] by simp
  have trim_eq: "trim (out @ egressFooter bs) = trim_start (out @ [CHR 0x0A]) @ ?t"
    using trim_append_solid [OF t, of "out @ [CHR 0x0A]"] f by simp
  have "contains tag_start ?t" unfolding contains_iff
    by (rule exI [of _ "[]"]) (simp add: tag_start_def)
  then have c: "contains tag_start (trim (out @ egressFooter bs))" unfolding trim_eq by (rule contains_append)
  have badge: "parseBody NetworkBlock (trim (network_body bs)) (comma_list (join '','' (attr_list (block_profiles bs)))) = network_badge bs"
    using parse_network_body [OF assms(1,2)] comma_list_attr by (simp add: network_badge_def shown_profiles_def)
  have scan: "fst (scan_tags (trim (out @ egressFooter bs))) = [(NetworkBlock, join '','' (attr_list (block_profiles bs)), network_body bs)]
     \<and> trim (snd (scan_tags (trim (out @ egressFooter bs)))) = trim out"
  proof (cases "list_all is_ws out")
    case True
    then have "trim_start (out @ [CHR 0x0A]) = []" by (auto simp: trim_start_def list_all_iff)
    then show ?thesis using True scan_t trim_start_end_ws [of out "[]"] trim_eq by simp
  next
    case False
    then have s: "trim_start (out @ [CHR 0x0A]) = trim_start out @ [CHR 0x0A]" by (induction out) (auto simp: trim_start_def)
    have "out = takeWhile is_ws out @ trim_start out" by (simp add: trim_start_def)
    then have "\<not> contains tag_start (trim_start out)" using assms(3) contains_append by metis
    then have "scan_tags (trim (out @ egressFooter bs)) = (fst (scan_tags ?t), trim_start out @ CHR 0x0A # snd (scan_tags ?t))"
      unfolding trim_eq s using scan_over [of "trim_start out" "CHR 0x0A" ?t] by (simp add: tag_start_def)
    then show ?thesis using scan_t trim_start_end_ws [of "[CHR 0x0A]" "trim_start out"] by (simp add: trim_def trim_start_def)
  qed
  show ?thesis using c scan badge unfolding extractGuardBlocks_def
    by (auto simp: Let_def trim_squeeze tag_start_def contains_nil)
qed

lemma with_footer_text: "bs \<noteq> [] \<Longrightarrow> \<not> contains tag_start out \<Longrightarrow>
    \<exists>o'. with_footer out bs = o' @ egressFooter bs \<and> \<not> contains tag_start o' \<and> trim o' = trim out"
proof -
  assume bs: "bs \<noteq> []" and c: "\<not> contains tag_start out"
  show ?thesis
  proof (cases "out \<noteq> [] \<and> last out \<noteq> CHR 0x0A")
    case True
    have "\<not> contains tag_start (out @ [CHR 0x0A])"
    proof
      assume "contains tag_start (out @ [CHR 0x0A])"
      then obtain a b where ab: "out @ [CHR 0x0A] = a @ tag_start @ b" by (auto simp: contains_iff)
      show False
      proof (cases b rule: rev_cases)
        case Nil
        then show ?thesis using ab arg_cong [OF ab, of last] by (simp add: tag_start_def)
      next
        case (snoc b' x)
        then have "out = a @ tag_start @ b'" using ab by (metis append.assoc butlast_snoc)
        then show ?thesis using c contains_iff by blast
      qed
    qed
    then show ?thesis using True bs trim_start_end_ws [of "[CHR 0x0A]" out] by (simp add: with_footer_def)
  next
    case False
    then have "with_footer out bs = out @ egressFooter bs" using bs by (auto simp: with_footer_def)
    then show ?thesis using c by blast
  qed
qed

lemma footer_not_blank: "bs \<noteq> [] \<Longrightarrow> trim (o' @ egressFooter bs) \<noteq> []"
  using trim_append_solid [of "tl (egressFooter bs)" "o' @ [CHR 0x0A]"] by (auto simp: egress_tag tag_end_def is_ws_def)

text \<open>C10: What the server's shell tool prints is read back by the log view: the exit status, one badge with every
  host the gateway blocked, in order, with its reason and count, the profiles behind it, and the command's own output
  without the tag.\<close>

theorem tool_result_roundtrip:
  assumes "e = None \<or> e = Some (ExitStatus n)" "bs \<noteq> []" "list_all plain_host bs" "\<not> contains tag_start out"
  shows "parseToolOutput (formatCommandToolResult (with_footer out bs) e)
     = \<lparr>po_exitCode = Some (exit_code e), po_body = squeeze_newlines (trim out), po_guardBlocks = [network_badge bs],
        po_blocked = False, po_errorText = None\<rparr>"
proof -
  obtain o' where o': "with_footer out bs = o' @ egressFooter bs" "\<not> contains tag_start o'" "trim o' = trim out"
    using with_footer_text [OF assms(2,4)] by blast
  have "match_exit (formatCommandToolResult (with_footer out bs) e) = Some (exit_code e, o' @ egressFooter bs)"
    using assms(1) o'(1) footer_not_blank [OF assms(2)] match_exit_status(1) [of n] match_exit_status(2)
    by (auto simp: formatCommandToolResult_def exit_code_def)
  then show ?thesis using extract_footer [OF assms(2,3) o'(2)] o'(3) by (simp add: parseToolOutput_def)
qed

lemma tool_result_roundtrip_witness:
  "parseToolOutput (formatCommandToolResult (with_footer ''curl: (7)'' [\<lparr>hb_host = ''evil.io'', hb_reason = ''denied'', hb_count = 3, hb_profiles = [''gp1'']\<rparr>]) (Some (ExitStatus 7)))
     = \<lparr>po_exitCode = Some 7, po_body = ''curl: (7)'',
        po_guardBlocks = [\<lparr>gb_kind = NetworkBlock, gb_items = [''evil.io:denied x3''], gb_note = NOTE_BY_KIND NetworkBlock, gb_profileIds = [''gp1'']\<rparr>],
        po_blocked = False, po_errorText = None\<rparr>"
proof -
  let ?b = "\<lparr>hb_host = ''evil.io'', hb_reason = ''denied'', hb_count = 3, hb_profiles = [''gp1'']\<rparr>"
  have p: "list_all plain_host [?b]" by code_simp
  have c: "\<not> contains tag_start ''curl: (7)''" by code_simp
  have v: "network_badge [?b] = \<lparr>gb_kind = NetworkBlock, gb_items = [''evil.io:denied x3''], gb_note = NOTE_BY_KIND NetworkBlock, gb_profileIds = [''gp1'']\<rparr>"
    "squeeze_newlines (trim ''curl: (7)'') = ''curl: (7)''" "exit_code (Some (ExitStatus 7)) = 7"
    by code_simp+
  show ?thesis
    using tool_result_roundtrip [of "Some (ExitStatus 7)" 7 "[?b]" "''curl: (7)''"] p c v by simp
qed

text \<open>The badge of a blocked command.\<close>

definition blocked_item :: "string \<Rightarrow> string \<Rightarrow> string \<Rightarrow> string" where
  "blocked_item command rule message =
     (let detail = str_or (sanitizeTagPayload (trim message)) (sanitizeTagPayload (trim rule)) in
      str_or (sanitizeTagPayload (trim command)) ''(empty)''
        @ (if detail = [] then [] else '' '' @ [em_dash] @ '' '' @ detail))"

lemma blocked_item_plain: "CHR ''<'' \<notin> set (blocked_item c r m)" "blocked_item c r m \<noteq> []" "trimmed (blocked_item c r m)"
proof -
  let ?c = "str_or (sanitizeTagPayload (trim c)) ''(empty)''"
  let ?d = "str_or (sanitizeTagPayload (trim m)) (sanitizeTagPayload (trim r))"
  have c: "CHR ''<'' \<notin> set ?c" "?c \<noteq> []" "trimmed ?c"
    using sanitized_payload(1) sanitize_ws [OF trimmed_trim] by (auto simp: str_or_def trimmed_def is_ws_def)
  have d: "CHR ''<'' \<notin> set ?d" "trimmed ?d"
    using sanitized_payload(1) sanitize_ws [OF trimmed_trim] by (auto simp: str_or_def)
  show "CHR ''<'' \<notin> set (blocked_item c r m)" using c d by (auto simp: blocked_item_def em_dash_def Let_def)
  show "blocked_item c r m \<noteq> []" using c by (simp add: blocked_item_def Let_def)
  show "trimmed (blocked_item c r m)" using c d by (auto simp: blocked_item_def Let_def trimmed_def)
qed

text \<open>A command the guard refused is read as blocked, for every command, rule and message: one badge whose only
  item is the command with the reason behind it, with the profiles that refused it, and no output.\<close>

lemma blocked_command_read:
  "parseToolOutput (commandBlockTag command rule message ids)
     = \<lparr>po_exitCode = None, po_body = [],
        po_guardBlocks = [\<lparr>gb_kind = CommandBlock, gb_items = [blocked_item command rule message],
          gb_note = NOTE_BY_KIND CommandBlock, gb_profileIds = shown_profiles ids\<rparr>],
        po_blocked = True, po_errorText = None\<rparr>"
proof -
  let ?i = "blocked_item command rule message"
  let ?b = "''policy block (not a server error). edit /guard-profiles. cmd: '' @ ?i"
  let ?t = "''<guard-block kind=\"'' @ kind_name CommandBlock @ ''\"'' @ profilesAttr ids @ ''>'' @ ?b @ tag_end @ []"
  have t: "commandBlockTag command rule message ids = ?t"
    by (simp add: commandBlockTag_def blocked_item_def kind_name_def Let_def)
  have b: "CHR ''<'' \<notin> set ?b" "trimmed ?b"
    using blocked_item_plain [of command rule message] by (auto simp: trimmed_def is_ws_def)
  have s: "scan_tags ?t = ([(CommandBlock, join '','' (attr_list ids), ?b)], [])"
    using match_guard_tag [OF b(1), of CommandBlock ids "[]", THEN scan_match] by simp
  have "cut_at ''cmd:'' ?b = Some (''policy block (not a server error). edit /guard-profiles. '', '' '' @ ?i)"
    by (simp add: cut_at.simps)
  then have p: "parseBody CommandBlock (trim ?b) (comma_list (join '','' (attr_list ids))) = \<lparr>gb_kind = CommandBlock,
      gb_items = [?i], gb_note = NOTE_BY_KIND CommandBlock, gb_profileIds = shown_profiles ids\<rparr>"
    using blocked_item_plain [of command rule message] comma_list_attr [of ids] unfolding trim_id [OF b(2)]
    by (simp add: parseBody_def trim_id trim_start_ws shown_profiles_def)
  have c: "contains ''<guard-block'' ?t" unfolding contains_iff by (rule exI [of _ "[]"]) simp
  have e: "extractGuardBlocks ?t = ([parseBody CommandBlock (trim ?b) (comma_list (join '','' (attr_list ids)))], [])"
    using c s by (auto simp: extractGuardBlocks_def Let_def contains_nil squeeze_newlines_def)
  have "match_exit ?t = None" "match_err ?t = None" by (simp_all add: match_exit_def match_err_def strip_prefix_Cons)
  then show ?thesis unfolding t parseToolOutput_def e p by simp
qed

section \<open>Failures without an exit status\<close>

lemma match_exit_error: "match_exit (''status: error ('' @ s) = None"
  by (simp add: match_exit_def strip_prefix_Cons is_ws_def)

lemma match_err_error: "match_err (''status: error ('' @ s)
    = Option.bind (cut_at '')'' s) (\<lambda>(msg, x). if msg = [] then None else map_option (Pair msg) (match_output x))"
  by (simp add: match_err_def strip_prefix_Cons is_ws_def)

lemma failure_text: "formatCommandToolResult out (Some (OtherError msg))
    = ''status: error ('' @ trim msg @ '')'' @ [CHR 0x0A] @ ''output:'' @ [CHR 0x0A] @ (if trim out = [] then ''(no output)'' else out)"
  by (simp add: formatCommandToolResult_def status_line_def)

lemma not_contains_trim: "\<not> contains p s \<Longrightarrow> \<not> contains p (trim s)"
  using contains_trim by blast

text \<open>A failure whose text has no closing bracket is read back.\<close>

lemma failure_is_read:
  assumes "CHR '')'' \<notin> set msg" "trim msg \<noteq> []" "\<not> contains tag_start out"
  shows "parseToolOutput (formatCommandToolResult out (Some (OtherError msg)))
     = \<lparr>po_exitCode = None, po_body = (if trim out = [] then ''(no output)'' else trim out), po_guardBlocks = [],
        po_blocked = False, po_errorText = Some (trim msg)\<rparr>"
proof -
  have "CHR '')'' \<notin> set (trim msg)" using assms(1) set_trim by blast
  then have "cut_at '')'' (trim msg @ '')'' @ s) = Some (trim msg, s)" for s using cut_at_hd [of "'')''" "CHR '')''" "[]"] by simp
  then have m: "match_err (formatCommandToolResult out (Some (OtherError msg))) = Some (trim msg, if trim out = [] then ''(no output)'' else out)"
    using assms(2) match_output_text [of "if trim out = [] then ''(no output)'' else out"] unfolding failure_text match_err_error by simp
  have "\<not> contains ''<guard-block'' ''(no output)''" by code_simp
  then have "extractGuardBlocks (trim (if trim out = [] then ''(no output)'' else out)) = ([], if trim out = [] then ''(no output)'' else trim out)"
    using not_contains_trim [OF assms(3)] by (auto simp: extractGuardBlocks_def tag_start_def trim_id trimmed_def is_ws_def)
  then show ?thesis using m match_exit_error unfolding parseToolOutput_def by (simp add: failure_text)
qed

text \<open>One with a closing bracket in it is not: the pattern's text stops at the first one.\<close>

lemma match_err_lost:
  assumes "trim msg = a @ '')'' @ r" "CHR '')'' \<notin> set a" "r = [] \<or> \<not> is_ws (hd r)"
  shows "match_err (formatCommandToolResult out (Some (OtherError msg))) = None"
proof -
  have "cut_at '')'' (trim msg @ s) = Some (a, r @ s)" for s
    using cut_at_hd [of "'')''" "CHR '')''" "[]" a "r @ s"] assms by simp
  moreover have "\<not> is_ws CHR '')''" by (simp add: is_ws_def)
  then have "match_output (r @ '')'' @ u) = None" for u using assms(3) by (cases r) (auto simp: match_output_def)
  ultimately show ?thesis unfolding failure_text match_err_error by simp
qed

end
