(* ===== verification/LogEntries.thy ===== *)
theory LogEntries
  imports ToolOutput
begin

text \<open>
  The log of a session as the log view shows it: \<open>components/LogEntries.tsx\<close>, and its copy in the shell window
  of the desktop, \<open>pages/chat-winxp/WinXpCmdTerminal.tsx\<close>. Instants are milliseconds; the current time is an argument.
\<close>

section \<open>Groups\<close>

record log_entry =
  le_type :: string
  le_content :: string
  le_timestamp :: int

datatype log_group =
    GroupRun log_entry "log_entry option"
  | GroupThought log_entry
  | GroupOrphan log_entry

definition is_answer :: "log_entry \<Rightarrow> bool" where
  "is_answer e \<longleftrightarrow> le_type e = ''output'' \<or> le_type e = ''error''"

fun groupEntries :: "log_entry list \<Rightarrow> log_group list" where
  "groupEntries [] = []"
| "groupEntries (e # es) =
     (if le_type e = ''command'' then
        (case es of
          next # rest \<Rightarrow> if is_answer next then GroupRun e (Some next) # groupEntries rest
            else GroupRun e None # groupEntries es
        | [] \<Rightarrow> [GroupRun e None])
      else (if le_type e = ''thought'' then GroupThought e else GroupOrphan e) # groupEntries es)"

section \<open>Rows\<close>

datatype row_status = RowOk | RowFail | RowBlocked | RowRunning | RowPending

record run_row =
  rr_command :: log_entry
  rr_parsed :: "parsed_output option"
  rr_status :: row_status
  rr_duration :: int

definition durationMs :: "int \<Rightarrow> int \<Rightarrow> int" where
  "durationMs start end' = max 0 (end' - start)"

definition output_status :: "log_entry \<Rightarrow> parsed_output \<Rightarrow> row_status" where
  "output_status output parsed =
     (if po_blocked parsed then RowBlocked
      else if le_type output = ''error'' then RowFail
      else case po_exitCode parsed of
          None \<Rightarrow> (if po_errorText parsed \<noteq> None \<and> po_errorText parsed \<noteq> Some [] then RowFail else RowOk)
        | Some n \<Rightarrow> if n = 0 then RowOk else RowFail)"

definition classifyRun :: "int \<Rightarrow> log_entry \<Rightarrow> log_entry option \<Rightarrow> bool \<Rightarrow> bool \<Rightarrow> run_row" where
  "classifyRun now command output isLastRun sessionRunning =
     (case output of
        None \<Rightarrow> \<lparr>rr_command = command, rr_parsed = None,
          rr_status = (if sessionRunning \<and> isLastRun then RowRunning else RowPending),
          rr_duration = durationMs (le_timestamp command) now\<rparr>
      | Some out \<Rightarrow> (let parsed = parseToolOutput (le_content out) in
          \<lparr>rr_command = command, rr_parsed = Some parsed, rr_status = output_status out parsed,
           rr_duration = durationMs (le_timestamp command) (le_timestamp out)\<rparr>))"

definition fmtMs :: "int \<Rightarrow> string" where
  "fmtMs = span_text"

definition status_label :: "row_status \<Rightarrow> int option \<Rightarrow> string" where
  "status_label s exit = (case s of
      RowOk \<Rightarrow> ''OK''
    | RowFail \<Rightarrow> (case exit of Some n \<Rightarrow> int_str n | None \<Rightarrow> ''ERR'')
    | RowBlocked \<Rightarrow> ''BLK''
    | RowRunning \<Rightarrow> [middle_dot, middle_dot, middle_dot]
    | RowPending \<Rightarrow> ''?'')"

text \<open>The gutter and the duration of a row.\<close>

definition row_exit :: "run_row \<Rightarrow> int option" where
  "row_exit r = Option.bind (rr_parsed r) po_exitCode"

definition row_gutter :: "run_row \<Rightarrow> string" where
  "row_gutter r = status_label (rr_status r) (row_exit r)"

definition row_duration :: "run_row \<Rightarrow> string" where
  "row_duration r = (if rr_status r = RowRunning then ''running'' @ [ellipsis]
     else if rr_status r = RowBlocked then ''blocked'' else fmtMs (rr_duration r))"

definition is_stderr :: "parsed_output \<Rightarrow> bool" where
  "is_stderr p \<longleftrightarrow> (\<exists>n \<in> set_option (po_exitCode p). n \<noteq> 0) \<or> (\<exists>t \<in> set_option (po_errorText p). t \<noteq> [])"

fun is_run :: "log_group \<Rightarrow> bool" where
  "is_run (GroupRun c out) = True"
| "is_run g = False"

definition lastRunIdx :: "log_group list \<Rightarrow> nat option" where
  "lastRunIdx gs = (case filter (\<lambda>i. is_run (gs ! i)) [0..<length gs] of [] \<Rightarrow> None | is \<Rightarrow> Some (last is))"

definition session_rows :: "int \<Rightarrow> bool \<Rightarrow> log_entry list \<Rightarrow> run_row option list" where
  "session_rows now hasRunning es =
     (let gs = groupEntries es in
      map (\<lambda>(i, g). case g of GroupRun c out \<Rightarrow> Some (classifyRun now c out (Some i = lastRunIdx gs) hasRunning) | _ \<Rightarrow> None)
        (enumerate 0 gs))"

definition run_rows :: "run_row option list \<Rightarrow> run_row list" where
  "run_rows rs = List.map_filter id rs"

section \<open>Summary\<close>

record session_summary =
  sm_total :: nat
  sm_ok :: nat
  sm_fail :: nat
  sm_blocked :: nat
  sm_running :: nat
  sm_totalMs :: int

definition add_row :: "run_row \<Rightarrow> session_summary \<Rightarrow> session_summary" where
  "add_row r s = (case rr_status r of
        RowOk \<Rightarrow> s\<lparr>sm_ok := sm_ok s + 1\<rparr>
      | RowFail \<Rightarrow> s\<lparr>sm_fail := sm_fail s + 1\<rparr>
      | RowBlocked \<Rightarrow> s\<lparr>sm_blocked := sm_blocked s + 1\<rparr>
      | RowRunning \<Rightarrow> s\<lparr>sm_running := sm_running s + 1\<rparr>
      | RowPending \<Rightarrow> s)\<lparr>sm_totalMs := sm_totalMs s + rr_duration r\<rparr>"

definition summarize :: "run_row list \<Rightarrow> session_summary" where
  "summarize rows =
     (fold add_row rows \<lparr>sm_total = 0, sm_ok = 0, sm_fail = 0, sm_blocked = 0, sm_running = 0, sm_totalMs = 0\<rparr>)
       \<lparr>sm_total := length rows\<rparr>"

definition SummaryPill :: "session_summary \<Rightarrow> string" where
  "SummaryPill s =
     (if 0 < sm_blocked s then nat_str (sm_blocked s) @ '' blocked''
      else if 0 < sm_running s then ''running''
      else if 0 < sm_fail s then nat_str (sm_fail s) @ '' failed''
      else ''all ok'')"

record session_header =
  sh_host :: "string option"
  sh_count :: string
  sh_pill :: "string option"
  sh_time :: "string option"

definition SessionHeader :: "string \<Rightarrow> string \<Rightarrow> session_summary \<Rightarrow> session_header" where
  "SessionHeader host agentName s =
     \<lparr>sh_host = (if host = [] \<and> agentName = [] then None else Some (str_or host agentName)),
      sh_count = nat_str (sm_total s) @ '' '' @ (if sm_total s = 1 then ''cmd'' else ''cmds''),
      sh_pill = (if 0 < sm_total s then Some (SummaryPill s) else None),
      sh_time = (if 0 < sm_totalMs s then Some (fmtMs (sm_totalMs s)) else None)\<rparr>"

text \<open>What the session view shows: nothing, or some of its parts.\<close>

record session_view =
  sv_prompt :: "string option"
  sv_header :: "session_header option"
  sv_waiting :: bool
  sv_rows :: "run_row option list"

definition SessionView :: "int \<Rightarrow> log_entry list \<Rightarrow> string \<Rightarrow> string \<Rightarrow> bool \<Rightarrow> bool \<Rightarrow> string \<Rightarrow> session_view option" where
  "SessionView now entries host agentName hasRunning showHeader prompt =
     (let rows = session_rows now hasRunning entries; summary = summarize (run_rows rows); hasPrompt = (trim prompt \<noteq> []) in
      if groupEntries entries = [] \<and> \<not> hasPrompt \<and> \<not> hasRunning then None
      else Some \<lparr>sv_prompt = (if hasPrompt then Some prompt else None),
        sv_header = (if showHeader \<and> 0 < sm_total summary then Some (SessionHeader host agentName summary) else None),
        sv_waiting = (hasRunning \<and> groupEntries entries = []), sv_rows = rows\<rparr>)"

section \<open>The shell window\<close>

text \<open>A run in the shell window: the output it prints and whether it is red, and the line below it.\<close>

definition strip_newlines_end :: "string \<Rightarrow> string" where
  "strip_newlines_end s = rev (dropWhile (\<lambda>c. c = CHR 0x0A) (rev s))"

record cmd_run =
  cr_body :: "(bool \<times> string) option"
  cr_error :: "string option"
  cr_foot :: "(bool \<times> string) option"

definition cmd_exit_fail :: "parsed_output \<Rightarrow> bool" where
  "cmd_exit_fail p \<longleftrightarrow> (case po_exitCode p of Some n \<Rightarrow> n \<noteq> 0 | None \<Rightarrow> False)"

definition cmd_elapsed :: "int \<Rightarrow> string" where
  "cmd_elapsed ms = (if ms \<le> 0 then []
     else '' '' @ [middle_dot] @ '' '' @ (if ms < 1000 then int_str ms @ ''ms'' else to_fixed 1 (of_int ms / 1000) @ ''s''))"

definition RunBlock :: "log_entry \<Rightarrow> log_entry option \<Rightarrow> cmd_run" where
  "RunBlock command output = (case output of
      None \<Rightarrow> \<lparr>cr_body = None, cr_error = None, cr_foot = None\<rparr>
    | Some out \<Rightarrow>
        (let p = parseToolOutput (le_content out); isError = (le_type out = ''error''); red = (isError \<or> cmd_exit_fail p) in
         \<lparr>cr_body = (if po_body p = [] then None else Some (red, strip_newlines_end (po_body p))),
          cr_error = (if po_errorText p = Some [] then None else po_errorText p),
          cr_foot = Some (red, ''['' @ (case po_exitCode p of Some n \<Rightarrow> ''exit '' @ int_str n
              | None \<Rightarrow> if isError then ''exit ERR'' else ''done'')
            @ cmd_elapsed (le_timestamp out - le_timestamp command) @ '']'')\<rparr>))"

text \<open>The loop of the shell window's copy, by index.\<close>

function group_from :: "log_entry list \<Rightarrow> nat \<Rightarrow> log_group list" where
  "group_from es i =
     (if i < length es then
        (let e = es ! i in
         if le_type e = ''command'' then
           (case JsPrelude.at es (i + 1) of
              Some next \<Rightarrow> if is_answer next then GroupRun e (Some next) # group_from es (i + 2)
                else GroupRun e None # group_from es (i + 1)
            | None \<Rightarrow> GroupRun e None # group_from es (i + 1))
         else if le_type e = ''thought'' then GroupThought e # group_from es (i + 1)
         else GroupOrphan e # group_from es (i + 1))
      else [])"
  by pat_completeness auto
termination
  by (relation "measure (\<lambda>(es, i). length es - i)") auto

declare group_from.simps [simp del]

definition groupCmdEntries :: "log_entry list \<Rightarrow> log_group list" where
  "groupCmdEntries es = group_from es 0"

text \<open>The result of a step without a log: its class and its text.\<close>

definition cmd_step_result :: "string \<Rightarrow> string \<Rightarrow> (bool \<times> string) option" where
  "cmd_step_result step_status result =
     (if result = [] then None
      else let p = parseToolOutput result in
        Some (step_status = ''error'' \<or> cmd_exit_fail p, str_or (po_body p) result))"

text \<open>The lines of a thought, as comments.\<close>

definition thought_lines :: "string \<Rightarrow> string" where
  "thought_lines content = join [CHR 0x0A] (map (\<lambda>l. '':: '' @ l) (split_on CHR 0x0A content))"

section \<open>Lemmas on groups\<close>

fun group_entries :: "log_group \<Rightarrow> log_entry list" where
  "group_entries (GroupRun c out) = c # (case out of Some e \<Rightarrow> [e] | None \<Rightarrow> [])"
| "group_entries (GroupThought e) = [e]"
| "group_entries (GroupOrphan e) = [e]"

lemma group_from_drop: "group_from es i = groupEntries (drop i es)"
proof (induction es i rule: group_from.induct)
  case (1 es i)
  show ?case
  proof (cases "i < length es")
    case True
    then have d: "drop i es = es ! i # drop (i + 1) es" by (simp add: Cons_nth_drop_Suc)
    show ?thesis
    proof (cases "i + 1 < length es")
      case True
      then have "drop (i + 1) es = es ! (i + 1) # drop (i + 2) es" by (metis Cons_nth_drop_Suc add_Suc_right nat_1_add_1 Suc_eq_plus1)
      then show ?thesis using 1 d True by (subst group_from.simps) (auto simp: JsPrelude.at_def Let_def)
    next
      case False
      then have "drop (i + 1) es = []" by simp
      then show ?thesis using 1 d \<open>i < length es\<close> False by (subst group_from.simps) (auto simp: JsPrelude.at_def Let_def)
    qed
  next
    case False
    then show ?thesis by (subst group_from.simps) simp
  qed
qed

text \<open>A run takes the entry after its command only when that is its answer.\<close>

fun well_grouped :: "log_group \<Rightarrow> bool" where
  "well_grouped (GroupRun c out) = (le_type c = ''command'' \<and> (\<forall>a \<in> set_option out. is_answer a))"
| "well_grouped (GroupThought e) = (le_type e = ''thought'')"
| "well_grouped (GroupOrphan e) = (le_type e \<noteq> ''command'' \<and> le_type e \<noteq> ''thought'')"

text \<open>The log view loses nothing of a log and shows its entries in their order: every command opens a run, the
  output or error right after it belongs to that run, and everything else stands alone.\<close>

theorem groups_are_the_log:
  "concat (map group_entries (groupEntries es)) = es \<and> list_all well_grouped (groupEntries es)
     \<and> length (filter is_run (groupEntries es)) = length (filter (\<lambda>e. le_type e = ''command'') es)"
proof (induction es rule: groupEntries.induct)
  case (2 e es)
  then show ?case by (cases es) (auto simp: is_answer_def)
qed simp

text \<open>The shell window's own loop groups a log as the log view does.\<close>

theorem shell_window_groups_alike: "groupCmdEntries es = groupEntries es"
  by (simp add: groupCmdEntries_def group_from_drop)

section \<open>Lemmas on the summary\<close>

definition count_status :: "row_status \<Rightarrow> run_row list \<Rightarrow> nat" where
  "count_status s rows = length (filter (\<lambda>r. rr_status r = s) rows)"

lemma fold_add_row: "fold add_row rows s = \<lparr>sm_total = sm_total s, sm_ok = sm_ok s + count_status RowOk rows,
    sm_fail = sm_fail s + count_status RowFail rows, sm_blocked = sm_blocked s + count_status RowBlocked rows,
    sm_running = sm_running s + count_status RowRunning rows, sm_totalMs = sm_totalMs s + (\<Sum>r\<leftarrow>rows. rr_duration r)\<rparr>"
proof (induction rows arbitrary: s)
  case Nil
  then show ?case by (simp add: count_status_def)
next
  case (Cons r rows)
  then show ?case by (cases "rr_status r") (simp_all add: add_row_def count_status_def)
qed

lemma summarize_counts: "summarize rows = \<lparr>sm_total = length rows, sm_ok = count_status RowOk rows,
    sm_fail = count_status RowFail rows, sm_blocked = count_status RowBlocked rows,
    sm_running = count_status RowRunning rows, sm_totalMs = (\<Sum>r\<leftarrow>rows. rr_duration r)\<rparr>"
  by (simp add: summarize_def fold_add_row)

lemma count_status_0: "count_status s rows = 0 \<longleftrightarrow> (\<forall>r \<in> set rows. rr_status r \<noteq> s)"
  by (auto simp: count_status_def filter_empty_conv)

text \<open>The header's verdict is \<open>all ok\<close> unless a row is blocked, running or failed.\<close>

lemma all_ok_iff: "SummaryPill (summarize rows) = ''all ok'' \<longleftrightarrow>
    (\<forall>r \<in> set rows. rr_status r = RowOk \<or> rr_status r = RowPending)"
proof -
  have n: "nat_str k @ '' blocked'' \<noteq> ''all ok''" "nat_str k @ '' failed'' \<noteq> ''all ok''" for k
  proof -
    obtain c u where "nat_str k = c # u" "is_digit c" using nat_str_digits [of k] by (cases "nat_str k") auto
    then show "nat_str k @ '' blocked'' \<noteq> ''all ok''" "nat_str k @ '' failed'' \<noteq> ''all ok''" by (auto simp: is_digit_def)
  qed
  have "SummaryPill (summarize rows) = ''all ok'' \<longleftrightarrow>
      count_status RowBlocked rows = 0 \<and> count_status RowRunning rows = 0 \<and> count_status RowFail rows = 0"
    using n by (auto simp: SummaryPill_def summarize_counts)
  moreover have "s = RowOk \<or> s = RowPending \<longleftrightarrow> s \<noteq> RowBlocked \<and> s \<noteq> RowRunning \<and> s \<noteq> RowFail" for s by (cases s) simp_all
  ultimately show ?thesis unfolding count_status_0 by blast
qed

section \<open>Verdicts\<close>

lemma parse_exit: "po_exitCode (parseToolOutput (formatCommandToolResult out (Some (ExitStatus n)))) = Some n"
  "po_exitCode (parseToolOutput (formatCommandToolResult out None)) = Some 0"
  "\<not> po_blocked (parseToolOutput (formatCommandToolResult out (Some (ExitStatus n))))"
  "\<not> po_blocked (parseToolOutput (formatCommandToolResult out None))"
  using match_exit_status(1) [of n "if trim out = [] then ''(no output)'' else out"]
    match_exit_status(2) [of "if trim out = [] then ''(no output)'' else out"]
  by (simp_all add: parseToolOutput_def formatCommandToolResult_def Let_def)

text \<open>The row of a command that ran says how it ended, whatever the command printed: OK for status 0, the status
  itself otherwise; the shell window's line agrees.\<close>

theorem row_tells_the_exit_status:
  assumes "le_type output = ''output''" and "le_content output = formatCommandToolResult out e"
    and "e = None \<or> e = Some (ExitStatus n)"
  shows "rr_status (classifyRun now c (Some output) isLast running) = (if exit_code e = 0 then RowOk else RowFail)
    \<and> row_gutter (classifyRun now c (Some output) isLast running) = (if exit_code e = 0 then ''OK'' else int_str (exit_code e))
    \<and> cr_foot (RunBlock c (Some output)) = Some (exit_code e \<noteq> 0,
        ''[exit '' @ int_str (exit_code e) @ cmd_elapsed (le_timestamp output - le_timestamp c) @ '']'')"
proof -
  have p: "po_exitCode (parseToolOutput (le_content output)) = Some (exit_code e)" "\<not> po_blocked (parseToolOutput (le_content output))"
    using assms parse_exit by (auto simp: exit_code_def)
  then show ?thesis using assms(1)
    by (simp add: classifyRun_def output_status_def row_gutter_def row_exit_def status_label_def RunBlock_def cmd_exit_fail_def Let_def)
qed

lemma row_tells_the_exit_status_witness:
  "row_gutter (classifyRun 0 \<lparr>le_type = ''command'', le_content = ''ls'', le_timestamp = 0\<rparr>
      (Some \<lparr>le_type = ''output'', le_content = formatCommandToolResult ''x'' (Some (ExitStatus 2)), le_timestamp = 9\<rparr>) True False) = ''2''"
proof -
  have "int_str 2 = ''2''" by code_simp
  then show ?thesis
    using row_tells_the_exit_status [of "\<lparr>le_type = ''output'', le_content = formatCommandToolResult ''x'' (Some (ExitStatus 2)), le_timestamp = 9\<rparr>"
        "''x''" "Some (ExitStatus 2)" 2 0 "\<lparr>le_type = ''command'', le_content = ''ls'', le_timestamp = 0\<rparr>" True False]
    by (simp add: exit_code_def)
qed

text \<open>A refused command: the log view marks the row as blocked and shows its badge, with the command, the reason
  and the profiles; the shell window prints nothing of that and ends the run with \<open>done\<close>, not in red.\<close>

theorem blocked_command_in_both_views:
  assumes "le_type output = ''output''" and "le_content output = commandBlockTag command rule message ids"
  shows "row_gutter (classifyRun now c (Some output) isLast running) = ''BLK''
    \<and> rr_parsed (classifyRun now c (Some output) isLast running) = Some \<lparr>po_exitCode = None, po_body = [],
        po_guardBlocks = [\<lparr>gb_kind = CommandBlock, gb_items = [blocked_item command rule message],
          gb_note = NOTE_BY_KIND CommandBlock, gb_profileIds = shown_profiles ids\<rparr>], po_blocked = True, po_errorText = None\<rparr>
    \<and> RunBlock c (Some output) = \<lparr>cr_body = None, cr_error = None,
        cr_foot = Some (False, ''[done'' @ cmd_elapsed (le_timestamp output - le_timestamp c) @ '']'')\<rparr>"
  using assms by (simp add: classifyRun_def output_status_def row_gutter_def row_exit_def status_label_def RunBlock_def
    cmd_exit_fail_def blocked_command_read Let_def)

lemma blocked_command_in_both_views_witness:
  "cr_foot (RunBlock \<lparr>le_type = ''command'', le_content = ''rm -rf /'', le_timestamp = 5\<rparr>
      (Some \<lparr>le_type = ''output'', le_content = commandBlockTag ''rm -rf /'' ''rm *'' [] [''gp1''], le_timestamp = 5\<rparr>)) = Some (False, ''[done]'')"
  using blocked_command_in_both_views [of "\<lparr>le_type = ''output'', le_content = commandBlockTag ''rm -rf /'' ''rm *'' [] [''gp1''], le_timestamp = 5\<rparr>"
      "''rm -rf /''" "''rm *''" "[]" "[''gp1'']" 5 "\<lparr>le_type = ''command'', le_content = ''rm -rf /'', le_timestamp = 5\<rparr>" True False]
  by (simp add: cmd_elapsed_def)

lemma failure_without_tag:
  assumes "trim msg = a @ '')'' @ r" "CHR '')'' \<notin> set a" "r = [] \<or> \<not> is_ws (hd r)"
    and "\<not> contains tag_start (formatCommandToolResult out (Some (OtherError msg)))"
  shows "parseToolOutput (formatCommandToolResult out (Some (OtherError msg)))
     = \<lparr>po_exitCode = None, po_body = formatCommandToolResult out (Some (OtherError msg)), po_guardBlocks = [], po_blocked = False, po_errorText = None\<rparr>"
proof -
  have "extractGuardBlocks (formatCommandToolResult out (Some (OtherError msg))) = ([], formatCommandToolResult out (Some (OtherError msg)))"
    using assms(4) by (simp add: extractGuardBlocks_def tag_start_def)
  moreover have "match_exit (formatCommandToolResult out (Some (OtherError msg))) = None"
    using match_exit_error by (simp add: failure_text)
  moreover have "match_err (formatCommandToolResult out (Some (OtherError msg))) = None"
    by (rule match_err_lost) (fact assms)+
  ultimately show ?thesis unfolding parseToolOutput_def by simp
qed

text \<open>A command that could not be run is shown as failed with its error when the error's text has no closing
  bracket; with one, the status line is not understood and the row, and the session with only that command, are shown as ok.\<close>

theorem failure_with_brackets_is_shown_ok:
  assumes "le_type c = ''command''" "le_type output = ''output''"
    and "le_content output = formatCommandToolResult out (Some (OtherError msg))"
    and "\<not> contains tag_start (formatCommandToolResult out (Some (OtherError msg)))" "\<not> contains tag_start out" "trim msg \<noteq> []"
  shows "(CHR '')'' \<notin> set msg \<longrightarrow> row_gutter (classifyRun now c (Some output) True False) = ''ERR'')
    \<and> (\<forall>a r. trim msg = a @ '')'' @ r \<longrightarrow> CHR '')'' \<notin> set a \<longrightarrow> r = [] \<or> \<not> is_ws (hd r) \<longrightarrow>
         row_gutter (classifyRun now c (Some output) True False) = ''OK''
         \<and> map_option sv_header (SessionView now [c, output] host agent False True prompt)
             = Some (Some (SessionHeader host agent (summarize [classifyRun now c (Some output) True False])))
         \<and> SummaryPill (summarize [classifyRun now c (Some output) True False]) = ''all ok'')"
proof (intro conjI impI allI)
  assume "CHR '')'' \<notin> set msg"
  then show "row_gutter (classifyRun now c (Some output) True False) = ''ERR''"
    using failure_is_read [of msg out] assms
    by (simp add: classifyRun_def output_status_def row_gutter_def row_exit_def status_label_def Let_def)
next
  fix a r assume l: "trim msg = a @ '')'' @ r" "CHR '')'' \<notin> set a" "r = [] \<or> \<not> is_ws (hd r)"
  let ?row = "classifyRun now c (Some output) True False"
  have ok: "rr_status ?row = RowOk"
    using failure_without_tag [OF l assms(4)] assms by (simp add: classifyRun_def output_status_def Let_def)
  then show "row_gutter ?row = ''OK''" by (simp add: row_gutter_def status_label_def)
  show "SummaryPill (summarize [?row]) = ''all ok''" unfolding all_ok_iff using ok by simp
  have "groupEntries [c, output] = [GroupRun c (Some output)]" using assms(1,2) by (simp add: is_answer_def)
  then have "session_rows now False [c, output] = [Some ?row]"
    by (simp add: session_rows_def Let_def lastRunIdx_def enumerate_eq_zip)
  then show "map_option sv_header (SessionView now [c, output] host agent False True prompt)
      = Some (Some (SessionHeader host agent (summarize [?row])))"
    using \<open>groupEntries [c, output] = _\<close> by (simp add: SessionView_def Let_def run_rows_def map_filter_simps summarize_counts)
qed

lemma failure_with_brackets_is_shown_ok_witness:
  "SummaryPill (summarize [classifyRun 9 \<lparr>le_type = ''command'', le_content = ''ls'', le_timestamp = 0\<rparr>
      (Some \<lparr>le_type = ''output'', le_content = formatCommandToolResult [] (Some (OtherError ''tags do not match (16 vs 4)'')), le_timestamp = 9\<rparr>)
      True False]) = ''all ok''"
proof -
  let ?m = "''tags do not match (16 vs 4)''"
  have m: "trim ?m = ''tags do not match (16 vs 4'' @ '')'' @ []" "trim ?m \<noteq> []" by code_simp+
  have c: "\<not> contains tag_start (formatCommandToolResult [] (Some (OtherError ?m)))" "\<not> contains tag_start []" by code_simp+
  show ?thesis
    using failure_with_brackets_is_shown_ok [of "\<lparr>le_type = ''command'', le_content = ''ls'', le_timestamp = 0\<rparr>"
        "\<lparr>le_type = ''output'', le_content = formatCommandToolResult [] (Some (OtherError ?m)), le_timestamp = 9\<rparr>" "[]" ?m 9 "[]" "[]" "[]",
        THEN conjunct2, THEN spec [of _ "''tags do not match (16 vs 4''"], THEN spec [of _ "[]"]] m c
    by simp
qed

lemma group_commands: "list_all (\<lambda>e. le_type e = ''command'') es \<Longrightarrow> groupEntries es = map (\<lambda>e. GroupRun e None) es"
proof (induction es rule: groupEntries.induct)
  case (2 e es)
  then show ?case by (cases es) (auto simp: is_answer_def)
qed simp

lemma run_rows_Some: "run_rows (map (\<lambda>x. Some (f x)) xs) = map f xs"
  by (induction xs) (simp_all add: run_rows_def map_filter_simps)

text \<open>In a session that has ended, commands without an answer are rows marked \<open>?\<close>, and a session of such rows only
  is headed \<open>all ok\<close>.\<close>

theorem unanswered_commands_are_all_ok:
  assumes "es \<noteq> []" and "list_all (\<lambda>e. le_type e = ''command'') es"
  shows "Option.bind (Option.bind (SessionView now es host agent False True prompt) sv_header) sh_pill = Some ''all ok''
    \<and> list_all (\<lambda>r. row_gutter r = ''?'') (run_rows (session_rows now False es))"
proof -
  let ?f = "\<lambda>(i, e). classifyRun now e None (Some i = lastRunIdx (groupEntries es)) False"
  have g: "groupEntries es = map (\<lambda>e. GroupRun e None) es" by (rule group_commands) (rule assms)
  have "session_rows now False es = map (\<lambda>x. Some (?f x)) (enumerate 0 es)"
    by (simp add: session_rows_def g enumerate_map_upt [symmetric] enumerate_eq_zip zip_map2 case_prod_beta' Let_def)
  then have rows: "run_rows (session_rows now False es) = map ?f (enumerate 0 es)" by (simp add: run_rows_Some)
  have pending: "\<forall>r \<in> set (map ?f (enumerate 0 es)). rr_status r = RowPending" by (auto simp: classifyRun_def)
  have pill: "SummaryPill (summarize (map ?f (enumerate 0 es))) = ''all ok''" unfolding all_ok_iff using pending by blast
  have "0 < sm_total (summarize (map ?f (enumerate 0 es)))" using assms(1) by (simp add: summarize_counts)
  then have "Option.bind (Option.bind (SessionView now es host agent False True prompt) sv_header) sh_pill = Some ''all ok''"
    using pill assms(1) by (simp add: SessionView_def rows g Let_def SessionHeader_def)
  moreover have "list_all (\<lambda>r. row_gutter r = ''?'') (run_rows (session_rows now False es))"
    unfolding rows list_all_iff using pending by (simp add: row_gutter_def status_label_def)
  ultimately show ?thesis by blast
qed

lemma unanswered_commands_are_all_ok_witness:
  "Option.bind (Option.bind (SessionView 50 [\<lparr>le_type = ''command'', le_content = ''ls'', le_timestamp = 0\<rparr>] ''web'' [] False True []) sv_header) sh_pill
     = Some ''all ok''"
  using unanswered_commands_are_all_ok [of "[\<lparr>le_type = ''command'', le_content = ''ls'', le_timestamp = 0\<rparr>]" 50 "''web''" "[]" "[]"] by simp

text \<open>The words of the shell window for a step without a log.\<close>

lemma blocked_step_prints_its_tag:
  "cmd_step_result ''completed'' (commandBlockTag command rule message ids) = Some (False, commandBlockTag command rule message ids)"
proof -
  have "commandBlockTag command rule message ids \<noteq> []" by (simp add: commandBlockTag_def Let_def)
  then show ?thesis by (simp only: cmd_step_result_def blocked_command_read cmd_exit_fail_def str_or_def Let_def) simp
qed

end
