(* ===== verification/ChatParts.thy ===== *)
theory ChatParts
  imports ApiTypes JsNumbers
begin

text \<open>
  What a chat bubble shows of a message: \<open>components/chat-messages/parts.ts\<close>, which puts the tool calls
  between the pieces of text they interrupted, and \<open>utils.ts\<close>. A text here is a list of Unicode scalar
  values; the offsets of the tool calls count bytes of its UTF-8 form, so the encoder and the
  decoder of the browser are written out: the decoder replaces what is not UTF-8 by \<open>U+FFFD\<close> and drops a
  leading byte order mark, as the encoding standard says.
\<close>

section \<open>UTF-8\<close>

type_synonym utext = "nat list"
type_synonym bytes = "nat list"

definition scalar :: "nat \<Rightarrow> bool" where
  "scalar c \<longleftrightarrow> c < 0xD800 \<or> 0xE000 \<le> c \<and> c \<le> 0x10FFFF"

definition encode1 :: "nat \<Rightarrow> bytes" where
  "encode1 c =
     (if c < 0x80 then [c]
      else if c < 0x800 then [0xC0 + c div 64, 0x80 + c mod 64]
      else if c < 0x10000 then [0xE0 + c div 4096, 0x80 + c div 64 mod 64, 0x80 + c mod 64]
      else [0xF0 + c div 262144, 0x80 + c div 4096 mod 64, 0x80 + c div 64 mod 64, 0x80 + c mod 64])"

definition encode :: "utext \<Rightarrow> bytes" where
  "encode t = concat (map encode1 t)"

definition replacement :: nat where "replacement = 0xFFFD"

text \<open>The continuation bytes; \<open>lo\<close> and \<open>hi\<close> bound the next one.\<close>

fun decode_tail :: "nat \<Rightarrow> nat \<Rightarrow> nat \<Rightarrow> nat \<Rightarrow> bytes \<Rightarrow> nat \<times> bytes" where
  "decode_tail 0 acc lo hi r = (acc, r)"
| "decode_tail (Suc n) acc lo hi [] = (replacement, [])"
| "decode_tail (Suc n) acc lo hi (c # r) =
     (if lo \<le> c \<and> c \<le> hi then decode_tail n (acc * 64 + (c - 0x80)) 0x80 0xBF r else (replacement, c # r))"

definition decode1 :: "nat \<Rightarrow> bytes \<Rightarrow> nat \<times> bytes" where
  "decode1 b r =
     (if b < 0x80 then (b, r)
      else if 0xC2 \<le> b \<and> b \<le> 0xDF then decode_tail 1 (b - 0xC0) 0x80 0xBF r
      else if 0xE0 \<le> b \<and> b \<le> 0xEF
        then decode_tail 2 (b - 0xE0) (if b = 0xE0 then 0xA0 else 0x80) (if b = 0xED then 0x9F else 0xBF) r
      else if 0xF0 \<le> b \<and> b \<le> 0xF4
        then decode_tail 3 (b - 0xF0) (if b = 0xF0 then 0x90 else 0x80) (if b = 0xF4 then 0x8F else 0xBF) r
      else (replacement, r))"

lemma decode_tail_shorter: "length (snd (decode_tail n acc lo hi r)) \<le> length r"
  by (induction n acc lo hi r rule: decode_tail.induct) auto

lemma decode1_shorter: "length (snd (decode1 b r)) \<le> length r"
  using decode_tail_shorter by (simp add: decode1_def)

function decode_raw :: "bytes \<Rightarrow> utext" where
  "decode_raw [] = []"
| "decode_raw (b # r) = fst (decode1 b r) # decode_raw (snd (decode1 b r))"
  by pat_completeness auto
termination
  by (relation "measure length") (auto simp: le_imp_less_Suc decode1_shorter)

definition decode :: "bytes \<Rightarrow> utext" where
  "decode bs = (case decode_raw bs of c # t \<Rightarrow> if c = 0xFEFF then t else c # t | [] \<Rightarrow> [])"

text \<open>The white space of \<open>trim\<close>.\<close>

definition is_space :: "nat \<Rightarrow> bool" where
  "is_space c \<longleftrightarrow> 9 \<le> c \<and> c \<le> 13 \<or> c = 32 \<or> c = 160 \<or> c = 0x1680 \<or> 0x2000 \<le> c \<and> c \<le> 0x200A
     \<or> c = 0x2028 \<or> c = 0x2029 \<or> c = 0x202F \<or> c = 0x205F \<or> c = 0x3000 \<or> c = 0xFEFF"

definition trim_text :: "utext \<Rightarrow> utext" where
  "trim_text t = rev (dropWhile is_space (rev (dropWhile is_space t)))"

section \<open>Parts\<close>

datatype part = TextPart utext | StepPart step

definition step_offset :: "step \<Rightarrow> int" where
  "step_offset s = or_else (content_offset s) 0"

definition text_part :: "utext \<Rightarrow> part list" where
  "text_part t = (if trim_text t = [] then [] else [TextPart (trim_text t)])"

fun place_steps :: "bytes \<Rightarrow> nat \<Rightarrow> step list \<Rightarrow> part list" where
  "place_steps bs pos [] = (if pos < length bs then text_part (decode (drop pos bs)) else [])"
| "place_steps bs pos (s # ss) =
     (if int pos < step_offset s then text_part (decode (take (nat (step_offset s) - pos) (drop pos bs))) else [])
     @ StepPart s # place_steps bs (max pos (nat (step_offset s))) ss"

definition buildInterleavedParts :: "utext \<Rightarrow> step list \<Rightarrow> part list" where
  "buildInterleavedParts content steps =
     (if steps = [] then (if content = [] then [] else [TextPart content])
      else if \<not> list_ex (\<lambda>s. 0 < step_offset s) steps
        then map StepPart steps @ (if content = [] then [] else [TextPart content])
      else place_steps (encode content) 0 (sort_key step_offset steps))"

section \<open>Decoding what was encoded\<close>

lemma decode_two: "2 \<le> d \<Longrightarrow> d \<le> 31 \<Longrightarrow> m < 64 \<Longrightarrow> decode1 (0xC0 + d) ((0x80 + m) # s) = (d * 64 + m, s)"
  by (simp add: decode1_def)

lemma decode_three:
  assumes "d \<le> 15" "m < 64" "n < 64" "d = 0 \<Longrightarrow> 32 \<le> m" "d = 13 \<Longrightarrow> m \<le> 31"
  shows "decode1 (0xE0 + d) ((0x80 + m) # (0x80 + n) # s) = ((d * 64 + m) * 64 + n, s)"
  using assms by (auto simp: decode1_def numeral_2_eq_2)

lemma decode_four:
  assumes "d \<le> 4" "l < 64" "m < 64" "n < 64" "d = 0 \<Longrightarrow> 16 \<le> l" "d = 4 \<Longrightarrow> l \<le> 15"
  shows "decode1 (0xF0 + d) ((0x80 + l) # (0x80 + m) # (0x80 + n) # s) = (((d * 64 + l) * 64 + m) * 64 + n, s)"
  using assms by (auto simp: decode1_def numeral_3_eq_3)

lemma decode1_encode1:
  assumes "scalar c"
  shows "\<exists>b r. encode1 c = b # r \<and> (\<forall>s. decode1 b (r @ s) = (c, s))"
proof -
  define n m l d e where "n = c mod 64" and "m = c div 64 mod 64" and "l = c div 4096 mod 64" and "d = c div 262144" and "e = c div 4096"
  have small: "n < 64" "m < 64" "l < 64" by (simp_all add: n_def m_def l_def)
  have "c div 64 div 64 = e" "e div 64 = d" by (simp_all add: e_def d_def div_mult2_eq [symmetric])
  then have parts: "c div 64 = e * 64 + m" "e = d * 64 + l"
    using div_mult_mod_eq [of "c div 64" 64] div_mult_mod_eq [of e 64] by (simp_all add: m_def l_def e_def)
  have c1: "c = c div 64 * 64 + n" by (simp add: n_def)
  then have c2: "c = (e * 64 + m) * 64 + n" using parts(1) by simp
  then have "c = ((d * 64 + l) * 64 + m) * 64 + n" using parts(2) by simp
  note c = c1 c2 this
  have lin: "c = e * 4096 + m * 64 + n" "c = d * 262144 + l * 4096 + m * 64 + n" using c(2,3) by simp_all
  consider "c < 0x80" | "0x80 \<le> c" "c < 0x800" | "0x800 \<le> c" "c < 0x10000" | "0x10000 \<le> c" "c \<le> 0x10FFFF"
    using assms unfolding scalar_def by linarith
  then show ?thesis
  proof cases
    case 1
    then show ?thesis by (simp add: encode1_def decode1_def)
  next
    case 2
    have "2 \<le> c div 64" "c div 64 \<le> 31" using 2 c(1) small(1) by linarith+
    then have "decode1 (0xC0 + c div 64) ((0x80 + n) # s) = (c, s)" for s using decode_two [of "c div 64" n s] small(1) c(1) by metis
    moreover have "encode1 c = [0xC0 + c div 64, 0x80 + n]" using 2 by (simp add: encode1_def n_def)
    ultimately show ?thesis by simp
  next
    case 3
    have "e \<le> 15" using 3 lin(1) by linarith
    moreover have "e = 0 \<Longrightarrow> 32 \<le> m" using 3 lin(1) small by linarith
    moreover have "e = 13 \<Longrightarrow> m \<le> 31" using 3 lin(1) small assms unfolding scalar_def by linarith
    ultimately have "decode1 (0xE0 + e) ((0x80 + m) # (0x80 + n) # s) = (c, s)" for s
      using decode_three [of e m n s] small c(2) by metis
    moreover have "encode1 c = [0xE0 + e, 0x80 + m, 0x80 + n]" using 3 by (simp add: encode1_def n_def m_def e_def)
    ultimately show ?thesis by simp
  next
    case 4
    have "d \<le> 4" using 4 lin(2) by linarith
    moreover have "d = 0 \<Longrightarrow> 16 \<le> l" using 4 lin(2) small by linarith
    moreover have "d = 4 \<Longrightarrow> l \<le> 15" using 4 lin(2) small by linarith
    ultimately have "decode1 (0xF0 + d) ((0x80 + l) # (0x80 + m) # (0x80 + n) # s) = (c, s)" for s
      using decode_four [of d l m n s] small c(3) by metis
    moreover have "encode1 c = [0xF0 + d, 0x80 + l, 0x80 + m, 0x80 + n]" using 4 by (simp add: encode1_def n_def m_def l_def d_def)
    ultimately show ?thesis by simp
  qed
qed

lemma decode_raw_encode: "list_all scalar t \<Longrightarrow> decode_raw (encode t) = t"
proof (induction t)
  case (Cons c t)
  then obtain b r where br: "encode1 c = b # r" "\<forall>s. decode1 b (r @ s) = (c, s)" using decode1_encode1 [of c] by auto
  have "encode (c # t) = b # (r @ encode t)" using br(1) by (simp add: encode_def)
  then show ?case using br(2) Cons by simp
qed (simp add: encode_def)

lemma trim_bom: "trim_text (0xFEFF # t) = trim_text t"
  by (simp add: trim_text_def is_space_def)

lemma trim_decode: "list_all scalar t \<Longrightarrow> trim_text (decode (encode t)) = trim_text t"
  using decode_raw_encode [of t] trim_bom by (cases t) (auto simp: decode_def)

section \<open>Offsets at character boundaries\<close>

text \<open>The reference: \<open>at s\<close> is the number of characters in front of the tool call \<open>s\<close>.\<close>

fun place_chars :: "(step \<Rightarrow> nat) \<Rightarrow> utext \<Rightarrow> nat \<Rightarrow> step list \<Rightarrow> part list" where
  "place_chars at' t pos [] = text_part (drop pos t)"
| "place_chars at' t pos (s # ss) = text_part (drop pos (take (at' s) t)) @ StepPart s # place_chars at' t (max pos (at' s)) ss"

lemma encode_append: "encode (s @ t) = encode s @ encode t"
  by (simp add: encode_def)

lemma encode_nonempty: "encode1 c \<noteq> []"
  by (simp add: encode1_def)

lemma byte_len_mono: "i \<le> j \<Longrightarrow> length (encode (take i t)) \<le> length (encode (take j t))"
proof -
  assume "i \<le> j"
  then have "take j t = take i t @ take (j - i) (drop i t)" by (metis le_add_diff_inverse take_add)
  then show ?thesis by (simp add: encode_append)
qed

lemma byte_len_strict: "i < j \<Longrightarrow> j \<le> length t \<Longrightarrow> length (encode (take i t)) < length (encode (take j t))"
proof -
  assume a: "i < j" "j \<le> length t"
  then have "take (Suc i) t = take i t @ [t ! i]" by (simp add: take_Suc_conv_app_nth)
  then have "length (encode (take i t)) < length (encode (take (Suc i) t))"
    using encode_nonempty [of "t ! i"] by (simp add: encode_append) (simp add: encode_def)
  also have "\<dots> \<le> length (encode (take j t))" using a(1) by (intro byte_len_mono) simp
  finally show ?thesis .
qed

lemma encode_slice: "drop (length (encode (take i t))) (encode (take j t)) = encode (drop i (take j t))"
proof (cases "i \<le> j")
  case True
  then have "take j t = take i t @ drop i (take j t)" by (metis append_take_drop_id min.absorb1 take_take)
  then have "encode (take j t) = encode (take i t) @ encode (drop i (take j t))" by (metis encode_append)
  then show ?thesis by simp
next
  case False
  then show ?thesis using byte_len_mono [of j i t] by (simp add: encode_def)
qed

lemma scalar_slice: "list_all scalar t \<Longrightarrow> list_all scalar (drop i (take j t))"
  by (auto simp: list_all_iff dest: in_set_takeD in_set_dropD)

lemma text_part_decode: "list_all scalar t \<Longrightarrow> text_part (decode (encode t)) = text_part t"
  by (simp add: text_part_def trim_decode)

lemma text_part_nil: "text_part [] = []"
  by (simp add: text_part_def trim_text_def)

definition on_boundary :: "(step \<Rightarrow> nat) \<Rightarrow> utext \<Rightarrow> step \<Rightarrow> bool" where
  "on_boundary at' t s \<longleftrightarrow> at' s \<le> length t \<and> step_offset s = int (length (encode (take (at' s) t)))"

lemma place_steps_chars:
  "list_all scalar t \<Longrightarrow> list_all (on_boundary at' t) ss \<Longrightarrow> pos \<le> length t \<Longrightarrow>
    place_steps (encode t) (length (encode (take pos t))) ss = place_chars at' t pos ss"
proof (induction ss arbitrary: pos)
  case Nil
  have "drop (length (encode (take pos t))) (encode t) = encode (drop pos t)" using encode_slice [of pos t "length t"] by simp
  moreover have "pos = length t \<or> length (encode (take pos t)) < length (encode t)"
    using byte_len_strict [of pos "length t" t] Nil(3) by (cases "pos = length t") simp_all
  ultimately show ?case
    using Nil(1) scalar_slice [of t pos "length t"] text_part_decode [of "drop pos t"] text_part_nil by auto
next
  case (Cons s ss)
  let ?b = "\<lambda>k. length (encode (take k t))"
  have off: "step_offset s = int (?b (at' s))" "at' s \<le> length t" using Cons.prems(2) by (simp_all add: on_boundary_def)
  have cut: "take (?b (at' s) - ?b pos) (drop (?b pos) (encode t)) = encode (drop pos (take (at' s) t))"
  proof -
    have "encode t = encode (take (at' s) t) @ encode (drop (at' s) t)" by (simp flip: encode_append)
    then have "take (?b (at' s)) (encode t) = encode (take (at' s) t)" by simp
    then show ?thesis using encode_slice [of pos t "at' s"] by (metis drop_take)
  qed
  have order: "?b pos < ?b (at' s) \<longleftrightarrow> pos < at' s"
    using byte_len_strict [of pos "at' s" t] byte_len_mono [of "at' s" pos t] off(2) by (meson leD leI)
  have mx: "max (?b pos) (?b (at' s)) = ?b (max pos (at' s))"
    using byte_len_mono [of pos "at' s" t] byte_len_mono [of "at' s" pos t] by (cases "pos \<le> at' s") (simp_all add: max_def)
  have piece: "(if int (?b pos) < step_offset s then text_part (decode (take (nat (step_offset s) - ?b pos) (drop (?b pos) (encode t)))) else [])
      = text_part (drop pos (take (at' s) t))"
    using order cut off(1) text_part_decode [OF scalar_slice [OF Cons.prems(1)]] text_part_nil by simp
  have "place_steps (encode t) (?b (max pos (at' s))) ss = place_chars at' t (max pos (at' s)) ss"
    using Cons.IH [of "max pos (at' s)"] Cons.prems off(2) by simp
  then show ?case using piece mx off(1) by simp
qed

lemma insort_key_cong:
  "\<forall>y \<in> set ys. (f x \<le> f y) = (g x \<le> g y) \<Longrightarrow> insort_key f x ys = insort_key g x ys"
  by (induction ys) auto

lemma sort_key_cong_order:
  "\<forall>x \<in> set xs. \<forall>y \<in> set xs. (f x \<le> f y) = (g x \<le> g y) \<Longrightarrow> sort_key f xs = sort_key g xs"
  by (induction xs) (auto intro!: insort_key_cong simp: set_sort)

text \<open>Where the tool calls stand at character boundaries of the text, the work on UTF-8 bytes is the
  plain one on characters: the calls come in the order of their positions, calls at one position in the
  order they were made, between them stand exactly the characters between their positions,
  trimmed, and blank pieces are left out - for any characters, one to four bytes long.\<close>

theorem parts_agree_with_characters:
  assumes "list_all scalar content" and "list_all (on_boundary at' content) steps" and "list_ex (\<lambda>s. 0 < step_offset s) steps"
  shows "buildInterleavedParts content steps = place_chars at' content 0 (sort_key at' steps)"
proof -
  have b: "on_boundary at' content s" if "s \<in> set steps" for s using assms(2) that by (simp add: list_all_iff)
  have "(step_offset x \<le> step_offset y) = (at' x \<le> at' y)" if "x \<in> set steps" "y \<in> set steps" for x y
  proof (cases "at' x \<le> at' y")
    case True
    then show ?thesis using b [OF that(1)] b [OF that(2)] byte_len_mono [of "at' x" "at' y" content] by (simp add: on_boundary_def)
  next
    case False
    then show ?thesis using b [OF that(1)] b [OF that(2)] byte_len_strict [of "at' y" "at' x" content] by (simp add: on_boundary_def)
  qed
  then have "sort_key step_offset steps = sort_key at' steps" by (intro sort_key_cong_order) auto
  moreover have "list_all (on_boundary at' content) (sort_key at' steps)" using b by (simp add: list_all_iff)
  moreover have "steps \<noteq> []" using assms(3) by auto
  ultimately show ?thesis
    using place_steps_chars [OF assms(1), of at' _ 0] assms(3) by (simp add: buildInterleavedParts_def) (simp add: encode_def)
qed

definition sample_step :: "string \<Rightarrow> int \<Rightarrow> step" where
  "sample_step i off = \<lparr>step_id = i, tool = ''t'', step_label = [], icon = [], step_args = [], step_state = StepCompleted,
     step_result = None, log_id = None, step_model_id = None, step_model_name = None, step_preset_id = None,
     step_preset_name = None, step_model_role = None, content_offset = Some off, started_at = [], finished_at = None\<rparr>"

text \<open>A text of two characters with two and three bytes and a letter, and a call after the second.\<close>

theorem parts_agree_with_characters_witness:
  "buildInterleavedParts [0xE9, 0x20AC, 0x61] [sample_step ''s'' 5] = [TextPart [0xE9, 0x20AC], StepPart (sample_step ''s'' 5), TextPart [0x61]]"
proof -
  have "list_all scalar [0xE9, 0x20AC, 0x61]" by (simp add: scalar_def)
  moreover have "list_all (on_boundary (\<lambda>_. 2) [0xE9, 0x20AC, 0x61]) [sample_step ''s'' 5]"
    by (simp add: on_boundary_def sample_step_def step_offset_def or_else_def encode_def encode1_def numeral_2_eq_2)
  moreover have "list_ex (\<lambda>s. 0 < step_offset s) [sample_step ''s'' 5]"
    by (simp add: sample_step_def step_offset_def or_else_def)
  ultimately have "buildInterleavedParts [0xE9, 0x20AC, 0x61] [sample_step ''s'' 5]
      = place_chars (\<lambda>_. 2) [0xE9, 0x20AC, 0x61] 0 (sort_key (\<lambda>_. 2 :: nat) [sample_step ''s'' 5])"
    by (rule parts_agree_with_characters)
  also have "\<dots> = [TextPart [0xE9, 0x20AC], StepPart (sample_step ''s'' 5), TextPart [0x61]]"
    by (simp add: text_part_def trim_text_def is_space_def numeral_2_eq_2)
  finally show ?thesis .
qed

end
