(* ===== verification/ChatTimeline.thy ===== *)
theory ChatTimeline
  imports ApiTypes JsNumbers "HOL-Library.Sublist"
begin

text \<open>
  The messages of a chat and the handlers of the chat page: \<open>pages/chat/ChatPage.tsx\<close>. A handler that waits
  for the server is two operations: what it does before it asks, with the request, and what it does with the answer
  (\<open>None\<close> is a request that failed). Between the two, any other operation may run. The message window of the
  desktop (\<open>pages/chat-winxp/WinXpChatWindow.tsx\<close>) has copies of these handlers; they are in the theory
  \<open>ChatWindow\<close>. Instants are milliseconds.
\<close>

section \<open>Messages\<close>

datatype chat_role = RoleUser | RoleAssistant

record attachment =
  at_id :: string
  at_fileName :: string
  at_mimeType :: string
  at_size :: nat

record chat_message =
  cm_id :: string
  cm_session :: string
  cm_role :: chat_role
  cm_content :: string
  cm_status :: string
  cm_source :: "string option"
  cm_modelId :: "string option"
  cm_modelName :: "string option"
  cm_presetId :: "string option"
  cm_presetName :: "string option"
  cm_modelRole :: "string option"
  cm_steps :: "step list option"
  cm_attachments :: "attachment list option"
  cm_created :: int
  cm_finished :: "int option"
  cm_tokens :: "nat option"
  cm_promptTokens :: "nat option"
  cm_completionTokens :: "nat option"

text \<open>\<open>byId.set(m.id, m)\<close> on a \<open>Map\<close>, which keeps the place of a key it has.\<close>

definition put_message :: "chat_message list \<Rightarrow> chat_message \<Rightarrow> chat_message list" where
  "put_message ms m = (if list_ex (\<lambda>x. cm_id x = cm_id m) ms then map_by cm_id (cm_id m) (\<lambda>_. m) ms else ms @ [m])"

text \<open>Two lists put into one \<open>Map\<close> and sorted by time; \<open>sort\<close> is stable.\<close>

definition merge_messages :: "chat_message list \<Rightarrow> chat_message list \<Rightarrow> chat_message list" where
  "merge_messages xs ys = sort_key cm_created (foldl put_message (foldl put_message [] xs) ys)"

definition has_pending :: "chat_message list \<Rightarrow> bool" where
  "has_pending ms = list_ex (\<lambda>m. cm_status m = ''pending'') ms"

definition running_steps :: "chat_message list \<Rightarrow> step list" where
  "running_steps ms = concat (map (\<lambda>m. filter (\<lambda>s. step_state s = StepRunning) (or_else (cm_steps m) [])) ms)"

definition last_assistant :: "chat_message list \<Rightarrow> chat_message option" where
  "last_assistant ms = find (\<lambda>m. cm_role m = RoleAssistant) (rev ms)"

datatype logo_state = LogoIdle | LogoWorking | LogoTyping | LogoThinking

definition logo_of :: "chat_message list \<Rightarrow> logo_state" where
  "logo_of ms = (case find (\<lambda>m. cm_status m = ''pending'' \<and> cm_role m = RoleAssistant) ms of
      None \<Rightarrow> LogoIdle
    | Some m \<Rightarrow> if list_ex (\<lambda>s. step_state s = StepRunning) (or_else (cm_steps m) []) then LogoWorking
        else if cm_content m \<noteq> [] then LogoTyping else LogoThinking)"

section \<open>The page\<close>

record context_status =
  cs_contextWindow :: nat
  cs_reserveTokens :: nat
  cs_compactThreshold :: nat
  cs_summaryVersion :: nat
  cs_lastContextTokens :: nat
  cs_modelName :: "string option"

text \<open>A file to send: its name, type and size, and whether it has a preview.\<close>

record pending_file =
  pf_id :: string
  pf_name :: string
  pf_type :: string
  pf_size :: nat
  pf_preview :: bool

record chat_page =
  cp_session :: string
  cp_messages :: "chat_message list"
  cp_input :: string
  cp_sending :: bool
  cp_stopping :: bool
  cp_regenerating :: bool
  cp_hasMore :: bool
  cp_loadingMore :: bool
  cp_activeStep :: "step option"
  cp_context :: "context_status option"
  cp_files :: "pending_file list"
  cp_dragOver :: bool
  cp_attachError :: "string option"
  cp_scrolledUp :: bool

definition PAGE_SIZE :: nat where "PAGE_SIZE = 10"

definition POLL_LIMIT :: nat where "POLL_LIMIT = 4"

record list_request =
  lr_session :: string
  lr_limit :: nat
  lr_offset :: nat

definition isPlanSession :: "string \<Rightarrow> bool" where
  "isPlanSession s = starts_with ''plan:'' s"

definition plan_of_session :: "string \<Rightarrow> string option" where
  "plan_of_session s = (if isPlanSession s then JsPrelude.at (split_on CHR '':'' s) 1 else None)"

definition page_start :: "string \<Rightarrow> chat_page" where
  "page_start s = \<lparr>cp_session = s, cp_messages = [], cp_input = [], cp_sending = False, cp_stopping = False,
     cp_regenerating = False, cp_hasMore = False, cp_loadingMore = False, cp_activeStep = None, cp_context = None,
     cp_files = [], cp_dragOver = False, cp_attachError = None, cp_scrolledUp = False\<rparr>"

text \<open>How often the page polls, in milliseconds.\<close>

definition chat_poll_interval :: "chat_page \<Rightarrow> nat option" where
  "chat_poll_interval p = (if cp_session p = [] then None
     else Some (if isPlanSession (cp_session p) \<or> has_pending (cp_messages p) then 400 else 8000))"

definition context_interval :: "chat_page \<Rightarrow> nat option" where
  "context_interval p = (if cp_session p = [] \<or> isPlanSession (cp_session p) then None
     else Some (if has_pending (cp_messages p) then 2000 else 15000))"

subsection \<open>Loading\<close>

text \<open>Another session is opened: the page forgets the old one and asks for the newest messages.\<close>

definition open_session :: "string \<Rightarrow> chat_page \<Rightarrow> chat_page \<times> list_request option" where
  "open_session s p =
     (p\<lparr>cp_session := s, cp_messages := [], cp_hasMore := False, cp_activeStep := None, cp_context := None, cp_files := [],
        cp_attachError := None, cp_scrolledUp := False\<rparr>,
      if s = [] then None else Some \<lparr>lr_session = s, lr_limit = PAGE_SIZE, lr_offset = 0\<rparr>)"

definition loadFull_end :: "chat_message list option \<Rightarrow> chat_page \<Rightarrow> chat_page" where
  "loadFull_end answer p = (case answer of
      None \<Rightarrow> p
    | Some msgs \<Rightarrow> p\<lparr>cp_messages := msgs, cp_hasMore := (length msgs = PAGE_SIZE)\<rparr>)"

definition pollLatest_begin :: "chat_page \<Rightarrow> list_request option" where
  "pollLatest_begin p = (if cp_session p = [] then None
     else Some \<lparr>lr_session = cp_session p, lr_limit = POLL_LIMIT, lr_offset = 0\<rparr>)"

definition poll_messages :: "chat_message list \<Rightarrow> chat_message list \<Rightarrow> chat_message list" where
  "poll_messages latest prev = (let next = merge_messages prev latest in if prev = next then prev else next)"

definition refresh_step :: "chat_message \<Rightarrow> step option \<Rightarrow> step option" where
  "refresh_step last_msg prev = (case prev of
      None \<Rightarrow> None
    | Some s \<Rightarrow> (case cm_steps last_msg of
        None \<Rightarrow> Some s
      | Some ss \<Rightarrow> Some (or_else (find (\<lambda>t. step_id t = step_id s) ss) s)))"

definition pollLatest_end :: "chat_message list option \<Rightarrow> chat_page \<Rightarrow> chat_page" where
  "pollLatest_end answer p = (case answer of
      None \<Rightarrow> p
    | Some latest \<Rightarrow> if latest = [] then p
        else p\<lparr>cp_messages := poll_messages latest (cp_messages p),
               cp_activeStep := refresh_step (last latest) (cp_activeStep p)\<rparr>)"

definition context_end :: "context_status option \<Rightarrow> chat_page \<Rightarrow> chat_page" where
  "context_end answer p = (case answer of None \<Rightarrow> p | Some c \<Rightarrow> p\<lparr>cp_context := Some c\<rparr>)"

definition loadMore_begin :: "chat_page \<Rightarrow> chat_page \<times> list_request option" where
  "loadMore_begin p =
     (if cp_loadingMore p \<or> \<not> cp_hasMore p then (p, None)
      else (p\<lparr>cp_loadingMore := True\<rparr>,
        Some \<lparr>lr_session = cp_session p, lr_limit = PAGE_SIZE, lr_offset = length (cp_messages p)\<rparr>))"

definition loadMore_end :: "chat_message list option \<Rightarrow> chat_page \<Rightarrow> chat_page" where
  "loadMore_end answer p = (case answer of
      None \<Rightarrow> p\<lparr>cp_hasMore := False, cp_loadingMore := False\<rparr>
    | Some older \<Rightarrow>
        p\<lparr>cp_hasMore := (if length older < PAGE_SIZE then False else cp_hasMore p),
          cp_messages := (if older \<noteq> [] then merge_messages older (cp_messages p) else cp_messages p),
          cp_loadingMore := False\<rparr>)"

definition handleScroll :: "int \<Rightarrow> int \<Rightarrow> int \<Rightarrow> chat_page \<Rightarrow> chat_page" where
  "handleScroll scrollHeight scrollTop clientHeight p = p\<lparr>cp_scrolledUp := (scrollHeight - scrollTop - clientHeight > 80)\<rparr>"

subsection \<open>Files\<close>

definition MAX_FILE_BYTES :: nat where "MAX_FILE_BYTES = 10 * 1024 * 1024 * 1024"

text \<open>A file as the browser hands it over, with the identifier made for it.\<close>

definition buildPendingFile :: "string \<Rightarrow> string \<Rightarrow> string \<Rightarrow> nat \<Rightarrow> pending_file" where
  "buildPendingFile fresh name mime bytes =
     \<lparr>pf_id = fresh, pf_name = name, pf_type = mime, pf_size = bytes, pf_preview = starts_with ''image/'' mime\<rparr>"

fun too_large :: "(string \<times> string \<times> string \<times> nat) list \<Rightarrow> string option \<Rightarrow> string option" where
  "too_large [] err = err"
| "too_large ((fresh, name, mime, bytes) # fs) err =
     too_large fs (if MAX_FILE_BYTES < bytes then Some (name @ '': too large (max 10 GB)'') else err)"

definition addFiles :: "(string \<times> string \<times> string \<times> nat) list \<Rightarrow> chat_page \<Rightarrow> chat_page" where
  "addFiles incoming p =
     (let additions = map (\<lambda>(fresh, name, mime, bytes). buildPendingFile fresh name mime bytes)
            (filter (\<lambda>(fresh, name, mime, bytes). \<not> MAX_FILE_BYTES < bytes) incoming)
      in p\<lparr>cp_attachError := too_large incoming None,
           cp_files := (if additions \<noteq> [] then cp_files p @ additions else cp_files p)\<rparr>)"

definition removeFile :: "string \<Rightarrow> chat_page \<Rightarrow> chat_page" where
  "removeFile k p = p\<lparr>cp_files := drop_by pf_id k (cp_files p)\<rparr>"

definition onDragEnter :: "bool \<Rightarrow> chat_page \<Rightarrow> chat_page" where
  "onDragEnter hasFiles p = (if isPlanSession (cp_session p) \<or> \<not> hasFiles then p else p\<lparr>cp_dragOver := True\<rparr>)"

definition onDragLeave :: "bool \<Rightarrow> chat_page \<Rightarrow> chat_page" where
  "onDragLeave onTarget p = (if onTarget then p\<lparr>cp_dragOver := False\<rparr> else p)"

definition onDrop :: "(string \<times> string \<times> string \<times> nat) list \<Rightarrow> chat_page \<Rightarrow> chat_page" where
  "onDrop dropped p = (if isPlanSession (cp_session p) then p
     else let q = p\<lparr>cp_dragOver := False\<rparr> in if dropped \<noteq> [] then addFiles dropped q else q)"

subsection \<open>Sending\<close>

record send_request =
  sr_session :: string
  sr_text :: string
  sr_files :: "pending_file list"

text \<open>The text typed, or one that a suggestion gives.\<close>

definition send_begin :: "string option \<Rightarrow> chat_page \<Rightarrow> chat_page \<times> send_request option" where
  "send_begin override p =
     (let text' = trim (or_else override (cp_input p)) in
      if cp_sending p \<or> cp_session p = [] then (p, None)
      else if text' = [] \<and> cp_files p = [] then (p, None)
      else (p\<lparr>cp_input := (if override = None then [] else cp_input p), cp_sending := True, cp_scrolledUp := False\<rparr>,
            Some \<lparr>sr_session = cp_session p, sr_text = text', sr_files = cp_files p\<rparr>))"

definition send_end :: "(chat_message \<times> chat_message) option \<Rightarrow> chat_page \<Rightarrow> chat_page" where
  "send_end answer p = (case answer of
      None \<Rightarrow> p\<lparr>cp_sending := False\<rparr>
    | Some (u, a) \<Rightarrow> p\<lparr>cp_messages := cp_messages p @ [u, a], cp_files := [], cp_sending := False\<rparr>)"

text \<open>Stopping polls once the server has answered; the poll's own answer comes before the button is free again.\<close>

definition stop_begin :: "chat_page \<Rightarrow> chat_page \<times> string option" where
  "stop_begin p = (if cp_session p = [] \<or> cp_stopping p then (p, None) else (p\<lparr>cp_stopping := True\<rparr>, Some (cp_session p)))"

definition stop_end :: "bool \<Rightarrow> chat_message list option \<Rightarrow> chat_page \<Rightarrow> chat_page" where
  "stop_end answered latest p = (if answered then pollLatest_end latest p else p)\<lparr>cp_stopping := False\<rparr>"

definition lastAssistantId :: "chat_page \<Rightarrow> string option" where
  "lastAssistantId p = map_option cm_id (last_assistant (cp_messages p))"

text \<open>Regenerating remembers the answer that was the last one when the button was pressed.\<close>

definition regenerate_begin :: "chat_page \<Rightarrow> chat_page \<times> (string \<times> string option) option" where
  "regenerate_begin p =
     (if cp_session p = [] \<or> cp_regenerating p \<or> has_pending (cp_messages p) then (p, None)
      else (p\<lparr>cp_regenerating := True\<rparr>, Some (cp_session p, lastAssistantId p)))"

definition regenerate_end :: "string option \<Rightarrow> chat_message option \<Rightarrow> chat_page \<Rightarrow> chat_page" where
  "regenerate_end last_id answer p = (case answer of
      None \<Rightarrow> p\<lparr>cp_regenerating := False\<rparr>
    | Some a \<Rightarrow> p\<lparr>cp_messages := filter (\<lambda>m. \<not> (cm_role m = RoleAssistant \<and> Some (cm_id m) = last_id)) (cp_messages p) @ [a],
        cp_scrolledUp := False, cp_regenerating := False\<rparr>)"

text \<open>Which message offers to be regenerated.\<close>

definition canRegenerate :: "chat_page \<Rightarrow> chat_message \<Rightarrow> bool" where
  "canRegenerate p m \<longleftrightarrow> \<not> isPlanSession (cp_session p) \<and> Some (cm_id m) = lastAssistantId p
     \<and> \<not> has_pending (cp_messages p) \<and> cm_status m \<noteq> ''pending''"

section \<open>The server's list\<close>

text \<open>\<open>apps/chat/use_cases/list_messages.go\<close>: the newest first, a page of them, sorted by time.\<close>

definition server_page :: "chat_message list \<Rightarrow> nat \<Rightarrow> nat \<Rightarrow> chat_message list" where
  "server_page hist limit offset = rev (take (if limit = 0 then 10 else limit) (drop offset (rev hist)))"

section \<open>Lemmas on merging\<close>

abbreviation ids :: "chat_message list \<Rightarrow> string list" where
  "ids ms \<equiv> map cm_id ms"

abbreviation look :: "chat_message list \<Rightarrow> string \<Rightarrow> chat_message option" where
  "look ms \<equiv> find_by cm_id ms"

lemma put_cases: "put_message ms m = (if cm_id m \<in> set (ids ms) then map_by cm_id (cm_id m) (\<lambda>_. m) ms else ms @ [m])"
proof -
  have "list_ex (\<lambda>x. cm_id x = cm_id m) ms \<longleftrightarrow> cm_id m \<in> set (ids ms)" by (induction ms) auto
  then show ?thesis by (simp add: put_message_def)
qed

lemma look_None: "look ms k = None \<longleftrightarrow> k \<notin> set (ids ms)"
  by (simp add: find_by_None)

lemma ids_put: "ids (put_message ms m) = (if cm_id m \<in> set (ids ms) then ids ms else ids ms @ [cm_id m])"
proof -
  have "ids (map_by cm_id (cm_id m) (\<lambda>_. m) ms) = ids ms" by (induction ms) auto
  then show ?thesis by (simp only: put_cases split: if_splits) simp
qed

lemma distinct_put: "distinct (ids ms) \<Longrightarrow> distinct (ids (put_message ms m))"
  by (simp add: ids_put)

lemma look_put: "look (put_message ms m) k = (if k = cm_id m then Some m else look ms k)"
proof (cases "cm_id m \<in> set (ids ms)")
  case True
  have "look (map_by cm_id (cm_id m) (\<lambda>_. m) ms) k = (if k = cm_id m \<and> cm_id m \<in> set (ids ms) then Some m else look ms k)"
    by (induction ms) auto
  then show ?thesis using True by (simp only: put_cases) simp
next
  case False
  then have "look ms (cm_id m) = None" by (simp only: look_None) simp
  moreover have "put_message ms m = ms @ [m]" using False by (simp only: put_cases if_False)
  ultimately show ?thesis by (cases "look ms k"; cases "k = cm_id m") (simp_all add: find_by_append)
qed

lemma distinct_puts: "distinct (ids ms) \<Longrightarrow> distinct (ids (foldl put_message ms xs))"
  by (induction xs arbitrary: ms) (auto simp: distinct_put)

lemma look_puts: "distinct (ids xs) \<Longrightarrow> look (foldl put_message ms xs) k = (case look xs k of Some m \<Rightarrow> Some m | None \<Rightarrow> look ms k)"
proof (induction xs arbitrary: ms)
  case (Cons x xs)
  then have "look xs (cm_id x) = None" by (simp add: find_by_None)
  then show ?case using Cons by (cases "look xs k") (auto simp: look_put)
qed simp

lemma look_member: "distinct (ids ms) \<Longrightarrow> look ms (cm_id m) = Some m \<longleftrightarrow> m \<in> set ms"
  using find_by_mem find_by_Some_key by fast

lemma set_puts:
  assumes "distinct (ids ms)" "distinct (ids xs)"
  shows "set (foldl put_message ms xs) = {m \<in> set ms. cm_id m \<notin> set (ids xs)} \<union> set xs"
proof -
  have "m \<in> set (foldl put_message ms xs) \<longleftrightarrow> m \<in> set xs \<or> m \<in> set ms \<and> cm_id m \<notin> set (ids xs)" for m
  proof -
    have "m \<in> set (foldl put_message ms xs)
        \<longleftrightarrow> (case look xs (cm_id m) of Some n \<Rightarrow> Some n | None \<Rightarrow> look ms (cm_id m)) = Some m"
      using look_member [OF distinct_puts [OF assms(1)]] look_puts [OF assms(2)] by metis
    moreover have "m \<in> set xs \<longleftrightarrow> look xs (cm_id m) = Some m" "m \<in> set ms \<longleftrightarrow> look ms (cm_id m) = Some m"
      using look_member assms by metis+
    moreover have "cm_id m \<notin> set (ids xs) \<longleftrightarrow> look xs (cm_id m) = None" by (simp only: look_None)
    ultimately show ?thesis by (simp only:) (cases "look xs (cm_id m)"; simp)
  qed
  then show ?thesis by blast
qed

lemma puts_fresh: "distinct (ids xs) \<Longrightarrow> set (ids ms) \<inter> set (ids xs) = {} \<Longrightarrow> foldl put_message ms xs = ms @ xs"
proof (induction xs arbitrary: ms)
  case (Cons x xs)
  then have "cm_id x \<notin> set (ids ms)" by auto
  then have "put_message ms x = ms @ [x]" by (simp only: put_cases if_False)
  then show ?case using Cons by auto
qed simp

lemma distinct_merge: "distinct (ids (merge_messages xs ys))"
proof -
  have "distinct (ids (foldl put_message (foldl put_message [] xs) ys))" by (intro distinct_puts) simp
  then show ?thesis by (simp add: merge_messages_def distinct_map)
qed

lemma set_merge:
  assumes "distinct (ids xs)" "distinct (ids ys)"
  shows "set (merge_messages xs ys) = {m \<in> set xs. cm_id m \<notin> set (ids ys)} \<union> set ys"
  using puts_fresh [OF assms(1), of "[]"] set_puts [OF assms] by (simp add: merge_messages_def)

lemma sorted_merge: "sorted (map cm_created (merge_messages xs ys))"
  by (simp add: merge_messages_def)

text \<open>A log in the order of time, with distinct identifiers.\<close>

definition log_ok :: "chat_message list \<Rightarrow> bool" where
  "log_ok hist \<longleftrightarrow> sorted_wrt (<) (map cm_created hist) \<and> distinct (ids hist)"

lemma log_ok_sorted: "log_ok hist \<Longrightarrow> sorted (map cm_created hist) \<and> distinct (map cm_created hist) \<and> distinct (ids hist)"
  using strict_sorted_iff [of "map cm_created hist"] by (simp add: log_ok_def)

lemma log_ok_append: "log_ok (xs @ ys) \<longleftrightarrow> log_ok xs \<and> log_ok ys \<and> (\<forall>x \<in> set xs. \<forall>y \<in> set ys. cm_created x < cm_created y)
    \<and> set (ids xs) \<inter> set (ids ys) = {}"
  by (auto simp: log_ok_def sorted_wrt_append)

lemma log_ok_take_drop: "log_ok hist \<Longrightarrow> log_ok (take n hist)" "log_ok hist \<Longrightarrow> log_ok (drop n hist)"
  using log_ok_append [of "take n hist" "drop n hist"] by simp_all

lemma log_determined:
  assumes "log_ok xs" "sorted (map cm_created ys)" "distinct (ids ys)" "set ys = set xs"
  shows "ys = xs"
proof -
  have "inj_on cm_created (set xs)" using log_ok_sorted [OF assms(1)] by (simp add: distinct_map)
  then have "distinct (map cm_created ys)" using assms(3,4) by (simp add: distinct_map)
  moreover have "inj_on cm_created (set ys \<union> set xs)" using log_ok_sorted [OF assms(1)] assms(4) by (simp add: distinct_map)
  ultimately show ?thesis
    using map_sorted_distinct_set_unique [of cm_created ys xs] log_ok_sorted [OF assms(1)] assms(2,4) by simp
qed

lemma merge_is_log: "distinct (ids xs) \<Longrightarrow> distinct (ids ys) \<Longrightarrow> log_ok l
    \<Longrightarrow> {m \<in> set xs. cm_id m \<notin> set (ids ys)} \<union> set ys = set l \<Longrightarrow> merge_messages xs ys = l"
  by (rule log_determined) (simp_all add: sorted_merge distinct_merge set_merge)

text \<open>The page of the server is a segment of its log.\<close>

lemma server_page_segment: "0 < limit \<Longrightarrow> server_page hist limit offset = drop (length hist - offset - limit) (take (length hist - offset) hist)"
  by (simp add: server_page_def drop_rev take_rev)

end
