(* ===== verification/ChatSync.thy ===== *)
theory ChatSync
  imports ChatTimeline
begin

text \<open>
  The chat page against the server's log of a session. The abstract state is the log and the number of its newest
  messages the page may not know yet; the page refines it when its messages are the newest part of the log. The
  server's side is the contract of \<open>apps/chat\<close>: messages are appended with fresh identifiers and later times, a
  message that is being generated is rewritten in place, and regenerating replaces the last answer. Requests are answered
  at once here; what a late answer does is stated apart.
\<close>

section \<open>The page and the server\<close>

record chat_world =
  w_hist :: "chat_message list"
  w_lag :: nat
  w_page :: chat_page

datatype chat_event =
    ServerAppends chat_message
  | ServerUpdates chat_message
  | PagePolls
  | PageLoadsMore
  | PageSends chat_message chat_message
  | PageRegenerates chat_message

definition answer_of :: "chat_message list \<Rightarrow> list_request \<Rightarrow> chat_message list" where
  "answer_of hist r = server_page hist (lr_limit r) (lr_offset r)"

definition opened :: "string \<Rightarrow> chat_message list \<Rightarrow> chat_page \<Rightarrow> chat_world" where
  "opened s hist p = \<lparr>w_hist = hist, w_lag = 0,
     w_page = (case open_session s p of (q, r) \<Rightarrow> loadFull_end (map_option (answer_of hist) r) q)\<rparr>"

text \<open>What a request to regenerate that succeeds does to the log (\<open>apps/chat/use_cases/regenerate_last.go\<close>): the last
  answer is deleted and the new one appended. Its refusals leave the log as it is; the page's side of them is in
  \<open>ChatTimeline\<close>.\<close>

definition server_regenerates :: "chat_message list \<Rightarrow> chat_message \<Rightarrow> chat_message list" where
  "server_regenerates hist a = filter (\<lambda>m. Some (cm_id m) \<noteq> map_option cm_id (last_assistant hist)) hist @ [a]"

fun world_step :: "chat_event \<Rightarrow> chat_world \<Rightarrow> chat_world" where
  "world_step (ServerAppends m) w = w\<lparr>w_hist := w_hist w @ [m], w_lag := w_lag w + 1\<rparr>"
| "world_step (ServerUpdates m) w = w\<lparr>w_hist := map_by cm_id (cm_id m) (\<lambda>_. m) (w_hist w),
     w_lag := max (w_lag w) (length (dropWhile (\<lambda>x. cm_id x \<noteq> cm_id m) (w_hist w)))\<rparr>"
| "world_step PagePolls w = (case pollLatest_begin (w_page w) of
      None \<Rightarrow> w
    | Some r \<Rightarrow> w\<lparr>w_page := pollLatest_end (Some (answer_of (w_hist w) r)) (w_page w), w_lag := 0\<rparr>)"
| "world_step PageLoadsMore w = (case loadMore_begin (w_page w) of
      (q, None) \<Rightarrow> w\<lparr>w_page := q\<rparr>
    | (q, Some r) \<Rightarrow> w\<lparr>w_page := loadMore_end (Some (answer_of (w_hist w) r)) q\<rparr>)"
| "world_step (PageSends u a) w = (case send_begin None (w_page w) of
      (q, None) \<Rightarrow> w\<lparr>w_page := q\<rparr>
    | (q, Some r) \<Rightarrow> w\<lparr>w_hist := w_hist w @ [u, a], w_lag := w_lag w + 2, w_page := send_end (Some (u, a)) q\<rparr>)"
| "world_step (PageRegenerates a) w = (case regenerate_begin (w_page w) of
      (q, None) \<Rightarrow> w\<lparr>w_page := q\<rparr>
    | (q, Some (s, last_id)) \<Rightarrow> w\<lparr>w_hist := server_regenerates (w_hist w) a, w_lag := w_lag w + 1,
        w_page := regenerate_end last_id (Some a) q\<rparr>)"

text \<open>What the server may do, and how much may change between two polls: the newest four messages, the number a poll asks for.\<close>

definition fresh_message :: "chat_message list \<Rightarrow> chat_message \<Rightarrow> bool" where
  "fresh_message hist m \<longleftrightarrow> list_all (\<lambda>x. cm_id x \<noteq> cm_id m \<and> cm_created x < cm_created m) hist"

fun world_enabled :: "chat_event \<Rightarrow> chat_world \<Rightarrow> bool" where
  "world_enabled (ServerAppends m) w = (w_lag w + 1 \<le> POLL_LIMIT \<and> fresh_message (w_hist w) m)"
| "world_enabled (ServerUpdates m) w =
     list_ex (\<lambda>x. cm_id x = cm_id m \<and> cm_created x = cm_created m) (drop (length (w_hist w) - POLL_LIMIT) (w_hist w))"
| "world_enabled PagePolls w = True"
| "world_enabled PageLoadsMore w = True"
| "world_enabled (PageSends u a) w =
     (w_lag w + 2 \<le> POLL_LIMIT \<and> fresh_message (w_hist w) u \<and> fresh_message (w_hist w @ [u]) a)"
| "world_enabled (PageRegenerates a) w = (w_lag w = 0 \<and> fresh_message (w_hist w) a \<and> lastAssistantId (w_page w) \<noteq> None)"

section \<open>Segments of the log\<close>

definition seg :: "nat \<Rightarrow> nat \<Rightarrow> 'a list \<Rightarrow> 'a list" where
  "seg a b xs = drop a (take b xs)"

lemma seg_split: "a \<le> b \<Longrightarrow> b \<le> c \<Longrightarrow> seg a c xs = seg a b xs @ seg b c xs"
proof -
  assume "a \<le> b" "b \<le> c"
  then have "take c xs = take b xs @ drop b (take c xs)" by (metis append_take_drop_id min.absorb1 take_take)
  moreover have "a \<le> length (take b xs) \<or> drop b (take c xs) = []" using \<open>a \<le> b\<close> by auto
  ultimately show ?thesis unfolding seg_def by (metis append_Nil2 drop_append diff_is_0_eq drop0)
qed

lemma seg_all: "length xs \<le> b \<Longrightarrow> seg a b xs = drop a xs"
  by (simp add: seg_def)

lemma seg_length: "b \<le> length xs \<Longrightarrow> length (seg a b xs) = b - a"
  by (simp add: seg_def)

lemma set_seg: "set (seg a b xs) \<subseteq> set xs"
  unfolding seg_def by (meson order_trans set_drop_subset set_take_subset)

lemma drop_seg: "a \<le> b \<Longrightarrow> b \<le> length xs \<Longrightarrow> drop a xs = seg a b xs @ drop b xs"
  using seg_split [of a b "length xs" xs] by (simp add: seg_all)

lemma seg_append: "b \<le> length xs \<Longrightarrow> seg a b (xs @ ys) = seg a b xs"
  by (simp add: seg_def)

lemma map_seg: "map f (seg a b xs) = seg a b (map f xs)"
  by (simp add: seg_def drop_map take_map)

section \<open>The invariant\<close>

text \<open>The page has every settled message from some place on, and beyond them only messages the server may still
  rewrite. Without more to load, it has them all.\<close>

definition holds_from :: "nat \<Rightarrow> chat_message list \<Rightarrow> nat \<Rightarrow> chat_message list \<Rightarrow> bool" where
  "holds_from i hist settled msgs \<longleftrightarrow> i \<le> settled \<and> set (seg i settled hist) \<subseteq> set msgs
     \<and> (\<forall>s \<in> set msgs. s \<in> set (seg i settled hist) \<or> cm_id s \<in> set (ids (drop settled hist)))"

definition world_inv :: "chat_world \<Rightarrow> bool" where
  "world_inv w \<longleftrightarrow> log_ok (w_hist w) \<and> w_lag w \<le> POLL_LIMIT \<and> w_lag w \<le> length (w_hist w)
     \<and> distinct (ids (cp_messages (w_page w))) \<and> (w_lag w = 0 \<longrightarrow> sorted (map cm_created (cp_messages (w_page w))))
     \<and> (\<exists>i. holds_from i (w_hist w) (length (w_hist w) - w_lag w) (cp_messages (w_page w))
          \<and> (\<not> cp_hasMore (w_page w) \<longrightarrow> i = 0))"

lemma holds_ids: "holds_from i hist b msgs \<Longrightarrow> b \<le> length hist \<Longrightarrow> set (ids msgs) \<subseteq> set (ids (drop i hist))"
proof -
  assume h: "holds_from i hist b msgs" and b: "b \<le> length hist"
  then have "drop i hist = seg i b hist @ drop b hist" by (intro drop_seg) (auto simp: holds_from_def)
  then show ?thesis using h by (fastforce simp: holds_from_def)
qed

lemma holds_length:
  assumes "holds_from i hist b msgs" "b \<le> length hist" "distinct (ids msgs)" "log_ok hist"
  shows "length msgs \<le> length hist - i" "b - i \<le> length msgs"
proof -
  have "length (ids msgs) \<le> length (ids (drop i hist))"
    using holds_ids [OF assms(1,2)] assms(3) by (metis List.finite_set card_length card_mono distinct_card order_trans)
  then show "length msgs \<le> length hist - i" by simp
  have "distinct (ids (seg i b hist))"
    using log_ok_sorted [OF assms(4)] by (metis map_seg seg_def distinct_drop distinct_take)
  then have "distinct (seg i b hist)" by (simp add: distinct_map)
  moreover have "set (seg i b hist) \<subseteq> set msgs" using assms(1) by (simp add: holds_from_def)
  ultimately have "length (seg i b hist) \<le> length msgs" by (metis List.finite_set card_length card_mono distinct_card order_trans)
  then show "b - i \<le> length msgs" using assms(2) by (simp add: seg_length)
qed

lemma settled_is_drop:
  assumes "world_inv w" "w_lag w = 0"
  obtains i where "cp_messages (w_page w) = drop i (w_hist w)" "i \<le> length (w_hist w)" "\<not> cp_hasMore (w_page w) \<Longrightarrow> i = 0"
proof -
  obtain i where h: "holds_from i (w_hist w) (length (w_hist w)) (cp_messages (w_page w))" "\<not> cp_hasMore (w_page w) \<Longrightarrow> i = 0"
    using assms by (auto simp: world_inv_def)
  then have "set (cp_messages (w_page w)) = set (drop i (w_hist w))"
    by (auto simp: holds_from_def seg_all)
  moreover have "log_ok (drop i (w_hist w))" using assms log_ok_take_drop by (auto simp: world_inv_def)
  ultimately have "cp_messages (w_page w) = drop i (w_hist w)"
    using assms log_determined by (auto simp: world_inv_def)
  then show thesis using that h by (auto simp: holds_from_def)
qed

section \<open>Every step keeps it\<close>

lemma opened_inv: "log_ok hist \<Longrightarrow> s \<noteq> [] \<Longrightarrow> world_inv (opened s hist p)"
proof -
  assume l: "log_ok hist" and s: "s \<noteq> []"
  have m: "cp_messages (w_page (opened s hist p)) = drop (length hist - 10) hist"
    "cp_hasMore (w_page (opened s hist p)) = (length (drop (length hist - 10) hist) = 10)"
    using s by (simp_all add: opened_def open_session_def loadFull_end_def answer_of_def server_page_segment PAGE_SIZE_def)
  have "holds_from (length hist - 10) hist (length hist) (drop (length hist - 10) hist)"
    by (auto simp: holds_from_def seg_all)
  moreover have "log_ok (drop (length hist - 10) hist)" using l by (rule log_ok_take_drop)
  ultimately show ?thesis unfolding world_inv_def m using l log_ok_sorted by (auto simp: opened_def intro!: exI [of _ "length hist - 10"])
qed

lemma fresh_ids: "fresh_message hist m \<Longrightarrow> cm_id m \<notin> set (ids hist)" "fresh_message hist m \<Longrightarrow> \<forall>x \<in> set hist. cm_created x < cm_created m"
  by (auto simp: fresh_message_def list_all_iff)

lemma fresh_log_ok: "log_ok hist \<Longrightarrow> fresh_message hist m \<Longrightarrow> log_ok (hist @ [m])"
  using fresh_ids [of hist m] by (auto simp: log_ok_append log_ok_def [of "[m]"])

lemma holds_appended: "holds_from i hist b msgs \<Longrightarrow> b \<le> length hist \<Longrightarrow> holds_from i (hist @ ys) b msgs"
  by (auto simp: holds_from_def seg_append)

lemma appends_inv: "world_inv w \<Longrightarrow> world_enabled (ServerAppends m) w \<Longrightarrow> world_inv (world_step (ServerAppends m) w)"
proof -
  assume i: "world_inv w" and e: "world_enabled (ServerAppends m) w"
  obtain k where k: "holds_from k (w_hist w) (length (w_hist w) - w_lag w) (cp_messages (w_page w))" "\<not> cp_hasMore (w_page w) \<longrightarrow> k = 0"
    using i by (auto simp: world_inv_def)
  then have "holds_from k (w_hist w @ [m]) (length (w_hist w @ [m]) - (w_lag w + 1)) (cp_messages (w_page w))"
    using holds_appended [of k "w_hist w" "length (w_hist w) - w_lag w" _ "[m]"] by simp
  then show ?thesis using i e k(2) fresh_log_ok by (auto simp: world_inv_def)
qed

lemma update_ids: "ids (map_by cm_id k (\<lambda>_. m) xs) = ids xs" if "cm_id m = k"
  using that by (induction xs) auto

lemma update_created: "distinct (ids xs) \<Longrightarrow> x \<in> set xs \<Longrightarrow> cm_id x = cm_id m \<Longrightarrow> cm_created x = cm_created m
    \<Longrightarrow> map cm_created (map_by cm_id (cm_id m) (\<lambda>_. m) xs) = map cm_created xs"
proof (induction xs)
  case (Cons y xs)
  have "map_by cm_id (cm_id m) (\<lambda>_. m) zs = zs" if "cm_id m \<notin> set (ids zs)" for zs
    using that by (induction zs) auto
  moreover have "cm_id m \<in> set (ids xs)" if "x \<in> set xs" using that Cons.prems(3) by (metis image_eqI list.set_map)
  ultimately show ?case using Cons by (cases "x = y") auto
qed simp

lemma update_before: "map_by cm_id k f xs = takeWhile (\<lambda>x. cm_id x \<noteq> k) xs @ map_by cm_id k f (dropWhile (\<lambda>x. cm_id x \<noteq> k) xs)"
  by (induction xs) auto

lemma updates_inv: "world_inv w \<Longrightarrow> world_enabled (ServerUpdates m) w \<Longrightarrow> world_inv (world_step (ServerUpdates m) w)"
proof -
  assume i: "world_inv w" and e: "world_enabled (ServerUpdates m) w"
  let ?h = "w_hist w" and ?h' = "map_by cm_id (cm_id m) (\<lambda>_. m) (w_hist w)" and ?n = "length (w_hist w)"
  let ?d = "length (dropWhile (\<lambda>x. cm_id x \<noteq> cm_id m) (w_hist w))"
  let ?b = "?n - w_lag w" and ?b' = "?n - max (w_lag w) ?d" and ?ms = "cp_messages (w_page w)"
  obtain k where k: "holds_from k ?h ?b ?ms" "\<not> cp_hasMore (w_page w) \<longrightarrow> k = 0" using i by (auto simp: world_inv_def)
  obtain x where x: "x \<in> set (drop (?n - POLL_LIMIT) ?h)" "cm_id x = cm_id m" "cm_created x = cm_created m"
    using e by (auto simp: list_ex_iff)
  have d4: "?d \<le> POLL_LIMIT"
  proof -
    have dis: "distinct (ids ?h)" using i log_ok_sorted by (auto simp: world_inv_def)
    have "cm_id m \<in> set (ids (drop (?n - POLL_LIMIT) ?h))" using x by (metis image_eqI list.set_map)
    then have "cm_id m \<notin> set (ids (take (?n - POLL_LIMIT) ?h))"
      using dis by (metis append_take_drop_id disjoint_iff distinct_append map_append)
    then have "\<forall>y \<in> set (take (?n - POLL_LIMIT) ?h). cm_id y \<noteq> cm_id m" by (metis image_eqI list.set_map)
    then have "dropWhile (\<lambda>x. cm_id x \<noteq> cm_id m) ?h = dropWhile (\<lambda>x. cm_id x \<noteq> cm_id m) (drop (?n - POLL_LIMIT) ?h)"
      using dropWhile_append2 [of "take (?n - POLL_LIMIT) ?h" "\<lambda>x. cm_id x \<noteq> cm_id m" "drop (?n - POLL_LIMIT) ?h"]
      by (simp only: append_take_drop_id) blast
    then have "?d \<le> length (drop (?n - POLL_LIMIT) ?h)" using length_dropWhile_le by metis
    then show ?thesis by simp
  qed
  have d1: "0 < ?d" using x in_set_dropD [OF x(1)] by (auto simp: dropWhile_eq_Nil_conv)
  have d2: "?d \<le> ?n" by (rule length_dropWhile_le)
  have l': "log_ok ?h'" 
  proof -
    have "log_ok ?h" using i by (simp add: world_inv_def)
    then show ?thesis
      using update_ids [of m "cm_id m" ?h] update_created [OF _ in_set_dropD [OF x(1)] x(2,3)] unfolding log_ok_def by simp
  qed
  have tk: "take ?b' ?h' = take ?b' ?h"
  proof -
    have "?n = length (takeWhile (\<lambda>x. cm_id x \<noteq> cm_id m) ?h) + ?d" by (metis length_append takeWhile_dropWhile_id)
    then have "?b' \<le> length (takeWhile (\<lambda>x. cm_id x \<noteq> cm_id m) ?h)" by simp
    then have "take ?b' (takeWhile (\<lambda>x. cm_id x \<noteq> cm_id m) ?h @ zs) = take ?b' (takeWhile (\<lambda>x. cm_id x \<noteq> cm_id m) ?h)" for zs
      by (simp only: take_append diff_is_0_eq') simp
    then show ?thesis using update_before [of "cm_id m" "\<lambda>_. m" ?h] by (metis takeWhile_dropWhile_id)
  qed
  have b': "?b' \<le> ?b" by simp
  have kb: "k \<le> ?b" using k(1) by (simp add: holds_from_def)
  have seg': "seg j ?b' ?h' = seg j ?b' ?h" for j by (simp add: seg_def tk)
  have ids': "ids (drop ?b' ?h') = ids (drop ?b' ?h)" 
    using update_ids [of m "cm_id m" ?h] by (simp add: drop_map flip: drop_map)
  have "holds_from (min k ?b') ?h' ?b' ?ms"
  proof -
    have sp: "seg k ?b ?h = seg k ?b' ?h @ seg ?b' ?b ?h" if "k \<le> ?b'" using seg_split [OF that b'] .
    have "set (seg (min k ?b') ?b' ?h') \<subseteq> set ?ms"
    proof (cases "k \<le> ?b'")
      case True
      then show ?thesis using sp k(1) seg' by (auto simp: holds_from_def min_def)
    qed (simp add: seg_def)
    moreover have "s \<in> set (seg (min k ?b') ?b' ?h') \<or> cm_id s \<in> set (ids (drop ?b' ?h'))" if s: "s \<in> set ?ms" for s
    proof -
      have db: "drop ?b' ?h = seg ?b' ?b ?h @ drop ?b ?h" by (rule drop_seg) auto
      consider "s \<in> set (seg k ?b ?h)" | "cm_id s \<in> set (ids (drop ?b ?h))" using k(1) s by (auto simp: holds_from_def)
      then show ?thesis
      proof cases
        case 1
        show ?thesis
        proof (cases "k \<le> ?b'")
          case True
          then show ?thesis using 1 sp [OF True] unfolding ids' seg' db by (auto simp: min_def)
        next
          case False
          then have "set (drop k (take ?b ?h)) \<subseteq> set (drop ?b' (take ?b ?h))" by (intro set_drop_subset_set_drop) simp
          also have "\<dots> \<subseteq> set (drop ?b' ?h)" by (metis drop_take set_take_subset)
          finally have "set (seg k ?b ?h) \<subseteq> set (drop ?b' ?h)" by (simp add: seg_def)
          then show ?thesis using 1 unfolding ids' by auto
        qed
      next
        case 2
        then show ?thesis unfolding ids' db by auto
      qed
    qed
    ultimately show ?thesis by (auto simp: holds_from_def)
  qed
  then have ex: "\<exists>i. holds_from i ?h' ?b' ?ms \<and> (\<not> cp_hasMore (w_page w) \<longrightarrow> i = 0)" using k(2) by (intro exI [of _ "min k ?b'"]) simp
  have len: "length ?h' = ?n" by (metis length_map update_ids)
  have "distinct (ids ?ms)" "w_lag w \<le> POLL_LIMIT" "w_lag w \<le> ?n" using i by (simp_all add: world_inv_def)
  then show ?thesis using l' d4 d1 d2 ex unfolding world_inv_def world_step.simps chat_world.simps len
    by (intro conjI) (auto simp: len)
qed

lemma world_invE:
  assumes "world_inv w"
  obtains i where "log_ok (w_hist w)" "w_lag w \<le> POLL_LIMIT" "w_lag w \<le> length (w_hist w)"
    "distinct (ids (cp_messages (w_page w)))" "w_lag w = 0 \<longrightarrow> sorted (map cm_created (cp_messages (w_page w)))"
    "holds_from i (w_hist w) (length (w_hist w) - w_lag w) (cp_messages (w_page w))" "\<not> cp_hasMore (w_page w) \<longrightarrow> i = 0"
  using assms by (auto simp: world_inv_def)

lemma in_seg_or: "a \<le> b \<Longrightarrow> b \<le> length xs \<Longrightarrow> x \<in> set (drop a xs) \<longleftrightarrow> x \<in> set (seg a b xs) \<or> x \<in> set (drop b xs)"
  by (simp add: drop_seg)

lemma ids_segs: "distinct (ids hist) \<Longrightarrow> x \<in> set (seg a b hist) \<Longrightarrow> b \<le> c \<Longrightarrow> cm_id x \<notin> set (ids (drop c hist))"
proof -
  assume d: "distinct (ids hist)" and x: "x \<in> set (seg a b hist)" and "b \<le> c"
  then have "x \<in> set (take c hist)" unfolding seg_def by (meson in_set_dropD set_take_subset_set_take subsetD)
  then have "cm_id x \<in> set (ids (take c hist))" by simp
  then show ?thesis using d by (metis append_take_drop_id disjoint_iff distinct_append map_append)
qed

lemma polls_merge:
  assumes "log_ok hist" "holds_from i hist b msgs" "b \<le> length hist" "length hist - b \<le> POLL_LIMIT" "distinct (ids msgs)"
  shows "merge_messages msgs (drop (length hist - POLL_LIMIT) hist) = drop (min i (length hist - POLL_LIMIT)) hist"
proof (rule merge_is_log)
  let ?q = "length hist - POLL_LIMIT" and ?j = "min i (length hist - POLL_LIMIT)"
  have dis: "distinct (ids hist)" using assms(1) log_ok_sorted by blast
  show "distinct (ids msgs)" by (rule assms)
  show "distinct (ids (drop ?q hist))" using dis by (simp flip: drop_map add: distinct_drop)
  show "log_ok (drop ?j hist)" using assms(1) by (rule log_ok_take_drop)
  have qb: "?q \<le> b" and ib: "i \<le> b" using assms(2,3,4) by (auto simp: holds_from_def)
  have sub: "set (drop b hist) \<subseteq> set (drop ?q hist)" using qb by (rule set_drop_subset_set_drop)
  have idrop: "set (seg i b hist) \<subseteq> set (drop i hist)" using in_seg_or [OF ib assms(3)] by blast
  show "{m \<in> set msgs. cm_id m \<notin> set (ids (drop ?q hist))} \<union> set (drop ?q hist) = set (drop ?j hist)"
  proof (intro set_eqI iffI)
    fix x assume "x \<in> {m \<in> set msgs. cm_id m \<notin> set (ids (drop ?q hist))} \<union> set (drop ?q hist)"
    then consider "x \<in> set (drop ?q hist)" | "x \<in> set msgs" "cm_id x \<notin> set (ids (drop ?q hist))" by blast
    then show "x \<in> set (drop ?j hist)"
    proof cases
      case 1
      then show ?thesis using set_drop_subset_set_drop [of ?j ?q hist] by auto
    next
      case 2
      then have "cm_id x \<notin> set (ids (drop b hist))" using sub by auto
      then have "x \<in> set (drop i hist)" using assms(2) 2(1) idrop by (auto simp: holds_from_def)
      then show ?thesis using set_drop_subset_set_drop [of ?j i hist] by auto
    qed
  next
    fix x assume x: "x \<in> set (drop ?j hist)"
    show "x \<in> {m \<in> set msgs. cm_id m \<notin> set (ids (drop ?q hist))} \<union> set (drop ?q hist)"
    proof (cases "x \<in> set (drop ?q hist)")
      case False
      have "?j \<le> ?q" by simp
      then have xs: "x \<in> set (seg ?j ?q hist)" using x False in_seg_or [of ?j ?q hist x] by auto
      then have "?j = i" by (cases "i \<le> ?q") (auto simp: seg_def min_def)
      then have "x \<in> set (seg i b hist)" using xs qb seg_split [of i ?q b hist] by (cases "i \<le> ?q") (auto simp: seg_def min_def)
      then have "x \<in> set msgs" using assms(2) by (auto simp: holds_from_def)
      then show ?thesis using ids_segs [OF dis xs, of ?q] by blast
    qed blast
  qed
qed

lemma answer_poll: "answer_of hist \<lparr>lr_session = s, lr_limit = POLL_LIMIT, lr_offset = 0\<rparr> = drop (length hist - POLL_LIMIT) hist"
  by (simp add: answer_of_def server_page_segment POLL_LIMIT_def)

text \<open>After a poll the page shows the newest part of the log, as it is now.\<close>

lemma poll_result:
  assumes "world_inv w" "cp_session (w_page w) \<noteq> []"
  obtains i where "cp_messages (w_page (world_step PagePolls w)) = drop i (w_hist w)" "i \<le> length (w_hist w)"
    "\<not> cp_hasMore (w_page w) \<Longrightarrow> i = 0" "cp_hasMore (w_page (world_step PagePolls w)) = cp_hasMore (w_page w)"
proof -
  obtain i where i: "log_ok (w_hist w)" "w_lag w \<le> POLL_LIMIT" "w_lag w \<le> length (w_hist w)" "distinct (ids (cp_messages (w_page w)))"
    "holds_from i (w_hist w) (length (w_hist w) - w_lag w) (cp_messages (w_page w))" "\<not> cp_hasMore (w_page w) \<longrightarrow> i = 0"
    using assms(1) by (rule world_invE) blast
  have m: "merge_messages (cp_messages (w_page w)) (drop (length (w_hist w) - POLL_LIMIT) (w_hist w))
      = drop (min i (length (w_hist w) - POLL_LIMIT)) (w_hist w)"
    by (rule polls_merge [OF i(1,5)]) (use i in auto)
  show thesis
  proof (cases "w_hist w = []")
    case True
    then have "cp_messages (w_page w) = []" using i(5) by (auto simp: holds_from_def seg_def)
    then show thesis using that [of 0] True assms(2)
      by (simp add: pollLatest_begin_def pollLatest_end_def answer_poll)
  next
    case False
    then have "drop (length (w_hist w) - POLL_LIMIT) (w_hist w) \<noteq> []"
      by (cases "w_hist w") (simp_all add: POLL_LIMIT_def)
    then have "cp_messages (w_page (world_step PagePolls w)) = drop (min i (length (w_hist w) - POLL_LIMIT)) (w_hist w)
      \<and> cp_hasMore (w_page (world_step PagePolls w)) = cp_hasMore (w_page w)"
      using m assms(2) by (simp add: pollLatest_begin_def pollLatest_end_def answer_poll poll_messages_def Let_def)
    then show thesis using that [of "min i (length (w_hist w) - POLL_LIMIT)"] i(6) by simp
  qed
qed

lemma polls_inv: "world_inv w \<Longrightarrow> world_inv (world_step PagePolls w)"
proof (cases "cp_session (w_page w) = []")
  case False
  assume w: "world_inv w"
  obtain i where i: "cp_messages (w_page (world_step PagePolls w)) = drop i (w_hist w)" "i \<le> length (w_hist w)"
    "\<not> cp_hasMore (w_page w) \<Longrightarrow> i = 0" "cp_hasMore (w_page (world_step PagePolls w)) = cp_hasMore (w_page w)"
    using poll_result [OF w False] by blast
  have h: "w_hist (world_step PagePolls w) = w_hist w" "w_lag (world_step PagePolls w) = 0"
    using False by (simp_all add: pollLatest_begin_def)
  have l: "log_ok (drop i (w_hist w))" using w log_ok_take_drop by (auto simp: world_inv_def)
  have "holds_from i (w_hist w) (length (w_hist w)) (drop i (w_hist w))" using i(2) by (auto simp: holds_from_def seg_all)
  then show ?thesis unfolding world_inv_def h i(1,4) using w l i(3) log_ok_sorted [OF l] by (auto simp: world_inv_def)
qed (simp add: pollLatest_begin_def)

lemma loads_more_inv: "world_inv w \<Longrightarrow> world_inv (world_step PageLoadsMore w)"
proof (cases "cp_loadingMore (w_page w) \<or> \<not> cp_hasMore (w_page w)")
  case True
  then show "world_inv w \<Longrightarrow> ?thesis" by (auto simp: loadMore_begin_def)
next
  case False
  assume w: "world_inv w"
  let ?h = "w_hist w" and ?ms = "cp_messages (w_page w)" and ?b = "length (w_hist w) - w_lag w"
  obtain i where i: "log_ok ?h" "w_lag w \<le> POLL_LIMIT" "w_lag w \<le> length ?h" "distinct (ids ?ms)"
    "w_lag w = 0 \<longrightarrow> sorted (map cm_created ?ms)" "holds_from i ?h ?b ?ms"
    by (rule world_invE [OF w]) (rule that)
  let ?hi = "length ?h - length ?ms" and ?lo = "length ?h - length ?ms - 10"
  let ?older = "seg ?lo ?hi ?h"
  have dis: "distinct (ids ?h)" using i(1) log_ok_sorted by blast
  have len: "length ?ms \<le> length ?h - i" "?b - i \<le> length ?ms" using holds_length [OF i(6) _ i(4,1)] by auto
  have ib: "i \<le> ?b" using i(6) by (simp add: holds_from_def)
  have hi: "i \<le> ?hi" "?lo \<le> i" using len ib i(2,3) by (auto simp: POLL_LIMIT_def)
  have sets: "set (seg ?lo ?b ?h) = set (seg ?lo i ?h) \<union> set (seg i ?b ?h)" "set ?older = set (seg ?lo i ?h) \<union> set (seg i ?hi ?h)"
    by (simp_all only: seg_split [OF hi(2) ib, of ?h] seg_split [OF hi(2,1), of ?h] set_append)
  have ans: "answer_of ?h \<lparr>lr_session = cp_session (w_page w), lr_limit = PAGE_SIZE, lr_offset = length ?ms\<rparr> = ?older"
    by (simp add: answer_of_def server_page_segment PAGE_SIZE_def seg_def)
  have olen: "length ?older = ?hi - ?lo" by (rule seg_length) simp
  let ?new = "if ?older \<noteq> [] then merge_messages ?older ?ms else ?ms"
  have odis: "distinct (ids ?older)" using dis unfolding map_seg by (simp add: seg_def distinct_drop distinct_take)
  have set_new: "set ?new = {m \<in> set ?older. cm_id m \<notin> set (ids ?ms)} \<union> set ?ms"
    using set_merge [OF odis i(4)] by (cases "?older = []") auto
  have new_holds: "holds_from ?lo ?h ?b ?new"
  proof -
    have "set (seg ?lo ?b ?h) \<subseteq> set ?new"
    proof
      fix x assume "x \<in> set (seg ?lo ?b ?h)"
      then have "x \<in> set (seg ?lo i ?h) \<or> x \<in> set (seg i ?b ?h)" unfolding sets by blast
      then show "x \<in> set ?new"
      proof
        assume x: "x \<in> set (seg ?lo i ?h)"
        then have "x \<in> set ?older" unfolding sets by blast
        moreover have "cm_id x \<notin> set (ids ?ms)"
          using ids_segs [OF dis x order_refl] holds_ids [OF i(6)] by auto
        ultimately show ?thesis unfolding set_new by blast
      next
        assume "x \<in> set (seg i ?b ?h)"
        then show ?thesis unfolding set_new using i(6) by (auto simp: holds_from_def)
      qed
    qed
    moreover have "s \<in> set (seg ?lo ?b ?h) \<or> cm_id s \<in> set (ids (drop ?b ?h))" if "s \<in> set ?new" for s
    proof -
      have "s \<in> set ?older \<or> s \<in> set ?ms" using that unfolding set_new by blast
      then show ?thesis
      proof
        assume "s \<in> set ?older"
        then have "s \<in> set (drop ?lo ?h)" using in_seg_or [of ?lo ?hi ?h s, OF diff_le_self diff_le_self] by blast
        then have "s \<in> set (seg ?lo ?b ?h) \<or> s \<in> set (drop ?b ?h)"
          using in_seg_or [of ?lo ?b ?h s, OF le_trans [OF hi(2) ib] diff_le_self] by blast
        then show ?thesis by auto
      next
        assume "s \<in> set ?ms"
        then show ?thesis using i(6) unfolding sets holds_from_def by blast
      qed
    qed
    ultimately show ?thesis using hi(2) ib unfolding holds_from_def by (meson order_trans)
  qed
  have d: "distinct (ids ?new)" using i(4) distinct_merge by auto
  have s: "w_lag w = 0 \<Longrightarrow> sorted (map cm_created ?new)" using i(5) sorted_merge by auto
  have more: "length ?older < PAGE_SIZE \<Longrightarrow> ?lo = 0" unfolding olen by (auto simp: PAGE_SIZE_def)
  have st: "world_step PageLoadsMore w = w\<lparr>w_page := (w_page w)\<lparr>cp_loadingMore := False,
      cp_hasMore := (if length ?older < PAGE_SIZE then False else cp_hasMore (w_page w)), cp_messages := ?new\<rparr>\<rparr>"
    using False ans by (simp add: loadMore_begin_def loadMore_end_def)
  show ?thesis unfolding st world_inv_def
    using i(1,2,3) d s new_holds more False by (auto simp del: if_split)
qed

lemma sends_inv: "world_inv w \<Longrightarrow> world_enabled (PageSends u a) w \<Longrightarrow> world_inv (world_step (PageSends u a) w)"
proof (cases "snd (send_begin None (w_page w))")
  case None
  then have "world_step (PageSends u a) w = w" by (auto simp: send_begin_def Let_def split: if_splits)
  then show "world_inv w \<Longrightarrow> ?thesis" by simp
next
  case (Some r)
  assume w: "world_inv w" and e: "world_enabled (PageSends u a) w"
  let ?h = "w_hist w" and ?ms = "cp_messages (w_page w)" and ?b = "length (w_hist w) - w_lag w"
  obtain i where i: "log_ok ?h" "w_lag w \<le> POLL_LIMIT" "w_lag w \<le> length ?h" "distinct (ids ?ms)"
    "w_lag w = 0 \<longrightarrow> sorted (map cm_created ?ms)" "holds_from i ?h ?b ?ms" "\<not> cp_hasMore (w_page w) \<longrightarrow> i = 0"
    by (rule world_invE [OF w]) (rule that)
  obtain q where q: "send_begin None (w_page w) = (q, Some r)" "cp_messages q = ?ms" "cp_hasMore q = cp_hasMore (w_page w)"
    using Some by (auto simp: send_begin_def Let_def split: if_splits)
  have st: "world_step (PageSends u a) w = w\<lparr>w_hist := ?h @ [u, a], w_lag := w_lag w + 2, w_page := send_end (Some (u, a)) q\<rparr>"
    "cp_messages (send_end (Some (u, a)) q) = ?ms @ [u, a]" "cp_hasMore (send_end (Some (u, a)) q) = cp_hasMore (w_page w)"
    using q by (simp_all add: send_end_def)
  have l: "log_ok (?h @ [u, a])" using fresh_log_ok [OF fresh_log_ok [OF i(1)], of u a] e by simp
  have "set (ids ?ms) \<subseteq> set (ids ?h)" using holds_ids [OF i(6)] by (auto dest: in_set_dropD)
  moreover have "cm_id u \<notin> set (ids ?h)" "cm_id a \<notin> set (ids (?h @ [u]))"
    using e fresh_ids(1) [of ?h u] fresh_ids(1) [of "?h @ [u]" a] by simp_all
  ultimately have d: "distinct (ids (?ms @ [u, a]))" using i(4) by auto
  have b: "length (?h @ [u, a]) - (w_lag w + 2) = ?b" by simp
  have "?b \<le> length ?h" by simp
  then have "holds_from i (?h @ [u, a]) ?b (?ms @ [u, a])"
    using holds_appended [OF i(6), of "[u, a]"] by (auto simp: holds_from_def)
  then show ?thesis unfolding st world_inv_def using l e i(3,7) d b st by (auto simp del: distinct_append map_append)
qed

lemma last_assistant_Some: "last_assistant ms = Some x \<Longrightarrow> x \<in> set ms \<and> cm_role x = RoleAssistant"
  by (auto simp: last_assistant_def find_Some_iff) (metis nth_mem set_rev length_rev)

lemma last_assistant_append: "last_assistant (xs @ ys) = (case last_assistant ys of Some x \<Rightarrow> Some x | None \<Rightarrow> last_assistant xs)"
proof -
  have "find P (as @ bs) = (case find P as of Some x \<Rightarrow> Some x | None \<Rightarrow> find P bs)" for P :: "chat_message \<Rightarrow> bool" and as bs
    by (induction as) auto
  then show ?thesis by (simp add: last_assistant_def split: option.splits)
qed

lemma regenerates_inv: "world_inv w \<Longrightarrow> world_enabled (PageRegenerates a) w \<Longrightarrow> world_inv (world_step (PageRegenerates a) w)"
proof (cases "snd (regenerate_begin (w_page w))")
  case None
  then have "world_step (PageRegenerates a) w = w" by (auto simp: regenerate_begin_def split: if_splits)
  then show "world_inv w \<Longrightarrow> ?thesis" by simp
next
  case (Some r)
  assume w: "world_inv w" and e: "world_enabled (PageRegenerates a) w"
  let ?h = "w_hist w" and ?p = "w_page w"
  have lag: "w_lag w = 0" and fr: "fresh_message ?h a" using e by auto
  obtain i where i: "cp_messages ?p = drop i ?h" "i \<le> length ?h" "\<not> cp_hasMore ?p \<Longrightarrow> i = 0"
    by (rule settled_is_drop [OF w lag]) (rule that)
  obtain x where x: "last_assistant (drop i ?h) = Some x" using e i(1) by (auto simp: lastAssistantId_def)
  then have lx: "last_assistant ?h = Some x" using last_assistant_append [of "take i ?h" "drop i ?h"] by simp
  have l: "log_ok ?h" using w by (simp add: world_inv_def)
  have dis: "distinct (ids ?h)" using l log_ok_sorted by blast
  have xi: "x \<in> set (drop i ?h)" "cm_role x = RoleAssistant" using last_assistant_Some [OF x] by auto
  let ?f = "filter (\<lambda>m. cm_id m \<noteq> cm_id x)"
  have front: "?f (take i ?h) = take i ?h"
  proof -
    have "cm_id x \<in> set (ids (drop i ?h))" using xi by simp
    then have "cm_id x \<notin> set (ids (take i ?h))" using dis by (metis append_take_drop_id disjoint_iff distinct_append map_append)
    then have "\<forall>m \<in> set (take i ?h). cm_id m \<noteq> cm_id x" by (metis image_eqI list.set_map)
    then show ?thesis by (rule filter_True)
  qed
  have role: "filter (\<lambda>m. \<not> (cm_role m = RoleAssistant \<and> Some (cm_id m) = Some (cm_id x))) (drop i ?h) = ?f (drop i ?h)"
  proof (rule filter_cong)
    fix m assume "m \<in> set (drop i ?h)"
    then have "cm_id m = cm_id x \<Longrightarrow> m = x" using xi(1) dis by (meson in_set_dropD inj_onD distinct_map)
    then show "(\<not> (cm_role m = RoleAssistant \<and> Some (cm_id m) = Some (cm_id x))) = (cm_id m \<noteq> cm_id x)" using xi(2) by auto
  qed simp
  have f: "?f ?h = take i ?h @ ?f (drop i ?h)" using front by (metis append_take_drop_id filter_append)
  obtain q where q: "regenerate_begin ?p = (q, Some (cp_session ?p, Some (cm_id x)))" "cp_messages q = drop i ?h" "cp_hasMore q = cp_hasMore ?p"
    using Some i(1) x by (auto simp: regenerate_begin_def lastAssistantId_def split: if_splits)
  have st: "world_step (PageRegenerates a) w = w\<lparr>w_hist := ?f ?h @ [a], w_lag := 1, w_page := regenerate_end (Some (cm_id x)) (Some a) q\<rparr>"
    using q(1) lx lag by (simp add: server_regenerates_def)
  have msgs: "cp_messages (regenerate_end (Some (cm_id x)) (Some a) q) = ?f (drop i ?h) @ [a]"
    "cp_hasMore (regenerate_end (Some (cm_id x)) (Some a) q) = cp_hasMore ?p"
    using q(2,3) role by (simp_all add: regenerate_end_def)
  have lf: "log_ok (?f ?h)" using l by (auto simp: log_ok_def sorted_wrt_map sorted_wrt_filter distinct_map_filter)
  have ff: "fresh_message (?f ?h) a" using fr by (auto simp: fresh_message_def list_all_iff)
  have "distinct (ids (?f (drop i ?h)))" using dis by (metis distinct_drop distinct_map_filter drop_map)
  moreover have "cm_id a \<notin> set (ids (?f (drop i ?h)))" using fresh_ids(1) [OF fr] by (auto dest: in_set_dropD)
  ultimately have d: "distinct (ids (?f (drop i ?h) @ [a]))" by simp
  have sg: "seg i (length (?f ?h)) (?f ?h @ [a]) = ?f (drop i ?h)"
    using i(2) by (simp add: f seg_def)
  have "holds_from i (?f ?h @ [a]) (length (?f ?h)) (?f (drop i ?h) @ [a])"
    unfolding holds_from_def sg using f i(2) by auto
  then show ?thesis unfolding st world_inv_def
    using fresh_log_ok [OF lf ff] d msgs i(3) by (auto simp: POLL_LIMIT_def simp del: distinct_append map_append filter_append)
qed

lemma world_step_inv: "world_inv w \<Longrightarrow> world_enabled e w \<Longrightarrow> world_inv (world_step e w)"
  using appends_inv updates_inv polls_inv loads_more_inv sends_inv regenerates_inv by (cases e) blast+

interpretation chat_sync: guarded_steps world_step world_inv world_enabled
  by unfold_locales (rule world_step_inv)

lemma step_session: "cp_session (w_page (world_step e w)) = cp_session (w_page w)"
  by (cases e) (auto simp: pollLatest_end_def loadMore_begin_def loadMore_end_def send_begin_def send_end_def
      regenerate_begin_def regenerate_end_def Let_def split: option.splits prod.splits if_splits)

lemma run_session: "cp_session (w_page (run_steps world_step es w)) = cp_session (w_page w)"
  by (induction es arbitrary: w) (simp_all add: step_session)

lemma opened_session: "cp_session (w_page (opened s hist p)) = s"
  by (simp add: opened_def open_session_def loadFull_end_def)

section \<open>What the page shows\<close>

text \<open>C5: Whatever the server writes and the user does after opening a session (messages arriving, an answer being
  generated, sending, regenerating, loading older messages), the next poll makes the page show exactly the newest part of
  the server's log as it is then, and the whole log when the page offers no older messages; provided at most four messages
  change between two polls, an answer is regenerated only while the page has seen the whole log, and each request of the
  page is answered before anything else happens. Each proviso is needed: \<open>burst_of_messages_leaves_a_gap\<close>,
  \<open>regenerating_behind_the_log\<close> and \<open>regenerated_answer_comes_back\<close> are runs without it.\<close>

theorem polled_page_shows_the_newest_messages:
  assumes "log_ok hist" and "s \<noteq> []" and "admissible world_enabled world_step es (opened s hist p)"
  shows "\<exists>i. cp_messages (w_page (world_step PagePolls (run_steps world_step es (opened s hist p))))
        = drop i (w_hist (run_steps world_step es (opened s hist p)))
     \<and> (\<not> cp_hasMore (w_page (run_steps world_step es (opened s hist p))) \<longrightarrow> i = 0)"
proof -
  have "cp_session (w_page (run_steps world_step es (opened s hist p))) \<noteq> []" using assms(2) by (simp add: run_session opened_session)
  then show ?thesis using poll_result [OF chat_sync.run_inv [OF opened_inv [OF assms(1,2)] assms(3)]] by metis
qed

definition plain_message :: "string \<Rightarrow> chat_role \<Rightarrow> string \<Rightarrow> int \<Rightarrow> chat_message" where
  "plain_message k r c t = \<lparr>cm_id = k, cm_session = ''s1'', cm_role = r, cm_content = c, cm_status = ''completed'', cm_source = None,
     cm_modelId = None, cm_modelName = None, cm_presetId = None, cm_presetName = None, cm_modelRole = None, cm_steps = None,
     cm_attachments = None, cm_created = t, cm_finished = None, cm_tokens = None, cm_promptTokens = None, cm_completionTokens = None\<rparr>"

lemma polled_page_shows_the_newest_messages_witness:
  "\<exists>i. cp_messages (w_page (world_step PagePolls (run_steps world_step
        [ServerAppends (plain_message ''m2'' RoleAssistant ''hi'' 2), PageLoadsMore] (opened ''s1'' [plain_message ''m1'' RoleUser ''hello'' 1] (page_start ''s0'')))))
      = drop i [plain_message ''m1'' RoleUser ''hello'' 1, plain_message ''m2'' RoleAssistant ''hi'' 2]"
proof -
  let ?m1 = "plain_message ''m1'' RoleUser ''hello'' 1" and ?m2 = "plain_message ''m2'' RoleAssistant ''hi'' 2"
  have "log_ok [?m1]" by (simp add: log_ok_def)
  moreover have "admissible world_enabled world_step [ServerAppends ?m2, PageLoadsMore] (opened ''s1'' [?m1] (page_start ''s0''))"
    by (simp add: opened_def open_session_def POLL_LIMIT_def fresh_message_def plain_message_def)
  moreover have "w_hist (run_steps world_step [ServerAppends ?m2, PageLoadsMore] (opened ''s1'' [?m1] (page_start ''s0''))) = [?m1, ?m2]"
    by (simp add: opened_def loadMore_begin_def split: prod.splits)
  ultimately show ?thesis
    using polled_page_shows_the_newest_messages [of "[?m1]" "''s1''" "[ServerAppends ?m2, PageLoadsMore]" "page_start ''s0''"] by auto
qed

section \<open>Loading older messages\<close>

lemma load_more_once:
  assumes "world_inv w" "w_lag w = 0" "cp_hasMore (w_page w)" "\<not> cp_loadingMore (w_page w)" "cp_messages (w_page w) = drop i (w_hist w)" "i \<le> length (w_hist w)"
  shows "cp_messages (w_page (world_step PageLoadsMore w)) = drop (i - 10) (w_hist w)
    \<and> cp_hasMore (w_page (world_step PageLoadsMore w)) = (10 \<le> i) \<and> \<not> cp_loadingMore (w_page (world_step PageLoadsMore w))
    \<and> w_hist (world_step PageLoadsMore w) = w_hist w \<and> w_lag (world_step PageLoadsMore w) = 0"
proof -
  let ?h = "w_hist w"
  have ans: "answer_of ?h \<lparr>lr_session = cp_session (w_page w), lr_limit = PAGE_SIZE, lr_offset = length (cp_messages (w_page w))\<rparr> = seg (i - 10) i ?h"
    using assms(5,6) by (simp add: answer_of_def server_page_segment PAGE_SIZE_def seg_def)
  have len: "length (seg (i - 10) i ?h) = i - (i - 10)" using assms(6) by (rule seg_length)
  have l: "log_ok ?h" using assms(1) by (simp add: world_inv_def)
  have split: "drop (i - 10) ?h = seg (i - 10) i ?h @ drop i ?h" using assms(6) by (intro drop_seg) auto
  have "log_ok (seg (i - 10) i ?h @ drop i ?h)" using log_ok_take_drop(2) [OF l, of "i - 10"] split by simp
  then have "merge_messages (seg (i - 10) i ?h) (drop i ?h) = drop (i - 10) ?h"
    unfolding split by (intro merge_is_log) (auto simp: log_ok_append log_ok_def)
  moreover have "seg (i - 10) i ?h = [] \<Longrightarrow> i = 0" using len by (cases "i") auto
  ultimately show ?thesis using ans len assms(2,3,4,5)
    by (auto simp: loadMore_begin_def loadMore_end_def PAGE_SIZE_def)
qed

lemma load_more_times:
  assumes "world_inv w" "w_lag w = 0" "\<not> cp_loadingMore (w_page w)" "cp_messages (w_page w) = drop i (w_hist w)" "i \<le> length (w_hist w)"
    and "\<not> cp_hasMore (w_page w) \<longrightarrow> i = 0" "i < 10 * n"
  shows "cp_messages (w_page (run_steps world_step (replicate n PageLoadsMore) w)) = w_hist w
    \<and> \<not> cp_hasMore (w_page (run_steps world_step (replicate n PageLoadsMore) w))"
  using assms
proof (induction n arbitrary: w i)
  case (Suc n)
  show ?case
  proof (cases "cp_hasMore (w_page w)")
    case True
    note o = load_more_once [OF Suc.prems(1,2) True Suc.prems(3,4,5)]
    show ?thesis
    proof (cases "i < 10")
      case True
      have stay: "\<not> cp_hasMore (w_page v) \<Longrightarrow> run_steps world_step (replicate n PageLoadsMore) v = v" for v
        by (induction n) (simp_all add: loadMore_begin_def)
      show ?thesis using o True stay by simp
    next
      case False
      show ?thesis using Suc.IH [of "world_step PageLoadsMore w" "i - 10"] o False Suc.prems loads_more_inv by auto
    qed
  next
    case False
    have stay: "\<not> cp_hasMore (w_page v) \<Longrightarrow> run_steps world_step (replicate k PageLoadsMore) v = v" for v k
      by (induction k) (simp_all add: loadMore_begin_def)
    have "run_steps world_step (replicate (Suc n) PageLoadsMore) w = w" by (rule stay [OF False])
    then show ?thesis using Suc.prems(4,6) False by simp
  qed
qed simp



section \<open>Where the page and the server part\<close>

lemma merge_union: "distinct (ids xs) \<Longrightarrow> distinct (ids ys) \<Longrightarrow> distinct (ids hist) \<Longrightarrow> set xs \<subseteq> set hist \<Longrightarrow> set ys \<subseteq> set hist
    \<Longrightarrow> set (merge_messages xs ys) = set xs \<union> set ys"
  unfolding set_merge by (auto simp: distinct_map) (metis inj_onD subsetD)

text \<open>The state after a burst: the message after the shown ones is missing, and the page holds more messages than the log
  has behind it.\<close>

definition gap_state :: "chat_message list \<Rightarrow> nat \<Rightarrow> chat_world \<Rightarrow> bool" where
  "gap_state hist k w \<longleftrightarrow> w_hist w = hist \<and> distinct (ids (cp_messages (w_page w))) \<and> set (cp_messages (w_page w)) \<subseteq> set hist
     \<and> k < length hist - POLL_LIMIT \<and> hist ! k \<notin> set (cp_messages (w_page w)) \<and> length hist - length (cp_messages (w_page w)) \<le> k
     \<and> cp_session (w_page w) \<noteq> []"

lemma length_merge_ge: "distinct (ids ys) \<Longrightarrow> distinct (ids xs) \<Longrightarrow> length ys \<le> length (merge_messages xs ys)"
proof -
  assume d: "distinct (ids ys)" "distinct (ids xs)"
  then have "set ys \<subseteq> set (merge_messages xs ys)" by (auto simp: set_merge)
  moreover have "distinct (merge_messages xs ys)" "distinct ys" using d distinct_merge [of xs ys] by (auto simp: distinct_map)
  ultimately show ?thesis by (metis List.finite_set card_mono distinct_card)
qed

lemma length_merge_within: "distinct (ids ys) \<Longrightarrow> distinct (ids xs) \<Longrightarrow> distinct (ids hist) \<Longrightarrow> set xs \<subseteq> set hist \<Longrightarrow> set ys \<subseteq> set hist
    \<Longrightarrow> length xs \<le> length (merge_messages xs ys)"
proof -
  assume d: "distinct (ids ys)" "distinct (ids xs)" "distinct (ids hist)" "set xs \<subseteq> set hist" "set ys \<subseteq> set hist"
  then have "set xs \<subseteq> set (merge_messages xs ys)" using merge_union by blast
  moreover have "distinct (merge_messages xs ys)" "distinct xs" using d distinct_merge [of xs ys] by (auto simp: distinct_map)
  ultimately show ?thesis by (metis List.finite_set card_mono distinct_card)
qed

lemma nth_not_in_drop: "distinct xs \<Longrightarrow> k < j \<Longrightarrow> k < length xs \<Longrightarrow> xs ! k \<notin> set (drop j xs)"
  by (auto simp: in_set_conv_nth nth_eq_iff_index_eq)

lemma nth_not_in_take: "distinct xs \<Longrightarrow> j \<le> k \<Longrightarrow> k < length xs \<Longrightarrow> xs ! k \<notin> set (take j xs)"
  by (auto simp: in_set_conv_nth nth_eq_iff_index_eq)

lemma gap_poll:
  assumes "gap_state hist k w" "log_ok hist"
  shows "gap_state hist k (world_step PagePolls w)" "set (cp_messages (w_page w)) \<subseteq> set (cp_messages (w_page (world_step PagePolls w)))"
proof -
  note g = assms(1) [unfolded gap_state_def]
  let ?ms = "cp_messages (w_page w)" and ?a = "drop (length hist - POLL_LIMIT) hist"
  have d: "distinct (ids hist)" "distinct hist" using log_ok_sorted [OF assms(2)] by (auto simp: distinct_map)
  have da: "distinct (ids ?a)" using d(1) by (simp flip: drop_map)
  have ne: "?a \<noteq> []" using g by (auto simp: POLL_LIMIT_def)
  have m: "cp_messages (w_page (world_step PagePolls w)) = merge_messages ?ms ?a" "w_hist (world_step PagePolls w) = hist"
      "cp_session (w_page (world_step PagePolls w)) = cp_session (w_page w)"
    using g ne by (simp_all add: pollLatest_begin_def pollLatest_end_def answer_poll poll_messages_def Let_def)
  have s: "set (merge_messages ?ms ?a) = set ?ms \<union> set ?a"
    using merge_union [OF _ da d(1)] g set_drop_subset by fastforce
  have "hist ! k \<notin> set ?a" using g by (intro nth_not_in_drop [OF d(2)]) auto
  moreover have "length ?ms \<le> length (merge_messages ?ms ?a)"
    using length_merge_within [OF da _ d(1)] g set_drop_subset by fastforce
  moreover have "set ?a \<subseteq> set hist" by (rule set_drop_subset)
  ultimately show "gap_state hist k (world_step PagePolls w)" using g s distinct_merge unfolding gap_state_def m by auto
  show "set ?ms \<subseteq> set (cp_messages (w_page (world_step PagePolls w)))" unfolding m s by blast
qed

lemma gap_load_more:
  assumes "gap_state hist k w" "log_ok hist"
  shows "gap_state hist k (world_step PageLoadsMore w)" "set (cp_messages (w_page w)) \<subseteq> set (cp_messages (w_page (world_step PageLoadsMore w)))"
proof -
  note g = assms(1) [unfolded gap_state_def]
  let ?ms = "cp_messages (w_page w)"
  let ?a = "drop (length hist - length ?ms - 10) (take (length hist - length ?ms) hist)"
  have d: "distinct (ids hist)" "distinct hist" using log_ok_sorted [OF assms(2)] by (auto simp: distinct_map)
  have sub: "set ?a \<subseteq> set (take (length hist - length ?ms) hist)" by (rule set_drop_subset)
  have sub': "set ?a \<subseteq> set hist" using sub set_take_subset by (rule order_trans)
  have da: "distinct (ids ?a)" using d(1) by (metis distinct_drop distinct_take drop_map take_map)
  have nk: "hist ! k \<notin> set ?a" using sub nth_not_in_take [OF d(2), of "length hist - length ?ms" k] g by (meson less_imp_diff_less less_le_trans diff_le_self subsetD)
  have ans: "answer_of hist \<lparr>lr_session = cp_session (w_page w), lr_limit = PAGE_SIZE, lr_offset = length ?ms\<rparr> = ?a"
    by (simp add: answer_of_def server_page_segment PAGE_SIZE_def)
  have s: "set (merge_messages ?a ?ms) = set ?a \<union> set ?ms" using merge_union [OF da _ d(1) sub'] g by auto
  have l: "length ?ms \<le> length (merge_messages ?a ?ms)" using length_merge_ge [of ?ms ?a] g da by auto
  have "gap_state hist k (world_step PageLoadsMore w) \<and> set ?ms \<subseteq> set (cp_messages (w_page (world_step PageLoadsMore w)))"
  proof (cases "cp_loadingMore (w_page w) \<or> \<not> cp_hasMore (w_page w)")
    case True
    then show ?thesis using assms(1) by (auto simp: loadMore_begin_def gap_state_def)
  next
    case False
    have m: "cp_messages (w_page (world_step PageLoadsMore w)) = (if ?a \<noteq> [] then merge_messages ?a ?ms else ?ms)"
      "w_hist (world_step PageLoadsMore w) = hist" "cp_session (w_page (world_step PageLoadsMore w)) = cp_session (w_page w)"
      using False g ans by (simp_all add: loadMore_begin_def loadMore_end_def)
    show ?thesis unfolding gap_state_def m using g s l nk sub' distinct_merge by (auto simp del: drop_eq_Nil)
  qed
  then show "gap_state hist k (world_step PageLoadsMore w)" "set ?ms \<subseteq> set (cp_messages (w_page (world_step PageLoadsMore w)))" by blast+
qed

lemma gap_stays:
  assumes "gap_state hist k w" "log_ok hist" "set es \<subseteq> {PagePolls, PageLoadsMore}"
  shows "gap_state hist k (run_steps world_step es w) \<and> set (cp_messages (w_page w)) \<subseteq> set (cp_messages (w_page (run_steps world_step es w)))"
  using assms(1,3)
proof (induction es arbitrary: w)
  case (Cons e es)
  then have "gap_state hist k (world_step e w) \<and> set (cp_messages (w_page w)) \<subseteq> set (cp_messages (w_page (world_step e w)))"
    using gap_poll [OF _ assms(2), of k w] gap_load_more [OF _ assms(2), of k w] by (auto simp del: world_step.simps)
  then show ?case using Cons.IH [of "world_step e w"] Cons.prems(2) by (auto simp del: world_step.simps)
qed simp

text \<open>When more than four messages arrive between two polls, the page shows the newest four after the ones it had,
  and the first of the others is not there: no later poll and no loading of older messages brings it, as long as the
  page had at least as many messages as are missing.\<close>

theorem burst_of_messages_leaves_a_gap:
  assumes "log_ok (old @ new)" "cp_messages (w_page w) = drop i old" "i \<le> length old" "w_hist w = old @ new" "cp_session (w_page w) \<noteq> []"
    and "POLL_LIMIT < length new" "length new - POLL_LIMIT \<le> length old - i" "set es \<subseteq> {PagePolls, PageLoadsMore}"
  shows "cp_messages (w_page (world_step PagePolls w)) = drop i old @ drop (length new - POLL_LIMIT) new
    \<and> hd new \<notin> set (cp_messages (w_page (run_steps world_step (PagePolls # es) w)))
    \<and> set (drop i old) \<union> set (drop (length new - POLL_LIMIT) new) \<subseteq> set (cp_messages (w_page (run_steps world_step (PagePolls # es) w)))"
proof -
  let ?h = "old @ new" and ?a = "drop (length new - POLL_LIMIT) new"
  have a: "drop (length ?h - POLL_LIMIT) ?h = ?a" using assms(6) by simp
  have split: "log_ok (drop i old @ ?a)"
  proof -
    have "log_ok (drop i old)" "log_ok ?a" using assms(1) log_ok_take_drop(2) by (auto simp: log_ok_append)
    moreover have "\<forall>x \<in> set (drop i old). \<forall>y \<in> set ?a. cm_created x < cm_created y" "set (ids (drop i old)) \<inter> set (ids ?a) = {}"
      using assms(1) by (auto simp: log_ok_append dest!: in_set_dropD)
    ultimately show ?thesis by (simp add: log_ok_append)
  qed
  have m: "merge_messages (drop i old) ?a = drop i old @ ?a"
    by (rule merge_is_log [OF _ _ split]) (use split in \<open>auto simp: log_ok_append log_ok_def [of "drop i old"] log_ok_def [of "?a"]\<close>)
  have ne: "?a \<noteq> []" using assms(6) by (auto simp: POLL_LIMIT_def)
  have p: "cp_messages (w_page (world_step PagePolls w)) = drop i old @ ?a" "w_hist (world_step PagePolls w) = ?h"
      "cp_session (w_page (world_step PagePolls w)) \<noteq> []"
    using assms(2,4,5) a m ne by (simp_all add: pollLatest_begin_def pollLatest_end_def answer_poll poll_messages_def Let_def)
  have d: "distinct ?h" using log_ok_sorted [OF assms(1)] by (auto simp: distinct_map)
  have hd: "?h ! length old = hd new" using assms(6) by (cases new) auto
  have "hd new \<notin> set ?a"
    using nth_not_in_drop [of new 0 "length new - POLL_LIMIT"] d assms(6) by (cases new) auto
  then have "hd new \<notin> set (drop i old @ ?a)" using d assms(6) by (cases new) (auto dest!: in_set_dropD)
  moreover have "distinct (ids (drop i old @ ?a))" using split by (simp add: log_ok_def)
  moreover have "set (drop i old @ ?a) \<subseteq> set ?h" using set_drop_subset [of i old] set_drop_subset [of _ new] by auto
  moreover have "length ?h - length (drop i old @ ?a) \<le> length old" "length old < length ?h - POLL_LIMIT"
    using assms(3,6,7) by auto
  ultimately have "gap_state ?h (length old) (world_step PagePolls w)" unfolding gap_state_def p hd using p(3) by blast
  from gap_stays [OF this assms(1,8)] show ?thesis using p(1) hd unfolding gap_state_def by auto
qed

lemma burst_of_messages_leaves_a_gap_witness:
  "plain_message ''m2'' RoleUser [] 2 \<notin> set (cp_messages (w_page (run_steps world_step [PagePolls, PageLoadsMore, PagePolls]
      ((opened ''s1'' [plain_message ''m1'' RoleUser [] 1] (page_start []))\<lparr>w_hist := [plain_message ''m1'' RoleUser [] 1,
         plain_message ''m2'' RoleUser [] 2, plain_message ''m3'' RoleUser [] 3, plain_message ''m4'' RoleUser [] 4,
         plain_message ''m5'' RoleUser [] 5, plain_message ''m6'' RoleUser [] 6]\<rparr>))))"
proof -
  let ?m = "\<lambda>k t. plain_message k RoleUser [] t"
  let ?new = "[?m ''m2'' 2, ?m ''m3'' 3, ?m ''m4'' 4, ?m ''m5'' 5, ?m ''m6'' 6]"
  let ?w = "(opened ''s1'' [?m ''m1'' 1] (page_start []))\<lparr>w_hist := [?m ''m1'' 1] @ ?new\<rparr>"
  have "log_ok ([?m ''m1'' 1] @ ?new)" by (simp add: log_ok_def plain_message_def)
  moreover have "cp_messages (w_page ?w) = drop 0 [?m ''m1'' 1]" "cp_session (w_page ?w) \<noteq> []" "w_hist ?w = [?m ''m1'' 1] @ ?new"
    by (simp_all add: opened_def open_session_def loadFull_end_def answer_of_def server_page_def PAGE_SIZE_def)
  moreover have "set [PageLoadsMore, PagePolls] \<subseteq> {PagePolls, PageLoadsMore}" by simp
  ultimately show ?thesis
    using burst_of_messages_leaves_a_gap [of "[?m ''m1'' 1]" ?new ?w 0 "[PageLoadsMore, PagePolls]"] by (simp add: POLL_LIMIT_def)
qed

subsection \<open>Late answers\<close>

definition polled :: "chat_message list list \<Rightarrow> chat_page \<Rightarrow> chat_page" where
  "polled answers p = foldl (\<lambda>q a. pollLatest_end (Some a) q) p answers"

lemma set_ids_puts: "set (ids (foldl put_message ms xs)) = set (ids ms) \<union> set (ids xs)"
proof (induction xs arbitrary: ms)
  case (Cons x xs)
  have "set (ids (put_message ms x)) = insert (cm_id x) (set (ids ms))" by (simp only: ids_put split: if_splits) auto
  then show ?case using Cons by simp
qed simp

lemma set_ids_merge: "set (ids (merge_messages xs ys)) = set (ids xs) \<union> set (ids ys)"
  using set_ids_puts [of "foldl put_message [] xs" ys] set_ids_puts [of "[]" xs] by (simp add: merge_messages_def)

lemma ids_poll: "set (ids (cp_messages (pollLatest_end (Some a) p))) = set (ids (cp_messages p)) \<union> set (ids a)"
proof -
  have "poll_messages a (cp_messages p) = merge_messages (cp_messages p) a" by (simp add: poll_messages_def Let_def)
  then show ?thesis using set_ids_merge [of "cp_messages p" a] by (simp add: pollLatest_end_def)
qed

lemma ids_polled: "set (ids (cp_messages p)) \<subseteq> set (ids (cp_messages (polled answers p))) \<and> cp_session (polled answers p) = cp_session p"
proof (induction answers arbitrary: p)
  case (Cons a answers)
  have "cp_session (pollLatest_end (Some a) p) = cp_session p" by (simp add: pollLatest_end_def)
  then show ?case using Cons [of "pollLatest_end (Some a) p"] ids_poll [of a p] by (auto simp: polled_def)
qed (simp add: polled_def)

text \<open>The first page of a session that answers after another session was opened is shown in the other one, in place of
  its messages, and stays there through every later poll.\<close>

theorem late_answer_shows_another_session:
  "cp_session (polled answers (loadFull_end (Some theirs) (loadFull_end (Some mine) (fst (open_session s p))))) = s
     \<and> cp_messages (loadFull_end (Some theirs) (loadFull_end (Some mine) (fst (open_session s p)))) = theirs
     \<and> set (ids theirs) \<subseteq> set (ids (cp_messages (polled answers (loadFull_end (Some theirs) (loadFull_end (Some mine) (fst (open_session s p)))))))"
  using ids_polled [of "loadFull_end (Some theirs) (loadFull_end (Some mine) (fst (open_session s p)))" answers]
  by (simp add: loadFull_end_def open_session_def)

text \<open>An answer that was on its way when the last answer was regenerated brings the old one back, next to the new
  one, and no later poll removes it, although the server no longer has it.\<close>

theorem regenerated_answer_comes_back:
  assumes "regenerate_begin p = (q, Some (s, Some (cm_id x)))" "x \<in> set late"
  shows "cm_id x \<in> set (ids (cp_messages (polled answers (pollLatest_end (Some late) (regenerate_end (Some (cm_id x)) (Some a) q)))))
    \<and> cm_id a \<in> set (ids (cp_messages (polled answers (pollLatest_end (Some late) (regenerate_end (Some (cm_id x)) (Some a) q)))))"
proof -
  let ?r = "pollLatest_end (Some late) (regenerate_end (Some (cm_id x)) (Some a) q)"
  have "cm_id a \<in> set (ids (cp_messages ?r))" "cm_id x \<in> set (ids (cp_messages ?r))"
    unfolding ids_poll using assms(2) by (auto simp: regenerate_end_def)
  then show ?thesis using ids_polled [of ?r answers] by blast
qed

lemma regenerated_answer_comes_back_witness:
  "''m1'' \<in> set (ids (cp_messages (polled [] (pollLatest_end (Some [plain_message ''m1'' RoleAssistant ''old'' 1])
      (regenerate_end (Some ''m1'') (Some (plain_message ''m2'' RoleAssistant [] 2))
        (fst (regenerate_begin ((page_start ''s1'')\<lparr>cp_messages := [plain_message ''m1'' RoleAssistant ''old'' 1]\<rparr>))))))))"
  using regenerated_answer_comes_back [of "(page_start ''s1'')\<lparr>cp_messages := [plain_message ''m1'' RoleAssistant ''old'' 1]\<rparr>"
      "fst (regenerate_begin ((page_start ''s1'')\<lparr>cp_messages := [plain_message ''m1'' RoleAssistant ''old'' 1]\<rparr>))" "''s1''"
      "plain_message ''m1'' RoleAssistant ''old'' 1" "[plain_message ''m1'' RoleAssistant ''old'' 1]" "[]" "plain_message ''m2'' RoleAssistant [] 2"]
  by (simp add: regenerate_begin_def has_pending_def lastAssistantId_def last_assistant_def plain_message_def page_start_def)

text \<open>Regenerating while messages were not polled yet: the page takes away the last answer it knows, the server the last it
  has, and the answer the page dropped does not come back with the polls although the log has it.\<close>

lemma regenerating_behind_the_log:
  "let m = plain_message; u1 = m ''u1'' RoleUser [] 1; a1 = m ''a1'' RoleAssistant [] 2; a2 = m ''a2'' RoleAssistant [] 3;
     u2 = m ''u2'' RoleUser [] 4; u3 = m ''u3'' RoleUser [] 5; u4 = m ''u4'' RoleUser [] 6; a3 = m ''a3'' RoleAssistant [] 7;
     w = run_steps world_step [ServerAppends a2, ServerAppends u2, ServerAppends u3, ServerAppends u4, PageRegenerates a3, PagePolls, PagePolls]
           (opened ''s1'' [u1, a1] (page_start []))
   in w_hist w = [u1, a1, u2, u3, u4, a3] \<and> cp_messages (w_page w) = [u1, u2, u3, u4, a3] \<and> \<not> cp_hasMore (w_page w)"
  by code_simp

section \<open>Sending\<close>

text \<open>Sending, on every branch: nothing happens while another message is on its way or with nothing to send; a
  message that arrives is shown with its answer and the files are gone; one that fails leaves the files, but the text that
  was typed is lost.\<close>

theorem sending_on_every_branch:
  "(cp_sending p \<or> cp_session p = [] \<or> trim (cp_input p) = [] \<and> cp_files p = [] \<longrightarrow> send_begin None p = (p, None))
   \<and> (\<not> cp_sending p \<and> cp_session p \<noteq> [] \<and> (trim (cp_input p) \<noteq> [] \<or> cp_files p \<noteq> []) \<longrightarrow>
        snd (send_begin None p) = Some \<lparr>sr_session = cp_session p, sr_text = trim (cp_input p), sr_files = cp_files p\<rparr>
        \<and> send_begin other (fst (send_begin None p)) = (fst (send_begin None p), None)
        \<and> cp_messages (send_end (Some (u, a)) (fst (send_begin None p))) = cp_messages p @ [u, a]
        \<and> cp_files (send_end (Some (u, a)) (fst (send_begin None p))) = []
        \<and> send_end None (fst (send_begin None p)) = p\<lparr>cp_input := [], cp_scrolledUp := False, cp_sending := False\<rparr>)"
  by (auto simp: send_begin_def send_end_def or_else_def Let_def)

lemma sending_on_every_branch_witness:
  "cp_input (send_end None (fst (send_begin None ((page_start ''s1'')\<lparr>cp_input := ''hello''\<rparr>)))) = []"
proof -
  have "trim ''hello'' \<noteq> []" by code_simp
  then show ?thesis using sending_on_every_branch [of "(page_start ''s1'')\<lparr>cp_input := ''hello''\<rparr>" None] by (simp add: page_start_def)
qed

end
