(* ===== verification/ChatWindow.thy ===== *)
theory ChatWindow
  imports ChatSync
begin

text \<open>
  The message window of the desktop, \<open>pages/chat-winxp/WinXpChatWindow.tsx\<close>: its state and handlers, in the form the
  theory \<open>ChatTimeline\<close> gives those of the chat page, and the proof that both treat their messages alike.
\<close>

section \<open>The window\<close>

record chat_window =
  xw_session :: string
  xw_messages :: "chat_message list"
  xw_input :: string
  xw_sending :: bool
  xw_stopping :: bool
  xw_regenerating :: bool
  xw_hasMore :: bool
  xw_loadingMore :: bool

definition xp_load_request :: "chat_window \<Rightarrow> list_request" where
  "xp_load_request w = \<lparr>lr_session = xw_session w, lr_limit = 10, lr_offset = 0\<rparr>"

text \<open>Another session in the same window: empty until its first page comes.\<close>

definition xp_open :: "string \<Rightarrow> chat_window \<Rightarrow> chat_window" where
  "xp_open s w = w\<lparr>xw_session := s, xw_messages := [], xw_hasMore := False\<rparr>"

definition xp_loadFull_end :: "chat_message list option \<Rightarrow> chat_window \<Rightarrow> chat_window" where
  "xp_loadFull_end answer w = (case answer of
      None \<Rightarrow> w
    | Some list \<Rightarrow> w\<lparr>xw_messages := list, xw_hasMore := (length list = 10)\<rparr>)"

definition xp_poll_request :: "chat_window \<Rightarrow> list_request" where
  "xp_poll_request w = \<lparr>lr_session = xw_session w, lr_limit = 4, lr_offset = 0\<rparr>"

definition xp_poll_interval :: "chat_window \<Rightarrow> nat" where
  "xp_poll_interval w = (if has_pending (xw_messages w) then 400 else 8000)"

text \<open>An answer is dropped when the window has changed its session or its rhythm since the poll began.\<close>

definition xp_tick_end :: "bool \<Rightarrow> chat_message list option \<Rightarrow> chat_window \<Rightarrow> chat_window" where
  "xp_tick_end cancelled answer w = (case answer of
      None \<Rightarrow> w
    | Some latest \<Rightarrow>
        if cancelled \<or> latest = [] then w
        else w\<lparr>xw_messages := (let next = merge_messages (xw_messages w) latest in
          if length (xw_messages w) = length next \<and> list_all2 (=) (xw_messages w) next then xw_messages w else next)\<rparr>)"

definition xp_loadMore_begin :: "chat_window \<Rightarrow> chat_window \<times> list_request option" where
  "xp_loadMore_begin w =
     (if xw_loadingMore w \<or> \<not> xw_hasMore w then (w, None)
      else (w\<lparr>xw_loadingMore := True\<rparr>,
        Some \<lparr>lr_session = xw_session w, lr_limit = 10, lr_offset = length (xw_messages w)\<rparr>))"

definition xp_loadMore_end :: "chat_message list option \<Rightarrow> chat_window \<Rightarrow> chat_window" where
  "xp_loadMore_end answer w = (case answer of
      None \<Rightarrow> w\<lparr>xw_hasMore := False, xw_loadingMore := False\<rparr>
    | Some older \<Rightarrow>
        (let v = (if length older < 10 then w\<lparr>xw_hasMore := False\<rparr> else w);
             u = (if 0 < length older then v\<lparr>xw_messages := merge_messages older (xw_messages v)\<rparr> else v)
         in u\<lparr>xw_loadingMore := False\<rparr>))"

definition xp_send_begin :: "string option \<Rightarrow> chat_window \<Rightarrow> chat_window \<times> (string \<times> string) option" where
  "xp_send_begin textOverride w =
     (let text' = trim (or_else textOverride (xw_input w)) in
      if text' = [] \<or> xw_sending w then (w, None)
      else (w\<lparr>xw_input := (if or_else textOverride [] = [] then [] else xw_input w), xw_sending := True\<rparr>, Some (xw_session w, text')))"

definition xp_send_end :: "(chat_message \<times> chat_message) option \<Rightarrow> chat_window \<Rightarrow> chat_window" where
  "xp_send_end answer w = (case answer of
      None \<Rightarrow> w
    | Some (u, a) \<Rightarrow> w\<lparr>xw_messages := xw_messages w @ [u, a]\<rparr>)\<lparr>xw_sending := False\<rparr>"

definition xp_stop_begin :: "chat_window \<Rightarrow> chat_window \<times> string option" where
  "xp_stop_begin w = (if xw_stopping w then (w, None) else (w\<lparr>xw_stopping := True\<rparr>, Some (xw_session w)))"

definition xp_stop_end :: "chat_window \<Rightarrow> chat_window" where
  "xp_stop_end w = w\<lparr>xw_stopping := False\<rparr>"

definition xp_regenerate_begin :: "chat_window \<Rightarrow> chat_window \<times> (string \<times> string option) option" where
  "xp_regenerate_begin w =
     (if xw_regenerating w \<or> has_pending (xw_messages w) then (w, None)
      else (w\<lparr>xw_regenerating := True\<rparr>, Some (xw_session w, map_option cm_id (last_assistant (xw_messages w)))))"

definition xp_regenerate_end :: "string option \<Rightarrow> chat_message option \<Rightarrow> chat_window \<Rightarrow> chat_window" where
  "xp_regenerate_end lastAssistantId' answer w = (case answer of
      None \<Rightarrow> w
    | Some a \<Rightarrow> w\<lparr>xw_messages :=
        filter (\<lambda>m. \<not> (cm_role m = RoleAssistant \<and> Some (cm_id m) = lastAssistantId')) (xw_messages w) @ [a]\<rparr>)\<lparr>xw_regenerating := False\<rparr>"

text \<open>What the window shows of its state.\<close>

definition xp_canRegenerate :: "chat_window \<Rightarrow> bool" where
  "xp_canRegenerate w \<longleftrightarrow> last_assistant (xw_messages w) \<noteq> None \<and> \<not> has_pending (xw_messages w)"

definition xp_showActions :: "chat_window \<Rightarrow> chat_message \<Rightarrow> bool" where
  "xp_showActions w m \<longleftrightarrow> cm_role m = RoleAssistant \<and> Some (cm_id m) = map_option cm_id (last_assistant (xw_messages w))
     \<and> cm_status m \<noteq> ''pending''"

definition xp_tool_calls :: "chat_window \<Rightarrow> nat" where
  "xp_tool_calls w = foldl (\<lambda>acc m. acc + length (or_else (cm_steps m) [])) 0 (xw_messages w)"

definition xp_tokens :: "chat_window \<Rightarrow> nat" where
  "xp_tokens w = or_else (Option.bind (last_assistant (xw_messages w)) cm_tokens) 0"

definition xp_suggestions_shown :: "chat_window \<Rightarrow> bool" where
  "xp_suggestions_shown w \<longleftrightarrow> length (xw_messages w) = 0 \<and> \<not> has_pending (xw_messages w)"

section \<open>The window and the page\<close>

definition window_of :: "chat_page \<Rightarrow> chat_window" where
  "window_of p = \<lparr>xw_session = cp_session p, xw_messages = cp_messages p, xw_input = cp_input p, xw_sending = cp_sending p,
     xw_stopping = cp_stopping p, xw_regenerating = cp_regenerating p, xw_hasMore = cp_hasMore p, xw_loadingMore = cp_loadingMore p\<rparr>"

lemma same_list: "length xs = length ys \<and> list_all2 (=) xs ys \<longleftrightarrow> xs = ys"
  by (metis list.rel_eq)

text \<open>C29: The desktop's window and the chat page treat a chat alike, but for two things. Opening a session, loading it, polling,
  loading more, sending, stopping and regenerating do to the window's messages, flags and input what the page's handlers do,
  and ask the same questions, for a page with a session and without files and for a text that is typed or not empty. The two
  differences: after a stop that was answered the page polls at once, which is what the window's next tick does; and a poll
  that is answered after the window changed its session or rhythm is dropped, where the page takes it.\<close>

theorem window_simulates_the_page:
  assumes "cp_session p \<noteq> []" "cp_files p = []" "override \<noteq> Some []"
  shows "window_of (fst (open_session s p)) = xp_open s (window_of p)
    \<and> window_of (loadFull_end answer p) = xp_loadFull_end answer (window_of p)
    \<and> window_of (pollLatest_end answer p) = xp_tick_end False answer (window_of p)
    \<and> map_prod window_of id (loadMore_begin p) = xp_loadMore_begin (window_of p)
    \<and> window_of (loadMore_end answer p) = xp_loadMore_end answer (window_of p)
    \<and> map_prod window_of (map_option (\<lambda>r. (sr_session r, sr_text r))) (send_begin override p) = xp_send_begin override (window_of p)
    \<and> window_of (send_end sent p) = xp_send_end sent (window_of p)
    \<and> map_prod window_of id (stop_begin p) = xp_stop_begin (window_of p)
    \<and> window_of (stop_end answered latest p) = xp_stop_end (if answered then xp_tick_end False latest (window_of p) else window_of p)
    \<and> xp_tick_end True answer (window_of p) = window_of p
    \<and> map_prod window_of id (regenerate_begin p) = xp_regenerate_begin (window_of p)
    \<and> window_of (regenerate_end last_id regenerated p) = xp_regenerate_end last_id regenerated (window_of p)
    \<and> pollLatest_begin p = Some (xp_poll_request (window_of p))"
proof (intro conjI)
  show "window_of (fst (open_session s p)) = xp_open s (window_of p)"
    by (simp add: open_session_def xp_open_def window_of_def)
  show "window_of (loadFull_end answer p) = xp_loadFull_end answer (window_of p)"
    by (cases answer) (simp_all add: loadFull_end_def xp_loadFull_end_def window_of_def PAGE_SIZE_def)
  show "window_of (pollLatest_end answer p) = xp_tick_end False answer (window_of p)"
    by (cases answer) (simp_all add: pollLatest_end_def xp_tick_end_def window_of_def poll_messages_def Let_def same_list)
  show "map_prod window_of id (loadMore_begin p) = xp_loadMore_begin (window_of p)"
    by (simp add: loadMore_begin_def xp_loadMore_begin_def window_of_def PAGE_SIZE_def)
  show "window_of (loadMore_end answer p) = xp_loadMore_end answer (window_of p)"
    by (cases answer) (simp_all add: loadMore_end_def xp_loadMore_end_def window_of_def PAGE_SIZE_def Let_def)
  show "map_prod window_of (map_option (\<lambda>r. (sr_session r, sr_text r))) (send_begin override p) = xp_send_begin override (window_of p)"
    using assms by (cases override) (auto simp: send_begin_def xp_send_begin_def window_of_def Let_def or_else_def)
  show "window_of (send_end sent p) = xp_send_end sent (window_of p)"
    by (cases sent) (auto simp: send_end_def xp_send_end_def window_of_def)
  show "map_prod window_of id (stop_begin p) = xp_stop_begin (window_of p)"
    using assms by (simp add: stop_begin_def xp_stop_begin_def window_of_def)
  show "window_of (stop_end answered latest p) = xp_stop_end (if answered then xp_tick_end False latest (window_of p) else window_of p)"
    by (cases latest) (simp_all add: stop_end_def pollLatest_end_def xp_stop_end_def xp_tick_end_def window_of_def poll_messages_def Let_def same_list)
  show "xp_tick_end True answer (window_of p) = window_of p" by (simp add: xp_tick_end_def split: option.split)
  show "map_prod window_of id (regenerate_begin p) = xp_regenerate_begin (window_of p)"
    using assms by (simp add: regenerate_begin_def xp_regenerate_begin_def window_of_def lastAssistantId_def)
  show "window_of (regenerate_end last_id regenerated p) = xp_regenerate_end last_id regenerated (window_of p)"
    by (cases regenerated) (simp_all add: regenerate_end_def xp_regenerate_end_def window_of_def)
  show "pollLatest_begin p = Some (xp_poll_request (window_of p))"
    using assms by (simp add: pollLatest_begin_def xp_poll_request_def window_of_def POLL_LIMIT_def)
qed

lemma window_simulates_the_page_witness:
  "xp_send_begin None (window_of ((page_start ''s1'')\<lparr>cp_input := ''hi''\<rparr>))
     = map_prod window_of (map_option (\<lambda>r. (sr_session r, sr_text r))) (send_begin None ((page_start ''s1'')\<lparr>cp_input := ''hi''\<rparr>))"
  using window_simulates_the_page [of "(page_start ''s1'')\<lparr>cp_input := ''hi''\<rparr>" None] by (simp add: page_start_def)

end
