(* ===== verification/ChatText.thy ===== *)
theory ChatText
  imports ToolOutput ChatParts ChatWindow
begin

text \<open>
  What a chat bubble makes of a message: the thinking of the model is cut out or folded (\<open>utils.ts\<close>,
  \<open>components/Markdown.tsx\<close>), numbers are shortened, and flags decide which indicators and buttons are shown
  (\<open>AssistantBubble.tsx\<close>, \<open>UserBubble.tsx\<close>, \<open>ErrorBubble.tsx\<close>, \<open>WinXpChatWindow.tsx\<close>, \<open>ContextMeter.tsx\<close>).
  The current time is an argument.
\<close>

section \<open>Thinking\<close>

definition think_open :: string where "think_open = ''<think>''"
definition think_close :: string where "think_close = ''</think>''"

lemma cut_at_shorter: "cut_at p s = Some (a, b) \<Longrightarrow> p \<noteq> [] \<Longrightarrow> length a + length b < length s"
proof (induction s arbitrary: a)
  case Nil
  then have "starts_with p []" by (subst (asm) cut_at.simps) (simp split: if_splits)
  then show ?case using Nil by (cases p) auto
next
  case (Cons c s)
  show ?case
  proof (cases "starts_with p (c # s)")
    case True
    then have "a = []" "b = drop (length p) (c # s)" using Cons.prems(1) by (auto simp: cut_at.simps [of p "c # s"])
    then show ?thesis using Cons.prems(2) by (cases p) auto
  next
    case False
    then obtain a' where "cut_at p s = Some (a', b)" "a = c # a'" using Cons.prems by (auto simp: cut_at.simps [of p "c # s"])
    then show ?thesis using Cons by fastforce
  qed
qed

text \<open>\<open>replace(/<think>[\s\S]*?<\/think>/g, '')\<close>\<close>

function remove_thoughts :: "string \<Rightarrow> string" where
  "remove_thoughts s =
     (if starts_with think_open s then
        (case cut_at think_close (drop (length think_open) s) of
           Some (_, rest) \<Rightarrow> remove_thoughts rest
         | None \<Rightarrow> hd s # remove_thoughts (tl s))
      else case s of [] \<Rightarrow> [] | c # t \<Rightarrow> c # remove_thoughts t)"
  by pat_completeness auto
termination
proof (relation "measure length")
  fix s x a b assume s: "starts_with think_open s" "cut_at think_close (drop (length think_open) s) = Some x" "(a, b) = x"
  have "s \<noteq> []" using s(1) by (auto simp: think_open_def)
  moreover have "length b \<le> length (drop (length think_open) s)" using s(2,3) cut_at_length by metis
  ultimately show "(b, s) \<in> measure length" by (cases s) (auto simp: think_open_def)
next
  fix s assume "starts_with think_open s"
  then show "(tl s, s) \<in> measure length" by (cases s) (auto simp: think_open_def)
qed auto

declare remove_thoughts.simps [simp del]

definition stripThinking :: "string \<Rightarrow> string" where
  "stripThinking content =
     (if content = [] then []
      else let s = remove_thoughts content in trim (case cut_at think_open s of Some (a, _) \<Rightarrow> a | None \<Rightarrow> s))"

text \<open>The loop of \<open>splitThinking\<close>.\<close>

datatype segment = TextSegment string | ThinkingSegment string bool

function splitThinking :: "string \<Rightarrow> segment list" where
  "splitThinking rest =
     (if rest = [] then []
      else case cut_at think_open rest of
          None \<Rightarrow> [TextSegment rest]
        | Some (before, afterOpen) \<Rightarrow>
            (if before = [] then [] else [TextSegment before])
            @ (case cut_at think_close afterOpen of
                 None \<Rightarrow> [ThinkingSegment afterOpen True]
               | Some (thought, later) \<Rightarrow> ThinkingSegment thought False # splitThinking later))"
  by pat_completeness auto
termination
proof (relation "measure length")
  fix rest x a b y c d
  assume "cut_at think_open rest = Some x" "(a, b) = x" "cut_at think_close b = Some y" "(c, d) = y"
  then have "length a + length b < length rest" "length d \<le> length b"
    using cut_at_shorter [of think_open rest a b] cut_at_length [of think_close b c d] by (auto simp: think_open_def)
  then show "(d, rest) \<in> measure length" by simp
qed auto

declare splitThinking.simps [simp del]

text \<open>The text a reader sees with the thoughts folded.\<close>

fun segment_text :: "segment \<Rightarrow> string" where
  "segment_text (TextSegment t) = t"
| "segment_text (ThinkingSegment t streaming) = []"

section \<open>Numbers\<close>

definition fmtElapsed :: "int \<Rightarrow> string" where
  "fmtElapsed ms = span_text (if ms < 0 then 0 else ms)"

definition estimateTokens :: "string \<Rightarrow> nat" where
  "estimateTokens s = (if s = [] then 0 else nat \<lceil>of_nat (length s) / (4 :: rat)\<rceil>)"

definition fmtTokens :: "nat \<Rightarrow> string" where
  "fmtTokens n =
     (if n < 1000 then nat_str n
      else if n < 10000 then to_fixed 1 (of_nat n / 1000) @ ''k''
      else nat_str (nat \<lfloor>of_nat n / (1000 :: rat) + 1 / 2\<rfloor>) @ ''k'')"

definition formatBytes :: "nat \<Rightarrow> string" where
  "formatBytes b =
     (if b < 1024 then nat_str b @ '' B''
      else if b < 1024 * 1024 then to_fixed 1 (of_nat b / 1024) @ '' KB''
      else to_fixed 1 (of_nat b / (1024 * 1024)) @ '' MB'')"

definition fmtDuration :: "int \<Rightarrow> int \<Rightarrow> string" where
  "fmtDuration start end' = span_text (end' - start)"

section \<open>Attachments\<close>

definition ends_with :: "string \<Rightarrow> string \<Rightarrow> bool" where
  "ends_with p s \<longleftrightarrow> starts_with (rev p) (rev s)"

text \<open>\<open>/\.(png|jpe?g|gif|webp|svg|bmp)$/i\<close>\<close>

definition image_name :: "string \<Rightarrow> bool" where
  "image_name n \<longleftrightarrow> list_ex (\<lambda>x. ends_with x (map to_lower n)) [''.png'', ''.jpg'', ''.jpeg'', ''.gif'', ''.webp'', ''.svg'', ''.bmp'']"

definition isImage :: "attachment \<Rightarrow> bool" where
  "isImage a \<longleftrightarrow> starts_with ''image/'' (at_mimeType a) \<or> image_name (at_fileName a)"

definition image_attachments :: "chat_message \<Rightarrow> attachment list" where
  "image_attachments m = filter isImage (or_else (cm_attachments m) [])"

definition other_attachments :: "chat_message \<Rightarrow> attachment list" where
  "other_attachments m = filter (\<lambda>a. \<not> isImage a) (or_else (cm_attachments m) [])"

definition artifact_path :: "string \<Rightarrow> string \<Rightarrow> string" where
  "artifact_path s attachment_id = ''/api/artifacts/'' @ s @ ''/'' @ attachment_id"

section \<open>The bubbles\<close>

text \<open>A text of one-byte characters as the scalar values the parts are made of.\<close>

definition utext_of :: "string \<Rightarrow> utext" where
  "utext_of s = map of_char s"

definition message_parts :: "chat_message \<Rightarrow> part list" where
  "message_parts m = buildInterleavedParts (utext_of (cm_content m)) (or_else (cm_steps m) [])"

definition last_index_of :: "string \<Rightarrow> string \<Rightarrow> int" where
  "last_index_of p s = (case filter (\<lambda>i. starts_with p (drop i s)) [0..<Suc (length s)] of [] \<Rightarrow> -1 | is \<Rightarrow> int (last is))"

definition truthy :: "string option \<Rightarrow> bool" where
  "truthy x \<longleftrightarrow> or_else x [] \<noteq> []"

record bubble =
  bb_inThinkTag :: bool
  bb_isTyping :: bool
  bb_showThinking :: bool
  bb_showTyping :: bool
  bb_showDuration :: bool
  bb_measured :: bool
  bb_tokens :: nat
  bb_showHeader :: bool
  bb_hasAnyContent :: bool
  bb_showEmpty :: bool
  bb_showFooter :: bool

text \<open>\<open>last_change\<close> is when the length of the text last changed.\<close>

definition AssistantBubble :: "int \<Rightarrow> int \<Rightarrow> chat_message \<Rightarrow> bubble" where
  "AssistantBubble now last_change m =
     (let isPending = (cm_status m = ''pending'');
          isCancelled = (cm_status m = ''cancelled'');
          hasRunningStep = list_ex (\<lambda>s. step_state s = StepRunning) (or_else (cm_steps m) []);
          lastOpen = last_index_of think_open (cm_content m);
          lastClose = last_index_of think_close (cm_content m);
          inThinkTag = (isPending \<and> 0 \<le> lastOpen \<and> lastClose < lastOpen);
          isTyping = (isPending \<and> cm_content m \<noteq> [] \<and> now - last_change < 900 \<and> \<not> inThinkTag);
          showThinking = (isPending \<and> \<not> hasRunningStep \<and> \<not> isTyping \<and> \<not> inThinkTag);
          showTyping = (isTyping \<and> \<not> hasRunningStep);
          elapsed = or_else (cm_finished m) now - cm_created m;
          showDuration = (300 \<le> elapsed \<and> (isPending \<or> cm_finished m \<noteq> None));
          measured = (0 < or_else (cm_tokens m) 0 \<and> \<not> isPending);
          tokens = (if measured then or_else (cm_tokens m) 0 else estimateTokens (stripThinking (cm_content m)));
          hasAnyContent = (message_parts m \<noteq> [] \<or> image_attachments m \<noteq> [] \<or> other_attachments m \<noteq> []
            \<or> showThinking \<or> showTyping \<or> isCancelled)
      in \<lparr>bb_inThinkTag = inThinkTag, bb_isTyping = isTyping, bb_showThinking = showThinking, bb_showTyping = showTyping,
          bb_showDuration = showDuration, bb_measured = measured, bb_tokens = tokens,
          bb_showHeader = (truthy (cm_modelName m) \<or> truthy (cm_presetName m) \<or> cm_modelRole m = Some ''fallback'' \<or> showDuration \<or> 0 < tokens),
          bb_hasAnyContent = hasAnyContent, bb_showEmpty = (\<not> hasAnyContent \<and> \<not> isPending), bb_showFooter = (\<not> isPending)\<rparr>)"

definition footer_copy :: "string \<Rightarrow> string option" where
  "footer_copy content = (if 0 < length (stripThinking content) then Some (stripThinking content) else None)"

definition footer_shown :: "bool \<Rightarrow> string \<Rightarrow> bool" where
  "footer_shown can_regenerate content \<longleftrightarrow> footer_copy content \<noteq> None \<or> can_regenerate"

definition token_label :: "bubble \<Rightarrow> string" where
  "token_label b = (if bb_measured b then fmtTokens (bb_tokens b) else ''~'' @ fmtTokens (bb_tokens b)) @ '' tok''"

datatype bubble_kind = UserBubbleKind | ErrorBubbleKind | AssistantBubbleKind

definition MessageBubble :: "chat_message \<Rightarrow> bubble_kind" where
  "MessageBubble m = (if cm_role m = RoleUser then UserBubbleKind
     else if cm_status m = ''error'' then ErrorBubbleKind else AssistantBubbleKind)"

definition user_tokens :: "chat_message \<Rightarrow> nat" where
  "user_tokens m = or_else (cm_tokens m) (estimateTokens (cm_content m))"

definition error_actions :: "bool \<Rightarrow> chat_message \<Rightarrow> bool" where
  "error_actions can_regenerate m \<longleftrightarrow> stripThinking (cm_content m) \<noteq> [] \<or> can_regenerate"

text \<open>A tool call in a bubble: its colour, whether it shows a time, and the plan it opens.\<close>

definition badge_elapsed :: "int \<Rightarrow> int \<Rightarrow> int option \<Rightarrow> int" where
  "badge_elapsed now start_ms finished = (if 0 < start_ms then or_else finished now - start_ms else 0)"

definition badge_shows_elapsed :: "int \<Rightarrow> int \<Rightarrow> int option \<Rightarrow> step_status \<Rightarrow> bool" where
  "badge_shows_elapsed now start_ms finished st \<longleftrightarrow> 300 \<le> badge_elapsed now start_ms finished \<or> st = StepRunning"

section \<open>A message in the desktop's window\<close>

fun is_text_part :: "part \<Rightarrow> bool" where
  "is_text_part (TextPart t) = True"
| "is_text_part (StepPart s) = False"

definition lastIndex :: "'a list \<Rightarrow> ('a \<Rightarrow> bool) \<Rightarrow> nat option" where
  "lastIndex xs P = (case filter (\<lambda>i. P (xs ! i)) (rev [0..<length xs]) of [] \<Rightarrow> None | i # _ \<Rightarrow> Some i)"

definition row_thinking :: "chat_message \<Rightarrow> bool" where
  "row_thinking m \<longleftrightarrow> cm_role m \<noteq> RoleUser \<and> cm_status m = ''pending'' \<and> message_parts m = []"

definition row_cursor :: "chat_message \<Rightarrow> nat \<Rightarrow> bool" where
  "row_cursor m i \<longleftrightarrow> cm_status m = ''pending'' \<and> cm_role m \<noteq> RoleUser \<and> Some i = lastIndex (message_parts m) is_text_part"

fun part_text :: "part \<Rightarrow> utext list" where
  "part_text (TextPart t) = [t]"
| "part_text (StepPart s) = []"

fun join_lines :: "utext list \<Rightarrow> utext" where
  "join_lines [] = []"
| "join_lines [x] = x"
| "join_lines (x # y # ys) = x @ [10, 10] @ join_lines (y # ys)"

definition row_copy_text :: "chat_message \<Rightarrow> utext" where
  "row_copy_text m = trim_text (join_lines (concat (map part_text (message_parts m))))"

definition row_header :: "chat_message \<Rightarrow> bool" where
  "row_header m \<longleftrightarrow> truthy (cm_presetName m) \<or> truthy (cm_modelName m) \<or> cm_modelRole m = Some ''fallback''"

definition tool_status :: "step \<Rightarrow> string" where
  "tool_status s = (if step_state s = StepRunning then ''running'' else if step_state s = StepError then ''error'' else ''done'')"

definition xp_formatBytes :: "nat \<Rightarrow> string" where
  "xp_formatBytes b = (if b = 0 then [] else formatBytes b)"

section \<open>The context meter\<close>

text \<open>No percentage is \<open>NaN\<close>, which a threshold of zero gives.\<close>

record meter =
  mt_total :: nat
  mt_server :: bool
  mt_atLeast :: bool
  mt_pct :: "int option"
  mt_width :: "int option"
  mt_color :: string
  mt_label :: string

definition percent :: "nat \<Rightarrow> nat \<Rightarrow> int option" where
  "percent used threshold =
     (if threshold = 0 then (if used = 0 then None else Some 100)
      else Some (min 100 \<lfloor>of_nat used / of_nat threshold * 100 + 1 / (2 :: rat)\<rfloor>))"

definition ContextMeter :: "chat_message list \<Rightarrow> nat \<Rightarrow> nat option \<Rightarrow> bool \<Rightarrow> meter" where
  "ContextMeter messages threshold serverTokens partial =
     (let clientTotal = foldl (\<lambda>acc m. acc + or_else (cm_tokens m) (estimateTokens (cm_content m))) 0 messages;
          isServer = (0 < or_else serverTokens 0);
          used = (if isServer then or_else serverTokens 0 else clientTotal);
          pct = percent used threshold;
          p = or_else pct 0
      in \<lparr>mt_total = used, mt_server = isServer, mt_atLeast = (\<not> isServer \<and> partial), mt_pct = pct, mt_width = map_option (max 2) pct,
          mt_color = (if 90 \<le> p then ''bg-rose-500'' else if 70 \<le> p then ''bg-amber-400'' else ''bg-emerald-400''),
          mt_label = (if isServer then [] else ''~'') @ fmtTokens used @ '' / '' @ fmtTokens threshold\<rparr>)"

definition DEFAULT_THRESHOLD :: nat where "DEFAULT_THRESHOLD = 100000"

section \<open>Lemmas on thinking\<close>

lemma cut_at_split: "cut_at p s = Some (a, b) \<Longrightarrow> s = a @ p @ b"
proof (induction s arbitrary: a)
  case Nil
  then show ?case by (cases "starts_with p []") (auto simp: cut_at.simps [of p "[]"] starts_with_def)
next
  case (Cons c s)
  show ?case
  proof (cases "starts_with p (c # s)")
    case True
    then show ?thesis using Cons.prems starts_withD [OF True] by (auto simp: cut_at.simps [of p "c # s"])
  next
    case False
    then obtain a' where "cut_at p s = Some (a', b)" "a = c # a'" using Cons.prems by (auto simp: cut_at.simps [of p "c # s"])
    then show ?thesis using Cons.IH by simp
  qed
qed

lemma cut_at_None: "cut_at p s = None \<longleftrightarrow> \<not> contains p s"
proof (induction s)
  case Nil
  then show ?case by (auto simp: cut_at.simps [of p "[]"] contains.simps [of p "[]"])
next
  case (Cons c s)
  then show ?case by (auto simp: cut_at.simps [of p "c # s"] contains_Cons)
qed

lemma cut_at_first: "cut_at p s = Some (a, b) \<Longrightarrow> p \<noteq> [] \<Longrightarrow> \<not> contains p a"
proof (induction s arbitrary: a)
  case Nil
  then have "starts_with p []" by (subst (asm) cut_at.simps) (simp split: if_splits)
  then show ?case using Nil by (cases p) auto
next
  case (Cons c s)
  show ?case
  proof (cases "starts_with p (c # s)")
    case True
    then show ?thesis using Cons.prems by (auto simp: cut_at.simps [of p "c # s"] contains_nil)
  next
    case False
    then obtain a' where a: "cut_at p s = Some (a', b)" "a = c # a'" using Cons.prems by (auto simp: cut_at.simps [of p "c # s"])
    then have "c # s = (c # a') @ p @ b" using cut_at_split by simp
    then have "\<not> starts_with p (c # a')" using False starts_withD [of p "c # a'"] by (metis append.assoc starts_with_append)
    then show ?thesis using a Cons by (simp add: contains_Cons)
  qed
qed

lemma contains_appendL: "contains p s \<Longrightarrow> contains p (s @ t)"
  unfolding contains_iff by (metis append.assoc)

text \<open>Up to the first opening tag nothing is removed.\<close>

lemma remove_before: "cut_at think_open s = Some (a, b) \<Longrightarrow> remove_thoughts s =
    a @ (case cut_at think_close b of Some (_, rest) \<Rightarrow> remove_thoughts rest | None \<Rightarrow> hd think_open # remove_thoughts (tl think_open @ b))"
proof (induction s arbitrary: a)
  case Nil
  then show ?case by (auto simp: cut_at.simps [of _ "[]"] think_open_def split: if_splits)
next
  case (Cons c s)
  show ?case
  proof (cases "starts_with think_open (c # s)")
    case True
    then have ab: "a = []" "b = drop (length think_open) (c # s)" using Cons.prems by (auto simp: cut_at.simps [of _ "c # s"])
    have "c # s = think_open @ b" using starts_withD [OF True] ab(2) by simp
    then have "hd think_open = c" "tl think_open @ b = s" by (auto simp: think_open_def)
    then show ?thesis using True ab by (subst remove_thoughts.simps) (auto split: option.splits)
  next
    case False
    then obtain a' where "cut_at think_open s = Some (a', b)" "a = c # a'" using Cons.prems by (auto simp: cut_at.simps [of _ "c # s"])
    then show ?thesis using Cons.IH False by (subst remove_thoughts.simps) simp
  qed
qed

lemma remove_none: "\<not> contains think_open s \<Longrightarrow> remove_thoughts s = s"
proof (induction s)
  case Nil
  then show ?case by (subst remove_thoughts.simps) (simp add: think_open_def)
next
  case (Cons c s)
  then show ?case by (subst remove_thoughts.simps) (simp add: contains_Cons)
qed

lemma no_close_no_removal: "\<not> contains think_close s \<Longrightarrow> remove_thoughts s = s"
proof (induction s)
  case Nil
  then show ?case by (subst remove_thoughts.simps) (simp add: think_open_def)
next
  case (Cons c s)
  then have IH: "remove_thoughts s = s" by (simp add: contains_Cons)
  show ?case
  proof (cases "starts_with think_open (c # s)")
    case True
    then have "c # s = think_open @ drop (length think_open) (c # s)" by (rule starts_withD)
    then have "\<not> contains think_close (drop (length think_open) (c # s))" using Cons.prems contains_append by metis
    then have "cut_at think_close (drop (length think_open) (c # s)) = None" by (simp only: cut_at_None) simp
    then show ?thesis using True IH by (subst remove_thoughts.simps) simp
  next
    case False
    then show ?thesis using IH by (subst remove_thoughts.simps) simp
  qed
qed

lemma segment_texts: "concat (map segment_text (splitThinking s)) =
    (case cut_at think_open s of None \<Rightarrow> s | Some (a, b) \<Rightarrow> a @ (case cut_at think_close b of None \<Rightarrow> [] | Some (_, rest) \<Rightarrow> concat (map segment_text (splitThinking rest))))"
  by (subst splitThinking.simps) (auto simp: cut_at.simps [of _ "[]"] think_open_def split: option.splits)

definition before_open :: "string \<Rightarrow> string" where
  "before_open s = (case cut_at think_open s of Some (a, _) \<Rightarrow> a | None \<Rightarrow> s)"

lemma before_open_none: "\<not> contains think_open s \<Longrightarrow> before_open s = s"
  using cut_at_None [of think_open s] by (auto simp: before_open_def split: option.splits)

lemma starts_with_over_tl:
  assumes "p = h # q" "c \<notin> set q" "s \<noteq> []" "\<not> starts_with p s" shows "\<not> starts_with p (s @ c # t)"
proof
  assume "starts_with p (s @ c # t)"
  then have p: "take (length p) (s @ c # t) = p" by (simp add: starts_with_def)
  show False
  proof (cases "length p \<le> length s")
    case True
    then show ?thesis using p assms(4) by (simp add: starts_with_def)
  next
    case False
    then obtain n where n: "length p - length s = Suc n" by (cases "length p - length s") auto
    obtain d u where s: "s = d # u" using assms(3) by (cases s) auto
    have "take (length p) (s @ c # t) = s @ c # take n t" using False n by simp
    then have "q = u @ c # take n t" using p s assms(1) by simp
    then show ?thesis using assms(2) by simp
  qed
qed

lemma cut_at_open: "\<not> contains think_open v \<Longrightarrow> cut_at think_open (v @ think_open @ b) = Some (v, b)"
proof (induction v)
  case Nil
  then show ?case by simp
next
  case (Cons c v)
  have "\<not> starts_with think_open (c # v)" using Cons.prems by (simp add: contains_Cons)
  then have "\<not> starts_with think_open ((c # v) @ CHR ''<'' # ''think>'' @ b)"
    by (intro starts_with_over_tl [of think_open "CHR ''<''" "''think>''"]) (simp_all add: think_open_def)
  then have "\<not> starts_with think_open (c # v @ think_open @ b)" by (simp add: think_open_def)
  then show ?case using Cons by (subst cut_at.simps) (simp add: contains_Cons)
qed

lemma remove_thoughts_text: "\<exists>t. (t = [] \<or> (\<exists>b. t = think_open @ b)) \<and> remove_thoughts s = concat (map segment_text (splitThinking s)) @ t"
proof (induction s rule: splitThinking.induct)
  case (1 s)
  show ?case
  proof (cases "cut_at think_open s")
    case None
    then have "concat (map segment_text (splitThinking s)) = s" using segment_texts [of s] by simp
    then show ?thesis using remove_none [of s] None by (auto simp: cut_at_None)
  next
    case (Some x)
    then obtain a b where x: "cut_at think_open s = Some (a, b)" by (cases x) auto
    have ne: "s \<noteq> []" using cut_at_split [OF x] by (auto simp: think_open_def)
    show ?thesis
    proof (cases "cut_at think_close b")
      case None
      have "\<not> contains think_close (''think>'' @ b)" using None
        by (simp add: cut_at_None contains_Cons) (simp add: think_close_def)
      then have "remove_thoughts (tl think_open @ b) = tl think_open @ b"
        using no_close_no_removal [of "tl think_open @ b"] by (simp add: think_open_def)
      then have "remove_thoughts s = a @ think_open @ b" using remove_before [OF x] None by (simp add: think_open_def)
      moreover have "concat (map segment_text (splitThinking s)) = a" by (simp only: segment_texts [of s] x None option.case prod.case append_Nil2)
      ultimately show ?thesis by blast
    next
      case (Some y)
      then obtain c d where y: "cut_at think_close b = Some (c, d)" by (cases y) auto
      then obtain t where "t = [] \<or> (\<exists>b. t = think_open @ b)" "remove_thoughts d = concat (map segment_text (splitThinking d)) @ t"
        using 1 [OF ne x refl y refl] by blast
      moreover have "remove_thoughts s = a @ remove_thoughts d" using remove_before [OF x] y by simp
      moreover have "concat (map segment_text (splitThinking s)) = a @ concat (map segment_text (splitThinking d))"
        by (simp only: segment_texts [of s] x y option.case prod.case)
      ultimately show ?thesis by auto
    qed
  qed
qed

text \<open>The text that is copied and counted never has an opening tag of a thought in it.\<close>

theorem no_thought_is_copied: "\<not> contains think_open (stripThinking content)"
proof -
  have "\<not> contains think_open (before_open s)" for s
    using cut_at_None [of think_open s] cut_at_first [of think_open s] by (auto simp: before_open_def think_open_def split: option.splits)
  then have "\<not> contains think_open (trim (before_open (remove_thoughts content)))" using contains_trim by blast
  then show ?thesis by (auto simp: stripThinking_def before_open_def Let_def contains_nil think_open_def)
qed

text \<open>What is copied is what is shown with the thoughts folded: the two readings of a message, by regular expressions
  and by a loop, agree whenever the shown pieces do not make up a tag when they are put together.\<close>

theorem copied_text_is_the_shown_text:
  assumes "\<not> contains think_open (concat (map segment_text (splitThinking content)))"
  shows "stripThinking content = trim (concat (map segment_text (splitThinking content)))"
proof -
  obtain t where t: "t = [] \<or> (\<exists>b. t = think_open @ b)" "remove_thoughts content = concat (map segment_text (splitThinking content)) @ t"
    using remove_thoughts_text [of content] by blast
  have "before_open (remove_thoughts content) = concat (map segment_text (splitThinking content))"
    using t(1)
  proof
    assume "t = []"
    then show ?thesis using t(2) before_open_none [OF assms] by simp
  next
    assume "\<exists>b. t = think_open @ b"
    then show ?thesis using t(2) cut_at_open [OF assms] by (auto simp: before_open_def)
  qed
  moreover have "content = [] \<Longrightarrow> splitThinking content = []" by (subst splitThinking.simps) simp
  ultimately show ?thesis by (auto simp: stripThinking_def before_open_def Let_def)
qed

lemma copied_text_is_the_shown_text_witness:
  "stripThinking ''<think>why</think>Yes <think>more'' = ''Yes''"
proof -
  have s: "splitThinking ''<think>why</think>Yes <think>more'' = [ThinkingSegment ''why'' False, TextSegment ''Yes '', ThinkingSegment ''more'' True]"
    by code_simp
  have "\<not> contains think_open ''Yes ''" "trim ''Yes '' = ''Yes''" by code_simp+
  then show ?thesis using copied_text_is_the_shown_text [of "''<think>why</think>Yes <think>more''"] unfolding s by simp
qed

section \<open>What a bubble shows\<close>

lemma place_steps_not_nil: "ss \<noteq> [] \<Longrightarrow> place_steps bs pos ss \<noteq> []"
  by (cases ss) auto

lemma parts_nil: "buildInterleavedParts t ss = [] \<longleftrightarrow> t = [] \<and> ss = []"
proof -
  have "sort_key step_offset ss = [] \<longleftrightarrow> ss = []" by (metis length_0_conv length_sort)
  then show ?thesis using place_steps_not_nil by (auto simp: buildInterleavedParts_def)
qed

lemma last_index_nil: "p \<noteq> [] \<Longrightarrow> last_index_of p [] = -1"
  by (cases p) (auto simp: last_index_of_def)

text \<open>An answer's bubble is never blank and never contradicts itself: one that is being generated shows a text, a tool
  call or one of the two indicators, never both, and no note that there is no answer; a finished one shows its parts or
  that note, and its buttons.\<close>

theorem bubble_is_never_blank:
  "(bb_hasAnyContent (AssistantBubble now t m) \<or> bb_showEmpty (AssistantBubble now t m))
   \<and> \<not> (bb_hasAnyContent (AssistantBubble now t m) \<and> bb_showEmpty (AssistantBubble now t m))
   \<and> \<not> (bb_showThinking (AssistantBubble now t m) \<and> bb_showTyping (AssistantBubble now t m))
   \<and> (bb_showFooter (AssistantBubble now t m) \<longleftrightarrow> cm_status m \<noteq> ''pending'')
   \<and> (bb_showThinking (AssistantBubble now t m) \<or> bb_showTyping (AssistantBubble now t m) \<longrightarrow>
        \<not> bb_showEmpty (AssistantBubble now t m) \<and> \<not> list_ex (\<lambda>s. step_state s = StepRunning) (or_else (cm_steps m) []))"
proof -
  have "bb_hasAnyContent (AssistantBubble now t m)" if p: "cm_status m = ''pending''"
  proof (cases "message_parts m = []")
    case True
    then have "cm_content m = []" "or_else (cm_steps m) [] = []" by (auto simp: message_parts_def parts_nil utext_of_def)
    then show ?thesis using p last_index_nil [of think_open] by (simp add: AssistantBubble_def Let_def think_open_def)
  next
    case False
    then show ?thesis by (simp add: AssistantBubble_def Let_def)
  qed
  then show ?thesis by (auto simp: AssistantBubble_def Let_def)
qed

lemma bubble_is_never_blank_witness:
  "\<not> bb_showEmpty (AssistantBubble 0 0 ((plain_message ''m1'' RoleAssistant [] 0)\<lparr>cm_status := ''pending''\<rparr>))"
proof -
  have "bb_showThinking (AssistantBubble 0 0 ((plain_message ''m1'' RoleAssistant [] 0)\<lparr>cm_status := ''pending''\<rparr>))"
    by (simp add: AssistantBubble_def Let_def plain_message_def or_else_def last_index_nil think_open_def)
  then show ?thesis using bubble_is_never_blank [of 0 0 "(plain_message ''m1'' RoleAssistant [] 0)\<lparr>cm_status := ''pending''\<rparr>"] by blast
qed

text \<open>The attachments of a message are shown once, as an image or as a file.\<close>

lemma attachments_are_split: "set (image_attachments m) \<union> set (other_attachments m) = set (or_else (cm_attachments m) [])"
  "set (image_attachments m) \<inter> set (other_attachments m) = {}"
  by (auto simp: image_attachments_def other_attachments_def)

section \<open>The context meter\<close>

lemma percent_bounds: "percent n t = Some p \<Longrightarrow> 0 \<le> p \<and> p \<le> 100"
proof -
  assume p: "percent n t = Some p"
  have "(0 :: rat) \<le> of_nat n / of_nat t * 100 + 1 / 2" by simp
  then have "0 \<le> \<lfloor>of_nat n / of_nat t * 100 + 1 / (2 :: rat)\<rfloor>" by linarith
  then show ?thesis using p by (auto simp: percent_def split: if_splits)
qed

lemma percent_mono: "0 < t \<Longrightarrow> m \<le> n \<Longrightarrow> percent m t = Some p \<Longrightarrow> percent n t = Some q \<Longrightarrow> p \<le> q"
proof -
  assume t: "0 < t" "m \<le> n" "percent m t = Some p" "percent n t = Some q"
  have "(of_nat m :: rat) / of_nat t \<le> of_nat n / of_nat t" using t(1,2) by (intro divide_right_mono) auto
  then have "\<lfloor>of_nat m / of_nat t * 100 + 1 / (2 :: rat)\<rfloor> \<le> \<lfloor>of_nat n / of_nat t * 100 + 1 / (2 :: rat)\<rfloor>"
    by (intro floor_mono add_right_mono mult_right_mono) auto
  then show ?thesis using t by (auto simp: percent_def)
qed

text \<open>The meter stays in its frame: with a threshold it shows a percentage between 0 and 100 and a bar between 2 and
  100 per cent wide, it never falls when a message is added, and it is red at nine tenths of the threshold.\<close>

theorem context_meter_stays_in_its_frame:
  assumes "0 < threshold"
  shows "\<exists>p w. mt_pct (ContextMeter ms threshold server partial) = Some p \<and> mt_width (ContextMeter ms threshold server partial) = Some w
      \<and> 0 \<le> p \<and> p \<le> 100 \<and> 2 \<le> w \<and> w \<le> 100
      \<and> (9 * threshold \<le> 10 * mt_total (ContextMeter ms threshold server partial) \<longrightarrow>
           mt_color (ContextMeter ms threshold server partial) = ''bg-rose-500'')
      \<and> (\<exists>q. mt_pct (ContextMeter (ms @ [m]) threshold server partial) = Some q \<and> p \<le> q)"
proof -
  let ?m = "ContextMeter ms threshold server partial" and ?n = "ContextMeter (ms @ [m]) threshold server partial"
  have pc: "mt_pct ?m = percent (mt_total ?m) threshold" "mt_pct ?n = percent (mt_total ?n) threshold"
    by (simp_all add: ContextMeter_def Let_def)
  obtain p q where pq: "percent (mt_total ?m) threshold = Some p" "percent (mt_total ?n) threshold = Some q"
    using assms by (auto simp: percent_def)
  have mono: "mt_total ?m \<le> mt_total ?n" by (auto simp: ContextMeter_def Let_def)
  have w: "mt_width ?m = Some (max 2 p)" using pq pc by (auto simp: ContextMeter_def Let_def)
  have red: "mt_color ?m = ''bg-rose-500''" if r: "9 * threshold \<le> 10 * mt_total ?m"
  proof -
    have "of_nat (9 * threshold) \<le> (of_nat (10 * mt_total ?m) :: rat)" using r by (simp only: of_nat_le_iff)
    then have "(90 :: rat) \<le> of_nat (mt_total ?m) / of_nat threshold * 100" using assms by (simp add: field_simps)
    then have "90 \<le> \<lfloor>of_nat (mt_total ?m) / of_nat threshold * 100 + 1 / (2 :: rat)\<rfloor>" by linarith
    then have "90 \<le> p" using pq(1) assms by (auto simp: percent_def)
    moreover have "mt_color ?m = (if 90 \<le> or_else (mt_pct ?m) 0 then ''bg-rose-500'' else if 70 \<le> or_else (mt_pct ?m) 0 then ''bg-amber-400'' else ''bg-emerald-400'')"
      by (simp add: ContextMeter_def Let_def)
    ultimately show ?thesis using pc pq by (simp add: or_else_def)
  qed
  show ?thesis using pc pq w red percent_bounds [OF pq(1)] percent_mono [OF assms mono pq] by auto
qed

lemma context_meter_stays_in_its_frame_witness:
  "\<exists>p. mt_pct (ContextMeter [] 100 (Some 90) False) = Some p \<and> p \<le> 100"
  using context_meter_stays_in_its_frame [of 100 "[]" "Some 90" False "plain_message ''m1'' RoleUser [] 0"] by auto

end
