(* ===== verification/AttachmentTags.thy ===== *)
theory AttachmentTags
  imports ChatText
begin

text \<open>
  The tags a user's message carries for its files: the server writes them behind the text
  (\<open>core/workflows/message/workflow.go\<close>), the bubble reads them back (\<open>components/AttachmentTag.tsx\<close>). How the
  browser reads a date is an argument.
\<close>

section \<open>Entities\<close>

function replace_all :: "string \<Rightarrow> string \<Rightarrow> string \<Rightarrow> string" where
  "replace_all p r s =
     (if p = [] then s
      else if starts_with p s then r @ replace_all p r (drop (length p) s)
      else case s of [] \<Rightarrow> [] | c # t \<Rightarrow> c # replace_all p r t)"
  by pat_completeness auto
termination
proof (relation "measure (\<lambda>(p, r, s). length s)")
  fix p r s :: string assume "p \<noteq> []" "starts_with p s"
  then show "((p, r, drop (length p) s), (p, r, s)) \<in> measure (\<lambda>(p, r, s). length s)"
    by (cases p; cases s) auto
qed auto

declare replace_all.simps [simp del]

definition decodeEntities :: "string \<Rightarrow> string" where
  "decodeEntities value = replace_all ''&amp;'' ''&'' (replace_all ''&gt;'' ''>'' (replace_all ''&lt;'' ''<''
     (replace_all ''&#39;'' [CHR 0x27] (replace_all ''&apos;'' [CHR 0x27] (replace_all ''&quot;'' [CHR 0x22] value)))))"

text \<open>Go's \<open>html.EscapeString\<close>.\<close>

definition escape_char :: "char \<Rightarrow> string" where
  "escape_char c = (if c = CHR ''&'' then ''&amp;'' else if c = CHR 0x27 then ''&#39;'' else if c = CHR ''<'' then ''&lt;''
     else if c = CHR ''>'' then ''&gt;'' else if c = CHR 0x22 then ''&#34;'' else [c])"

definition escape_string :: "string \<Rightarrow> string" where
  "escape_string s = concat (map escape_char s)"

section \<open>Attributes\<close>

definition attr_start :: "char \<Rightarrow> bool" where
  "attr_start c \<longleftrightarrow> is_lower c \<or> is_upper c \<or> c = CHR ''_''"

definition attr_char :: "char \<Rightarrow> bool" where
  "attr_char c \<longleftrightarrow> is_word c \<or> c = CHR ''-''"

text \<open>One match of \<open>ATTR_RE\<close> at the start of a text.\<close>

definition match_attr :: "string \<Rightarrow> (string \<times> string \<times> string) option" where
  "match_attr s = (case s of
      [] \<Rightarrow> None
    | c # t \<Rightarrow> if \<not> attr_start c then None
        else Option.bind (strip_prefix ''='' (dropWhile is_ws (dropWhile attr_char t))) (\<lambda>v.
          Option.bind (strip_prefix [CHR 0x22] (dropWhile is_ws v)) (\<lambda>w.
            map_option (\<lambda>(a, b). (c # takeWhile attr_char t, a, b)) (cut_at [CHR 0x22] w))))"

lemma match_attr_shorter: "match_attr s = Some (k, v, u) \<Longrightarrow> length u < length s"
proof -
  assume m: "match_attr s = Some (k, v, u)"
  then obtain c t where s: "s = c # t" "attr_start c" by (auto simp: match_attr_def split: list.splits if_splits)
  then obtain x w a where x: "strip_prefix ''='' (dropWhile is_ws (dropWhile attr_char t)) = Some x"
      "strip_prefix [CHR 0x22] (dropWhile is_ws x) = Some w" "cut_at [CHR 0x22] w = Some (a, u)"
    using m by (auto simp: match_attr_def split: Option.bind_splits)
  have "length u \<le> length w" using cut_at_length [OF x(3)] .
  also have "\<dots> \<le> length (dropWhile is_ws x)" using strip_prefix_length [OF x(2)] .
  also have "\<dots> \<le> length x" by (rule length_dropWhile_le)
  also have "\<dots> \<le> length (dropWhile is_ws (dropWhile attr_char t))" using strip_prefix_length [OF x(1)] .
  also have "\<dots> \<le> length (dropWhile attr_char t)" by (rule length_dropWhile_le)
  also have "\<dots> \<le> length t" by (rule length_dropWhile_le)
  finally show ?thesis using s by simp
qed

function parseAttrs :: "string \<Rightarrow> (string \<times> string) list" where
  "parseAttrs s =
     (case match_attr s of
        Some (k, v, u) \<Rightarrow> (k, decodeEntities v) # parseAttrs u
      | None \<Rightarrow> (case s of [] \<Rightarrow> [] | c # t \<Rightarrow> parseAttrs t))"
  by pat_completeness auto
termination
  by (relation "measure length") (auto intro: match_attr_shorter)

declare parseAttrs.simps [simp del]

text \<open>The last one with a name counts.\<close>

definition attr_value :: "string \<Rightarrow> (string \<times> string) list \<Rightarrow> string option" where
  "attr_value k attrs = map_of (rev attrs) k"

section \<open>Tags\<close>

definition attachment_start :: string where "attachment_start = ''<attachment''"

text \<open>One match of \<open>ATTACHMENT_TAG_RE\<close>: its attributes and the rest.\<close>

definition match_attachment :: "string \<Rightarrow> (string \<times> string) option" where
  "match_attachment s = Option.bind (strip_prefix attachment_start s) (\<lambda>r.
     (let w = dropWhile is_ws r; body = takeWhile (\<lambda>c. c \<noteq> CHR ''>'') w; rest = dropWhile (\<lambda>c. c \<noteq> CHR ''>'') w in
      if r = w \<or> body = [] \<or> last body \<noteq> CHR ''/'' \<or> rest = [] then None
      else Some (butlast body, tl rest)))"

lemma match_attachment_shorter: "match_attachment s = Some (a, u) \<Longrightarrow> length u < length s"
proof -
  assume m: "match_attachment s = Some (a, u)"
  then obtain r where r: "strip_prefix attachment_start s = Some r"
    by (auto simp: match_attachment_def split: Option.bind_splits)
  have "u = tl (dropWhile (\<lambda>c. c \<noteq> CHR ''>'') (dropWhile is_ws r))" "dropWhile (\<lambda>c. c \<noteq> CHR ''>'') (dropWhile is_ws r) \<noteq> []"
    using m r by (auto simp: match_attachment_def Let_def split: if_splits)
  then have "length u < length (dropWhile (\<lambda>c. c \<noteq> CHR ''>'') (dropWhile is_ws r))" by (cases "dropWhile (\<lambda>c. c \<noteq> CHR ''>'') (dropWhile is_ws r)") auto
  also have "\<dots> \<le> length (dropWhile is_ws r)" by (rule length_dropWhile_le)
  also have "\<dots> \<le> length r" by (rule length_dropWhile_le)
  also have "\<dots> \<le> length s" using strip_prefix_length [OF r] .
  finally show ?thesis .
qed

record parsed_attachment =
  pa_id :: string
  pa_name :: string
  pa_mime :: string
  pa_size :: js_number
  pa_created :: "int option"
  pa_expires :: "int option"

datatype content_part = TextChunk string | AttachmentChunk parsed_attachment

definition parseDate :: "(string \<Rightarrow> int option) \<Rightarrow> string option \<Rightarrow> int option" where
  "parseDate date_of v = (case v of None \<Rightarrow> None | Some d \<Rightarrow> if d = [] then None else date_of d)"

text \<open>\<open>Number(undefined)\<close> is \<open>NaN\<close>.\<close>

definition attachment_of :: "(string \<Rightarrow> int option) \<Rightarrow> (string \<times> string) list \<Rightarrow> parsed_attachment" where
  "attachment_of date_of attrs =
     \<lparr>pa_id = or_else (attr_value ''id'' attrs) [], pa_name = str_or (or_else (attr_value ''name'' attrs) []) ''attachment'',
      pa_mime = or_else (attr_value ''mime'' attrs) [],
      pa_size = number_or_zero (case attr_value ''size'' attrs of None \<Rightarrow> NotANumber | Some n \<Rightarrow> js_Number n),
      pa_created = parseDate date_of (attr_value ''created'' attrs), pa_expires = parseDate date_of (attr_value ''expires'' attrs)\<rparr>"

text \<open>The loop over the matches; \<open>acc\<close> is the text since the last one.\<close>

function content_parts :: "(string \<Rightarrow> int option) \<Rightarrow> string \<Rightarrow> string \<Rightarrow> content_part list" where
  "content_parts date_of acc s =
     (case match_attachment s of
        Some (attrs, u) \<Rightarrow> (if acc = [] then [] else [TextChunk acc])
            @ AttachmentChunk (attachment_of date_of (parseAttrs attrs)) # content_parts date_of [] u
      | None \<Rightarrow> (case s of [] \<Rightarrow> if acc = [] then [] else [TextChunk acc] | c # t \<Rightarrow> content_parts date_of (acc @ [c]) t))"
  by pat_completeness auto
termination
  by (relation "measure (\<lambda>(d, a, s). length s)") (auto intro: match_attachment_shorter)

declare content_parts.simps [simp del]

section \<open>Blocks\<close>

datatype content_block = TextBlock string | AttachmentsBlock "parsed_attachment list"

definition is_blank :: "char \<Rightarrow> bool" where
  "is_blank c \<longleftrightarrow> c = CHR '' '' \<or> c = CHR 0x09"

text \<open>\<open>replace(/^[ \t]*\n+|\n+[ \t]*$/g, '')\<close>\<close>

definition strip_lead :: "string \<Rightarrow> string" where
  "strip_lead s = (let r = dropWhile is_blank s in if starts_with [CHR 0x0A] r then dropWhile (\<lambda>c. c = CHR 0x0A) r else s)"

definition trim_lines :: "string \<Rightarrow> string" where
  "trim_lines s = rev (strip_lead (rev (strip_lead s)))"

definition flush_text :: "string \<Rightarrow> content_block list" where
  "flush_text buffer = (if trim_lines buffer = [] then [] else [TextBlock (trim_lines buffer)])"

definition flush_attachments :: "parsed_attachment list \<Rightarrow> content_block list" where
  "flush_attachments items = (if items = [] then [] else [AttachmentsBlock items])"

fun group_parts :: "string \<Rightarrow> parsed_attachment list \<Rightarrow> content_part list \<Rightarrow> content_block list" where
  "group_parts buffer items [] = flush_text buffer @ flush_attachments items"
| "group_parts buffer items (TextChunk t # ps) = flush_attachments items @ group_parts (buffer @ t) [] ps"
| "group_parts buffer items (AttachmentChunk a # ps) = flush_text buffer @ group_parts [] (items @ [a]) ps"

definition parseAttachmentBlocks :: "(string \<Rightarrow> int option) \<Rightarrow> string \<Rightarrow> content_block list" where
  "parseAttachmentBlocks date_of content = (if content = [] then [] else group_parts [] [] (content_parts date_of [] content))"

function hasAttachmentTags :: "string \<Rightarrow> bool" where
  "hasAttachmentTags s = (match_attachment s \<noteq> None \<or> (case s of [] \<Rightarrow> False | c # t \<Rightarrow> hasAttachmentTags t))"
  by pat_completeness auto
termination
  by (relation "measure length") auto

declare hasAttachmentTags.simps [simp del]

section \<open>The badge\<close>

definition isImageAttachment :: "parsed_attachment \<Rightarrow> bool" where
  "isImageAttachment a \<longleftrightarrow> starts_with ''image/'' (pa_mime a) \<or> image_name (pa_name a) \<or> ends_with ''.avif'' (map to_lower (pa_name a))"

text \<open>The nearest whole number, halves upwards.\<close>

definition round_half :: "int \<Rightarrow> int \<Rightarrow> int" where
  "round_half n d = (2 * n + d) div (2 * d)"

definition formatRelative :: "int \<Rightarrow> int \<Rightarrow> string" where
  "formatRelative target now =
     (let diffSec = round_half (target - now) 1000; past = (diffSec < 0); a = abs diffSec;
          m = round_half a 60; h = round_half m 60; d = round_half h 24;
          say = (\<lambda>n u. if past then int_str n @ '' '' @ u @ '' ago'' else ''in '' @ int_str n @ '' '' @ u) in
      if a < 45 then (if past then ''just now'' else ''in <1 min'')
      else if m < 60 then say m ''min'' else if h < 24 then say h ''h'' else say d ''d'')"

definition buildTitle :: "int \<Rightarrow> parsed_attachment \<Rightarrow> bool \<Rightarrow> string" where
  "buildTitle now a expired =
     join ('' '' @ [middle_dot] @ '' '') (pa_name a #
       (if expired \<and> pa_expires a \<noteq> None then [''expired '' @ formatRelative (or_else (pa_expires a) 0) now]
        else (case pa_created a of None \<Rightarrow> [] | Some t \<Rightarrow> [''uploaded '' @ formatRelative t now])
          @ (case pa_expires a of None \<Rightarrow> [] | Some t \<Rightarrow> [''expires '' @ formatRelative t now])))"

definition attachment_expired :: "int \<Rightarrow> parsed_attachment \<Rightarrow> bool" where
  "attachment_expired now a = (case pa_expires a of None \<Rightarrow> False | Some t \<Rightarrow> t \<le> now)"

definition attachment_href :: "int \<Rightarrow> string \<Rightarrow> parsed_attachment \<Rightarrow> string option" where
  "attachment_href now s a = (if \<not> attachment_expired now a \<and> pa_id a \<noteq> [] then Some (artifact_path s (pa_id a)) else None)"

section \<open>The server's tags\<close>

record upload =
  up_id :: string
  up_name :: string
  up_mime :: string
  up_size :: nat
  up_created :: string
  up_expires :: string

definition attachment_tag :: "upload \<Rightarrow> string" where
  "attachment_tag u = ''<attachment id=\"'' @ escape_string (up_id u) @ ''\" name=\"'' @ escape_string (up_name u)
     @ ''\" mime=\"'' @ escape_string (up_mime u) @ ''\" size=\"'' @ nat_str (up_size u) @ ''\" created=\"'' @ up_created u
     @ (if up_expires u = [] then [] else ''\" expires=\"'' @ up_expires u) @ ''\" />''"

definition trim_newlines_end :: "string \<Rightarrow> string" where
  "trim_newlines_end s = rev (dropWhile (\<lambda>c. c = CHR 0x0A) (rev s))"

definition content_with_uploads :: "string \<Rightarrow> upload list \<Rightarrow> string" where
  "content_with_uploads content us =
     (if us = [] then content
      else (let t = trim_newlines_end content in (if t = [] then [] else t @ [CHR 0x0A, CHR 0x0A])
        @ join [CHR 0x0A] (map attachment_tag us)))"

section \<open>Lemmas on entities\<close>

lemma replace_here: "p \<noteq> [] \<Longrightarrow> replace_all p r (p @ t) = r @ replace_all p r t"
  by (subst replace_all.simps) simp

lemma replace_skip: "p = h # q \<Longrightarrow> c \<noteq> h \<Longrightarrow> replace_all p r (c # t) = c # replace_all p r t"
  by (subst replace_all.simps) simp

lemma replace_skips: "p = h # q \<Longrightarrow> h \<notin> set b \<Longrightarrow> replace_all p r (b @ t) = b @ replace_all p r t"
  by (induction b) (auto simp: replace_skip)

lemma replace_nil: "p \<noteq> [] \<Longrightarrow> replace_all p r [] = []"
  by (subst replace_all.simps) (cases p; simp)

text \<open>A text made of blocks: those equal to the pattern are replaced, the others stay.\<close>

lemma replace_blocks:
  assumes "p = CHR ''&'' # q"
    and "\<And>c. c \<in> set s \<Longrightarrow> e c \<noteq> p \<Longrightarrow> e c \<noteq> [] \<and> CHR ''&'' \<notin> set (tl (e c)) \<and> (\<forall>t. \<not> starts_with p (e c @ t))"
  shows "replace_all p r (concat (map e s)) = concat (map (\<lambda>c. if e c = p then r else e c) s)"
  using assms(2)
proof (induction s)
  case Nil
  then show ?case using assms(1) by (simp add: replace_nil)
next
  case (Cons c s)
  let ?t = "concat (map e s)"
  have IH: "replace_all p r ?t = concat (map (\<lambda>c. if e c = p then r else e c) s)" using Cons by simp
  show ?case
  proof (cases "e c = p")
    case True
    then show ?thesis using IH assms(1) replace_here [of p r ?t] by simp
  next
    case False
    have b: "e c \<noteq> []" "CHR ''&'' \<notin> set (tl (e c))" "\<not> starts_with p (e c @ ?t)" using Cons.prems [of c] False by auto
    then obtain x y where xy: "e c = x # y" by (cases "e c") auto
    have "\<not> starts_with p (x # y @ ?t)" "p \<noteq> []" using b(3) xy assms(1) by auto
    then have "replace_all p r (x # y @ ?t) = x # replace_all p r (y @ ?t)"
      by (subst replace_all.simps) simp
    moreover have "replace_all p r (y @ ?t) = y @ replace_all p r ?t" using replace_skips [OF assms(1)] b(2) xy by simp
    ultimately show ?thesis using IH xy False by simp
  qed
qed

text \<open>A text with the characters of \<open>D\<close> escaped.\<close>

definition escaped :: "char set \<Rightarrow> string \<Rightarrow> string" where
  "escaped D s = concat (map (\<lambda>c. if c \<in> D then escape_char c else [c]) s)"

lemma escape_shape: "c \<in> {CHR 0x22, CHR ''&'', CHR 0x27, CHR ''<'', CHR ''>''} \<Longrightarrow> escape_char c \<noteq> [] \<and> CHR ''&'' \<notin> set (tl (escape_char c))"
  by (auto simp: escape_char_def)

lemma decode_one:
  assumes "d \<in> {CHR 0x22, CHR ''&'', CHR 0x27, CHR ''<'', CHR ''>''}" "D \<subseteq> {CHR 0x22, CHR ''&'', CHR 0x27, CHR ''<'', CHR ''>''}" "d \<notin> D" "CHR ''&'' \<in> insert d D"
  shows "replace_all (escape_char d) [d] (escaped (insert d D) s) = escaped D s"
proof -
  let ?e = "\<lambda>c. if c \<in> insert d D then escape_char c else [c]"
  have q: "escape_char d = CHR ''&'' # tl (escape_char d)" using assms(1) by (auto simp: escape_char_def)
  have inj: "c \<in> {CHR 0x22, CHR ''&'', CHR 0x27, CHR ''<'', CHR ''>''} \<Longrightarrow> escape_char c = escape_char d \<Longrightarrow> c = d" for c
    using assms(1) by (auto simp: escape_char_def)
  have same: "?e c = escape_char d \<longleftrightarrow> c = d" for c
  proof (cases "c \<in> insert d D")
    case True
    then have "c \<in> {CHR 0x22, CHR ''&'', CHR 0x27, CHR ''<'', CHR ''>''}" using assms(1,2) by blast
    then show ?thesis using True inj by auto
  next
    case False
    then have "c \<noteq> CHR ''&''" using assms(4) by auto
    then have "[c] \<noteq> escape_char d" by (subst q) simp
    then show ?thesis using False by auto
  qed
  have "?e c \<noteq> [] \<and> CHR ''&'' \<notin> set (tl (?e c)) \<and> (\<forall>t. \<not> starts_with (escape_char d) (?e c @ t))" if "?e c \<noteq> escape_char d" for c
  proof (cases "c \<in> insert d D")
    case True
    then have c: "c \<in> {CHR 0x22, CHR ''&'', CHR 0x27, CHR ''<'', CHR ''>''}" "c \<noteq> d" using assms(1,2) that by auto
    have "\<not> starts_with (escape_char d) (escape_char c @ t)" for t using assms(1) c by (auto simp: escape_char_def)
    then show ?thesis using True escape_shape [OF c(1)] by simp
  next
    case False
    then have "c \<noteq> CHR ''&''" using assms(4) by auto
    then have "\<not> starts_with (escape_char d) ([c] @ t)" for t by (subst q) simp
    then show ?thesis using False by simp
  qed
  then have "replace_all (escape_char d) [d] (concat (map ?e s)) = concat (map (\<lambda>c. if ?e c = escape_char d then [d] else ?e c) s)"
    by (intro replace_blocks [OF q]) blast
  also have "(\<lambda>c. if ?e c = escape_char d then [d] else ?e c) = (\<lambda>c. if c \<in> D then escape_char c else [c])"
    unfolding same using assms(3) by (intro ext) simp
  finally show ?thesis by (simp add: escaped_def)
qed

lemma decode_other:
  assumes "p = CHR ''&'' # q" "D \<subseteq> {CHR 0x22, CHR ''&'', CHR 0x27, CHR ''<'', CHR ''>''}" "CHR ''&'' \<in> D"
    and "\<And>c t. c \<in> D \<Longrightarrow> \<not> starts_with p (escape_char c @ t)"
  shows "replace_all p r (escaped D s) = escaped D s"
proof -
  let ?e = "\<lambda>c. if c \<in> D then escape_char c else [c]"
  have ne: "?e c \<noteq> p" for c
    using assms(4) [of c "[]"] assms(1,3) by (cases "c \<in> D") (auto simp: starts_with_def)
  have b: "?e c \<noteq> [] \<and> CHR ''&'' \<notin> set (tl (?e c)) \<and> (\<forall>t. \<not> starts_with p (?e c @ t))" for c
  proof (cases "c \<in> D")
    case True
    then have "escape_char c \<noteq> [] \<and> CHR ''&'' \<notin> set (tl (escape_char c))" using assms(2) by (intro escape_shape) auto
    then show ?thesis using True assms(4) by simp
  next
    case False
    then show ?thesis using assms(1,3) by auto
  qed
  have "replace_all p r (concat (map ?e s)) = concat (map (\<lambda>c. if ?e c = p then r else ?e c) s)"
    by (rule replace_blocks [OF assms(1)]) (use b in blast)
  then show ?thesis using ne by (simp add: escaped_def)
qed

lemma decode_escape_any: "decodeEntities (escape_string s) = concat (map (\<lambda>c. if c = CHR 0x22 then ''&#34;'' else [c]) s)"
proof -
  let ?S = "CHR 0x22 :: char" and ?A = "CHR ''&''" and ?Q = "CHR 0x27 :: char" and ?L = "CHR ''<''" and ?G = "CHR ''>''"
  have "escape_string s = escaped {?Q, ?L, ?G, ?A, ?S} s"
    unfolding escape_string_def escaped_def by (intro arg_cong [of _ _ concat] map_cong) (auto simp: escape_char_def)
  moreover have "replace_all ''&quot;'' [CHR 0x22] (escaped {?Q, ?L, ?G, ?A, ?S} s) = escaped {?Q, ?L, ?G, ?A, ?S} s"
    by (rule decode_other) (auto simp: escape_char_def)
  moreover have "replace_all ''&apos;'' [?Q] (escaped {?Q, ?L, ?G, ?A, ?S} s) = escaped {?Q, ?L, ?G, ?A, ?S} s"
    by (rule decode_other) (auto simp: escape_char_def)
  moreover have "replace_all ''&#39;'' [?Q] (escaped {?Q, ?L, ?G, ?A, ?S} s) = escaped {?L, ?G, ?A, ?S} s"
    using decode_one [of ?Q "{?L, ?G, ?A, ?S}" s] by (simp add: escape_char_def)
  moreover have "replace_all ''&lt;'' [?L] (escaped {?L, ?G, ?A, ?S} s) = escaped {?G, ?A, ?S} s"
    using decode_one [of ?L "{?G, ?A, ?S}" s] by (simp add: escape_char_def)
  moreover have "replace_all ''&gt;'' [?G] (escaped {?G, ?A, ?S} s) = escaped {?A, ?S} s"
    using decode_one [of ?G "{?A, ?S}" s] by (simp add: escape_char_def)
  moreover have "replace_all ''&amp;'' [?A] (escaped {?A, ?S} s) = escaped {?S} s"
    using decode_one [of ?A "{?S}" s] by (simp add: escape_char_def)
  moreover have "escaped {?S} s = concat (map (\<lambda>c. if c = CHR 0x22 then ''&#34;'' else [c]) s)"
    unfolding escaped_def by (intro arg_cong [of _ _ concat] map_cong) (auto simp: escape_char_def)
  ultimately show ?thesis unfolding decodeEntities_def by simp
qed

lemma decode_escape: "CHR 0x22 \<notin> set s \<Longrightarrow> decodeEntities (escape_string s) = s"
  unfolding decode_escape_any by (induction s) auto

lemma escape_plain: "CHR 0x22 \<notin> set (escape_string s)" "CHR ''>'' \<notin> set (escape_string s)" "CHR ''<'' \<notin> set (escape_string s)"
  by (auto simp: escape_string_def escape_char_def split: if_splits)

section \<open>Lemmas on tags\<close>

lemma js_Number_nat_str: "js_Number (nat_str n) = Finite (of_nat n)"
proof -
  let ?s = "nat_str n"
  have d: "list_all is_digit ?s" "?s \<noteq> []" by (rule nat_str_digits)+
  have "list_all (\<lambda>c. \<not> is_ws c) ''0123456789''" by code_simp
  then have ws: "\<forall>c \<in> set ?s. \<not> is_ws c" using d(1) unfolding list_all_iff is_digit_def by blast
  have t: "trim ?s = ?s" using ws d(2) by (intro trim_id) (simp add: trimmed_def)
  have "list_all (\<lambda>c. to_lower c = c) ''0123456789''" by code_simp
  then have low: "\<forall>c \<in> set ?s. to_lower c = c" using d(1) unfolding list_all_iff is_digit_def by blast
  then have m: "map to_lower (take 2 ?s) = take 2 ?s" by (intro map_idI) (auto dest: in_set_takeD)
  have nx: "take 2 ?s \<noteq> [CHR ''0'', x]" if "\<not> is_digit x" for x
  proof
    assume "take 2 ?s = [CHR ''0'', x]"
    then have "x \<in> set (take 2 ?s)" by simp
    then show False using that d(1) by (auto simp: list_all_iff dest: in_set_takeD)
  qed
  have r: "take 2 ?s \<noteq> ''0x''" "take 2 ?s \<noteq> ''0o''" "take 2 ?s \<noteq> ''0b''" by (rule nx; simp add: is_digit_def)+
  have "is_digit (hd ?s)" using d by (cases ?s) auto
  moreover have "\<not> is_digit CHR ''-''" "\<not> is_digit CHR ''+''" "\<not> is_digit CHR ''I''" by code_simp+
  ultimately have h: "hd ?s \<noteq> CHR ''-''" "hd ?s \<noteq> CHR ''+''" "?s \<noteq> ''Infinity''" by (metis, metis, metis list.sel(1))
  have tw: "takeWhile is_digit ?s = ?s" "dropWhile is_digit ?s = []" using d(1) by (auto simp: list_all_iff)
  have "decimal_val ?s = Some (of_nat n)"
    unfolding decimal_val_def Let_def tw using d(2) by (simp add: exponent_val_def pow10_def digits_val_nat_str)
  then have u: "unsigned_val False ?s = Finite (of_nat n)" using h(3) by (simp add: unsigned_val_def)
  show ?thesis unfolding js_Number_def t Let_def m using d(2) r h(1,2) u by simp
qed

lemma match_attr_pair:
  assumes "attr_start c" "list_all attr_char t" "CHR 0x22 \<notin> set v"
  shows "match_attr ((c # t) @ ''=\"'' @ v @ [CHR 0x22] @ u) = Some (c # t, v, u)"
proof -
  have eq: "\<not> attr_char CHR ''=''" by (auto simp: attr_char_def is_word_def is_digit_def is_lower_def is_upper_def)
  have tw: "takeWhile attr_char (t @ CHR ''='' # w) = t" "dropWhile attr_char (t @ CHR ''='' # w) = CHR ''='' # w" for w
    using assms(2) eq by (auto simp: list_all_iff takeWhile_append dropWhile_append takeWhile_eq_all_conv)
  have ws: "\<not> is_ws CHR ''=''" "\<not> is_ws CHR 0x22" by (simp_all add: is_ws_def)
  have "cut_at [CHR 0x22] (v @ [CHR 0x22] @ u) = Some (v, u)" by (rule cut_at_hd [OF refl assms(3)])
  then show ?thesis using assms(1) tw ws by (simp add: match_attr_def strip_prefix_Cons)
qed

definition attrs_text :: "(string \<times> string) list \<Rightarrow> string" where
  "attrs_text kvs = concat (map (\<lambda>(k, v). k @ ''=\"'' @ v @ ''\" '') kvs)"

definition attr_name :: "string \<Rightarrow> bool" where
  "attr_name k \<longleftrightarrow> k \<noteq> [] \<and> attr_start (hd k) \<and> list_all attr_char (tl k)"

lemma parse_attrs_text: "\<forall>(k, v) \<in> set kvs. attr_name k \<and> CHR 0x22 \<notin> set v \<Longrightarrow>
    parseAttrs (attrs_text kvs) = map (\<lambda>(k, v). (k, decodeEntities v)) kvs"
proof (induction kvs)
  case Nil
  then show ?case by (subst parseAttrs.simps) (simp add: attrs_text_def match_attr_def)
next
  case (Cons kv kvs)
  obtain k v where kv: "kv = (k, v)" by (cases kv) auto
  obtain c t where k: "k = c # t" "attr_start c" "list_all attr_char t" using Cons.prems kv by (cases k) (auto simp: attr_name_def)
  have "match_attr (attrs_text (kv # kvs)) = Some (k, v, CHR '' '' # attrs_text kvs)"
    using match_attr_pair [OF k(2,3), of v "CHR '' '' # attrs_text kvs"] Cons.prems kv k(1) by (simp add: attrs_text_def)
  then have "parseAttrs (attrs_text (kv # kvs)) = (k, decodeEntities v) # parseAttrs (CHR '' '' # attrs_text kvs)"
    by (subst parseAttrs.simps) simp
  also have "parseAttrs (CHR '' '' # attrs_text kvs) = parseAttrs (attrs_text kvs)"
    by (subst parseAttrs.simps) (simp add: match_attr_def attr_start_def is_lower_def is_upper_def)
  finally show ?case using Cons kv by simp
qed

definition upload_attrs :: "upload \<Rightarrow> (string \<times> string) list" where
  "upload_attrs u = [(''id'', escape_string (up_id u)), (''name'', escape_string (up_name u)), (''mime'', escape_string (up_mime u)),
     (''size'', nat_str (up_size u)), (''created'', up_created u)] @ (if up_expires u = [] then [] else [(''expires'', up_expires u)])"

lemma attachment_tag_attrs: "attachment_tag u = attachment_start @ '' '' @ attrs_text (upload_attrs u) @ ''/>''"
  by (simp add: attachment_tag_def attachment_start_def attrs_text_def upload_attrs_def)

text \<open>Uploads as the server has them: a name, no quotation marks, dates without markup.\<close>

definition plain_upload :: "upload \<Rightarrow> bool" where
  "plain_upload u \<longleftrightarrow> up_name u \<noteq> [] \<and> CHR 0x22 \<notin> set (up_id u @ up_name u @ up_mime u @ up_created u @ up_expires u)
     \<and> CHR ''>'' \<notin> set (up_created u @ up_expires u) \<and> CHR ''&'' \<notin> set (up_created u @ up_expires u)"

definition shown_upload :: "(string \<Rightarrow> int option) \<Rightarrow> upload \<Rightarrow> parsed_attachment" where
  "shown_upload date_of u = \<lparr>pa_id = up_id u, pa_name = up_name u, pa_mime = up_mime u, pa_size = Finite (of_nat (up_size u)),
     pa_created = (if up_created u = [] then None else date_of (up_created u)),
     pa_expires = (if up_expires u = [] then None else date_of (up_expires u))\<rparr>"

lemma decode_plain: "CHR ''&'' \<notin> set s \<Longrightarrow> decodeEntities s = s"
proof -
  assume s: "CHR ''&'' \<notin> set s"
  have "replace_all (CHR ''&'' # q) r s = s" for q r
    using replace_skips [OF refl s, of q r "[]"] by (simp add: replace_nil)
  then show ?thesis by (simp add: decodeEntities_def)
qed

lemma nat_str_plain: "CHR ''&'' \<notin> set (nat_str n)" "CHR 0x22 \<notin> set (nat_str n)" "CHR ''>'' \<notin> set (nat_str n)"
proof -
  have "\<not> is_digit CHR ''&''" "\<not> is_digit CHR 0x22" "\<not> is_digit CHR ''>''" by code_simp+
  then show "CHR ''&'' \<notin> set (nat_str n)" "CHR 0x22 \<notin> set (nat_str n)" "CHR ''>'' \<notin> set (nat_str n)"
    using nat_str_digits(1) [of n] unfolding list_all_iff by metis+
qed

lemma names_ok: "attr_name ''id''" "attr_name ''name''" "attr_name ''mime''" "attr_name ''size''" "attr_name ''created''" "attr_name ''expires''"
  by code_simp+

lemma read_upload: "plain_upload u \<Longrightarrow> attachment_of date_of (parseAttrs (attrs_text (upload_attrs u))) = shown_upload date_of u"
proof -
  assume p: "plain_upload u"
  have q: "\<forall>(k, v) \<in> set (upload_attrs u). attr_name k \<and> CHR 0x22 \<notin> set v"
    using p names_ok escape_plain(1) nat_str_plain(2) by (auto simp: upload_attrs_def plain_upload_def)
  have d: "decodeEntities (escape_string (up_id u)) = up_id u" "decodeEntities (escape_string (up_name u)) = up_name u"
    "decodeEntities (escape_string (up_mime u)) = up_mime u" "decodeEntities (nat_str (up_size u)) = nat_str (up_size u)"
    "decodeEntities (up_created u) = up_created u" "decodeEntities (up_expires u) = up_expires u"
    using p by (auto simp: plain_upload_def intro!: decode_escape decode_plain nat_str_plain(1))
  have a: "parseAttrs (attrs_text (upload_attrs u)) = [(''id'', up_id u), (''name'', up_name u), (''mime'', up_mime u),
      (''size'', nat_str (up_size u)), (''created'', up_created u)] @ (if up_expires u = [] then [] else [(''expires'', up_expires u)])"
    unfolding parse_attrs_text [OF q] by (simp add: upload_attrs_def d)
  show ?thesis unfolding a using p
    by (simp add: attachment_of_def shown_upload_def attr_value_def or_else_def str_or_def js_Number_nat_str number_or_zero_def parseDate_def plain_upload_def)
qed

lemma match_upload: "plain_upload u \<Longrightarrow> match_attachment (attachment_tag u @ s) = Some (attrs_text (upload_attrs u), s)"
proof -
  assume p: "plain_upload u"
  let ?a = "attrs_text (upload_attrs u)"
  have gt: "CHR ''>'' \<notin> set (?a @ ''/'')"
    using p escape_plain(2) nat_str_plain(3) by (auto simp: attrs_text_def upload_attrs_def plain_upload_def)
  have hd: "dropWhile is_ws (CHR '' '' # ?a @ w) = ?a @ w" for w
    by (simp add: attrs_text_def upload_attrs_def is_ws_def)
  have tw: "takeWhile (\<lambda>c. c \<noteq> CHR ''>'') ((?a @ ''/'') @ CHR ''>'' # s) = ?a @ ''/''"
    "dropWhile (\<lambda>c. c \<noteq> CHR ''>'') ((?a @ ''/'') @ CHR ''>'' # s) = CHR ''>'' # s"
    using takeWhile_upto [OF gt] by auto
  have "strip_prefix attachment_start (attachment_tag u @ s) = Some (CHR '' '' # ?a @ ''/'' @ CHR ''>'' # s)"
    unfolding attachment_tag_attrs by simp
  then show ?thesis using hd [of "''/'' @ CHR ''>'' # s"] tw by (simp add: match_attachment_def Let_def butlast_append)
qed

section \<open>What the bubble reads\<close>

lemma no_match_start: "\<not> starts_with attachment_start s \<Longrightarrow> match_attachment s = None"
  by (auto simp: match_attachment_def strip_prefix_def)

lemma parts_over_text: "\<not> contains attachment_start s \<Longrightarrow>
    content_parts date_of acc (s @ CHR 0x0A # t) = content_parts date_of (acc @ s @ [CHR 0x0A]) t"
proof (induction s arbitrary: acc)
  case Nil
  then show ?case by (subst content_parts.simps) (simp add: no_match_start attachment_start_def)
next
  case (Cons c s)
  have "\<not> starts_with attachment_start ((c # s) @ CHR 0x0A # t)"
    by (rule starts_with_over) (use Cons.prems in \<open>auto simp: attachment_start_def contains_Cons\<close>)
  then have "match_attachment (c # s @ CHR 0x0A # t) = None" using no_match_start by simp
  then show ?case using Cons by (subst content_parts.simps) (simp add: contains_Cons)
qed

definition chunk :: "string \<Rightarrow> content_part list" where
  "chunk acc = (if acc = [] then [] else [TextChunk acc])"

fun upload_parts :: "(string \<Rightarrow> int option) \<Rightarrow> upload list \<Rightarrow> content_part list" where
  "upload_parts date_of [] = []"
| "upload_parts date_of [u] = [AttachmentChunk (shown_upload date_of u)]"
| "upload_parts date_of (u # v # us) = AttachmentChunk (shown_upload date_of u) # TextChunk [CHR 0x0A] # upload_parts date_of (v # us)"

lemma parts_of_upload: "plain_upload u \<Longrightarrow> content_parts date_of acc (attachment_tag u @ s)
    = chunk acc @ AttachmentChunk (shown_upload date_of u) # content_parts date_of [] s"
  using match_upload [of u s] read_upload [of u date_of] by (subst content_parts.simps) (simp add: chunk_def)

lemma content_parts_nil: "content_parts date_of [] [] = []"
  by (subst content_parts.simps) (simp add: match_attachment_def attachment_start_def)

lemma parts_of_uploads: "us \<noteq> [] \<Longrightarrow> list_all plain_upload us \<Longrightarrow>
    content_parts date_of acc (join [CHR 0x0A] (map attachment_tag us)) = chunk acc @ upload_parts date_of us"
proof (induction date_of us arbitrary: acc rule: upload_parts.induct)
  case (2 date_of u)
  then show ?case using parts_of_upload [of u date_of acc "[]"] by (simp add: content_parts_nil)
next
  case (3 date_of u v us)
  have "content_parts date_of [] ([CHR 0x0A] @ w) = content_parts date_of [CHR 0x0A] w" for w
    using parts_over_text [of "[]" date_of "[]" w] by (simp add: contains_nil attachment_start_def)
  then show ?case using 3 parts_of_upload [of u date_of acc "[CHR 0x0A] @ join [CHR 0x0A] (map attachment_tag (v # us))"]
    by (simp add: chunk_def)
qed simp

lemma flush_newline: "flush_text [CHR 0x0A] = []"
  by code_simp

lemma group_uploads: "us \<noteq> [] \<Longrightarrow> group_parts buffer [] (upload_parts date_of us)
    = flush_text buffer @ map (\<lambda>u. AttachmentsBlock [shown_upload date_of u]) us"
proof (induction date_of us arbitrary: buffer rule: upload_parts.induct)
  case (3 date_of u v us)
  then show ?case using 3(1) [of "[CHR 0x0A]"] by (simp add: flush_attachments_def flush_newline)
qed (simp_all add: flush_attachments_def flush_text_def trim_lines_def strip_lead_def)

lemma flush_trimmed: "trimmed t \<Longrightarrow> t \<noteq> [] \<Longrightarrow> flush_text (t @ [CHR 0x0A, CHR 0x0A]) = [TextBlock t]"
proof -
  assume t: "trimmed t" "t \<noteq> []"
  then obtain c u where c: "t = c # u" "\<not> is_ws c" by (cases t) (auto simp: trimmed_def)
  obtain v d where d: "t = v @ [d]" "\<not> is_ws d" using t by (cases t rule: rev_cases) (auto simp: trimmed_def)
  have nb: "\<not> is_blank c" "c \<noteq> CHR 0x0A" "d \<noteq> CHR 0x0A" using c(2) d(2) by (auto simp: is_blank_def is_ws_def)
  have "strip_lead (t @ w) = t @ w" for w using c nb by (simp add: strip_lead_def)
  moreover have "strip_lead (rev (t @ [CHR 0x0A, CHR 0x0A])) = rev t"
    using d nb by (simp add: strip_lead_def is_blank_def)
  ultimately show ?thesis using t by (simp add: flush_text_def trim_lines_def)
qed

text \<open>C7: A message with files is shown as it was sent: the text, and behind it every file with its identifier, name, type,
  size and dates, in order; for a trimmed text without an attachment tag of its own and files that have a name and no
  quotation mark in any attribute. What becomes of quotation marks is in \<open>file_names_are_read_back_but_quotes\<close>.\<close>

theorem attachments_roundtrip:
  assumes "trimmed content" "\<not> contains attachment_start content" "us \<noteq> []" "list_all plain_upload us"
  shows "parseAttachmentBlocks date_of (content_with_uploads content us)
     = (if content = [] then [] else [TextBlock content]) @ map (\<lambda>u. AttachmentsBlock [shown_upload date_of u]) us"
proof -
  let ?tags = "join [CHR 0x0A] (map attachment_tag us)"
  have ne: "content_with_uploads content us \<noteq> []"
    using assms(3) by (cases us; cases "tl us") (auto simp: content_with_uploads_def attachment_tag_def Let_def neq_Nil_conv)
  show ?thesis
  proof (cases "content = []")
    case True
    then have "content_with_uploads content us = ?tags" using assms(3) by (simp add: content_with_uploads_def trim_newlines_end_def)
    then show ?thesis using True ne parts_of_uploads [OF assms(3,4), of date_of "[]"] group_uploads [OF assms(3), of "[]" date_of]
      by (simp add: parseAttachmentBlocks_def chunk_def flush_text_def trim_lines_def strip_lead_def)
  next
    case False
    then have l: "last content \<noteq> CHR 0x0A" using assms(1) by (auto simp: trimmed_def)
    then have "trim_newlines_end content = content" using False by (cases content rule: rev_cases) (auto simp: trim_newlines_end_def)
    then have c: "content_with_uploads content us = content @ CHR 0x0A # [] @ CHR 0x0A # ?tags"
      using False assms(3) by (simp add: content_with_uploads_def Let_def)
    have "content_parts date_of [] (content_with_uploads content us) = content_parts date_of (content @ [CHR 0x0A, CHR 0x0A]) ?tags"
      unfolding c using parts_over_text [OF assms(2)] parts_over_text [of "[]"]
      by (simp add: contains_nil attachment_start_def)
    then show ?thesis using ne False parts_of_uploads [OF assms(3,4), of date_of "content @ [CHR 0x0A, CHR 0x0A]"]
        group_uploads [OF assms(3), of "content @ [CHR 0x0A, CHR 0x0A]" date_of] flush_trimmed [OF assms(1) False]
      by (simp add: parseAttachmentBlocks_def chunk_def flush_attachments_def)
  qed
qed

definition sample_upload :: "string \<Rightarrow> upload" where
  "sample_upload n = \<lparr>up_id = ''a1'', up_name = n, up_mime = ''text/plain'', up_size = 12, up_created = ''2024-05-01T10:00:00Z'', up_expires = []\<rparr>"

lemma attachments_roundtrip_witness:
  "parseAttachmentBlocks (\<lambda>_. Some 7) (content_with_uploads ''see'' [sample_upload ''a&b.txt'', sample_upload ''<c>.txt''])
     = [TextBlock ''see'', AttachmentsBlock [shown_upload (\<lambda>_. Some 7) (sample_upload ''a&b.txt'')],
        AttachmentsBlock [shown_upload (\<lambda>_. Some 7) (sample_upload ''<c>.txt'')]]"
proof -
  have "trimmed ''see''" "\<not> contains attachment_start ''see''" by code_simp+
  moreover have "list_all plain_upload [sample_upload ''a&b.txt'', sample_upload ''<c>.txt'']" by (simp add: sample_upload_def plain_upload_def)
  ultimately show ?thesis
    using attachments_roundtrip [of "''see''" "[sample_upload ''a&b.txt'', sample_upload ''<c>.txt'']" "\<lambda>_. Some 7"] by simp
qed

text \<open>What becomes of a file's name: every character comes back but the quotation mark, for which the server writes
  \<open>&#34;\<close>, an entity the bubble does not know; it is shown as it stands.\<close>

theorem file_names_are_read_back_but_quotes:
  "pa_name (attachment_of date_of [(''name'', decodeEntities (escape_string n))])
     = (if n = [] then ''attachment'' else concat (map (\<lambda>c. if c = CHR 0x22 then ''&#34;'' else [c]) n))"
proof -
  have "concat (map (\<lambda>c. if c = CHR 0x22 then ''&#34;'' else [c]) n) = [] \<longleftrightarrow> n = []" by (cases n) auto
  then show ?thesis unfolding decode_escape_any by (simp add: attachment_of_def attr_value_def or_else_def str_or_def)
qed

end
