(* ===== verification/Json.thy ===== *)
theory Json
  imports PlanParams "HOL-Library.Sublist"
begin

text \<open>
  JSON as the frontend uses it: \<open>JSON.stringify\<close>, with and without indentation, and \<open>JSON.parse\<close>. Values are those JSON
  can write; a number is held by the text \<open>String\<close> gives for it, and \<open>num_text\<close>, the text of the number that a literal
  denotes, is a parameter; a literal too large for a number has the text of an infinity, which is printed as \<open>null\<close>. The members of an object are in the order \<open>Object.keys\<close> lists them. The alphabet is the
  one of \<open>JsPrelude\<close>: an escape of a code unit outside it is not read.
\<close>

section \<open>Values and their text\<close>

datatype json =
    JNull
  | JBool bool
  | JNum string
  | JStr string
  | JArr "json list"
  | JObj "(string \<times> json) list"

definition hex_digit :: "nat \<Rightarrow> char" where
  "hex_digit n = (if n < 10 then digit_char n else ''abcdef'' ! (n - 10))"

definition json_escape :: "char \<Rightarrow> string" where
  "json_escape c =
     (if c = CHR 0x22 then [CHR 0x5C, CHR 0x22]
      else if c = CHR 0x5C then [CHR 0x5C, CHR 0x5C]
      else if c = CHR 0x08 then [CHR 0x5C, CHR ''b'']
      else if c = CHR 0x0C then [CHR 0x5C, CHR ''f'']
      else if c = CHR 0x0A then [CHR 0x5C, CHR ''n'']
      else if c = CHR 0x0D then [CHR 0x5C, CHR ''r'']
      else if c = CHR 0x09 then [CHR 0x5C, CHR ''t'']
      else if (of_char c :: nat) < 32 then
        [CHR 0x5C] @ ''u00'' @ [hex_digit (of_char c div 16), hex_digit (of_char c mod 16)]
      else [c])"

text \<open>What \<open>String\<close> gives for the infinities, which a number literal can denote.\<close>

definition infinities :: "string list" where
  "infinities = [''Infinity'', ''-Infinity'']"

definition json_quote :: "string \<Rightarrow> string" where
  "json_quote s = [CHR 0x22] @ concat (map json_escape s) @ [CHR 0x22]"

text \<open>\<open>JSON.stringify(v, null, g)\<close>; without the third argument \<open>g\<close> is 0.\<close>

definition json_break :: "nat \<Rightarrow> nat \<Rightarrow> string" where
  "json_break g ind = (if g = 0 then [] else CHR 0x0A # replicate ind CHR '' '')"

definition json_colon :: "nat \<Rightarrow> string" where
  "json_colon g = (if g = 0 then '':'' else '': '')"

fun json_print :: "nat \<Rightarrow> nat \<Rightarrow> json \<Rightarrow> string"
  and print_items :: "nat \<Rightarrow> nat \<Rightarrow> json list \<Rightarrow> string"
  and print_members :: "nat \<Rightarrow> nat \<Rightarrow> (string \<times> json) list \<Rightarrow> string" where
  "json_print g ind JNull = ''null''"
| "json_print g ind (JBool b) = (if b then ''true'' else ''false'')"
| "json_print g ind (JNum t) = (if t \<in> set infinities then ''null'' else t)"
| "json_print g ind (JStr s) = json_quote s"
| "json_print g ind (JArr xs) = (if xs = [] then ''[]''
     else ''['' @ json_break g (ind + g) @ print_items g (ind + g) xs @ json_break g ind @ '']'')"
| "json_print g ind (JObj kvs) = (if kvs = [] then ''{}''
     else ''{'' @ json_break g (ind + g) @ print_members g (ind + g) kvs @ json_break g ind @ ''}'')"
| "print_items g ind [] = []"
| "print_items g ind (v # vs) =
     json_print g ind v @ (if vs = [] then [] else '','' @ json_break g ind @ print_items g ind vs)"
| "print_members g ind [] = []"
| "print_members g ind ((k, v) # kvs) = json_quote k @ json_colon g @ json_print g ind v
     @ (if kvs = [] then [] else '','' @ json_break g ind @ print_members g ind kvs)"

definition json_stringify :: "json \<Rightarrow> string" where
  "json_stringify v = json_print 0 0 v"

section \<open>Reading\<close>

definition is_json_ws :: "char \<Rightarrow> bool" where
  "is_json_ws c \<longleftrightarrow> c = CHR '' '' \<or> c = CHR 0x09 \<or> c = CHR 0x0A \<or> c = CHR 0x0D"

definition skip_ws :: "string \<Rightarrow> string" where
  "skip_ws = dropWhile is_json_ws"

definition simple_escape :: "char \<Rightarrow> char option" where
  "simple_escape c = map_of [(CHR 0x22, CHR 0x22), (CHR 0x5C, CHR 0x5C), (CHR ''/'', CHR ''/''), (CHR ''b'', CHR 0x08),
     (CHR ''f'', CHR 0x0C), (CHR ''n'', CHR 0x0A), (CHR ''r'', CHR 0x0D), (CHR ''t'', CHR 0x09)] c"

definition hex_escape :: "char \<Rightarrow> char \<Rightarrow> char \<Rightarrow> char \<Rightarrow> char option" where
  "hex_escape a b c d =
     (case (hex_val a, hex_val b, hex_val c, hex_val d) of
        (Some w, Some x, Some y, Some z) \<Rightarrow>
          (let n = ((w * 16 + x) * 16 + y) * 16 + z
           in if n < 128 \<or> 160 \<le> n \<and> n < 256 then Some (char_of n) else None)
      | _ \<Rightarrow> None)"

fun string_body :: "string \<Rightarrow> (string \<times> string) option" where
  "string_body [] = None"
| "string_body (c # s) =
     (if c = CHR 0x22 then Some ([], s)
      else if c = CHR 0x5C then
        (case s of
           [] \<Rightarrow> None
         | e # t \<Rightarrow>
             if e = CHR ''u'' then
               (case t of
                  h1 # h2 # h3 # h4 # r \<Rightarrow>
                    (case hex_escape h1 h2 h3 h4 of
                       None \<Rightarrow> None
                     | Some d \<Rightarrow> map_option (apfst ((#) d)) (string_body r))
                | _ \<Rightarrow> None)
             else
               (case simple_escape e of
                  None \<Rightarrow> None
                | Some d \<Rightarrow> map_option (apfst ((#) d)) (string_body t)))
      else if (of_char c :: nat) < 32 then None
      else map_option (apfst ((#) c)) (string_body s))"

text \<open>A number: an optional sign, an integer without leading zeros, a fraction, an exponent.\<close>

definition sign_token :: "string \<Rightarrow> string \<times> string" where
  "sign_token s = (case s of c # t \<Rightarrow> if c = CHR ''-'' then ([c], t) else ([], s) | [] \<Rightarrow> ([], s))"

definition int_token :: "string \<Rightarrow> (string \<times> string) option" where
  "int_token s =
     (case s of
        [] \<Rightarrow> None
      | c # t \<Rightarrow>
          if c = CHR ''0'' then Some ([c], t)
          else if is_digit c then Some (c # takeWhile is_digit t, dropWhile is_digit t)
          else None)"

definition frac_token :: "string \<Rightarrow> (string \<times> string) option" where
  "frac_token s =
     (case s of
        [] \<Rightarrow> Some ([], s)
      | c # t \<Rightarrow>
          if c \<noteq> CHR ''.'' then Some ([], s)
          else if takeWhile is_digit t = [] then None
          else Some (c # takeWhile is_digit t, dropWhile is_digit t))"

definition exp_sign :: "string \<Rightarrow> string \<times> string" where
  "exp_sign s = (case s of c # t \<Rightarrow> if c = CHR ''+'' \<or> c = CHR ''-'' then ([c], t) else ([], s) | [] \<Rightarrow> ([], s))"

definition exp_token :: "string \<Rightarrow> (string \<times> string) option" where
  "exp_token s =
     (case s of
        [] \<Rightarrow> Some ([], s)
      | c # t \<Rightarrow>
          if c \<noteq> CHR ''e'' \<and> c \<noteq> CHR ''E'' then Some ([], s)
          else (case exp_sign t of (sg, u) \<Rightarrow>
            if takeWhile is_digit u = [] then None
            else Some (c # sg @ takeWhile is_digit u, dropWhile is_digit u)))"

definition number_token :: "string \<Rightarrow> (string \<times> string) option" where
  "number_token s =
     (case sign_token s of (sg, s1) \<Rightarrow>
      case int_token s1 of None \<Rightarrow> None | Some (i, s2) \<Rightarrow>
      case frac_token s2 of None \<Rightarrow> None | Some (f, s3) \<Rightarrow>
      case exp_token s3 of None \<Rightarrow> None | Some (e, s4) \<Rightarrow> Some (sg @ i @ f @ e, s4))"

definition obj_build :: "(string \<times> 'v) list \<Rightarrow> (string \<times> 'v) list" where
  "obj_build kvs = foldl (\<lambda>obj p. obj_put (fst p) (snd p) obj) [] kvs"

definition take_prefix :: "string \<Rightarrow> string \<Rightarrow> string option" where
  "take_prefix p s = (if starts_with p s then Some (drop (length p) s) else None)"

definition parse_word :: "(string \<Rightarrow> string) \<Rightarrow> string \<Rightarrow> (json \<times> string) option" where
  "parse_word num_text s =
     (case take_prefix ''null'' s of Some t \<Rightarrow> Some (JNull, t) | None \<Rightarrow>
      case take_prefix ''true'' s of Some t \<Rightarrow> Some (JBool True, t) | None \<Rightarrow>
      case take_prefix ''false'' s of Some t \<Rightarrow> Some (JBool False, t) | None \<Rightarrow>
      map_option (apfst (\<lambda>t. JNum (num_text t))) (number_token s))"

text \<open>Values, the items of an array and the members of an object; the fuel bounds the depth of the recursion.\<close>

fun parse_value :: "(string \<Rightarrow> string) \<Rightarrow> nat \<Rightarrow> string \<Rightarrow> (json \<times> string) option"
  and parse_items :: "(string \<Rightarrow> string) \<Rightarrow> nat \<Rightarrow> string \<Rightarrow> (json list \<times> string) option"
  and parse_members :: "(string \<Rightarrow> string) \<Rightarrow> nat \<Rightarrow> string \<Rightarrow> ((string \<times> json) list \<times> string) option" where
  "parse_value nt 0 s = None"
| "parse_value nt (Suc n) s =
     (case skip_ws s of
        [] \<Rightarrow> None
      | c # t \<Rightarrow>
          if c = CHR 0x22 then map_option (apfst JStr) (string_body t)
          else if c = CHR ''['' then
            (case take_prefix '']'' (skip_ws t) of
               Some u \<Rightarrow> Some (JArr [], u)
             | None \<Rightarrow> map_option (apfst JArr) (parse_items nt n t))
          else if c = CHR ''{'' then
            (case take_prefix ''}'' (skip_ws t) of
               Some u \<Rightarrow> Some (JObj [], u)
             | None \<Rightarrow> map_option (apfst (\<lambda>kvs. JObj (obj_build kvs))) (parse_members nt n t))
          else parse_word nt (c # t))"
| "parse_items nt 0 s = None"
| "parse_items nt (Suc n) s =
     (case parse_value nt n s of
        None \<Rightarrow> None
      | Some (v, u) \<Rightarrow>
          (case skip_ws u of
             [] \<Rightarrow> None
           | c # r \<Rightarrow>
               if c = CHR '','' then map_option (apfst ((#) v)) (parse_items nt n r)
               else if c = CHR '']'' then Some ([v], r)
               else None))"
| "parse_members nt 0 s = None"
| "parse_members nt (Suc n) s =
     (case take_prefix [CHR 0x22] (skip_ws s) of
        None \<Rightarrow> None
      | Some t \<Rightarrow>
          (case string_body t of
             None \<Rightarrow> None
           | Some (k, u) \<Rightarrow>
               (case take_prefix '':'' (skip_ws u) of
                  None \<Rightarrow> None
                | Some w \<Rightarrow>
                    (case parse_value nt n w of
                       None \<Rightarrow> None
                     | Some (v, x) \<Rightarrow>
                         (case skip_ws x of
                            [] \<Rightarrow> None
                          | c # r \<Rightarrow>
                              if c = CHR '','' then map_option (apfst ((#) (k, v))) (parse_members nt n r)
                              else if c = CHR ''}'' then Some ([(k, v)], r)
                              else None)))))"

definition json_fuel :: "string \<Rightarrow> nat" where
  "json_fuel s = 2 * length s + 2"

definition json_parse :: "(string \<Rightarrow> string) \<Rightarrow> string \<Rightarrow> json option" where
  "json_parse num_text s =
     (case parse_value num_text (json_fuel s) s of
        Some (v, u) \<Rightarrow> if skip_ws u = [] then Some v else None
      | None \<Rightarrow> None)"

section \<open>What is read is consumed\<close>

lemma skip_ws_length: "length (skip_ws s) \<le> length s"
  by (simp add: skip_ws_def length_dropWhile_le)

lemma skip_ws_Cons: "skip_ws s = c # t \<Longrightarrow> length t < length s"
  using skip_ws_length [of s] by simp

lemma take_prefix_length: "take_prefix p s = Some t \<Longrightarrow> p \<noteq> [] \<Longrightarrow> length t < length s"
  by (cases s; cases p) (auto simp: take_prefix_def starts_with_def split: if_splits)

lemma take_prefix_skip: "take_prefix p (skip_ws s) = Some t \<Longrightarrow> p \<noteq> [] \<Longrightarrow> length t < length s"
  using take_prefix_length skip_ws_length [of s] by fastforce

lemma string_body_length: "string_body s = Some (x, u) \<Longrightarrow> length u < length s"
proof (induction s arbitrary: x rule: length_induct)
  case (1 s)
  have IH: "string_body t = Some (y, u) \<Longrightarrow> length t < length s \<Longrightarrow> length u < length s" for t y
    using "1.IH" by (meson less_trans)
  from "1.prems" show ?case
    by (cases s) (auto split: if_splits list.splits option.splits dest!: IH)
qed

lemma number_token_split: "number_token s = Some (t, u) \<Longrightarrow> s = t @ u \<and> t \<noteq> []"
proof -
  have i: "int_token x = Some (a, b) \<Longrightarrow> x = a @ b \<and> a \<noteq> []" for x a b
    by (auto simp: int_token_def split: list.splits if_splits)
  have f: "frac_token x = Some (a, b) \<Longrightarrow> x = a @ b" for x a b
    by (auto simp: frac_token_def split: list.splits if_splits)
  have g: "exp_sign x = (a, b) \<Longrightarrow> x = a @ b" for x a b
    by (auto simp: exp_sign_def split: list.splits if_splits)
  have e: "exp_token x = Some (a, b) \<Longrightarrow> x = a @ b" for x a b
    by (auto simp: exp_token_def split: list.splits if_splits prod.splits dest: g)
  have m: "sign_token x = (a, b) \<Longrightarrow> x = a @ b" for x a b
    by (auto simp: sign_token_def split: list.splits if_splits)
  assume "number_token s = Some (t, u)"
  then obtain sg s1 j s2 h s3 k where "sign_token s = (sg, s1)" "int_token s1 = Some (j, s2)" "frac_token s2 = Some (h, s3)"
    "exp_token s3 = Some (k, u)" "t = sg @ j @ h @ k"
    by (auto simp: number_token_def split: prod.splits option.splits)
  then show ?thesis using m [of s sg s1] i [of s1 j s2] f [of s2 h s3] e [of s3 k u] by simp
qed

lemma parse_word_length: "parse_word nt s = Some (v, u) \<Longrightarrow> length u < length s"
  by (auto simp: parse_word_def split: option.splits dest!: take_prefix_length number_token_split)

text \<open>The results of the readers, one case per branch.\<close>

lemma parse_value_Some:
  assumes "parse_value nt (Suc n) s = Some (v, u)"
  obtains (Str) t x where "skip_ws s = CHR 0x22 # t" and "string_body t = Some (x, u)" and "v = JStr x"
  | (NoItems) t where "skip_ws s = CHR ''['' # t" and "take_prefix '']'' (skip_ws t) = Some u" and "v = JArr []"
  | (Items) t vs where "skip_ws s = CHR ''['' # t" and "take_prefix '']'' (skip_ws t) = None"
      and "parse_items nt n t = Some (vs, u)" and "v = JArr vs"
  | (NoMembers) t where "skip_ws s = CHR ''{'' # t" and "take_prefix ''}'' (skip_ws t) = Some u" and "v = JObj []"
  | (Members) t ms where "skip_ws s = CHR ''{'' # t" and "take_prefix ''}'' (skip_ws t) = None"
      and "parse_members nt n t = Some (ms, u)" and "v = JObj (obj_build ms)"
  | (Word) c t where "skip_ws s = c # t" and "parse_word nt (c # t) = Some (v, u)"
proof -
  obtain c t where st: "skip_ws s = c # t" using assms by (auto split: list.splits)
  consider "c = CHR 0x22" | "c = CHR ''[''" | "c = CHR ''{''" | "c \<noteq> CHR 0x22" "c \<noteq> CHR ''[''" "c \<noteq> CHR ''{''" by blast
  then show thesis
  proof cases
    case 1 then show thesis using assms st Str by auto
  next
    case 2 then show thesis using assms st NoItems Items by (auto split: option.splits)
  next
    case 3 then show thesis using assms st NoMembers Members by (auto split: option.splits)
  next
    case 4 then show thesis using assms st Word by simp
  qed
qed

lemma parse_items_Some:
  assumes "parse_items nt (Suc n) s = Some (vs, u)"
  obtains v x c r where "parse_value nt n s = Some (v, x)" and "skip_ws x = c # r"
    and "c = CHR '','' \<and> (\<exists>ws. parse_items nt n r = Some (ws, u) \<and> vs = v # ws) \<or> c = CHR '']'' \<and> u = r \<and> vs = [v]"
proof -
  obtain v x where vx: "parse_value nt n s = Some (v, x)" using assms by (auto split: option.splits)
  obtain c r where cr: "skip_ws x = c # r" using assms vx by (auto split: list.splits)
  show thesis using that [OF vx cr] assms vx cr by (auto split: if_splits)
qed

lemma parse_members_Some:
  assumes "parse_members nt (Suc n) s = Some (ms, u)"
  obtains t k x w v y c r where "take_prefix [CHR 0x22] (skip_ws s) = Some t" and "string_body t = Some (k, x)"
    and "take_prefix '':'' (skip_ws x) = Some w" and "parse_value nt n w = Some (v, y)" and "skip_ws y = c # r"
    and "c = CHR '','' \<and> (\<exists>ls. parse_members nt n r = Some (ls, u) \<and> ms = (k, v) # ls) \<or> c = CHR ''}'' \<and> u = r \<and> ms = [(k, v)]"
proof -
  obtain t where t: "take_prefix [CHR 0x22] (skip_ws s) = Some t" using assms by (auto split: option.splits)
  obtain k x where kx: "string_body t = Some (k, x)" using assms t by (auto split: option.splits)
  obtain w where w: "take_prefix '':'' (skip_ws x) = Some w" using assms t kx by (auto split: option.splits)
  obtain v y where vy: "parse_value nt n w = Some (v, y)" using assms t kx w by (auto split: option.splits)
  obtain c r where cr: "skip_ws y = c # r" using assms t kx w vy by (auto split: list.splits)
  show thesis using that [OF t kx w vy cr] assms t kx w vy cr by (auto split: if_splits)
qed

lemma parse_length:
  shows "parse_value nt n s = Some (v, u) \<Longrightarrow> length u < length s"
    and "parse_items nt n s = Some (vs, u) \<Longrightarrow> length u < length s"
    and "parse_members nt n s = Some (ms, u) \<Longrightarrow> length u < length s"
proof (induction n arbitrary: s v vs ms u)
  case (Suc n)
  {
    case 1
    then show ?case
    proof (cases rule: parse_value_Some)
      case (Str t x)
      then show ?thesis using string_body_length skip_ws_Cons by (meson less_trans)
    next
      case (NoItems t)
      then show ?thesis using take_prefix_skip [of "'']''"] skip_ws_Cons by (metis less_trans list.distinct(1))
    next
      case (Items t vs)
      then show ?thesis using Suc.IH(2) skip_ws_Cons by (meson less_trans)
    next
      case (NoMembers t)
      then show ?thesis using take_prefix_skip [of "''}''"] skip_ws_Cons by (metis less_trans list.distinct(1))
    next
      case (Members t ms)
      then show ?thesis using Suc.IH(3) skip_ws_Cons by (meson less_trans)
    next
      case (Word c t)
      then show ?thesis using parse_word_length skip_ws_length by (metis order_less_le_trans)
    qed
  next
    case 2
    then show ?case
    proof (cases rule: parse_items_Some)
      case (1 v x c r)
      then show ?thesis using Suc.IH(1) [of s v x] Suc.IH(2) [of r _ u] skip_ws_Cons [of x c r] by auto
    qed
  next
    case 3
    then show ?case
    proof (cases rule: parse_members_Some)
      case (1 t k x w v y c r)
      note l = take_prefix_skip [OF 1(1)] string_body_length [OF 1(2)] take_prefix_skip [OF 1(3)] Suc.IH(1) [OF 1(4)]
        skip_ws_Cons [OF 1(5)]
      have "length u \<le> length r" using 1(6) Suc.IH(3) [of r _ u] by (auto intro: less_imp_le)
      with l show ?thesis by simp
    qed
  }
qed auto

section \<open>The fuel is enough\<close>

lemma parse_more_fuel:
  shows "2 * length s < n \<Longrightarrow> parse_value nt (Suc n) s = parse_value nt n s"
    and "2 * length s + 1 < n \<Longrightarrow> parse_items nt (Suc n) s = parse_items nt n s"
    and "2 * length s + 1 < n \<Longrightarrow> parse_members nt (Suc n) s = parse_members nt n s"
proof (induction n arbitrary: s)
  case (Suc n)
  {
    case 1
    show ?case
    proof (cases "skip_ws s")
      case (Cons c t)
      have "2 * length t + 1 < n" using skip_ws_Cons [OF Cons] 1 by simp
      then show ?thesis by (simp only: parse_value.simps Suc.IH(2,3) Cons list.case)
    qed (simp only: parse_value.simps list.case)
  next
    case 2
    have v: "parse_value nt (Suc n) s = parse_value nt n s" using Suc.IH(1) [of s] 2 by simp
    show ?case
    proof (cases "parse_value nt n s")
      case (Some p)
      obtain w x where p: "p = (w, x)" by (cases p)
      have vx: "parse_value nt n s = Some (w, x)" using Some p by simp
      show ?thesis
      proof (cases "skip_ws x")
        case (Cons c r)
        have "2 * length r + 1 < n" using skip_ws_Cons [OF Cons] parse_length(1) [OF vx] 2 by simp
        from Suc.IH(2) [OF this] show ?thesis by (simp only: parse_items.simps v vx Cons option.case prod.case list.case)
      qed (simp only: parse_items.simps v vx option.case prod.case list.case)
    qed (simp only: parse_items.simps v option.case)
  next
    case 3
    show ?case
    proof (cases "take_prefix [CHR 0x22] (skip_ws s)")
      case t: (Some t)
      show ?thesis
      proof (cases "string_body t")
        case (Some p)
        obtain k x where kx: "string_body t = Some (k, x)" using Some by (cases p) auto
        show ?thesis
        proof (cases "take_prefix '':'' (skip_ws x)")
          case w: (Some w)
          have lw: "length w < length s"
            using take_prefix_skip [OF t] string_body_length [OF kx] take_prefix_skip [OF w] by simp
          have v: "parse_value nt (Suc n) w = parse_value nt n w" using Suc.IH(1) [of w] 3 lw by simp
          show ?thesis
          proof (cases "parse_value nt n w")
            case (Some p)
            obtain a y where vy: "parse_value nt n w = Some (a, y)" using Some by (cases p) auto
            show ?thesis
            proof (cases "skip_ws y")
              case (Cons c r)
              have "2 * length r + 1 < n" using skip_ws_Cons [OF Cons] parse_length(1) [OF vy] lw 3 by simp
              from Suc.IH(3) [OF this] show ?thesis
                by (simp only: parse_members.simps t kx w v vy Cons option.case prod.case list.case)
            qed (simp only: parse_members.simps t kx w v vy option.case prod.case list.case)
          qed (simp only: parse_members.simps t kx w v option.case prod.case)
        qed (simp only: parse_members.simps t kx option.case prod.case)
      qed (simp only: parse_members.simps t option.case)
    qed (simp only: parse_members.simps option.case)
  }
qed auto

lemma parse_fuel_enough: "json_fuel s \<le> n \<Longrightarrow> parse_value nt n s = parse_value nt (json_fuel s) s"
proof (induction n rule: dec_induct)
  case (step m)
  then show ?case using parse_more_fuel(1) [of s m nt] by (simp add: json_fuel_def)
qed simp

section \<open>What is printed is read\<close>

text \<open>Values as they are in a running program: a number has the text its value prints, the members of an object are in
  their order.\<close>

fun json_ok :: "(string \<Rightarrow> string) \<Rightarrow> json \<Rightarrow> bool"
  and items_ok :: "(string \<Rightarrow> string) \<Rightarrow> json list \<Rightarrow> bool"
  and members_ok :: "(string \<Rightarrow> string) \<Rightarrow> (string \<times> json) list \<Rightarrow> bool" where
  "json_ok nt JNull = True"
| "json_ok nt (JBool b) = True"
| "json_ok nt (JNum t) = (number_token t = Some (t, []) \<and> nt t = t)"
| "json_ok nt (JStr s) = True"
| "json_ok nt (JArr vs) = items_ok nt vs"
| "json_ok nt (JObj kvs) = (obj_build kvs = kvs \<and> members_ok nt kvs)"
| "items_ok nt [] = True"
| "items_ok nt (v # vs) = (json_ok nt v \<and> items_ok nt vs)"
| "members_ok nt [] = True"
| "members_ok nt ((k, v) # kvs) = (json_ok nt v \<and> members_ok nt kvs)"

lemma control_escape: "\<forall>n \<in> set [0..<32]. hex_escape CHR ''0'' CHR ''0'' (hex_digit (n div 16)) (hex_digit (n mod 16)) = Some (char_of n)"
  by code_simp

lemma string_body_escape: "string_body (json_escape c @ t) = map_option (apfst ((#) c)) (string_body t)"
proof (cases "c \<in> {CHR 0x22, CHR 0x5C, CHR 0x08, CHR 0x0C, CHR 0x0A, CHR 0x0D, CHR 0x09}")
  case True
  then show ?thesis by (auto simp: json_escape_def simple_escape_def)
next
  case False
  show ?thesis
  proof (cases "(of_char c :: nat) < 32")
    case True
    define n where "n = (of_char c :: nat)"
    have "hex_escape CHR ''0'' CHR ''0'' (hex_digit (n div 16)) (hex_digit (n mod 16)) = Some c"
      using control_escape True unfolding n_def by (metis atLeast0LessThan atLeast_upt char_of_char lessThan_iff)
    then show ?thesis using False True by (simp add: json_escape_def n_def)
  next
    case big: False
    then show ?thesis using False by (simp add: json_escape_def)
  qed
qed

lemma string_body_quoted: "string_body (concat (map json_escape s) @ CHR 0x22 # rest) = Some (s, rest)"
  by (induction s) (simp_all add: string_body_escape)

definition ends_number :: "string \<Rightarrow> bool" where
  "ends_number s \<longleftrightarrow> s = [] \<or> \<not> is_digit (hd s) \<and> hd s \<notin> {CHR ''.'', CHR ''e'', CHR ''E''}"

lemma digits_append:
  "ends_number b \<Longrightarrow> takeWhile is_digit (a @ b) = takeWhile is_digit a \<and> dropWhile is_digit (a @ b) = dropWhile is_digit a @ b"
  by (induction a) (auto simp: ends_number_def takeWhile_eq_Nil_iff dropWhile_eq_self_iff)

lemma number_token_append:
  assumes "number_token t = Some (t, [])" and r: "ends_number rest"
  shows "number_token (t @ rest) = Some (t, rest)"
proof -
  obtain sg s1 j s2 h s3 k where p: "sign_token t = (sg, s1)" "int_token s1 = Some (j, s2)" "frac_token s2 = Some (h, s3)"
    "exp_token s3 = Some (k, [])" "t = sg @ j @ h @ k"
    using assms(1) by (auto simp: number_token_def split: prod.splits option.splits)
  have "s1 \<noteq> []" using p(2) by (auto simp: int_token_def)
  then have sgn: "sign_token (t @ rest) = (sg, s1 @ rest)"
    using p(1) by (auto simp: sign_token_def split: list.splits if_splits)
  have int: "int_token (s1 @ rest) = Some (j, s2 @ rest)"
    using p(2) digits_append [OF r] by (auto simp: int_token_def split: list.splits if_splits)
  have frac: "frac_token (s2 @ rest) = Some (h, s3 @ rest)"
    using p(3) digits_append [OF r] r
    by (cases s2; cases rest) (auto simp: frac_token_def ends_number_def split: if_splits)
  have es: "exp_sign (u @ rest) = (fst (exp_sign u), snd (exp_sign u) @ rest)" if "takeWhile is_digit (snd (exp_sign u)) \<noteq> []" for u
    using that by (cases u) (auto simp: exp_sign_def)
  have exp: "exp_token (s3 @ rest) = Some (k, rest)"
  proof (cases s3)
    case Nil
    then show ?thesis using p(4) r by (cases rest) (auto simp: exp_token_def ends_number_def)
  next
    case (Cons c u)
    then show ?thesis using p(4) es [of u] digits_append [OF r, of "snd (exp_sign u)"]
      by (auto simp: exp_token_def split: prod.splits if_splits)
  qed
  show ?thesis using sgn int frac exp p(5) by (simp add: number_token_def)
qed

lemma number_head:
  assumes "number_token t = Some (t, [])"
  obtains c u where "t = c # u" and "c = CHR ''-'' \<or> is_digit c"
proof (cases t)
  case Nil
  then show thesis using assms number_token_split by blast
next
  case (Cons c u)
  have "c = CHR ''-'' \<or> is_digit c"
    using assms Cons by (auto simp: number_token_def sign_token_def int_token_def is_digit_def split: if_splits prod.splits option.splits)
  with Cons that show thesis by blast
qed

definition json_blank :: "string \<Rightarrow> bool" where
  "json_blank w \<longleftrightarrow> list_all is_json_ws w"

lemma json_blank_break [simp]: "json_blank (json_break g n)"
  by (simp add: json_blank_def json_break_def is_json_ws_def list_all_iff)

lemma json_blank_nil [simp]: "json_blank []"
  by (simp add: json_blank_def)

lemma skip_blank: "json_blank w \<Longrightarrow> s \<noteq> [] \<Longrightarrow> \<not> is_json_ws (hd s) \<Longrightarrow> skip_ws (w @ s) = s"
  by (induction w) (auto simp: json_blank_def skip_ws_def dropWhile_eq_self_iff)

lemma skip_blank_Cons [simp]: "json_blank w \<Longrightarrow> \<not> is_json_ws c \<Longrightarrow> skip_ws (w @ c # s) = c # s"
  by (simp add: skip_blank)

lemma skip_solid [simp]: "\<not> is_json_ws c \<Longrightarrow> skip_ws (c # s) = c # s"
  by (simp add: skip_ws_def)

lemma take_prefix_char [simp]: "take_prefix [c] (d # s) = (if d = c then Some s else None)"
  by (simp add: take_prefix_def)

lemma digit_solid: "c = CHR ''-'' \<or> is_digit c \<Longrightarrow> \<not> is_json_ws c \<and> c \<notin> set ''\"[]{}ntf'' "
  by (auto simp: is_digit_def is_json_ws_def)

text \<open>The first character of a printed value.\<close>

lemma literal_finite: "number_token t = Some (t, []) \<Longrightarrow> t \<notin> set infinities"
  by (auto simp: infinities_def number_token_def sign_token_def int_token_def is_digit_def)

lemma print_head_exists:
  "json_ok nt v \<Longrightarrow> \<exists>c t. json_print g ind v = c # t \<and> \<not> is_json_ws c \<and> c \<noteq> CHR '']'' \<and> c \<noteq> CHR ''}''"
proof (cases v)
  case (JNum x)
  assume "json_ok nt v"
  then obtain c u where "x = c # u" "c = CHR ''-'' \<or> is_digit c" using JNum number_head by auto
  with JNum digit_solid [of c] literal_finite [of x] \<open>json_ok nt v\<close> show ?thesis by auto
qed (auto simp: is_json_ws_def json_quote_def)

lemma print_head:
  assumes "json_ok nt v"
  obtains c t where "json_print g ind v = c # t" and "\<not> is_json_ws c" and "c \<noteq> CHR '']''" and "c \<noteq> CHR ''}''"
  using print_head_exists [OF assms, of g ind] by blast

lemma ends_blank: "json_blank w \<Longrightarrow> ends_number (w @ c # s) \<longleftrightarrow> w \<noteq> [] \<or> ends_number (c # s)"
  by (cases w) (auto simp: ends_number_def json_blank_def is_json_ws_def is_digit_def)

lemma ends_close [simp]: "ends_number (CHR '','' # s)" "ends_number (CHR '']'' # s)" "ends_number (CHR ''}'' # s)"
  by (simp_all add: ends_number_def is_digit_def)

lemma ends_blank_close [simp]:
  "json_blank w \<Longrightarrow> ends_number (w @ CHR '']'' # s)" "json_blank w \<Longrightarrow> ends_number (w @ CHR ''}'' # s)"
  by (simp_all add: ends_blank)

lemma solid_marks [simp]: "\<not> is_json_ws CHR 0x22" "\<not> is_json_ws CHR '',''" "\<not> is_json_ws CHR '':''" "\<not> is_json_ws CHR ''[''"
  "\<not> is_json_ws CHR '']''" "\<not> is_json_ws CHR ''{''" "\<not> is_json_ws CHR ''}''" "\<not> is_json_ws CHR ''n''" "\<not> is_json_ws CHR ''t''"
  "\<not> is_json_ws CHR ''f''"
  by (simp_all add: is_json_ws_def)

lemma skip_colon: "skip_ws (json_colon g @ s) = CHR '':'' # (if g = 0 then s else CHR '' '' # s)"
  by (simp add: json_colon_def)

lemma parse_number: "number_token t = Some (t, []) \<Longrightarrow> nt t = t \<Longrightarrow> ends_number rest \<Longrightarrow>
    parse_word nt (t @ rest) = Some (JNum t, rest)"
proof -
  assume a: "number_token t = Some (t, [])" "nt t = t" "ends_number rest"
  obtain c u where "t = c # u" "c = CHR ''-'' \<or> is_digit c" using number_head [OF a(1)] by blast
  then have "take_prefix ''null'' (t @ rest) = None" "take_prefix ''true'' (t @ rest) = None" "take_prefix ''false'' (t @ rest) = None"
    using digit_solid [of c] by (auto simp: take_prefix_def starts_with_def)
  then show ?thesis using number_token_append [OF a(1,3)] a(2) by (simp add: parse_word_def)
qed

lemma print_parse:
  shows "json_ok nt v \<Longrightarrow> ends_number rest \<Longrightarrow> json_blank w \<Longrightarrow> 2 * length (w @ json_print g ind v @ rest) < n \<Longrightarrow>
      parse_value nt n (w @ json_print g ind v @ rest) = Some (v, rest)"
    and "items_ok nt vs \<Longrightarrow> vs \<noteq> [] \<Longrightarrow> json_blank w \<Longrightarrow> json_blank x \<Longrightarrow>
      2 * length (w @ print_items g ind vs @ x @ CHR '']'' # rest) + 1 < n \<Longrightarrow>
      parse_items nt n (w @ print_items g ind vs @ x @ CHR '']'' # rest) = Some (vs, rest)"
    and "members_ok nt ms \<Longrightarrow> ms \<noteq> [] \<Longrightarrow> json_blank w \<Longrightarrow> json_blank x \<Longrightarrow>
      2 * length (w @ print_members g ind ms @ x @ CHR ''}'' # rest) + 1 < n \<Longrightarrow>
      parse_members nt n (w @ print_members g ind ms @ x @ CHR ''}'' # rest) = Some (ms, rest)"
proof (induction g ind v and g ind vs and g ind ms arbitrary: rest w n and rest w x n and rest w x n
    rule: json_print_print_items_print_members.induct)
  case (2 g ind b)
  then show ?case by (cases n; cases b) (auto simp: parse_word_def take_prefix_def starts_with_def)
next
  case (3 g ind t)
  obtain c u where t: "t = c # u" "c = CHR ''-'' \<or> is_digit c" using "3.prems"(1) number_head by auto
  obtain m where n: "n = Suc m" using "3.prems"(4) by (cases n) auto
  have "skip_ws (w @ t @ rest) = t @ rest" using t digit_solid [of c] "3.prems"(3) by (intro skip_blank) auto
  moreover have "json_print g ind (JNum t) = t" using literal_finite "3.prems"(1) by simp
  ultimately show ?case using parse_number [of t nt rest] "3.prems"(1,2) t digit_solid [of c] by (auto simp: n)
next
  case (4 g ind s)
  then show ?case by (cases n) (simp_all add: json_quote_def string_body_quoted)
next
  case (5 g ind xs)
  obtain m where n: "n = Suc m" using "5.prems"(4) by (cases n) auto
  show ?case
  proof (cases xs)
    case Nil
    then show ?thesis using "5.prems"(3) by (simp add: n)
  next
    case (Cons y ys)
    let ?t = "json_break g (ind + g) @ print_items g (ind + g) xs @ json_break g ind @ CHR '']'' # rest"
    have ok: "json_ok nt y" using "5.prems"(1) Cons by simp
    obtain c u where cu: "json_print g (ind + g) y = c # u" "\<not> is_json_ws c" "c \<noteq> CHR '']''" using print_head [OF ok] by metis
    then have no: "take_prefix '']'' (skip_ws ?t) = None" using Cons by simp
    have "parse_items nt m ?t = Some (xs, rest)"
      using "5.IH" [of "json_break g (ind + g)" "json_break g ind" rest m] "5.prems" Cons n by simp
    then show ?thesis using no Cons "5.prems"(3) by (simp add: n)
  qed
next
  case (6 g ind ms)
  obtain m where n: "n = Suc m" using "6.prems"(4) by (cases n) auto
  show ?case
  proof (cases ms)
    case Nil
    then show ?thesis using "6.prems"(3) by (simp add: n)
  next
    case (Cons p ps)
    let ?t = "json_break g (ind + g) @ print_members g (ind + g) ms @ json_break g ind @ CHR ''}'' # rest"
    have no: "take_prefix ''}'' (skip_ws ?t) = None" using Cons by (cases p) (simp add: json_quote_def)
    have "parse_members nt m ?t = Some (ms, rest)"
      using "6.IH" [of "json_break g (ind + g)" "json_break g ind" rest m] "6.prems" Cons n by simp
    then show ?thesis using no Cons "6.prems"(1,3) by (simp add: n)
  qed
next
  case (8 g ind v vs)
  obtain m where n: "n = Suc m" using "8.prems"(5) by (cases n) auto
  let ?after = "if vs = [] then x @ CHR '']'' # rest else '','' @ json_break g ind @ print_items g ind vs @ x @ CHR '']'' # rest"
  have e: "w @ print_items g ind (v # vs) @ x @ CHR '']'' # rest = w @ json_print g ind v @ ?after" by simp
  have v: "parse_value nt m (w @ json_print g ind v @ ?after) = Some (v, ?after)"
    using "8.prems" by (intro "8.IH"(1)) (auto simp: n)
  show ?case
  proof (cases "vs = []")
    case True
    then show ?thesis using v "8.prems"(4) unfolding e n by (simp del: append_assoc)
  next
    case False
    then have "parse_items nt m (json_break g ind @ print_items g ind vs @ x @ CHR '']'' # rest) = Some (vs, rest)"
      using "8.prems" n by (intro "8.IH"(2)) auto
    then show ?thesis using v False unfolding e n by simp
  qed
next
  case (10 g ind k v ms)
  obtain m where n: "n = Suc m" using "10.prems"(5) by (cases n) auto
  let ?after = "if ms = [] then x @ CHR ''}'' # rest else '','' @ json_break g ind @ print_members g ind ms @ x @ CHR ''}'' # rest"
  let ?w = "if g = 0 then [] else '' ''"
  have e: "w @ print_members g ind ((k, v) # ms) @ x @ CHR ''}'' # rest
      = w @ CHR 0x22 # concat (map json_escape k) @ CHR 0x22 # CHR '':'' # ?w @ json_print g ind v @ ?after"
    by (simp add: json_quote_def json_colon_def)
  have v: "parse_value nt m (?w @ json_print g ind v @ ?after) = Some (v, ?after)"
    using "10.prems" by (intro "10.IH"(1)) (auto simp: n json_blank_def is_json_ws_def json_quote_def json_colon_def)
  show ?case
  proof (cases "ms = []")
    case True
    then show ?thesis using v "10.prems"(3,4) unfolding e n by (simp add: string_body_quoted)
  next
    case False
    then have "parse_members nt m (json_break g ind @ print_members g ind ms @ x @ CHR ''}'' # rest) = Some (ms, rest)"
      using "10.prems" n by (intro "10.IH"(2)) (auto simp: json_quote_def json_colon_def)
    then show ?thesis using v False "10.prems"(3) unfolding e n by (simp add: string_body_quoted)
  qed
qed (auto simp: parse_word_def take_prefix_def starts_with_def Suc_less_eq2)

lemma json_roundtrip: "json_ok nt v \<Longrightarrow> json_parse nt (json_print g 0 v) = Some v"
  using print_parse(1) [of nt v "[]" "[]" g 0 "json_fuel (json_print g 0 v)"]
  by (simp add: json_parse_def json_fuel_def ends_number_def skip_ws_def)

section \<open>What is read is a value\<close>

definition obj_sorted :: "(string \<times> 'v) list \<Rightarrow> bool" where
  "obj_sorted kvs \<longleftrightarrow> distinct (map fst kvs) \<and> sorted_wrt (\<lambda>p q. \<not> goes_before (fst q) (fst p)) kvs"

lemma goes_before_trans: "goes_before a b \<Longrightarrow> goes_before b c \<Longrightarrow> goes_before a c"
  by (auto simp: goes_before_def)

lemma goes_before_asym: "goes_before a b \<Longrightarrow> \<not> goes_before b a"
  by (auto simp: goes_before_def)

lemma obj_sorted_snoc: "obj_sorted (kvs @ [(k, v)]) \<longleftrightarrow>
    obj_sorted kvs \<and> k \<notin> fst ` set kvs \<and> list_all (\<lambda>p. \<not> goes_before k (fst p)) kvs"
  by (auto simp: obj_sorted_def sorted_wrt_append list_all_iff)

lemma obj_build_sorted_id: "obj_sorted kvs \<Longrightarrow> obj_build kvs = kvs"
proof (induction kvs rule: rev_induct)
  case (snoc p kvs)
  obtain k v where p: "p = (k, v)" by (cases p)
  have s: "obj_sorted kvs" "k \<notin> fst ` set kvs" "list_all (\<lambda>p. \<not> goes_before k (fst p)) kvs"
    using snoc.prems unfolding p obj_sorted_snoc by auto
  have t: "takeWhile (\<lambda>p. \<not> goes_before k (fst p)) kvs = kvs" "dropWhile (\<lambda>p. \<not> goes_before k (fst p)) kvs = []"
    using s(3) by (simp_all add: takeWhile_eq_all_conv dropWhile_eq_Nil_conv list_all_iff)
  show ?case using snoc.IH [OF s(1)] s(2) t by (simp add: obj_build_def obj_put_def p)
qed (simp add: obj_build_def)

lemma obj_sorted_put:
  assumes "obj_sorted kvs"
  shows "obj_sorted (obj_put k v kvs)"
proof (cases "k \<in> fst ` set kvs")
  case True
  have m: "map fst (map (\<lambda>p. if fst p = k then (k, v) else p) kvs) = map fst kvs" by simp
  have "sorted_wrt (\<lambda>p q. \<not> goes_before (fst q) (fst p)) kvs \<longleftrightarrow> sorted_wrt (\<lambda>a b. \<not> goes_before b a) (map fst kvs)" for kvs :: "(string \<times> 'a) list"
    by (simp add: sorted_wrt_map)
  then show ?thesis using True assms m by (simp only: obj_sorted_def obj_put_def if_True)
next
  case False
  let ?P = "\<lambda>p. \<not> goes_before k (fst p)"
  let ?a = "takeWhile ?P kvs" and ?b = "dropWhile ?P kvs"
  have e: "kvs = ?a @ ?b" by simp
  have s: "sorted_wrt (\<lambda>p q. \<not> goes_before (fst q) (fst p)) (?a @ ?b)" "distinct (map fst (?a @ ?b))"
    using assms by (simp_all add: obj_sorted_def)
  have sp: "sorted_wrt (\<lambda>p q. \<not> goes_before (fst q) (fst p)) ?a" "sorted_wrt (\<lambda>p q. \<not> goes_before (fst q) (fst p)) ?b"
    "\<forall>x \<in> set ?a. \<forall>y \<in> set ?b. \<not> goes_before (fst y) (fst x)"
    using s(1) unfolding sorted_wrt_append by blast+
  have b: "\<not> goes_before (fst y) k" if "y \<in> set ?b" for y
  proof (cases ?b)
    case (Cons x xs)
    then have "goes_before k (fst x)" using hd_dropWhile [of ?P kvs] by simp
    moreover have "y = x \<or> \<not> goes_before (fst y) (fst x)" using that s(1) Cons by (auto simp: sorted_wrt_append)
    ultimately show ?thesis using goes_before_trans goes_before_asym by metis
  next
    case Nil
    show ?thesis using that unfolding Nil by simp
  qed
  have k: "k \<notin> fst ` set ?a" "k \<notin> fst ` set ?b" using False set_takeWhileD set_dropWhileD by (metis (no_types, lifting) image_iff)+
  have "sorted_wrt (\<lambda>p q. \<not> goes_before (fst q) (fst p)) (?a @ (k, v) # ?b)"
    using sp b by (auto simp: sorted_wrt_append dest: set_takeWhileD)
  moreover have "distinct (map fst (?a @ (k, v) # ?b))" using s(2) k unfolding map_append distinct_append by auto
  ultimately show ?thesis using False by (simp add: obj_sorted_def obj_put_def)
qed

lemma obj_build_snoc: "obj_build (kvs @ [p]) = obj_put (fst p) (snd p) (obj_build kvs)"
  by (simp add: obj_build_def)

lemma obj_sorted_build: "obj_sorted (obj_build kvs)"
  by (induction kvs rule: rev_induct) (simp_all add: obj_build_snoc obj_sorted_put, simp add: obj_build_def obj_sorted_def)

lemma obj_build_idem: "obj_build (obj_build kvs) = obj_build kvs"
  by (rule obj_build_sorted_id [OF obj_sorted_build])

lemma set_obj_put: "set (obj_put k v kvs) \<subseteq> insert (k, v) (set kvs)"
  by (auto simp: obj_put_def dest: set_takeWhileD set_dropWhileD split: if_splits)

lemma set_obj_build: "set (obj_build kvs) \<subseteq> set kvs"
proof (induction kvs rule: rev_induct)
  case (snoc p kvs)
  then show ?case using set_obj_put [of "fst p" "snd p" "obj_build kvs"] by (auto simp: obj_build_snoc)
qed (simp add: obj_build_def)

lemma members_ok_iff: "members_ok nt kvs \<longleftrightarrow> (\<forall>p \<in> set kvs. json_ok nt (snd p))"
proof (induction kvs)
  case (Cons p kvs)
  then show ?case by (cases p) auto
qed simp

text \<open>What is relied on of \<open>num_text\<close>: the text of a number that was read is a number, and its own text, or that of an
  infinity.\<close>

definition num_text_ok :: "(string \<Rightarrow> string) \<Rightarrow> bool" where
  "num_text_ok nt \<longleftrightarrow> (\<forall>s t u. number_token s = Some (t, u) \<longrightarrow>
     nt t \<in> set infinities \<or> number_token (nt t) = Some (nt t, []) \<and> nt (nt t) = nt t)"

text \<open>A value that was read, and what is left of it in print.\<close>

fun json_read :: "(string \<Rightarrow> string) \<Rightarrow> json \<Rightarrow> bool"
  and items_read :: "(string \<Rightarrow> string) \<Rightarrow> json list \<Rightarrow> bool"
  and members_read :: "(string \<Rightarrow> string) \<Rightarrow> (string \<times> json) list \<Rightarrow> bool" where
  "json_read nt (JNum t) = (t \<in> set infinities \<or> number_token t = Some (t, []) \<and> nt t = t)"
| "json_read nt (JArr vs) = items_read nt vs"
| "json_read nt (JObj kvs) = (obj_build kvs = kvs \<and> members_read nt kvs)"
| "json_read nt v = True"
| "items_read nt [] = True"
| "items_read nt (v # vs) = (json_read nt v \<and> items_read nt vs)"
| "members_read nt [] = True"
| "members_read nt ((k, v) # kvs) = (json_read nt v \<and> members_read nt kvs)"

fun printed_value :: "json \<Rightarrow> json"
  and printed_items :: "json list \<Rightarrow> json list"
  and printed_members :: "(string \<times> json) list \<Rightarrow> (string \<times> json) list" where
  "printed_value (JNum t) = (if t \<in> set infinities then JNull else JNum t)"
| "printed_value (JArr vs) = JArr (printed_items vs)"
| "printed_value (JObj kvs) = JObj (printed_members kvs)"
| "printed_value v = v"
| "printed_items [] = []"
| "printed_items (v # vs) = printed_value v # printed_items vs"
| "printed_members [] = []"
| "printed_members ((k, v) # kvs) = (k, printed_value v) # printed_members kvs"

lemma members_read_iff: "members_read nt kvs \<longleftrightarrow> (\<forall>p \<in> set kvs. json_read nt (snd p))"
proof (induction kvs)
  case (Cons p kvs)
  then show ?case by (cases p) auto
qed simp

lemma printed_keys: "map fst (printed_members kvs) = map fst kvs"
proof (induction kvs)
  case (Cons p kvs)
  then show ?case by (cases p) simp
qed simp

lemma printed_prints:
  "json_print g ind (printed_value v) = json_print g ind v"
  "print_items g ind (printed_items vs) = print_items g ind vs"
  "print_members g ind (printed_members ms) = print_members g ind ms"
proof (induction g ind v and g ind vs and g ind ms rule: json_print_print_items_print_members.induct)
  case (5 g ind xs)
  then show ?case by (cases xs) simp_all
next
  case (6 g ind ms)
  then show ?case by (cases ms rule: printed_members.cases) simp_all
next
  case (8 g ind v vs)
  then show ?case by (cases vs) simp_all
next
  case (10 g ind k v ms)
  then show ?case by (cases ms rule: printed_members.cases) simp_all
qed simp_all

lemma obj_sorted_keys: "map fst xs = map fst ys \<Longrightarrow> obj_sorted xs \<longleftrightarrow> obj_sorted ys"
proof -
  have s: "sorted_wrt (\<lambda>p q. \<not> goes_before (fst q) (fst p)) kvs \<longleftrightarrow> sorted_wrt (\<lambda>a b. \<not> goes_before b a) (map fst kvs)"
    for kvs :: "(string \<times> 'c) list" by (simp add: sorted_wrt_map)
  show "map fst xs = map fst ys \<Longrightarrow> ?thesis" unfolding obj_sorted_def s by simp
qed

lemma printed_ok:
  "json_read nt v \<Longrightarrow> json_ok nt (printed_value v)"
  "items_read nt vs \<Longrightarrow> items_ok nt (printed_items vs)"
  "members_read nt ms \<Longrightarrow> members_ok nt (printed_members ms)"
proof (induction nt v and nt vs and nt ms rule: json_read_items_read_members_read.induct)
  case (3 nt kvs)
  then have "obj_sorted kvs" using obj_sorted_build [of kvs] by simp
  then have "obj_build (printed_members kvs) = printed_members kvs"
    using obj_sorted_keys [OF printed_keys [of kvs]] by (simp add: obj_build_sorted_id)
  then show ?case using 3 by simp
qed auto

lemma ok_is_printed:
  "json_ok nt v \<Longrightarrow> printed_value v = v" "items_ok nt vs \<Longrightarrow> printed_items vs = vs" "members_ok nt ms \<Longrightarrow> printed_members ms = ms"
  by (induction nt v and nt vs and nt ms rule: json_ok_items_ok_members_ok.induct) (auto dest: literal_finite)

lemma num_text_read: "num_text_ok nt \<Longrightarrow> number_token s = Some (t, u) \<Longrightarrow> json_read nt (JNum (nt t))"
  unfolding num_text_ok_def by auto

lemma parsed_read:
  assumes "num_text_ok nt"
  shows "parse_value nt n s = Some (v, u) \<Longrightarrow> json_read nt v"
    and "parse_items nt n s = Some (vs, u) \<Longrightarrow> items_read nt vs"
    and "parse_members nt n s = Some (ms, u) \<Longrightarrow> members_read nt ms"
proof (induction n arbitrary: s v vs ms u)
  case (Suc n)
  {
    case 1
    then show ?case
    proof (cases rule: parse_value_Some)
      case (Members t ms)
      from Suc.IH(3) [OF Members(3)] have "members_read nt (obj_build ms)" using set_obj_build [of ms] by (meson members_read_iff subsetD)
      with Members(4) show ?thesis by (simp add: obj_build_idem)
    next
      case (Word c t)
      then show ?thesis using num_text_read [OF assms] by (auto simp: parse_word_def simp del: json_read.simps(1) split: option.splits)
    next
      case (NoMembers t)
      then show ?thesis by (simp add: obj_build_def)
    qed (auto dest: Suc.IH(2))
  next
    case 2
    then show ?case by (cases rule: parse_items_Some) (auto dest: Suc.IH(1,2))
  next
    case 3
    then show ?case by (cases rule: parse_members_Some) (auto dest: Suc.IH(1,3))
  }
qed auto

text \<open>Whatever text \<open>JSON.parse\<close> accepts - with any blanks, escapes, spellings of numbers, repeated or unordered
  members - the value it gives is one that prints: its text, plain or indented by any width, is accepted again and
  gives the same value but for the infinities, which are null then.\<close>

lemma parsed_values_print:
  assumes "num_text_ok nt" and "json_parse nt s = Some v"
  shows "json_ok nt (printed_value v) \<and> json_parse nt (json_print g 0 v) = Some (printed_value v)"
proof -
  have "json_ok nt (printed_value v)" using assms(2) parsed_read(1) [OF assms(1)] printed_ok(1)
    by (auto simp: json_parse_def split: option.splits if_splits)
  then show ?thesis using json_roundtrip [of nt "printed_value v" g] by (simp add: printed_prints)
qed

text \<open>A literal that was read is read again on its own.\<close>

definition same_start :: "string \<Rightarrow> string \<Rightarrow> bool" where
  "same_start b c \<longleftrightarrow> b = [] \<or> c \<noteq> [] \<and> hd b = hd c"

lemma digits_again: "takeWhile is_digit (a @ c) = a \<Longrightarrow> same_start b c \<Longrightarrow> takeWhile is_digit (a @ b) = a \<and> dropWhile is_digit (a @ b) = b"
proof -
  assume a: "takeWhile is_digit (a @ c) = a" and b: "same_start b c"
  have "\<forall>x \<in> set a. is_digit x" using a by (metis set_takeWhileD)
  moreover from this have "c = [] \<or> \<not> is_digit (hd c)" using a by (auto simp: takeWhile_append2 takeWhile_eq_Nil_iff)
  ultimately show ?thesis using b by (auto simp: same_start_def takeWhile_append2 dropWhile_append2 takeWhile_eq_Nil_iff dropWhile_eq_self_iff)
qed

lemma int_token_again: "int_token (j @ c) = Some (j, c) \<Longrightarrow> same_start b c \<Longrightarrow> int_token (j @ b) = Some (j, b)"
  by (cases j) (auto simp: int_token_def digits_again split: list.splits if_splits)

lemma frac_token_again: "frac_token (h @ c) = Some (h, c) \<Longrightarrow> same_start b c \<Longrightarrow> frac_token (h @ b) = Some (h, b)"
proof (cases h)
  case Nil
  assume "frac_token (h @ c) = Some (h, c)" "same_start b c"
  then show ?thesis using Nil by (cases b; cases c) (auto simp: frac_token_def same_start_def split: if_splits)
next
  case (Cons x t)
  assume a: "frac_token (h @ c) = Some (h, c)" "same_start b c"
  then have "takeWhile is_digit (t @ c) = t" using Cons by (auto simp: frac_token_def split: if_splits)
  from digits_again [OF this a(2)] a(1) Cons show ?thesis by (auto simp: frac_token_def split: if_splits)
qed

lemma exp_token_again: "exp_token (k @ c) = Some (k, c) \<Longrightarrow> exp_token k = Some (k, [])"
proof -
  assume k: "exp_token (k @ c) = Some (k, c)"
  show ?thesis
  proof (cases k)
    case (Cons x u)
    obtain sg y where e: "exp_sign (u @ c) = (sg, y)" by fastforce
    have p: "sg @ y = u @ c" "sg @ takeWhile is_digit y = u" "takeWhile is_digit y \<noteq> []" "x = CHR ''e'' \<or> x = CHR ''E''"
      using k e Cons by (auto simp: exp_token_def exp_sign_def split: list.splits if_splits)
    then have y: "y = takeWhile is_digit y @ c" by (metis append_assoc same_append_eq)
    have d: "takeWhile is_digit (takeWhile is_digit y) = takeWhile is_digit y" "dropWhile is_digit (takeWhile is_digit y) = []"
      by (auto simp: takeWhile_eq_all_conv dropWhile_eq_Nil_conv dest: set_takeWhileD)
    have "exp_sign u = (sg, takeWhile is_digit y)"
      using e p y by (auto simp: exp_sign_def split: list.splits if_splits)
    then show ?thesis using Cons p d by (auto simp: exp_token_def)
  qed (simp add: exp_token_def)
qed

lemma same_start_append: "same_start a (a @ b)"
  by (auto simp: same_start_def)

lemma token_again:
  assumes "number_token s = Some (t, u)"
  shows "number_token t = Some (t, [])"
proof -
  obtain sg s1 j s2 h s3 k where p: "sign_token s = (sg, s1)" "int_token s1 = Some (j, s2)" "frac_token s2 = Some (h, s3)"
    "exp_token s3 = Some (k, u)" "t = sg @ j @ h @ k"
    using assms by (auto simp: number_token_def split: prod.splits option.splits)
  have s: "s1 = j @ s2" "j \<noteq> []" using p(2) by (auto simp: int_token_def split: list.splits if_splits)
  have s2: "s2 = h @ s3" using p(3) by (auto simp: frac_token_def split: list.splits if_splits)
  have s3: "s3 = k @ u" using p(4) by (auto simp: exp_token_def exp_sign_def split: list.splits if_splits prod.splits)
  have "sign_token (sg @ j @ h @ k) = (sg, j @ h @ k)"
    using p(1) s by (cases j) (auto simp: sign_token_def split: list.splits if_splits)
  moreover have "int_token (j @ h @ k) = Some (j, h @ k)"
    using int_token_again [of j s2 "h @ k"] p(2) s s2 s3 same_start_append [of "h @ k" u] by simp
  moreover have "frac_token (h @ k) = Some (h, k)"
    using frac_token_again [of h s3 k] p(3) s2 s3 same_start_append [of k u] by simp
  moreover have "exp_token k = Some (k, [])" using exp_token_again [of k u] p(4) s3 by simp
  ultimately show ?thesis using p(5) by (simp add: number_token_def)
qed

text \<open>In particular a \<open>num_text\<close> that keeps every literal is one, and one that normalises some and overflows at others, as
  JavaScript does.\<close>

lemma num_text_ok_id: "num_text_ok (\<lambda>t. t)"
  using token_again by (auto simp: num_text_ok_def)

definition sample_num :: "string \<Rightarrow> string" where
  "sample_num t = (if t = ''1e400'' then ''Infinity'' else if t = ''1.0'' then ''1'' else t)"

lemma sample_num_ok: "num_text_ok sample_num"
proof -
  have "number_token ''1'' = Some (''1'', [])" by code_simp
  then show ?thesis using token_again by (auto simp: num_text_ok_def sample_num_def infinities_def)
qed

section \<open>Objects whose members are not indices\<close>

lemma obj_build_plain:
  assumes "distinct (map fst kvs)" and "\<forall>p \<in> set kvs. \<not> is_index (fst p)"
  shows "obj_build kvs = kvs"
proof (rule obj_build_sorted_id)
  have "sorted_wrt (\<lambda>p q. \<not> goes_before (fst q) (fst p)) kvs"
    using assms(2) by (induction kvs) (auto simp: goes_before_def)
  then show "obj_sorted kvs" using assms(1) by (simp add: obj_sorted_def)
qed

lemma not_index_letter: "\<not> is_digit c \<Longrightarrow> \<not> is_index (c # s)"
  by (simp add: is_index_def all_digits_def)

lemma distinct_subseq: "subseq xs ys \<Longrightarrow> distinct ys \<Longrightarrow> distinct xs"
  by (induction rule: list_emb.induct) (auto dest: list_emb_set)

lemma plain_object:
  assumes "subseq (map fst kvs) ks" and "distinct ks" and "list_all (\<lambda>k. \<not> is_index k) ks" and "members_ok nt kvs"
  shows "json_ok nt (JObj kvs)"
proof -
  have "distinct (map fst kvs)" using assms(1, 2) by (rule distinct_subseq)
  moreover have "\<forall>p \<in> set kvs. \<not> is_index (fst p)"
    using list_emb_set [OF assms(1)] assms(3) by (auto simp: list_all_iff)
  ultimately show ?thesis using assms(4) by (simp add: obj_build_plain)
qed

end
