(* ===== verification/StepView.thy ===== *)
theory StepView
  imports Json LogEntries ApiTypes
begin

text \<open>
  A tool call of an answer as the frontend shows it: reading its arguments, its result and its log entries
  (\<open>components/chat-messages/stepHelpers.ts\<close>, \<open>parseCommand\<close> of \<open>components/LogEntries.tsx\<close>, \<open>formatArgs\<close> of
  \<open>chat-messages/utils.ts\<close>), the command line of the shell window (\<open>pages/chat-winxp/WinXpCmdTerminal.tsx\<close>) and the panel
  of a step with the polling of its log (\<open>chat-messages/StepPanel.tsx\<close>). \<open>num_text\<close> is the text of a number, as in \<open>Json\<close>;
  \<open>time_of\<close> is the instant a date denotes.
\<close>

section \<open>Reading values\<close>

text \<open>What reading a property gives: nothing when it throws, \<open>Some None\<close> for \<open>undefined\<close>. The properties that are read
  are not ones that numbers, texts or arrays have.\<close>

fun js_field :: "string \<Rightarrow> json \<Rightarrow> json option option" where
  "js_field k JNull = None"
| "js_field k (JObj kvs) = Some (map_of kvs k)"
| "js_field k _ = Some None"

fun truthy_json :: "json \<Rightarrow> bool" where
  "truthy_json JNull = False"
| "truthy_json (JBool b) = b"
| "truthy_json (JNum t) = (t \<noteq> ''0'')"
| "truthy_json (JStr s) = (s \<noteq> [])"
| "truthy_json _ = True"

text \<open>\<open>a || b\<close> and \<open>a ?? b\<close>.\<close>

definition js_or :: "json option \<Rightarrow> json option \<Rightarrow> json option" where
  "js_or a b = (case a of Some v \<Rightarrow> if truthy_json v then a else b | None \<Rightarrow> b)"

definition js_nullish :: "json option \<Rightarrow> json option \<Rightarrow> json option" where
  "js_nullish a b = (if a = None \<or> a = Some JNull then b else a)"

text \<open>\<open>String(v)\<close>, which \<open>JSON.parse\<close> applies to what it is given.\<close>

fun json_to_string :: "json \<Rightarrow> string" and items_to_string :: "json list \<Rightarrow> string" where
  "json_to_string JNull = ''null''"
| "json_to_string (JBool b) = (if b then ''true'' else ''false'')"
| "json_to_string (JNum t) = t"
| "json_to_string (JStr s) = s"
| "json_to_string (JArr vs) = items_to_string vs"
| "json_to_string (JObj kvs) = ''[object Object]''"
| "items_to_string [] = []"
| "items_to_string (v # vs) =
     (if v = JNull then [] else json_to_string v) @ (if vs = [] then [] else '','' @ items_to_string vs)"

text \<open>\<open>Object.entries\<close>; nothing when it throws.\<close>

fun js_entries :: "json \<Rightarrow> (string \<times> json) list option" where
  "js_entries JNull = None"
| "js_entries (JObj kvs) = Some kvs"
| "js_entries (JArr vs) = Some (zip (map nat_str [0..<length vs]) vs)"
| "js_entries (JStr s) = Some (zip (map nat_str [0..<length s]) (map (\<lambda>c. JStr [c]) s))"
| "js_entries _ = Some []"

text \<open>\<open>typeof v === 'string' ? v : JSON.stringify(v)\<close>.\<close>

fun value_text :: "json \<Rightarrow> string" where
  "value_text (JStr s) = s"
| "value_text v = json_stringify v"

section \<open>The command of a log entry\<close>

definition parsed_args_command :: "(string \<Rightarrow> string) \<Rightarrow> json \<Rightarrow> json option option" where
  "parsed_args_command num_text args =
     (case json_parse num_text (json_to_string args) of
        None \<Rightarrow> None
      | Some v \<Rightarrow>
          (case (js_field ''command'' v, js_field ''task'' v) of
             (Some c, Some t) \<Rightarrow> Some (js_or c (js_or t None))
           | _ \<Rightarrow> None))"

definition step_title :: "json \<Rightarrow> string \<Rightarrow> json option" where
  "step_title st content =
     (case (js_field ''label'' st, js_field ''tool'' st) of
        (Some l, Some t) \<Rightarrow> js_nullish l (js_nullish t (Some (JStr content)))
      | _ \<Rightarrow> None)"

definition parseCommand :: "(string \<Rightarrow> string) \<Rightarrow> string \<Rightarrow> json" where
  "parseCommand num_text content =
     (case json_parse num_text content of
        None \<Rightarrow> JStr content
      | Some st \<Rightarrow>
          (case js_field ''args'' st of
             None \<Rightarrow> JStr content
           | Some a \<Rightarrow>
               (case (case js_or a None of None \<Rightarrow> Some None | Some args \<Rightarrow> parsed_args_command num_text args) of
                  None \<Rightarrow> JStr content
                | Some (Some c) \<Rightarrow> c
                | Some None \<Rightarrow> or_else (step_title st content) (JStr content))))"

section \<open>Summary, plan and prompt of a step\<close>

definition cut_text :: "nat \<Rightarrow> nat \<Rightarrow> string \<Rightarrow> string \<Rightarrow> string" where
  "cut_text limit keep mark s = (if limit < length s then take keep s @ mark else s)"

definition hidden_key :: "string \<Rightarrow> bool" where
  "hidden_key k \<longleftrightarrow> k = ''task'' \<or> k = ''prompt''"

definition stepArgsSummary :: "(string \<Rightarrow> string) \<Rightarrow> step \<Rightarrow> string" where
  "stepArgsSummary num_text s =
     (case Option.bind (json_parse num_text (step_args s)) js_entries of
        None \<Rightarrow> []
      | Some kvs \<Rightarrow>
          (let shown = filter (\<lambda>p. \<not> hidden_key (fst p)) kvs
           in if shown = [] then []
              else join '', '' (map (\<lambda>p. cut_text 40 37 ''...'' (value_text (snd p))) (take 3 shown))))"

definition planIdFromStepArgs :: "(string \<Rightarrow> string) \<Rightarrow> step \<Rightarrow> json option" where
  "planIdFromStepArgs num_text s =
     (if tool s \<notin> set [''plan_run'', ''plan_create'', ''plan_update'', ''plan_get''] then None
      else case json_parse num_text (str_or (or_else (step_result s) []) ''{}'') of
          None \<Rightarrow> None
        | Some v \<Rightarrow>
            (case (js_field ''id'' v, js_field ''planId'' v, js_field ''plan_id'' v) of
               (Some i, Some p, Some q) \<Rightarrow> js_or i (js_or p q)
             | _ \<Rightarrow> None))"

definition extractStepPrompt :: "(string \<Rightarrow> string) \<Rightarrow> step \<Rightarrow> json" where
  "extractStepPrompt num_text s =
     (case json_parse num_text (step_args s) of
        None \<Rightarrow> JStr []
      | Some v \<Rightarrow>
          (case (js_field ''task'' v, js_field ''prompt'' v) of
             (Some t, Some p) \<Rightarrow> or_else (js_nullish t (js_nullish p (Some (JStr [])))) (JStr [])
           | _ \<Rightarrow> JStr []))"

definition formatArgs :: "(string \<Rightarrow> string) \<Rightarrow> string \<Rightarrow> string" where
  "formatArgs num_text raw = (case json_parse num_text raw of Some v \<Rightarrow> json_print 2 0 v | None \<Rightarrow> raw)"

section \<open>A step without a log\<close>

fun step_status_name :: "step_status \<Rightarrow> string" where
  "step_status_name StepRunning = ''running''"
| "step_status_name StepCompleted = ''completed''"
| "step_status_name StepError = ''error''"
| "step_status_name StepCancelled = ''cancelled''"

text \<open>\<open>JSON.stringify(step)\<close>, with the members in the order of the server's answer; one that is not there is left out.\<close>

definition opt_member :: "string \<Rightarrow> string option \<Rightarrow> (string \<times> json) list" where
  "opt_member k x = (case x of Some s \<Rightarrow> [(k, JStr s)] | None \<Rightarrow> [])"

definition step_json :: "step \<Rightarrow> json" where
  "step_json s = JObj
     ([(''id'', JStr (step_id s)), (''tool'', JStr (tool s)), (''label'', JStr (step_label s)), (''icon'', JStr (icon s)),
       (''args'', JStr (step_args s)), (''status'', JStr (step_status_name (step_state s)))]
      @ opt_member ''result'' (step_result s) @ opt_member ''logId'' (log_id s)
      @ opt_member ''modelId'' (step_model_id s) @ opt_member ''modelName'' (step_model_name s)
      @ opt_member ''presetId'' (step_preset_id s) @ opt_member ''presetName'' (step_preset_name s)
      @ opt_member ''modelRole'' (step_model_role s)
      @ (case content_offset s of Some n \<Rightarrow> [(''contentOffset'', JNum (int_str n))] | None \<Rightarrow> [])
      @ [(''startedAt'', JStr (started_at s))] @ opt_member ''finishedAt'' (finished_at s))"

definition stepToEntries :: "(string \<Rightarrow> int) \<Rightarrow> int \<Rightarrow> step \<Rightarrow> log_entry list" where
  "stepToEntries time_of now s =
     (let ts = (if started_at s \<noteq> [] then time_of (started_at s) else now);
          endTs = (case finished_at s of Some f \<Rightarrow> if f \<noteq> [] then time_of f else ts | None \<Rightarrow> ts);
          res = or_else (step_result s) []
      in \<lparr>le_type = ''command'', le_content = json_stringify (step_json s), le_timestamp = ts\<rparr>
         # (if res \<noteq> [] then [\<lparr>le_type = (if step_state s = StepError then ''error'' else ''output''),
              le_content = res, le_timestamp = endTs\<rparr>] else []))"

section \<open>The command line of the shell window\<close>

record session_log =
  sl_id :: string
  sl_connectionId :: string
  sl_agentName :: string
  sl_host :: "string option"
  sl_prompt :: string
  sl_running :: bool
  sl_presetName :: "string option"
  sl_modelName :: "string option"
  sl_modelRole :: "string option"
  sl_entries :: "log_entry list"
  sl_startedAt :: int
  sl_finishedAt :: "int option"

definition safe_char :: "char \<Rightarrow> bool" where
  "safe_char c \<longleftrightarrow> is_word c \<or> c \<in> set ''-./@''"

definition quote :: "string \<Rightarrow> string" where
  "quote s =
     (if s \<noteq> [] \<and> list_all safe_char s then s
      else [CHR 0x22] @ concat (map (\<lambda>c. if c = CHR 0x5C \<or> c = CHR 0x22 then [CHR 0x5C, c] else [c]) s) @ [CHR 0x22])"

fun string_arg :: "(string \<times> json) list \<Rightarrow> string list \<Rightarrow> string option" where
  "string_arg kvs [] = None"
| "string_arg kvs (k # ks) =
     (case map_of kvs k of Some (JStr v) \<Rightarrow> if v \<noteq> [] then Some v else string_arg kvs ks | _ \<Rightarrow> string_arg kvs ks)"

definition parseArg :: "(string \<Rightarrow> string) \<Rightarrow> string \<Rightarrow> string list \<Rightarrow> string option" where
  "parseArg num_text raw keys =
     (case json_parse num_text raw of Some (JObj kvs) \<Rightarrow> string_arg kvs keys | _ \<Rightarrow> None)"

definition formatFlags :: "(string \<Rightarrow> string) \<Rightarrow> step \<Rightarrow> string" where
  "formatFlags num_text s =
     (case Option.bind (json_parse num_text (step_args s)) js_entries of
        None \<Rightarrow> []
      | Some kvs \<Rightarrow> join '' '' (map (\<lambda>(k, v). ''--'' @ k @ ''='' @ quote (cut_text 120 117 [ellipsis] (value_text v)))
          (filter (\<lambda>p. \<not> hidden_key (fst p)) kvs)))"

definition formatArgsAsObject :: "(string \<Rightarrow> string) \<Rightarrow> step \<Rightarrow> string" where
  "formatArgsAsObject num_text s =
     (case json_parse num_text (step_args s) of Some v \<Rightarrow> json_stringify v | None \<Rightarrow> ''{}'')"

definition is_ssh_like :: "step \<Rightarrow> bool" where
  "is_ssh_like s \<longleftrightarrow> starts_with ''ssh'' (map to_lower (tool s)) \<or> tool s = ''shell''"

definition buildFullCommand :: "(string \<Rightarrow> string) \<Rightarrow> step \<Rightarrow> session_log option \<Rightarrow> string" where
  "buildFullCommand num_text s lg =
     (if is_ssh_like s then
        (let host = str_or (or_else (Option.bind lg sl_host) []) (or_else (parseArg num_text (step_args s) [''host'']) ''host'');
             user = or_else (parseArg num_text (step_args s) [''user'', ''username'']) ''user'';
             login = ''ssh '' @ user @ ''@'' @ host
         in case parseArg num_text (step_args s) [''command'', ''cmd'', ''shell''] of
              Some cmd \<Rightarrow> login @ '' '' @ quote cmd
            | None \<Rightarrow> login)
      else let flags = formatFlags num_text s in if flags \<noteq> [] then tool s @ '' '' @ flags else tool s)"

text \<open>What the shell window shows: the command line, the comment with the arguments, then the log, the result or nothing,
  and whether the step runs. A read of the log that ends after the window moved on to another log is dropped.\<close>

definition shell_status_running :: "step \<Rightarrow> session_log option \<Rightarrow> bool" where
  "shell_status_running s lg = (case lg of Some l \<Rightarrow> sl_running l | None \<Rightarrow> step_state s = StepRunning)"

definition shell_prompt_text :: "(string \<Rightarrow> string) \<Rightarrow> step \<Rightarrow> json" where
  "shell_prompt_text num_text s =
     or_else (js_or (Some (extractStepPrompt num_text s)) (js_or (Some (JStr (step_label s))) (Some (JStr (tool s))))) JNull"

definition shell_comment :: "(string \<Rightarrow> string) \<Rightarrow> step \<Rightarrow> string option" where
  "shell_comment num_text s =
     (if \<not> is_ssh_like s \<and> truthy_json (shell_prompt_text num_text s)
      then Some (''Skill: '' @ tool s @ '' '' @ formatArgsAsObject num_text s) else None)"

datatype shell_body = ShellGroups "log_group list" | ShellResult "(bool \<times> string)" | ShellNothing

definition renderEntries :: "session_log option \<Rightarrow> step \<Rightarrow> shell_body" where
  "renderEntries lg s =
     (let by_result = (case cmd_step_result (step_status_name (step_state s)) (or_else (step_result s) []) of
          Some r \<Rightarrow> ShellResult r | None \<Rightarrow> ShellNothing)
      in case lg of
          Some l \<Rightarrow> if sl_entries l \<noteq> [] then ShellGroups (groupCmdEntries (sl_entries l)) else by_result
        | None \<Rightarrow> by_result)"

definition shell_fetch_end :: "string option \<Rightarrow> step \<Rightarrow> session_log option \<Rightarrow> session_log option \<Rightarrow> session_log option" where
  "shell_fetch_end asked s answer lg = (if asked = log_id s \<and> answer \<noteq> None then answer else lg)"

section \<open>The panel of a step\<close>

record step_panel =
  sp_step :: step
  sp_log :: "session_log option"

definition panel_open :: "step \<Rightarrow> step_panel" where
  "panel_open s = \<lparr>sp_step = s, sp_log = None\<rparr>"

text \<open>Another step in the same panel, or the same one as it goes on.\<close>

definition panel_step :: "step \<Rightarrow> step_panel \<Rightarrow> step_panel" where
  "panel_step s p = (if log_id s \<noteq> log_id (sp_step p) then \<lparr>sp_step = s, sp_log = None\<rparr> else p\<lparr>sp_step := s\<rparr>)"

definition panel_has_log :: "step_panel \<Rightarrow> bool" where
  "panel_has_log p \<longleftrightarrow> or_else (log_id (sp_step p)) [] \<noteq> []"

definition fetchLog_begin :: "step_panel \<Rightarrow> string option" where
  "fetchLog_begin p = (if panel_has_log p then log_id (sp_step p) else None)"

definition fetchLog_end :: "session_log option \<Rightarrow> step_panel \<Rightarrow> step_panel" where
  "fetchLog_end answer p = (case answer of Some l \<Rightarrow> p\<lparr>sp_log := Some l\<rparr> | None \<Rightarrow> p)"

definition panel_polls :: "step_panel \<Rightarrow> bool" where
  "panel_polls p \<longleftrightarrow> panel_has_log p \<and>
     (step_state (sp_step p) = StepRunning \<or> (case sp_log p of Some l \<Rightarrow> sl_running l | None \<Rightarrow> True))"

text \<open>The prompt of the panel is that of the log when it has one; the body is the log's entries, or those of the step.\<close>

definition panel_prompt :: "(string \<Rightarrow> string) \<Rightarrow> step_panel \<Rightarrow> json" where
  "panel_prompt num_text p =
     or_else (js_or (map_option (\<lambda>l. JStr (sl_prompt l)) (sp_log p)) (Some (extractStepPrompt num_text (sp_step p)))) JNull"

definition panel_entries :: "(string \<Rightarrow> int) \<Rightarrow> int \<Rightarrow> step_panel \<Rightarrow> log_entry list" where
  "panel_entries time_of now p =
     (if panel_has_log p then (case sp_log p of Some l \<Rightarrow> sl_entries l | None \<Rightarrow> [])
      else stepToEntries time_of now (sp_step p))"

definition panel_running :: "step_panel \<Rightarrow> bool" where
  "panel_running p =
     (if panel_has_log p then
        (case sp_log p of Some l \<Rightarrow> sl_running l \<or> step_state (sp_step p) = StepRunning | None \<Rightarrow> True)
      else step_state (sp_step p) = StepRunning \<and> or_else (step_result (sp_step p)) [] = [])"

definition PanelBody :: "(string \<Rightarrow> int) \<Rightarrow> int \<Rightarrow> string \<Rightarrow> step_panel \<Rightarrow> session_view option" where
  "PanelBody time_of now prompt p =
     SessionView now (panel_entries time_of now p)
       (if panel_has_log p then or_else (Option.bind (sp_log p) sl_host) [] else [])
       (if panel_has_log p then (case sp_log p of Some l \<Rightarrow> sl_agentName l | None \<Rightarrow> []) else [])
       (panel_running p) True prompt"

definition panel_no_entries :: "string \<Rightarrow> step_panel \<Rightarrow> bool" where
  "panel_no_entries prompt p \<longleftrightarrow> panel_has_log p \<and> sp_log p \<noteq> None \<and> sl_entries (the (sp_log p)) = []
     \<and> \<not> panel_running p \<and> prompt = []"

section \<open>Lemmas on steps\<close>

definition step_keys :: "string list" where
  "step_keys = [''id'', ''tool'', ''label'', ''icon'', ''args'', ''status'', ''result'', ''logId'', ''modelId'', ''modelName'',
     ''presetId'', ''presetName'', ''modelRole'', ''contentOffset'', ''startedAt'', ''finishedAt'']"

lemma step_keys_ok: "distinct step_keys \<and> list_all (\<lambda>k. \<not> is_index k) step_keys"
  unfolding step_keys_def by code_simp

lemma subseq_opt: "subseq ks js \<Longrightarrow> subseq (map fst (opt_member k x) @ ks) (k # js)"
  by (cases x) (auto simp: opt_member_def)

definition step_members :: "step \<Rightarrow> (string \<times> json) list" where
  "step_members s = (case step_json s of JObj kvs \<Rightarrow> kvs | _ \<Rightarrow> [])"

lemma step_json_members: "step_json s = JObj (step_members s)"
  by (simp add: step_members_def step_json_def)

lemma step_members_keys: "subseq (map fst (step_members s)) step_keys"
proof -
  have n: "subseq ks js \<Longrightarrow> subseq (map fst (case x of Some n \<Rightarrow> [(k, f n)] | None \<Rightarrow> []) @ ks) (k # js)"
    for ks js and k :: string and x :: "int option" and f :: "int \<Rightarrow> json"
    by (cases x) auto
  have e: "subseq (map fst (opt_member k x)) [k]" for k x
    using subseq_opt [of "[]" "[]" k x] by simp
  show ?thesis
    unfolding step_members_def step_json_def step_keys_def json.case map_append list.map fst_conv append_Cons append_Nil
    by (intro subseq_Cons2 subseq_opt n e)
qed

lemma step_members_build: "obj_build (step_members s) = step_members s"
proof (rule obj_build_plain)
  show "distinct (map fst (step_members s))" using step_members_keys step_keys_ok distinct_subseq by metis
  have "set (map fst (step_members s)) \<subseteq> set step_keys" using list_emb_set [OF step_members_keys [of s]] by auto
  then show "\<forall>p \<in> set (step_members s). \<not> is_index (fst p)" using step_keys_ok by (auto simp: list_all_iff)
qed

lemma nat_str_head: "nat_str n = ''0'' \<or> (\<exists>c t. nat_str n = c # t \<and> c \<noteq> CHR ''0'')"
proof (induction n rule: nat_str.induct)
  case (1 n)
  show ?case
  proof (cases "n < 10")
    case True
    have "\<forall>d \<in> set [0..<10]. digit_char d = CHR ''0'' \<longleftrightarrow> d = 0" by code_simp
    moreover have "nat_str n = [digit_char n]" using True by (subst nat_str.simps) simp
    ultimately show ?thesis using True by (cases "n = 0") auto
  next
    case False
    then have "n div 10 \<noteq> 0" by simp
    moreover have "nat_str 0 = ''0''" by code_simp
    ultimately have "nat_str (n div 10) \<noteq> ''0''" using nat_str_inject [of "n div 10" 0] by metis
    with "1.IH" False show ?thesis by (subst nat_str.simps) auto
  qed
qed

lemma int_str_token: "number_token (int_str n) = Some (int_str n, [])"
proof -
  have d: "list_all is_digit (nat_str m)" for m using all_digits_nat_str [of m] by (simp add: all_digits_def)
  have i: "int_token (nat_str m) = Some (nat_str m, [])" for m
    using nat_str_head [of m] d [of m] by (auto simp: int_token_def list_all_iff dropWhile_eq_Nil_conv takeWhile_eq_all_conv)
  have s: "sign_token (nat_str m) = ([], nat_str m)" for m
    using d [of m] by (cases "nat_str m") (auto simp: sign_token_def is_digit_def)
  have n: "sign_token (CHR ''-'' # t) = (''-'', t)" for t by (simp add: sign_token_def)
  show ?thesis
    by (cases "n < 0") (simp_all add: number_token_def int_str_def s i n frac_token_def exp_token_def)
qed

text \<open>What is relied on: the text of the offset of a step is the offset's own.\<close>

definition offset_text_ok :: "(string \<Rightarrow> string) \<Rightarrow> step \<Rightarrow> bool" where
  "offset_text_ok num_text s \<longleftrightarrow> (case content_offset s of Some n \<Rightarrow> num_text (int_str n) = int_str n | None \<Rightarrow> True)"

lemma step_json_ok:
  assumes "offset_text_ok nt s"
  shows "json_ok nt (step_json s)"
proof -
  have o: "\<forall>p \<in> set (opt_member k x). json_ok nt (snd p)" for k x by (cases x) (simp_all add: opt_member_def)
  have "members_ok nt (step_members s)"
    using assms by (auto simp: members_ok_iff step_members_def step_json_def ball_Un o offset_text_ok_def int_str_token
        split: option.splits dest: bspec [OF o])
  then show ?thesis by (simp add: step_json_members step_members_build)
qed

lemma step_json_read: "offset_text_ok nt s \<Longrightarrow> json_parse nt (json_stringify (step_json s)) = Some (JObj (step_members s))"
  using json_roundtrip [OF step_json_ok, of nt s 0] by (simp add: json_stringify_def step_json_members)

lemma step_fields: "map_of (step_members s) ''args'' = Some (JStr (step_args s))"
  "map_of (step_members s) ''label'' = Some (JStr (step_label s))" "map_of (step_members s) ''tool'' = Some (JStr (tool s))"
  by (simp_all add: step_members_def step_json_def)

lemma parse_command_args:
  assumes "json_parse nt content = Some (JObj st)" and "map_of st ''args'' = Some (JStr a)"
    and "json_parse nt a = Some (JObj kvs)" and "map_of kvs ''command'' = Some (JStr c)" and "c \<noteq> []"
  shows "parseCommand nt content = JStr c"
proof -
  have "a \<noteq> []" using assms(3) by (auto simp: json_parse_def json_fuel_def skip_ws_def eval_nat_numeral)
  then show ?thesis using assms by (simp add: parseCommand_def js_or_def parsed_args_command_def)
qed

text \<open>Quoting an argument loses nothing.\<close>

lemma quote_inject: "quote s = quote t \<longleftrightarrow> s = t"
proof
  have inj: "concat (map (\<lambda>c. if c = CHR 0x5C \<or> c = CHR 0x22 then [CHR 0x5C, c] else [c]) a)
      = concat (map (\<lambda>c. if c = CHR 0x5C \<or> c = CHR 0x22 then [CHR 0x5C, c] else [c]) b) \<Longrightarrow> a = b" for a b :: string
  proof (induction a arbitrary: b)
    case Nil
    then show ?case by (cases b) (auto split: if_splits)
  next
    case (Cons x a)
    then show ?case by (cases b) (auto split: if_splits)
  qed
  have "\<not> safe_char CHR 0x22" by code_simp
  moreover assume "quote s = quote t"
  ultimately show "s = t" by (auto simp: quote_def split: if_splits dest!: inj)
qed simp

section \<open>What a step shows\<close>

lemma entries_group:
  "groupEntries (stepToEntries time_of now s) =
     [GroupRun (hd (stepToEntries time_of now s))
        (if or_else (step_result s) [] = [] then None else Some (stepToEntries time_of now s ! 1))]"
  by (simp add: stepToEntries_def Let_def is_answer_def)

lemma entries_content: "le_content (hd (stepToEntries time_of now s)) = json_stringify (step_json s)"
  by (simp add: stepToEntries_def Let_def)

text \<open>A tool call that ran a command shows that command everywhere: in the row of any log entry that reads as the
  step, the server's as well as the one the page makes for a step without a log; that one is a single run, answered by the
  result when there is one; and the shell window's line for a remote shell ends with the command, quoted.\<close>

theorem step_command_is_shown:
  assumes "offset_text_ok nt s" and "json_parse nt (step_args s) = Some (JObj kvs)"
    and "map_of kvs ''command'' = Some (JStr c)" and "c \<noteq> []"
    and "json_parse nt content = Some (JObj st)" and "map_of st ''args'' = Some (JStr (step_args s))"
  shows "parseCommand nt content = JStr c
    \<and> parseCommand nt (le_content (hd (stepToEntries time_of now s))) = JStr c
    \<and> groupEntries (stepToEntries time_of now s) =
        [GroupRun (hd (stepToEntries time_of now s))
           (if or_else (step_result s) [] = [] then None else Some (stepToEntries time_of now s ! 1))]
    \<and> (is_ssh_like s \<longrightarrow> (\<exists>login. buildFullCommand nt s lg = ''ssh '' @ login @ '' '' @ quote c))"
proof -
  have "parseArg nt (step_args s) [''command'', ''cmd'', ''shell''] = Some c" using assms(2-4) by (simp add: parseArg_def)
  then have "is_ssh_like s \<longrightarrow> (\<exists>login. buildFullCommand nt s lg = ''ssh '' @ login @ '' '' @ quote c)"
    by (auto simp: buildFullCommand_def Let_def)
  then show ?thesis
    using parse_command_args [OF assms(5,6,2,3,4)]
      parse_command_args [OF step_json_read [OF assms(1)] step_fields(1) assms(2,3,4)]
    by (simp add: entries_content entries_group)
qed

definition sample_step :: step where
  "sample_step = \<lparr>step_id = ''7'', tool = ''shell'', step_label = ''list'', icon = ''terminal'',
     step_args = ''{\"command\":\"ls\"}'', step_state = StepCompleted, step_result = Some ''ok'', log_id = None, step_model_id = None,
     step_model_name = None, step_preset_id = None, step_preset_name = None, step_model_role = None, content_offset = None,
     started_at = ''t'', finished_at = None\<rparr>"

lemma sample_args: "json_parse (\<lambda>t. t) ''{\"command\":\"ls\"}'' = Some (JObj [(''command'', JStr ''ls'')])"
  using json_roundtrip [of "\<lambda>t. t" "JObj [(''command'', JStr ''ls'')]" 0]
  by (simp add: json_quote_def json_break_def json_colon_def json_escape_def obj_build_def obj_put_def)

theorem step_command_is_shown_witness:
  "parseCommand (\<lambda>t. t) (le_content (hd (stepToEntries (\<lambda>_. 0) 0 sample_step))) = JStr ''ls''
   \<and> (\<exists>login. buildFullCommand (\<lambda>t. t) sample_step None = ''ssh '' @ login @ '' '' @ quote ''ls'')"
proof -
  have a: "offset_text_ok (\<lambda>t. t) sample_step" by (simp add: offset_text_ok_def sample_step_def)
  have b: "json_parse (\<lambda>t. t) (step_args sample_step) = Some (JObj [(''command'', JStr ''ls'')])"
    using sample_args by (simp add: sample_step_def)
  have s: "is_ssh_like sample_step" by (simp add: is_ssh_like_def sample_step_def)
  show ?thesis
    using step_command_is_shown [OF a b _ _ step_json_read [OF a] step_fields(1), of "''ls''" "\<lambda>_. 0" 0 None] s by simp
qed

text \<open>Arguments that are not JSON - a call that was cut off, say - are kept from no view, but not as a command either:
  the row shows the whole text of the log entry, braces and all, the panel the raw arguments, the summary and the shell
  window's line nothing of them.\<close>

theorem unread_arguments_show_the_entry:
  assumes "json_parse nt (step_args s) = None" and "step_args s \<noteq> []"
    and "json_parse nt content = Some (JObj st)" and "map_of st ''args'' = Some (JStr (step_args s))"
  shows "parseCommand nt content = JStr content \<and> formatArgs nt (step_args s) = step_args s \<and> stepArgsSummary nt s = []
    \<and> extractStepPrompt nt s = JStr [] \<and> buildFullCommand nt s None = (if is_ssh_like s then ''ssh user@host'' else tool s)"
  using assms by (simp add: parseCommand_def js_or_def parsed_args_command_def formatArgs_def stepArgsSummary_def
      extractStepPrompt_def buildFullCommand_def parseArg_def formatFlags_def Let_def or_else_def str_or_def)

theorem unread_arguments_show_the_entry_witness:
  "parseCommand (\<lambda>t. t) (json_stringify (step_json (sample_step\<lparr>step_args := ''{''\<rparr>))) =
     JStr (json_stringify (step_json (sample_step\<lparr>step_args := ''{''\<rparr>)))"
proof -
  let ?s = "sample_step\<lparr>step_args := ''{''\<rparr>"
  have a: "offset_text_ok (\<lambda>t. t) ?s" by (simp add: offset_text_ok_def sample_step_def)
  have b: "json_parse (\<lambda>t. t) (step_args ?s) = None" by code_simp
  show ?thesis using unread_arguments_show_the_entry [OF b _ step_json_read [OF a] step_fields(1)] by simp
qed

text \<open>A log that was asked for one step and arrives when the panel shows another one is shown there, in place of the
  log of that step; once both are finished the panel asks no more, so it stays. The shell window drops such an answer.\<close>

theorem late_log_is_shown_for_another_step:
  assumes "fetchLog_begin (panel_open s) = Some l" and "log_id t \<noteq> log_id s" and "step_state t \<noteq> StepRunning"
    and "\<not> sl_running ls" and "or_else (log_id t) [] \<noteq> []"
    and "p = fetchLog_end (Some ls) (fetchLog_end (Some lt) (panel_step t (panel_open s)))"
  shows "panel_entries time_of now p = sl_entries ls \<and> sp_step p = t \<and> \<not> panel_polls p
    \<and> shell_fetch_end (Some l) t (Some ls) (Some lt) = Some lt"
  using assms by (auto simp: panel_open_def panel_step_def fetchLog_end_def panel_entries_def panel_has_log_def panel_polls_def
      shell_fetch_end_def fetchLog_begin_def split: if_splits)

definition sample_log :: "string \<Rightarrow> session_log" where
  "sample_log i = \<lparr>sl_id = i, sl_connectionId = ''c'', sl_agentName = ''a'', sl_host = None, sl_prompt = [], sl_running = False,
     sl_presetName = None, sl_modelName = None, sl_modelRole = None,
     sl_entries = [\<lparr>le_type = ''thought'', le_content = i, le_timestamp = 0\<rparr>], sl_startedAt = 0, sl_finishedAt = None\<rparr>"

theorem late_log_is_shown_for_another_step_witness:
  "panel_entries (\<lambda>_. 0) 0 (fetchLog_end (Some (sample_log ''1'')) (fetchLog_end (Some (sample_log ''2''))
     (panel_step (sample_step\<lparr>log_id := Some ''2''\<rparr>) (panel_open (sample_step\<lparr>log_id := Some ''1''\<rparr>)))))
   = sl_entries (sample_log ''1'') \<and> sl_entries (sample_log ''1'') \<noteq> sl_entries (sample_log ''2'')"
  using late_log_is_shown_for_another_step [of "sample_step\<lparr>log_id := Some ''1''\<rparr>" "''1''" "sample_step\<lparr>log_id := Some ''2''\<rparr>"
      "sample_log ''1''" _ "sample_log ''2''" "\<lambda>_. 0" 0, OF _ _ _ _ _ refl]
  by (simp add: sample_step_def sample_log_def fetchLog_begin_def panel_open_def panel_has_log_def or_else_def)

text \<open>C27: The arguments as the panel shows them, indented, and as the shell window does, on one line, read as the value the
  call has, whatever blanks, escapes, spellings of numbers or repeated members the raw text has, except that a number too
  large for JavaScript is shown as null (\<open>printed_value\<close>); a text that is not JSON stays as it is, and indenting again changes
  nothing. What is shown is well formed: numbers print as themselves, no object repeats a key and its members are in their
  order, and a value that is well formed itself is shown as it is.\<close>

theorem shown_arguments_are_the_value:
  assumes "num_text_ok nt"
  shows "json_parse nt (formatArgs nt (step_args s)) = map_option printed_value (json_parse nt (step_args s))
    \<and> formatArgs nt (formatArgs nt (step_args s)) = formatArgs nt (step_args s)
    \<and> pred_option (\<lambda>v. json_ok nt (printed_value v) \<and> json_parse nt (formatArgsAsObject nt s) = Some (printed_value v)
        \<and> (json_ok nt v \<longrightarrow> printed_value v = v)) (json_parse nt (step_args s))"
proof (cases "json_parse nt (step_args s)")
  case (Some v)
  have "json_ok nt (printed_value v) \<and> json_parse nt (json_print 2 0 v) = Some (printed_value v) \<and> json_parse nt (json_print 0 0 v) = Some (printed_value v)"
    using parsed_values_print [OF assms Some] by blast
  then show ?thesis using Some ok_is_printed(1) by (auto simp: formatArgs_def formatArgsAsObject_def json_stringify_def printed_prints)
qed (simp add: formatArgs_def)

definition large_step :: step where
  "large_step = sample_step\<lparr>step_args := ''[1.0,1e400]''\<rparr>"

theorem shown_arguments_are_the_value_witness:
  "num_text_ok sample_num \<and> json_parse sample_num (step_args large_step) = Some (JArr [JNum ''1'', JNum ''Infinity''])
   \<and> json_parse sample_num (formatArgs sample_num (step_args large_step)) = Some (JArr [JNum ''1'', JNull])"
proof -
  have "json_parse sample_num (step_args large_step) = Some (JArr [JNum ''1'', JNum ''Infinity''])" by code_simp
  then show ?thesis using shown_arguments_are_the_value [OF sample_num_ok, of large_step] sample_num_ok by (simp add: infinities_def)
qed

end
