(* ===== verification/AppShell.thy ===== *)
theory AppShell
  imports Router WizardModel ChatTimeline Json
begin

text \<open>
  The frame of the application (\<open>App.tsx\<close>): who is signed in, whether the setup is to be shown, the chat that is open and
  the address that names it; the list of chats beside it (\<open>components/ChatSidebar.tsx\<close>), the state of the logo
  (\<open>components/LogoState.tsx\<close>) and the chat remembered while a plan is edited (\<open>lib/planEditorReturn.ts\<close>). Requests are
  split into asking and answering. \<open>resolve\<close> is the browser's URL parser, as in \<open>Router\<close>.
\<close>

section \<open>The frame\<close>

record app =
  ap_browser :: browser
  ap_user :: "string option"
  ap_authChecked :: bool
  ap_needsSetup :: "bool option"
  ap_active :: "string option"
  ap_refresh :: nat
  ap_scroll :: nat
  ap_winXp :: bool

definition app_route :: "app \<Rightarrow> route" where
  "app_route s = hd (app_routes (ap_browser s))"

fun is_chat :: "route \<Rightarrow> bool" where
  "is_chat (Chat i) = True"
| "is_chat _ = False"

text \<open>The chat an address names.\<close>

fun addressed_chat :: "route \<Rightarrow> string option" where
  "addressed_chat (Chat (Some i)) = (if i = [] then None else Some i)"
| "addressed_chat _ = None"

text \<open>The effect of a new route, which runs after every \<open>popstate\<close>.\<close>

definition route_effect :: "app \<Rightarrow> app" where
  "route_effect s = (case addressed_chat (app_route s) of Some i \<Rightarrow> s\<lparr>ap_active := Some i\<rparr> | None \<Rightarrow> s)"

definition app_navigate :: "(string \<Rightarrow> string) \<Rightarrow> route \<Rightarrow> app \<Rightarrow> app" where
  "app_navigate resolve r s = route_effect (s\<lparr>ap_browser := navigate resolve r (ap_browser s)\<rparr>)"

definition app_start :: "string \<Rightarrow> bool \<Rightarrow> app" where
  "app_start path xp = route_effect \<lparr>ap_browser = \<lparr>pathname = path, history_back = [], app_routes = [parseRoute path]\<rparr>,
     ap_user = None, ap_authChecked = False, ap_needsSetup = None, ap_active = None, ap_refresh = 0, ap_scroll = 0, ap_winXp = xp\<rparr>"

text \<open>The back button of the browser, to the entry behind the current one.\<close>

definition app_back :: "app \<Rightarrow> app" where
  "app_back s = (case history_back (ap_browser s) of
      [] \<Rightarrow> s
    | p # ps \<Rightarrow> route_effect (s\<lparr>ap_browser := app_sync ((ap_browser s)\<lparr>pathname := p, history_back := ps\<rparr>)\<rparr>))"

definition app_unauthorized :: "app \<Rightarrow> app" where
  "app_unauthorized s = s\<lparr>ap_user := None, ap_needsSetup := None\<rparr>"

definition me_end :: "string option \<Rightarrow> app \<Rightarrow> app" where
  "me_end u s = s\<lparr>ap_user := u, ap_authChecked := True\<rparr>"

definition onLogin :: "string \<Rightarrow> app \<Rightarrow> app" where
  "onLogin u s = s\<lparr>ap_user := Some u\<rparr>"

text \<open>The configuration that is read once there is a user; \<open>None\<close> when reading fails.\<close>

definition config_end :: "global_config option \<Rightarrow> app \<Rightarrow> app" where
  "config_end cfg s = s\<lparr>ap_needsSetup := Some (case cfg of Some c \<Rightarrow> \<not> ws_done (deriveStatus (Some c)) | None \<Rightarrow> False)\<rparr>"

definition setup_done :: "app \<Rightarrow> app" where
  "setup_done s = s\<lparr>ap_needsSetup := Some False\<rparr>"

text \<open>With no chat open the list is asked for; the answer knows whether a chat was to be shown when it was asked.\<close>

definition regular_sessions :: "chat_session list \<Rightarrow> chat_session list" where
  "regular_sessions list = filter (\<lambda>s. source s \<noteq> Some ''plan'') list"

definition first_chat_begin :: "app \<Rightarrow> bool option" where
  "first_chat_begin s = (if ap_needsSetup s = Some False \<and> or_else (ap_active s) [] = [] then Some (is_chat (app_route s)) else None)"

definition first_chat_end :: "(string \<Rightarrow> string) \<Rightarrow> bool \<Rightarrow> chat_session list \<Rightarrow> chat_session \<Rightarrow> app \<Rightarrow> app" where
  "first_chat_end resolve on_chat list created s =
     (let session = (case regular_sessions list of r # _ \<Rightarrow> r | [] \<Rightarrow> created);
          s' = s\<lparr>ap_active := Some (session_id session), ap_refresh := ap_refresh s + 1\<rparr>
      in if on_chat then app_navigate resolve (Chat (Some (session_id session))) s' else s')"

definition handleSelectSession :: "(string \<Rightarrow> string) \<Rightarrow> chat_session \<Rightarrow> app \<Rightarrow> app" where
  "handleSelectSession resolve x s = app_navigate resolve (Chat (Some (session_id x))) (s\<lparr>ap_active := Some (session_id x)\<rparr>)"

text \<open>New chat: the newest chat is taken again when it has no messages, else one is created. \<open>None\<close> when a request failed.\<close>

definition newChat_reuses :: "chat_session list \<Rightarrow> (string \<Rightarrow> 'm list) \<Rightarrow> chat_session option" where
  "newChat_reuses list messages =
     (case regular_sessions list of
        newest # _ \<Rightarrow> if length (messages (session_id newest)) = 0 then Some newest else None
      | [] \<Rightarrow> None)"

definition handleNewChat :: "(string \<Rightarrow> string) \<Rightarrow> chat_session list \<Rightarrow> (string \<Rightarrow> 'm list) \<Rightarrow> chat_session option \<Rightarrow> app \<Rightarrow> app" where
  "handleNewChat resolve list messages created s =
     (case (case newChat_reuses list messages of Some x \<Rightarrow> Some x | None \<Rightarrow> created) of
        None \<Rightarrow> s
      | Some x \<Rightarrow>
          (let s' = app_navigate resolve (Chat (Some (session_id x))) (s\<lparr>ap_active := Some (session_id x)\<rparr>)
           in s'\<lparr>ap_refresh := ap_refresh s' + 1, ap_scroll := ap_scroll s' + 1\<rparr>))"

definition handleFirstMessage :: "app \<Rightarrow> app" where
  "handleFirstMessage s = s\<lparr>ap_refresh := ap_refresh s + 1\<rparr>"

text \<open>Whether the request succeeds or not.\<close>

definition handleLogout :: "app \<Rightarrow> app" where
  "handleLogout s = s\<lparr>ap_user := None, ap_needsSetup := None\<rparr>"

datatype app_screen = NoScreen | LoginScreen | WizardScreen | PageScreen

definition app_shows :: "app \<Rightarrow> app_screen" where
  "app_shows s =
     (if \<not> ap_authChecked s then NoScreen
      else if ap_user s = None then LoginScreen
      else if ap_needsSetup s = None then NoScreen
      else if ap_needsSetup s = Some True \<and> \<not> ap_winXp s then WizardScreen
      else PageScreen)"

text \<open>The chat that the chat page is given.\<close>

definition shown_chat :: "app \<Rightarrow> string" where
  "shown_chat s = or_else (ap_active s) []"

section \<open>The list of chats\<close>

record sidebar =
  sb_sessions :: "chat_session list"
  sb_editingId :: "string option"
  sb_editTitle :: string
  sb_deleteTarget :: "string option"
  sb_chatCollapsed :: bool
  sb_planCollapsed :: bool
  sb_lastScroll :: nat

definition sidebar_start :: sidebar where
  "sidebar_start = \<lparr>sb_sessions = [], sb_editingId = None, sb_editTitle = [], sb_deleteTarget = None, sb_chatCollapsed = False,
     sb_planCollapsed = False, sb_lastScroll = 0\<rparr>"

definition loadSessions_end :: "chat_session list option \<Rightarrow> sidebar \<Rightarrow> sidebar" where
  "loadSessions_end answer b = (case answer of Some xs \<Rightarrow> b\<lparr>sb_sessions := xs\<rparr> | None \<Rightarrow> b)"

datatype after_delete = StayHere | OpenChat chat_session | OpenNew

definition handleDelete_end :: "string \<Rightarrow> bool \<Rightarrow> string option \<Rightarrow> sidebar \<Rightarrow> sidebar \<times> after_delete" where
  "handleDelete_end i ok act b =
     (if \<not> ok then (b, StayHere)
      else (b\<lparr>sb_sessions := drop_by session_id i (sb_sessions b), sb_deleteTarget := None\<rparr>,
            if act = Some i then
              (case filter (\<lambda>s. session_id s \<noteq> i \<and> source s \<noteq> Some ''plan'') (sb_sessions b) of
                 r # _ \<Rightarrow> OpenChat r | [] \<Rightarrow> OpenNew)
            else StayHere))"

definition startRename :: "chat_session \<Rightarrow> sidebar \<Rightarrow> sidebar" where
  "startRename x b = b\<lparr>sb_editingId := Some (session_id x), sb_editTitle := title x\<rparr>"

definition confirmRename_begin :: "sidebar \<Rightarrow> string" where
  "confirmRename_begin b = trim (sb_editTitle b)"

definition confirmRename_end :: "string \<Rightarrow> chat_session option \<Rightarrow> sidebar \<Rightarrow> sidebar" where
  "confirmRename_end i updated b =
     (case updated of
        Some u \<Rightarrow> b\<lparr>sb_sessions := map_by session_id i (\<lambda>_. u) (sb_sessions b), sb_editingId := None\<rparr>
      | None \<Rightarrow> b\<lparr>sb_editingId := None\<rparr>)"

definition cancelRename :: "sidebar \<Rightarrow> sidebar" where
  "cancelRename b = b\<lparr>sb_editingId := None\<rparr>"

definition displayTitle :: "chat_session \<Rightarrow> string" where
  "displayTitle x = str_or (title x) ''New Chat''"

text \<open>\<open>diff\<close> is the age in milliseconds, \<open>date\<close> the date in the local format.\<close>

definition formatDate :: "int \<Rightarrow> string \<Rightarrow> string" where
  "formatDate diff date =
     (let days = diff div 86400000
      in if days = 0 then ''Today'' else if days = 1 then ''Yesterday'' else if days < 7 then int_str days @ ''d ago'' else date)"

text \<open>\<open>/^plan:([^:]+):/\<close>\<close>

definition planIdFromSession :: "chat_session \<Rightarrow> string option" where
  "planIdFromSession x =
     (let r = drop 5 (session_id x); p = takeWhile (\<lambda>c. c \<noteq> CHR '':'') r
      in if starts_with ''plan:'' (session_id x) \<and> p \<noteq> [] \<and> dropWhile (\<lambda>c. c \<noteq> CHR '':'') r \<noteq> [] then Some p else None)"

text \<open>The list scrolls up once for every new chat, as soon as the chat is in it.\<close>

definition sidebar_scroll :: "nat \<Rightarrow> string option \<Rightarrow> sidebar \<Rightarrow> sidebar \<times> bool" where
  "sidebar_scroll key act b =
     (if key = 0 \<or> key \<le> sb_lastScroll b then (b, False)
      else if or_else act [] \<noteq> [] \<and> \<not> list_ex (\<lambda>s. Some (session_id s) = act) (regular_sessions (sb_sessions b)) then (b, False)
      else (b\<lparr>sb_lastScroll := key, sb_chatCollapsed := False\<rparr>, True))"

section \<open>The logo\<close>

definition any_active :: "chat_session list \<Rightarrow> bool" where
  "any_active list \<longleftrightarrow> list_ex (\<lambda>s. or_else (active s) False) list"

definition logo_shown :: "logo_state \<Rightarrow> bool \<Rightarrow> logo_state" where
  "logo_shown l anyActive = (if l \<noteq> LogoIdle then l else if anyActive then LogoWorking else LogoIdle)"

section \<open>The chat to return to\<close>

text \<open>The session storage's entry.\<close>

definition stashPlanEditorReturnChat :: "string \<Rightarrow> string option \<Rightarrow> string option" where
  "stashPlanEditorReturnChat i stored =
     (if i = [] then stored else Some (json_stringify (JObj [(''sessionId'', JStr i)])))"

definition takePlanEditorReturnChat :: "(string \<Rightarrow> string) \<Rightarrow> string option \<Rightarrow> string option \<times> string option" where
  "takePlanEditorReturnChat num_text stored =
     (case stored of
        None \<Rightarrow> (None, None)
      | Some raw \<Rightarrow>
          if raw = [] then (None, stored)
          else (case json_parse num_text raw of
              Some (JObj kvs) \<Rightarrow> (case map_of kvs ''sessionId'' of Some (JStr i) \<Rightarrow> if i \<noteq> [] then Some i else None | _ \<Rightarrow> None)
            | _ \<Rightarrow> None, None))"

section \<open>Runs\<close>

datatype app_event =
    GoBack
  | Navigates route
  | Unauthorized
  | MeAnswers "string option"
  | LogsIn string
  | ConfigAnswers "global_config option"
  | SetupDone
  | FirstChatAnswers bool "chat_session list" chat_session
  | SelectsSession chat_session
  | NewChatAnswers "chat_session list" "string \<Rightarrow> chat_message list" "chat_session option"
  | SendsFirstMessage
  | LogsOut
  | SwitchesXp bool

fun app_step :: "(string \<Rightarrow> string) \<Rightarrow> app_event \<Rightarrow> app \<Rightarrow> app" where
  "app_step resolve GoBack s = app_back s"
| "app_step resolve (Navigates r) s = app_navigate resolve r s"
| "app_step resolve Unauthorized s = app_unauthorized s"
| "app_step resolve (MeAnswers u) s = me_end u s"
| "app_step resolve (LogsIn u) s = onLogin u s"
| "app_step resolve (ConfigAnswers c) s = config_end c s"
| "app_step resolve SetupDone s = setup_done s"
| "app_step resolve (FirstChatAnswers on_chat xs x) s = first_chat_end resolve on_chat xs x s"
| "app_step resolve (SelectsSession x) s = handleSelectSession resolve x s"
| "app_step resolve (NewChatAnswers xs ms x) s = handleNewChat resolve xs ms x s"
| "app_step resolve SendsFirstMessage s = handleFirstMessage s"
| "app_step resolve LogsOut s = handleLogout s"
| "app_step resolve (SwitchesXp b) s = s\<lparr>ap_winXp := b\<rparr>"

text \<open>The first list of chats is answered before the user opened a chat from a page without one.\<close>

fun app_enabled :: "(string \<Rightarrow> string) \<Rightarrow> app_event \<Rightarrow> app \<Rightarrow> bool" where
  "app_enabled resolve (FirstChatAnswers on_chat xs x) s = (on_chat \<or> addressed_chat (app_route s) = None)"
| "app_enabled resolve _ s = True"

text \<open>The address is the route's, and the chat it names is the open one.\<close>

definition app_inv :: "app \<Rightarrow> bool" where
  "app_inv s \<longleftrightarrow> app_routes (ap_browser s) \<noteq> [] \<and> app_route s = parseRoute (pathname (ap_browser s))
     \<and> (\<forall>i. addressed_chat (app_route s) = Some i \<longrightarrow> ap_active s = Some i)"

lemma route_effect_route [simp]: "app_route (route_effect s) = app_route s" "ap_browser (route_effect s) = ap_browser s"
  by (simp_all add: route_effect_def app_route_def split: option.splits)

lemma route_effect_inv: "app_routes (ap_browser s) \<noteq> [] \<Longrightarrow> app_route s = parseRoute (pathname (ap_browser s)) \<Longrightarrow> app_inv (route_effect s)"
  by (simp add: app_inv_def) (simp add: route_effect_def split: option.split)

lemma app_sync_inv: "app_inv (route_effect (s\<lparr>ap_browser := app_sync b\<rparr>))"
  by (rule route_effect_inv) (simp_all add: app_sync_def app_route_def)

lemma navigate_inv: "app_inv (app_navigate resolve r s)"
proof -
  obtain b where "navigate resolve r (ap_browser s) = app_sync b" by (auto simp: navigate_def Let_def)
  then show ?thesis by (simp add: app_navigate_def app_sync_inv)
qed

lemma app_start_inv: "app_inv (app_start path xp)"
  unfolding app_start_def by (rule route_effect_inv) (simp_all add: app_route_def)

lemma app_inv_cong:
  "app_inv s \<Longrightarrow> ap_browser t = ap_browser s \<Longrightarrow> ap_active t = ap_active s \<Longrightarrow> app_inv t"
  by (simp add: app_inv_def app_route_def)

lemma app_step_inv: "app_inv s \<Longrightarrow> app_enabled resolve e s \<Longrightarrow> app_inv (app_step resolve e s)"
proof (induction resolve e s rule: app_step.induct)
  case (1 resolve s)
  then show ?case by (auto simp: app_back_def app_sync_inv split: list.split)
next
  case (8 resolve on_chat xs x s)
  then show ?case by (cases on_chat) (auto simp: first_chat_end_def Let_def navigate_inv, simp add: app_inv_def app_route_def)
next
  case (10 resolve xs ms x s)
  then show ?case
    by (auto simp: handleNewChat_def Let_def split: option.splits intro!: app_inv_cong [OF navigate_inv])
qed (auto simp: navigate_inv app_unauthorized_def me_end_def onLogin_def config_end_def setup_done_def handleSelectSession_def
    handleFirstMessage_def handleLogout_def elim: app_inv_cong)

interpretation app_runs: guarded_steps "app_step resolve" app_inv "app_enabled resolve" for resolve
  by unfold_locales (rule app_step_inv)

text \<open>C24: In every run of the application the address bar and the page agree: the route shown is the one the address reads
  as, and when it names a chat, that chat is the open one - whatever mixture of links, the back button, new chats, signing
  out and in, and answers of the server led there, provided the very first list of chats was not answered after the user
  had moved from another page to a chat.\<close>
theorem addressed_chat_is_shown:
  assumes "admissible (app_enabled resolve) (app_step resolve) es (app_start path xp)"
    and "s = run_steps (app_step resolve) es (app_start path xp)"
  shows "app_route s = parseRoute (pathname (ap_browser s)) \<and> (addressed_chat (app_route s) = Some i \<longrightarrow> shown_chat s = i)"
  using app_runs.run_inv [OF app_start_inv assms(1)] assms(2) by (simp add: app_inv_def shown_chat_def or_else_def)

definition sample_chat :: "string \<Rightarrow> chat_session" where
  "sample_chat i = \<lparr>session_id = i, title = [], source = None, active = None, created_at = [], summary_version = None, last_context_tokens = None\<rparr>"

theorem addressed_chat_is_shown_witness:
  "shown_chat (run_steps (app_step (\<lambda>p. p)) [Navigates Llm, FirstChatAnswers False [sample_chat ''a''] (sample_chat ''n''),
     SelectsSession (sample_chat ''b''), Navigates Llm, GoBack] (app_start ''/logs'' False)) = ''b''"
proof -
  let ?es = "[Navigates Llm, FirstChatAnswers False [sample_chat ''a''] (sample_chat ''n''), SelectsSession (sample_chat ''b''), Navigates Llm, GoBack]"
  note d = app_start_def app_navigate_def route_effect_def navigate_def app_sync_def app_route_def first_chat_end_def app_back_def
    handleSelectSession_def sample_chat_def parseRoute_def patterns_def match_rest_def match_exact_def starts_with_def with_id_def
    regular_sessions_def
  have a: "admissible (app_enabled (\<lambda>p. p)) (app_step (\<lambda>p. p)) ?es (app_start ''/logs'' False)"
    by (simp add: d)
  have b: "addressed_chat (app_route (run_steps (app_step (\<lambda>p. p)) ?es (app_start ''/logs'' False))) = Some ''b''"
    by (simp add: d is_newline_def Let_def)
  show ?thesis using addressed_chat_is_shown [OF a refl, of "''b''"] b by blast
qed

text \<open>The first list of chats that is answered after the user moved from another page to a chat shows the newest
  chat under the address of the one the user chose.\<close>

theorem late_first_chat_is_shown_under_another_address:
  assumes "app_inv s" and "addressed_chat (app_route s) = Some i" and "regular_sessions xs = r # rs" and "session_id r \<noteq> i"
  shows "addressed_chat (app_route (first_chat_end resolve False xs x s)) = Some i
    \<and> shown_chat (first_chat_end resolve False xs x s) = session_id r \<and> shown_chat s = i"
  using assms by (auto simp: first_chat_end_def Let_def shown_chat_def or_else_def app_inv_def app_route_def)

theorem late_first_chat_is_shown_under_another_address_witness:
  "let s = app_step (\<lambda>p. p) (SelectsSession (sample_chat ''b'')) (app_start ''/logs'' False) in
   addressed_chat (app_route (first_chat_end (\<lambda>p. p) False [sample_chat ''a''] (sample_chat ''n'') s)) = Some ''b''
   \<and> shown_chat (first_chat_end (\<lambda>p. p) False [sample_chat ''a''] (sample_chat ''n'') s) = ''a''"
proof -
  let ?s = "app_step (\<lambda>p. p) (SelectsSession (sample_chat ''b'')) (app_start ''/logs'' False)"
  have i: "app_inv ?s" by (simp add: handleSelectSession_def navigate_inv)
  have b: "addressed_chat (app_route ?s) = Some ''b''"
    by (simp add: app_start_def app_navigate_def route_effect_def navigate_def app_sync_def app_route_def
      handleSelectSession_def sample_chat_def parseRoute_def patterns_def match_rest_def match_exact_def starts_with_def with_id_def
      is_newline_def Let_def)
  show ?thesis
    using late_first_chat_is_shown_under_another_address [OF i b, of "[sample_chat ''a'']" "sample_chat ''a''" "[]" "\<lambda>p. p" "sample_chat ''n''"]
    by (simp add: regular_sessions_def sample_chat_def Let_def)
qed

section \<open>Chats opened, deleted and remembered\<close>

text \<open>New chat opens a chat without messages: the newest one if it has none, a new one only when it has some. A failed
  request changes nothing.\<close>

lemma new_chat_is_empty:
  assumes "regular_sessions xs = r # rs"
  shows "messages (session_id r) = [] \<Longrightarrow> newChat_reuses xs messages = Some r"
    and "messages (session_id r) \<noteq> [] \<Longrightarrow> newChat_reuses xs messages = None"
    and "messages (session_id r) \<noteq> [] \<Longrightarrow> handleNewChat resolve xs messages None s = s"
  using assms by (simp_all add: newChat_reuses_def handleNewChat_def)

lemma new_chat_is_counted:
  assumes "newChat_reuses xs messages = Some x \<or> newChat_reuses xs messages = None \<and> created = Some x"
  shows "app_route (handleNewChat resolve xs messages created s) = app_route (app_navigate resolve (Chat (Some (session_id x))) s)
    \<and> ap_refresh (handleNewChat resolve xs messages created s) = ap_refresh s + 1"
  using assms by (auto simp: handleNewChat_def Let_def app_navigate_def route_effect_def app_route_def split: option.split)

text \<open>Deleting the chat that is open opens another one of the list, or a new one when no other is left; the deleted one
  is gone from the list.\<close>

lemma deleted_chat_is_left:
  assumes "handleDelete_end i True (Some i) b = (b', a)"
  shows "i \<notin> session_id ` set (sb_sessions b')
    \<and> (case a of OpenChat r \<Rightarrow> r \<in> set (regular_sessions (sb_sessions b')) | OpenNew \<Rightarrow> regular_sessions (sb_sessions b') = []
        | StayHere \<Rightarrow> False)"
proof -
  have e: "filter (\<lambda>s. session_id s \<noteq> i \<and> source s \<noteq> Some ''plan'') xs = regular_sessions (drop_by session_id i xs)" for xs
    by (simp add: regular_sessions_def drop_by_def conj_commute)
  have b': "sb_sessions b' = drop_by session_id i (sb_sessions b)"
    and a: "a = (case regular_sessions (sb_sessions b') of r # _ \<Rightarrow> OpenChat r | [] \<Rightarrow> OpenNew)"
    using assms unfolding handleDelete_end_def e by auto
  have "i \<notin> session_id ` set (sb_sessions b')" by (auto simp: b' set_drop_by)
  moreover have "case a of OpenChat r \<Rightarrow> r \<in> set (regular_sessions (sb_sessions b')) | OpenNew \<Rightarrow> regular_sessions (sb_sessions b') = []
        | StayHere \<Rightarrow> False"
    unfolding a by (cases "regular_sessions (sb_sessions b')") simp_all
  ultimately show ?thesis by blast
qed

text \<open>A list that was asked for before the deletion brings the chat back until the next one.\<close>

lemma deleted_chat_comes_back:
  "x \<in> set xs \<Longrightarrow> x \<in> set (sb_sessions (loadSessions_end (Some xs) (fst (handleDelete_end (session_id x) True act b))))"
  by (simp add: loadSessions_end_def)

lemma scrolls_once: "sidebar_scroll key act b = (b', True) \<Longrightarrow> sidebar_scroll key act b' = (b', False)"
  by (auto simp: sidebar_scroll_def split: if_splits)

text \<open>The chat remembered when a plan is opened is taken back once.\<close>

lemma remembered_chat:
  assumes "i \<noteq> []"
  shows "takePlanEditorReturnChat nt (stashPlanEditorReturnChat i stored) = (Some i, None)"
proof -
  have ok: "json_ok nt (JObj [(''sessionId'', JStr i)])" by (simp add: obj_build_def obj_put_def)
  have "json_stringify (JObj [(''sessionId'', JStr i)]) \<noteq> []" by (simp add: json_stringify_def)
  moreover have "json_parse nt (json_stringify (JObj [(''sessionId'', JStr i)])) = Some (JObj [(''sessionId'', JStr i)])"
    unfolding json_stringify_def by (rule json_roundtrip [OF ok])
  ultimately show ?thesis using assms by (simp add: takePlanEditorReturnChat_def stashPlanEditorReturnChat_def)
qed

end
