(* ===== verification/GuardPages.thy ===== *)
theory GuardPages
  imports GuardFixes Json
begin

text \<open>
  The pages of guard profiles: the list (\<open>pages/guard-profiles/GuardProfilesPage.tsx\<close>, \<open>ProfileList.tsx\<close>), the studio that
  edits one (\<open>Studio.tsx\<close>) with its lists of commands and addresses, its testers and the recent activity, and the panel that
  attaches a profile to hosts (\<open>AttachmentsPanel.tsx\<close>) with the server's side of it. Notices are not part of the states.
\<close>

section \<open>The studio\<close>

record studio =
  st_form :: studio_form
  st_baseline :: studio_form
  st_savedId :: "string option"
  st_saving :: bool
  st_showPresets :: bool
  st_attachOpen :: bool

definition studio_open :: "studio_form \<Rightarrow> guard_profile option \<Rightarrow> studio" where
  "studio_open initial editing =
     \<lparr>st_form = initial, st_baseline = initial, st_savedId = map_option gp_id editing, st_saving = False,
      st_showPresets = (or_else (map_option gp_id editing) [] = [] \<and> length (commands initial) = 0), st_attachOpen = False\<rparr>"

definition has_saved_id :: "studio \<Rightarrow> bool" where
  "has_saved_id s \<longleftrightarrow> or_else (st_savedId s) [] \<noteq> []"

text \<open>The source compares the texts of the two forms.\<close>

definition studio_dirty :: "studio \<Rightarrow> bool" where
  "studio_dirty s \<longleftrightarrow> st_form s \<noteq> st_baseline s"

definition canSave :: "studio \<Rightarrow> bool" where
  "canSave s \<longleftrightarrow> trim (form_name (st_form s)) \<noteq> [] \<and> (\<not> has_saved_id s \<or> studio_dirty s)"

datatype save_request = CreateProfile profile_payload | UpdateProfile string profile_payload

definition onSave_begin :: "studio \<Rightarrow> studio \<times> save_request option" where
  "onSave_begin s =
     (if trim (form_name (st_form s)) = [] then (s, None)
      else (s\<lparr>st_saving := True\<rparr>,
        Some (if has_saved_id s then UpdateProfile (or_else (st_savedId s) []) (toPayload (st_form s))
              else CreateProfile (toPayload (st_form s)))))"

definition onSave_end :: "guard_profile option \<Rightarrow> studio \<Rightarrow> studio" where
  "onSave_end answer s =
     (case answer of
        Some saved \<Rightarrow> s\<lparr>st_savedId := Some (gp_id saved), st_baseline := fromProfile saved, st_saving := False\<rparr>
      | None \<Rightarrow> s\<lparr>st_saving := False\<rparr>)"

definition applyPreset :: "studio_form \<Rightarrow> studio \<Rightarrow> studio" where
  "applyPreset built s =
     s\<lparr>st_form := built\<lparr>form_name := str_or (form_name (st_form s)) (form_description built)\<rparr>, st_showPresets := False\<rparr>"

definition edit_form :: "(studio_form \<Rightarrow> studio_form) \<Rightarrow> studio \<Rightarrow> studio" where
  "edit_form f s = s\<lparr>st_form := f (st_form s)\<rparr>"

definition onApply :: "suggested_fix \<Rightarrow> studio \<Rightarrow> studio" where
  "onApply x s = edit_form (fix_apply x) s"

definition studio_title :: "studio \<Rightarrow> string" where
  "studio_title s = (if has_saved_id s then str_or (trim (form_name (st_form s))) ''Untitled profile'' else ''New guard profile'')"

definition studio_badge :: "studio \<Rightarrow> string" where
  "studio_badge s = (if \<not> has_saved_id s then ''Draft'' else if studio_dirty s then ''Unsaved changes'' else ''Saved'')"

definition enabledCaps :: "studio \<Rightarrow> nat" where
  "enabledCaps s = length (filter (get_cap (form_caps (st_form s))) CAP_ORDER)"

text \<open>Escape leaves the studio unless the attachments are open.\<close>

definition escape_cancels :: "studio \<Rightarrow> bool" where
  "escape_cancels s \<longleftrightarrow> \<not> st_attachOpen s"

section \<open>The list of commands\<close>

record command_list =
  cl_draft :: string
  cl_editing :: "nat option"
  cl_editVal :: string

definition command_list_start :: command_list where
  "command_list_start = \<lparr>cl_draft = [], cl_editing = None, cl_editVal = []\<rparr>"

definition list_shown :: "studio_form \<Rightarrow> bool" where
  "list_shown f \<longleftrightarrow> commandsMode f = Whitelist \<or> commandsMode f = Blacklist"

definition add_rule :: "command_list \<Rightarrow> studio_form \<Rightarrow> command_list \<times> studio_form" where
  "add_rule l f =
     (case parseCommandRule (cl_draft l) of
        None \<Rightarrow> (l, f)
      | Some r \<Rightarrow>
          (l\<lparr>cl_draft := []\<rparr>,
           case find_index (\<lambda>c. command c = command r) (commands f) of
             Some i \<Rightarrow> f\<lparr>commands := (commands f)[i := mergeCommandRule (commands f ! i) r]\<rparr>
           | None \<Rightarrow> f\<lparr>commands := commands f @ [r]\<rparr>))"

definition remove_rule :: "nat \<Rightarrow> studio_form \<Rightarrow> studio_form" where
  "remove_rule i f = f\<lparr>commands := remove_at i (commands f)\<rparr>"

definition startEdit :: "nat \<Rightarrow> studio_form \<Rightarrow> command_list \<Rightarrow> command_list" where
  "startEdit i f l = l\<lparr>cl_editing := Some i, cl_editVal := formatCommandRule (commands f ! i)\<rparr>"

text \<open>An index past the end, which would leave a hole in the array, does not occur: leaving the field ends the edit, so no
  row goes away while one is edited.\<close>

definition commitEdit :: "command_list \<Rightarrow> studio_form \<Rightarrow> command_list \<times> studio_form" where
  "commitEdit l f =
     (case cl_editing l of
        None \<Rightarrow> (l, f)
      | Some i \<Rightarrow>
          (l\<lparr>cl_editing := None\<rparr>,
           case parseCommandRule (cl_editVal l) of
             None \<Rightarrow> f
           | Some r \<Rightarrow> if i \<le> length (commands f) then f\<lparr>commands := take i (commands f) @ [r] @ drop (Suc i) (commands f)\<rparr> else f))"

section \<open>The lists of addresses\<close>

definition empty_whitelist :: "studio_form \<Rightarrow> bool" where
  "empty_whitelist f \<longleftrightarrow> egress_mode (egress f) = Whitelist \<and> hosts (egress f) = [] \<and> cidrs (egress f) = []"

text \<open>The draft and the form after Add; a blank or known entry changes nothing.\<close>

definition add_host_entry :: "string \<Rightarrow> studio_form \<Rightarrow> string \<times> studio_form" where
  "add_host_entry draft f =
     (let v = trim draft in
      if v = [] \<or> v \<in> set (hosts (egress f)) then (draft, f)
      else ([], f\<lparr>egress := (egress f)\<lparr>hosts := hosts (egress f) @ [v]\<rparr>\<rparr>))"

definition add_cidr_entry :: "string \<Rightarrow> studio_form \<Rightarrow> string \<times> studio_form" where
  "add_cidr_entry draft f =
     (let v = trim draft in
      if v = [] \<or> v \<in> set (cidrs (egress f)) then (draft, f)
      else ([], f\<lparr>egress := (egress f)\<lparr>cidrs := cidrs (egress f) @ [v]\<rparr>\<rparr>))"

definition remove_host_entry :: "nat \<Rightarrow> studio_form \<Rightarrow> studio_form" where
  "remove_host_entry i f = f\<lparr>egress := (egress f)\<lparr>hosts := remove_at i (hosts (egress f))\<rparr>\<rparr>"

definition remove_cidr_entry :: "nat \<Rightarrow> studio_form \<Rightarrow> studio_form" where
  "remove_cidr_entry i f = f\<lparr>egress := (egress f)\<lparr>cidrs := remove_at i (cidrs (egress f))\<rparr>\<rparr>"

section \<open>The testers\<close>

record tester_result =
  tr_allowed :: bool
  tr_rule :: "string option"
  tr_message :: "string option"
  tr_reason :: "string option"
  tr_target :: string

record tester =
  ts_value :: string
  ts_result :: "tester_result option"
  ts_testing :: bool

definition tester_start :: tester where
  "tester_start = \<lparr>ts_value = [], ts_result = None, ts_testing = False\<rparr>"

text \<open>The target and the profile that are tested; the answer is shown for the target it was asked for.\<close>

definition runTest_begin :: "studio_form \<Rightarrow> tester \<Rightarrow> tester \<times> (profile_payload \<times> string) option" where
  "runTest_begin f t =
     (if trim (ts_value t) = [] then (t, None) else (t\<lparr>ts_testing := True\<rparr>, Some (toPayload f, trim (ts_value t))))"

definition runTest_end :: "tester_result option \<Rightarrow> tester \<Rightarrow> tester" where
  "runTest_end r t = (case r of Some x \<Rightarrow> t\<lparr>ts_result := Some x, ts_testing := False\<rparr> | None \<Rightarrow> t\<lparr>ts_testing := False\<rparr>)"

definition command_fix :: "tester_result \<Rightarrow> suggested_fix option" where
  "command_fix r =
     (if \<not> tr_allowed r then suggestAllowCommand (tr_target r) (or_else (tr_rule r) []) (or_else (tr_message r) [])
      else suggestBlockCommand (tr_target r))"

definition host_fix :: "tester_result \<Rightarrow> suggested_fix option" where
  "host_fix r = (if \<not> tr_allowed r then suggestAllowHost (tr_target r) (or_else (tr_reason r) []) else suggestBlockHost (tr_target r))"

section \<open>Recent activity\<close>

record guard_event =
  ge_id :: string
  ge_command :: bool
  ge_target :: string
  ge_allowed :: bool
  ge_rule :: string
  ge_message :: string

record activity =
  ac_events :: "guard_event list"
  ac_loading :: bool
  ac_reqId :: nat

definition activity_start :: activity where
  "activity_start = \<lparr>ac_events = [], ac_loading = False, ac_reqId = 0\<rparr>"

definition load_events_begin :: "activity \<Rightarrow> activity \<times> nat" where
  "load_events_begin a = (a\<lparr>ac_reqId := ac_reqId a + 1, ac_loading := True\<rparr>, ac_reqId a + 1)"

definition load_events_end :: "nat \<Rightarrow> guard_event list option \<Rightarrow> activity \<Rightarrow> activity" where
  "load_events_end i answer a =
     (if i = ac_reqId a then a\<lparr>ac_events := or_else answer (ac_events a), ac_loading := False\<rparr> else a)"

definition command_events :: "activity \<Rightarrow> guard_event list" where
  "command_events a = take 10 (filter ge_command (ac_events a))"

definition host_events :: "activity \<Rightarrow> guard_event list" where
  "host_events a = take 10 (filter (\<lambda>e. \<not> ge_command e) (ac_events a))"

definition event_fix :: "bool \<Rightarrow> guard_event \<Rightarrow> suggested_fix option" where
  "event_fix is_command e =
     (if ge_allowed e then (if is_command then suggestBlockCommand (ge_target e) else suggestBlockHost (ge_target e))
      else if is_command then suggestAllowCommand (ge_target e) (ge_rule e) (ge_message e)
      else suggestAllowHost (ge_target e) (ge_rule e))"

definition event_note :: "guard_event \<Rightarrow> string" where
  "event_note e = ge_rule e @ (if ge_rule e \<noteq> [] \<and> ge_message e \<noteq> [] then '' '' @ [em_dash] @ '' '' else []) @ ge_message e"

text \<open>\<open>diff\<close> is the age in milliseconds, \<open>None\<close> for a date that cannot be read.\<close>

definition relTime :: "int option \<Rightarrow> string" where
  "relTime diff =
     (case diff of
        None \<Rightarrow> []
      | Some d \<Rightarrow>
          if d < 60000 then int_str (max 1 (d div 1000)) @ ''s''
          else if d < 3600000 then int_str (d div 60000) @ ''m''
          else if d < 86400000 then int_str (d div 3600000) @ ''h''
          else int_str (d div 86400000) @ ''d'')"

section \<open>The list of profiles\<close>

record profiles_page =
  pp_profiles :: "guard_profile list"
  pp_loading :: bool
  pp_expanded :: "string list"
  pp_deleteTarget :: "string option"

definition profiles_start :: profiles_page where
  "profiles_start = \<lparr>pp_profiles = [], pp_loading = True, pp_expanded = [], pp_deleteTarget = None\<rparr>"

definition load_profiles_begin :: "profiles_page \<Rightarrow> profiles_page" where
  "load_profiles_begin p = p\<lparr>pp_loading := True\<rparr>"

definition load_profiles_end :: "guard_profile list option \<Rightarrow> profiles_page \<Rightarrow> profiles_page" where
  "load_profiles_end answer p = p\<lparr>pp_profiles := or_else answer (pp_profiles p), pp_loading := False\<rparr>"

text \<open>A set of the source is a list without repetition, in the order of insertion.\<close>

definition toggle_member :: "'a \<Rightarrow> 'a list \<Rightarrow> 'a list" where
  "toggle_member i xs = (if i \<in> set xs then filter (\<lambda>j. j \<noteq> i) xs else xs @ [i])"

definition toggle_profile :: "string \<Rightarrow> profiles_page \<Rightarrow> profiles_page" where
  "toggle_profile i p = p\<lparr>pp_expanded := toggle_member i (pp_expanded p)\<rparr>"

text \<open>The saved profile in the list, and the profile the page moves to when it was new.\<close>

definition onSaved :: "string option \<Rightarrow> guard_profile \<Rightarrow> profiles_page \<Rightarrow> profiles_page \<times> string option" where
  "onSaved profileId saved p =
     (p\<lparr>pp_profiles := (case find_index (\<lambda>x. gp_id x = gp_id saved) (pp_profiles p) of
          None \<Rightarrow> pp_profiles p @ [saved]
        | Some i \<Rightarrow> (pp_profiles p)[i := saved])\<rparr>,
      if profileId = Some ''new'' then Some (gp_id saved) else None)"

definition remove_profile_end :: "bool \<Rightarrow> profiles_page \<Rightarrow> profiles_page" where
  "remove_profile_end ok p = (if ok then load_profiles_begin (p\<lparr>pp_deleteTarget := None\<rparr>) else p)"

text \<open>A profile as JSON and back, for a copy that is handed over in the session storage. The members that the forms read are
  written out; a member that is not there reads as missing.\<close>

fun cap_json_key :: "cap \<Rightarrow> string" where
  "cap_json_key Pipes = ''pipes''"
| "cap_json_key Redirects = ''redirects''"
| "cap_json_key CmdSubst = ''cmdSubst''"
| "cap_json_key Background = ''background''"
| "cap_json_key Sudo = ''sudo''"
| "cap_json_key CodeExec = ''codeExec''"
| "cap_json_key Download = ''download''"
| "cap_json_key Install = ''install''"
| "cap_json_key WriteFs = ''writeFs''"
| "cap_json_key NetworkOut = ''networkOut''"
| "cap_json_key Cron = ''cron''"
| "cap_json_key Unrestricted = ''unrestricted''"

fun mode_name :: "mode \<Rightarrow> string" where
  "mode_name Open = ''open''"
| "mode_name Closed = ''closed''"
| "mode_name Whitelist = ''whitelist''"
| "mode_name Blacklist = ''blacklist''"

definition all_caps :: "cap list" where
  "all_caps = [Pipes, Redirects, CmdSubst, Background, Sudo, CodeExec, Download, Install, WriteFs, NetworkOut, Cron, Unrestricted]"

definition strings_json :: "string list \<Rightarrow> json" where
  "strings_json xs = JArr (map JStr xs)"

definition strings_member :: "string \<Rightarrow> string list option \<Rightarrow> (string \<times> json) list" where
  "strings_member k xs = (case xs of Some ys \<Rightarrow> [(k, strings_json ys)] | None \<Rightarrow> [])"

definition rule_json :: "command_rule \<Rightarrow> json" where
  "rule_json r = JObj ([(''command'', JStr (command r))] @ strings_member ''allowedArgs'' (allowed_args r)
     @ strings_member ''allowedSql'' (allowed_sql r) @ strings_member ''blockedArgs'' (blocked_args r)
     @ strings_member ''blockedSql'' (blocked_sql r))"

definition egress_json :: "egress_policy \<Rightarrow> json" where
  "egress_json e = JObj [(''mode'', JStr (mode_name (egress_mode e))), (''hosts'', strings_json (hosts e)), (''cidrs'', strings_json (cidrs e))]"

definition profile_json :: "guard_profile \<Rightarrow> json" where
  "profile_json p = JObj
     ([(''id'', JStr (gp_id p)), (''name'', JStr (gp_name p)), (''description'', JStr (gp_description p)),
       (''builtin'', JBool (gp_builtin p)),
       (''capabilities'', JObj (map (\<lambda>k. (cap_json_key k, JBool (get_cap (gp_capabilities p) k))) all_caps))]
      @ (case gp_commandsMode p of Some m \<Rightarrow> [(''commandsMode'', JStr (mode_name m))] | None \<Rightarrow> [])
      @ [(''commands'', JArr (map rule_json (gp_commands p)))]
      @ (case gp_egress p of Some e \<Rightarrow> [(''egress'', egress_json e)] | None \<Rightarrow> []))"

text \<open>What the page reads of a text; nothing for one that does not have the shape of a profile, which is not put there.\<close>

definition string_field :: "(string \<times> json) list \<Rightarrow> string \<Rightarrow> string option" where
  "string_field kvs k = (case map_of kvs k of Some (JStr s) \<Rightarrow> Some s | _ \<Rightarrow> None)"

definition bool_field :: "(string \<times> json) list \<Rightarrow> string \<Rightarrow> bool option" where
  "bool_field kvs k = (case map_of kvs k of Some (JBool b) \<Rightarrow> Some b | _ \<Rightarrow> None)"

fun read_strings :: "json list \<Rightarrow> string list option" where
  "read_strings [] = Some []"
| "read_strings (JStr s # vs) = map_option ((#) s) (read_strings vs)"
| "read_strings _ = None"

definition strings_field :: "(string \<times> json) list \<Rightarrow> string \<Rightarrow> string list option" where
  "strings_field kvs k = (case map_of kvs k of Some (JArr vs) \<Rightarrow> read_strings vs | _ \<Rightarrow> None)"

definition mode_of_name :: "string \<Rightarrow> mode option" where
  "mode_of_name s = find (\<lambda>m. mode_name m = s) [Open, Closed, Whitelist, Blacklist]"

definition read_caps :: "(string \<times> json) list \<Rightarrow> capabilities option" where
  "read_caps kvs =
     foldl (\<lambda>acc k. case acc of None \<Rightarrow> None | Some c \<Rightarrow> map_option (\<lambda>b. set_cap k b c) (bool_field kvs (cap_json_key k)))
       (Some DEFAULT_CAPS) all_caps"

fun read_rules :: "json list \<Rightarrow> command_rule list option" where
  "read_rules [] = Some []"
| "read_rules (JObj kvs # vs) =
     (case (string_field kvs ''command'', read_rules vs) of
        (Some n, Some rs) \<Rightarrow> Some (\<lparr>command = n, allowed_args = strings_field kvs ''allowedArgs'',
           allowed_sql = strings_field kvs ''allowedSql'', blocked_args = strings_field kvs ''blockedArgs'',
           blocked_sql = strings_field kvs ''blockedSql''\<rparr> # rs)
      | _ \<Rightarrow> None)"
| "read_rules _ = None"

definition read_egress :: "json \<Rightarrow> egress_policy option" where
  "read_egress v =
     (case v of
        JObj kvs \<Rightarrow>
          (case (Option.bind (string_field kvs ''mode'') mode_of_name, strings_field kvs ''hosts'', strings_field kvs ''cidrs'') of
             (Some m, Some hs, Some cs) \<Rightarrow> Some \<lparr>egress_mode = m, hosts = hs, cidrs = cs\<rparr>
           | _ \<Rightarrow> None)
      | _ \<Rightarrow> None)"

definition read_members :: "(string \<times> json) list \<Rightarrow> guard_profile option" where
  "read_members kvs =
     (case (string_field kvs ''id'', string_field kvs ''name'', string_field kvs ''description'', bool_field kvs ''builtin'') of
        (Some i, Some n, Some d, Some b) \<Rightarrow>
          (case (map_of kvs ''capabilities'', map_of kvs ''commands'') of
             (Some (JObj caps), Some (JArr vs)) \<Rightarrow>
               (case (read_caps caps, read_rules vs) of
                  (Some c, Some rs) \<Rightarrow>
                    Some \<lparr>gp_id = i, gp_name = n, gp_description = d, gp_builtin = b, gp_capabilities = c,
                      gp_commandsMode = Option.bind (string_field kvs ''commandsMode'') mode_of_name, gp_commands = rs,
                      gp_egress = Option.bind (map_of kvs ''egress'') read_egress\<rparr>
                | _ \<Rightarrow> None)
           | _ \<Rightarrow> None)
      | _ \<Rightarrow> None)"

definition read_profile :: "(string \<Rightarrow> string) \<Rightarrow> string \<Rightarrow> guard_profile option" where
  "read_profile num_text raw = (case json_parse num_text raw of Some (JObj kvs) \<Rightarrow> read_members kvs | _ \<Rightarrow> None)"

section \<open>The page behind an address\<close>

datatype studio_state =
    ListState
  | LoadingState
  | NotFoundState
  | StudioState "guard_profile option" studio_form

text \<open>\<open>CLONE_KEY\<close> holds the text of the profile that is copied; the entry is gone once it was read.\<close>

definition openClone :: "guard_profile \<Rightarrow> string option \<Rightarrow> string option" where
  "openClone p stored = Some (json_stringify (profile_json p))"

definition useStudioState :: "(string \<Rightarrow> string) \<Rightarrow> string option \<Rightarrow> string option \<Rightarrow> profiles_page
    \<Rightarrow> studio_state \<times> string option" where
  "useStudioState num_text stored profileId p =
     (if or_else profileId [] = [] then (ListState, stored)
      else if profileId = Some ''new'' then
        (case stored of
           Some raw \<Rightarrow>
             if raw = [] then (StudioState None EMPTY_FORM, stored)
             else (case read_profile num_text raw of
                 Some src \<Rightarrow> (StudioState None ((fromProfile src)\<lparr>form_name := gp_name src @ '' (copy)''\<rparr>), None)
               | None \<Rightarrow> (StudioState None EMPTY_FORM, None))
         | None \<Rightarrow> (StudioState None EMPTY_FORM, None))
      else if pp_loading p then (LoadingState, stored)
      else (case find_by gp_id (pp_profiles p) (or_else profileId []) of
          None \<Rightarrow> (NotFoundState, stored)
        | Some x \<Rightarrow> (StudioState (Some x) (fromProfile x), stored)))"

section \<open>A copy of a profile\<close>

lemma read_strings_json: "read_strings (map JStr xs) = Some xs"
  by (induction xs) auto

lemma rule_members_fields:
  "string_field (case rule_json r of JObj kvs \<Rightarrow> kvs | _ \<Rightarrow> []) ''command'' = Some (command r)"
  "strings_field (case rule_json r of JObj kvs \<Rightarrow> kvs | _ \<Rightarrow> []) ''allowedArgs'' = allowed_args r"
  "strings_field (case rule_json r of JObj kvs \<Rightarrow> kvs | _ \<Rightarrow> []) ''allowedSql'' = allowed_sql r"
  "strings_field (case rule_json r of JObj kvs \<Rightarrow> kvs | _ \<Rightarrow> []) ''blockedArgs'' = blocked_args r"
  "strings_field (case rule_json r of JObj kvs \<Rightarrow> kvs | _ \<Rightarrow> []) ''blockedSql'' = blocked_sql r"
  by (simp_all add: rule_json_def string_field_def strings_field_def strings_member_def strings_json_def read_strings_json
      split: option.split)

lemma read_rules_json: "read_rules (map rule_json rs) = Some rs"
proof (induction rs)
  case (Cons r rs)
  obtain kvs where k: "rule_json r = JObj kvs" by (simp add: rule_json_def)
  show ?case using Cons rule_members_fields [of r] by (simp add: k)
qed simp

lemma mode_of_mode_name: "mode_of_name (mode_name m) = Some m"
  by (cases m) (simp_all add: mode_of_name_def)

lemma read_caps_json: "read_caps (map (\<lambda>k. (cap_json_key k, JBool (get_cap c k))) all_caps) = Some c"
  by (simp add: read_caps_def all_caps_def bool_field_def DEFAULT_CAPS_def)

lemma read_egress_json: "read_egress (egress_json e) = Some e"
  by (simp add: read_egress_def egress_json_def string_field_def strings_field_def strings_json_def read_strings_json mode_of_mode_name)

lemma strings_json_ok: "json_ok nt (strings_json xs)"
  by (induction xs) (simp_all add: strings_json_def)

lemma members_ok_append: "members_ok nt (xs @ ys) \<longleftrightarrow> members_ok nt xs \<and> members_ok nt ys"
  by (auto simp: members_ok_iff)

lemma subseq_strings: "subseq ks js \<Longrightarrow> subseq (map fst (strings_member k x) @ ks) (k # js)"
  by (cases x) (auto simp: strings_member_def)

lemma strings_members_ok: "members_ok nt (strings_member k x)"
  by (cases x) (simp_all add: strings_member_def strings_json_ok)

lemma rule_json_ok: "json_ok nt (rule_json r)"
  unfolding rule_json_def
proof (rule plain_object)
  show "subseq (map fst ([(''command'', JStr (command r))] @ strings_member ''allowedArgs'' (allowed_args r)
     @ strings_member ''allowedSql'' (allowed_sql r) @ strings_member ''blockedArgs'' (blocked_args r)
     @ strings_member ''blockedSql'' (blocked_sql r))) [''command'', ''allowedArgs'', ''allowedSql'', ''blockedArgs'', ''blockedSql'']"
    using subseq_strings [of "[]" "[]" "''blockedSql''" "blocked_sql r"] by (auto intro!: subseq_strings)
qed (simp_all add: members_ok_append strings_members_ok is_index_def all_digits_def is_digit_def)

lemma rules_json_ok: "items_ok nt (map rule_json rs)"
  by (induction rs) (simp_all add: rule_json_ok)

lemma caps_json_ok: "json_ok nt (JObj (map (\<lambda>k. (cap_json_key k, JBool (get_cap c k))) all_caps))"
proof (rule plain_object [where ks = "map cap_json_key all_caps"])
  show "distinct (map cap_json_key all_caps)" by code_simp
  show "list_all (\<lambda>k. \<not> is_index k) (map cap_json_key all_caps)" by code_simp
qed (simp_all add: comp_def members_ok_iff)

lemma egress_json_ok: "json_ok nt (egress_json e)"
  unfolding egress_json_def
  by (rule plain_object [where ks = "[''mode'', ''hosts'', ''cidrs'']"])
    (simp_all add: strings_json_ok is_index_def all_digits_def is_digit_def)

lemma profile_json_ok: "json_ok nt (profile_json p)"
  unfolding profile_json_def
proof (rule plain_object)
  let ?ks = "[''id'', ''name'', ''description'', ''builtin'', ''capabilities'', ''commandsMode'', ''commands'', ''egress'']"
  show "subseq (map fst ([(''id'', JStr (gp_id p)), (''name'', JStr (gp_name p)), (''description'', JStr (gp_description p)),
       (''builtin'', JBool (gp_builtin p)),
       (''capabilities'', JObj (map (\<lambda>k. (cap_json_key k, JBool (get_cap (gp_capabilities p) k))) all_caps))]
      @ (case gp_commandsMode p of Some m \<Rightarrow> [(''commandsMode'', JStr (mode_name m))] | None \<Rightarrow> [])
      @ [(''commands'', JArr (map rule_json (gp_commands p)))]
      @ (case gp_egress p of Some e \<Rightarrow> [(''egress'', egress_json e)] | None \<Rightarrow> []))) ?ks"
    by (auto split: option.split)
qed (auto simp: members_ok_append rules_json_ok caps_json_ok egress_json_ok is_index_def all_digits_def is_digit_def
    simp del: json_ok.simps(6) split: option.split)

lemma read_profile_json: "read_profile nt (json_stringify (profile_json p)) = Some p"
proof -
  obtain kvs where k: "profile_json p = JObj kvs" by (simp add: profile_json_def)
  have "read_members kvs = Some p"
    using k by (auto simp: read_members_def profile_json_def string_field_def bool_field_def read_caps_json read_rules_json
        mode_of_mode_name read_egress_json split: option.splits)
  then show ?thesis
    using json_roundtrip [OF profile_json_ok [of nt p], of 0] by (simp add: read_profile_def json_stringify_def k)
qed

text \<open>Duplicating a profile: the studio that the page then shows, for a profile with any rules, lists and texts, holds
  exactly the form of that profile under the name with \<open>(copy)\<close> appended, as a new profile; and the text that was handed
  over is used up, so opening \<open>new\<close> again starts from the empty form.\<close>
theorem clone_is_the_profile:
  "useStudioState nt (openClone p stored) (Some ''new'') page
     = (StudioState None ((fromProfile p)\<lparr>form_name := gp_name p @ '' (copy)''\<rparr>), None)
   \<and> useStudioState nt (snd (useStudioState nt (openClone p stored) (Some ''new'') page)) (Some ''new'') page
     = (StudioState None EMPTY_FORM, None)"
proof -
  have "json_stringify (profile_json p) \<noteq> []" using read_profile_json [of nt p]
    by (auto simp: read_profile_def json_parse_def json_fuel_def skip_ws_def eval_nat_numeral)
  then show ?thesis by (simp add: useStudioState_def openClone_def or_else_def read_profile_json)
qed

end
