(* ===== verification/GuardAttachments.thy ===== *)
theory GuardAttachments
  imports GuardPages
begin

text \<open>
  Attaching a guard profile to hosts: the panel of the studio (\<open>pages/guard-profiles/AttachmentsPanel.tsx\<close>) and the
  server's side of it (\<open>apps/guard/use_cases/sync_guard_profile_attachments.go\<close>). A \<open>Set\<close> of the source is a list without
  repetition, in the order of insertion. \<open>by_name\<close> sorts hosts by name in the collation of the browser. Of a host
  the members are modelled that these two read or write. Notices are not part of the state.
\<close>

section \<open>The panel\<close>

record host_connection =
  hc_id :: string
  hc_name :: string
  hc_description :: string
  hc_dockerfile :: "string option"
  hc_profileIds :: "string list"

record attachments =
  am_connections :: "host_connection list"
  am_loading :: bool
  am_saving :: bool
  am_selected :: "string list"

definition attachments_start :: attachments where
  "attachments_start = \<lparr>am_connections = [], am_loading = False, am_saving = False, am_selected = []\<rparr>"

definition has_profile :: "string \<Rightarrow> host_connection \<Rightarrow> bool" where
  "has_profile pid c \<longleftrightarrow> pid \<in> set (hc_profileIds c)"

definition attached_ids :: "string \<Rightarrow> host_connection list \<Rightarrow> string list" where
  "attached_ids pid cs = remdups (map hc_id (filter (has_profile pid) cs))"

text \<open>The state and whether the list is asked for; \<open>None\<close> for the answer is a request that failed.\<close>

definition reload_begin :: "string option \<Rightarrow> attachments \<Rightarrow> attachments \<times> bool" where
  "reload_begin profileId a = (if or_else profileId [] = [] then (a, False) else (a\<lparr>am_loading := True\<rparr>, True))"

definition reload_end :: "string \<Rightarrow> host_connection list option \<Rightarrow> attachments \<Rightarrow> attachments" where
  "reload_end pid answer a =
     (case answer of
        Some l \<Rightarrow> a\<lparr>am_connections := l, am_selected := attached_ids pid l, am_loading := False\<rparr>
      | None \<Rightarrow> a\<lparr>am_loading := False\<rparr>)"

definition is_sandbox :: "host_connection \<Rightarrow> bool" where
  "is_sandbox c \<longleftrightarrow> or_else (hc_dockerfile c) [] \<noteq> []"

definition grouped_ssh :: "(host_connection list \<Rightarrow> host_connection list) \<Rightarrow> attachments \<Rightarrow> host_connection list" where
  "grouped_ssh by_name a = by_name (filter (\<lambda>c. \<not> is_sandbox c) (am_connections a))"

definition grouped_sandbox :: "(host_connection list \<Rightarrow> host_connection list) \<Rightarrow> attachments \<Rightarrow> host_connection list" where
  "grouped_sandbox by_name a = by_name (filter is_sandbox (am_connections a))"

definition initial_ids :: "string option \<Rightarrow> attachments \<Rightarrow> string list" where
  "initial_ids profileId a = (if or_else profileId [] = [] then [] else attached_ids (or_else profileId []) (am_connections a))"

definition attachments_dirty :: "string option \<Rightarrow> attachments \<Rightarrow> bool" where
  "attachments_dirty profileId a \<longleftrightarrow>
     length (am_selected a) \<noteq> length (initial_ids profileId a) \<or> (\<exists>i \<in> set (am_selected a). i \<notin> set (initial_ids profileId a))"

definition toggle_host :: "string \<Rightarrow> attachments \<Rightarrow> attachments" where
  "toggle_host i a = a\<lparr>am_selected := toggle_member i (am_selected a)\<rparr>"

definition set_add :: "'a \<Rightarrow> 'a list \<Rightarrow> 'a list" where
  "set_add i xs = (if i \<in> set xs then xs else xs @ [i])"

definition setAll :: "string list \<Rightarrow> bool \<Rightarrow> attachments \<Rightarrow> attachments" where
  "setAll is on a = a\<lparr>am_selected := foldl (\<lambda>xs i. if on then set_add i xs else filter (\<lambda>j. j \<noteq> i) xs) (am_selected a) is\<rparr>"

definition save_attachments_begin :: "string option \<Rightarrow> attachments \<Rightarrow> attachments \<times> (string \<times> string list) option" where
  "save_attachments_begin profileId a =
     (if or_else profileId [] = [] then (a, None) else (a\<lparr>am_saving := True\<rparr>, Some (or_else profileId [], am_selected a)))"

text \<open>The request is answered: the list is asked for again, and the panel is busy until it is there.\<close>

definition save_attachments_sent :: "bool \<Rightarrow> string \<Rightarrow> attachments \<Rightarrow> attachments \<times> bool" where
  "save_attachments_sent ok pid a = (if ok then reload_begin (Some pid) a else (a\<lparr>am_saving := False\<rparr>, False))"

definition save_attachments_end :: "string \<Rightarrow> host_connection list option \<Rightarrow> attachments \<Rightarrow> attachments" where
  "save_attachments_end pid answer a = (reload_end pid answer a)\<lparr>am_saving := False\<rparr>"

definition save_disabled :: "string option \<Rightarrow> attachments \<Rightarrow> bool" where
  "save_disabled profileId a \<longleftrightarrow> \<not> attachments_dirty profileId a \<or> am_saving a"

text \<open>The link of a group and what it does.\<close>

definition group_link :: "host_connection list \<Rightarrow> attachments \<Rightarrow> string" where
  "group_link items a =
     (if list_all (\<lambda>c. hc_id c \<in> set (am_selected a)) items then ''Clear all''
      else if list_ex (\<lambda>c. hc_id c \<in> set (am_selected a)) items then ''Add rest'' else ''Add all'')"

definition press_group :: "host_connection list \<Rightarrow> attachments \<Rightarrow> attachments" where
  "press_group items a = setAll (map hc_id items) (\<not> list_all (\<lambda>c. hc_id c \<in> set (am_selected a)) items) a"

definition host_note :: "host_connection \<Rightarrow> string" where
  "host_note c =
     (if hc_profileIds c = [] then []
      else nat_str (length (hc_profileIds c)) @ '' profile'' @ (if length (hc_profileIds c) = 1 then [] else ''s''))"

definition attached_note :: "attachments \<Rightarrow> string" where
  "attached_note a = nat_str (length (am_selected a)) @ '' of '' @ nat_str (length (am_connections a)) @ '' attached''"

section \<open>The server\<close>

text \<open>\<open>None\<close> when the profile does not exist. The store (\<open>infrastructure/adapters/store/postgres.go\<close>) is the list of its
  rows; ids are keys there, so an update replaces the row of each given host, and the listing after it has the rows in the
  order of the listing before it.\<close>

definition synced_host :: "string \<Rightarrow> string list \<Rightarrow> host_connection \<Rightarrow> host_connection option" where
  "synced_host profileID connectionIDs c =
     (let shouldHave = hc_id c \<in> set connectionIDs in
      if has_profile profileID c = shouldHave then None
      else Some (c\<lparr>hc_profileIds := filter (\<lambda>p. p \<noteq> profileID) (hc_profileIds c) @ (if shouldHave then [profileID] else [])\<rparr>))"

definition store_update :: "host_connection list \<Rightarrow> host_connection list \<Rightarrow> host_connection list" where
  "store_update changed all = map (\<lambda>c. or_else (find_by hc_id changed (hc_id c)) c) all"

definition sync_execute :: "string list \<Rightarrow> string \<Rightarrow> string list \<Rightarrow> host_connection list \<Rightarrow> host_connection list option" where
  "sync_execute profiles profileID connectionIDs all =
     (if profileID \<notin> set profiles then None
      else Some (let toUpdate = List.map_filter (synced_host profileID connectionIDs) all in
        if toUpdate = [] then all else store_update toUpdate all))"

text \<open>The panel at work: what the user presses, between a load and saving it.\<close>

datatype attach_event = ToggleHost string | PressSsh | PressSandboxes

definition attach_step :: "(host_connection list \<Rightarrow> host_connection list) \<Rightarrow> attach_event \<Rightarrow> attachments \<Rightarrow> attachments" where
  "attach_step by_name e a =
     (case e of
        ToggleHost i \<Rightarrow> toggle_host i a
      | PressSsh \<Rightarrow> press_group (grouped_ssh by_name a) a
      | PressSandboxes \<Rightarrow> press_group (grouped_sandbox by_name a) a)"

definition attach_run :: "(host_connection list \<Rightarrow> host_connection list) \<Rightarrow> attach_event list \<Rightarrow> attachments \<Rightarrow> attachments" where
  "attach_run by_name es a = fold (attach_step by_name) es a"

text \<open>Opening the panel on the hosts of the server, and saving it: the server's hosts after that and the panel.\<close>

definition open_panel :: "string \<Rightarrow> host_connection list \<Rightarrow> attachments \<Rightarrow> attachments" where
  "open_panel pid cs a = reload_end pid (Some cs) (fst (reload_begin (Some pid) a))"

definition save_panel :: "string list \<Rightarrow> string \<Rightarrow> host_connection list \<Rightarrow> attachments \<Rightarrow> host_connection list \<times> attachments" where
  "save_panel profiles pid cs a =
     (case save_attachments_begin (Some pid) a of
        (b, None) \<Rightarrow> (cs, b)
      | (b, Some (p, ids)) \<Rightarrow>
          (case sync_execute profiles p ids cs of
             None \<Rightarrow> (cs, fst (save_attachments_sent False p b))
           | Some ds \<Rightarrow> (ds, save_attachments_end p (Some ds) (fst (save_attachments_sent True p b)))))"

section \<open>What is saved\<close>

lemma set_toggle_member: "set (toggle_member i xs) = (if i \<in> set xs then set xs - {i} else insert i (set xs))"
  by (auto simp: toggle_member_def)

lemma distinct_toggle_member: "distinct xs \<Longrightarrow> distinct (toggle_member i xs)"
  by (simp add: toggle_member_def)

lemma set_all_selected:
  "set (am_selected (setAll is on a)) = (if on then set (am_selected a) \<union> set is else set (am_selected a) - set is)"
proof -
  have "set (foldl (\<lambda>xs i. if on then set_add i xs else filter (\<lambda>j. j \<noteq> i) xs) ys is)
      = (if on then set ys \<union> set is else set ys - set is)" for ys
    by (induction "is" arbitrary: ys) (auto simp: set_add_def)
  then show ?thesis by (simp add: setAll_def)
qed

lemma set_all_distinct: "distinct (am_selected a) \<Longrightarrow> distinct (am_selected (setAll is on a))"
proof -
  have "distinct ys \<Longrightarrow> distinct (foldl (\<lambda>xs i. if on then set_add i xs else filter (\<lambda>j. j \<noteq> i) xs) ys is)" for ys
    by (induction "is" arbitrary: ys) (auto simp: set_add_def)
  then show "distinct (am_selected a) \<Longrightarrow> distinct (am_selected (setAll is on a))" by (simp add: setAll_def)
qed

text \<open>A group's link ticks what is not ticked yet, and clears the group when all of it is ticked; other groups stay.\<close>

lemma press_group_selected:
  "set (am_selected (press_group items a)) =
     (if hc_id ` set items \<subseteq> set (am_selected a) then set (am_selected a) - hc_id ` set items
      else set (am_selected a) \<union> hc_id ` set items)"
  by (auto simp: press_group_def set_all_selected list_all_iff)

lemma press_group_link:
  "items \<noteq> [] \<Longrightarrow> group_link items (press_group items a) = (if group_link items a = ''Clear all'' then ''Add all'' else ''Clear all'')"
  by (cases items) (auto simp: group_link_def press_group_selected list_all_iff list_ex_iff)

lemma attach_step_keeps:
  assumes "distinct (am_selected a)"
  shows "distinct (am_selected (attach_step by_name e a))"
    and "am_connections (attach_step by_name e a) = am_connections a"
  using assms by (cases e; simp add: attach_step_def toggle_host_def distinct_toggle_member press_group_def set_all_distinct; simp add: setAll_def)+

lemma attach_run_keeps:
  "distinct (am_selected a) \<Longrightarrow> distinct (am_selected (attach_run by_name es a))
     \<and> am_connections (attach_run by_name es a) = am_connections a"
  by (induction es arbitrary: a) (simp_all add: attach_run_def attach_step_keeps)

lemma open_panel_state: "pid \<noteq> [] \<Longrightarrow> open_panel pid cs a = a\<lparr>am_connections := cs, am_selected := attached_ids pid cs, am_loading := False\<rparr>"
  by (simp add: open_panel_def reload_begin_def reload_end_def)

lemma reloaded_panel_is_clean: "pid \<noteq> [] \<Longrightarrow> am_selected a = attached_ids pid (am_connections a) \<Longrightarrow> \<not> attachments_dirty (Some pid) a"
  by (simp add: attachments_dirty_def initial_ids_def or_else_def)

lemma synced_hosts_found:
  assumes "distinct (map hc_id cs)" and "c \<in> set cs"
  shows "find_by hc_id (List.map_filter (synced_host pid is) cs) (hc_id c) = synced_host pid is c"
  using assms
proof (induction cs)
  case (Cons x cs)
  have i: "synced_host pid is z = Some y \<Longrightarrow> hc_id y = hc_id z" for y z by (auto simp: synced_host_def Let_def split: if_splits)
  have n: "find_by hc_id (List.map_filter (synced_host pid is) zs) k = None" if "k \<notin> hc_id ` set zs" for zs k
    using that i by (induction zs) (auto simp: List.map_filter_simps split: option.split)
  show ?case
  proof (cases "c = x")
    case True
    then show ?thesis using Cons.prems(1) n i by (auto simp: List.map_filter_simps split: option.split)
  next
    case False
    then have "hc_id x \<noteq> hc_id c" using Cons.prems by auto
    then show ?thesis using Cons False i by (auto simp: List.map_filter_simps split: option.split)
  qed
qed simp

lemma synced_nothing: "List.map_filter f xs = [] \<longleftrightarrow> (\<forall>x \<in> set xs. f x = None)"
  by (induction xs) (auto simp: List.map_filter_simps split: option.split)

lemma sync_execute_map:
  assumes "distinct (map hc_id cs)" and "pid \<in> set profiles"
  shows "sync_execute profiles pid is cs = Some (map (\<lambda>c. or_else (synced_host pid is c) c) cs)"
proof (cases "List.map_filter (synced_host pid is) cs = []")
  case True
  then have "map (\<lambda>c. or_else (synced_host pid is c) c) cs = cs" by (auto simp: synced_nothing or_else_def intro: map_idI)
  then show ?thesis using assms(2) True by (simp add: sync_execute_def)
next
  case False
  then show ?thesis using assms by (simp add: sync_execute_def store_update_def synced_hosts_found cong: map_cong)
qed

lemma synced_host_profiles:
  "\<exists>ps. or_else (synced_host pid is c) c = c\<lparr>hc_profileIds := ps\<rparr> \<and> (pid \<in> set ps \<longleftrightarrow> hc_id c \<in> set is)
     \<and> filter (\<lambda>p. p \<noteq> pid) ps = filter (\<lambda>p. p \<noteq> pid) (hc_profileIds c)"
proof (cases "synced_host pid is c")
  case None
  then show ?thesis by (auto simp: synced_host_def Let_def has_profile_def or_else_def split: if_splits intro!: exI [of _ "hc_profileIds c"])
next
  case (Some d)
  then show ?thesis by (auto simp: synced_host_def Let_def has_profile_def or_else_def split: if_splits)
qed

text \<open>C18: Whatever hosts the user ticks one by one or by the links of the groups, saving the panel leaves every host of the
  server as it is except for its profiles: there this profile is attached exactly when the host was ticked, and the other
  profiles stay, in their order. The panel then shows what the server has and has nothing to save.\<close>
theorem saving_attaches_the_ticked_hosts:
  assumes "distinct (map hc_id cs)" and "pid \<in> set profiles" and "pid \<noteq> []"
    and "a = attach_run by_name es (open_panel pid cs a0)"
    and "save_panel profiles pid cs a = (ds, b)"
  shows "list_all2 (\<lambda>c d. (\<exists>ps. d = c\<lparr>hc_profileIds := ps\<rparr> \<and> (pid \<in> set ps \<longleftrightarrow> hc_id c \<in> set (am_selected a))
             \<and> filter (\<lambda>p. p \<noteq> pid) ps = filter (\<lambda>p. p \<noteq> pid) (hc_profileIds c))) cs ds
         \<and> am_connections b = ds \<and> \<not> attachments_dirty (Some pid) b \<and> save_disabled (Some pid) b"
proof -
  let ?d = "\<lambda>c. or_else (synced_host pid (am_selected a) c) c"
  have s: "ds = map ?d cs \<and> b = save_attachments_end pid (Some ds) (fst (save_attachments_sent True pid (fst (save_attachments_begin (Some pid) a))))"
    using assms(5) by (auto simp: save_panel_def save_attachments_begin_def assms(3) or_else_def [of "Some pid"] sync_execute_map [OF assms(1, 2)])
  have p: "list_all2 (\<lambda>c d. (\<exists>ps. d = c\<lparr>hc_profileIds := ps\<rparr> \<and> (pid \<in> set ps \<longleftrightarrow> hc_id c \<in> set (am_selected a))
             \<and> filter (\<lambda>p. p \<noteq> pid) ps = filter (\<lambda>p. p \<noteq> pid) (hc_profileIds c))) cs ds"
    using s synced_host_profiles [of pid "am_selected a"] by (simp add: list_all2_map2 list.rel_refl)
  have "am_connections b = ds \<and> am_selected b = attached_ids pid (am_connections b)"
    using s by (simp add: save_attachments_end_def reload_end_def save_attachments_sent_def)
  then show ?thesis using p reloaded_panel_is_clean [OF assms(3)] by (simp add: save_disabled_def)
qed

definition example_hosts :: "host_connection list" where
  "example_hosts =
     [\<lparr>hc_id = ''a'', hc_name = ''web'', hc_description = [], hc_dockerfile = None, hc_profileIds = [''p'', ''q'']\<rparr>,
      \<lparr>hc_id = ''b'', hc_name = ''db'', hc_description = [], hc_dockerfile = None, hc_profileIds = [''q'']\<rparr>,
      \<lparr>hc_id = ''c'', hc_name = ''box'', hc_description = [], hc_dockerfile = Some ''FROM x'', hc_profileIds = []\<rparr>]"

lemma saving_attaches_the_ticked_hosts_witness:
  "list_all2 (\<lambda>c d. (\<exists>ps. d = c\<lparr>hc_profileIds := ps\<rparr> \<and> (''p'' \<in> set ps \<longleftrightarrow> hc_id c \<in> {''b'', ''c''})
      \<and> filter (\<lambda>p. p \<noteq> ''p'') ps = filter (\<lambda>p. p \<noteq> ''p'') (hc_profileIds c))) example_hosts
      (fst (save_panel [''p''] ''p'' example_hosts (attach_run (\<lambda>xs. xs) [PressSsh, PressSandboxes, ToggleHost ''a''] (open_panel ''p'' example_hosts attachments_start))))"
proof -
  let ?a = "attach_run (\<lambda>xs. xs) [PressSsh, PressSandboxes, ToggleHost ''a''] (open_panel ''p'' example_hosts attachments_start)"
  have s: "set (am_selected ?a) = {''b'', ''c''}" unfolding example_hosts_def by code_simp
  have d: "distinct (map hc_id example_hosts)" by (simp add: example_hosts_def)
  from saving_attaches_the_ticked_hosts [OF d, of "''p''" "[''p'']" ?a "\<lambda>xs. xs" "[PressSsh, PressSandboxes, ToggleHost ''a'']" attachments_start "fst (save_panel [''p''] ''p'' example_hosts ?a)"
      "snd (save_panel [''p''] ''p'' example_hosts ?a)"]
  show ?thesis by (simp add: s)
qed

end
