(* ===== verification/GuardTyping.thy ===== *)
theory GuardTyping
  imports GuardPages
begin

text \<open>
  The list of commands of the studio against the server that reads it: adding a typed rule (\<open>CommandList\<close> of
  \<open>pages/guard-profiles/Studio.tsx\<close>) and the verdicts of \<open>core/plugins/guard/guard.go\<close> on the saved profile.
\<close>

section \<open>A typed rule and the server's reading of the list\<close>

text \<open>The server joins rules for one command: their lists are appended, and one rule without allowed lists allows all.\<close>

definition allows_all :: "command_rule \<Rightarrow> bool" where
  "allows_all r \<longleftrightarrow> or_else (allowed_args r) [] = [] \<and> or_else (allowed_sql r) [] = []"

text \<open>Rows with the same verdicts: the same lists as sets, without empty words.\<close>

definition same_row :: "merged_command \<Rightarrow> merged_command \<Rightarrow> bool" where
  "same_row a b \<longleftrightarrow> allow_all a = allow_all b \<and> set (mc_allowed_args a) = set (mc_allowed_args b)
     \<and> set (mc_allowed_sql a) = set (mc_allowed_sql b) \<and> set (mc_blocked_args a) = set (mc_blocked_args b)
     \<and> set (mc_blocked_sql a) = set (mc_blocked_sql b) \<and> (\<forall>t \<in> set (mc_blocked_sql a). [] \<notin> set t)"

definition same_profile :: "merged_profile \<Rightarrow> merged_profile \<Rightarrow> bool" where
  "same_profile p q \<longleftrightarrow> mp_caps p = mp_caps q \<and> mp_mode p = mp_mode q
     \<and> (\<forall>n. rel_option same_row (map_of (mp_commands p) n) (map_of (mp_commands q) n))"

lemma same_profile_cases:
  assumes "same_profile p q"
  obtains "map_of (mp_commands p) n = None" and "map_of (mp_commands q) n = None"
  | a b where "map_of (mp_commands p) n = Some a" and "map_of (mp_commands q) n = Some b" and "same_row a b"
proof -
  have "rel_option same_row (map_of (mp_commands p) n) (map_of (mp_commands q) n)" using assms by (simp add: same_profile_def)
  then show ?thesis using that by (cases rule: option.rel_cases) auto
qed

lemma join_nonempty: "b \<noteq> [] \<Longrightarrow> [] \<notin> set b \<Longrightarrow> join s b \<noteq> []"
  by (induction s b rule: join.induct) auto

lemma matchSQLBlock_iff:
  assumes "\<forall>b \<in> set bs. [] \<notin> set b"
  shows "matchSQLBlock q bs = [] \<longleftrightarrow> splitSQLTokens q = []
    \<or> (\<forall>b \<in> set bs. \<not> (b \<noteq> [] \<and> length b \<le> length (splitSQLTokens q) \<and> map trim_semis (take (length b) (splitSQLTokens q)) = b))"
  using assms join_nonempty
  by (auto simp: matchSQLBlock_def Let_def find_None_iff find_Some_iff split: option.splits)

lemma same_matches:
  assumes "same_row a b"
  shows "matchSQLBlock q (mc_blocked_sql a) = [] \<longleftrightarrow> matchSQLBlock q (mc_blocked_sql b) = []"
  using assms by (subst (1 2) matchSQLBlock_iff) (auto simp: same_row_def)

lemma same_mode:
  assumes "same_profile p q" and "\<And>a b. same_row a b \<Longrightarrow> l a = None \<longleftrightarrow> m b = None"
  shows "check_mode order p n l = None \<longleftrightarrow> check_mode order q n m = None"
proof (cases rule: same_profile_cases [OF assms(1), of n])
  case 1
  then show ?thesis using assms(1) by (simp add: check_mode_def deny_def same_profile_def split: mode.split)
next
  case (2 a b)
  then show ?thesis using assms by (simp add: check_mode_def deny_def same_profile_def split: mode.split)
qed

lemma same_sql:
  assumes "same_profile p q"
  shows "checkSQL order p n t = None \<longleftrightarrow> checkSQL order q n t = None"
proof -
  let ?l = "\<lambda>r mc. if allow_all mc \<or> mc_allowed_sql mc = [] then None
        else let t = trim t in
             if t = [] then None
             else let token = hd (GuardPolicy.fields t) in
                  if map to_upper token \<in> set (mc_allowed_sql mc) then None
                  else deny ''sql-not-allowed''
                    (''SQL '' @ (if hd t = CHR 0x5C then quoted token else map to_upper token)
                     @ '' not allowed via '' @ n @ ''. Allowed: '' @ join '', '' (order (remdups (mc_allowed_sql mc))))"
  have m: "check_mode order p n (?l p) = None \<longleftrightarrow> check_mode order q n (?l q) = None"
    by (rule same_mode [OF assms]) (auto simp: same_row_def deny_def Let_def)
  show ?thesis
    using m by (cases rule: same_profile_cases [OF assms, of n]) (simp_all add: checkSQL_def deny_def same_matches Let_def)
qed

lemma same_listed:
  assumes "same_profile p q"
  shows "check_listed order p n args = None \<longleftrightarrow> check_listed order q n args = None"
proof -
  let ?l = "\<lambda>mc. if allow_all mc then None
          else if mc_allowed_args mc \<noteq> [] \<and> 1 < length args \<and> args ! 1 \<notin> set (mc_allowed_args mc)
          then deny ''arg-not-allowed''
                 (quoted (n @ '' '' @ args ! 1) @ '' not allowed. Allowed for '' @ n @ '': ''
                  @ join '', '' (order (remdups (mc_allowed_args mc))))
          else None"
  have m: "check_mode order p n ?l = None \<longleftrightarrow> check_mode order q n ?l = None"
    by (rule same_mode [OF assms]) (auto simp: same_row_def deny_def)
  have c: "mp_caps p = mp_caps q" using assms by (simp add: same_profile_def)
  show ?thesis
  proof (cases rule: same_profile_cases [OF assms, of n])
    case 1
    then show ?thesis using m by (simp add: check_listed_def c split: option.split)
  next
    case (2 a b)
    then have "set (mc_blocked_args a) = set (mc_blocked_args b)" by (simp add: same_row_def)
    then show ?thesis using 2 m by (simp add: check_listed_def c deny_def split: option.split)
  qed
qed

lemma same_call:
  assumes "same_profile p q" and "call_name args \<notin> set nestingShells"
  shows "checkCallExpr order nst p args = None \<longleftrightarrow> checkCallExpr order nst' q args = None"
proof -
  have c: "mp_caps p = mp_caps q" using assms(1) by (simp add: same_profile_def)
  have n: "check_named order nst p xs = None \<longleftrightarrow> check_named order nst' q xs = None" if "hd xs \<notin> set nestingShells" for xs
    using that same_sql [OF assms(1)] same_listed [OF assms(1)] by (simp add: check_named_def Let_def c deny_def)
  then show ?thesis
    using assms(2) by (auto simp: checkCallExpr_def strip_sudo_def strip_nohup_def deny_def c call_name_def call_args_def
        split: if_splits sum.splits)
qed

lemma same_verdict:
  assumes "same_profile (merge_profile (toPayload f)) (merge_profile (toPayload g))" and "call_name args \<notin> set nestingShells"
  shows "evaluate_call order nst (toPayload f) args = None \<longleftrightarrow> evaluate_call order nst (toPayload g) args = None"
  using assms(1) same_call [OF assms] by (simp add: evaluate_call_def Let_def same_profile_def)

lemma dedupe_opt_items: "set (or_else (dedupe_opt x y) []) = set (or_else x []) \<union> set (or_else y [])"
  "or_else (dedupe_opt x y) [] = [] \<longleftrightarrow> or_else x [] = [] \<and> or_else y [] = []"
  by (auto simp: dedupe_opt_def Let_def or_else_def split: option.split)

lemma sql_words_nonempty: "[] \<notin> set (splitSQLTokens s)"
  by (auto simp: splitSQLTokens_def GuardPolicy.fields_def non_empty_def)

lemma row_words_nonempty: "t \<in> set (mc_blocked_sql (merged_row rs)) \<Longrightarrow> [] \<notin> set t"
  by (auto simp: merged_row_def sql_words_nonempty)

lemma same_row_refl: "same_row (merged_row rs) (merged_row rs)"
  by (auto simp: same_row_def dest: row_words_nonempty)

lemma merged_rule_row:
  assumes "list_all (\<lambda>x. allows_all x = allows_all r) (xs @ c # ys)"
  shows "same_row (merged_row (xs @ mergeCommandRule c r # ys)) (merged_row (xs @ c # ys @ [r]))"
proof -
  have e: "list_ex allows_all xs = (xs \<noteq> [] \<and> allows_all r)" if "list_all (\<lambda>x. allows_all x = allows_all r) xs" for xs
    using that by (cases xs) (auto simp: list_all_iff list_ex_iff)
  have m: "allows_all (mergeCommandRule c r) = (allows_all c \<and> allows_all r)"
    by (auto simp: allows_all_def mergeCommandRule_def dedupe_opt_items)
  have "allow_all (merged_row (xs @ mergeCommandRule c r # ys)) = allow_all (merged_row (xs @ c # ys @ [r]))"
    using assms e [of xs] e [of ys] m by (auto simp: merged_row_def allows_all_def [symmetric])
  then show ?thesis
    using row_words_nonempty [of _ "xs @ mergeCommandRule c r # ys"]
    by (simp add: same_row_def merged_row_def mergeCommandRule_def dedupe_opt_items) blast
qed

lemma command_merge [simp]: "command (mergeCommandRule c r) = command c"
  by (simp add: mergeCommandRule_def)

lemma rows_of_append: "rows_of n (xs @ ys) = rows_of n xs @ rows_of n ys"
  by (simp add: rows_of_def)

lemma rows_of_single: "rows_of n [r] = (if command r = n then [r] else [])"
  by (simp add: rows_of_def)

lemma added_rule_profile:
  assumes r: "parseCommandRule (cl_draft l) = Some r" and all: "\<forall>c \<in> set (commands f). command c = command r \<longrightarrow> allows_all c = allows_all r"
  shows "same_profile (merge_profile (toPayload (snd (add_rule l f)))) (merge_profile (toPayload (f\<lparr>commands := commands f @ [r]\<rparr>)))"
proof (cases "find_index (\<lambda>c. command c = command r) (commands f)")
  case None
  then have "snd (add_rule l f) = f\<lparr>commands := commands f @ [r]\<rparr>" by (simp add: add_rule_def r)
  then show ?thesis
    by (simp add: same_profile_def merge_profile_def toPayload_def map_of_merge_rules same_row_refl del: fold_append)
next
  case (Some i)
  let ?m = "mergeCommandRule (commands f ! i) r"
  have a: "snd (add_rule l f) = f\<lparr>commands := (commands f)[i := ?m]\<rparr>" by (simp add: add_rule_def r Some)
  have i: "i < length (commands f)" "command (commands f ! i) = command r" using Some by (auto simp: find_index_Some)
  obtain xs ys where rows: "rows_of (command r) (commands f) = xs @ commands f ! i # ys"
    and upd: "\<And>x. command x = command r \<Longrightarrow> rows_of (command r) ((commands f)[i := x]) = xs @ x # ys"
    using rows_of_update [OF i] by blast
  have "list_all (\<lambda>x. allows_all x = allows_all r) (rows_of (command r) (commands f))"
    using all by (auto simp: rows_of_def list_all_iff)
  then have n: "same_row (merged_row (rows_of (command r) ((commands f)[i := ?m]))) (merged_row (rows_of (command r) (commands f @ [r])))"
    using merged_rule_row upd [of ?m] rows i(2) by (simp add: rows_of_append rows_of_single)
  have o: "rows_of n ((commands f)[i := ?m]) = rows_of n (commands f @ [r])" if "n \<noteq> command r" for n
    using that i arg_cong [OF id_take_nth_drop [OF i(1)], of "rows_of n"]
    by (simp add: upd_conv_take_nth_drop) (simp add: rows_of_def)
  have "rel_option same_row (map_of (fold merge_rule ((commands f)[i := ?m]) []) n) (map_of (fold merge_rule (commands f @ [r]) []) n)" for n
  proof (cases "n = command r")
    case True
    then show ?thesis using n upd [of ?m] i(2) by (simp add: map_of_merge_rules rows_of_append rows_of_single del: fold_append)
  next
    case False
    then show ?thesis using o [OF False] by (simp add: map_of_merge_rules same_row_refl del: fold_append)
  qed
  then show ?thesis by (simp add: a same_profile_def merge_profile_def toPayload_def del: fold_append)
qed

text \<open>C12: Adding a typed rule in the studio, which joins it with a rule for the same command, is the same for the server as
  a list with both rules: every command that no shell nests in is allowed by the one exactly when it is by the other; provided
  the rules there for that command have allowed lists just as the new one has, or none.\<close>
theorem added_rule_is_one_more_rule:
  assumes "parseCommandRule (cl_draft l) = Some r"
    and "\<forall>c \<in> set (commands f). command c = command r \<longrightarrow> allows_all c = allows_all r"
    and "call_name args \<notin> set nestingShells"
  shows "evaluate_call order nst (toPayload (snd (add_rule l f))) args = None
     \<longleftrightarrow> evaluate_call order nst (toPayload (f\<lparr>commands := commands f @ [r]\<rparr>)) args = None"
  using same_verdict [OF added_rule_profile [OF assms(1, 2)] assms(3)] .

definition narrowed_git :: studio_form where
  "narrowed_git = EMPTY_FORM\<lparr>commands := [(plain_rule ''git'')\<lparr>allowed_args := Some [''log'']\<rparr>]\<rparr>"

definition typed :: "string \<Rightarrow> command_list" where
  "typed s = \<lparr>cl_draft = s, cl_editing = None, cl_editVal = []\<rparr>"

lemma added_rule_is_one_more_rule_witness:
  "evaluate_call (\<lambda>xs. xs) (\<lambda>p s. None) (toPayload (snd (add_rule (typed ''git[diff]'') narrowed_git))) [''git'', ''diff''] = None
   \<longleftrightarrow> evaluate_call (\<lambda>xs. xs) (\<lambda>p s. None) (toPayload (narrowed_git\<lparr>commands := commands narrowed_git
          @ [(plain_rule ''git'')\<lparr>allowed_args := Some [''diff'']\<rparr>]\<rparr>)) [''git'', ''diff''] = None"
proof (rule added_rule_is_one_more_rule)
  show "parseCommandRule (cl_draft (typed ''git[diff]'')) = Some ((plain_rule ''git'')\<lparr>allowed_args := Some [''diff'']\<rparr>)" by code_simp
  show "\<forall>c \<in> set (commands narrowed_git). command c = command ((plain_rule ''git'')\<lparr>allowed_args := Some [''diff'']\<rparr>)
      \<longrightarrow> allows_all c = allows_all ((plain_rule ''git'')\<lparr>allowed_args := Some [''diff'']\<rparr>)"
    by (simp add: narrowed_git_def allows_all_def or_else_def)
  show "call_name [''git'', ''diff''] \<notin> set nestingShells" by code_simp
qed

lemma plain_merge_row:
  assumes "\<not> allows_all c"
  shows "same_row (merged_row (xs @ c # ys)) (merged_row (xs @ mergeCommandRule c (plain_rule n) # ys))"
  using assms row_words_nonempty [of _ "xs @ c # ys"]
  by (auto simp: same_row_def merged_row_def allows_all_def mergeCommandRule_def plain_rule_def dedupe_opt_items or_else_def [of None])

lemma plain_rule_profile:
  assumes "parseCommandRule (cl_draft l) = Some (plain_rule n)" and "\<forall>c \<in> set (commands f). command c = n \<longrightarrow> \<not> allows_all c"
    and "n \<in> command ` set (commands f)"
  shows "same_profile (merge_profile (toPayload f)) (merge_profile (toPayload (snd (add_rule l f))))"
proof -
  obtain i where s: "find_index (\<lambda>c. command c = n) (commands f) = Some i"
    using assms(3) find_index_None [of "\<lambda>c. command c = n" "commands f"] by (cases "find_index (\<lambda>c. command c = n) (commands f)") auto
  let ?m = "mergeCommandRule (commands f ! i) (plain_rule n)"
  have a: "snd (add_rule l f) = f\<lparr>commands := (commands f)[i := ?m]\<rparr>" using s by (simp add: add_rule_def assms(1))
  have i: "i < length (commands f)" "command (commands f ! i) = n" using s by (auto simp: find_index_Some)
  obtain xs ys where rows: "rows_of n (commands f) = xs @ commands f ! i # ys"
    and upd: "\<And>x. command x = n \<Longrightarrow> rows_of n ((commands f)[i := x]) = xs @ x # ys"
    using rows_of_update [OF i] by blast
  have n: "same_row (merged_row (rows_of n (commands f))) (merged_row (rows_of n ((commands f)[i := ?m])))"
    using plain_merge_row upd [of ?m] rows assms(2) i by simp
  have o: "rows_of k ((commands f)[i := ?m]) = rows_of k (commands f)" if "k \<noteq> n" for k
    using that i arg_cong [OF id_take_nth_drop [OF i(1)], of "rows_of k"] by (simp add: upd_conv_take_nth_drop) (simp add: rows_of_def)
  have "rel_option same_row (map_of (fold merge_rule (commands f) []) k) (map_of (fold merge_rule ((commands f)[i := ?m]) []) k)" for k
    using n o [of k] rows upd [of ?m] i(2) by (cases "k = n") (simp_all add: map_of_merge_rules same_row_refl)
  then show ?thesis by (simp add: a same_profile_def merge_profile_def toPayload_def)
qed

text \<open>Typing the plain name of a command whose rules are narrowed does not open it, although the list reports it as updated:
  a call that was denied for its argument stays denied, while the server, given both rules, would allow it.\<close>
theorem plain_command_stays_narrowed:
  assumes "parseCommandRule (cl_draft l) = Some (plain_rule n)" and "\<forall>c \<in> set (commands f). command c = n \<longrightarrow> \<not> allows_all c"
    and "evaluate_call order nst (toPayload f) args = Some v" and "v_rule v = ''arg-not-allowed''"
    and "call_name args = n" and "n \<notin> set nestingShells"
  shows "evaluate_call order nst (toPayload (snd (add_rule l f))) args \<noteq> None
     \<and> evaluate_call order nst (toPayload (f\<lparr>commands := commands f @ [plain_rule n]\<rparr>)) args = None"
proof -
  let ?g = "f\<lparr>commands := commands f @ [plain_rule n]\<rparr>"
  let ?mp = "merge_profile (toPayload f)" let ?mg = "merge_profile (toPayload ?g)"
  have mr: "v_rule v \<in> mode_rules" using assms(4) by (simp add: mode_rules_def)
  have ev: "checkCallExpr order (nst ?mp) ?mp args = Some v" "\<not> unrestricted (form_caps f)"
    using evaluate_checks [OF assms(3)] by (auto simp: toPayload_def)
  have caps: "mp_caps ?mg = mp_caps ?mp" "mp_mode ?mg = mp_mode ?mp" by (simp_all add: merge_profile_def toPayload_def)
  note named = checkCallExpr_named [OF ev(1) mr]
  have h: "hd (call_args args) = n" using assms(5) by (simp add: call_name_def)
  note listed = named_arg [OF named(1) assms(4)]
  obtain mc where mc: "mp_mode ?mp = Whitelist" "map_of (mp_commands ?mp) n = Some mc"
    "call_args args ! 1 \<notin> set (mc_blocked_args mc)" "check_kind (mp_caps ?mp) n = None"
    using listed_arg [OF listed(1) assms(4)] h assms(6) by auto
  have row: "mc = merged_row (rows_of n (commands f))" "rows_of n (commands f) \<noteq> []"
    using mc(2) by (auto simp: merge_profile_def toPayload_def map_of_merge_rules split: if_splits)
  let ?R = "merged_row (rows_of n (commands f) @ [plain_rule n])"
  have R: "allow_all ?R" "mc_blocked_args ?R = mc_blocked_args mc"
    using row(1) by (simp_all add: merged_row_def plain_rule_def or_else_def [of None])
  have "map_of (mp_commands ?mg) n = Some ?R"
    by (simp add: merge_profile_def toPayload_def map_of_merge_rules rows_of_append rows_of_single plain_rule_def del: fold_append)
  then have "check_listed order ?mg n (call_args args) = None"
    using mc R by (simp add: check_listed_def caps check_mode_def)
  then have "evaluate_call order nst (toPayload ?g) args = None"
    using named(2) [OF caps(1)] listed(2) [OF _ caps(1)] h assms(6) ev(2)
    by (simp add: evaluate_call_def Let_def) 
  moreover have "n \<in> command ` set (commands f)" using row(2) by (auto simp: rows_of_def filter_empty_conv)
  then have "evaluate_call order nst (toPayload (snd (add_rule l f))) args \<noteq> None"
    using same_verdict [OF plain_rule_profile [OF assms(1, 2)], of args order nst] assms(3, 5, 6) by simp
  ultimately show ?thesis by simp
qed

lemma plain_command_stays_narrowed_witness:
  "evaluate_call (\<lambda>xs. xs) (\<lambda>p s. None) (toPayload (snd (add_rule (typed ''git'') narrowed_git))) [''git'', ''push''] \<noteq> None
   \<and> evaluate_call (\<lambda>xs. xs) (\<lambda>p s. None) (toPayload (narrowed_git\<lparr>commands := commands narrowed_git @ [plain_rule ''git'']\<rparr>)) [''git'', ''push''] = None"
proof -
  have p: "parseCommandRule (cl_draft (typed ''git'')) = Some (plain_rule ''git'')" by code_simp
  have a: "\<forall>c \<in> set (commands narrowed_git). command c = ''git'' \<longrightarrow> \<not> allows_all c"
    by (simp add: narrowed_git_def allows_all_def or_else_def)
  have "map_option v_rule (evaluate_call (\<lambda>xs. xs) (\<lambda>p s. None) (toPayload narrowed_git) [''git'', ''push'']) = Some ''arg-not-allowed''"
    unfolding narrowed_git_def by code_simp
  then obtain v where v: "evaluate_call (\<lambda>xs. xs) (\<lambda>p s. None) (toPayload narrowed_git) [''git'', ''push''] = Some v" "v_rule v = ''arg-not-allowed''"
    by auto
  have c: "call_name [''git'', ''push''] = ''git''" "''git'' \<notin> set nestingShells" by code_simp+
  show ?thesis by (rule plain_command_stays_narrowed [OF p a v c])
qed

section \<open>A session in the studio\<close>

text \<open>What the user does in the studio, besides editing a row in place: the fields, the modes, the capabilities, the lists
  (\<open>TypeRule\<close>, \<open>TypeHost\<close> and \<open>TypeCidr\<close> are a text and Add), a template, and a suggested fix for a verdict or an event.\<close>

datatype studio_event =
    Rename string
  | Describe string
  | SetCap cap bool
  | PickCommands mode
  | PickEgress mode
  | TypeRule string
  | RemoveRule nat
  | TypeHost string
  | RemoveHost nat
  | TypeCidr string
  | RemoveCidr nat
  | PickPreset nat
  | FixCommand bool guard_event
  | TestedCommand tester_result
  | TestedHost tester_result

definition apply_fix :: "suggested_fix option \<Rightarrow> studio \<Rightarrow> studio" where
  "apply_fix x s = (case x of Some y \<Rightarrow> onApply y s | None \<Rightarrow> s)"

definition studio_step :: "studio_event \<Rightarrow> studio \<Rightarrow> studio" where
  "studio_step e s =
     (case e of
        Rename t \<Rightarrow> edit_form (\<lambda>f. f\<lparr>form_name := t\<rparr>) s
      | Describe t \<Rightarrow> edit_form (\<lambda>f. f\<lparr>form_description := t\<rparr>) s
      | SetCap k v \<Rightarrow> edit_form (\<lambda>f. f\<lparr>form_caps := set_cap k v (form_caps f)\<rparr>) s
      | PickCommands m \<Rightarrow> edit_form (\<lambda>f. f\<lparr>commandsMode := m\<rparr>) s
      | PickEgress m \<Rightarrow> edit_form (\<lambda>f. f\<lparr>egress := (egress f)\<lparr>egress_mode := m\<rparr>\<rparr>) s
      | TypeRule t \<Rightarrow> edit_form (\<lambda>f. snd (add_rule (typed t) f)) s
      | RemoveRule i \<Rightarrow> edit_form (remove_rule i) s
      | TypeHost t \<Rightarrow> edit_form (\<lambda>f. snd (add_host_entry t f)) s
      | RemoveHost i \<Rightarrow> edit_form (remove_host_entry i) s
      | TypeCidr t \<Rightarrow> edit_form (\<lambda>f. snd (add_cidr_entry t f)) s
      | RemoveCidr i \<Rightarrow> edit_form (remove_cidr_entry i) s
      | PickPreset i \<Rightarrow> (case JsPrelude.at presets i of Some c \<Rightarrow> applyPreset (card_build c) s | None \<Rightarrow> s)
      | FixCommand is_command g \<Rightarrow> apply_fix (event_fix is_command g) s
      | TestedCommand r \<Rightarrow> apply_fix (command_fix r) s
      | TestedHost r \<Rightarrow> apply_fix (host_fix r) s)"

definition form_ok :: "studio_form \<Rightarrow> bool" where
  "form_ok f \<longleftrightarrow> distinct (map command (commands f)) \<and> distinct (hosts (egress f)) \<and> distinct (cidrs (egress f))"

lemma form_ok_fields [simp]:
  "form_ok (f\<lparr>form_name := a\<rparr>) = form_ok f" "form_ok (f\<lparr>form_description := a\<rparr>) = form_ok f"
  "form_ok (f\<lparr>form_caps := c\<rparr>) = form_ok f" "form_ok (f\<lparr>commandsMode := m\<rparr>) = form_ok f"
  "form_ok (f\<lparr>egress := (egress f)\<lparr>egress_mode := m\<rparr>\<rparr>) = form_ok f"
  by (simp_all add: form_ok_def)

lemma distinct_keys_remove_at: "distinct (map g xs) \<Longrightarrow> distinct (map g (remove_at i xs))"
  using set_take_disj_set_drop_if_distinct [of "map g xs" i "Suc i"]
  by (simp add: remove_at_def take_map [symmetric] drop_map [symmetric] distinct_take distinct_drop)

lemma form_ok_replace:
  "form_ok f \<Longrightarrow> i < length (commands f) \<Longrightarrow> command r = command (commands f ! i) \<Longrightarrow> form_ok (f\<lparr>commands := (commands f)[i := r]\<rparr>)"
  by (simp add: form_ok_def map_update) (metis length_map list_update_id nth_map)

lemma form_ok_add: "form_ok f \<Longrightarrow> command r \<notin> command ` set (commands f) \<Longrightarrow> form_ok (f\<lparr>commands := commands f @ [r]\<rparr>)"
  by (simp add: form_ok_def)

lemma form_ok_edits:
  assumes "form_ok f"
  shows "form_ok (snd (add_rule l f))" and "form_ok (remove_rule i f)" and "form_ok (snd (add_host_entry t f))"
    and "form_ok (snd (add_cidr_entry t f))" and "form_ok (remove_host_entry i f)" and "form_ok (remove_cidr_entry i f)"
    and "form_ok (addCommandRule f r)" and "form_ok (removeCommand f n)" and "form_ok (addArgToCommand f n a)"
    and "form_ok (addSqlToCommand f n a)"
proof -
  show "form_ok (snd (add_rule l f))"
    using assms by (auto simp: add_rule_def find_index_None find_index_Some intro!: form_ok_replace form_ok_add split: option.splits)
  show "form_ok (remove_rule i f)" using assms by (simp add: remove_rule_def form_ok_def distinct_keys_remove_at)
  show "form_ok (snd (add_host_entry t f))" "form_ok (snd (add_cidr_entry t f))"
    using assms by (simp_all add: add_host_entry_def add_cidr_entry_def form_ok_def Let_def)
  show "form_ok (remove_host_entry i f)" "form_ok (remove_cidr_entry i f)"
    using assms distinct_keys_remove_at [of "\<lambda>x::string. x"] by (simp_all add: remove_host_entry_def remove_cidr_entry_def form_ok_def)
  show "form_ok (addCommandRule f r)"
    using assms by (auto simp: addCommandRule_def list_ex_iff intro!: form_ok_add)
  show "form_ok (removeCommand f n)"
    using assms by (simp add: removeCommand_def form_ok_def drop_by_def distinct_map_filter)
  show "form_ok (addArgToCommand f n a)" "form_ok (addSqlToCommand f n a)"
    using assms by (auto simp: addArgToCommand_def addSqlToCommand_def Let_def find_index_None find_index_Some plain_rule_def
        intro!: form_ok_replace form_ok_add split: option.splits)
qed

lemma addHost_distinct: "distinct xs \<Longrightarrow> distinct (addHost xs h)"
  by (simp add: addHost_def)

lemma allow_command_keeps: "suggestAllowCommand c r m = Some x \<Longrightarrow> form_ok f \<Longrightarrow> form_ok (fix_apply x f)"
  using form_ok_edits(7) [of "f\<lparr>commandsMode := Whitelist\<rparr>"]
  by (auto simp: suggestAllowCommand_def Let_def form_ok_edits split: option.splits if_splits)

lemma block_command_keeps: "suggestBlockCommand c = Some x \<Longrightarrow> form_ok f \<Longrightarrow> form_ok (fix_apply x f)"
  using form_ok_edits(7) [of "f\<lparr>commandsMode := Blacklist\<rparr>"]
  by (auto simp: suggestBlockCommand_def form_ok_edits) (auto simp: form_ok_def)

lemma allow_host_keeps: "suggestAllowHost c r = Some x \<Longrightarrow> form_ok f \<Longrightarrow> form_ok (fix_apply x f)"
  by (auto simp: suggestAllowHost_def Let_def form_ok_def addHost_distinct split: if_splits)

lemma block_host_keeps: "suggestBlockHost c = Some x \<Longrightarrow> form_ok f \<Longrightarrow> form_ok (fix_apply x f)"
  by (auto simp: suggestBlockHost_def Let_def form_ok_def addHost_distinct split: if_splits)

lemma presets_ok: "c \<in> set presets \<Longrightarrow> form_ok (card_build c)"
proof -
  have "list_all (\<lambda>c. form_ok (card_build c)) presets" unfolding form_ok_def by code_simp
  then show "c \<in> set presets \<Longrightarrow> form_ok (card_build c)" by (simp add: list_all_iff)
qed

lemma apply_fix_keeps:
  "(\<And>y f. x = Some y \<Longrightarrow> form_ok f \<Longrightarrow> form_ok (fix_apply y f)) \<Longrightarrow> form_ok (st_form s) \<Longrightarrow> form_ok (st_form (apply_fix x s))"
  by (cases x) (simp_all add: apply_fix_def onApply_def edit_form_def)

lemma studio_step_ok:
  assumes "form_ok (st_form s)"
  shows "form_ok (st_form (studio_step e s))"
proof (cases e)
  case (PickPreset i)
  then show ?thesis
    using assms presets_ok by (auto simp: studio_step_def applyPreset_def JsPrelude.at_def split: option.splits if_splits)
next
  case (FixCommand c g)
  then show ?thesis
    using assms by (auto simp: studio_step_def event_fix_def intro!: apply_fix_keeps
        dest: allow_command_keeps block_command_keeps allow_host_keeps block_host_keeps split: if_splits)
next
  case (TestedCommand r)
  then show ?thesis
    using assms by (auto simp: studio_step_def command_fix_def intro!: apply_fix_keeps
        dest: allow_command_keeps block_command_keeps split: if_splits)
next
  case (TestedHost r)
  then show ?thesis
    using assms by (auto simp: studio_step_def host_fix_def intro!: apply_fix_keeps
        dest: allow_host_keeps block_host_keeps split: if_splits)
qed (use assms in \<open>simp_all add: studio_step_def edit_form_def form_ok_edits\<close>)

lemma studio_run_ok: "form_ok (st_form s) \<Longrightarrow> form_ok (st_form (fold studio_step es s))"
  by (induction es arbitrary: s) (simp_all add: studio_step_ok)

text \<open>C8: What the list of commands shows is what the server goes by: however the user edits a profile that starts with one
  rule per command (an empty one, a template, or one made here), by typing and removing rules, templates and fixes, each rule
  of the list is alone the server's entry for its command, and there are no other entries.\<close>
theorem listed_rules_are_the_servers:
  assumes "distinct (map command (commands (st_form s)))" and "distinct (hosts (egress (st_form s)))"
    and "distinct (cidrs (egress (st_form s)))"
  shows "let f = st_form (fold studio_step es s); mp = merge_profile (toPayload f) in
     (\<forall>r \<in> set (commands f). map_of (mp_commands mp) (command r) = Some (merged_row [r]))
     \<and> (\<forall>n. n \<notin> command ` set (commands f) \<longrightarrow> map_of (mp_commands mp) n = None)
     \<and> distinct (map command (commands f))"
proof -
  let ?f = "st_form (fold studio_step es s)"
  have ok: "form_ok ?f" using assms by (intro studio_run_ok) (simp add: form_ok_def)
  have r: "rows_of (command r) rs = [r]" if "r \<in> set rs" and "distinct (map command rs)" for r rs
    using that by (induction rs) (auto simp: rows_of_def filter_empty_conv intro: rev_image_eqI)
  show ?thesis
    using ok r by (auto simp: Let_def form_ok_def merge_profile_def toPayload_def map_of_merge_rules rows_of_def filter_empty_conv)
qed

lemma listed_rules_are_the_servers_witness:
  "let f = st_form (fold studio_step [PickPreset 0, TypeRule ''git[log]'', TypeRule ''git[diff]'', RemoveRule 0] (studio_open EMPTY_FORM None));
       mp = merge_profile (toPayload f) in
     (\<forall>r \<in> set (commands f). map_of (mp_commands mp) (command r) = Some (merged_row [r]))
     \<and> (\<forall>n. n \<notin> command ` set (commands f) \<longrightarrow> map_of (mp_commands mp) n = None)
     \<and> distinct (map command (commands f))"
  by (rule listed_rules_are_the_servers) (simp_all add: studio_open_def EMPTY_FORM_def cloneEgress_def DEFAULT_EGRESS_def)

text \<open>Editing a row in place puts the typed rule there without looking at the other rows: a command can then be listed twice,
  and the server, which joins the rows, allows all of a command that has a plain row beside a narrowed one.\<close>

lemma edited_row_can_repeat_a_command:
  assumes "parseCommandRule (cl_editVal l) = Some r" and "cl_editing l = Some i" and "i < length (commands f)"
    and "j < length (commands f)" and "j \<noteq> i" and "command (commands f ! j) = command r" and "allows_all (commands f ! j)"
  shows "\<not> distinct (map command (commands (snd (commitEdit l f))))"
    and "\<exists>mc. map_of (mp_commands (merge_profile (toPayload (snd (commitEdit l f))))) (command r) = Some mc \<and> allow_all mc"
proof -
  have c: "commands (snd (commitEdit l f)) = (commands f)[i := r]"
    using assms(1-3) by (simp add: commitEdit_def upd_conv_take_nth_drop)
  have n: "(commands f)[i := r] ! i = r" "(commands f)[i := r] ! j = commands f ! j" using assms(3, 5) by simp_all
  then show "\<not> distinct (map command (commands (snd (commitEdit l f))))"
    using nth_eq_iff_index_eq [of "map command ((commands f)[i := r])" i j] assms(3-6) by (auto simp: c)
  have "commands f ! j \<in> set (rows_of (command r) ((commands f)[i := r]))"
    using assms(4, 6) n nth_mem [of j "(commands f)[i := r]"] by (simp add: rows_of_def)
  then have "rows_of (command r) ((commands f)[i := r]) \<noteq> [] \<and> allow_all (merged_row (rows_of (command r) ((commands f)[i := r])))"
    using assms(7) by (auto simp: merged_row_def list_ex_iff allows_all_def)
  then show "\<exists>mc. map_of (mp_commands (merge_profile (toPayload (snd (commitEdit l f))))) (command r) = Some mc \<and> allow_all mc"
    by (auto simp: merge_profile_def toPayload_def c map_of_merge_rules)
qed

end
