(* ===== verification/GuardMerge.thy ===== *)
theory GuardMerge
  imports GuardTyping "HOL-Library.Multiset"
begin

text \<open>
  Several guard profiles on one host: the server merges them before it judges a command (\<open>mergeProfiles\<close>, \<open>Evaluate\<close> of
  \<open>core/plugins/guard/guard.go\<close>) and a network destination (\<open>MergeEgressPolicies\<close> of \<open>core/types/egress.go\<close>,
  \<open>evaluateHostPure\<close> of \<open>apps/guard/service.go\<close>). Go ranges over a map in no particular order: \<open>mergeProfiles\<close> takes the
  profiles in the order they come, and \<open>rng\<close> and \<open>ord\<close> are the orders of two such loops. A mode that is not there stands
  for the empty text; the ones that are stored are always one of the four.
\<close>

section \<open>Merging profiles\<close>

fun commandsModeRank :: "mode \<Rightarrow> nat" where
  "commandsModeRank Closed = 0"
| "commandsModeRank Blacklist = 1"
| "commandsModeRank Whitelist = 2"
| "commandsModeRank Open = 3"

definition mergeCommandsMode :: "mode option \<Rightarrow> mode option \<Rightarrow> mode" where
  "mergeCommandsMode a b =
     (case a of
        None \<Rightarrow> or_else b Whitelist
      | Some x \<Rightarrow>
          (case b of
             None \<Rightarrow> x
           | Some y \<Rightarrow> if commandsModeRank y \<le> commandsModeRank x then x else y))"

definition merge_caps :: "capabilities \<Rightarrow> capabilities \<Rightarrow> capabilities" where
  "merge_caps c d =
     \<lparr>pipes = (pipes c \<or> pipes d), redirects = (redirects c \<or> redirects d), cmdSubst = (cmdSubst c \<or> cmdSubst d),
      background = (background c \<or> background d), sudo = (sudo c \<or> sudo d), codeExec = (codeExec c \<or> codeExec d),
      download = (download c \<or> download d), cap_install = (cap_install c \<or> cap_install d), writeFs = (writeFs c \<or> writeFs d),
      networkOut = (networkOut c \<or> networkOut d), cron = (cron c \<or> cron d), unrestricted = (unrestricted c \<or> unrestricted d)\<rparr>"

record merging =
  mg_mode :: "mode option"
  mg_caps :: capabilities
  mg_commands :: "(string \<times> merged_command) list"

definition merge_one :: "guard_profile \<Rightarrow> merging \<Rightarrow> merging" where
  "merge_one p m =
     \<lparr>mg_mode = Some (mergeCommandsMode (mg_mode m) (gp_commandsMode p)),
      mg_caps = merge_caps (mg_caps m) (gp_capabilities p),
      mg_commands = fold merge_rule (gp_commands p) (mg_commands m)\<rparr>"

definition mergeProfiles :: "guard_profile list \<Rightarrow> merged_profile" where
  "mergeProfiles ps =
     (let m = fold merge_one ps \<lparr>mg_mode = None, mg_caps = DEFAULT_CAPS, mg_commands = []\<rparr> in
      \<lparr>mp_caps = mg_caps m, mp_mode = or_else (mg_mode m) Whitelist, mp_commands = mg_commands m\<rparr>)"

text \<open>A profile that is given twice counts once, as it was given last.\<close>

definition profileIDsToMap :: "guard_profile list \<Rightarrow> guard_profile list" where
  "profileIDsToMap ps = map snd (fold (\<lambda>p. AList.update (gp_id p) p) ps [])"

text \<open>The verdict on a command that is one call expression; the name of the source is \<open>Evaluate\<close>.\<close>

definition evaluate_profiles ::
  "(guard_profile list \<Rightarrow> guard_profile list) \<Rightarrow> (string list \<Rightarrow> string list) \<Rightarrow> (merged_profile \<Rightarrow> string \<Rightarrow> violation option)
   \<Rightarrow> guard_profile list \<Rightarrow> string list \<Rightarrow> violation option" where
  "evaluate_profiles rng order nested ps args =
     (if ps = [] then None
      else let merged = mergeProfiles (rng (profileIDsToMap ps)) in
        if unrestricted (mp_caps merged) then None else checkCallExpr order (nested merged) merged args)"

section \<open>Merging egress policies\<close>

definition combineEgressMode :: "mode option \<Rightarrow> mode \<Rightarrow> mode" where
  "combineEgressMode current next_mode =
     (case current of
        None \<Rightarrow> next_mode
      | Some m \<Rightarrow>
          if m = next_mode then m
          else if m = Closed \<or> next_mode = Closed then Closed
          else if m = Whitelist \<or> next_mode = Whitelist then Whitelist
          else if m = Blacklist \<or> next_mode = Blacklist then Blacklist
          else Open)"

definition MergeEgressPolicies :: "(string list \<Rightarrow> string list) \<Rightarrow> egress_policy list \<Rightarrow> egress_policy" where
  "MergeEgressPolicies ord ps =
     (if ps = [] then \<lparr>egress_mode = Open, hosts = [], cidrs = []\<rparr>
      else \<lparr>egress_mode = or_else (foldl (\<lambda>m p. Some (combineEgressMode m (egress_mode p))) None ps) Open,
            hosts = ord (dedupe (concat (map hosts ps))), cidrs = ord (dedupe (concat (map cidrs ps)))\<rparr>)"

text \<open>A profile that has no policy has the empty one, which normalises to an open one.\<close>

definition evaluateHostPure ::
  "(string \<Rightarrow> bool) \<Rightarrow> (string \<Rightarrow> string \<Rightarrow> bool) \<Rightarrow> (string list \<Rightarrow> string list) \<Rightarrow> guard_profile list \<Rightarrow> string \<Rightarrow> bool \<times> string" where
  "evaluateHostPure parse_ip in_cidr ord ps target =
     (if ps = [] then (True, ''no-profiles'')
      else if list_ex (\<lambda>p. unrestricted (gp_capabilities p)) ps then (True, ''unrestricted'')
      else egress_evaluate parse_ip in_cidr (MergeEgressPolicies ord (map (\<lambda>p. cloneEgress (gp_egress p)) ps)) target)"

section \<open>The order of the profiles\<close>

text \<open>Modes are ranked; the merge of present modes is the greatest.\<close>

lemma rank_inj: "commandsModeRank x = commandsModeRank y \<Longrightarrow> x = y"
  by (cases x; cases y) auto

lemma merge_mode_commute:
  "mergeCommandsMode (Some (mergeCommandsMode m (Some x))) (Some y) = mergeCommandsMode (Some (mergeCommandsMode m (Some y))) (Some x)"
  by (cases m) (auto simp: mergeCommandsMode_def or_else_def intro: rank_inj)

lemma merge_caps_commute: "merge_caps (merge_caps c d) e = merge_caps (merge_caps c e) d"
  by (auto simp: merge_caps_def)

definition mode_and_caps :: "guard_profile \<Rightarrow> mode option \<times> capabilities \<Rightarrow> mode option \<times> capabilities" where
  "mode_and_caps p s = (Some (mergeCommandsMode (fst s) (gp_commandsMode p)), merge_caps (snd s) (gp_capabilities p))"

lemma fold_merge_one:
  "fold merge_one ps m = (let s = fold mode_and_caps ps (mg_mode m, mg_caps m) in
     \<lparr>mg_mode = fst s, mg_caps = snd s, mg_commands = fold merge_rule (concat (map gp_commands ps)) (mg_commands m)\<rparr>)"
  by (induction ps arbitrary: m) (simp_all add: merge_one_def mode_and_caps_def Let_def)

lemma mergeProfiles_simps:
  "mp_caps (mergeProfiles ps) = snd (fold mode_and_caps ps (None, DEFAULT_CAPS))"
  "mp_mode (mergeProfiles ps) = or_else (fst (fold mode_and_caps ps (None, DEFAULT_CAPS))) Whitelist"
  "mp_commands (mergeProfiles ps) = fold merge_rule (concat (map gp_commands ps)) []"
  by (simp_all add: mergeProfiles_def fold_merge_one Let_def)

lemma same_rows_of: "set rs = set ss \<Longrightarrow> same_row (merged_row rs) (merged_row ss)"
  using row_words_nonempty [of _ rs] by (auto simp: same_row_def merged_row_def list_ex_iff)

lemma merged_order:
  assumes "mset ps = mset qs" and "\<forall>p \<in> set ps. gp_commandsMode p \<noteq> None"
  shows "same_profile (mergeProfiles ps) (mergeProfiles qs)"
proof -
  have "mode_and_caps x \<circ> mode_and_caps y = mode_and_caps y \<circ> mode_and_caps x" if "x \<in> set ps" and "y \<in> set ps" for x y
  proof -
    from that assms(2) obtain m n where "gp_commandsMode x = Some m" "gp_commandsMode y = Some n" by blast
    then show ?thesis by (simp add: fun_eq_iff mode_and_caps_def merge_mode_commute [of _ m n] merge_caps_commute)
  qed
  then have f: "fold mode_and_caps ps = fold mode_and_caps qs" using assms(1) by (rule fold_multiset_equiv)
  have s: "set ps = set qs" using assms(1) by (rule mset_eq_setD)
  have "set (rows_of n (concat (map gp_commands ps))) = set (rows_of n (concat (map gp_commands qs)))" for n
    using s by (simp add: rows_of_def)
  then have "rel_option same_row (map_of (fold merge_rule (concat (map gp_commands ps)) []) n)
      (map_of (fold merge_rule (concat (map gp_commands qs)) []) n)" for n
    using same_rows_of by (simp add: map_of_merge_rules) (metis set_empty2)
  then show ?thesis by (simp add: same_profile_def mergeProfiles_simps f)
qed

text \<open>C6: The verdict on a command does not depend on the order in which Go ranges over the map of profiles: whatever the
  profiles, with stored modes, a command that no shell nests in is allowed in one order exactly when it is in another.\<close>
theorem verdict_ignores_map_order:
  assumes "mset (rng (profileIDsToMap ps)) = mset (profileIDsToMap ps)" and "mset (rng' (profileIDsToMap ps)) = mset (profileIDsToMap ps)"
    and "\<forall>p \<in> set ps. gp_commandsMode p \<noteq> None" and "call_name args \<notin> set nestingShells"
  shows "evaluate_profiles rng order nst ps args = None \<longleftrightarrow> evaluate_profiles rng' order nst ps args = None"
proof -
  have "set (map snd (fold (\<lambda>p. AList.update (gp_id p) p) xs ms)) \<subseteq> set xs \<union> set (map snd ms)" for xs ms
  proof (induction xs arbitrary: ms)
    case (Cons x xs)
    have "set (map snd (AList.update (gp_id x) x ms)) \<subseteq> insert x (set (map snd ms))" by (induction ms) auto
    with Cons [of "AList.update (gp_id x) x ms"] show ?case by auto
  qed simp
  from this [of ps "[]"] have "\<forall>p \<in> set (rng (profileIDsToMap ps)). gp_commandsMode p \<noteq> None"
    using assms(3) mset_eq_setD [OF assms(1)] by (auto simp: profileIDsToMap_def)
  then have s: "same_profile (mergeProfiles (rng (profileIDsToMap ps))) (mergeProfiles (rng' (profileIDsToMap ps)))"
    using merged_order assms(1, 2) by metis
  then show ?thesis using same_call [OF s assms(4)] by (simp add: evaluate_profiles_def Let_def same_profile_def)
qed

definition example_profile :: "string \<Rightarrow> mode \<Rightarrow> string list \<Rightarrow> guard_profile" where
  "example_profile i m names = \<lparr>gp_id = i, gp_name = i, gp_description = [], gp_builtin = False, gp_capabilities = DEFAULT_CAPS,
     gp_commandsMode = Some m, gp_commands = map plain_rule names, gp_egress = None\<rparr>"

lemma verdict_ignores_map_order_witness:
  "evaluate_profiles (\<lambda>ps. ps) (\<lambda>xs. xs) (\<lambda>p s. None) [example_profile ''w'' Whitelist [''ls''], example_profile ''b'' Blacklist [''dd'']] [''uname''] = None
   \<longleftrightarrow> evaluate_profiles rev (\<lambda>xs. xs) (\<lambda>p s. None) [example_profile ''w'' Whitelist [''ls''], example_profile ''b'' Blacklist [''dd'']] [''uname''] = None"
  by (rule verdict_ignores_map_order) (simp_all add: example_profile_def call_name_def call_args_def nestingShells_def)

section \<open>A command that each profile denies\<close>

definition caps_le :: "capabilities \<Rightarrow> capabilities \<Rightarrow> bool" where
  "caps_le c d \<longleftrightarrow> (\<forall>k. get_cap c k \<longrightarrow> get_cap d k)"

lemma caps_leD:
  assumes "caps_le c d"
  shows "sudo c \<Longrightarrow> sudo d" "background c \<Longrightarrow> background d" "codeExec c \<Longrightarrow> codeExec d" "download c \<Longrightarrow> download d"
    "cap_install c \<Longrightarrow> cap_install d" "writeFs c \<Longrightarrow> writeFs d" "cron c \<Longrightarrow> cron d"
  using assms by (metis caps_le_def get_cap.simps)+

lemma get_merge_caps: "get_cap (merge_caps c d) k = (get_cap c k \<or> get_cap d k)"
  by (cases k) (simp_all add: merge_caps_def)

lemma check_kind_mono: "caps_le c d \<Longrightarrow> check_kind c n = None \<Longrightarrow> check_kind d n = None"
  by (auto simp: check_kind_def deny_def dest: caps_leD split: if_splits)

text \<open>A profile that stops a call only by its mode or lists, against one with more capabilities that permits the command.\<close>

lemma permitted_call:
  assumes v: "checkCallExpr order nst mp args = Some v" "v_rule v \<in> mode_rules" and n: "call_name args \<notin> set nestingShells"
    and le: "caps_le (mp_caps mp) (mp_caps mp')" and p: "permits mp' (call_name args)"
  shows "checkCallExpr order nst' mp' args = None"
proof -
  have m: "check_named order nst' mp' xs = None"
    if "check_named order nst mp xs = Some v" and "hd xs \<notin> set nestingShells" and "permits mp' (hd xs)" for xs
  proof -
    have "check_kind (mp_caps mp') (hd xs) = None" if "check_listed order mp (hd xs) xs = Some v"
      using that v(2) check_kind_rule check_kind_mono [OF le]
      by (auto simp: check_listed_def Let_def mode_rules_def deny_def split: option.splits if_splits)
    then show ?thesis
      using that v(2) caps_leD(3) [OF le]
      by (auto simp: check_named_def Let_def permits_sql deny_def mode_rules_def intro!: permits_listed split: if_splits option.splits)
  qed
  show ?thesis
    using v n p m caps_leD(1, 2) [OF le]
    by (auto simp: checkCallExpr_def strip_sudo_def strip_nohup_def call_args_def call_name_def deny_def mode_rules_def split: if_splits)
qed

lemma mergeProfiles_two:
  "mp_commands (mergeProfiles [p, q]) = fold merge_rule (gp_commands p @ gp_commands q) []"
  "mp_mode (mergeProfiles [p, q]) = mergeCommandsMode (Some (mergeCommandsMode None (gp_commandsMode p))) (gp_commandsMode q)"
  "get_cap (mp_caps (mergeProfiles [p, q])) k = (get_cap (gp_capabilities p) k \<or> get_cap (gp_capabilities q) k)"
  by (simp_all add: mergeProfiles_simps mode_and_caps_def or_else_def get_merge_caps) (simp add: DEFAULT_CAPS_def; cases k; simp)

lemma mergeProfiles_one:
  "mp_commands (mergeProfiles [p]) = fold merge_rule (gp_commands p) []"
  "mp_mode (mergeProfiles [p]) = or_else (gp_commandsMode p) Whitelist"
  "get_cap (mp_caps (mergeProfiles [p])) k = get_cap (gp_capabilities p) k"
  by (simp_all add: mergeProfiles_simps mode_and_caps_def or_else_def mergeCommandsMode_def get_merge_caps)
    (simp add: DEFAULT_CAPS_def; cases k; simp)

lemma mode_violation:
  assumes "checkCallExpr order nst mp args = Some v" and "call_name args \<notin> set nestingShells" and "v_rule v \<in> mode_rules"
  shows "mode_facts mp (call_name args) v"
  using check_named_facts [OF checkCallExpr_named(1) [OF assms(1, 3)]] assms(2) by (simp add: call_name_def)

lemma two_orders: "mset (rng [w, b]) = mset [w, b] \<Longrightarrow> rng [w, b] = [w, b] \<or> rng [w, b] = [b, w]"
proof -
  assume m: "mset (rng [w, b]) = mset [w, b]"
  then have "length (rng [w, b]) = 2" by (metis length_Cons list.size(3) mset_eq_length numeral_2_eq_2)
  then obtain x y where "rng [w, b] = [x, y]" by (metis length_0_conv length_Suc_conv numeral_2_eq_2)
  then show ?thesis using m by (auto simp: add_eq_conv_ex)
qed

text \<open>Two profiles that each deny a command can together allow it: a whitelist that does not list it, and a blacklist that
  lists it without arguments. The merged profile is a whitelist, and the blacklist's entry counts as an entry of it; this in
  whatever order the profiles come.\<close>
theorem blocked_by_each_allowed_by_both:
  assumes "gp_id w \<noteq> gp_id b" and "gp_commandsMode w \<noteq> None" and "\<forall>xs. mset (rng xs) = mset xs"
    and "evaluate_profiles rng order nst [w] args = Some v" and "v_rule v = ''command-not-allowed''"
    and "evaluate_profiles rng order nst [b] args = Some u" and "v_rule u = ''command-blacklisted''"
    and "\<forall>r \<in> set (gp_commands b). command r = call_name args \<longrightarrow> r = plain_rule (call_name args)"
    and "call_name args \<notin> set nestingShells"
  shows "evaluate_profiles rng order nst [w, b] args = None"
proof -
  let ?n = "call_name args"
  have one: "rng [p] = [p]" for p using assms(3) [rule_format, of "[p]"] by simp
  have w: "checkCallExpr order (nst (mergeProfiles [w])) (mergeProfiles [w]) args = Some v"
    using assms(4) one by (auto simp: evaluate_profiles_def profileIDsToMap_def Let_def split: if_splits)
  have b: "checkCallExpr order (nst (mergeProfiles [b])) (mergeProfiles [b]) args = Some u"
    using assms(6) one by (auto simp: evaluate_profiles_def profileIDsToMap_def Let_def split: if_splits)
  have r: "v_rule v \<in> mode_rules" "v_rule u \<in> mode_rules" using assms(5, 7) by (simp_all add: mode_rules_def)
  have fw: "or_else (gp_commandsMode w) Whitelist = Whitelist" "rows_of ?n (gp_commands w) = []"
    using mode_violation [OF w assms(9) r(1)] assms(5)
    by (auto simp: mode_facts_def mergeProfiles_one map_of_merge_rules split: if_splits)
  have fb: "gp_commandsMode b = Some Blacklist" "rows_of ?n (gp_commands b) \<noteq> []"
    using mode_violation [OF b assms(9) r(2)] assms(7)
    by (auto simp: mode_facts_def mergeProfiles_one map_of_merge_rules or_else_def split: if_splits option.splits)
  let ?m = "mergeProfiles (rng [w, b])"
  have o: "rng [w, b] = [w, b] \<or> rng [w, b] = [b, w]" using two_orders assms(3) by metis
  have rows: "\<forall>x \<in> set (rows_of ?n (gp_commands b)). x = plain_rule ?n" using assms(8) by (auto simp: rows_of_def)
  then have row: "unblocked (merged_row (rows_of ?n (gp_commands b))) \<and> allow_all (merged_row (rows_of ?n (gp_commands b)))"
    using fb(2) by (cases "rows_of ?n (gp_commands b)")
      (auto simp: unblocked_def merged_row_def plain_rule_def or_else_def [of None])
  have "mp_mode ?m = Whitelist"
    using o fw(1) fb(1) assms(2) by (cases "gp_commandsMode w") (auto simp: mergeProfiles_two mergeCommandsMode_def or_else_def)
  moreover have "rows_of ?n (gp_commands w @ gp_commands b) = rows_of ?n (gp_commands b)"
    "rows_of ?n (gp_commands b @ gp_commands w) = rows_of ?n (gp_commands b)"
    using fw(2) by (simp_all add: rows_of_append)
  then have "map_of (mp_commands ?m) ?n = Some (merged_row (rows_of ?n (gp_commands b)))"
    using o fb(2) by (auto simp: mergeProfiles_two map_of_merge_rules simp del: fold_append)
  ultimately have p: "permits ?m ?n" using row by (simp add: permits_def)
  have "caps_le (mp_caps (mergeProfiles [w])) (mp_caps ?m)"
    using o by (auto simp: caps_le_def mergeProfiles_one mergeProfiles_two)
  from permitted_call [OF w r(1) assms(9) this p] have "checkCallExpr order (nst ?m) ?m args = None" .
  then show ?thesis using assms(1) by (simp add: evaluate_profiles_def profileIDsToMap_def Let_def)
qed

lemma blocked_by_each_allowed_by_both_witness:
  "evaluate_profiles (\<lambda>ps. ps) (\<lambda>xs. xs) (\<lambda>p s. None) [example_profile ''w'' Whitelist [''ls''], example_profile ''b'' Blacklist [''reboot'']] [''reboot''] = None"
proof -
  let ?e = "\<lambda>p. evaluate_profiles (\<lambda>ps. ps) (\<lambda>xs. xs) (\<lambda>p s. None) [p] [''reboot'']"
  have "map_option v_rule (?e (example_profile ''w'' Whitelist [''ls''])) = Some ''command-not-allowed''"
    "map_option v_rule (?e (example_profile ''b'' Blacklist [''reboot''])) = Some ''command-blacklisted''"
    unfolding example_profile_def by code_simp+
  then obtain v u where "?e (example_profile ''w'' Whitelist [''ls'']) = Some v" "v_rule v = ''command-not-allowed''"
    and "?e (example_profile ''b'' Blacklist [''reboot'']) = Some u" "v_rule u = ''command-blacklisted''" by auto
  then show ?thesis
    by (rule blocked_by_each_allowed_by_both [rotated 3])
      (simp_all add: example_profile_def call_name_def call_args_def nestingShells_def)
qed

section \<open>Several egress policies\<close>

lemma merged_hosts:
  assumes "\<And>xs. set (ord xs) = set xs"
  shows "set (hosts (MergeEgressPolicies ord ps)) = (\<Union>p \<in> set ps. set (hosts p))"
    and "set (cidrs (MergeEgressPolicies ord ps)) = (\<Union>p \<in> set ps. set (cidrs p))"
  using assms by (simp_all add: MergeEgressPolicies_def)

lemma merged_matches:
  assumes "\<And>xs. set (ord xs) = set xs"
  shows "egress_matches parse_ip in_cidr (MergeEgressPolicies ord ps) t \<noteq> None
    \<longleftrightarrow> (\<exists>p \<in> set ps. egress_matches parse_ip in_cidr p t \<noteq> None)"
  unfolding egress_matches_def
  by (cases "parse_ip t"; simp only: if_True if_False first_some_not_None merged_hosts [of ord, OF assms]; blast)

lemma combine_fold_some:
  "foldl (\<lambda>m p. Some (combineEgressMode m (egress_mode p))) (Some k) ps = Some l \<Longrightarrow>
    (l = Closed \<longleftrightarrow> k = Closed \<or> (\<exists>p \<in> set ps. egress_mode p = Closed))
    \<and> (l \<noteq> Closed \<longrightarrow> (l = Whitelist \<longleftrightarrow> k = Whitelist \<or> (\<exists>p \<in> set ps. egress_mode p = Whitelist)))
    \<and> (l \<noteq> Closed \<and> l \<noteq> Whitelist \<longrightarrow> (l = Blacklist \<longleftrightarrow> k = Blacklist \<or> (\<exists>p \<in> set ps. egress_mode p = Blacklist)))"
proof (induction ps arbitrary: k)
  case (Cons p ps)
  from Cons.IH [of "combineEgressMode (Some k) (egress_mode p)"] Cons.prems show ?case
    by (cases k; cases "egress_mode p") (auto simp: combineEgressMode_def)
qed simp

text \<open>The strictest mode wins: closed, then whitelist, then blacklist.\<close>

lemma merged_egress_mode:
  assumes "ps \<noteq> []"
  shows "egress_mode (MergeEgressPolicies ord ps) =
    (if \<exists>p \<in> set ps. egress_mode p = Closed then Closed
     else if \<exists>p \<in> set ps. egress_mode p = Whitelist then Whitelist
     else if \<exists>p \<in> set ps. egress_mode p = Blacklist then Blacklist else Open)"
proof -
  obtain p qs where ps: "ps = p # qs" using assms by (cases ps) auto
  have "\<exists>l. foldl (\<lambda>m p. Some (combineEgressMode m (egress_mode p))) (Some k) xs = Some l" for k and xs :: "egress_policy list"
    by (induction xs arbitrary: k) auto
  then obtain l where l: "foldl (\<lambda>m p. Some (combineEgressMode m (egress_mode p))) (Some (egress_mode p)) qs = Some l" by blast
  have "egress_mode (MergeEgressPolicies ord ps) = l"
    by (simp add: MergeEgressPolicies_def ps combineEgressMode_def [of None] l or_else_def)
  then show ?thesis using combine_fold_some [OF l] by (cases l) (auto simp: ps)
qed

text \<open>C4: What several network policies mean together, for any destination that is not blank: one closed policy closes all;
  whitelists allow what one of them allows; blacklists allow what all of them allow; and open ones change nothing.\<close>
theorem merged_policies_verdict:
  assumes "ps \<noteq> []" and "\<And>xs. set (ord xs) = set xs" and "trim t \<noteq> []"
  shows "(Closed \<in> egress_mode ` set ps \<longrightarrow> \<not> fst (egress_evaluate parse_ip in_cidr (MergeEgressPolicies ord ps) t))
    \<and> (egress_mode ` set ps = {Whitelist} \<longrightarrow>
         fst (egress_evaluate parse_ip in_cidr (MergeEgressPolicies ord ps) t) = (\<exists>p \<in> set ps. fst (egress_evaluate parse_ip in_cidr p t)))
    \<and> (egress_mode ` set ps = {Blacklist} \<longrightarrow>
         fst (egress_evaluate parse_ip in_cidr (MergeEgressPolicies ord ps) t) = (\<forall>p \<in> set ps. fst (egress_evaluate parse_ip in_cidr p t)))
    \<and> (egress_mode ` set ps = {Open} \<longrightarrow> fst (egress_evaluate parse_ip in_cidr (MergeEgressPolicies ord ps) t))"
proof -
  have e: "fst (egress_evaluate parse_ip in_cidr p t) =
      (case egress_mode p of Open \<Rightarrow> True | Closed \<Rightarrow> False
       | Whitelist \<Rightarrow> egress_matches parse_ip in_cidr p (trim t) \<noteq> None | Blacklist \<Rightarrow> egress_matches parse_ip in_cidr p (trim t) = None)" for p
    using assms(3) by (simp add: egress_evaluate_def Let_def split: mode.split option.split)
  have m: "egress_matches parse_ip in_cidr (MergeEgressPolicies ord ps) (trim t) = None
      \<longleftrightarrow> (\<forall>p \<in> set ps. egress_matches parse_ip in_cidr p (trim t) = None)"
    using merged_matches [of ord parse_ip in_cidr ps "trim t", OF assms(2)] by (metis (full_types))
  have k: "\<forall>p \<in> set ps. egress_mode p = k" if "egress_mode ` set ps = {k}" for k using that by auto
  note mode = merged_egress_mode [OF assms(1), of ord]
  show ?thesis
  proof (intro conjI impI)
    assume "Closed \<in> egress_mode ` set ps"
    then have "\<exists>p \<in> set ps. egress_mode p = Closed" by force
    then show "\<not> fst (egress_evaluate parse_ip in_cidr (MergeEgressPolicies ord ps) t)" by (simp add: e mode)
  next
    assume a: "egress_mode ` set ps = {Whitelist}"
    then have "egress_mode (MergeEgressPolicies ord ps) = Whitelist" using k [OF a] assms(1) by (auto simp: mode)
    then show "fst (egress_evaluate parse_ip in_cidr (MergeEgressPolicies ord ps) t) = (\<exists>p \<in> set ps. fst (egress_evaluate parse_ip in_cidr p t))"
      using k [OF a] by (simp add: e m del: not_None_eq)
  next
    assume a: "egress_mode ` set ps = {Blacklist}"
    then have "egress_mode (MergeEgressPolicies ord ps) = Blacklist" using k [OF a] assms(1) by (auto simp: mode)
    then show "fst (egress_evaluate parse_ip in_cidr (MergeEgressPolicies ord ps) t) = (\<forall>p \<in> set ps. fst (egress_evaluate parse_ip in_cidr p t))"
      using k [OF a] by (simp add: e m)
  next
    assume a: "egress_mode ` set ps = {Open}"
    then show "fst (egress_evaluate parse_ip in_cidr (MergeEgressPolicies ord ps) t)" using k [OF a] by (auto simp: e mode)
  qed
qed

definition host_list :: "mode \<Rightarrow> string list \<Rightarrow> egress_policy" where
  "host_list m hs = \<lparr>egress_mode = m, hosts = hs, cidrs = []\<rparr>"

lemma merged_policies_verdict_witness:
  "fst (egress_evaluate (\<lambda>s. False) (\<lambda>c s. False) (MergeEgressPolicies rev [host_list Whitelist [''a.io''], host_list Whitelist [''*.b.io'']]) ''x.b.io'')"
proof -
  have t: "trim ''x.b.io'' \<noteq> []" by code_simp
  have "fst (egress_evaluate (\<lambda>s. False) (\<lambda>c s. False) (host_list Whitelist [''*.b.io'']) ''x.b.io'')" unfolding host_list_def by code_simp
  then show ?thesis
    using merged_policies_verdict [of "[host_list Whitelist [''a.io''], host_list Whitelist [''*.b.io'']]" rev "''x.b.io''", OF _ _ t]
    by (simp add: host_list_def)
qed

text \<open>A destination that a whitelist does not contain and a blacklist does contain is refused under each of the two
  policies, and reachable under both together: the blacklist's entry counts as an entry of the merged whitelist.\<close>
theorem refused_by_each_reachable_under_both:
  assumes "\<And>xs. set (ord xs) = set xs" and "egress_mode w = Whitelist" and "egress_mode b = Blacklist"
    and "egress_evaluate parse_ip in_cidr w t = (False, r)" and "egress_evaluate parse_ip in_cidr b t = (False, r')"
  shows "fst (egress_evaluate parse_ip in_cidr (MergeEgressPolicies ord [w, b]) t)
     \<and> fst (egress_evaluate parse_ip in_cidr (MergeEgressPolicies ord [b, w]) t)"
proof -
  have t: "trim t \<noteq> []" using assms(4) by (auto simp: egress_evaluate_def Let_def)
  have h: "egress_matches parse_ip in_cidr b (trim t) \<noteq> None"
    using assms(3, 5) t by (auto simp: egress_evaluate_def Let_def split: option.splits)
  have "egress_mode (MergeEgressPolicies ord ps) = Whitelist \<and> egress_matches parse_ip in_cidr (MergeEgressPolicies ord ps) (trim t) \<noteq> None"
    if "ps = [w, b] \<or> ps = [b, w]" for ps
    using that h assms(2, 3) merged_egress_mode [of ps ord] merged_matches [of ord, OF assms(1)] by auto
  then show ?thesis using t by (auto simp: egress_evaluate_def Let_def split: option.split)
qed

lemma refused_by_each_reachable_under_both_witness:
  "fst (egress_evaluate (\<lambda>s. False) (\<lambda>c s. False) (MergeEgressPolicies (\<lambda>xs. xs) [host_list Whitelist [''api.io''], host_list Blacklist [''evil.io'']]) ''evil.io'')
   \<and> fst (egress_evaluate (\<lambda>s. False) (\<lambda>c s. False) (MergeEgressPolicies (\<lambda>xs. xs) [host_list Blacklist [''evil.io''], host_list Whitelist [''api.io'']]) ''evil.io'')"
proof (rule refused_by_each_reachable_under_both)
  show "egress_evaluate (\<lambda>s. False) (\<lambda>c s. False) (host_list Whitelist [''api.io'']) ''evil.io'' = (False, ''not-in-whitelist'')"
    "egress_evaluate (\<lambda>s. False) (\<lambda>c s. False) (host_list Blacklist [''evil.io'']) ''evil.io'' = (False, ''blacklist:host:evil.io'')"
    unfolding host_list_def by code_simp+
qed (simp_all add: host_list_def)

end
