(* ===== verification/ApiClient.thy ===== *)
theory ApiClient
  imports Json
begin

text \<open>
  The client of the backend (\<open>api.ts\<close>): every call as the request it sends, how an answer is taken, and the table of
  routes that the server registers (\<open>Register\<close> of \<open>apps/*/api/endpoints.go\<close>, \<open>Mount\<close> of the runtime app). A body that a
  caller hands over is a JSON value. \<open>enc\<close> is the encoding of \<open>URLSearchParams\<close> for one key or value, and
  \<open>encode_part\<close> is \<open>encodeURIComponent\<close>; that a request is cancelled is not modelled. The name of a runtime
  operation, which the source does not give, is its handler's.
\<close>

section \<open>Requests\<close>

datatype http_method = GET | POST | PUT | DELETE

record api_request =
  rq_method :: http_method
  rq_path :: string
  rq_body :: "json option"

definition no_body :: "http_method \<Rightarrow> string \<Rightarrow> api_request" where
  "no_body m p = \<lparr>rq_method = m, rq_path = p, rq_body = None\<rparr>"

definition with_body :: "http_method \<Rightarrow> string \<Rightarrow> json \<Rightarrow> api_request" where
  "with_body m p v = \<lparr>rq_method = m, rq_path = p, rq_body = Some v\<rparr>"

text \<open>The address that is fetched.\<close>

definition fetched_path :: "api_request \<Rightarrow> string" where
  "fetched_path r = ''/api'' @ rq_path r"

text \<open>\<open>URLSearchParams\<close>: what a call sets of it, and its text. A text or a limit is set when it is truthy, a number when it
  is there.\<close>

definition set_text :: "string \<Rightarrow> string option \<Rightarrow> (string \<times> string) list" where
  "set_text k v = (if or_else v [] = [] then [] else [(k, or_else v [])])"

definition set_number :: "string \<Rightarrow> nat option \<Rightarrow> (string \<times> string) list" where
  "set_number k v = (case v of Some n \<Rightarrow> [(k, nat_str n)] | None \<Rightarrow> [])"

definition set_positive :: "string \<Rightarrow> nat option \<Rightarrow> (string \<times> string) list" where
  "set_positive k v = (if or_else v 0 = 0 then [] else set_number k v)"

definition set_bool :: "string \<Rightarrow> bool option \<Rightarrow> (string \<times> string) list" where
  "set_bool k v = (case v of Some b \<Rightarrow> [(k, if b then ''true'' else ''false'')] | None \<Rightarrow> [])"

definition params_text :: "(string \<Rightarrow> string) \<Rightarrow> (string \<times> string) list \<Rightarrow> string" where
  "params_text enc kvs = join ''&'' (map (\<lambda>p. enc (fst p) @ ''='' @ enc (snd p)) kvs)"

definition query_text :: "(string \<Rightarrow> string) \<Rightarrow> (string \<times> string) list \<Rightarrow> string" where
  "query_text enc kvs = (let q = params_text enc kvs in if q = [] then [] else CHR ''?'' # q)"

section \<open>Answers\<close>

record http_answer =
  an_status :: nat
  an_statusText :: string
  an_body :: "json option"

datatype api_result = Unauthorised | Failed string | NoContent | Content json

text \<open>Whether the handler for a lost session runs, and what the caller gets. A body that is not JSON is \<open>None\<close>; where it is
  needed, reading it fails. \<open>res.ok\<close> is a status from 200 to 299. \<open>body?.title\<close> is a text in the server's answers.\<close>

definition answer_title :: "json option \<Rightarrow> string option" where
  "answer_title b = (case b of Some (JObj kvs) \<Rightarrow> (case map_of kvs ''title'' of Some (JStr t) \<Rightarrow> Some t | _ \<Rightarrow> None) | _ \<Rightarrow> None)"

definition take_answer :: "http_answer \<Rightarrow> bool \<times> api_result" where
  "take_answer a =
     (if an_status a = 401 then (True, Unauthorised)
      else if \<not> (200 \<le> an_status a \<and> an_status a < 300)
      then (False, Failed (or_else (answer_title (an_body a)) (nat_str (an_status a) @ '' '' @ an_statusText a)))
      else if an_status a = 204 then (False, NoContent)
      else (False, case an_body a of Some v \<Rightarrow> Content v | None \<Rightarrow> Failed ''Unexpected end of JSON input''))"

section \<open>The calls\<close>

datatype auth_call = Auth_me | Auth_login string | Auth_logout

fun auth_request :: "auth_call \<Rightarrow> api_request" where
  "auth_request Auth_me = no_body GET ''/auth/me''"
| "auth_request (Auth_login token) = with_body POST ''/auth/login'' (JObj [(''token'', JStr token)])"
| "auth_request Auth_logout = no_body POST ''/auth/logout''"

datatype settings_call = Settings_get | Settings_update json

fun settings_request :: "settings_call \<Rightarrow> api_request" where
  "settings_request Settings_get = no_body GET ''/settings''"
| "settings_request (Settings_update d) = with_body PUT ''/settings'' d"

datatype config_call = Config_get | Config_update json | Config_apply | Config_reset | Config_verifyEmail json

fun config_request :: "config_call \<Rightarrow> api_request" where
  "config_request Config_get = no_body GET ''/config''"
| "config_request (Config_update d) = with_body PUT ''/config'' d"
| "config_request Config_apply = no_body POST ''/config/apply''"
| "config_request Config_reset = no_body POST ''/config/reset''"
| "config_request (Config_verifyEmail d) = with_body POST ''/config/email/verify'' d"

datatype llmConnections_call =
    LlmConnections_list
  | LlmConnections_get string
  | LlmConnections_create json
  | LlmConnections_update string json
  | LlmConnections_delete string
  | LlmConnections_listAvailableModels string
  | LlmConnections_getInferenceLimit string

fun llmConnections_request :: "llmConnections_call \<Rightarrow> api_request" where
  "llmConnections_request LlmConnections_list = no_body GET ''/llm-connections''"
| "llmConnections_request (LlmConnections_get i) = no_body GET (''/llm-connections/'' @ i)"
| "llmConnections_request (LlmConnections_create d) = with_body POST ''/llm-connections'' d"
| "llmConnections_request (LlmConnections_update i d) = with_body PUT (''/llm-connections/'' @ i) d"
| "llmConnections_request (LlmConnections_delete i) = no_body DELETE (''/llm-connections/'' @ i)"
| "llmConnections_request (LlmConnections_listAvailableModels i) =
     no_body GET (''/llm-connections/'' @ i @ ''/available-models'')"
| "llmConnections_request (LlmConnections_getInferenceLimit i) =
     no_body GET (''/llm-connections/'' @ i @ ''/inference-limit'')"

datatype models_call = Models_list | Models_get string | Models_create json | Models_update string json | Models_delete string

fun models_request :: "models_call \<Rightarrow> api_request" where
  "models_request Models_list = no_body GET ''/models''"
| "models_request (Models_get i) = no_body GET (''/models/'' @ i)"
| "models_request (Models_create d) = with_body POST ''/models'' d"
| "models_request (Models_update i d) = with_body PUT (''/models/'' @ i) d"
| "models_request (Models_delete i) = no_body DELETE (''/models/'' @ i)"

datatype presets_call = Presets_list | Presets_create json | Presets_update string json | Presets_delete string

fun presets_request :: "presets_call \<Rightarrow> api_request" where
  "presets_request Presets_list = no_body GET ''/presets''"
| "presets_request (Presets_create d) = with_body POST ''/presets'' d"
| "presets_request (Presets_update i d) = with_body PUT (''/presets/'' @ i) d"
| "presets_request (Presets_delete i) = no_body DELETE (''/presets/'' @ i)"

datatype connections_call =
    Connections_list
  | Connections_get string
  | Connections_create json
  | Connections_update string json
  | Connections_delete string
  | Connections_addMemory string string
  | Connections_deleteMemory string string

fun connections_request :: "connections_call \<Rightarrow> api_request" where
  "connections_request Connections_list = no_body GET ''/connections''"
| "connections_request (Connections_get i) = no_body GET (''/connections/'' @ i)"
| "connections_request (Connections_create d) = with_body POST ''/connections'' d"
| "connections_request (Connections_update i d) = with_body PUT (''/connections/'' @ i) d"
| "connections_request (Connections_delete i) = no_body DELETE (''/connections/'' @ i)"
| "connections_request (Connections_addMemory i content) =
     with_body POST (''/connections/'' @ i @ ''/memories'') (JObj [(''content'', JStr content)])"
| "connections_request (Connections_deleteMemory i m) = no_body DELETE (''/connections/'' @ i @ ''/memories/'' @ m)"

datatype skills_call = Skills_list "string option" | Skills_create json | Skills_update string json | Skills_delete string

fun skills_request :: "(string \<Rightarrow> string) \<Rightarrow> skills_call \<Rightarrow> api_request" where
  "skills_request enc (Skills_list c) = no_body GET (''/skills'' @ query_text enc (set_text ''connectionId'' c))"
| "skills_request enc (Skills_create d) = with_body POST ''/skills'' d"
| "skills_request enc (Skills_update i d) = with_body PUT (''/skills/'' @ i) d"
| "skills_request enc (Skills_delete i) = no_body DELETE (''/skills/'' @ i)"

datatype plans_call = Plans_list | Plans_create json | Plans_update string json | Plans_delete string

fun plans_request :: "plans_call \<Rightarrow> api_request" where
  "plans_request Plans_list = no_body GET ''/plans''"
| "plans_request (Plans_create d) = with_body POST ''/plans'' d"
| "plans_request (Plans_update i d) = with_body PUT (''/plans/'' @ i) d"
| "plans_request (Plans_delete i) = no_body DELETE (''/plans/'' @ i)"

datatype planRuns_call = PlanRuns_list string | PlanRuns_get string | PlanRuns_trigger string "json option" | PlanRuns_cancel string

fun planRuns_request :: "planRuns_call \<Rightarrow> api_request" where
  "planRuns_request (PlanRuns_list i) = no_body GET (''/plans/'' @ i @ ''/runs'')"
| "planRuns_request (PlanRuns_get i) = no_body GET (''/plan-runs/'' @ i)"
| "planRuns_request (PlanRuns_trigger i inp) =
     with_body POST (''/plans/'' @ i @ ''/runs'') (JObj [(''input'', or_else inp (JObj []))])"
| "planRuns_request (PlanRuns_cancel i) = no_body POST (''/plan-runs/'' @ i @ ''/cancel'')"

datatype telegram_call = Telegram_verify string | Telegram_status string

fun telegram_request :: "telegram_call \<Rightarrow> api_request" where
  "telegram_request (Telegram_verify token) = with_body POST ''/telegram/wizard/verify'' (JObj [(''token'', JStr token)])"
| "telegram_request (Telegram_status token) = with_body POST ''/telegram/wizard/status'' (JObj [(''token'', JStr token)])"

datatype gonka_call =
    Gonka_config
  | Gonka_createWallet
  | Gonka_importWallet string
  | Gonka_deriveAddress string
  | Gonka_balance string string
  | Gonka_account string string

fun gonka_request :: "(string \<Rightarrow> string) \<Rightarrow> gonka_call \<Rightarrow> api_request" where
  "gonka_request enc Gonka_config = no_body GET ''/gonka/config''"
| "gonka_request enc Gonka_createWallet = no_body POST ''/gonka/wallet''"
| "gonka_request enc (Gonka_importWallet m) = with_body POST ''/gonka/wallet/import'' (JObj [(''mnemonic'', JStr m)])"
| "gonka_request enc (Gonka_deriveAddress k) = with_body POST ''/gonka/wallet/derive'' (JObj [(''privateKeyHex'', JStr k)])"
| "gonka_request enc (Gonka_balance a u) =
     no_body GET (''/gonka/wallet/balance?'' @ params_text enc [(''address'', a), (''nodeUrl'', u)])"
| "gonka_request enc (Gonka_account a u) =
     no_body GET (''/gonka/wallet/account?'' @ params_text enc [(''address'', a), (''nodeUrl'', u)])"

datatype sandboxes_call = Sandboxes_list | Sandboxes_rebuild string | Sandboxes_start string | Sandboxes_stop string | Sandboxes_delete string

fun sandboxes_request :: "(string \<Rightarrow> string) \<Rightarrow> sandboxes_call \<Rightarrow> api_request" where
  "sandboxes_request encode_part Sandboxes_list = no_body GET ''/runtime/sandboxes''"
| "sandboxes_request encode_part (Sandboxes_rebuild n) = no_body POST (''/runtime/sandboxes/'' @ encode_part n @ ''/rebuild'')"
| "sandboxes_request encode_part (Sandboxes_start n) = no_body POST (''/runtime/sandboxes/'' @ encode_part n @ ''/start'')"
| "sandboxes_request encode_part (Sandboxes_stop n) = no_body POST (''/runtime/sandboxes/'' @ encode_part n @ ''/stop'')"
| "sandboxes_request encode_part (Sandboxes_delete n) = no_body DELETE (''/runtime/sandboxes/'' @ encode_part n)"

datatype guardProfiles_call =
    GuardProfiles_list
  | GuardProfiles_create json
  | GuardProfiles_update string json
  | GuardProfiles_delete string
  | GuardProfiles_test "(string \<times> json) list" string string
  | GuardProfiles_syncAttachments string "string list"

fun guardProfiles_request :: "guardProfiles_call \<Rightarrow> api_request" where
  "guardProfiles_request GuardProfiles_list = no_body GET ''/guard-profiles''"
| "guardProfiles_request (GuardProfiles_create d) = with_body POST ''/guard-profiles'' d"
| "guardProfiles_request (GuardProfiles_update i d) = with_body PUT (''/guard-profiles/'' @ i) d"
| "guardProfiles_request (GuardProfiles_delete i) = no_body DELETE (''/guard-profiles/'' @ i)"
| "guardProfiles_request (GuardProfiles_test kvs k t) =
     with_body POST ''/guard-profiles/test'' (JObj [(''profile'', JObj (obj_build ([(''id'', JStr []), (''builtin'', JBool False)] @ kvs))), (''kind'', JStr k), (''target'', JStr t)])"
| "guardProfiles_request (GuardProfiles_syncAttachments i cs) =
     with_body PUT (''/guard-profiles/'' @ i @ ''/attachments'') (JObj [(''connectionIds'', JArr (map JStr cs))])"

datatype guardEvents_call = GuardEvents_list "string option" "bool option" "string option" "string option" "nat option"

fun guardEvents_request :: "(string \<Rightarrow> string) \<Rightarrow> guardEvents_call \<Rightarrow> api_request" where
  "guardEvents_request enc (GuardEvents_list k b pr c l) =
     no_body GET (''/guard/events'' @ query_text enc (set_text ''kind'' k @ set_bool ''allowed'' b @ set_text ''profileId'' pr
       @ set_text ''connectionId'' c @ set_positive ''limit'' l))"

datatype channels_call = Channels_list | Channels_get string | Channels_create json | Channels_update string json | Channels_delete string

fun channels_request :: "channels_call \<Rightarrow> api_request" where
  "channels_request Channels_list = no_body GET ''/channels''"
| "channels_request (Channels_get i) = no_body GET (''/channels/'' @ i)"
| "channels_request (Channels_create d) = with_body POST ''/channels'' d"
| "channels_request (Channels_update i d) = with_body PUT (''/channels/'' @ i) d"
| "channels_request (Channels_delete i) = no_body DELETE (''/channels/'' @ i)"

datatype sessionLogs_call = SessionLogs_list "string option" "nat option" "nat option" | SessionLogs_get string | SessionLogs_clear

fun sessionLogs_request :: "(string \<Rightarrow> string) \<Rightarrow> sessionLogs_call \<Rightarrow> api_request" where
  "sessionLogs_request enc (SessionLogs_list c l ofs) =
     no_body GET (''/session-logs'' @ query_text enc (set_text ''connectionId'' c @ set_number ''limit'' l @ set_number ''offset'' ofs))"
| "sessionLogs_request enc (SessionLogs_get i) = no_body GET (''/session-logs/'' @ i)"
| "sessionLogs_request enc SessionLogs_clear = no_body DELETE ''/session-logs''"

datatype chat_call =
    Chat_getSession
  | Chat_resetContext
  | Chat_listSessions "nat option" "nat option"
  | Chat_createSession "string option"
  | Chat_updateSession string string
  | Chat_deleteSession string
  | Chat_listMessages "nat option" "nat option" "string option" "string option"
  | Chat_sendMessage string string "json list option"
  | Chat_regenerate string
  | Chat_stopSession string
  | Chat_getContextStatus string
  | Chat_clearHistory

fun chat_request :: "(string \<Rightarrow> string) \<Rightarrow> chat_call \<Rightarrow> api_request" where
  "chat_request enc Chat_getSession = no_body GET ''/chat/session''"
| "chat_request enc Chat_resetContext = no_body POST ''/chat/reset''"
| "chat_request enc (Chat_listSessions l ofs) =
     no_body GET (''/chat/sessions'' @ query_text enc (set_number ''limit'' l @ set_number ''offset'' ofs))"
| "chat_request enc (Chat_createSession t) = with_body POST ''/chat/sessions'' (JObj [(''title'', JStr (or_else t []))])"
| "chat_request enc (Chat_updateSession i t) = with_body PUT (''/chat/sessions/'' @ i) (JObj [(''title'', JStr t)])"
| "chat_request enc (Chat_deleteSession i) = no_body DELETE (''/chat/sessions/'' @ i)"
| "chat_request enc (Chat_listMessages l ofs si src) =
     no_body GET (''/chat/messages'' @ query_text enc (set_number ''limit'' l @ set_number ''offset'' ofs @ set_text ''sessionId'' si
       @ set_text ''source'' src))"
| "chat_request enc (Chat_sendMessage i content files) =
     with_body POST ''/chat/messages'' (JObj [(''sessionId'', JStr i), (''content'', JStr content), (''files'', JArr (or_else files []))])"
| "chat_request enc (Chat_regenerate i) = no_body POST (''/chat/sessions/'' @ i @ ''/regenerate'')"
| "chat_request enc (Chat_stopSession i) = no_body POST (''/chat/sessions/'' @ i @ ''/stop'')"
| "chat_request enc (Chat_getContextStatus i) = no_body GET (''/chat/sessions/'' @ i @ ''/context'')"
| "chat_request enc Chat_clearHistory = no_body DELETE ''/chat/history''"

datatype api_call =
    Auth auth_call
  | Settings settings_call
  | Config config_call
  | LlmConnections llmConnections_call
  | Models models_call
  | Presets presets_call
  | Connections connections_call
  | Skills skills_call
  | Plans plans_call
  | PlanRuns planRuns_call
  | Telegram telegram_call
  | Gonka gonka_call
  | Sandboxes sandboxes_call
  | GuardProfiles guardProfiles_call
  | GuardEvents guardEvents_call
  | Channels channels_call
  | SessionLogs sessionLogs_call
  | Chat chat_call

fun api_request_of :: "(string \<Rightarrow> string) \<Rightarrow> (string \<Rightarrow> string) \<Rightarrow> api_call \<Rightarrow> api_request" where
  "api_request_of enc encode_part (Auth c) = auth_request c"
| "api_request_of enc encode_part (Settings c) = settings_request c"
| "api_request_of enc encode_part (Config c) = config_request c"
| "api_request_of enc encode_part (LlmConnections c) = llmConnections_request c"
| "api_request_of enc encode_part (Models c) = models_request c"
| "api_request_of enc encode_part (Presets c) = presets_request c"
| "api_request_of enc encode_part (Connections c) = connections_request c"
| "api_request_of enc encode_part (Skills c) = skills_request enc c"
| "api_request_of enc encode_part (Plans c) = plans_request c"
| "api_request_of enc encode_part (PlanRuns c) = planRuns_request c"
| "api_request_of enc encode_part (Telegram c) = telegram_request c"
| "api_request_of enc encode_part (Gonka c) = gonka_request enc c"
| "api_request_of enc encode_part (Sandboxes c) = sandboxes_request encode_part c"
| "api_request_of enc encode_part (GuardProfiles c) = guardProfiles_request c"
| "api_request_of enc encode_part (GuardEvents c) = guardEvents_request enc c"
| "api_request_of enc encode_part (Channels c) = channels_request c"
| "api_request_of enc encode_part (SessionLogs c) = sessionLogs_request enc c"
| "api_request_of enc encode_part (Chat c) = chat_request enc c"

section \<open>The routes of the server\<close>

record server_route =
  sr_operation :: string
  sr_method :: http_method
  sr_pattern :: string

definition route :: "string \<Rightarrow> http_method \<Rightarrow> string \<Rightarrow> server_route" where
  "route op m p = \<lparr>sr_operation = op, sr_method = m, sr_pattern = p\<rparr>"

definition auth_routes :: "server_route list" where
  "auth_routes =
    [route ''auth-login'' POST ''/api/auth/login'',
     route ''auth-logout'' POST ''/api/auth/logout'',
     route ''auth-me'' GET ''/api/auth/me'']"

definition config_routes :: "server_route list" where
  "config_routes =
    [route ''get-config'' GET ''/api/config'',
     route ''update-config'' PUT ''/api/config'',
     route ''apply-config'' POST ''/api/config/apply'',
     route ''reset-config'' POST ''/api/config/reset'',
     route ''verify-email'' POST ''/api/config/email/verify'']"

definition metadata_routes :: "server_route list" where
  "metadata_routes =
    [route ''get-settings'' GET ''/api/settings'',
     route ''update-settings'' PUT ''/api/settings'',
     route ''create-llm-connection'' POST ''/api/llm-connections'',
     route ''list-llm-connections'' GET ''/api/llm-connections'',
     route ''get-llm-connection'' GET ''/api/llm-connections/{id}'',
     route ''update-llm-connection'' PUT ''/api/llm-connections/{id}'',
     route ''delete-llm-connection'' DELETE ''/api/llm-connections/{id}'',
     route ''list-llm-connection-models'' GET ''/api/llm-connections/{id}/available-models'',
     route ''get-llm-connection-inference-limit'' GET ''/api/llm-connections/{id}/inference-limit'',
     route ''create-model'' POST ''/api/models'',
     route ''list-models'' GET ''/api/models'',
     route ''get-model'' GET ''/api/models/{id}'',
     route ''update-model'' PUT ''/api/models/{id}'',
     route ''delete-model'' DELETE ''/api/models/{id}'',
     route ''create-preset'' POST ''/api/presets'',
     route ''list-presets'' GET ''/api/presets'',
     route ''update-preset'' PUT ''/api/presets/{id}'',
     route ''delete-preset'' DELETE ''/api/presets/{id}'',
     route ''create-connection'' POST ''/api/connections'',
     route ''list-connections'' GET ''/api/connections'',
     route ''get-connection'' GET ''/api/connections/{id}'',
     route ''update-connection'' PUT ''/api/connections/{id}'',
     route ''delete-connection'' DELETE ''/api/connections/{id}'',
     route ''create-skill'' POST ''/api/skills'',
     route ''list-skills'' GET ''/api/skills'',
     route ''update-skill'' PUT ''/api/skills/{id}'',
     route ''delete-skill'' DELETE ''/api/skills/{id}'',
     route ''add-memory'' POST ''/api/connections/{id}/memories'',
     route ''delete-memory'' DELETE ''/api/connections/{id}/memories/{memoryId}'',
     route ''create-plan'' POST ''/api/plans'',
     route ''list-plans'' GET ''/api/plans'',
     route ''update-plan'' PUT ''/api/plans/{id}'',
     route ''delete-plan'' DELETE ''/api/plans/{id}'',
     route ''list-plan-runs'' GET ''/api/plans/{planId}/runs'',
     route ''trigger-plan-run'' POST ''/api/plans/{planId}/runs'',
     route ''get-plan-run'' GET ''/api/plan-runs/{id}'',
     route ''cancel-plan-run'' POST ''/api/plan-runs/{id}/cancel'',
     route ''create-channel'' POST ''/api/channels'',
     route ''list-channels'' GET ''/api/channels'',
     route ''get-channel'' GET ''/api/channels/{id}'',
     route ''update-channel'' PUT ''/api/channels/{id}'',
     route ''delete-channel'' DELETE ''/api/channels/{id}'']"

definition telegram_routes :: "server_route list" where
  "telegram_routes =
    [route ''telegram-wizard-verify'' POST ''/api/telegram/wizard/verify'',
     route ''telegram-wizard-status'' POST ''/api/telegram/wizard/status'']"

definition gonka_routes :: "server_route list" where
  "gonka_routes =
    [route ''gonka-config'' GET ''/api/gonka/config'',
     route ''gonka-create-wallet'' POST ''/api/gonka/wallet'',
     route ''gonka-import-wallet'' POST ''/api/gonka/wallet/import'',
     route ''gonka-derive-address'' POST ''/api/gonka/wallet/derive'',
     route ''gonka-wallet-balance'' GET ''/api/gonka/wallet/balance'',
     route ''gonka-wallet-account'' GET ''/api/gonka/wallet/account'']"

definition guard_routes :: "server_route list" where
  "guard_routes =
    [route ''create-guard-profile'' POST ''/api/guard-profiles'',
     route ''list-guard-profiles'' GET ''/api/guard-profiles'',
     route ''update-guard-profile'' PUT ''/api/guard-profiles/{id}'',
     route ''delete-guard-profile'' DELETE ''/api/guard-profiles/{id}'',
     route ''test-guard-profile'' POST ''/api/guard-profiles/test'',
     route ''sync-guard-profile-attachments'' PUT ''/api/guard-profiles/{id}/attachments'',
     route ''list-guard-events'' GET ''/api/guard/events'',
     route ''ingest-guard-host-event'' POST ''/api/guard/events/ingest'']"

definition logs_routes :: "server_route list" where
  "logs_routes =
    [route ''list-session-logs'' GET ''/api/session-logs'',
     route ''get-session-log'' GET ''/api/session-logs/{id}'',
     route ''clear-session-logs'' DELETE ''/api/session-logs'']"

definition chat_routes :: "server_route list" where
  "chat_routes =
    [route ''get-chat-session'' GET ''/api/chat/session'',
     route ''reset-chat-context'' POST ''/api/chat/reset'',
     route ''list-chat-sessions'' GET ''/api/chat/sessions'',
     route ''create-chat-session'' POST ''/api/chat/sessions'',
     route ''update-chat-session'' PUT ''/api/chat/sessions/{id}'',
     route ''delete-chat-session'' DELETE ''/api/chat/sessions/{id}'',
     route ''list-chat-messages'' GET ''/api/chat/messages'',
     route ''send-chat-message'' POST ''/api/chat/messages'',
     route ''regenerate-chat-last'' POST ''/api/chat/sessions/{id}/regenerate'',
     route ''stop-chat-session'' POST ''/api/chat/sessions/{id}/stop'',
     route ''get-chat-context-status'' GET ''/api/chat/sessions/{id}/context'',
     route ''clear-chat-history'' DELETE ''/api/chat/history'']"

definition runtime_routes :: "server_route list" where
  "runtime_routes =
    [route ''list-sandboxes'' GET ''/api/runtime/sandboxes'',
     route ''create-sandbox'' POST ''/api/runtime/sandboxes'',
     route ''sandbox-logs'' GET ''/api/runtime/sandboxes/{name}/logs'',
     route ''sandbox-status'' GET ''/api/runtime/sandboxes/{name}/status'',
     route ''rebuild-sandbox'' POST ''/api/runtime/sandboxes/{name}/rebuild'',
     route ''start-sandbox'' POST ''/api/runtime/sandboxes/{name}/start'',
     route ''stop-sandbox'' POST ''/api/runtime/sandboxes/{name}/stop'',
     route ''delete-sandbox'' DELETE ''/api/runtime/sandboxes/{name}'',
     route ''egress-state'' GET ''/api/runtime/egress/state'']"

definition server_routes :: "server_route list" where
  "server_routes = auth_routes @ config_routes @ metadata_routes @ telegram_routes @ gonka_routes @ guard_routes
     @ logs_routes @ chat_routes @ runtime_routes"

text \<open>The router of the server is a third-party package; of it, what its documentation says of these patterns: segments in braces
  stand for any segment that is not empty, the others for themselves. A fragment and a query are no part of the path, and a
  browser resolves the segments of one and two dots, so a path is only matched here for texts that have none of these.\<close>

datatype pattern_segment = Lit string | Par

definition pattern_segments :: "string \<Rightarrow> pattern_segment list" where
  "pattern_segments p = map (\<lambda>s. if starts_with ''{'' s then Par else Lit s) (split_on CHR ''/'' p)"

fun segment_matches :: "pattern_segment \<Rightarrow> string \<Rightarrow> bool" where
  "segment_matches (Lit t) s = (s = t)"
| "segment_matches Par s = (s \<noteq> [])"

definition address_path :: "string \<Rightarrow> string" where
  "address_path a = takeWhile (\<lambda>c. c \<noteq> CHR ''?'' \<and> c \<noteq> CHR ''#'') a"

definition reaches :: "http_method \<Rightarrow> string \<Rightarrow> server_route \<Rightarrow> bool" where
  "reaches m a r \<longleftrightarrow> sr_method r = m
     \<and> list_all2 segment_matches (pattern_segments (sr_pattern r)) (split_on CHR ''/'' (address_path a))"

text \<open>The operation each call is for.\<close>

fun api_operation :: "api_call \<Rightarrow> string" where
  "api_operation (Auth Auth_me) = ''auth-me''"
| "api_operation (Auth (Auth_login token)) = ''auth-login''"
| "api_operation (Auth Auth_logout) = ''auth-logout''"
| "api_operation (Settings Settings_get) = ''get-settings''"
| "api_operation (Settings (Settings_update d)) = ''update-settings''"
| "api_operation (Config Config_get) = ''get-config''"
| "api_operation (Config (Config_update d)) = ''update-config''"
| "api_operation (Config Config_apply) = ''apply-config''"
| "api_operation (Config Config_reset) = ''reset-config''"
| "api_operation (Config (Config_verifyEmail d)) = ''verify-email''"
| "api_operation (LlmConnections LlmConnections_list) = ''list-llm-connections''"
| "api_operation (LlmConnections (LlmConnections_get i)) = ''get-llm-connection''"
| "api_operation (LlmConnections (LlmConnections_create d)) = ''create-llm-connection''"
| "api_operation (LlmConnections (LlmConnections_update i d)) = ''update-llm-connection''"
| "api_operation (LlmConnections (LlmConnections_delete i)) = ''delete-llm-connection''"
| "api_operation (LlmConnections (LlmConnections_listAvailableModels i)) = ''list-llm-connection-models''"
| "api_operation (LlmConnections (LlmConnections_getInferenceLimit i)) = ''get-llm-connection-inference-limit''"
| "api_operation (Models Models_list) = ''list-models''"
| "api_operation (Models (Models_get i)) = ''get-model''"
| "api_operation (Models (Models_create d)) = ''create-model''"
| "api_operation (Models (Models_update i d)) = ''update-model''"
| "api_operation (Models (Models_delete i)) = ''delete-model''"
| "api_operation (Presets Presets_list) = ''list-presets''"
| "api_operation (Presets (Presets_create d)) = ''create-preset''"
| "api_operation (Presets (Presets_update i d)) = ''update-preset''"
| "api_operation (Presets (Presets_delete i)) = ''delete-preset''"
| "api_operation (Connections Connections_list) = ''list-connections''"
| "api_operation (Connections (Connections_get i)) = ''get-connection''"
| "api_operation (Connections (Connections_create d)) = ''create-connection''"
| "api_operation (Connections (Connections_update i d)) = ''update-connection''"
| "api_operation (Connections (Connections_delete i)) = ''delete-connection''"
| "api_operation (Connections (Connections_addMemory i content)) = ''add-memory''"
| "api_operation (Connections (Connections_deleteMemory i m)) = ''delete-memory''"
| "api_operation (Skills (Skills_list c)) = ''list-skills''"
| "api_operation (Skills (Skills_create d)) = ''create-skill''"
| "api_operation (Skills (Skills_update i d)) = ''update-skill''"
| "api_operation (Skills (Skills_delete i)) = ''delete-skill''"
| "api_operation (Plans Plans_list) = ''list-plans''"
| "api_operation (Plans (Plans_create d)) = ''create-plan''"
| "api_operation (Plans (Plans_update i d)) = ''update-plan''"
| "api_operation (Plans (Plans_delete i)) = ''delete-plan''"
| "api_operation (PlanRuns (PlanRuns_list i)) = ''list-plan-runs''"
| "api_operation (PlanRuns (PlanRuns_get i)) = ''get-plan-run''"
| "api_operation (PlanRuns (PlanRuns_trigger i inp)) = ''trigger-plan-run''"
| "api_operation (PlanRuns (PlanRuns_cancel i)) = ''cancel-plan-run''"
| "api_operation (Telegram (Telegram_verify token)) = ''telegram-wizard-verify''"
| "api_operation (Telegram (Telegram_status token)) = ''telegram-wizard-status''"
| "api_operation (Gonka Gonka_config) = ''gonka-config''"
| "api_operation (Gonka Gonka_createWallet) = ''gonka-create-wallet''"
| "api_operation (Gonka (Gonka_importWallet m)) = ''gonka-import-wallet''"
| "api_operation (Gonka (Gonka_deriveAddress k)) = ''gonka-derive-address''"
| "api_operation (Gonka (Gonka_balance a u)) = ''gonka-wallet-balance''"
| "api_operation (Gonka (Gonka_account a u)) = ''gonka-wallet-account''"
| "api_operation (Sandboxes Sandboxes_list) = ''list-sandboxes''"
| "api_operation (Sandboxes (Sandboxes_rebuild n)) = ''rebuild-sandbox''"
| "api_operation (Sandboxes (Sandboxes_start n)) = ''start-sandbox''"
| "api_operation (Sandboxes (Sandboxes_stop n)) = ''stop-sandbox''"
| "api_operation (Sandboxes (Sandboxes_delete n)) = ''delete-sandbox''"
| "api_operation (GuardProfiles GuardProfiles_list) = ''list-guard-profiles''"
| "api_operation (GuardProfiles (GuardProfiles_create d)) = ''create-guard-profile''"
| "api_operation (GuardProfiles (GuardProfiles_update i d)) = ''update-guard-profile''"
| "api_operation (GuardProfiles (GuardProfiles_delete i)) = ''delete-guard-profile''"
| "api_operation (GuardProfiles (GuardProfiles_test kvs k t)) = ''test-guard-profile''"
| "api_operation (GuardProfiles (GuardProfiles_syncAttachments i cs)) = ''sync-guard-profile-attachments''"
| "api_operation (GuardEvents (GuardEvents_list k b pr c l)) = ''list-guard-events''"
| "api_operation (Channels Channels_list) = ''list-channels''"
| "api_operation (Channels (Channels_get i)) = ''get-channel''"
| "api_operation (Channels (Channels_create d)) = ''create-channel''"
| "api_operation (Channels (Channels_update i d)) = ''update-channel''"
| "api_operation (Channels (Channels_delete i)) = ''delete-channel''"
| "api_operation (SessionLogs (SessionLogs_list c l ofs)) = ''list-session-logs''"
| "api_operation (SessionLogs (SessionLogs_get i)) = ''get-session-log''"
| "api_operation (SessionLogs SessionLogs_clear) = ''clear-session-logs''"
| "api_operation (Chat Chat_getSession) = ''get-chat-session''"
| "api_operation (Chat Chat_resetContext) = ''reset-chat-context''"
| "api_operation (Chat (Chat_listSessions l ofs)) = ''list-chat-sessions''"
| "api_operation (Chat (Chat_createSession t)) = ''create-chat-session''"
| "api_operation (Chat (Chat_updateSession i t)) = ''update-chat-session''"
| "api_operation (Chat (Chat_deleteSession i)) = ''delete-chat-session''"
| "api_operation (Chat (Chat_listMessages l ofs si src)) = ''list-chat-messages''"
| "api_operation (Chat (Chat_sendMessage i content files)) = ''send-chat-message''"
| "api_operation (Chat (Chat_regenerate i)) = ''regenerate-chat-last''"
| "api_operation (Chat (Chat_stopSession i)) = ''stop-chat-session''"
| "api_operation (Chat (Chat_getContextStatus i)) = ''get-chat-context-status''"
| "api_operation (Chat Chat_clearHistory) = ''clear-chat-history''"

text \<open>Ids that can stand in a path as they are.\<close>

definition plain_id :: "string \<Rightarrow> bool" where
  "plain_id i \<longleftrightarrow> i \<noteq> [] \<and> i \<noteq> ''.'' \<and> i \<noteq> ''..'' \<and> list_all (\<lambda>c. c \<notin> set ''/?#'') i"

fun call_ok :: "(string \<Rightarrow> string) \<Rightarrow> api_call \<Rightarrow> bool" where
  "call_ok encode_part (LlmConnections (LlmConnections_get i)) = (plain_id i)"
| "call_ok encode_part (LlmConnections (LlmConnections_update i d)) = (plain_id i)"
| "call_ok encode_part (LlmConnections (LlmConnections_delete i)) = (plain_id i)"
| "call_ok encode_part (LlmConnections (LlmConnections_listAvailableModels i)) = (plain_id i)"
| "call_ok encode_part (LlmConnections (LlmConnections_getInferenceLimit i)) = (plain_id i)"
| "call_ok encode_part (Models (Models_get i)) = (plain_id i)"
| "call_ok encode_part (Models (Models_update i d)) = (plain_id i)"
| "call_ok encode_part (Models (Models_delete i)) = (plain_id i)"
| "call_ok encode_part (Presets (Presets_update i d)) = (plain_id i)"
| "call_ok encode_part (Presets (Presets_delete i)) = (plain_id i)"
| "call_ok encode_part (Connections (Connections_get i)) = (plain_id i)"
| "call_ok encode_part (Connections (Connections_update i d)) = (plain_id i)"
| "call_ok encode_part (Connections (Connections_delete i)) = (plain_id i)"
| "call_ok encode_part (Connections (Connections_addMemory i content)) = (plain_id i)"
| "call_ok encode_part (Connections (Connections_deleteMemory i m)) = (plain_id i \<and> plain_id m)"
| "call_ok encode_part (Skills (Skills_update i d)) = (plain_id i)"
| "call_ok encode_part (Skills (Skills_delete i)) = (plain_id i)"
| "call_ok encode_part (Plans (Plans_update i d)) = (plain_id i)"
| "call_ok encode_part (Plans (Plans_delete i)) = (plain_id i)"
| "call_ok encode_part (PlanRuns (PlanRuns_list i)) = (plain_id i)"
| "call_ok encode_part (PlanRuns (PlanRuns_get i)) = (plain_id i)"
| "call_ok encode_part (PlanRuns (PlanRuns_trigger i inp)) = (plain_id i)"
| "call_ok encode_part (PlanRuns (PlanRuns_cancel i)) = (plain_id i)"
| "call_ok encode_part (Sandboxes (Sandboxes_rebuild n)) = (plain_id (encode_part n))"
| "call_ok encode_part (Sandboxes (Sandboxes_start n)) = (plain_id (encode_part n))"
| "call_ok encode_part (Sandboxes (Sandboxes_stop n)) = (plain_id (encode_part n))"
| "call_ok encode_part (Sandboxes (Sandboxes_delete n)) = (plain_id (encode_part n))"
| "call_ok encode_part (GuardProfiles (GuardProfiles_update i d)) = (plain_id i)"
| "call_ok encode_part (GuardProfiles (GuardProfiles_delete i)) = (plain_id i)"
| "call_ok encode_part (GuardProfiles (GuardProfiles_syncAttachments i cs)) = (plain_id i)"
| "call_ok encode_part (Channels (Channels_get i)) = (plain_id i)"
| "call_ok encode_part (Channels (Channels_update i d)) = (plain_id i)"
| "call_ok encode_part (Channels (Channels_delete i)) = (plain_id i)"
| "call_ok encode_part (SessionLogs (SessionLogs_get i)) = (plain_id i)"
| "call_ok encode_part (Chat (Chat_updateSession i t)) = (plain_id i)"
| "call_ok encode_part (Chat (Chat_deleteSession i)) = (plain_id i)"
| "call_ok encode_part (Chat (Chat_regenerate i)) = (plain_id i)"
| "call_ok encode_part (Chat (Chat_stopSession i)) = (plain_id i)"
| "call_ok encode_part (Chat (Chat_getContextStatus i)) = (plain_id i)"
| "call_ok encode_part _ = True"

section \<open>Every call reaches its operation\<close>

fun compatible :: "pattern_segment \<Rightarrow> pattern_segment \<Rightarrow> bool" where
  "compatible (Lit s) (Lit t) = (s = t)"
| "compatible _ _ = True"

text \<open>No path reaches two routes of the table.\<close>

definition rivals :: "http_method \<times> pattern_segment list \<Rightarrow> http_method \<times> pattern_segment list \<Rightarrow> bool" where
  "rivals p q \<longleftrightarrow> fst p = fst q \<and> list_all2 compatible (snd p) (snd q)"

fun no_rivals :: "(http_method \<times> pattern_segment list) list \<Rightarrow> bool" where
  "no_rivals [] = True"
| "no_rivals (p # ps) = (list_all (\<lambda>q. \<not> rivals p q) ps \<and> no_rivals ps)"

definition route_shape :: "server_route \<Rightarrow> http_method \<times> pattern_segment list" where
  "route_shape r = (sr_method r, pattern_segments (sr_pattern r))"

lemma matches_compatible:
  "list_all2 segment_matches p s \<Longrightarrow> list_all2 segment_matches q s \<Longrightarrow> list_all2 compatible p q"
proof (induction p s arbitrary: q rule: list_all2_induct)
  case (Cons x xs y ys)
  then obtain z zs where q: "q = z # zs" "segment_matches z y" "list_all2 segment_matches zs ys" by (auto simp: list_all2_Cons2)
  then show ?case using Cons by (cases x; cases z) auto
qed simp

lemma no_rivals_filter:
  "no_rivals (map route_shape rs) \<Longrightarrow> r \<in> set rs \<Longrightarrow> reaches m a r \<Longrightarrow> filter (reaches m a) rs = [r]"
proof (induction rs)
  case (Cons x rs)
  have excl: "\<not> (reaches m a u \<and> reaches m a v)" if "\<not> rivals (route_shape u) (route_shape v)" for u v
    using that matches_compatible by (auto simp: reaches_def rivals_def route_shape_def)
  show ?case
  proof (cases "reaches m a x")
    case True
    then have none: "filter (reaches m a) rs = []" using Cons.prems(1) excl by (auto simp: filter_empty_conv list_all_iff)
    then have "r = x" using Cons.prems(2, 3) by (auto simp: filter_empty_conv)
    then show ?thesis using True none by simp
  next
    case False
    then show ?thesis using Cons by auto
  qed
qed simp

lemma server_routes_clear: "no_rivals (map route_shape server_routes)"
  by code_simp


lemma plain_idD:
  assumes "plain_id i"
  shows "CHR ''/'' \<notin> set i" and "i \<noteq> []" and "takeWhile (\<lambda>c. c \<noteq> CHR ''?'' \<and> c \<noteq> CHR ''#'') (i @ s) = i @ takeWhile (\<lambda>c. c \<noteq> CHR ''?'' \<and> c \<noteq> CHR ''#'') s"
    and "takeWhile (\<lambda>c. c \<noteq> CHR ''?'' \<and> c \<noteq> CHR ''#'') i = i"
  using assms by (auto simp: plain_id_def list_all_iff takeWhile_append2 takeWhile_eq_all_conv)

lemma query_cut [simp]: "takeWhile (\<lambda>c. c \<noteq> CHR ''?'' \<and> c \<noteq> CHR ''#'') (query_text enc kvs) = []"
  by (simp add: query_text_def Let_def)

lemmas reach_simps = reaches_def route_def pattern_segments_def address_path_def starts_with_def no_body_def with_body_def
  fetched_path_def plain_idD split_on_word split_on_append

text \<open>One of the given routes is the call's.\<close>

definition reached_in :: "server_route list \<Rightarrow> api_request \<Rightarrow> string \<Rightarrow> bool" where
  "reached_in rs q op \<longleftrightarrow> (\<exists>r \<in> set rs. sr_operation r = op \<and> reaches (rq_method q) (fetched_path q) r)"

lemma reached_later: "n \<noteq> op \<Longrightarrow> reached_in (\<lparr>sr_operation = n, sr_method = m, sr_pattern = p\<rparr> # rs) q op = reached_in rs q op"
  by (simp add: reached_in_def)

lemma reached_here:
  "reaches (rq_method q) (fetched_path q) \<lparr>sr_operation = n, sr_method = m, sr_pattern = p\<rparr> \<Longrightarrow>
    reached_in (\<lparr>sr_operation = n, sr_method = m, sr_pattern = p\<rparr> # rs) q n"
  by (simp add: reached_in_def)

lemma auth_reach: "call_ok encode_part (Auth c) \<Longrightarrow> reached_in auth_routes (api_request_of enc encode_part (Auth c)) (api_operation (Auth c))"
  by (cases c) (simp_all add: auth_routes_def reached_later reached_here reach_simps)

lemma settings_reach: "call_ok encode_part (Settings c) \<Longrightarrow> reached_in metadata_routes (api_request_of enc encode_part (Settings c)) (api_operation (Settings c))"
  by (cases c) (simp_all add: metadata_routes_def reached_later reached_here reach_simps)

lemma config_reach: "call_ok encode_part (Config c) \<Longrightarrow> reached_in config_routes (api_request_of enc encode_part (Config c)) (api_operation (Config c))"
  by (cases c) (simp_all add: config_routes_def reached_later reached_here reach_simps)

lemma llmConnections_reach: "call_ok encode_part (LlmConnections c) \<Longrightarrow> reached_in metadata_routes (api_request_of enc encode_part (LlmConnections c)) (api_operation (LlmConnections c))"
  by (cases c) (simp_all add: metadata_routes_def reached_later reached_here reach_simps)

lemma models_reach: "call_ok encode_part (Models c) \<Longrightarrow> reached_in metadata_routes (api_request_of enc encode_part (Models c)) (api_operation (Models c))"
  by (cases c) (simp_all add: metadata_routes_def reached_later reached_here reach_simps)

lemma presets_reach: "call_ok encode_part (Presets c) \<Longrightarrow> reached_in metadata_routes (api_request_of enc encode_part (Presets c)) (api_operation (Presets c))"
  by (cases c) (simp_all add: metadata_routes_def reached_later reached_here reach_simps)

lemma connections_reach: "call_ok encode_part (Connections c) \<Longrightarrow> reached_in metadata_routes (api_request_of enc encode_part (Connections c)) (api_operation (Connections c))"
  by (cases c) (simp_all add: metadata_routes_def reached_later reached_here reach_simps)

lemma skills_reach: "call_ok encode_part (Skills c) \<Longrightarrow> reached_in metadata_routes (api_request_of enc encode_part (Skills c)) (api_operation (Skills c))"
  by (cases c) (simp_all add: metadata_routes_def reached_later reached_here reach_simps)

lemma plans_reach: "call_ok encode_part (Plans c) \<Longrightarrow> reached_in metadata_routes (api_request_of enc encode_part (Plans c)) (api_operation (Plans c))"
  by (cases c) (simp_all add: metadata_routes_def reached_later reached_here reach_simps)

lemma planRuns_reach: "call_ok encode_part (PlanRuns c) \<Longrightarrow> reached_in metadata_routes (api_request_of enc encode_part (PlanRuns c)) (api_operation (PlanRuns c))"
  by (cases c) (simp_all add: metadata_routes_def reached_later reached_here reach_simps)

lemma telegram_reach: "call_ok encode_part (Telegram c) \<Longrightarrow> reached_in telegram_routes (api_request_of enc encode_part (Telegram c)) (api_operation (Telegram c))"
  by (cases c) (simp_all add: telegram_routes_def reached_later reached_here reach_simps)

lemma gonka_reach: "call_ok encode_part (Gonka c) \<Longrightarrow> reached_in gonka_routes (api_request_of enc encode_part (Gonka c)) (api_operation (Gonka c))"
  by (cases c) (simp_all add: gonka_routes_def reached_later reached_here reach_simps)

lemma sandboxes_reach: "call_ok encode_part (Sandboxes c) \<Longrightarrow> reached_in runtime_routes (api_request_of enc encode_part (Sandboxes c)) (api_operation (Sandboxes c))"
  by (cases c) (simp_all add: runtime_routes_def reached_later reached_here reach_simps)

lemma guardProfiles_reach: "call_ok encode_part (GuardProfiles c) \<Longrightarrow> reached_in guard_routes (api_request_of enc encode_part (GuardProfiles c)) (api_operation (GuardProfiles c))"
  by (cases c) (simp_all add: guard_routes_def reached_later reached_here reach_simps)

lemma guardEvents_reach: "call_ok encode_part (GuardEvents c) \<Longrightarrow> reached_in guard_routes (api_request_of enc encode_part (GuardEvents c)) (api_operation (GuardEvents c))"
  by (cases c) (simp_all add: guard_routes_def reached_later reached_here reach_simps)

lemma channels_reach: "call_ok encode_part (Channels c) \<Longrightarrow> reached_in metadata_routes (api_request_of enc encode_part (Channels c)) (api_operation (Channels c))"
  by (cases c) (simp_all add: metadata_routes_def reached_later reached_here reach_simps)

lemma sessionLogs_reach: "call_ok encode_part (SessionLogs c) \<Longrightarrow> reached_in logs_routes (api_request_of enc encode_part (SessionLogs c)) (api_operation (SessionLogs c))"
  by (cases c) (simp_all add: logs_routes_def reached_later reached_here reach_simps)

lemma chat_reach: "call_ok encode_part (Chat c) \<Longrightarrow> reached_in chat_routes (api_request_of enc encode_part (Chat c)) (api_operation (Chat c))"
  by (cases c) (simp_all add: chat_routes_def reached_later reached_here reach_simps)

lemma call_is_reached:
  assumes "call_ok encode_part c"
  shows "reached_in server_routes (api_request_of enc encode_part c) (api_operation c)"
proof -
  have m: "reached_in rs q op \<Longrightarrow> set rs \<subseteq> set server_routes \<Longrightarrow> reached_in server_routes q op" for rs q op
    by (auto simp: reached_in_def)
  have s: "set auth_routes \<subseteq> set server_routes" "set config_routes \<subseteq> set server_routes" "set metadata_routes \<subseteq> set server_routes"
    "set telegram_routes \<subseteq> set server_routes" "set gonka_routes \<subseteq> set server_routes" "set guard_routes \<subseteq> set server_routes"
    "set logs_routes \<subseteq> set server_routes" "set chat_routes \<subseteq> set server_routes" "set runtime_routes \<subseteq> set server_routes"
    by (simp_all only: server_routes_def set_append) blast+
  show ?thesis
    using assms m [OF _ s(1)] m [OF _ s(2)] m [OF _ s(3)] m [OF _ s(4)] m [OF _ s(5)] m [OF _ s(6)] m [OF _ s(7)] m [OF _ s(8)] m [OF _ s(9)]
    by (cases c; hypsubst) (erule auth_reach settings_reach config_reach llmConnections_reach models_reach presets_reach connections_reach
        skills_reach plans_reach planRuns_reach telegram_reach gonka_reach sandboxes_reach guardProfiles_reach guardEvents_reach
        channels_reach sessionLogs_reach chat_reach | blast intro: auth_reach settings_reach config_reach llmConnections_reach models_reach presets_reach connections_reach
        skills_reach plans_reach planRuns_reach telegram_reach gonka_reach sandboxes_reach guardProfiles_reach guardEvents_reach
        channels_reach sessionLogs_reach chat_reach)+
qed

text \<open>C20: Every call of the client is answered by the operation it is for: in the table of all the routes that the server's
  apps register, exactly one route takes the method and the address of the request, and its operation is the call's; for all
  arguments, with ids in the path that have no slash, question mark or hash and are not empty or dots.\<close>
theorem calls_reach_their_operations:
  assumes "call_ok encode_part c"
  shows "map sr_operation (filter (reaches (rq_method (api_request_of enc encode_part c))
      (fetched_path (api_request_of enc encode_part c))) server_routes) = [api_operation c]"
proof -
  obtain r where "r \<in> set server_routes" and "sr_operation r = api_operation c"
    and "reaches (rq_method (api_request_of enc encode_part c)) (fetched_path (api_request_of enc encode_part c)) r"
    using call_is_reached [OF assms, of enc] by (auto simp: reached_in_def)
  then show ?thesis using no_rivals_filter [OF server_routes_clear] by simp
qed

lemma calls_reach_their_operations_witness:
  "map sr_operation (filter (reaches POST ''/api/plans/7f/runs'') server_routes) = [''trigger-plan-run'']"
  using calls_reach_their_operations [of "\<lambda>s. s" "PlanRuns (PlanRuns_trigger ''7f'' None)" "\<lambda>s. s"]
  by (simp add: plain_id_def fetched_path_def with_body_def)

text \<open>An id with a slash in it turns one call into another.\<close>

lemma id_with_slash_is_another_call:
  "api_request_of enc ep (LlmConnections (LlmConnections_get (i @ ''/available-models'')))
     = api_request_of enc ep (LlmConnections (LlmConnections_listAvailableModels i))"
  by simp

text \<open>The handler for a lost session runs for no other answer, and only then is the caller told so; a text of the server
  reaches the caller as the error's.\<close>

lemma lost_session_answers: "fst (take_answer a) \<longleftrightarrow> an_status a = 401" "snd (take_answer a) = Unauthorised \<longleftrightarrow> an_status a = 401"
  by (simp_all add: take_answer_def split: option.split)

lemma error_text_of_the_server:
  "400 \<le> an_status a \<Longrightarrow> an_status a \<noteq> 401 \<Longrightarrow> an_body a = Some (JObj [(''title'', JStr t)]) \<Longrightarrow> take_answer a = (False, Failed t)"
  by (simp add: take_answer_def answer_title_def or_else_def)

end
