(* ===== verification/LogsPage.thy ===== *)
theory LogsPage
  imports StepView
begin

text \<open>
  The page of session logs (\<open>pages/LogsPage.tsx\<close>): the first page of the list, older pages on demand, the poll of the first
  page, the filter by connection, and what a card says. Requests are split into asking and answering; \<open>None\<close> is a request
  that failed. The server's list is the newest first (\<open>apps/logs/use_cases/list_session_logs.go\<close>).
\<close>

section \<open>The page\<close>

definition LOGS_PAGE_SIZE :: nat where
  "LOGS_PAGE_SIZE = 10"

record logs_page =
  lp_logs :: "session_log list"
  lp_connections :: "(string \<times> string) list"
  lp_selected :: string
  lp_loading :: bool
  lp_hasMore :: bool
  lp_loadingMore :: bool
  lp_expanded :: "string option"
  lp_clearOpen :: bool

definition logs_start :: logs_page where
  "logs_start = \<lparr>lp_logs = [], lp_connections = [], lp_selected = [], lp_loading = True, lp_hasMore = False,
     lp_loadingMore = False, lp_expanded = None, lp_clearOpen = False\<rparr>"

definition load_logs_begin :: "logs_page \<Rightarrow> logs_page" where
  "load_logs_begin p = p\<lparr>lp_loading := True\<rparr>"

definition load_logs_end :: "(session_log list \<times> (string \<times> string) list) option \<Rightarrow> logs_page \<Rightarrow> logs_page" where
  "load_logs_end answer p =
     (case answer of
        Some (l, c) \<Rightarrow> p\<lparr>lp_logs := l, lp_hasMore := (length l = LOGS_PAGE_SIZE), lp_connections := c, lp_loading := False\<rparr>
      | None \<Rightarrow> p\<lparr>lp_logs := [], lp_hasMore := False, lp_loading := False\<rparr>)"

text \<open>The offset that is asked for.\<close>

definition loadMoreLogs_begin :: "logs_page \<Rightarrow> logs_page \<times> nat option" where
  "loadMoreLogs_begin p =
     (if lp_loadingMore p \<or> \<not> lp_hasMore p then (p, None) else (p\<lparr>lp_loadingMore := True\<rparr>, Some (length (lp_logs p))))"

fun keep_first :: "string list \<Rightarrow> session_log list \<Rightarrow> session_log list" where
  "keep_first seen [] = []"
| "keep_first seen (x # xs) =
     (if sl_id x \<in> set seen then keep_first seen xs else x # keep_first (sl_id x # seen) xs)"

definition loadMoreLogs_end :: "session_log list option \<Rightarrow> logs_page \<Rightarrow> logs_page" where
  "loadMoreLogs_end answer p =
     (case answer of
        Some older \<Rightarrow> p\<lparr>lp_hasMore := (if length older < LOGS_PAGE_SIZE then False else lp_hasMore p),
          lp_logs := keep_first [] (lp_logs p @ older), lp_loadingMore := False\<rparr>
      | None \<Rightarrow> p\<lparr>lp_hasMore := False, lp_loadingMore := False\<rparr>)"

definition poll_logs_end :: "session_log list option \<Rightarrow> logs_page \<Rightarrow> logs_page" where
  "poll_logs_end answer p =
     (case answer of
        Some l \<Rightarrow> p\<lparr>lp_logs := l @ filter (\<lambda>x. sl_id x \<notin> sl_id ` set l) (lp_logs p)\<rparr>
      | None \<Rightarrow> p)"

definition select_connection :: "string \<Rightarrow> logs_page \<Rightarrow> logs_page" where
  "select_connection c p = load_logs_begin (p\<lparr>lp_selected := c, lp_expanded := None\<rparr>)"

definition toggle_log :: "string \<Rightarrow> logs_page \<Rightarrow> logs_page" where
  "toggle_log i p = p\<lparr>lp_expanded := (if lp_expanded p = Some i then None else Some i)\<rparr>"

definition clear_logs_end :: "bool \<Rightarrow> logs_page \<Rightarrow> logs_page" where
  "clear_logs_end ok p = (if ok then p\<lparr>lp_logs := [], lp_hasMore := False, lp_clearOpen := False\<rparr> else p)"

definition connName :: "logs_page \<Rightarrow> string \<Rightarrow> string" where
  "connName p i = or_else (map_of (lp_connections p) i) (take 8 i)"

section \<open>A card\<close>

text \<open>\<open>s\<close> is the age in whole seconds, \<open>ms\<close> the time between start and end, or now, in milliseconds.\<close>

definition log_timeAgo :: "int \<Rightarrow> string" where
  "log_timeAgo s =
     (if s < 60 then int_str s @ ''s ago''
      else if s < 3600 then int_str (s div 60) @ ''m ago''
      else if s < 86400 then int_str (s div 3600) @ ''h ago''
      else int_str (s div 86400) @ ''d ago'')"

definition log_ms :: "int \<Rightarrow> session_log \<Rightarrow> int" where
  "log_ms now lg = or_else (sl_finishedAt lg) now - sl_startedAt lg"

definition log_duration :: "int \<Rightarrow> string" where
  "log_duration ms =
     (if ms < 1000 then int_str ms @ ''ms''
      else if ms < 60000 then to_fixed 1 (of_int ms / 1000) @ ''s''
      else int_str (ms div 60000) @ ''m '' @ int_str (ms mod 60000 div 1000) @ ''s'')"

definition log_chips :: "session_log \<Rightarrow> string list" where
  "log_chips lg =
     filter non_empty [or_else (sl_presetName lg) [], or_else (sl_modelName lg) [],
       if sl_modelRole lg = Some ''fallback'' then ''fallback'' else []]"

definition log_body_empty :: "session_log \<Rightarrow> bool" where
  "log_body_empty lg \<longleftrightarrow> sl_entries lg = [] \<and> sl_prompt lg = []"

section \<open>The page against the server\<close>

text \<open>
  The server's list of the selected connection, the newest first; the page; and how many of the newest logs the page was not
  told of yet. The store's list is cut to the page that is asked for.
\<close>

record logs_world =
  lw_server :: "session_log list"
  lw_page :: logs_page
  lw_unseen :: nat

datatype logs_event =
    LogArrives session_log
  | LogChanges session_log
  | LogsPolled
  | LogsMore
  | LogsReload

definition list_session_logs :: "int \<Rightarrow> int \<Rightarrow> session_log list \<Rightarrow> session_log list" where
  "list_session_logs limit offset xs =
     take (nat (if limit \<le> 0 then 10 else limit)) (drop (nat (if offset < 0 then 0 else offset)) xs)"

definition server_logs :: "nat \<Rightarrow> session_log list \<Rightarrow> session_log list" where
  "server_logs ofs xs = list_session_logs (int LOGS_PAGE_SIZE) (int ofs) xs"

lemma server_logs: "server_logs ofs xs = take LOGS_PAGE_SIZE (drop ofs xs)"
  by (simp add: server_logs_def list_session_logs_def LOGS_PAGE_SIZE_def)

fun logs_step :: "logs_event \<Rightarrow> logs_world \<Rightarrow> logs_world" where
  "logs_step (LogArrives l) w = w\<lparr>lw_server := l # lw_server w, lw_unseen := lw_unseen w + 1\<rparr>"
| "logs_step (LogChanges l) w = w\<lparr>lw_server := map (\<lambda>x. if sl_id x = sl_id l then l else x) (lw_server w)\<rparr>"
| "logs_step LogsPolled w = w\<lparr>lw_page := poll_logs_end (Some (server_logs 0 (lw_server w))) (lw_page w), lw_unseen := 0\<rparr>"
| "logs_step LogsMore w =
     (case loadMoreLogs_begin (lw_page w) of
        (p, None) \<Rightarrow> w\<lparr>lw_page := p\<rparr>
      | (p, Some ofs) \<Rightarrow> w\<lparr>lw_page := loadMoreLogs_end (Some (server_logs ofs (lw_server w))) p\<rparr>)"
| "logs_step LogsReload w =
     w\<lparr>lw_page := load_logs_end (Some (server_logs 0 (lw_server w), lp_connections (lw_page w))) (load_logs_begin (lw_page w)), lw_unseen := 0\<rparr>"

text \<open>A log that arrives is new, and no more than a page of logs arrive between two polls.\<close>

fun logs_enabled :: "logs_event \<Rightarrow> logs_world \<Rightarrow> bool" where
  "logs_enabled (LogArrives l) w = (sl_id l \<notin> sl_id ` set (lw_server w) \<and> lw_unseen w < LOGS_PAGE_SIZE)"
| "logs_enabled _ w = True"

definition logs_opened :: "session_log list \<Rightarrow> logs_world" where
  "logs_opened srv = logs_step LogsReload \<lparr>lw_server = srv, lw_page = logs_start, lw_unseen = 0\<rparr>"

definition logs_inv :: "logs_world \<Rightarrow> bool" where
  "logs_inv w \<longleftrightarrow> distinct (map sl_id (lw_server w)) \<and> lw_unseen w \<le> LOGS_PAGE_SIZE \<and> lw_unseen w \<le> length (lw_server w)
     \<and> map sl_id (lp_logs (lw_page w)) = take (length (lp_logs (lw_page w))) (drop (lw_unseen w) (map sl_id (lw_server w)))
     \<and> (lp_hasMore (lw_page w) \<longrightarrow> LOGS_PAGE_SIZE \<le> length (lp_logs (lw_page w)))
     \<and> (\<not> lp_hasMore (lw_page w) \<longrightarrow> length (lp_logs (lw_page w)) = length (lw_server w) - lw_unseen w)
     \<and> \<not> lp_loadingMore (lw_page w)"

text \<open>What a window of a list leaves of a window that starts in it.\<close>

lemma take_tail_of_window:
  assumes "length W = b \<or> R = []" and "c \<le> b"
  shows "take d (drop c (W @ R)) = take d (drop c W) @ take (c + d - b) R"
  using assms by (cases "R = []") (auto simp: add.commute)

lemma window_filter:
  assumes "distinct xs" and "a \<le> c" and "c \<le> a + b"
  shows "filter (\<lambda>x. x \<notin> set (take b (drop a xs))) (take d (drop c xs)) = take (c + d - (a + b)) (drop (a + b) xs)"
proof -
  define W where "W = take b (drop a xs)"
  define R where "R = drop (a + b) xs"
  have s: "drop a xs = W @ R"
    unfolding W_def R_def using append_take_drop_id [of b "drop a xs"] by (simp add: add.commute)
  have l: "length W = b \<or> R = []" unfolding W_def R_def by auto
  have "drop c xs = drop (c - a) (W @ R)" using assms(2) by (simp flip: s)
  then have w: "take d (drop c xs) = take d (drop (c - a) W) @ take (c - a + d - b) R"
    using take_tail_of_window [OF l, of "c - a" d] assms(3) by (simp only:)
  have "distinct (W @ R)" using assms(1) by (simp flip: s)
  then have "filter (\<lambda>x. x \<notin> set W) (take n R) = take n R" for n
    by (auto simp: filter_id_conv dest!: in_set_takeD)
  moreover have "filter (\<lambda>x. x \<notin> set W) (take d (drop (c - a) W)) = []"
    by (auto simp: filter_empty_conv dest: in_set_takeD in_set_dropD)
  moreover have "c - a + d - b = c + d - (a + b)" using assms(2) by simp
  ultimately show ?thesis unfolding w W_def [symmetric] R_def [symmetric] by simp
qed

lemma keep_first_ids: "map sl_id (keep_first seen xs) = dedupe_from seen (map sl_id xs)"
  by (induction seen xs rule: keep_first.induct) auto

lemma dedupe_from_filter: "distinct ys \<Longrightarrow> dedupe_from seen ys = filter (\<lambda>y. y \<notin> set seen) ys"
proof (induction ys arbitrary: seen)
  case (Cons y ys)
  have "filter (\<lambda>z. z \<notin> insert y (set seen)) ys = filter (\<lambda>z. z \<notin> set seen) ys"
    using Cons.prems by (intro filter_cong) auto
  then show ?case using Cons by simp
qed simp

lemma dedupe_from_append: "dedupe_from seen (xs @ ys) = dedupe_from seen xs @ dedupe_from (rev xs @ seen) ys"
proof (induction xs arbitrary: seen)
  case (Cons x xs)
  have c: "set s = set t \<Longrightarrow> dedupe_from s zs = dedupe_from t zs" for s t and zs :: "'a list"
  proof (induction zs arbitrary: s t)
    case (Cons z zs)
    from Cons.IH [of "z # s" "z # t"] Cons.IH [OF Cons.prems] Cons.prems show ?case by simp
  qed simp
  show ?case
  proof (cases "x \<in> set seen")
    case True
    then show ?thesis using Cons c [of "rev xs @ seen" "rev xs @ x # seen"] by auto
  qed (use Cons in simp)
qed simp

lemma dedupe_two: "distinct xs \<Longrightarrow> distinct ys \<Longrightarrow> dedupe_from [] (xs @ ys) = xs @ filter (\<lambda>y. y \<notin> set xs) ys"
  by (simp add: dedupe_from_append dedupe_from_filter)

lemma server_logs_ids: "map sl_id (server_logs ofs xs) = take LOGS_PAGE_SIZE (drop ofs (map sl_id xs))"
  by (simp add: server_logs take_map drop_map)

lemma more_ids:
  assumes "distinct ids" and "map sl_id logs = take k (drop u ids)" and "map sl_id srv = ids" and "u \<le> k" and "u \<le> LOGS_PAGE_SIZE"
    and "k = length logs"
  shows "map sl_id (keep_first [] (logs @ server_logs k srv)) = take (k + (LOGS_PAGE_SIZE - u)) (drop u ids)"
proof -
  have "map sl_id (keep_first [] (logs @ server_logs k srv))
      = take k (drop u ids) @ filter (\<lambda>y. y \<notin> set (take k (drop u ids))) (take LOGS_PAGE_SIZE (drop k ids))"
    using assms(1-3) by (simp add: keep_first_ids server_logs_ids dedupe_two distinct_take distinct_drop)
  moreover have "filter (\<lambda>y. y \<notin> set (take k (drop u ids))) (take LOGS_PAGE_SIZE (drop k ids)) = take (k + LOGS_PAGE_SIZE - (u + k)) (drop (u + k) ids)"
    using window_filter [OF assms(1), of u k k LOGS_PAGE_SIZE] assms(4) by simp
  moreover have "take (k + (LOGS_PAGE_SIZE - u)) (drop u ids) = take k (drop u ids) @ take (LOGS_PAGE_SIZE - u) (drop (u + k) ids)"
    by (simp add: take_add add.commute)
  ultimately show ?thesis using assms(5) by simp
qed

lemma polled_ids:
  assumes "distinct ids" and "map sl_id logs = take k (drop u ids)" and "map sl_id srv = ids" and "u \<le> LOGS_PAGE_SIZE"
  shows "map sl_id (server_logs 0 srv @ filter (\<lambda>x. sl_id x \<notin> sl_id ` set (server_logs 0 srv)) logs)
    = take LOGS_PAGE_SIZE ids @ take (u + k - LOGS_PAGE_SIZE) (drop LOGS_PAGE_SIZE ids)"
proof -
  have "map sl_id (filter (\<lambda>x. sl_id x \<notin> S) ls) = filter (\<lambda>i. i \<notin> S) (map sl_id ls)" for S and ls :: "session_log list" by (induction ls) auto
  moreover have "sl_id ` set (server_logs 0 srv) = set (take LOGS_PAGE_SIZE (drop 0 ids))"
    using server_logs_ids [of 0 srv] assms(3) by (metis list.set_map)
  ultimately show ?thesis
    using window_filter [OF assms(1), of 0 u LOGS_PAGE_SIZE k] assms(2-4) server_logs_ids [of 0 srv] by simp
qed

lemma take_then_drop: "take a xs @ take b (drop a xs) = take (length (take a xs @ take b (drop a xs))) xs"
  by (simp add: min_def flip: take_add)

lemma window_fits: "map f xs = take (length xs) (drop u ys) \<Longrightarrow> length xs \<le> length ys - u"
  by (metis length_drop length_map length_take min.cobounded1)

lemma logs_polled_inv:
  assumes "logs_inv w"
  shows "logs_inv (logs_step LogsPolled w)"
proof -
  let ?ids = "map sl_id (lw_server w)" and ?k = "length (lp_logs (lw_page w))"
  let ?new = "server_logs 0 (lw_server w) @ filter (\<lambda>x. sl_id x \<notin> sl_id ` set (server_logs 0 (lw_server w))) (lp_logs (lw_page w))"
  note inv = assms [unfolded logs_inv_def]
  have new: "map sl_id ?new = take LOGS_PAGE_SIZE ?ids @ take (lw_unseen w + ?k - LOGS_PAGE_SIZE) (drop LOGS_PAGE_SIZE ?ids)"
    using inv by (intro polled_ids) auto
  then have n: "length ?new = length (take LOGS_PAGE_SIZE ?ids @ take (lw_unseen w + ?k - LOGS_PAGE_SIZE) (drop LOGS_PAGE_SIZE ?ids))"
    by (metis length_map)
  have "map sl_id ?new = take (length ?new) ?ids" unfolding new n by (rule take_then_drop)
  moreover have "?k \<le> length ?ids - lw_unseen w"
    using inv window_fits [of sl_id "lp_logs (lw_page w)"] by blast
  ultimately show ?thesis using inv n by (auto simp: logs_inv_def poll_logs_end_def)
qed

lemma logs_more_inv:
  assumes "logs_inv w"
  shows "logs_inv (logs_step LogsMore w)"
proof (cases "lp_hasMore (lw_page w)")
  case True
  let ?ids = "map sl_id (lw_server w)" and ?k = "length (lp_logs (lw_page w))"
  let ?new = "keep_first [] (lp_logs (lw_page w) @ server_logs ?k (lw_server w))"
  note inv = assms [unfolded logs_inv_def]
  have new: "map sl_id ?new = take (?k + (LOGS_PAGE_SIZE - lw_unseen w)) (drop (lw_unseen w) ?ids)"
    using inv True by (intro more_ids) auto
  then have n: "length ?new = min (length ?ids - lw_unseen w) (?k + (LOGS_PAGE_SIZE - lw_unseen w))"
    by (metis length_map length_take length_drop)
  have "map sl_id ?new = take (length ?new) (drop (lw_unseen w) ?ids)" unfolding new n by (simp add: min_def)
  then show ?thesis using inv True n
    by (auto simp: logs_inv_def loadMoreLogs_begin_def loadMoreLogs_end_def server_logs)
qed (use assms in \<open>auto simp: logs_inv_def loadMoreLogs_begin_def\<close>)

lemma changed_ids: "map sl_id (map (\<lambda>x. if sl_id x = sl_id l then l else x) xs) = map sl_id xs"
  by auto

lemma logs_step_inv: "logs_inv w \<Longrightarrow> logs_enabled e w \<Longrightarrow> logs_inv (logs_step e w)"
proof (induction e w rule: logs_step.induct)
  case (2 l w)
  have "length (lw_server (logs_step (LogChanges l) w)) = length (lw_server w)" by simp
  then show ?case using 2 by (simp add: logs_inv_def changed_ids del: map_map)
next
  case (5 w)
  then show ?case by (auto simp: logs_inv_def load_logs_end_def load_logs_begin_def server_logs min_def take_map)
qed (simp_all add: logs_polled_inv logs_more_inv del: logs_step.simps, auto simp: logs_inv_def)

interpretation logs_runs: guarded_steps logs_step logs_inv logs_enabled
  by unfold_locales (rule logs_step_inv)

lemma logs_opened_inv: "distinct (map sl_id srv) \<Longrightarrow> logs_inv (logs_opened srv)"
  by (auto simp: logs_opened_def logs_inv_def load_logs_end_def load_logs_begin_def logs_start_def server_logs_ids
      server_logs take_map min_def)


text \<open>C39: 
  The list that is shown has no gaps. The server's list changes while the page is open: logs arrive, running ones change, the
  page polls its first ten, asks for older ones and reloads, in any order; as long as no more than ten logs arrive between two
  polls, after the next poll the page shows exactly the newest so many logs of the server, each once and in the server's
  order, the first ten as they are now, and the button for older logs is gone only when all of them are shown.
\<close>

theorem log_page_has_no_gaps:
  assumes "distinct (map sl_id srv)" and "admissible logs_enabled logs_step es (logs_opened srv)"
  shows "let w = logs_step LogsPolled (run_steps logs_step es (logs_opened srv)); shown = lp_logs (lw_page w) in
    map sl_id shown = take (length shown) (map sl_id (lw_server w)) \<and> distinct (map sl_id shown) \<and>
    take LOGS_PAGE_SIZE shown = take LOGS_PAGE_SIZE (lw_server w) \<and>
    (lp_hasMore (lw_page w) \<or> length shown = length (lw_server w))"
proof -
  define v where "v = run_steps logs_step es (logs_opened srv)"
  have v: "logs_inv v" unfolding v_def by (rule logs_runs.run_inv [OF logs_opened_inv [OF assms(1)] assms(2)])
  let ?w = "logs_step LogsPolled v" and ?new = "lp_logs (lw_page (logs_step LogsPolled v))"
  have u: "lw_unseen ?w = 0" and s: "lw_server ?w = lw_server v" by simp_all
  note inv = logs_polled_inv [OF v, unfolded logs_inv_def u s drop0 diff_zero]
  then have ids: "map sl_id ?new = take (length ?new) (map sl_id (lw_server v))" by blast
  then have len: "length ?new \<le> length (lw_server v)" by (metis length_map length_take min.cobounded1)
  have "take LOGS_PAGE_SIZE ?new = take LOGS_PAGE_SIZE (lw_server v)"
  proof (cases "length (lw_server v) < LOGS_PAGE_SIZE")
    case True
    then show ?thesis using len by (auto simp: poll_logs_end_def server_logs)
  next
    case False
    then show ?thesis by (simp add: poll_logs_end_def server_logs)
  qed
  moreover have "distinct (map sl_id ?new)" using inv ids by (metis distinct_take)
  ultimately show ?thesis using inv ids unfolding Let_def v_def [symmetric] s by blast
qed

text \<open>A log with the given name, for the examples.\<close>

definition named_log :: "string \<Rightarrow> session_log" where
  "named_log i = \<lparr>sl_id = i, sl_connectionId = ''c1'', sl_agentName = ''agent'', sl_host = None, sl_prompt = [], sl_running = False,
     sl_presetName = None, sl_modelName = None, sl_modelRole = None, sl_entries = [], sl_startedAt = 0, sl_finishedAt = None\<rparr>"

definition named_logs :: "string \<Rightarrow> session_log list" where
  "named_logs cs = map (\<lambda>c. named_log [c]) cs"

lemma log_page_has_no_gaps_witness:
  "let srv = named_logs ''abcdefghijklm'';
     es = [LogArrives (named_log ''n''), LogsMore, LogChanges (named_log ''a''), LogsPolled, LogArrives (named_log ''o'')] in
   let w = logs_step LogsPolled (run_steps logs_step es (logs_opened srv)); shown = lp_logs (lw_page w) in
     map sl_id shown = take (length shown) (map sl_id (lw_server w)) \<and> distinct (map sl_id shown) \<and>
     take LOGS_PAGE_SIZE shown = take LOGS_PAGE_SIZE (lw_server w) \<and>
     (lp_hasMore (lw_page w) \<or> length shown = length (lw_server w))"
  unfolding Let_def [of "named_logs ''abcdefghijklm''"] Let_def [of "[_, _, _, _, _]"]
proof (rule log_page_has_no_gaps)
  show "distinct (map sl_id (named_logs ''abcdefghijklm''))" by code_simp
  show "admissible logs_enabled logs_step [LogArrives (named_log ''n''), LogsMore, LogChanges (named_log ''a''), LogsPolled, LogArrives (named_log ''o'')]
    (logs_opened (named_logs ''abcdefghijklm''))" by code_simp
qed

text \<open>Eleven logs between two polls leave one out, and no later poll brings it.\<close>

lemma a_burst_leaves_a_gap:
  "let srv = named_logs ''abcdefghijkl''; es = map LogArrives (rev (named_logs ''ABCDEFGHIJK'')) @ [LogsPolled];
     w = run_steps logs_step es (logs_opened srv) in
   length (lp_logs (lw_page w)) = 20 \<and> ''K'' \<in> set (map sl_id (lw_server w)) \<and> ''K'' \<notin> set (map sl_id (lp_logs (lw_page w)))
   \<and> lp_logs (lw_page (logs_step LogsPolled w)) = lp_logs (lw_page w)"
  by code_simp

text \<open>A \<open>Load more\<close> that fails takes the button away although there are older logs.\<close>

lemma failed_more_hides_the_button:
  assumes "lp_hasMore p" and "\<not> lp_loadingMore p"
  shows "let q = loadMoreLogs_end None (fst (loadMoreLogs_begin p)) in
    lp_logs q = lp_logs p \<and> \<not> lp_hasMore q \<and> snd (loadMoreLogs_begin q) = None"
  using assms by (simp add: loadMoreLogs_begin_def loadMoreLogs_end_def)

text \<open>
  A poll that was asked for before the connection was changed and is answered after the list of the new one came puts the
  old connection's logs in front of it.
\<close>

lemma late_poll_mixes_connections:
  assumes "sl_id ` set old \<inter> sl_id ` set new = {}"
  shows "lp_logs (poll_logs_end (Some old) (load_logs_end (Some (new, cs)) (select_connection c p))) = old @ new"
proof -
  have "filter (\<lambda>x. sl_id x \<notin> sl_id ` set old) new = new" using assms by (auto simp: filter_id_conv)
  then show ?thesis by (simp add: poll_logs_end_def load_logs_end_def)
qed

text \<open>While the list of another connection is loading, its answer decides what is shown, whatever was there.\<close>

lemma answer_of_the_filter_is_shown:
  "lp_logs (load_logs_end (Some (new, cs)) (select_connection c p)) = new
   \<and> lp_expanded (load_logs_end (Some (new, cs)) (select_connection c p)) = None"
  by (simp add: load_logs_end_def select_connection_def load_logs_begin_def)

text \<open>Adding older logs repeats none, even when the window moved under the request.\<close>

lemma more_repeats_none: "distinct (map sl_id (lp_logs (loadMoreLogs_end (Some older) p)))"
  by (simp add: loadMoreLogs_end_def keep_first_ids distinct_dedupe_from)

text \<open>From a minute on, a duration says the minutes and the seconds of the clock.\<close>

lemma log_duration_minutes:
  assumes "60000 \<le> ms"
  shows "log_duration ms = int_str (ms div 60000) @ ''m '' @ int_str (ms div 1000 mod 60) @ ''s''"
proof -
  have "ms mod 60000 div 1000 = ms div 1000 mod 60" using zmod_zmult2_eq [of 60 ms 1000] by simp
  then show ?thesis using assms by (simp add: log_duration_def)
qed

end
