(* ===== verification/Tables.thy ===== *)
theory Tables
  imports Interfaces
begin

text \<open>
  The tables of the server, each a list of rows with identifiers (\<open>infrastructure/adapters/store/postgres.go\<close>): what the
  use cases of several components do to them. A store that does not answer is not modelled.
\<close>

datatype store_error = NotFound | Conflict

text \<open>A table takes no second row with an identifier.\<close>

definition insert_row :: "('v \<Rightarrow> string) \<Rightarrow> 'v \<Rightarrow> 'v list \<Rightarrow> store_error + 'v list" where
  "insert_row key v xs = (if find_by key xs (key v) = None then Inr (xs @ [v]) else Inl Conflict)"

definition update_row :: "('v \<Rightarrow> string) \<Rightarrow> 'v \<Rightarrow> 'v list \<Rightarrow> store_error + 'v list" where
  "update_row key v xs = (if find_by key xs (key v) = None then Inl NotFound else Inr (map_by key (key v) (\<lambda>_. v) xs))"

text \<open>Rows with distinct identifiers, each in order.\<close>

definition table_ok :: "('v \<Rightarrow> string) \<Rightarrow> ('v \<Rightarrow> bool) \<Rightarrow> 'v list \<Rightarrow> bool" where
  "table_ok key ok xs \<longleftrightarrow> distinct (map key xs) \<and> list_all ok xs"

lemma insert_row_ok: "table_ok key ok xs \<Longrightarrow> ok v \<Longrightarrow> insert_row key v xs = Inr ys \<Longrightarrow> table_ok key ok ys"
  by (auto simp: table_ok_def insert_row_def find_by_None split: if_splits)

lemma update_row_ok:
  assumes "table_ok key ok xs" and "ok v" and "update_row key v xs = Inr ys"
  shows "table_ok key ok ys"
proof -
  have ys: "ys = map_by key (key v) (\<lambda>_. v) xs" using assms(3) by (auto simp: update_row_def split: if_splits)
  have "map key ys = map key xs" unfolding ys by (induction xs) auto
  moreover have "list_all ok ys" using assms(1, 2) unfolding ys map_by_def by (auto simp: table_ok_def list_all_iff)
  ultimately show ?thesis using assms(1) by (simp add: table_ok_def)
qed

lemma drop_row_ok: "table_ok key ok xs \<Longrightarrow> table_ok key ok (drop_by key k xs)"
  by (auto simp: table_ok_def map_key_drop_by list_all_iff set_drop_by)

text \<open>Writing a row as it is changes nothing.\<close>

lemma update_row_same:
  assumes "table_ok key ok xs" and "v \<in> set xs"
  shows "update_row key v xs = Inr xs"
proof -
  have "inj_on key (set xs)" using assms(1) by (simp add: table_ok_def distinct_map)
  then have "map_by key (key v) (\<lambda>_. v) xs = xs" using assms(2)
    by (auto simp: map_by_def inj_on_def intro!: map_idI)
  moreover have "find_by key xs (key v) \<noteq> None" using assms(2) by (auto simp: find_by_None)
  ultimately show ?thesis by (simp add: update_row_def)
qed

lemma update_row_find:
  assumes "update_row key v xs = Inr ys"
  shows "find_by key ys j = (if j = key v then Some v else find_by key xs j)"
proof -
  have "ys = map_by key (key v) (\<lambda>_. v) xs" and k: "find_by key xs (key v) \<noteq> None"
    using assms by (auto simp: update_row_def split: if_splits)
  moreover have "find_by key (map_by key (key v) (\<lambda>_. v) xs) j
      = (if j = key v then (if find_by key xs j = None then None else Some v) else find_by key xs j)"
    by (induction xs) auto
  ultimately show ?thesis by (cases "find_by key xs (key v)") auto
qed


lemma map_sum_Inr: "map_sum id f x = Inr y \<longleftrightarrow> (\<exists>z. x = Inr z \<and> y = f z)"
  by (cases x) auto

section \<open>Rows by identifier\<close>

interpretation rows: id_collection_add "find_by key" "drop_by key" "map_by key"
  "\<lambda>f. \<forall>v. key (f v) = key v" "\<lambda>xs. distinct (map key xs)" key "\<lambda>v xs. xs @ [v]" for key :: "'v \<Rightarrow> string"
proof unfold_locales
  fix xs :: "'v list" and v :: 'v
  assume "find_by key xs (key v) = None"
  then show "find_by key (xs @ [v]) = (find_by key xs)(key v \<mapsto> v)"
    by (auto simp: fun_eq_iff find_by_append split: option.split)
qed (auto simp: fun_eq_iff find_by_drop find_by_map map_key_map_by map_key_drop_by find_by_None)

end
