(* ===== verification/AiEngine.thy ===== *)
theory AiEngine
  imports Tables JsNumbers "HOL-Library.Multiset"
begin

text \<open>
  The page of the AI engine (\<open>pages/llm\<close>): endpoints, models, profiles and which profile is used where; the bar of the chat
  that changes the model of a profile (\<open>pages/chat/PresetBar.tsx\<close>); and the use cases of the server that store them
  (\<open>apps/metadata/use_cases\<close>). A temperature is held by the text \<open>String\<close> gives for it; \<open>float_text\<close>, the text of the
  number \<open>parseFloat\<close> reads, is a parameter, \<open>None\<close> being \<open>NaN\<close>. Whole numbers are printed in full below \<open>10 ^ 21\<close>.
\<close>

section \<open>Data\<close>

record llm_connection =
  lc_id :: string
  lc_provider :: string
  lc_baseUrl :: string
  lc_apiKey :: string

record inference_limit =
  il_type :: string
  il_percentage :: "rat option"
  il_label :: string

record llm_model =
  lm_id :: string
  lm_connectionId :: string
  lm_name :: string
  lm_thinkingMode :: string
  lm_contextWindow :: int
  lm_reserveTokens :: int
  lm_compactTokens :: int

record llm_preset =
  lp_id :: string
  lp_name :: string
  lp_chatModelId :: string
  lp_summaryModelId :: string
  lp_imageModelId :: string
  lp_fallbackModelId :: string
  lp_temperature :: "string option"
  lp_systemPrompt :: string

record app_settings =
  as_chatPresetId :: string
  as_serverPresetId :: string
  as_memoryEnabled :: bool
  as_userMemories :: "string list"

section \<open>The server\<close>

text \<open>The tables, each with its rows by identifier; \<open>None\<close> are settings that were never written.\<close>

record engine_store =
  es_connections :: "llm_connection list"
  es_models :: "llm_model list"
  es_presets :: "llm_preset list"
  es_settings :: "app_settings option"

definition create_llm_connection :: "llm_connection \<Rightarrow> engine_store \<Rightarrow> store_error + engine_store" where
  "create_llm_connection c s = map_sum id (\<lambda>xs. s\<lparr>es_connections := xs\<rparr>) (insert_row lc_id c (es_connections s))"

definition update_llm_connection :: "llm_connection \<Rightarrow> engine_store \<Rightarrow> store_error + engine_store" where
  "update_llm_connection c s = map_sum id (\<lambda>xs. s\<lparr>es_connections := xs\<rparr>) (update_row lc_id c (es_connections s))"

definition delete_llm_connection :: "string \<Rightarrow> engine_store \<Rightarrow> engine_store" where
  "delete_llm_connection i s = s\<lparr>es_connections := drop_by lc_id i (es_connections s)\<rparr>"

definition defaultContextWindow :: int where "defaultContextWindow = 128000"
definition defaultReserveTokens :: int where "defaultReserveTokens = 20000"

definition applyModelDefaults :: "llm_model \<Rightarrow> llm_model" where
  "applyModelDefaults m =
     (let w = (if lm_contextWindow m \<le> 0 then defaultContextWindow else lm_contextWindow m);
          r0 = (if lm_reserveTokens m < 0 then 0 else lm_reserveTokens m);
          r = (if r0 = 0 then defaultReserveTokens else r0);
          budget = (if w - r \<le> 0 then w else w - r);
          k = (if lm_compactTokens m \<le> 0 then budget else lm_compactTokens m)
      in m\<lparr>lm_contextWindow := w, lm_reserveTokens := r, lm_compactTokens := k\<rparr>)"

definition create_model :: "string \<Rightarrow> llm_model \<Rightarrow> engine_store \<Rightarrow> store_error + engine_store" where
  "create_model uuid m s =
     map_sum id (\<lambda>xs. s\<lparr>es_models := xs\<rparr>) (insert_row lm_id (applyModelDefaults (m\<lparr>lm_id := uuid\<rparr>)) (es_models s))"

definition update_model :: "llm_model \<Rightarrow> engine_store \<Rightarrow> store_error + engine_store" where
  "update_model m s = map_sum id (\<lambda>xs. s\<lparr>es_models := xs\<rparr>) (update_row lm_id (applyModelDefaults m) (es_models s))"

definition delete_model :: "string \<Rightarrow> engine_store \<Rightarrow> engine_store" where
  "delete_model i s = s\<lparr>es_models := drop_by lm_id i (es_models s)\<rparr>"

definition create_preset :: "string \<Rightarrow> llm_preset \<Rightarrow> engine_store \<Rightarrow> store_error + engine_store" where
  "create_preset uuid p s = map_sum id (\<lambda>xs. s\<lparr>es_presets := xs\<rparr>) (insert_row lp_id (p\<lparr>lp_id := uuid\<rparr>) (es_presets s))"

definition update_preset :: "llm_preset \<Rightarrow> engine_store \<Rightarrow> store_error + engine_store" where
  "update_preset p s = map_sum id (\<lambda>xs. s\<lparr>es_presets := xs\<rparr>) (update_row lp_id p (es_presets s))"

definition delete_preset :: "string \<Rightarrow> engine_store \<Rightarrow> engine_store" where
  "delete_preset i s = s\<lparr>es_presets := drop_by lp_id i (es_presets s)\<rparr>"

definition get_settings :: "engine_store \<Rightarrow> app_settings" where
  "get_settings s = or_else (es_settings s)
     \<lparr>as_chatPresetId = [], as_serverPresetId = [], as_memoryEnabled = True, as_userMemories = []\<rparr>"

definition update_settings :: "app_settings \<Rightarrow> engine_store \<Rightarrow> engine_store" where
  "update_settings a s = s\<lparr>es_settings := Some a\<rparr>"

text \<open>From how many tokens on the server compacts a chat with the model (\<open>core/plugins/summarizer\<close>).\<close>

definition DefaultCompactTokens :: int where "DefaultCompactTokens = 100000"

definition EffectiveThreshold :: "llm_model \<Rightarrow> int" where
  "EffectiveThreshold m =
     (if 0 < lm_compactTokens m then lm_compactTokens m
      else if 0 < lm_contextWindow m then
        (if 0 < lm_contextWindow m - lm_reserveTokens m then lm_contextWindow m - lm_reserveTokens m else lm_contextWindow m)
      else DefaultCompactTokens)"

section \<open>Forms\<close>

record endpoint_form =
  ef_id :: string
  ef_provider :: string
  ef_baseUrl :: string
  ef_apiKey :: string

record model_form =
  mf_name :: string
  mf_connectionId :: string
  mf_thinkingMode :: string
  mf_contextWindow :: string
  mf_reserveTokens :: string
  mf_compactTokens :: string

record profile_form =
  pf_name :: string
  pf_chatModelId :: string
  pf_summaryModelId :: string
  pf_imageModelId :: string
  pf_fallbackModelId :: string
  pf_temperature :: string
  pf_systemPrompt :: string

definition DEFAULT_CONTEXT_WINDOW :: int where "DEFAULT_CONTEXT_WINDOW = 128000"
definition DEFAULT_RESERVE_TOKENS :: int where "DEFAULT_RESERVE_TOKENS = 20000"

definition EMPTY_PROFILE_FORM :: profile_form where
  "EMPTY_PROFILE_FORM = \<lparr>pf_name = [], pf_chatModelId = [], pf_summaryModelId = [], pf_imageModelId = [],
     pf_fallbackModelId = [], pf_temperature = [], pf_systemPrompt = []\<rparr>"

definition empty_endpoint_form :: endpoint_form where
  "empty_endpoint_form = \<lparr>ef_id = [], ef_provider = ''openai'', ef_baseUrl = [], ef_apiKey = []\<rparr>"

definition empty_model_form :: "string \<Rightarrow> model_form" where
  "empty_model_form c = \<lparr>mf_name = [], mf_connectionId = c, mf_thinkingMode = [],
     mf_contextWindow = int_str DEFAULT_CONTEXT_WINDOW, mf_reserveTokens = int_str DEFAULT_RESERVE_TOKENS, mf_compactTokens = []\<rparr>"

definition parseInt10 :: "string \<Rightarrow> int" where
  "parseInt10 s = max 0 (or_else (parse_int s) 0)"

definition endpoint_submittable :: "endpoint_form \<Rightarrow> bool" where
  "endpoint_submittable f \<longleftrightarrow> ef_id f \<noteq> [] \<and> ef_baseUrl f \<noteq> [] \<and> \<not> (ef_provider f = ''gonka'' \<and> ef_apiKey f = [])"

definition model_submittable :: "model_form \<Rightarrow> bool" where
  "model_submittable f \<longleftrightarrow> mf_name f \<noteq> [] \<and> mf_connectionId f \<noteq> []"

definition profile_submittable :: "profile_form \<Rightarrow> bool" where
  "profile_submittable f \<longleftrightarrow> pf_name f \<noteq> [] \<and> pf_chatModelId f \<noteq> []"

definition edit_endpoint_form :: "llm_connection \<Rightarrow> endpoint_form" where
  "edit_endpoint_form e = \<lparr>ef_id = lc_id e, ef_provider = lc_provider e, ef_baseUrl = lc_baseUrl e, ef_apiKey = lc_apiKey e\<rparr>"

definition edit_model_form :: "llm_model \<Rightarrow> model_form" where
  "edit_model_form m = \<lparr>mf_name = lm_name m, mf_connectionId = lm_connectionId m, mf_thinkingMode = lm_thinkingMode m,
     mf_contextWindow = int_str (int_or (lm_contextWindow m) DEFAULT_CONTEXT_WINDOW),
     mf_reserveTokens = int_str (int_or (lm_reserveTokens m) DEFAULT_RESERVE_TOKENS),
     mf_compactTokens = (if lm_compactTokens m = 0 then [] else int_str (lm_compactTokens m))\<rparr>"

definition edit_profile_form :: "llm_preset \<Rightarrow> profile_form" where
  "edit_profile_form p = \<lparr>pf_name = lp_name p, pf_chatModelId = lp_chatModelId p, pf_summaryModelId = lp_summaryModelId p,
     pf_imageModelId = lp_imageModelId p, pf_fallbackModelId = lp_fallbackModelId p,
     pf_temperature = or_else (lp_temperature p) [], pf_systemPrompt = lp_systemPrompt p\<rparr>"

text \<open>What a form sends for the row \<open>i\<close>.\<close>

definition endpoint_payload :: "string \<Rightarrow> endpoint_form \<Rightarrow> llm_connection" where
  "endpoint_payload i f = \<lparr>lc_id = i, lc_provider = ef_provider f, lc_baseUrl = ef_baseUrl f, lc_apiKey = ef_apiKey f\<rparr>"

definition model_payload :: "string \<Rightarrow> model_form \<Rightarrow> llm_model" where
  "model_payload i f = \<lparr>lm_id = i, lm_connectionId = mf_connectionId f, lm_name = mf_name f, lm_thinkingMode = mf_thinkingMode f,
     lm_contextWindow = parseInt10 (mf_contextWindow f), lm_reserveTokens = parseInt10 (mf_reserveTokens f),
     lm_compactTokens = parseInt10 (mf_compactTokens f)\<rparr>"

definition preset_payload :: "(string \<Rightarrow> string option) \<Rightarrow> string \<Rightarrow> profile_form \<Rightarrow> llm_preset" where
  "preset_payload float_text i f = \<lparr>lp_id = i, lp_name = pf_name f, lp_chatModelId = pf_chatModelId f,
     lp_summaryModelId = pf_summaryModelId f, lp_imageModelId = pf_imageModelId f, lp_fallbackModelId = pf_fallbackModelId f,
     lp_temperature = (if pf_temperature f = [] then None else float_text (pf_temperature f)), lp_systemPrompt = pf_systemPrompt f\<rparr>"

section \<open>The page\<close>

datatype engine_toast = Done string | Failed string | Info string

datatype engine_request =
    PostConnection llm_connection
  | PutConnection llm_connection
  | PostModel llm_model
  | PutModel llm_model
  | PostPreset llm_preset
  | PutPreset llm_preset

text \<open>What the server makes of a request; \<open>uuid\<close> is the identifier it gives to a new row.\<close>

definition serve :: "string \<Rightarrow> engine_request \<Rightarrow> engine_store \<Rightarrow> store_error + engine_store" where
  "serve uuid r s =
     (case r of
        PostConnection c \<Rightarrow> create_llm_connection c s
      | PutConnection c \<Rightarrow> update_llm_connection c s
      | PostModel m \<Rightarrow> create_model uuid m s
      | PutModel m \<Rightarrow> update_model m s
      | PostPreset p \<Rightarrow> create_preset uuid p s
      | PutPreset p \<Rightarrow> update_preset p s)"

record llm_page =
  lg_endpoints :: "llm_connection list"
  lg_models :: "llm_model list"
  lg_profiles :: "llm_preset list"
  lg_chatPresetId :: string
  lg_serverPresetId :: string
  lg_loading :: bool
  lg_expanded :: "string list"
  lg_endpointOpen :: bool
  lg_editingEndpoint :: "llm_connection option"
  lg_endpointForm :: endpoint_form
  lg_modelOpen :: bool
  lg_editingModel :: "llm_model option"
  lg_modelForm :: model_form
  lg_loadingAvailable :: bool
  lg_available :: "string \<Rightarrow> string list option"
  lg_limits :: "string \<Rightarrow> inference_limit option"
  lg_limitLoading :: "string \<Rightarrow> bool option"
  lg_profileOpen :: bool
  lg_editingProfile :: "llm_preset option"
  lg_profileForm :: profile_form
  lg_deleteEndpointId :: "string option"
  lg_deleteModelId :: "string option"
  lg_deleteProfileId :: "string option"
  lg_toasts :: "engine_toast list"

definition llm_start :: llm_page where
  "llm_start = \<lparr>lg_endpoints = [], lg_models = [], lg_profiles = [], lg_chatPresetId = [], lg_serverPresetId = [],
     lg_loading = True, lg_expanded = [], lg_endpointOpen = False, lg_editingEndpoint = None,
     lg_endpointForm = empty_endpoint_form, lg_modelOpen = False, lg_editingModel = None, lg_modelForm = empty_model_form [],
     lg_loadingAvailable = False, lg_available = (\<lambda>_. None), lg_limits = (\<lambda>_. None), lg_limitLoading = (\<lambda>_. None),
     lg_profileOpen = False, lg_editingProfile = None, lg_profileForm = EMPTY_PROFILE_FORM,
     lg_deleteEndpointId = None, lg_deleteModelId = None, lg_deleteProfileId = None, lg_toasts = []\<rparr>"

definition engine_toast :: "engine_toast \<Rightarrow> llm_page \<Rightarrow> llm_page" where
  "engine_toast t p = p\<lparr>lg_toasts := lg_toasts p @ [t]\<rparr>"

text \<open>\<open>Object.fromEntries(eps.map(e => [e.id, true]))\<close>\<close>

definition all_loading :: "llm_connection list \<Rightarrow> string \<Rightarrow> bool option" where
  "all_loading eps i = (if i \<in> lc_id ` set eps then Some True else None)"

text \<open>The limits: what is asked for all endpoints at once, and one answer, \<open>None\<close> being a failure or the time limit.\<close>

definition fetchInferenceLimits_begin :: "llm_connection list \<Rightarrow> llm_page \<Rightarrow> llm_page" where
  "fetchInferenceLimits_begin eps p =
     (if eps = [] then p\<lparr>lg_limits := (\<lambda>_. None), lg_limitLoading := (\<lambda>_. None)\<rparr>
      else p\<lparr>lg_limitLoading := all_loading eps,
             lg_limits := (\<lambda>i. if i \<in> lc_id ` set eps then lg_limits p i else None)\<rparr>)"

definition limit_unavailable :: inference_limit where
  "limit_unavailable = \<lparr>il_type = ''unlimited'', il_percentage = None,
     il_label = ''Usage unavailable (bad URL, timeout, or server error)''\<rparr>"

definition limit_answer :: "string \<times> inference_limit option \<Rightarrow> llm_page \<Rightarrow> llm_page" where
  "limit_answer a p = p\<lparr>lg_limits := (lg_limits p)(fst a \<mapsto> or_else (snd a) limit_unavailable),
     lg_limitLoading := (lg_limitLoading p)(fst a \<mapsto> False)\<rparr>"

definition engine_load_begin :: "llm_page \<Rightarrow> llm_page" where
  "engine_load_begin p = p\<lparr>lg_loading := True\<rparr>"

definition engine_load_end :: "string + engine_store \<Rightarrow> llm_page \<Rightarrow> llm_page" where
  "engine_load_end answer p =
     (case answer of
        Inl msg \<Rightarrow> (engine_toast (Failed msg) p)\<lparr>lg_loading := False\<rparr>
      | Inr s \<Rightarrow> (fetchInferenceLimits_begin (es_connections s)
          (p\<lparr>lg_endpoints := es_connections s, lg_models := es_models s, lg_profiles := es_presets s,
             lg_chatPresetId := as_chatPresetId (get_settings s), lg_serverPresetId := as_serverPresetId (get_settings s),
             lg_limitLoading := all_loading (es_connections s)\<rparr>))\<lparr>lg_loading := False\<rparr>)"

definition loadAvailableModels_begin :: "bool \<Rightarrow> string \<Rightarrow> llm_page \<Rightarrow> llm_page \<times> bool" where
  "loadAvailableModels_begin force c p =
     (if c = [] \<or> \<not> force \<and> lg_available p c \<noteq> None then (p, False) else (p\<lparr>lg_loadingAvailable := True\<rparr>, True))"

definition loadAvailableModels_end :: "string \<Rightarrow> string + string list \<Rightarrow> llm_page \<Rightarrow> llm_page" where
  "loadAvailableModels_end c answer p =
     (case answer of
        Inl msg \<Rightarrow> (engine_toast (Failed msg) p)\<lparr>lg_loadingAvailable := False\<rparr>
      | Inr items \<Rightarrow> p\<lparr>lg_available := (lg_available p)(c \<mapsto> items), lg_loadingAvailable := False\<rparr>)"

definition endpointById :: "llm_connection list \<Rightarrow> string \<Rightarrow> llm_connection option" where
  "endpointById eps i = find_by lc_id (rev eps) i"

definition modelById :: "llm_model list \<Rightarrow> string \<Rightarrow> llm_model option" where
  "modelById ms i = find_by lm_id (rev ms) i"

definition modelsByEndpoint :: "llm_connection list \<Rightarrow> llm_model list \<Rightarrow> string \<Rightarrow> llm_model list option" where
  "modelsByEndpoint eps ms i = (if i \<in> lc_id ` set eps then Some (filter (\<lambda>m. lm_connectionId m = i) ms) else None)"

definition modelLabel :: "llm_page \<Rightarrow> string \<Rightarrow> string" where
  "modelLabel p i =
     (if i = [] then []
      else case modelById (lg_models p) i of
        None \<Rightarrow> take 10 i @ [ellipsis]
      | Some m \<Rightarrow> (case endpointById (lg_endpoints p) (lm_connectionId m) of
            Some e \<Rightarrow> lm_name m @ [CHR '' '', middle_dot, CHR '' ''] @ lc_id e
          | None \<Rightarrow> lm_name m))"

definition openCreateEndpoint :: "llm_page \<Rightarrow> llm_page" where
  "openCreateEndpoint p = p\<lparr>lg_editingEndpoint := None, lg_endpointForm := empty_endpoint_form, lg_endpointOpen := True\<rparr>"

definition openEditEndpoint :: "llm_connection \<Rightarrow> llm_page \<Rightarrow> llm_page" where
  "openEditEndpoint e p = p\<lparr>lg_editingEndpoint := Some e, lg_endpointForm := edit_endpoint_form e, lg_endpointOpen := True\<rparr>"

definition submitEndpoint_begin :: "llm_page \<Rightarrow> engine_request" where
  "submitEndpoint_begin p =
     (case lg_editingEndpoint p of
        Some e \<Rightarrow> PutConnection (endpoint_payload (lc_id e) (lg_endpointForm p))
      | None \<Rightarrow> PostConnection (endpoint_payload (ef_id (lg_endpointForm p)) (lg_endpointForm p)))"

definition submitEndpoint_end :: "string option \<Rightarrow> llm_page \<Rightarrow> llm_page" where
  "submitEndpoint_end failure p =
     (case failure of
        Some msg \<Rightarrow> engine_toast (Failed msg) p
      | None \<Rightarrow> engine_load_begin ((engine_toast
          (Done (if lg_editingEndpoint p = None then ''Endpoint created'' else ''Endpoint updated'')) p)\<lparr>lg_endpointOpen := False\<rparr>))"

definition openCreateModel :: "string option \<Rightarrow> llm_page \<Rightarrow> llm_page" where
  "openCreateModel c p = p\<lparr>lg_editingModel := None,
     lg_modelForm := empty_model_form (or_else c (or_else (map_option lc_id (JsPrelude.at (lg_endpoints p) 0)) [])),
     lg_modelOpen := True\<rparr>"

definition openEditModel :: "llm_model \<Rightarrow> llm_page \<Rightarrow> llm_page" where
  "openEditModel m p = p\<lparr>lg_editingModel := Some m, lg_modelForm := edit_model_form m, lg_modelOpen := True\<rparr>"

definition submitModel_begin :: "llm_page \<Rightarrow> engine_request" where
  "submitModel_begin p =
     (case lg_editingModel p of
        Some m \<Rightarrow> PutModel (model_payload (lm_id m) (lg_modelForm p))
      | None \<Rightarrow> PostModel (model_payload [] (lg_modelForm p)))"

definition submitModel_end :: "string option \<Rightarrow> llm_page \<Rightarrow> llm_page" where
  "submitModel_end failure p =
     (case failure of
        Some msg \<Rightarrow> engine_toast (Failed msg) p
      | None \<Rightarrow> engine_load_begin ((engine_toast
          (Done (if lg_editingModel p = None then ''Model created'' else ''Model updated'')) p)\<lparr>lg_modelOpen := False\<rparr>))"

definition openCreateProfile :: "llm_page \<Rightarrow> llm_page" where
  "openCreateProfile p = p\<lparr>lg_editingProfile := None, lg_profileForm := EMPTY_PROFILE_FORM, lg_profileOpen := True\<rparr>"

definition openEditProfile :: "llm_preset \<Rightarrow> llm_page \<Rightarrow> llm_page" where
  "openEditProfile q p = p\<lparr>lg_editingProfile := Some q, lg_profileForm := edit_profile_form q, lg_profileOpen := True\<rparr>"

definition submitProfile_begin :: "(string \<Rightarrow> string option) \<Rightarrow> llm_page \<Rightarrow> engine_request" where
  "submitProfile_begin float_text p =
     (case lg_editingProfile p of
        Some q \<Rightarrow> PutPreset (preset_payload float_text (lp_id q) (lg_profileForm p))
      | None \<Rightarrow> PostPreset (preset_payload float_text [] (lg_profileForm p)))"

definition submitProfile_end :: "string option \<Rightarrow> llm_page \<Rightarrow> llm_page" where
  "submitProfile_end failure p =
     (case failure of
        Some msg \<Rightarrow> engine_toast (Failed msg) p
      | None \<Rightarrow> engine_load_begin ((engine_toast
          (Done (if lg_editingProfile p = None then ''Profile created'' else ''Profile updated'')) p)\<lparr>lg_profileOpen := False\<rparr>))"

text \<open>
  An endpoint is deleted after the models the page lists for it, one request after another; \<open>answers\<close> says of each whether
  the server did it, and the first that fails ends the run. \<open>False\<close> is a failure.
\<close>

fun delete_models :: "bool list \<Rightarrow> string list \<Rightarrow> engine_store \<Rightarrow> (bool list \<times> engine_store) option \<times> engine_store" where
  "delete_models answers [] s = (Some (answers, s), s)"
| "delete_models answers (i # is) s =
     (case answers of
        True # rest \<Rightarrow> delete_models rest is (delete_model i s)
      | _ \<Rightarrow> (None, s))"

definition removeEndpoint :: "bool list \<Rightarrow> string \<Rightarrow> string \<Rightarrow> llm_page \<times> engine_store \<Rightarrow> llm_page \<times> engine_store" where
  "removeEndpoint answers msg i w =
     (let (p, s) = w; ids = map lm_id (filter (\<lambda>m. lm_connectionId m = i) (lg_models p)) in
      case delete_models answers ids s of
        (Some (True # _, s'), _) \<Rightarrow>
          (engine_load_begin ((engine_toast (Done ''Endpoint deleted'') p)\<lparr>lg_deleteEndpointId := None\<rparr>), delete_llm_connection i s')
      | (_, s') \<Rightarrow> (engine_toast (Failed msg) p, s'))"

definition removeModel_end :: "string option \<Rightarrow> llm_page \<Rightarrow> llm_page" where
  "removeModel_end failure p =
     (case failure of
        Some msg \<Rightarrow> engine_toast (Failed msg) p
      | None \<Rightarrow> engine_load_begin ((engine_toast (Done ''Model deleted'') p)\<lparr>lg_deleteModelId := None\<rparr>))"

definition removeProfile_end :: "string option \<Rightarrow> llm_page \<Rightarrow> llm_page" where
  "removeProfile_end failure p =
     (case failure of
        Some msg \<Rightarrow> engine_toast (Failed msg) p
      | None \<Rightarrow> engine_load_begin ((engine_toast (Done ''Profile deleted'') p)\<lparr>lg_deleteProfileId := None\<rparr>))"

text \<open>Routing: the choice is shown at once; the settings are read and written back with it.\<close>

datatype route_key = ChatRoute | ServerRoute

definition set_route :: "route_key \<Rightarrow> string \<Rightarrow> llm_page \<Rightarrow> llm_page" where
  "set_route k v p = (case k of ChatRoute \<Rightarrow> p\<lparr>lg_chatPresetId := v\<rparr> | ServerRoute \<Rightarrow> p\<lparr>lg_serverPresetId := v\<rparr>)"

definition routed_settings :: "route_key \<Rightarrow> string \<Rightarrow> app_settings \<Rightarrow> app_settings" where
  "routed_settings k v cur = \<lparr>as_chatPresetId = (if k = ChatRoute then v else as_chatPresetId cur),
     as_serverPresetId = (if k = ServerRoute then v else as_serverPresetId cur),
     as_memoryEnabled = as_memoryEnabled cur, as_userMemories = as_userMemories cur\<rparr>"

definition updateRouting_end :: "string option \<Rightarrow> llm_page \<Rightarrow> llm_page" where
  "updateRouting_end failure p = engine_toast (case failure of Some msg \<Rightarrow> Failed msg | None \<Rightarrow> Done ''Routing updated'') p"

definition toggleProfile :: "string \<Rightarrow> llm_page \<Rightarrow> llm_page" where
  "toggleProfile i p = p\<lparr>lg_expanded := (if i \<in> set (lg_expanded p) then filter (\<lambda>j. j \<noteq> i) (lg_expanded p) else lg_expanded p @ [i])\<rparr>"

definition routingFilled :: "llm_page \<Rightarrow> nat" where
  "routingFilled p = (if lg_chatPresetId p = [] then 0 else 1) + (if lg_serverPresetId p = [] then 0 else 1)"

text \<open>The steps of the header, each with its count and whether it is done.\<close>

definition engine_steps :: "llm_page \<Rightarrow> (string \<times> nat \<times> bool) list" where
  "engine_steps p =
     [(''Endpoints'', length (lg_endpoints p), lg_endpoints p \<noteq> []),
      (''Models'', length (lg_models p), lg_models p \<noteq> []),
      (''Profiles'', length (lg_profiles p), lg_profiles p \<noteq> [] \<and> 0 < routingFilled p)]"

section \<open>The rows of the page\<close>

datatype limit_view = LimitLoading | Quota int string | Balance string | Unlimited string

definition limit_row :: "bool \<Rightarrow> inference_limit \<Rightarrow> limit_view" where
  "limit_row loading l =
     (if loading then LimitLoading
      else let ty = map to_lower (str_or (il_type l) ''unlimited'');
               percent = max 0 (min 100 \<lfloor>or_else (il_percentage l) 0 + 1 / 2\<rfloor>);
               label = str_or (trim (il_label l)) (if ty = ''quota'' then ''Quota usage is not available'' else ''No inference limit reported'')
           in if ty = ''quota'' then Quota percent label else if ty = ''balance'' then Balance label else Unlimited label)"

definition endpoint_limit :: "llm_page \<Rightarrow> string \<Rightarrow> limit_view" where
  "endpoint_limit p i = limit_row (lg_limitLoading p i = Some True)
     (or_else (lg_limits p i) \<lparr>il_type = ''unlimited'', il_percentage = None, il_label = ''No inference limit reported''\<rparr>)"

definition quota_tone :: "int \<Rightarrow> string" where
  "quota_tone percent = (if 85 \<le> percent then ''rose'' else if 60 \<le> percent then ''amber'' else ''teal'')"

definition model_count :: "llm_page \<Rightarrow> string \<Rightarrow> string" where
  "model_count p i = (let n = length (or_else (modelsByEndpoint (lg_endpoints p) (lg_models p) i) []) in
     nat_str n @ '' '' @ (if n = 1 then ''model'' else ''models''))"

text \<open>The roles of a profile: label, whether it is required, and where the model is kept.\<close>

definition ROLE_DEFS :: "(string \<times> bool \<times> (llm_preset \<Rightarrow> string)) list" where
  "ROLE_DEFS = [(''Chat'', True, lp_chatModelId), (''Summary'', False, lp_summaryModelId), (''Vision'', False, lp_imageModelId),
     (''Fallback'', False, lp_fallbackModelId)]"

definition role_rows :: "llm_page \<Rightarrow> llm_preset \<Rightarrow> (string \<times> string) list" where
  "role_rows p q = map (\<lambda>(label, _, get). (label, str_or (modelLabel p (get q)) (if label = ''Summary'' then ''same as chat'' else [em_dash]))) ROLE_DEFS"

definition temperature_text :: "llm_preset \<Rightarrow> string" where
  "temperature_text q = or_else (lp_temperature q) ''model default''"

definition used_badges :: "llm_page \<Rightarrow> llm_preset \<Rightarrow> string list" where
  "used_badges p q = (if lg_chatPresetId p = lp_id q then [''chat''] else []) @ (if lg_serverPresetId p = lp_id q then [''server''] else [])"

text \<open>The choices of a routing slot; the browser shows the one with the value, and none when there is none.\<close>

definition routing_options :: "llm_page \<Rightarrow> (string \<times> string) list" where
  "routing_options p = ([], ''None'') # map (\<lambda>q. (lp_id q, lp_name q)) (lg_profiles p)"

definition routed_name :: "llm_page \<Rightarrow> route_key \<Rightarrow> string option" where
  "routed_name p k = map_of (routing_options p) (case k of ChatRoute \<Rightarrow> lg_chatPresetId p | ServerRoute \<Rightarrow> lg_serverPresetId p)"

section \<open>The bar of the chat\<close>

record preset_bar =
  pb_settings :: "app_settings option"
  pb_presets :: "llm_preset list"
  pb_models :: "llm_model list"
  pb_connections :: "llm_connection list"
  pb_busy :: "route_key option"
  pb_flash :: "string option"
  pb_profileOpen :: bool
  pb_editing :: "llm_preset option"
  pb_form :: profile_form
  pb_toasts :: "engine_toast list"

definition bar_start :: preset_bar where
  "bar_start = \<lparr>pb_settings = None, pb_presets = [], pb_models = [], pb_connections = [], pb_busy = None, pb_flash = None,
     pb_profileOpen = False, pb_editing = None, pb_form = EMPTY_PROFILE_FORM, pb_toasts = []\<rparr>"

text \<open>\<open>None\<close> is a failure of a request other than the one for the endpoints, whose failure counts as an empty list.\<close>

definition bar_refresh :: "(engine_store \<times> bool) option \<Rightarrow> preset_bar \<Rightarrow> preset_bar" where
  "bar_refresh answer b =
     (case answer of
        None \<Rightarrow> b
      | Some (s, conns) \<Rightarrow> b\<lparr>pb_settings := Some (get_settings s), pb_presets := es_presets s, pb_models := es_models s,
          pb_connections := (if conns then es_connections s else [])\<rparr>)"

definition slot_preset :: "route_key \<Rightarrow> preset_bar \<Rightarrow> llm_preset option" where
  "slot_preset k b =
     (case pb_settings b of
        None \<Rightarrow> None
      | Some a \<Rightarrow> find_by lp_id (pb_presets b) (case k of ChatRoute \<Rightarrow> as_chatPresetId a | ServerRoute \<Rightarrow> as_serverPresetId a))"

definition slot_model :: "route_key \<Rightarrow> preset_bar \<Rightarrow> llm_model option" where
  "slot_model k b =
     (case slot_preset k b of
        None \<Rightarrow> None
      | Some q \<Rightarrow> if lp_chatModelId q = [] then None else find_by lm_id (pb_models b) (lp_chatModelId q))"

definition NONE :: string where "NONE = ''__none__''"

definition slot_value :: "route_key \<Rightarrow> preset_bar \<Rightarrow> string" where
  "slot_value k b = str_or (or_else (map_option lp_chatModelId (slot_preset k b)) []) NONE"

definition slot_text :: "route_key \<Rightarrow> preset_bar \<Rightarrow> string" where
  "slot_text k b = or_else (map_option lm_name (slot_model k b)) ''None''"

definition slot_disabled :: "route_key \<Rightarrow> preset_bar \<Rightarrow> bool" where
  "slot_disabled k b \<longleftrightarrow> slot_preset k b = None \<or> pb_busy b = Some k \<or> pb_models b = []"

definition bar_hidden :: "preset_bar \<Rightarrow> bool" where
  "bar_hidden b \<longleftrightarrow> pb_settings b = None \<or> pb_presets b = []"

definition slot_items :: "preset_bar \<Rightarrow> (string \<times> string \<times> string option) list" where
  "slot_items b = (NONE, ''None'', None) # map (\<lambda>m. (lm_id m, lm_name m,
     map_option (\<lambda>c. lc_provider c @ [CHR '' '', middle_dot, CHR '' ''] @ lc_id c) (endpointById (pb_connections b) (lm_connectionId m)))) (pb_models b)"

text \<open>\<open>applyChatModel\<close> and \<open>applyServerModel\<close>: nothing is sent when there is no profile or its model is the chosen one.\<close>

definition apply_model_begin :: "route_key \<Rightarrow> string \<Rightarrow> preset_bar \<Rightarrow> preset_bar \<times> engine_request option" where
  "apply_model_begin k nxt b =
     (let modelId = (if nxt = NONE then [] else nxt) in
      case slot_preset k b of
        None \<Rightarrow> (b, None)
      | Some q \<Rightarrow> if modelId = lp_chatModelId q then (b, None)
          else (b\<lparr>pb_busy := Some k\<rparr>, Some (PutPreset (q\<lparr>lp_chatModelId := modelId\<rparr>))))"

text \<open>The answer is the profile as the server stored it, \<open>None\<close> a failure.\<close>

definition put_preset :: "llm_preset \<Rightarrow> llm_preset list \<Rightarrow> llm_preset list" where
  "put_preset q qs = map (\<lambda>x. if lp_id x = lp_id q then q else x) qs"

definition slot_title :: "route_key \<Rightarrow> string" where
  "slot_title k = (case k of ChatRoute \<Rightarrow> ''chat model'' | ServerRoute \<Rightarrow> ''servers / SSH model'')"

definition apply_model_end :: "route_key \<Rightarrow> string \<Rightarrow> llm_preset option \<Rightarrow> preset_bar \<Rightarrow> preset_bar" where
  "apply_model_end k nxt answer b =
     (let modelId = (if nxt = NONE then [] else nxt);
          label = (if modelId = [] then ''none'' else or_else (map_option lm_name (find_by lm_id (pb_models b) modelId)) modelId)
      in case answer of
        None \<Rightarrow> b\<lparr>pb_flash := Some (case k of ChatRoute \<Rightarrow> ''failed to update chat model'' | ServerRoute \<Rightarrow> ''failed to update server model''),
          pb_busy := None\<rparr>
      | Some q \<Rightarrow> b\<lparr>pb_presets := put_preset q (pb_presets b),
          pb_flash := Some (slot_title k @ [CHR '' '', middle_dot, CHR '' ''] @ label), pb_busy := None\<rparr>)"

text \<open>A message goes after 2.2 seconds unless another one took its place.\<close>

definition flash_timeout :: "string \<Rightarrow> preset_bar \<Rightarrow> preset_bar" where
  "flash_timeout msg b = b\<lparr>pb_flash := (if pb_flash b = Some msg then None else pb_flash b)\<rparr>"

definition openEditPreset :: "llm_preset option \<Rightarrow> string \<Rightarrow> preset_bar \<Rightarrow> preset_bar" where
  "openEditPreset q label b =
     (case q of
        None \<Rightarrow> b\<lparr>pb_toasts := pb_toasts b @ [Info (''Set a '' @ label @ '' preset in AI Engine first, or pick routing there'')]\<rparr>
      | Some q \<Rightarrow> b\<lparr>pb_editing := Some q, pb_form := edit_profile_form q, pb_profileOpen := True\<rparr>)"

definition bar_submit_begin :: "(string \<Rightarrow> string option) \<Rightarrow> preset_bar \<Rightarrow> engine_request option" where
  "bar_submit_begin float_text b = map_option (\<lambda>q. PutPreset (preset_payload float_text (lp_id q) (pb_form b))) (pb_editing b)"

text \<open>After a success the bar is refreshed: the caller applies \<open>bar_refresh\<close> to its answer.\<close>

definition bar_submit_end :: "string + llm_preset \<Rightarrow> preset_bar \<Rightarrow> preset_bar" where
  "bar_submit_end answer b =
     (case answer of
        Inl msg \<Rightarrow> b\<lparr>pb_toasts := pb_toasts b @ [Failed msg]\<rparr>
      | Inr q \<Rightarrow> b\<lparr>pb_presets := put_preset q (pb_presets b), pb_toasts := pb_toasts b @ [Done ''Profile updated''],
          pb_profileOpen := False, pb_editing := None\<rparr>)"

definition bar_dialog_change :: "bool \<Rightarrow> preset_bar \<Rightarrow> preset_bar" where
  "bar_dialog_change isopen b = b\<lparr>pb_profileOpen := isopen, pb_editing := (if isopen then pb_editing b else None)\<rparr>"

section \<open>Numbers of a model\<close>

definition safe_model :: "llm_model \<Rightarrow> bool" where
  "safe_model m \<longleftrightarrow> lm_contextWindow m < 2 ^ 53 \<and> lm_reserveTokens m < 2 ^ 53 \<and> lm_compactTokens m < 2 ^ 53"

definition normal_model :: "llm_model \<Rightarrow> bool" where
  "normal_model m \<longleftrightarrow> 0 < lm_contextWindow m \<and> 0 < lm_reserveTokens m \<and> 0 < lm_compactTokens m"

lemma defaults_normal: "normal_model (applyModelDefaults m)"
  by (simp add: normal_model_def applyModelDefaults_def Let_def defaultContextWindow_def defaultReserveTokens_def)

lemma normal_defaults: "normal_model m \<Longrightarrow> applyModelDefaults m = m"
  by (simp add: normal_model_def applyModelDefaults_def Let_def)

lemma defaults_safe: "safe_model m \<Longrightarrow> safe_model (applyModelDefaults m)"
  by (auto simp: safe_model_def applyModelDefaults_def Let_def defaultContextWindow_def defaultReserveTokens_def)

lemma parseInt10_str: "0 \<le> i \<Longrightarrow> i < 2 ^ 53 \<Longrightarrow> parseInt10 (int_str i) = i"
  by (simp add: parseInt10_def parse_int_str or_else_def)

lemma edited_model_payload: "normal_model m \<Longrightarrow> safe_model m \<Longrightarrow> model_payload (lm_id m) (edit_model_form m) = m"
  by (simp add: model_payload_def edit_model_form_def normal_model_def safe_model_def int_or_def parseInt10_str)

lemma edited_endpoint_payload: "endpoint_payload (lc_id e) (edit_endpoint_form e) = e"
  by (simp add: endpoint_payload_def edit_endpoint_form_def)

text \<open>A temperature whose text is read as itself.\<close>

definition readable :: "(string \<Rightarrow> string option) \<Rightarrow> llm_preset \<Rightarrow> bool" where
  "readable float_text q \<longleftrightarrow> (case lp_temperature q of None \<Rightarrow> True | Some t \<Rightarrow> t \<noteq> [] \<and> float_text t = Some t)"

lemma edited_preset_payload: "readable ft q \<Longrightarrow> preset_payload ft (lp_id q) (edit_profile_form q) = q"
  by (cases "lp_temperature q") (auto simp: preset_payload_def edit_profile_form_def readable_def or_else_def)

section \<open>The server over time\<close>

datatype engine_event =
    Request string engine_request
  | DeleteConnection string
  | DeleteModel string
  | DeletePreset string
  | Settings app_settings

fun engine_step :: "engine_event \<Rightarrow> engine_store \<Rightarrow> engine_store" where
  "engine_step (Request uuid r) s = (case serve uuid r s of Inl _ \<Rightarrow> s | Inr s' \<Rightarrow> s')"
| "engine_step (DeleteConnection i) s = delete_llm_connection i s"
| "engine_step (DeleteModel i) s = delete_model i s"
| "engine_step (DeletePreset i) s = delete_preset i s"
| "engine_step (Settings a) s = update_settings a s"

text \<open>The numbers a form sends are exact, and a temperature is the text of a number.\<close>

fun engine_enabled :: "(string \<Rightarrow> string option) \<Rightarrow> engine_event \<Rightarrow> engine_store \<Rightarrow> bool" where
  "engine_enabled ft (Request uuid (PostModel m)) s = safe_model m"
| "engine_enabled ft (Request uuid (PutModel m)) s = safe_model m"
| "engine_enabled ft (Request uuid (PostPreset q)) s = readable ft q"
| "engine_enabled ft (Request uuid (PutPreset q)) s = readable ft q"
| "engine_enabled ft _ s = True"

definition engine_inv :: "(string \<Rightarrow> string option) \<Rightarrow> engine_store \<Rightarrow> bool" where
  "engine_inv ft s \<longleftrightarrow> table_ok lc_id (\<lambda>_. True) (es_connections s)
     \<and> table_ok lm_id (\<lambda>m. normal_model m \<and> safe_model m) (es_models s) \<and> table_ok lp_id (readable ft) (es_presets s)"

definition no_engine :: engine_store where
  "no_engine = \<lparr>es_connections = [], es_models = [], es_presets = [], es_settings = None\<rparr>"

lemma no_engine_inv: "engine_inv ft no_engine"
  by (simp add: engine_inv_def no_engine_def table_ok_def)

lemma safe_id: "safe_model (m\<lparr>lm_id := i\<rparr>) = safe_model m"
  by (simp add: safe_model_def)

lemma readable_id: "readable ft (q\<lparr>lp_id := i\<rparr>) = readable ft q"
  by (simp add: readable_def)

lemma saved_model_ok: "safe_model m \<Longrightarrow> normal_model (applyModelDefaults (m\<lparr>lm_id := i\<rparr>)) \<and> safe_model (applyModelDefaults (m\<lparr>lm_id := i\<rparr>))
    \<and> normal_model (applyModelDefaults m) \<and> safe_model (applyModelDefaults m)"
  using defaults_safe [of m] defaults_safe [of "m\<lparr>lm_id := i\<rparr>"] defaults_normal by (simp add: safe_id)

lemma served_inv:
  assumes "engine_inv ft s" and "engine_enabled ft (Request u r) s" and "serve u r s = Inr t"
  shows "engine_inv ft t"
proof -
  note defs = serve_def create_llm_connection_def update_llm_connection_def create_model_def update_model_def
    create_preset_def update_preset_def map_sum_Inr engine_inv_def
  show ?thesis
  proof (cases r)
    case (PostModel m)
    then show ?thesis using assms saved_model_ok [of m u] insert_row_ok [of lm_id "\<lambda>m. normal_model m \<and> safe_model m"]
      by (auto simp: defs)
  next
    case (PutModel m)
    then show ?thesis using assms saved_model_ok [of m u] update_row_ok [of lm_id "\<lambda>m. normal_model m \<and> safe_model m"]
      by (auto simp: defs)
  next
    case (PostPreset q)
    then show ?thesis using assms insert_row_ok [of lp_id "readable ft" _ "q\<lparr>lp_id := u\<rparr>"] by (auto simp: defs readable_id)
  next
    case (PutPreset q)
    then show ?thesis using assms update_row_ok [of lp_id "readable ft"] by (auto simp: defs)
  qed (use assms in \<open>auto simp: defs intro: insert_row_ok update_row_ok\<close>)
qed

lemma engine_step_inv: "engine_inv ft s \<Longrightarrow> engine_enabled ft e s \<Longrightarrow> engine_inv ft (engine_step e s)"
proof (cases e)
  case (Request u r)
  assume "engine_inv ft s" and "engine_enabled ft e s"
  then show ?thesis using Request served_inv [of ft s u r] by (auto split: sum.split)
qed (auto simp: engine_inv_def delete_llm_connection_def delete_model_def delete_preset_def update_settings_def intro: drop_row_ok)

interpretation engine: guarded_steps engine_step "engine_inv ft" "engine_enabled ft" for ft
  by unfold_locales (rule engine_step_inv)

section \<open>Editing\<close>

lemma engine_rows:
  assumes "engine_inv ft s"
  shows "c \<in> set (es_connections s) \<Longrightarrow> serve u (PutConnection c) s = Inr s"
    and "m \<in> set (es_models s) \<Longrightarrow> serve u (PutModel m) s = Inr s"
    and "q \<in> set (es_presets s) \<Longrightarrow> serve u (PutPreset q) s = Inr s"
proof -
  note ok = assms [unfolded engine_inv_def]
  show "c \<in> set (es_connections s) \<Longrightarrow> serve u (PutConnection c) s = Inr s"
    using ok by (simp add: serve_def update_llm_connection_def update_row_same [of lc_id "\<lambda>_. True"])
  show "q \<in> set (es_presets s) \<Longrightarrow> serve u (PutPreset q) s = Inr s"
    using ok by (simp add: serve_def update_preset_def update_row_same [of lp_id "readable ft"])
  assume m: "m \<in> set (es_models s)"
  then have "normal_model m" using ok by (auto simp: table_ok_def list_all_iff)
  then show "serve u (PutModel m) s = Inr s"
    using ok m by (simp add: serve_def update_model_def normal_defaults update_row_same [of lm_id "\<lambda>m. normal_model m \<and> safe_model m"])
qed

text \<open>C23: 
  Opening any endpoint, model or profile for editing and pressing Update at once leaves the server as it was, whatever was
  stored through the forms before: no number, default, temperature or empty field is rewritten on the way.
\<close>

theorem saving_unchanged_keeps_the_engine:
  assumes "admissible (engine_enabled ft) engine_step es no_engine"
  shows "let s = run_steps engine_step es no_engine in
    (\<forall>c \<in> set (es_connections s). serve u (submitEndpoint_begin (openEditEndpoint c p)) s = Inr s) \<and>
    (\<forall>m \<in> set (es_models s). serve u (submitModel_begin (openEditModel m p)) s = Inr s) \<and>
    (\<forall>q \<in> set (es_presets s). serve u (submitProfile_begin ft (openEditProfile q p)) s = Inr s)"
proof -
  define s where "s = run_steps engine_step es no_engine"
  have inv: "engine_inv ft s" unfolding s_def by (rule engine.run_inv [OF no_engine_inv assms])
  note rows = engine_rows [OF inv]
  have c: "submitEndpoint_begin (openEditEndpoint c p) = PutConnection c" for c
    by (simp add: submitEndpoint_begin_def openEditEndpoint_def edited_endpoint_payload)
  have m: "submitModel_begin (openEditModel m p) = PutModel m" if "m \<in> set (es_models s)" for m
    using inv that by (simp add: submitModel_begin_def openEditModel_def edited_model_payload engine_inv_def table_ok_def list_all_iff)
  have q: "submitProfile_begin ft (openEditProfile q p) = PutPreset q" if "q \<in> set (es_presets s)" for q
    using inv that by (simp add: submitProfile_begin_def openEditProfile_def edited_preset_payload engine_inv_def table_ok_def list_all_iff)
  show ?thesis unfolding s_def [symmetric] Let_def by (simp add: c m q rows)
qed

text \<open>
  The threshold from which the server compacts a chat is promised to follow the context window when its field is left empty.
  It does when the model is saved first; the server then stores the number, the form shows it from then on, and a window that
  is typed later leaves it where it was: a smaller window lies below the threshold, so that the chat outgrows the window
  before it is compacted.
\<close>

lemma parseInt10_nil: "parseInt10 [] = 0"
  by (simp add: parseInt10_def parse_int_def trim_start_def starts_with_def or_else_def)

lemma threshold_of_a_new_model:
  assumes "mf_compactTokens f = []" and "0 < parseInt10 (mf_reserveTokens f)"
    and "parseInt10 (mf_reserveTokens f) < parseInt10 (mf_contextWindow f)"
  shows "EffectiveThreshold (applyModelDefaults (model_payload i f))
    = parseInt10 (mf_contextWindow f) - parseInt10 (mf_reserveTokens f)"
  using assms by (simp add: EffectiveThreshold_def applyModelDefaults_def model_payload_def Let_def parseInt10_nil)

theorem smaller_window_keeps_the_old_threshold:
  assumes "mf_compactTokens f = []" and "safe_model (model_payload i f)"
    and "m = applyModelDefaults (model_payload i f)"
    and "m' = applyModelDefaults (model_payload i ((edit_model_form m)\<lparr>mf_contextWindow := t\<rparr>))"
    and "0 < parseInt10 t" and "parseInt10 t < EffectiveThreshold m"
  shows "EffectiveThreshold m' = EffectiveThreshold m \<and> lm_contextWindow m' < EffectiveThreshold m'"
proof -
  have n: "normal_model m" and s: "safe_model m" using assms(2, 3) defaults_normal defaults_safe by simp_all
  then have r: "parseInt10 (int_str (int_or (lm_reserveTokens m) DEFAULT_RESERVE_TOKENS)) = lm_reserveTokens m"
    and k: "lm_compactTokens m \<noteq> 0 \<and> parseInt10 (int_str (lm_compactTokens m)) = lm_compactTokens m"
    by (simp_all add: normal_model_def safe_model_def int_or_def parseInt10_str)
  have "lm_compactTokens m' = lm_compactTokens m \<and> lm_contextWindow m' = parseInt10 t"
    using n k r assms(5) unfolding assms(4)
    by (simp add: applyModelDefaults_def model_payload_def edit_model_form_def Let_def normal_model_def)
  then show ?thesis using n assms(6) by (simp add: EffectiveThreshold_def normal_model_def)
qed

text \<open>Other numbers the fields take are not the ones that were typed: an exponent is cut off, a reserve of zero becomes the default.\<close>

lemma exponent_is_cut_off: "parseInt10 ''1e5'' = 1"
  by (simp add: parseInt10_def parse_int_def trim_start_def starts_with_def or_else_def is_ws_def is_digit_def digits_val_def digit_val_def)

lemma zero_reserve_becomes_the_default:
  assumes "parseInt10 (mf_reserveTokens f) = 0"
  shows "lm_reserveTokens (applyModelDefaults (model_payload i f)) = 20000"
  using assms by (simp add: applyModelDefaults_def model_payload_def Let_def defaultReserveTokens_def)

section \<open>Usage limits\<close>

lemma limit_answers_commute: "fst a \<noteq> fst b \<Longrightarrow> limit_answer a (limit_answer b p) = limit_answer b (limit_answer a p)"
  by (simp add: limit_answer_def fun_upd_twist)

lemma fold_answer_rest: "fst a \<notin> fst ` set xs \<Longrightarrow> fold limit_answer xs (limit_answer a p) = limit_answer a (fold limit_answer xs p)"
  by (induction xs arbitrary: p) (auto simp: limit_answers_commute)

lemma limit_answer_at:
  "lg_limits (limit_answer (i, a) p) i = Some (or_else a limit_unavailable) \<and> lg_limitLoading (limit_answer (i, a) p) i = Some False"
  by (simp add: limit_answer_def)

lemma fold_answers_limits:
  assumes "distinct (map fst xs)" and "(i, a) \<in> set xs"
  shows "lg_limits (fold limit_answer xs p) i = Some (or_else a limit_unavailable)
    \<and> lg_limitLoading (fold limit_answer xs p) i = Some False"
  using assms
proof (induction xs arbitrary: p)
  case (Cons x xs)
  show ?case
  proof (cases "x = (i, a)")
    case True
    then have "fold limit_answer (x # xs) p = limit_answer x (fold limit_answer xs p)"
      using Cons.prems by (simp add: fold_answer_rest)
    then show ?thesis using True by (simp only: limit_answer_at)
  next
    case False
    then show ?thesis using Cons by auto
  qed
qed simp

text \<open>
  The usage of the endpoints is asked for all of them at once. In whatever order the answers come, the page ends the same:
  no endpoint is still being checked, and each shows its own answer, or that its usage is unavailable when its request failed.
\<close>

theorem limits_settle_in_any_order:
  assumes "distinct (map fst xs)" and "mset ys = mset xs" and "lc_id ` set eps = fst ` set xs"
  shows "fold limit_answer ys (fetchInferenceLimits_begin eps p) = fold limit_answer xs (fetchInferenceLimits_begin eps p)
    \<and> (\<forall>(i, a) \<in> set xs. endpoint_limit (fold limit_answer ys (fetchInferenceLimits_begin eps p)) i
        = limit_row False (or_else a limit_unavailable))"
proof
  have "fold limit_answer ys = fold limit_answer xs"
  proof (rule fold_multiset_equiv)
    show "mset ys = mset xs" by (rule assms(2))
    fix a b assume ab: "a \<in> set ys" "b \<in> set ys"
    show "limit_answer a \<circ> limit_answer b = limit_answer b \<circ> limit_answer a"
    proof (cases "a = b")
      case False
      then have "fst a \<noteq> fst b" using assms(1) ab mset_eq_setD [OF assms(2)] by (auto simp: distinct_map inj_on_def)
      then show ?thesis by (simp add: fun_eq_iff limit_answers_commute)
    qed simp
  qed
  then show "fold limit_answer ys (fetchInferenceLimits_begin eps p) = fold limit_answer xs (fetchInferenceLimits_begin eps p)" by simp
  then show "\<forall>(i, a) \<in> set xs. endpoint_limit (fold limit_answer ys (fetchInferenceLimits_begin eps p)) i
        = limit_row False (or_else a limit_unavailable)"
    using fold_answers_limits [OF assms(1)] by (auto simp: endpoint_limit_def or_else_def)
qed

section \<open>Deleting an endpoint\<close>

lemma delete_models_result:
  "delete_models answers is s =
     (let n = length (takeWhile id answers); t = s\<lparr>es_models := filter (\<lambda>m. lm_id m \<notin> set (take n is)) (es_models s)\<rparr>
      in (if length is \<le> n then Some (drop (length is) answers, t) else None, t))"
proof (induction answers "is" s rule: delete_models.induct)
  case (2 answers i "is" s)
  show ?case
  proof (cases "\<exists>rest. answers = True # rest")
    case True
    then obtain rest where a: "answers = True # rest" by blast
    then show ?thesis using "2.IH" [OF a] by (simp add: Let_def delete_model_def drop_by_def conj_commute)
  next
    case False
    then have "answers = [] \<or> (\<exists>rest. answers = False # rest)" by (cases answers) auto
    then show ?thesis by (auto simp: Let_def)
  qed
qed (simp add: Let_def)

lemma head_true: "(\<exists>rest. drop k answers = True # rest) \<longleftrightarrow> k < length (takeWhile id answers)" if "k \<le> length (takeWhile id answers)"
  using that
proof (induction answers arbitrary: k)
  case (Cons a answers)
  show ?case
  proof (cases k)
    case 0
    then show ?thesis by (cases a) auto
  next
    case (Suc j)
    then show ?thesis using Cons.IH [of j] Cons.prems by (cases a) auto
  qed
qed simp

text \<open>C28: Deleting an endpoint sends one request for each of the models the page lists for it, in their order, and then one for
  itself; the first that fails is the last. Whatever is answered, the server is afterwards the one without the models whose
  requests succeeded, without the endpoint exactly when all of them and its own did, and with every other model, endpoint
  and profile and the routing as they were.\<close>

theorem endpoint_goes_after_its_models:
  "let ids = map lm_id (filter (\<lambda>m. lm_connectionId m = i) (lg_models p)); n = length (takeWhile id answers);
       s' = snd (removeEndpoint answers msg i (p, s))
   in s' = s\<lparr>es_models := filter (\<lambda>m. lm_id m \<notin> set (take n ids)) (es_models s),
        es_connections := (if length ids < n then filter (\<lambda>c. lc_id c \<noteq> i) (es_connections s) else es_connections s)\<rparr>"
proof -
  define ids where "ids = map lm_id (filter (\<lambda>m. lm_connectionId m = i) (lg_models p))"
  define n where "n = length (takeWhile id answers)"
  define t where "t = s\<lparr>es_models := filter (\<lambda>m. lm_id m \<notin> set (take n ids)) (es_models s)\<rparr>"
  have d: "delete_models answers ids s = (if length ids \<le> n then Some (drop (length ids) answers, t) else None, t)"
    unfolding delete_models_result n_def t_def by (simp add: Let_def)
  have r: "removeEndpoint answers msg i (p, s) = (case delete_models answers ids s of
        (Some (True # _, s'), _) \<Rightarrow>
          (engine_load_begin ((engine_toast (Done ''Endpoint deleted'') p)\<lparr>lg_deleteEndpointId := None\<rparr>), delete_llm_connection i s')
      | (_, s') \<Rightarrow> (engine_toast (Failed msg) p, s'))" by (simp add: removeEndpoint_def ids_def)
  have "snd (removeEndpoint answers msg i (p, s)) = (if length ids < n then delete_llm_connection i t else t)"
  proof (cases "length ids < n")
    case True
    then obtain rest where "drop (length ids) answers = True # rest" using head_true [of "length ids" answers] by (auto simp: n_def)
    then show ?thesis using True by (simp add: r d)
  next
    case False
    then have "\<nexists>rest. length ids \<le> n \<and> drop (length ids) answers = True # rest"
      using head_true [of "length ids" answers] by (auto simp: n_def)
    then show ?thesis using False by (auto simp: r d split: list.splits bool.splits)
  qed
  then show ?thesis unfolding Let_def ids_def [symmetric] n_def [symmetric] by (simp add: t_def delete_llm_connection_def drop_by_def)
qed

section \<open>The bar of the chat\<close>

text \<open>The bar has what the server has.\<close>

definition bar_fresh :: "engine_store \<Rightarrow> preset_bar \<Rightarrow> bool" where
  "bar_fresh s b \<longleftrightarrow> pb_settings b = Some (get_settings s) \<and> pb_presets b = es_presets s \<and> pb_models b = es_models s"

lemma refreshed_is_fresh: "bar_fresh s (bar_refresh (Some (s, c)) b)"
  by (simp add: bar_fresh_def bar_refresh_def)

lemma put_is_map_by: "put_preset q qs = map_by lp_id (lp_id q) (\<lambda>_. q) qs"
  by (simp add: put_preset_def map_by_def)

lemma slot_preset_mem: "slot_preset k b = Some q \<Longrightarrow> q \<in> set (pb_presets b)"
  by (auto simp: slot_preset_def split: option.splits dest: find_by_Some_key)

lemma slot_preset_put:
  assumes "q' = q\<lparr>lp_chatModelId := i\<rparr>" and "q \<in> set (pb_presets b)"
  shows "slot_preset k (b\<lparr>pb_presets := put_preset q' (pb_presets b), pb_flash := f, pb_busy := g\<rparr>)
    = (case slot_preset k b of None \<Rightarrow> None | Some x \<Rightarrow> Some (if lp_id x = lp_id q then q' else x))"
proof -
  have "find_by lp_id (map_by lp_id (lp_id q') (\<lambda>_. q') xs) j
      = (case find_by lp_id xs j of None \<Rightarrow> None | Some x \<Rightarrow> Some (if lp_id x = lp_id q then q' else x))" for xs j
    unfolding assms(1) by (induction xs) auto
  then show ?thesis by (auto simp: slot_preset_def put_is_map_by split: option.splits)
qed

text \<open>C26: 
  Choosing a model in the bar changes one field of one profile: with a bar that is up to date, the server afterwards has the
  same profiles but for the model of the one in the slot, the bar is up to date again and shows the chosen model there; the
  other slot shows what it showed, unless it is routed to the same profile, in which case it changes too.
\<close>

theorem chosen_model_is_stored_and_shown:
  assumes "bar_fresh s b" and "slot_preset k b = Some q"
    and "apply_model_begin k nxt b = (b1, Some r)"
  shows "\<exists>q' s'. q' = q\<lparr>lp_chatModelId := (if nxt = NONE then [] else nxt)\<rparr> \<and> serve u r s = Inr s' \<and>
    s' = s\<lparr>es_presets := map (\<lambda>x. if lp_id x = lp_id q then q' else x) (es_presets s)\<rparr> \<and>
    bar_fresh s' (apply_model_end k nxt (Some q') b1) \<and>
    slot_value k (apply_model_end k nxt (Some q') b1) = str_or (if nxt = NONE then [] else nxt) NONE \<and>
    (\<forall>k'. slot_value k' (apply_model_end k nxt (Some q') b1)
      = (if map_option lp_id (slot_preset k' b) = Some (lp_id q) then slot_value k (apply_model_end k nxt (Some q') b1)
         else slot_value k' b))"
proof -
  let ?q' = "q\<lparr>lp_chatModelId := (if nxt = NONE then [] else nxt)\<rparr>"
  let ?s' = "s\<lparr>es_presets := map (\<lambda>x. if lp_id x = lp_id q then ?q' else x) (es_presets s)\<rparr>"
  have r: "r = PutPreset ?q'" and b1: "b1 = b\<lparr>pb_busy := Some k\<rparr>"
    using assms(2, 3) by (auto simp: apply_model_begin_def Let_def split: if_splits)
  have mem: "q \<in> set (es_presets s)" using slot_preset_mem [OF assms(2)] assms(1) by (simp add: bar_fresh_def)
  then have sv: "serve u r s = Inr ?s'"
    by (auto simp: r serve_def update_preset_def update_row_def map_by_def find_by_None)
  obtain f where e: "apply_model_end k nxt (Some ?q') b1 = b\<lparr>pb_presets := put_preset ?q' (pb_presets b), pb_flash := f, pb_busy := None\<rparr>"
    by (auto simp: apply_model_end_def b1 Let_def)
  have fresh: "bar_fresh ?s' (apply_model_end k nxt (Some ?q') b1)"
    using assms(1) unfolding e by (simp add: bar_fresh_def put_preset_def get_settings_def)
  have slots: "slot_preset k' (apply_model_end k nxt (Some ?q') b1)
      = (case slot_preset k' b of None \<Rightarrow> None | Some x \<Rightarrow> Some (if lp_id x = lp_id q then ?q' else x))" for k'
    unfolding e by (rule slot_preset_put [OF refl slot_preset_mem [OF assms(2)]])
  have v: "slot_value k (apply_model_end k nxt (Some ?q') b1) = str_or (if nxt = NONE then [] else nxt) NONE"
    using assms(2) by (simp add: slot_value_def slots or_else_def)
  have "slot_value k' (apply_model_end k nxt (Some ?q') b1)
      = (if map_option lp_id (slot_preset k' b) = Some (lp_id q) then slot_value k (apply_model_end k nxt (Some ?q') b1)
         else slot_value k' b)" for k'
    unfolding v by (cases "slot_preset k' b") (auto simp: slot_value_def slots or_else_def)
  then show ?thesis using sv fresh v by blast
qed

text \<open>
  The whole profile is sent as the bar has it: what was changed elsewhere since the bar was loaded is undone.
\<close>

lemma stale_bar_undoes_edits:
  assumes "slot_preset k b = Some q" and "apply_model_begin k nxt b = (b1, Some r)" and "serve u r s = Inr s'"
  shows "find_by lp_id (es_presets s') (lp_id q) = Some (q\<lparr>lp_chatModelId := (if nxt = NONE then [] else nxt)\<rparr>)"
proof -
  have "r = PutPreset (q\<lparr>lp_chatModelId := (if nxt = NONE then [] else nxt)\<rparr>)"
    using assms(1, 2) by (auto simp: apply_model_begin_def Let_def split: if_splits)
  then show ?thesis using assms(3) by (auto simp: serve_def update_preset_def map_sum_Inr update_row_find)
qed

lemma chosen_again_sends_nothing: "slot_preset k b = Some q \<Longrightarrow> apply_model_begin k (str_or (lp_chatModelId q) NONE) b
    = (if lp_chatModelId q = NONE then apply_model_begin k NONE b else (b, None))"
  by (simp add: apply_model_begin_def str_or_def Let_def)

section \<open>Routing\<close>

text \<open>
  The settings are read and then written as a whole. Two slots chosen one after the other, the second before the first was
  written: the page shows both, the server keeps the second only.
\<close>

lemma crossing_routing_changes_lose_one:
  assumes "cur = get_settings s"
    and "s' = update_settings (routed_settings ServerRoute v2 cur) (update_settings (routed_settings ChatRoute v1 cur) s)"
  shows "as_chatPresetId (get_settings s') = as_chatPresetId cur \<and> as_serverPresetId (get_settings s') = v2
    \<and> lg_chatPresetId (set_route ServerRoute v2 (set_route ChatRoute v1 p)) = v1"
  using assms by (simp add: routed_settings_def update_settings_def get_settings_def set_route_def or_else_def)

text \<open>One after the other, each slot is kept.\<close>

lemma routing_in_turn_keeps_both:
  assumes "s1 = update_settings (routed_settings ChatRoute v1 (get_settings s)) s"
    and "s2 = update_settings (routed_settings ServerRoute v2 (get_settings s1)) s1"
  shows "as_chatPresetId (get_settings s2) = v1 \<and> as_serverPresetId (get_settings s2) = v2
    \<and> as_userMemories (get_settings s2) = as_userMemories (get_settings s)"
  using assms by (simp add: routed_settings_def update_settings_def get_settings_def or_else_def)

text \<open>A choice that the server refused stays on the page until it is loaded again.\<close>

lemma refused_route_is_shown: "lg_chatPresetId (updateRouting_end (Some msg) (set_route ChatRoute v p)) = v"
  by (simp add: updateRouting_end_def engine_toast_def set_route_def)

text \<open>
  Deleting a profile leaves the settings as they are: the slots that used it name no profile, and the header of the page
  still counts them as filled.
\<close>

lemma deleted_profile_stays_routed:
  assumes "as_chatPresetId (get_settings s) = i" and "i \<noteq> []"
  shows "let p' = engine_load_end (Inr (delete_preset i s)) p in
    lg_chatPresetId p' = i \<and> routed_name p' ChatRoute = None \<and> 0 < routingFilled p'"
proof -
  have "map_of (map (\<lambda>q. (lp_id q, lp_name q)) (drop_by lp_id i qs)) i = None" for qs by (induction qs) auto
  then show ?thesis using assms
    by (simp add: engine_load_end_def delete_preset_def get_settings_def routed_name_def routing_options_def routingFilled_def
        fetchInferenceLimits_begin_def)
qed

text \<open>A model whose endpoint is gone is in no group of the page and is counted in its header.\<close>

lemma model_without_endpoint_is_in_no_group:
  assumes "lm_connectionId m \<notin> lc_id ` set (lg_endpoints p)" and "modelsByEndpoint (lg_endpoints p) (lg_models p) i = Some ms"
  shows "m \<notin> set ms"
  using assms by (auto simp: modelsByEndpoint_def split: if_splits)

text \<open>A quota is shown between nothing and all.\<close>

lemma quota_row_bounds: "limit_row ld l = Quota n t \<Longrightarrow> 0 \<le> n \<and> n \<le> 100 \<and> t \<noteq> []"
  by (auto simp: limit_row_def Let_def str_or_def split: if_splits)

definition sample_model :: "string \<Rightarrow> llm_model" where
  "sample_model i = \<lparr>lm_id = i, lm_connectionId = ''local'', lm_name = ''llama3'', lm_thinkingMode = [],
     lm_contextWindow = 32000, lm_reserveTokens = 2000, lm_compactTokens = 0\<rparr>"

definition sample_preset :: "string \<Rightarrow> llm_preset" where
  "sample_preset i = \<lparr>lp_id = i, lp_name = ''Fast'', lp_chatModelId = ''m1'', lp_summaryModelId = [], lp_imageModelId = [],
     lp_fallbackModelId = [], lp_temperature = Some ''0.7'', lp_systemPrompt = []\<rparr>"

definition sample_endpoint :: "string \<Rightarrow> llm_connection" where
  "sample_endpoint i = \<lparr>lc_id = i, lc_provider = ''openai'', lc_baseUrl = ''http://h'', lc_apiKey = []\<rparr>"

lemma saving_unchanged_keeps_the_engine_witness:
  "let s = run_steps engine_step [Request [] (PostConnection (sample_endpoint ''local'')), Request ''m1'' (PostModel (sample_model [])),
      Request ''p1'' (PostPreset (sample_preset []))] no_engine in
    (\<forall>c \<in> set (es_connections s). serve ''u'' (submitEndpoint_begin (openEditEndpoint c llm_start)) s = Inr s) \<and>
    (\<forall>m \<in> set (es_models s). serve ''u'' (submitModel_begin (openEditModel m llm_start)) s = Inr s) \<and>
    (\<forall>q \<in> set (es_presets s). serve ''u'' (submitProfile_begin Some (openEditProfile q llm_start)) s = Inr s)"
  by (rule saving_unchanged_keeps_the_engine) (simp add: sample_model_def sample_preset_def safe_model_def readable_def)

lemma smaller_window_keeps_the_old_threshold_witness:
  "let f = \<lparr>mf_name = ''llama3'', mf_connectionId = ''local'', mf_thinkingMode = [], mf_contextWindow = ''90'',
       mf_reserveTokens = ''10'', mf_compactTokens = []\<rparr>;
     m = applyModelDefaults (model_payload ''m1'' f);
     m' = applyModelDefaults (model_payload ''m1'' ((edit_model_form m)\<lparr>mf_contextWindow := ''50''\<rparr>)) in
   EffectiveThreshold m' = EffectiveThreshold m \<and> lm_contextWindow m' < EffectiveThreshold m'"
proof -
  have p: "parseInt10 ''90'' = 90" "parseInt10 ''10'' = 10" "parseInt10 ''50'' = 50"
    by (simp_all add: parseInt10_def parse_int_def trim_start_def starts_with_def or_else_def is_ws_def is_digit_def digits_val_def digit_val_def)
  show ?thesis unfolding Let_def
    by (rule smaller_window_keeps_the_old_threshold [OF _ _ refl refl])
      (simp_all add: p parseInt10_nil safe_model_def model_payload_def applyModelDefaults_def EffectiveThreshold_def)
qed

lemma limits_settle_in_any_order_witness:
  "let xs = [(''a'', Some \<lparr>il_type = ''quota'', il_percentage = Some 40, il_label = ''40 of 100''\<rparr>), (''b'', None)];
     ys = rev xs; start = fetchInferenceLimits_begin [sample_endpoint ''a'', sample_endpoint ''b''] llm_start in
   fold limit_answer ys start = fold limit_answer xs start
    \<and> (\<forall>(i, a) \<in> set xs. endpoint_limit (fold limit_answer ys start) i = limit_row False (or_else a limit_unavailable))"
  unfolding Let_def by (rule limits_settle_in_any_order) (auto simp: sample_endpoint_def)

lemma chosen_model_is_stored_and_shown_witness:
  "let s = \<lparr>es_connections = [], es_models = [], es_presets = [sample_preset ''p1'', sample_preset ''p2''],
         es_settings = Some \<lparr>as_chatPresetId = ''p1'', as_serverPresetId = ''p1'', as_memoryEnabled = True, as_userMemories = []\<rparr>\<rparr>;
       b = bar_refresh (Some (s, True)) bar_start; b1 = fst (apply_model_begin ChatRoute ''m2'' b);
       r = the (snd (apply_model_begin ChatRoute ''m2'' b)); q = sample_preset ''p1'' in
    \<exists>q' s'. q' = q\<lparr>lp_chatModelId := (if ''m2'' = NONE then [] else ''m2'')\<rparr> \<and> serve ''u'' r s = Inr s' \<and>
    s' = s\<lparr>es_presets := map (\<lambda>x. if lp_id x = lp_id q then q' else x) (es_presets s)\<rparr> \<and>
    bar_fresh s' (apply_model_end ChatRoute ''m2'' (Some q') b1) \<and>
    slot_value ChatRoute (apply_model_end ChatRoute ''m2'' (Some q') b1) = str_or (if ''m2'' = NONE then [] else ''m2'') NONE \<and>
    (\<forall>k'. slot_value k' (apply_model_end ChatRoute ''m2'' (Some q') b1)
      = (if map_option lp_id (slot_preset k' b) = Some (lp_id q) then slot_value ChatRoute (apply_model_end ChatRoute ''m2'' (Some q') b1)
         else slot_value k' b))"
  unfolding Let_def
  by (rule chosen_model_is_stored_and_shown)
    (simp_all add: bar_fresh_def sample_preset_def slot_preset_def bar_refresh_def get_settings_def or_else_def apply_model_begin_def NONE_def)

end
