(* ===== verification/HostsPage.thy ===== *)
theory HostsPage
  imports Tables Json "HOL-Library.Multiset"
begin

text \<open>
  The page of hosts (\<open>pages/hosts\<close>): the servers an agent reaches by SSH, with their memories, and the sandboxes; and the
  use cases of the server that store connections (\<open>apps/metadata/use_cases\<close>). The configuration of a connection is a JSON
  object. How \<open>localeCompare\<close> orders names is a parameter.
\<close>

section \<open>Data\<close>

record memory =
  me_id :: string
  me_content :: string
  me_createdAt :: string

record host =
  ho_id :: string
  ho_type :: string
  ho_name :: string
  ho_description :: string
  ho_modelId :: string
  ho_presetId :: string
  ho_config :: "(string \<times> json) list"
  ho_memories :: "memory list"
  ho_profileIds :: "string list"
  ho_memoryEnabled :: bool
  ho_dockerfile :: string

record sandbox_status =
  sb_host :: host
  sb_containerHost :: string
  sb_image :: string
  sb_createdAt :: string
  sb_state :: string

section \<open>The server\<close>

text \<open>What a request for a connection carries.\<close>

record host_payload =
  hp_type :: string
  hp_name :: string
  hp_description :: string
  hp_presetId :: string
  hp_config :: "(string \<times> json) list"
  hp_profileIds :: "string list"
  hp_memoryEnabled :: bool

definition create_connection :: "string \<Rightarrow> host_payload \<Rightarrow> host list \<Rightarrow> store_error + host list" where
  "create_connection uuid d hs = insert_row ho_id
     \<lparr>ho_id = uuid, ho_type = hp_type d, ho_name = hp_name d, ho_description = hp_description d, ho_modelId = [],
      ho_presetId = hp_presetId d, ho_config = hp_config d, ho_memories = [], ho_profileIds = hp_profileIds d,
      ho_memoryEnabled = hp_memoryEnabled d, ho_dockerfile = []\<rparr> hs"

text \<open>The page names no model, so the old one stays; the memories stay; a Dockerfile does not.\<close>

definition update_connection :: "string \<Rightarrow> host_payload \<Rightarrow> host list \<Rightarrow> store_error + host list" where
  "update_connection i d hs =
     (case find_by ho_id hs i of
        None \<Rightarrow> Inl NotFound
      | Some old \<Rightarrow> update_row ho_id
          \<lparr>ho_id = i, ho_type = hp_type d, ho_name = hp_name d, ho_description = hp_description d, ho_modelId = ho_modelId old,
           ho_presetId = hp_presetId d, ho_config = hp_config d, ho_memories = ho_memories old, ho_profileIds = hp_profileIds d,
           ho_memoryEnabled = hp_memoryEnabled d, ho_dockerfile = []\<rparr> hs)"

definition delete_connection :: "string \<Rightarrow> host list \<Rightarrow> host list" where
  "delete_connection i hs = drop_by ho_id i hs"

definition add_memory :: "string \<Rightarrow> string \<Rightarrow> string \<Rightarrow> string \<Rightarrow> host list \<Rightarrow> store_error + host list" where
  "add_memory uuid now i content hs =
     (case find_by ho_id hs i of
        None \<Rightarrow> Inl NotFound
      | Some c \<Rightarrow> update_row ho_id (c\<lparr>ho_memories := ho_memories c @ [\<lparr>me_id = uuid, me_content = content, me_createdAt = now\<rparr>]\<rparr>) hs)"

definition delete_memory :: "string \<Rightarrow> string \<Rightarrow> host list \<Rightarrow> store_error + host list" where
  "delete_memory i m hs =
     (case find_by ho_id hs i of
        None \<Rightarrow> Inl NotFound
      | Some c \<Rightarrow> update_row ho_id (c\<lparr>ho_memories := filter (\<lambda>x. me_id x \<noteq> m) (ho_memories c)\<rparr>) hs)"

section \<open>The form of a server\<close>

record server_form =
  sf_type :: string
  sf_name :: string
  sf_description :: string
  sf_presetId :: string
  sf_profileIds :: "string list"
  sf_memoryEnabled :: bool

record ssh_config =
  ssh_host :: string
  ssh_port :: string
  ssh_username :: string
  ssh_password :: string
  ssh_privateKey :: string

definition EMPTY_SSH :: ssh_config where
  "EMPTY_SSH = \<lparr>ssh_host = [], ssh_port = ''22'', ssh_username = [], ssh_password = [], ssh_privateKey = []\<rparr>"

definition INITIAL_FORM :: server_form where
  "INITIAL_FORM = \<lparr>sf_type = ''ssh'', sf_name = [], sf_description = [], sf_presetId = [], sf_profileIds = [], sf_memoryEnabled = True\<rparr>"

text \<open>\<open>String(v)\<close> of a JSON value.\<close>

fun js_String :: "json \<Rightarrow> string" where
  "js_String JNull = ''null''"
| "js_String (JBool b) = (if b then ''true'' else ''false'')"
| "js_String (JNum t) = t"
| "js_String (JStr s) = s"
| "js_String (JArr vs) = join '','' (map (\<lambda>v. if v = JNull then [] else js_String v) vs)"
| "js_String (JObj _) = ''[object Object]''"

definition config_text :: "(string \<times> json) list \<Rightarrow> string \<Rightarrow> string \<Rightarrow> string" where
  "config_text cfg k d = (case map_of cfg k of None \<Rightarrow> d | Some v \<Rightarrow> if v = JNull then d else js_String v)"

definition parseSshConfig :: "(string \<times> json) list \<Rightarrow> ssh_config" where
  "parseSshConfig cfg = \<lparr>ssh_host = config_text cfg ''host'' [], ssh_port = config_text cfg ''port'' ''22'',
     ssh_username = config_text cfg ''username'' [], ssh_password = config_text cfg ''password'' [],
     ssh_privateKey = config_text cfg ''privateKey'' []\<rparr>"

definition buildConfig :: "ssh_config \<Rightarrow> (string \<times> json) list" where
  "buildConfig s = [(''host'', JStr (ssh_host s)), (''port'', JNum (int_str (int_or (or_else (parse_int (ssh_port s)) 0) 22))),
     (''username'', JStr (ssh_username s))]
     @ (if ssh_password s = [] then [] else [(''password'', JStr (ssh_password s))])
     @ (if ssh_privateKey s = [] then [] else [(''privateKey'', JStr (ssh_privateKey s))])"

definition server_payload :: "server_form \<Rightarrow> ssh_config \<Rightarrow> host_payload" where
  "server_payload f s = \<lparr>hp_type = sf_type f, hp_name = sf_name f, hp_description = sf_description f, hp_presetId = sf_presetId f,
     hp_config = buildConfig s, hp_profileIds = sf_profileIds f, hp_memoryEnabled = sf_memoryEnabled f\<rparr>"

definition edit_server_form :: "host \<Rightarrow> server_form" where
  "edit_server_form c = \<lparr>sf_type = ho_type c, sf_name = ho_name c, sf_description = ho_description c, sf_presetId = ho_presetId c,
     sf_profileIds = ho_profileIds c, sf_memoryEnabled = ho_memoryEnabled c\<rparr>"

definition toggleProfileSelection :: "string \<Rightarrow> server_form \<Rightarrow> server_form" where
  "toggleProfileSelection i f = f\<lparr>sf_profileIds :=
     (if i \<in> set (sf_profileIds f) then filter (\<lambda>x. x \<noteq> i) (sf_profileIds f) else sf_profileIds f @ [i])\<rparr>"

section \<open>The page\<close>

record hosts_page =
  hg_connections :: "host list"
  hg_sandboxes :: "sandbox_status list"
  hg_presets :: "(string \<times> string) list"
  hg_profiles :: "(string \<times> string) list"
  hg_loading :: bool
  hg_expanded :: "string option"
  hg_memoryInput :: string
  hg_modalOpen :: bool
  hg_editing :: "host option"
  hg_form :: server_form
  hg_ssh :: ssh_config
  hg_dropdownOpen :: bool
  hg_deleteServerId :: "string option"
  hg_deleteSandboxName :: "string option"
  hg_busy :: "string option"
  hg_toasts :: "(bool \<times> string) list"

definition hosts_start :: hosts_page where
  "hosts_start = \<lparr>hg_connections = [], hg_sandboxes = [], hg_presets = [], hg_profiles = [], hg_loading = True, hg_expanded = None,
     hg_memoryInput = [], hg_modalOpen = False, hg_editing = None, hg_form = INITIAL_FORM, hg_ssh = EMPTY_SSH, hg_dropdownOpen = False,
     hg_deleteServerId = None, hg_deleteSandboxName = None, hg_busy = None, hg_toasts = []\<rparr>"

definition hosts_toast :: "bool \<Rightarrow> string \<Rightarrow> hosts_page \<Rightarrow> hosts_page" where
  "hosts_toast ok msg p = p\<lparr>hg_toasts := hg_toasts p @ [(ok, msg)]\<rparr>"

text \<open>Sorting by name, stable; \<open>le\<close> is the order of \<open>localeCompare\<close>.\<close>

fun insert_sandbox :: "(string \<Rightarrow> string \<Rightarrow> bool) \<Rightarrow> sandbox_status \<Rightarrow> sandbox_status list \<Rightarrow> sandbox_status list" where
  "insert_sandbox le x [] = [x]"
| "insert_sandbox le x (y # ys) =
     (if le (ho_name (sb_host x)) (ho_name (sb_host y)) then x # y # ys else y # insert_sandbox le x ys)"

definition sort_sandboxes :: "(string \<Rightarrow> string \<Rightarrow> bool) \<Rightarrow> sandbox_status list \<Rightarrow> sandbox_status list" where
  "sort_sandboxes le xs = foldr (insert_sandbox le) xs []"

definition loadAll_begin :: "hosts_page \<Rightarrow> hosts_page" where
  "loadAll_begin p = p\<lparr>hg_loading := True\<rparr>"

definition loadAll_end :: "(string \<Rightarrow> string \<Rightarrow> bool)
    \<Rightarrow> string + (host list \<times> sandbox_status list \<times> (string \<times> string) list \<times> (string \<times> string) list) \<Rightarrow> hosts_page \<Rightarrow> hosts_page" where
  "loadAll_end le answer p =
     (case answer of
        Inl msg \<Rightarrow> (hosts_toast False msg p)\<lparr>hg_loading := False\<rparr>
      | Inr (conns, sbx, ps, gps) \<Rightarrow> p\<lparr>hg_connections := conns, hg_sandboxes := sort_sandboxes le sbx, hg_presets := ps,
          hg_profiles := gps, hg_loading := False\<rparr>)"

definition refreshSandboxes_end :: "(string \<Rightarrow> string \<Rightarrow> bool) \<Rightarrow> sandbox_status list option \<Rightarrow> hosts_page \<Rightarrow> hosts_page" where
  "refreshSandboxes_end le answer p = (case answer of None \<Rightarrow> p | Some sbx \<Rightarrow> p\<lparr>hg_sandboxes := sort_sandboxes le sbx\<rparr>)"

definition remoteConnections :: "hosts_page \<Rightarrow> host list" where
  "remoteConnections p = filter (\<lambda>c. ho_dockerfile c = []) (hg_connections p)"

definition profileName :: "hosts_page \<Rightarrow> string \<Rightarrow> string" where
  "profileName p i = or_else (map_of (hg_profiles p) i) (take 8 i)"

definition presetName :: "hosts_page \<Rightarrow> string \<Rightarrow> string" where
  "presetName p i = or_else (map_of (hg_presets p) i) (if i = [] then [em_dash] else take 8 i @ [ellipsis])"

definition openCreateServer :: "hosts_page \<Rightarrow> hosts_page" where
  "openCreateServer p = p\<lparr>hg_editing := None, hg_form := INITIAL_FORM, hg_ssh := EMPTY_SSH, hg_dropdownOpen := False, hg_modalOpen := True\<rparr>"

definition openEditServer :: "host \<Rightarrow> hosts_page \<Rightarrow> hosts_page" where
  "openEditServer c p = p\<lparr>hg_editing := Some c, hg_form := edit_server_form c, hg_ssh := parseSshConfig (ho_config c),
     hg_dropdownOpen := False, hg_modalOpen := True\<rparr>"

definition server_submittable :: "hosts_page \<Rightarrow> bool" where
  "server_submittable p \<longleftrightarrow> sf_name (hg_form p) \<noteq> []"

text \<open>What is sent: the connection that is edited, none for a new one, and its fields.\<close>

definition submitServer_begin :: "hosts_page \<Rightarrow> string option \<times> host_payload" where
  "submitServer_begin p = (map_option ho_id (hg_editing p), server_payload (hg_form p) (hg_ssh p))"

definition submitServer_end :: "string option \<Rightarrow> hosts_page \<Rightarrow> hosts_page" where
  "submitServer_end failure p =
     (case failure of
        Some msg \<Rightarrow> hosts_toast False msg p
      | None \<Rightarrow> loadAll_begin ((hosts_toast True (if hg_editing p = None then ''Server created'' else ''Server updated'') p)\<lparr>hg_modalOpen := False\<rparr>))"

definition removeServer_end :: "string \<Rightarrow> string option \<Rightarrow> hosts_page \<Rightarrow> hosts_page" where
  "removeServer_end i failure p =
     (case failure of
        Some msg \<Rightarrow> hosts_toast False msg p
      | None \<Rightarrow> loadAll_begin ((hosts_toast True ''Server deleted'' p)\<lparr>hg_deleteServerId := None,
          hg_expanded := (if hg_expanded p = Some i then None else hg_expanded p)\<rparr>))"

definition toggle_server :: "string \<Rightarrow> hosts_page \<Rightarrow> hosts_page" where
  "toggle_server i p = p\<lparr>hg_expanded := (if hg_expanded p = Some i then None else Some i)\<rparr>"

text \<open>What is asked for: the connection and the text.\<close>

definition addMemory_begin :: "string \<Rightarrow> hosts_page \<Rightarrow> (string \<times> string) option" where
  "addMemory_begin c p = (if trim (hg_memoryInput p) = [] then None else Some (c, trim (hg_memoryInput p)))"

definition addMemory_end :: "string option \<Rightarrow> hosts_page \<Rightarrow> hosts_page" where
  "addMemory_end failure p =
     (case failure of
        Some msg \<Rightarrow> hosts_toast False msg p
      | None \<Rightarrow> loadAll_begin ((hosts_toast True ''Memory added'' p)\<lparr>hg_memoryInput := []\<rparr>))"

definition deleteMemory_end :: "string option \<Rightarrow> hosts_page \<Rightarrow> hosts_page" where
  "deleteMemory_end failure p =
     (case failure of
        Some msg \<Rightarrow> hosts_toast False msg p
      | None \<Rightarrow> loadAll_begin (hosts_toast True ''Memory deleted'' p))"

section \<open>Sandboxes\<close>

definition sandboxName :: "string \<Rightarrow> string" where
  "sandboxName n = (if starts_with ''sb-'' n then drop 3 n else n)"

definition sandbox_begin :: "string \<Rightarrow> hosts_page \<Rightarrow> hosts_page" where
  "sandbox_begin n p = p\<lparr>hg_busy := Some n\<rparr>"

text \<open>Starting, stopping and rebuilding end alike; the refresh that follows is \<open>refreshSandboxes_end\<close>.\<close>

definition sandbox_end :: "bool \<times> string \<Rightarrow> hosts_page \<Rightarrow> hosts_page" where
  "sandbox_end outcome p = (hosts_toast (fst outcome) (snd outcome) p)\<lparr>hg_busy := None\<rparr>"

definition removeSandbox_end :: "bool \<times> string \<Rightarrow> hosts_page \<Rightarrow> hosts_page" where
  "removeSandbox_end outcome p = loadAll_begin ((sandbox_end outcome p)\<lparr>hg_deleteSandboxName := None\<rparr>)"

text \<open>The buttons of a row: whether it shows Stop, and whether Start or Stop, and the other buttons, are disabled.\<close>

definition sandbox_buttons :: "hosts_page \<Rightarrow> sandbox_status \<Rightarrow> bool \<times> bool \<times> bool" where
  "sandbox_buttons p x =
     (let busy = (hg_busy p = Some (sandboxName (ho_name (sb_host x)))); running = (sb_state x = ''running'') in
      (running, busy \<or> \<not> running \<and> sb_state x = ''not-built'', busy))"

text \<open>\<open>relativeTime\<close>; \<open>diff\<close> is the age in milliseconds, \<open>None\<close> when the text is no time.\<close>

definition relativeTime :: "string \<Rightarrow> int option \<Rightarrow> string" where
  "relativeTime stamp diff =
     (if stamp = [] \<or> starts_with ''0001'' stamp then [em_dash]
      else case diff of
        None \<Rightarrow> [em_dash]
      | Some d \<Rightarrow>
          let sec = max 0 (d div 1000); mins = sec div 60; hrs = mins div 60 in
          if sec < 60 then int_str sec @ ''s ago''
          else if mins < 60 then int_str mins @ ''m ago''
          else if hrs < 48 then int_str hrs @ ''h ago''
          else int_str (hrs div 24) @ ''d ago'')"

section \<open>The configuration a form builds\<close>

lemma parse_int_neg: "0 < n \<Longrightarrow> n < 2 ^ 53 \<Longrightarrow> parse_int (int_str (- int n)) = Some (- int n)"
proof -
  assume n: "0 < n" "n < 2 ^ 53"
  obtain c t where s: "nat_str n = c # t" "is_digit c" using nat_str_starts by blast
  have ds: "takeWhile is_digit (c # t) = c # t"
    using all_digits_nat_str [of n] s(1) by (simp add: all_digits_def takeWhile_eq_all_conv list_all_iff)
  have v: "js_round (digits_val (c # t)) = n" using n digits_val_nat_str [of n] s(1) by simp
  have "int_str (- int n) = CHR ''-'' # c # t" using n(1) s(1) by (simp add: int_str_def)
  moreover have "\<not> is_ws CHR ''-''" by (simp add: is_ws_def)
  ultimately show ?thesis by (simp add: parse_int_def trim_start_id Let_def ds v del: takeWhile.simps)
qed

lemma parse_int_back: "\<bar>i\<bar> < 2 ^ 53 \<Longrightarrow> parse_int (int_str i) = Some i"
proof (cases "0 \<le> i")
  case False
  assume "\<bar>i\<bar> < 2 ^ 53"
  then show ?thesis using parse_int_neg [of "nat (- i)"] False by (simp add: nat_less_iff)
qed (simp add: parse_int_str)

definition port_number :: "ssh_config \<Rightarrow> int" where
  "port_number s = int_or (or_else (parse_int (ssh_port s)) 0) 22"

definition built :: "(string \<times> json) list \<Rightarrow> bool" where
  "built cfg \<longleftrightarrow> buildConfig (parseSshConfig cfg) = cfg"

lemma port_number_nz: "port_number s \<noteq> 0"
  by (simp add: port_number_def int_or_def)

lemma build_is_built: "\<bar>port_number s\<bar> < 2 ^ 53 \<Longrightarrow> built (buildConfig s)"
proof -
  assume p: "\<bar>port_number s\<bar> < 2 ^ 53"
  have "int_or (or_else (parse_int (int_str (port_number s))) 0) 22 = port_number s"
    using parse_int_back [OF p] port_number_nz [of s] by (simp add: or_else_def int_or_def)
  then show ?thesis
    by (auto simp: built_def buildConfig_def parseSshConfig_def config_text_def port_number_def)
qed

section \<open>The servers over time\<close>

datatype host_event =
    SaveHost string "string option" server_form ssh_config
  | RemoveHost string
  | AddMemory string string string string
  | DeleteMemory string string

definition save_host :: "string \<Rightarrow> string option \<times> host_payload \<Rightarrow> host list \<Rightarrow> store_error + host list" where
  "save_host uuid r hs = (case fst r of None \<Rightarrow> create_connection uuid (snd r) hs | Some i \<Rightarrow> update_connection i (snd r) hs)"

definition or_same :: "'a \<Rightarrow> store_error + 'a \<Rightarrow> 'a" where
  "or_same s r = (case r of Inl _ \<Rightarrow> s | Inr t \<Rightarrow> t)"

fun hosts_step :: "host_event \<Rightarrow> host list \<Rightarrow> host list" where
  "hosts_step (SaveHost uuid i f s) hs = or_same hs (save_host uuid (i, server_payload f s) hs)"
| "hosts_step (RemoveHost i) hs = delete_connection i hs"
| "hosts_step (AddMemory uuid now i c) hs = or_same hs (add_memory uuid now i c hs)"
| "hosts_step (DeleteMemory i m) hs = or_same hs (delete_memory i m hs)"

fun hosts_enabled :: "host_event \<Rightarrow> host list \<Rightarrow> bool" where
  "hosts_enabled (SaveHost uuid i f s) hs = (\<bar>port_number s\<bar> < 2 ^ 53)"
| "hosts_enabled _ hs = True"

definition page_host :: "host \<Rightarrow> bool" where
  "page_host h \<longleftrightarrow> built (ho_config h) \<and> ho_dockerfile h = []"

definition hosts_inv :: "host list \<Rightarrow> bool" where
  "hosts_inv hs \<longleftrightarrow> table_ok ho_id page_host hs"

lemma table_mem: "table_ok key ok xs \<Longrightarrow> find_by key xs k = Some x \<Longrightarrow> ok x \<and> key x = k"
  using find_by_Some_key [of key xs k x] by (auto simp: table_ok_def list_all_iff)

lemma or_same_simps [simp]: "or_same s (Inl e) = s" "or_same s (Inr t) = t"
  by (simp_all add: or_same_def)

lemma or_same_update:
  assumes "table_ok key ok xs" and "ok v"
  shows "table_ok key ok (or_same xs (update_row key v xs))"
  by (cases "update_row key v xs") (use assms update_row_ok [OF assms] in auto)

lemma or_same_insert:
  assumes "table_ok key ok xs" and "ok v"
  shows "table_ok key ok (or_same xs (insert_row key v xs))"
  by (cases "insert_row key v xs") (use assms insert_row_ok [OF assms] in auto)

lemma edited_memories_inv:
  assumes "hosts_inv hs"
  shows "hosts_inv (or_same hs (case find_by ho_id hs i of None \<Rightarrow> Inl NotFound | Some c \<Rightarrow> update_row ho_id (c\<lparr>ho_memories := f c\<rparr>) hs))"
proof (cases "find_by ho_id hs i")
  case (Some c)
  then have "page_host (c\<lparr>ho_memories := f c\<rparr>)" using table_mem [OF assms [unfolded hosts_inv_def] Some] by (simp add: page_host_def)
  then show ?thesis using Some assms by (simp add: hosts_inv_def or_same_update)
qed (use assms in simp)

lemma saved_host_inv:
  assumes "hosts_inv hs" and "built (hp_config d)"
  shows "hosts_inv (or_same hs (save_host uuid (i, d) hs))"
proof (cases i)
  case None
  show ?thesis using assms by (simp add: None save_host_def create_connection_def hosts_inv_def or_same_insert page_host_def)
next
  case (Some j)
  show ?thesis
  proof (cases "find_by ho_id hs j")
    case (Some old)
    then show ?thesis using \<open>i = Some j\<close> assms
      by (simp add: save_host_def update_connection_def hosts_inv_def or_same_update page_host_def)
  qed (use Some assms in \<open>simp add: save_host_def update_connection_def\<close>)
qed

lemma hosts_step_inv: "hosts_inv hs \<Longrightarrow> hosts_enabled e hs \<Longrightarrow> hosts_inv (hosts_step e hs)"
proof (induction e hs rule: hosts_step.induct)
  case (1 uuid i f s hs)
  then show ?case by (simp add: saved_host_inv server_payload_def build_is_built)
next
  case (2 i hs)
  then show ?case by (simp add: hosts_inv_def delete_connection_def drop_row_ok)
qed (simp_all add: add_memory_def delete_memory_def edited_memories_inv)

interpretation hosts_runs: guarded_steps hosts_step hosts_inv hosts_enabled
  by unfold_locales (rule hosts_step_inv)

text \<open>C25: 
  Servers that were made and edited on the page, with memories added and deleted in between: opening one for editing and
  saving it at once changes nothing on the server, its memories, its model and the optional secrets of its configuration
  included.
\<close>

theorem saving_unchanged_keeps_the_servers:
  assumes "admissible hosts_enabled hosts_step es []" and "h \<in> set (run_steps hosts_step es [])"
  shows "save_host uuid (submitServer_begin (openEditServer h p)) (run_steps hosts_step es []) = Inr (run_steps hosts_step es [])"
proof -
  let ?hs = "run_steps hosts_step es []"
  have inv: "hosts_inv ?hs" by (rule hosts_runs.run_inv [OF _ assms(1)]) (simp add: hosts_inv_def table_ok_def)
  then have ok: "built (ho_config h)" "ho_dockerfile h = []" and d: "distinct (map ho_id ?hs)"
    using assms(2) by (auto simp: hosts_inv_def page_host_def table_ok_def list_all_iff)
  have f: "find_by ho_id ?hs (ho_id h) = Some h" by (rule find_by_mem [OF d assms(2)])
  have "update_row ho_id h ?hs = Inr ?hs"
    by (rule update_row_same [of _ "\<lambda>_. True"]) (use d assms(2) in \<open>auto simp: table_ok_def list_all_iff\<close>)
  moreover have "\<lparr>ho_id = ho_id h, ho_type = ho_type h, ho_name = ho_name h, ho_description = ho_description h,
      ho_modelId = ho_modelId h, ho_presetId = ho_presetId h, ho_config = ho_config h, ho_memories = ho_memories h,
      ho_profileIds = ho_profileIds h, ho_memoryEnabled = ho_memoryEnabled h, ho_dockerfile = []\<rparr> = h"
    using ok(2) by (cases h) simp
  ultimately show ?thesis using f ok(1)
    by (simp add: save_host_def submitServer_begin_def openEditServer_def server_payload_def edit_server_form_def
        update_connection_def built_def)
qed

lemma saving_unchanged_keeps_the_servers_witness:
  "let es = [SaveHost ''h1'' None (INITIAL_FORM\<lparr>sf_name := ''box''\<rparr>) (EMPTY_SSH\<lparr>ssh_host := ''10.0.0.1'', ssh_password := ''x''\<rparr>),
       AddMemory ''m1'' ''2025'' ''h1'' ''logs are in /var/log''];
     hs = run_steps hosts_step es [] in
   save_host ''u'' (submitServer_begin (openEditServer (hd hs) hosts_start)) hs = Inr hs"
proof -
  have p: "parse_int ''22'' = Some 22"
    by (simp add: parse_int_def trim_start_def starts_with_def is_ws_def is_digit_def digits_val_def digit_val_def)
  let ?es = "[SaveHost ''h1'' None (INITIAL_FORM\<lparr>sf_name := ''box''\<rparr>) (EMPTY_SSH\<lparr>ssh_host := ''10.0.0.1'', ssh_password := ''x''\<rparr>),
       AddMemory ''m1'' ''2025'' ''h1'' ''logs are in /var/log'']"
  have "hd (run_steps hosts_step ?es []) \<in> set (run_steps hosts_step ?es [])"
    by (rule hd_in_set) (simp add: save_host_def create_connection_def insert_row_def add_memory_def update_row_def)
  then show ?thesis unfolding Let_def
    by (intro saving_unchanged_keeps_the_servers) (simp_all add: port_number_def EMPTY_SSH_def p or_else_def int_or_def)
qed

text \<open>A server that is edited keeps its memories and its model, whatever is typed.\<close>

lemma editing_keeps_memories:
  assumes "update_connection i d hs = Inr hs'" and "find_by ho_id hs i = Some old"
  shows "\<exists>new. find_by ho_id hs' i = Some new \<and> ho_memories new = ho_memories old \<and> ho_modelId new = ho_modelId old"
  using assms by (auto simp: update_connection_def update_row_find)

text \<open>Other settings that a configuration may have are lost.\<close>

lemma editing_drops_other_settings:
  "fst ` set (buildConfig s) \<subseteq> {''host'', ''port'', ''username'', ''password'', ''privateKey''}"
  by (auto simp: buildConfig_def)

text \<open>A port that is no number, and port 0, is stored as 22.\<close>

lemma unreadable_port_is_22: "parse_int (ssh_port s) = None \<or> parse_int (ssh_port s) = Some 0 \<Longrightarrow> port_number s = 22"
  by (auto simp: port_number_def or_else_def int_or_def)

text \<open>Deleting the memory that was just added leaves a server as it was, for a fresh identifier.\<close>

lemma added_memory_is_deleted:
  assumes "add_memory uuid now i c hs = Inr hs1" and "delete_memory i uuid hs1 = Inr hs2"
    and "find_by ho_id hs i = Some h" and "uuid \<notin> me_id ` set (ho_memories h)"
  shows "find_by ho_id hs2 j = find_by ho_id hs j"
proof -
  have k: "ho_id h = i" using find_by_Some_key [OF assms(3)] by simp
  have f: "filter (\<lambda>x. me_id x \<noteq> uuid) (ho_memories h) = ho_memories h" using assms(4) by (auto simp: filter_id_conv)
  have u: "update_row ho_id (h\<lparr>ho_memories := ho_memories h @ [\<lparr>me_id = uuid, me_content = c, me_createdAt = now\<rparr>]\<rparr>) hs = Inr hs1"
    using assms(1, 3) by (simp add: add_memory_def)
  have "find_by ho_id hs1 i = Some (h\<lparr>ho_memories := ho_memories h @ [\<lparr>me_id = uuid, me_content = c, me_createdAt = now\<rparr>]\<rparr>)"
    using update_row_find [OF u] k by simp
  then have "update_row ho_id (h\<lparr>ho_memories := ho_memories h\<rparr>) hs1 = Inr hs2"
    using assms(2) f by (simp add: delete_memory_def)
  then have v: "update_row ho_id h hs1 = Inr hs2" by (cases h) simp
  then show ?thesis using update_row_find [OF v] update_row_find [OF u] k assms(3) by simp
qed

text \<open>The text of a new memory is one for the whole page: what was typed for one server is sent for the one opened next.\<close>

lemma draft_memory_follows_to_another_server:
  assumes "trim (hg_memoryInput p) \<noteq> []"
  shows "addMemory_begin b (toggle_server b p) = Some (b, trim (hg_memoryInput p))"
  using assms by (simp add: addMemory_begin_def toggle_server_def)

text \<open>The end of one action makes the buttons of another sandbox, whose action still runs, available.\<close>

lemma end_of_one_frees_the_other:
  assumes "sb_state x = ''running''"
  shows "sandbox_buttons (sandbox_begin (sandboxName (ho_name (sb_host x))) (sandbox_begin a p)) x = (True, True, True)"
    and "sandbox_buttons (sandbox_end r (sandbox_begin (sandboxName (ho_name (sb_host x))) (sandbox_begin a p))) x = (True, False, False)"
  using assms by (simp_all add: sandbox_buttons_def sandbox_begin_def sandbox_end_def hosts_toast_def Let_def)

text \<open>Sandboxes are shown in the order of their names, all of them, when the comparison is a total order.\<close>

lemma insert_sandbox_mset: "mset (insert_sandbox le x ys) = add_mset x (mset ys)"
  by (induction ys) auto

lemma sort_sandboxes_mset: "mset (sort_sandboxes le xs) = mset xs"
  by (induction xs) (auto simp: sort_sandboxes_def insert_sandbox_mset)

lemma insert_sandbox_sorted:
  assumes "\<And>a b. le a b \<or> le b a" and "\<And>a b c. le a b \<Longrightarrow> le b c \<Longrightarrow> le a c"
    and "sorted_wrt (\<lambda>x y. le (ho_name (sb_host x)) (ho_name (sb_host y))) ys"
  shows "sorted_wrt (\<lambda>x y. le (ho_name (sb_host x)) (ho_name (sb_host y))) (insert_sandbox le x ys)"
  using assms(3)
proof (induction ys)
  case (Cons y ys)
  have "set (insert_sandbox le x ys) = insert x (set ys)"
    by (metis insert_sandbox_mset set_mset_add_mset_insert set_mset_mset)
  then show ?case using Cons assms(1, 2) by auto
qed simp

lemma sort_sandboxes_sorted:
  assumes "\<And>a b. le a b \<or> le b a" and "\<And>a b c. le a b \<Longrightarrow> le b c \<Longrightarrow> le a c"
  shows "sorted_wrt (\<lambda>x y. le (ho_name (sb_host x)) (ho_name (sb_host y))) (sort_sandboxes le xs)"
  by (induction xs) (auto simp: sort_sandboxes_def intro: insert_sandbox_sorted [OF assms])

section \<open>The rows and the selector of profiles\<close>

definition selector_text :: "hosts_page \<Rightarrow> string" where
  "selector_text p = (if sf_profileIds (hg_form p) = [] then ''No profiles (unrestricted)''
     else join '', '' (map (profileName p) (sf_profileIds (hg_form p))))"

definition row_profiles :: "hosts_page \<Rightarrow> host \<Rightarrow> string" where
  "row_profiles p c = (if ho_profileIds c = [] then ''None (unrestricted)'' else join '', '' (map (profileName p) (ho_profileIds c)))"

definition row_preset :: "hosts_page \<Rightarrow> host \<Rightarrow> string" where
  "row_preset p c = (if ho_presetId c = [] then ''Inherit (global)'' else presetName p (ho_presetId c))"

text \<open>\<open>username@host\<close>, when the configuration has a host that is not the empty text, 0, false or null.\<close>

definition falsy :: "json \<Rightarrow> bool" where
  "falsy v \<longleftrightarrow> v \<in> {JNull, JBool False, JStr [], JNum ''0''}"

definition row_address :: "host \<Rightarrow> string option" where
  "row_address c = (case map_of (ho_config c) ''host'' of
      None \<Rightarrow> None
    | Some h \<Rightarrow> if falsy h then None
        else Some ((case map_of (ho_config c) ''username'' of None \<Rightarrow> [] | Some u \<Rightarrow> if falsy u then [] else js_String u)
          @ ''@'' @ js_String h))"

lemma shown_address: "ssh_host s \<noteq> [] \<Longrightarrow> row_address (h\<lparr>ho_config := buildConfig s\<rparr>) = Some (ssh_username s @ ''@'' @ ssh_host s)"
  by (simp add: row_address_def buildConfig_def falsy_def)

end
