(* ===== verification/TelegramLink.thy ===== *)
theory TelegramLink
  imports WizardModel "HOL-Library.Sublist"
begin

text \<open>
  Linking a Telegram account in the setup wizard: the step of the plain wizard (\<open>pages/wizard/steps/TelegramStep.tsx\<close>), the
  one of the desktop's wizard (\<open>pages/chat-winxp/wizard-steps/TelegramStep.tsx\<close>), and the server between them and Telegram
  (\<open>apps/telegram/use_cases/wizard.go\<close>). What Telegram answers is an argument. The prelude's white space stands for the
  server's \<open>TrimSpace\<close>; times are seconds.
\<close>

section \<open>The server\<close>

record wizard_bot =
  wb_id :: int
  wb_username :: string
  wb_name :: string
  wb_link :: string
  wb_code :: string
  wb_deepLink :: string

record bot_identity =
  bi_id :: int
  bi_username :: string
  bi_name :: string

record link_state =
  ls_bot :: bot_identity
  ls_code :: string
  ls_offset :: int
  ls_linked :: "telegram_user option"
  ls_updatedAt :: int

type_synonym link_server = "string \<Rightarrow> link_state option"

record wiz_message =
  ms_id :: int
  ms_username :: string
  ms_firstName :: string
  ms_lastName :: string
  ms_text :: string

record wiz_update =
  wu_id :: int
  wu_message :: "wiz_message option"

definition wizardStateTTL :: int where "wizardStateTTL = 30 * 60"
definition wizardCodeLen :: nat where "wizardCodeLen = 6"

definition gcLocked :: "int \<Rightarrow> link_server \<Rightarrow> link_server" where
  "gcLocked now st t = (case st t of None \<Rightarrow> None | Some s \<Rightarrow> if wizardStateTTL < now - ls_updatedAt s then None else Some s)"

text \<open>A code is digits, so its escape in an address is the code.\<close>

definition buildWizardBot :: "bot_identity \<Rightarrow> string \<Rightarrow> wizard_bot" where
  "buildWizardBot b code = \<lparr>wb_id = bi_id b, wb_username = bi_username b, wb_name = bi_name b,
     wb_link = (if bi_username b = [] then [] else ''https://t.me/'' @ bi_username b), wb_code = code,
     wb_deepLink = (if bi_username b = [] then [] else ''https://t.me/'' @ bi_username b @ ''?start='' @ code)\<rparr>"

text \<open>\<open>Verify\<close>: \<open>me\<close> is what Telegram says of the bot, \<open>code\<close> the random code for a state that is new.\<close>

definition Verify :: "int \<Rightarrow> string + bot_identity \<Rightarrow> string \<Rightarrow> string \<Rightarrow> link_server \<Rightarrow> (string + wizard_bot) \<times> link_server" where
  "Verify now me code token st =
     (let t = trim token in
      if t = [] then (Inl ''token is required'', st)
      else case me of
        Inl msg \<Rightarrow> (Inl msg, st)
      | Inr me_ok \<Rightarrow>
          let st' = gcLocked now st;
              s = (case st' t of
                     Some s \<Rightarrow> if ls_code s = [] then \<lparr>ls_bot = me_ok, ls_code = code, ls_offset = 0, ls_linked = None, ls_updatedAt = now\<rparr>
                       else s\<lparr>ls_bot := me_ok, ls_updatedAt := now\<rparr>
                   | None \<Rightarrow> \<lparr>ls_bot = me_ok, ls_code = code, ls_offset = 0, ls_linked = None, ls_updatedAt = now\<rparr>)
          in (Inr (buildWizardBot me_ok (ls_code s)), st'(t \<mapsto> s)))"

definition messageMatchesCode :: "string \<Rightarrow> string \<Rightarrow> bool" where
  "messageMatchesCode body code =
     (let clean = trim body in
      if clean = [] \<or> code = [] then False
      else if sublist code clean then True
      else if starts_with ''/start'' clean then
        (let rest = trim (drop 6 clean); after = dropWhile (\<lambda>c. c \<noteq> CHR '' '') rest in
         (if after \<noteq> [] then trim (drop 1 after) else if starts_with ''@'' rest then [] else rest) = code)
      else False)"

text \<open>
  \<open>Status\<close> asks Telegram without holding its lock: what it does before, which may already be the answer, and what it makes
  of the updates in the state it then finds. \<open>Inr (Inl a)\<close> is an answer, \<open>Inr (Inr (t, offset, code))\<close> a question.
\<close>

definition Status_begin :: "int \<Rightarrow> string \<Rightarrow> link_server
    \<Rightarrow> (string + (telegram_user option + string \<times> int \<times> string)) \<times> link_server" where
  "Status_begin now token st =
     (let t = trim token in
      if t = [] then (Inr (Inl None), st)
      else let st' = gcLocked now st in
        case st' t of
          None \<Rightarrow> (Inl ''verify the token first'', st')
        | Some s \<Rightarrow> (case ls_linked s of
              Some u \<Rightarrow> (Inr (Inl (Some u)), st')
            | None \<Rightarrow> (Inr (Inr (t, ls_offset s, ls_code s)), st')))"

definition wizard_user :: "wiz_message \<Rightarrow> telegram_user" where
  "wizard_user m = \<lparr>tu_id = ms_id m, tu_username = (if ms_username m = [] then None else Some (ms_username m)),
     tu_name = trim (ms_firstName m @ '' '' @ ms_lastName m)\<rparr>"

text \<open>The updates in turn; the first message with the code ends the loop.\<close>

fun read_updates :: "string \<Rightarrow> wiz_update list \<Rightarrow> int \<Rightarrow> int \<times> telegram_user option" where
  "read_updates code [] ofs = (ofs, None)"
| "read_updates code (u # us) ofs =
     (let ofs' = (if ofs \<le> wu_id u then wu_id u + 1 else ofs) in
      case wu_message u of
        None \<Rightarrow> read_updates code us ofs'
      | Some m \<Rightarrow> if messageMatchesCode (ms_text m) code then (ofs', Some (wizard_user m)) else read_updates code us ofs')"

definition Status_end :: "int \<Rightarrow> string \<Rightarrow> string \<Rightarrow> string + wiz_update list \<Rightarrow> link_server \<Rightarrow> (string + telegram_user option) \<times> link_server" where
  "Status_end now t code answer st =
     (case answer of
        Inl msg \<Rightarrow> (Inl msg, st)
      | Inr updates \<Rightarrow> (case st t of
            None \<Rightarrow> (Inr None, st)
          | Some s \<Rightarrow>
              (case read_updates code updates (ls_offset s) of
                 (ofs, Some u) \<Rightarrow> (Inr (Some u), st(t \<mapsto> s\<lparr>ls_offset := ofs, ls_linked := Some u, ls_updatedAt := now\<rparr>))
               | (ofs, None) \<Rightarrow> (Inr None, st(t \<mapsto> s\<lparr>ls_offset := ofs, ls_updatedAt := now\<rparr>)))))"

text \<open>The whole call, when no other one comes between; \<open>tg\<close> is what Telegram answers for an offset.\<close>

definition Status :: "int \<Rightarrow> (int \<Rightarrow> string + wiz_update list) \<Rightarrow> string \<Rightarrow> link_server \<Rightarrow> (string + telegram_user option) \<times> link_server" where
  "Status now tg token st =
     (case Status_begin now token st of
        (Inl msg, st') \<Rightarrow> (Inl msg, st')
      | (Inr (Inl a), st') \<Rightarrow> (Inr a, st')
      | (Inr (Inr (t, ofs, code)), st') \<Rightarrow> Status_end now t code (tg ofs) st')"

section \<open>The step of the wizard\<close>

text \<open>\<open>ts_token\<close>, \<open>ts_linked\<close> and \<open>ts_skip\<close> belong to the wizard's form; \<open>ts_ignored\<close> to the desktop's step only.\<close>

record telegram_step =
  ts_token :: string
  ts_linked :: "telegram_user option"
  ts_skip :: bool
  ts_bot :: "wizard_bot option"
  ts_verifying :: bool
  ts_verifyError :: string
  ts_statusError :: string
  ts_waiting :: bool
  ts_ignored :: "int option"

definition step_open :: "string \<Rightarrow> telegram_user option \<Rightarrow> bool \<Rightarrow> telegram_step" where
  "step_open token linked skip = \<lparr>ts_token = token, ts_linked = linked, ts_skip = skip, ts_bot = None, ts_verifying = False,
     ts_verifyError = [], ts_statusError = [], ts_waiting = False, ts_ignored = None\<rparr>"

definition step_reset :: "telegram_step \<Rightarrow> telegram_step" where
  "step_reset p = p\<lparr>ts_bot := None, ts_verifyError := [], ts_statusError := [], ts_waiting := False, ts_linked := None\<rparr>"

definition verify_begin :: "string \<Rightarrow> telegram_step \<Rightarrow> telegram_step \<times> string option" where
  "verify_begin value p =
     (if trim value = [] then (step_reset p, None)
      else (p\<lparr>ts_verifying := True, ts_verifyError := [], ts_statusError := []\<rparr>, Some (trim value)))"

definition verify_end :: "string + wizard_bot \<Rightarrow> telegram_step \<Rightarrow> telegram_step" where
  "verify_end answer p =
     (case answer of
        Inr b \<Rightarrow> p\<lparr>ts_bot := Some b, ts_verifying := False\<rparr>
      | Inl msg \<Rightarrow> p\<lparr>ts_bot := None, ts_verifyError := msg, ts_verifying := False\<rparr>)"

text \<open>Whether the effect polls; it runs when one of the values it looks at changes.\<close>

definition step_polls :: "telegram_step \<Rightarrow> bool" where
  "step_polls p \<longleftrightarrow> \<not> (ts_skip p \<or> ts_bot p = None \<or> trim (ts_token p) = [] \<or> ts_linked p \<noteq> None)"

definition step_effect :: "telegram_step \<Rightarrow> telegram_step" where
  "step_effect p = (if step_polls p then p\<lparr>ts_waiting := True\<rparr> else p\<lparr>ts_waiting := False, ts_statusError := []\<rparr>)"

definition tick_end :: "string + telegram_user option \<Rightarrow> telegram_step \<Rightarrow> telegram_step" where
  "tick_end answer p =
     (case answer of
        Inl msg \<Rightarrow> p\<lparr>ts_statusError := msg\<rparr>
      | Inr None \<Rightarrow> p\<lparr>ts_statusError := []\<rparr>
      | Inr (Some u) \<Rightarrow> p\<lparr>ts_statusError := [], ts_linked := Some u, ts_waiting := False\<rparr>)"

definition change_token :: "string \<Rightarrow> telegram_step \<Rightarrow> telegram_step" where
  "change_token v p = step_reset (p\<lparr>ts_token := v\<rparr>)"

definition blur_verify :: "string \<Rightarrow> telegram_step \<Rightarrow> telegram_step \<times> string option" where
  "blur_verify value p = (if trim value \<noteq> [] \<and> ts_bot p = None \<and> \<not> ts_skip p then verify_begin value p else (p, None))"

definition plain_relink :: "telegram_step \<Rightarrow> telegram_step" where
  "plain_relink p = p\<lparr>ts_linked := None\<rparr>"

definition canVerify :: "telegram_step \<Rightarrow> bool" where
  "canVerify p \<longleftrightarrow> trim (ts_token p) \<noteq> [] \<and> \<not> ts_verifying p \<and> \<not> ts_skip p"

text \<open>The desktop's step forgets and honours an account that is to be ignored.\<close>

definition xp_step_reset :: "telegram_step \<Rightarrow> telegram_step" where
  "xp_step_reset p = (step_reset p)\<lparr>ts_ignored := None\<rparr>"

definition xp_relink :: "telegram_step \<Rightarrow> telegram_step" where
  "xp_relink p = p\<lparr>ts_ignored := map_option tu_id (ts_linked p), ts_linked := None\<rparr>"

definition xp_tick_answer :: "string + telegram_user option \<Rightarrow> telegram_step \<Rightarrow> telegram_step" where
  "xp_tick_answer answer p =
     (case answer of
        Inr (Some u) \<Rightarrow> if ts_ignored p = Some (tu_id u) then p\<lparr>ts_statusError := []\<rparr>
          else p\<lparr>ts_statusError := [], ts_ignored := None, ts_linked := Some u, ts_waiting := False\<rparr>
      | _ \<Rightarrow> tick_end answer p)"

definition xp_change_token :: "string \<Rightarrow> telegram_step \<Rightarrow> telegram_step" where
  "xp_change_token v p = xp_step_reset (p\<lparr>ts_token := v\<rparr>)"

section \<open>What the step shows\<close>

definition verify_label :: "telegram_step \<Rightarrow> string" where
  "verify_label p = (if ts_verifying p then ''Checking'' else if ts_bot p \<noteq> None then ''Re-check'' else ''Verify'')"

datatype link_view = ShowCode wizard_bot bool | ShowLinked string string | ShowNothing

definition linked_title :: "telegram_user \<Rightarrow> string" where
  "linked_title u =
     (let friendly = str_or (trim (tu_name u)) (trim (or_else (tu_username u) [])) in
      if friendly = [] then ''Linked to your Telegram'' else ''Linked as '' @ friendly)"

definition linked_id :: "telegram_user \<Rightarrow> string" where
  "linked_id u = (if or_else (tu_username u) [] = [] then [] else ''@'' @ or_else (tu_username u) [] @ [CHR '' '', middle_dot, CHR '' ''])
     @ ''id '' @ int_str (tu_id u)"

definition link_shown :: "telegram_step \<Rightarrow> link_view" where
  "link_shown p =
     (case ts_bot p of
        None \<Rightarrow> ShowNothing
      | Some b \<Rightarrow> if ts_skip p then ShowNothing
          else case ts_linked p of None \<Rightarrow> ShowCode b (ts_waiting p) | Some u \<Rightarrow> ShowLinked (linked_title u) (linked_id u))"

section \<open>The server over time\<close>

text \<open>
  The server, the updates Telegram has for each bot, the codes that were given out with the bot they are for, the questions to
  Telegram that are open, and the accounts the server answered with.
\<close>

record link_world =
  kw_server :: link_server
  kw_log :: "string \<Rightarrow> wiz_update list"
  kw_issued :: "(string \<times> string) list"
  kw_pending :: "(string \<times> int \<times> string) list"
  kw_answers :: "(string \<times> telegram_user) list"

datatype link_event =
    Arrives string wiz_update
  | VerifyCalled int "string + bot_identity" string string
  | StatusCalled int string
  | StatusAnswered int string int string bool

definition no_links :: link_world where
  "no_links = \<lparr>kw_server = (\<lambda>_. None), kw_log = (\<lambda>_. []), kw_issued = [], kw_pending = [], kw_answers = []\<rparr>"

fun link_step :: "link_event \<Rightarrow> link_world \<Rightarrow> link_world" where
  "link_step (Arrives t u) w = w\<lparr>kw_log := (kw_log w)(t := kw_log w t @ [u])\<rparr>"
| "link_step (VerifyCalled now me code token) w =
     (case Verify now me code token (kw_server w) of
        (Inl _, st) \<Rightarrow> w\<lparr>kw_server := st\<rparr>
      | (Inr b, st) \<Rightarrow> w\<lparr>kw_server := st, kw_issued := (trim token, wb_code b) # kw_issued w\<rparr>)"
| "link_step (StatusCalled now token) w =
     (case Status_begin now token (kw_server w) of
        (Inr (Inr q), st) \<Rightarrow> w\<lparr>kw_server := st, kw_pending := q # kw_pending w\<rparr>
      | (Inr (Inl (Some u)), st) \<Rightarrow> w\<lparr>kw_server := st, kw_answers := (trim token, u) # kw_answers w\<rparr>
      | (_, st) \<Rightarrow> w\<lparr>kw_server := st\<rparr>)"
| "link_step (StatusAnswered now t ofs code ok) w =
     (case Status_end now t code (if ok then Inr (filter (\<lambda>u. ofs \<le> wu_id u) (kw_log w t)) else Inl []) (kw_server w) of
        (Inr (Some u), st) \<Rightarrow> w\<lparr>kw_server := st, kw_answers := (t, u) # kw_answers w\<rparr>
      | (_, st) \<Rightarrow> w\<lparr>kw_server := st\<rparr>)"

fun link_enabled :: "link_event \<Rightarrow> link_world \<Rightarrow> bool" where
  "link_enabled (StatusAnswered now t ofs code ok) w = ((t, ofs, code) \<in> set (kw_pending w))"
| "link_enabled _ w = True"

text \<open>A message of the account with a code that was given out for the bot.\<close>

definition sent_a_code :: "link_world \<Rightarrow> string \<times> telegram_user \<Rightarrow> bool" where
  "sent_a_code w a \<longleftrightarrow> (\<exists>(t, code) \<in> set (kw_issued w). t = fst a \<and>
     (\<exists>u \<in> set (kw_log w t). \<exists>m. wu_message u = Some m \<and> messageMatchesCode (ms_text m) code \<and> wizard_user m = snd a))"

definition link_inv :: "link_world \<Rightarrow> bool" where
  "link_inv w \<longleftrightarrow>
     (\<forall>t s. kw_server w t = Some s \<longrightarrow> (t, ls_code s) \<in> set (kw_issued w) \<and> (\<forall>u. ls_linked s = Some u \<longrightarrow> sent_a_code w (t, u)))
     \<and> (\<forall>(t, ofs, code) \<in> set (kw_pending w). (t, code) \<in> set (kw_issued w))
     \<and> (\<forall>a \<in> set (kw_answers w). sent_a_code w a)"

lemma sent_a_code_more:
  assumes "sent_a_code w a" and "set (kw_issued w) \<subseteq> set (kw_issued w')" and "\<forall>t. set (kw_log w t) \<subseteq> set (kw_log w' t)"
  shows "sent_a_code w' a"
proof -
  obtain t code u m where "(t, code) \<in> set (kw_issued w)" "t = fst a" "u \<in> set (kw_log w t)" "wu_message u = Some m"
    "messageMatchesCode (ms_text m) code" "wizard_user m = snd a"
    using assms(1) by (auto simp: sent_a_code_def)
  then show ?thesis unfolding sent_a_code_def using assms(2, 3) by blast
qed

lemma gc_keeps: "gcLocked now st t = Some s \<Longrightarrow> st t = Some s"
  by (auto simp: gcLocked_def split: option.splits if_splits)

lemma read_updates_sender:
  "read_updates code us ofs = (ofs', Some v) \<Longrightarrow>
    \<exists>u \<in> set us. \<exists>m. wu_message u = Some m \<and> messageMatchesCode (ms_text m) code \<and> wizard_user m = v"
  by (induction code us ofs rule: read_updates.induct) (auto simp: Let_def split: option.splits if_splits)

lemma buildWizardBot_code [simp]: "wb_code (buildWizardBot b c) = c"
  by (simp add: buildWizardBot_def)

lemma Verify_states:
  assumes "Verify now me code token st = (r, st')" and "st' t = Some s"
  shows "st t = Some s \<or> (\<exists>b. r = Inr b \<and> t = trim token \<and> wb_code b = ls_code s
      \<and> (ls_linked s = None \<or> (\<exists>s0. st t = Some s0 \<and> ls_linked s0 = ls_linked s)))"
  using assms by (auto simp: Verify_def Let_def split: if_splits sum.splits option.splits dest!: gc_keeps)

lemma Verify_state_kept: "Verify now me code token st = (Inl msg, st') \<Longrightarrow> st' = st"
  by (auto simp: Verify_def Let_def split: if_splits sum.splits)

lemma Status_begin_states:
  assumes "Status_begin now token st = (r, st')"
  shows "st' t = Some s \<Longrightarrow> st t = Some s"
    and "r = Inr (Inl (Some u)) \<Longrightarrow> \<exists>s. st (trim token) = Some s \<and> ls_linked s = Some u"
    and "r = Inr (Inr (t, ofs, code)) \<Longrightarrow> \<exists>s. st t = Some s \<and> ls_code s = code"
  using assms by (auto simp: Status_begin_def Let_def split: if_splits option.splits dest!: gc_keeps)

lemma Status_end_states:
  assumes "Status_end now t code answer st = (r, st')"
  shows "st' x = Some s \<Longrightarrow> \<exists>s0. st x = Some s0 \<and> ls_code s0 = ls_code s
      \<and> (ls_linked s0 = ls_linked s \<or> (\<exists>u us ofs ofs'. x = t \<and> ls_linked s = Some u \<and> answer = Inr us \<and> read_updates code us ofs = (ofs', Some u)))"
    and "r = Inr (Some u) \<Longrightarrow> \<exists>us ofs ofs'. answer = Inr us \<and> read_updates code us ofs = (ofs', Some u)"
  using assms by (auto simp: Status_end_def split: sum.splits option.splits prod.splits if_splits)

lemma read_log_sends:
  assumes "(t, code) \<in> set (kw_issued w)" and "read_updates code (filter P (kw_log w t)) ofs = (ofs', Some u)"
  shows "sent_a_code w (t, u)"
  using read_updates_sender [OF assms(2)] assms(1) by (auto simp: sent_a_code_def intro!: bexI [of _ "(t, code)"])

lemma link_inv_same:
  assumes "link_inv w" and "kw_issued w' = kw_issued w" and "kw_log w' = kw_log w"
    and "\<And>t s. kw_server w' t = Some s \<Longrightarrow> (t, ls_code s) \<in> set (kw_issued w) \<and> (\<forall>u. ls_linked s = Some u \<longrightarrow> sent_a_code w (t, u))"
    and "\<forall>(t, ofs, code) \<in> set (kw_pending w'). (t, code) \<in> set (kw_issued w)"
    and "\<forall>a \<in> set (kw_answers w'). sent_a_code w a"
  shows "link_inv w'"
proof -
  have "sent_a_code w' a = sent_a_code w a" for a using assms(2, 3) by (simp add: sent_a_code_def)
  then show ?thesis using assms by (simp add: link_inv_def)
qed


lemma link_step_inv: "link_inv w \<Longrightarrow> link_enabled e w \<Longrightarrow> link_inv (link_step e w)"
proof (induction e w rule: link_step.induct)
  case (1 t u w)
  have "sent_a_code w a \<Longrightarrow> sent_a_code (link_step (Arrives t u) w) a" for a by (rule sent_a_code_more) auto
  then show ?case using 1(1) by (auto simp: link_inv_def)
next
  case (2 now me code token w)
  obtain r st where v: "Verify now me code token (kw_server w) = (r, st)" by (cases "Verify now me code token (kw_server w)")
  show ?case
  proof (cases r)
    case (Inl msg)
    then show ?thesis using v 2(1) Verify_state_kept [of now me code token "kw_server w" msg st] by simp
  next
    case (Inr b)
    let ?w = "link_step (VerifyCalled now me code token) w"
    have more: "sent_a_code w a \<Longrightarrow> sent_a_code ?w a" for a by (rule sent_a_code_more) (auto simp: v Inr)
    have "(t, ls_code s) \<in> set (kw_issued ?w) \<and> (\<forall>u. ls_linked s = Some u \<longrightarrow> sent_a_code ?w (t, u))" if "st t = Some s" for t s
      using Verify_states [OF v that] 2(1) more unfolding link_inv_def by (fastforce simp: v Inr)
    moreover have "kw_server ?w = st" "set (kw_issued w) \<subseteq> set (kw_issued ?w)" "kw_pending ?w = kw_pending w" "kw_answers ?w = kw_answers w"
      by (auto simp: v Inr)
    ultimately show ?thesis using 2(1) more unfolding link_inv_def by fastforce
  qed
next
  case (3 now token w)
  obtain r st where v: "Status_begin now token (kw_server w) = (r, st)" by (cases "Status_begin now token (kw_server w)")
  note b = Status_begin_states [OF v]
  show ?case
    by (rule link_inv_same [OF 3(1)])
      (use 3(1) b in \<open>auto simp: v link_inv_def split: sum.splits option.splits\<close>)
next
  case (4 now t ofs code ok w)
  let ?a = "if ok then Inr (filter (\<lambda>u. ofs \<le> wu_id u) (kw_log w t)) else Inl ([] :: string)"
  obtain r st where v: "Status_end now t code ?a (kw_server w) = (r, st)" by (cases "Status_end now t code ?a (kw_server w)")
  have i: "(t, code) \<in> set (kw_issued w)" using 4 by (auto simp: link_inv_def)
  have sends: "sent_a_code w (t, u)" if "?a = Inr us" "read_updates code us o1 = (o2, Some u)" for us o1 o2 u
    using read_log_sends [OF i] that by (auto split: if_splits)
  show ?case
  proof (rule link_inv_same [OF 4(1)])
    fix x s assume "kw_server (link_step (StatusAnswered now t ofs code ok) w) x = Some s"
    then have x: "st x = Some s" by (simp add: v split: sum.splits option.splits)
    from Status_end_states(1) [OF v x] obtain s0 where s0: "kw_server w x = Some s0" "ls_code s0 = ls_code s" and l: "ls_linked s0 = ls_linked s
        \<or> (\<exists>u us o1 o2. x = t \<and> ls_linked s = Some u \<and> ?a = Inr us \<and> read_updates code us o1 = (o2, Some u))"
      by (elim exE conjE, intro that)
    have "(x, ls_code s0) \<in> set (kw_issued w) \<and> (\<forall>u. ls_linked s0 = Some u \<longrightarrow> sent_a_code w (x, u))"
      using 4(1) s0(1) unfolding link_inv_def by blast
    then have old: "(x, ls_code s) \<in> set (kw_issued w)" "\<forall>u. ls_linked s0 = Some u \<longrightarrow> sent_a_code w (x, u)"
      using s0(2) by simp_all
    from l have "\<forall>u. ls_linked s = Some u \<longrightarrow> sent_a_code w (x, u)"
    proof
      assume "\<exists>u us o1 o2. x = t \<and> ls_linked s = Some u \<and> ?a = Inr us \<and> read_updates code us o1 = (o2, Some u)"
      then obtain u us o1 o2 where "x = t" "ls_linked s = Some u" "?a = Inr us" "read_updates code us o1 = (o2, Some u)" by blast
      then show ?thesis using sends by simp
    qed (use old(2) in simp)
    with old(1) show "(x, ls_code s) \<in> set (kw_issued w) \<and> (\<forall>u. ls_linked s = Some u \<longrightarrow> sent_a_code w (x, u))" by blast
  next
    show "\<forall>a \<in> set (kw_answers (link_step (StatusAnswered now t ofs code ok) w)). sent_a_code w a"
      using Status_end_states(2) [OF v] 4(1) sends by (auto simp: v link_inv_def split: sum.splits option.splits)
  qed (use 4(1) in \<open>auto simp: v link_inv_def split: sum.splits option.splits\<close>)
qed

interpretation links: guarded_steps link_step link_inv link_enabled
  by unfold_locales (rule link_step_inv)

lemma no_links_inv: "link_inv no_links"
  by (simp add: link_inv_def no_links_def)

text \<open>C13: 
  Only an account that sent the code is linked: whatever is verified, asked and answered, in any order, with the answers of
  Telegram late and states expiring in between, every account the server answers with for a bot has sent that bot a message
  with a code that was shown for it.
\<close>

theorem linked_account_sent_the_code:
  assumes "admissible link_enabled link_step es no_links"
  shows "\<forall>a \<in> set (kw_answers (run_steps link_step es no_links)). sent_a_code (run_steps link_step es no_links) a"
proof -
  have "link_inv (run_steps link_step es no_links)" by (rule links.run_inv [OF no_links_inv assms])
  then show ?thesis unfolding link_inv_def by blast
qed

section \<open>The step and the server\<close>

text \<open>One tick of the effect: the time, and what Telegram answers for an offset.\<close>

definition plain_tick :: "int \<times> (int \<Rightarrow> string + wiz_update list) \<Rightarrow> telegram_step \<times> link_server \<Rightarrow> telegram_step \<times> link_server" where
  "plain_tick e w =
     (let (p, st) = w in
      if step_polls p then (let (a, st') = Status (fst e) (snd e) (ts_token p) st in (tick_end a p, st')) else (p, st))"

definition xp_tick :: "int \<times> (int \<Rightarrow> string + wiz_update list) \<Rightarrow> telegram_step \<times> link_server \<Rightarrow> telegram_step \<times> link_server" where
  "xp_tick e w =
     (let (p, st) = w in
      if step_polls p then (let (a, st') = Status (fst e) (snd e) (ts_token p) st in (xp_tick_answer a p, st')) else (p, st))"

lemma read_first_match:
  assumes "\<forall>u \<in> set us. \<forall>m. wu_message u = Some m \<longrightarrow> \<not> messageMatchesCode (ms_text m) code"
    and "wu_message v = Some m" and "messageMatchesCode (ms_text m) code"
  shows "\<exists>ofs'. read_updates code (us @ v # vs) ofs = (ofs', Some (wizard_user m))"
  using assms(1) by (induction us arbitrary: ofs) (auto simp: Let_def assms(2, 3) split: option.split)

lemma code_matches:
  assumes "trimmed code" and "code \<noteq> []" and "body \<in> {code, ''/start '' @ code}"
  shows "messageMatchesCode body code"
proof -
  have "trimmed body" using assms by (auto simp: trimmed_def is_ws_def)
  moreover have "sublist code body" using assms(3) by (auto simp: sublist_append_leftI sublist_Cons_right)
  ultimately show ?thesis using assms by (auto simp: messageMatchesCode_def trim_id)
qed

text \<open>
  The way it is meant to go, in both wizards: a token that was just verified shows a code; as soon as an account has sent the
  code to the bot, alone or with the start command, the next tick links that account and the step shows it.
\<close>

theorem sent_code_links_the_account:
  assumes "Verify now me code token st = (Inr b, st')" and "st (trim token) = None"
    and "trimmed code" and "code \<noteq> []" and "p = verify_end (Inr b) (step_open token None False)"
    and "\<forall>u \<in> set us. \<forall>m. wu_message u = Some m \<longrightarrow> \<not> messageMatchesCode (ms_text m) code"
    and "wu_message v = Some m" and "ms_text m \<in> {code, ''/start '' @ code}"
    and "tg 0 = Inr (us @ v # vs)" and "later - now \<le> wizardStateTTL"
  shows "link_shown p = ShowCode b False \<and> wb_code b = code
    \<and> link_shown (fst (plain_tick (later, tg) (p, st'))) = ShowLinked (linked_title (wizard_user m)) (linked_id (wizard_user m))
    \<and> ts_linked (fst (plain_tick (later, tg) (p, st'))) = Some (wizard_user m)
    \<and> ts_linked (fst (xp_tick (later, tg) (p, st'))) = Some (wizard_user m)"
proof -
  have t: "trim token \<noteq> []" and b: "wb_code b = code"
    and s: "\<exists>me_ok. st' (trim token) = Some \<lparr>ls_bot = me_ok, ls_code = code, ls_offset = 0, ls_linked = None, ls_updatedAt = now\<rparr>"
    using assms(1, 2) by (auto simp: Verify_def Let_def gcLocked_def split: if_splits sum.splits)
  obtain ofs' where r: "read_updates code (us @ v # vs) 0 = (ofs', Some (wizard_user m))"
    using read_first_match [OF assms(6, 7) code_matches [OF assms(3, 4, 8)]] by blast
  have pp: "step_polls p" "ts_token p = token" "ts_bot p = Some b" "ts_ignored p = None" "ts_skip p = False" "ts_linked p = None" "ts_waiting p = False"
    using t by (simp_all add: assms(5) verify_end_def step_open_def step_polls_def)
  have "fst (Status later tg token st') = Inr (Some (wizard_user m))"
    using s t r assms(9, 10) by (auto simp: Status_def Status_begin_def Status_end_def gcLocked_def Let_def)
  then obtain st2 where st2: "Status later tg token st' = (Inr (Some (wizard_user m)), st2)" by (metis prod.collapse)
  show ?thesis using pp b by (simp add: plain_tick_def xp_tick_def st2 tick_end_def xp_tick_answer_def link_shown_def)
qed

text \<open>The desktop's step while it waits for an account other than \<open>u\<close>, and what the server has of that account.\<close>

definition stuck :: "string \<Rightarrow> telegram_user \<Rightarrow> telegram_step \<times> link_server \<Rightarrow> bool" where
  "stuck t u w \<longleftrightarrow> ts_linked (fst w) = None \<and> ts_ignored (fst w) = Some (tu_id u) \<and> trim (ts_token (fst w)) = t
     \<and> (case snd w t of None \<Rightarrow> True | Some s \<Rightarrow> ls_linked s = Some u)"

lemma stuck_tick: "stuck t u w \<Longrightarrow> stuck t u (xp_tick e w)"
proof -
  assume st: "stuck t u w"
  obtain p sv where w: "w = (p, sv)" by (cases w)
  show ?thesis
  proof (cases "step_polls p")
    case True
    then have t: "t \<noteq> []" "trim (ts_token p) = t" using st by (auto simp: w stuck_def step_polls_def)
    show ?thesis
    proof (cases "gcLocked (fst e) sv t")
      case None
      then show ?thesis using st t True
        by (simp add: w xp_tick_def Status_def Status_begin_def Let_def xp_tick_answer_def tick_end_def stuck_def)
    next
      case (Some s)
      then have "ls_linked s = Some u" using st gc_keeps [OF Some] by (simp add: w stuck_def)
      then show ?thesis using st t True Some
        by (simp add: w xp_tick_def Status_def Status_begin_def Let_def xp_tick_answer_def stuck_def)
    qed
  qed (use st in \<open>simp add: w xp_tick_def\<close>)
qed

text \<open>
  Linking again in the desktop's wizard. The step waits for another account, and ignores the one that was linked; but the
  server keeps the account it has and does not look at Telegram any more, so that whoever sends the code, and however often
  the step asks, nobody is linked.
\<close>

theorem relinking_links_nobody:
  assumes "ts_linked p = Some u" and "st (trim (ts_token p)) = Some s" and "ls_linked s = Some u"
  shows "ts_linked (fst (foldl (\<lambda>w e. xp_tick e w) (xp_relink p, st) es)) = None"
proof -
  have "stuck (trim (ts_token p)) u (xp_relink p, st)" using assms by (simp add: stuck_def xp_relink_def)
  then have "stuck (trim (ts_token p)) u (foldl (\<lambda>w e. xp_tick e w) (xp_relink p, st) es)"
    by (induction es rule: rev_induct) (simp_all add: stuck_tick)
  then show ?thesis by (simp add: stuck_def)
qed

text \<open>In the plain wizard the account that was linked is back with the first answer.\<close>

lemma plain_relink_is_undone:
  assumes "ts_linked p = Some u" and "ts_bot p = Some b" and "\<not> ts_skip p" and "trim (ts_token p) \<noteq> []"
    and "st (trim (ts_token p)) = Some s" and "ls_linked s = Some u" and "now - ls_updatedAt s \<le> wizardStateTTL"
  shows "ts_linked (fst (plain_tick (now, tg) (plain_relink p, st))) = Some u"
  using assms by (simp add: plain_tick_def plain_relink_def step_polls_def Status_def Status_begin_def gcLocked_def Let_def tick_end_def)

text \<open>
  A token that is changed while the old one is being verified: the late answer shows the old bot and its code under the new
  token, and the step asks for the account of a token that was never verified.
\<close>

lemma late_verify_shows_another_bot:
  assumes "trim new \<noteq> []"
  shows "let p = verify_end (Inr b) (change_token new (fst (verify_begin old (step_open old None False)))) in
    link_shown p = ShowCode b False \<and> ts_token p = new \<and> step_polls p"
  using assms by (auto simp: verify_begin_def verify_end_def change_token_def step_reset_def step_open_def link_shown_def step_polls_def Let_def)

text \<open>Any message that has the code somewhere in it is taken for the code.\<close>

lemma code_inside_a_number: "messageMatchesCode ''call 5551234567'' ''123456''"
  by code_simp

definition sample_update :: wiz_update where
  "sample_update = \<lparr>wu_id = 7, wu_message = Some \<lparr>ms_id = 42, ms_username = ''ann'', ms_firstName = ''Ann'', ms_lastName = [],
     ms_text = ''/start 123456''\<rparr>\<rparr>"

lemma linked_account_sent_the_code_witness:
  "let w = run_steps link_step [VerifyCalled 0 (Inr \<lparr>bi_id = 1, bi_username = ''bot'', bi_name = []\<rparr>) ''123456'' ''tok'',
       StatusCalled 5 ''tok'', Arrives ''tok'' sample_update, StatusAnswered 6 ''tok'' 0 ''123456'' True] no_links in
   \<forall>a \<in> set (kw_answers w). sent_a_code w a"
  unfolding Let_def by (rule linked_account_sent_the_code) code_simp

lemma sent_code_links_the_account_witness:
  "let b = buildWizardBot \<lparr>bi_id = 1, bi_username = ''bot'', bi_name = []\<rparr> ''123456''; p = verify_end (Inr b) (step_open ''tok'' None False);
     st' = snd (Verify 0 (Inr \<lparr>bi_id = 1, bi_username = ''bot'', bi_name = []\<rparr>) ''123456'' ''tok'' (\<lambda>_. None));
     m = the (wu_message sample_update); tg = (\<lambda>ofs. Inr [sample_update]) in
   link_shown p = ShowCode b False \<and> wb_code b = ''123456''
    \<and> link_shown (fst (plain_tick (60, tg) (p, st'))) = ShowLinked (linked_title (wizard_user m)) (linked_id (wizard_user m))
    \<and> ts_linked (fst (plain_tick (60, tg) (p, st'))) = Some (wizard_user m)
    \<and> ts_linked (fst (xp_tick (60, tg) (p, st'))) = Some (wizard_user m)"
  unfolding Let_def
proof (rule sent_code_links_the_account [where us = "[]" and v = sample_update and vs = "[]"])
  show "Verify 0 (Inr \<lparr>bi_id = 1, bi_username = ''bot'', bi_name = []\<rparr>) ''123456'' ''tok'' (\<lambda>_. None)
    = (Inr (buildWizardBot \<lparr>bi_id = 1, bi_username = ''bot'', bi_name = []\<rparr> ''123456''),
       snd (Verify 0 (Inr \<lparr>bi_id = 1, bi_username = ''bot'', bi_name = []\<rparr>) ''123456'' ''tok'' (\<lambda>_. None)))"
    by (simp add: Verify_def Let_def gcLocked_def trim_def trim_start_def trim_end_def is_ws_def)
qed (simp_all add: sample_update_def wizardStateTTL_def trimmed_def is_ws_def)

lemma relinking_links_nobody_witness:
  "let u = \<lparr>tu_id = 42, tu_username = Some ''ann'', tu_name = ''Ann''\<rparr>;
     st = (\<lambda>t. if t = ''tok'' then Some \<lparr>ls_bot = \<lparr>bi_id = 1, bi_username = ''bot'', bi_name = []\<rparr>, ls_code = ''123456'', ls_offset = 8,
       ls_linked = Some u, ls_updatedAt = 0\<rparr> else None);
     p = (step_open ''tok'' (Some u) False)\<lparr>ts_bot := Some (buildWizardBot \<lparr>bi_id = 1, bi_username = ''bot'', bi_name = []\<rparr> ''123456'')\<rparr> in
   ts_linked (fst (foldl (\<lambda>w e. xp_tick e w) (xp_relink p, st) [(10, \<lambda>_. Inr [sample_update]), (20, \<lambda>_. Inr [sample_update])])) = None"
  unfolding Let_def
  by (rule relinking_links_nobody [OF _ _ refl [THEN trans]])
    (auto simp: step_open_def trim_def trim_start_def trim_end_def is_ws_def)

end
