(* ===== verification/ServerConfig.thy ===== *)
theory ServerConfig
  imports WizardModel AiEngine "HOL-Library.Sublist"
begin

text \<open>
  The configuration on the server, which the setup wizard reads and writes (\<open>src/apps/config/use_cases\<close>): how a draft is
  merged with the stored one (\<open>update_config.go\<close>), how it is completed from the environment (\<open>resolver.go\<close>), and how it
  becomes an endpoint, models, a profile, settings and channels (\<open>apply_config.go\<close>, \<open>identity.go\<close>). Roles and sources are the
  datatypes of the client; the source of a field the server leaves empty is \<open>SrcUnset\<close>. The standard library's URL parser
  is the parameter \<open>url\<close>, \<open>None\<close> being an error; \<open>uuid\<close> gives the identifiers drawn. The seeds of skills and plans are not
  modelled.
\<close>

section \<open>The environment\<close>

record env_snapshot =
  env_LLMBaseURL :: string
  env_LLMAPIKey :: string
  env_LLMModels :: "string list"
  env_GonkaNodeURL :: string
  env_GonkaPrivateKey :: string
  env_TGBotToken :: string
  env_TGUserIDs :: "int list"
  env_EmailAddress :: string
  env_EmailSMTPHost :: string
  env_EmailSMTPPort :: string
  env_EmailSMTPUser :: string
  env_EmailSMTPPass :: string
  env_EmailIMAPHost :: string
  env_EmailIMAPPort :: string
  env_EmailIMAPUser :: string
  env_EmailIMAPPass :: string

definition DefaultProvider :: string where "DefaultProvider = ''openai''"

text \<open>The pattern \<open>if TrimSpace(x) == "" { x = TrimSpace(y) }\<close>.\<close>

definition filled :: "string \<Rightarrow> string \<Rightarrow> string" where
  "filled x y = (if trim x = [] then trim y else x)"

definition modelRowsFromEnv :: "string list \<Rightarrow> model_row list" where
  "modelRowsFromEnv names =
     map (\<lambda>(i, name). \<lparr>mr_name = trim name,
        mr_role = (if i = 0 then RoleChat else if i = length names - 1 \<and> 1 < length names then RoleSummary else RoleNone)\<rparr>)
       (filter (\<lambda>(i, name). trim name \<noteq> []) (enumerate 0 names))"

definition emailDraftHasAnyValue :: "email_draft \<Rightarrow> bool" where
  "emailDraftHasAnyValue e \<longleftrightarrow> trim (ed_address e) \<noteq> [] \<or> trim (ed_smtpHost e) \<noteq> [] \<or> trim (ed_smtpPort e) \<noteq> []
     \<or> trim (ed_smtpUsername e) \<noteq> [] \<or> trim (ed_smtpPassword e) \<noteq> [] \<or> trim (ed_imapHost e) \<noteq> []
     \<or> trim (ed_imapPort e) \<noteq> [] \<or> trim (ed_imapUsername e) \<noteq> [] \<or> trim (ed_imapPassword e) \<noteq> []"

definition emailEnvHasAnyValue :: "env_snapshot \<Rightarrow> bool" where
  "emailEnvHasAnyValue e \<longleftrightarrow> trim (env_EmailAddress e) \<noteq> [] \<or> trim (env_EmailSMTPHost e) \<noteq> []
     \<or> trim (env_EmailSMTPPort e) \<noteq> [] \<or> trim (env_EmailSMTPUser e) \<noteq> [] \<or> trim (env_EmailSMTPPass e) \<noteq> []
     \<or> trim (env_EmailIMAPHost e) \<noteq> [] \<or> trim (env_EmailIMAPPort e) \<noteq> [] \<or> trim (env_EmailIMAPUser e) \<noteq> []
     \<or> trim (env_EmailIMAPPass e) \<noteq> []"

definition shouldPromoteEmailEnv :: "email_draft \<Rightarrow> env_snapshot \<Rightarrow> bool" where
  "shouldPromoteEmailEnv draft env \<longleftrightarrow> ed_skipped draft \<and> \<not> emailDraftHasAnyValue draft \<and> emailEnvHasAnyValue env"

definition mergeEmailFromEnv :: "email_draft \<Rightarrow> env_snapshot \<Rightarrow> email_draft" where
  "mergeEmailFromEnv e env = e\<lparr>ed_address := filled (ed_address e) (env_EmailAddress env),
     ed_smtpHost := filled (ed_smtpHost e) (env_EmailSMTPHost env), ed_smtpPort := filled (ed_smtpPort e) (env_EmailSMTPPort env),
     ed_smtpUsername := filled (ed_smtpUsername e) (env_EmailSMTPUser env),
     ed_smtpPassword := filled (ed_smtpPassword e) (env_EmailSMTPPass env),
     ed_imapHost := filled (ed_imapHost e) (env_EmailIMAPHost env), ed_imapPort := filled (ed_imapPort e) (env_EmailIMAPPort env),
     ed_imapUsername := filled (ed_imapUsername e) (env_EmailIMAPUser env),
     ed_imapPassword := filled (ed_imapPassword e) (env_EmailIMAPPass env)\<rparr>"

section \<open>The values that are used\<close>

definition ResolveValues :: "env_snapshot \<Rightarrow> global_draft \<Rightarrow> global_draft" where
  "ResolveValues env d =
     (let oa = d_openai d; gk = d_gonka d; tg = d_telegram d;
          tg' = (if trim (td_token tg) = [] \<and> \<not> td_skipped tg then
                   tg\<lparr>td_token := trim (env_TGBotToken env),
                      td_allowedUserIds := (if td_allowedUserIds tg = [] then env_TGUserIDs env else td_allowedUserIds tg)\<rparr>
                 else tg);
          em = (if shouldPromoteEmailEnv (d_email d) env then (d_email d)\<lparr>ed_skipped := False\<rparr> else d_email d)
      in \<lparr>d_provider = (if trim (d_provider d) = [] then DefaultProvider else d_provider d),
          d_openai = \<lparr>od_baseUrl = filled (od_baseUrl oa) (env_LLMBaseURL env), od_apiKey = filled (od_apiKey oa) (env_LLMAPIKey env)\<rparr>,
          d_gonka = \<lparr>gd_nodeUrl = filled (gd_nodeUrl gk) (env_GonkaNodeURL env),
            gd_privateKey = filled (gd_privateKey gk) (env_GonkaPrivateKey env)\<rparr>,
          d_models = (if d_models d = [] then modelRowsFromEnv (env_LLMModels env) else d_models d),
          d_telegram = tg',
          d_email = (if ed_skipped em then em else mergeEmailFromEnv em env)\<rparr>)"

section \<open>The configuration that is shown\<close>

definition providerField :: "global_draft \<Rightarrow> config_field" where
  "providerField d = (if trim (d_provider d) \<noteq> [] then \<lparr>cf_value = trim (d_provider d), cf_source = SrcDb\<rparr>
     else \<lparr>cf_value = DefaultProvider, cf_source = SrcDefault\<rparr>)"

definition fieldFromDB :: "string \<Rightarrow> string \<Rightarrow> config_field" where
  "fieldFromDB dbVal envVal =
     (if trim dbVal \<noteq> [] then \<lparr>cf_value = trim dbVal, cf_source = SrcDb\<rparr>
      else if trim envVal \<noteq> [] then \<lparr>cf_value = trim envVal, cf_source = SrcEnv\<rparr>
      else \<lparr>cf_value = [], cf_source = SrcUnset\<rparr>)"

definition secretFromDB :: "string \<Rightarrow> string \<Rightarrow> config_secret" where
  "secretFromDB dbVal envVal =
     (if trim dbVal \<noteq> [] then \<lparr>cs_set = True, cs_value = trim dbVal, cs_source = SrcDb\<rparr>
      else if trim envVal \<noteq> [] then \<lparr>cs_set = True, cs_value = trim envVal, cs_source = SrcEnv\<rparr>
      else \<lparr>cs_set = False, cs_value = [], cs_source = SrcUnset\<rparr>)"

definition no_field :: config_field where "no_field = \<lparr>cf_value = [], cf_source = SrcUnset\<rparr>"
definition no_secret :: config_secret where "no_secret = \<lparr>cs_set = False, cs_value = [], cs_source = SrcUnset\<rparr>"

definition resolveModels :: "model_row list \<Rightarrow> string list \<Rightarrow> model_row list" where
  "resolveModels draft envModels = (if draft \<noteq> [] then draft else modelRowsFromEnv envModels)"

definition resolveTelegram :: "env_snapshot \<Rightarrow> telegram_draft \<Rightarrow> telegram_config" where
  "resolveTelegram env d =
     (if td_skipped d then
        \<lparr>tc_token = no_secret, tc_allowedUserIds = Some (td_allowedUserIds d), tc_skipped = True, tc_source = SrcDb\<rparr>
      else if trim (td_token d) \<noteq> [] then
        \<lparr>tc_token = \<lparr>cs_set = True, cs_value = trim (td_token d), cs_source = SrcDb\<rparr>,
         tc_allowedUserIds = Some (td_allowedUserIds d), tc_skipped = False, tc_source = SrcDb\<rparr>
      else if trim (env_TGBotToken env) \<noteq> [] then
        \<lparr>tc_token = \<lparr>cs_set = True, cs_value = trim (env_TGBotToken env), cs_source = SrcEnv\<rparr>,
         tc_allowedUserIds = Some (env_TGUserIDs env), tc_skipped = False, tc_source = SrcEnv\<rparr>
      else \<lparr>tc_token = no_secret, tc_allowedUserIds = Some [], tc_skipped = False, tc_source = SrcUnset\<rparr>)"

definition pickEmailSource :: "email_config \<Rightarrow> config_source" where
  "pickEmailSource c =
     (let sources = [cf_source (ec_address c), cf_source (ec_smtpHost c), cf_source (ec_smtpPort c), cf_source (ec_smtpUsername c),
        cs_source (ec_smtpPassword c), cf_source (ec_imapHost c), cf_source (ec_imapPort c), cf_source (ec_imapUsername c),
        cs_source (ec_imapPassword c)]
      in if SrcDb \<in> set sources then SrcDb else if SrcEnv \<in> set sources then SrcEnv else SrcUnset)"

definition resolveEmail :: "env_snapshot \<Rightarrow> email_draft \<Rightarrow> email_config" where
  "resolveEmail env d =
     (if ed_skipped d \<and> \<not> shouldPromoteEmailEnv d env then
        \<lparr>ec_address = no_field, ec_smtpHost = no_field, ec_smtpPort = no_field, ec_smtpUsername = no_field,
         ec_smtpPassword = no_secret, ec_imapHost = no_field, ec_imapPort = no_field, ec_imapUsername = no_field,
         ec_imapPassword = no_secret, ec_skipped = True, ec_source = SrcDb\<rparr>
      else
        (let c = \<lparr>ec_address = fieldFromDB (ed_address d) (env_EmailAddress env),
           ec_smtpHost = fieldFromDB (ed_smtpHost d) (env_EmailSMTPHost env),
           ec_smtpPort = fieldFromDB (ed_smtpPort d) (env_EmailSMTPPort env),
           ec_smtpUsername = fieldFromDB (ed_smtpUsername d) (env_EmailSMTPUser env),
           ec_smtpPassword = secretFromDB (ed_smtpPassword d) (env_EmailSMTPPass env),
           ec_imapHost = fieldFromDB (ed_imapHost d) (env_EmailIMAPHost env),
           ec_imapPort = fieldFromDB (ed_imapPort d) (env_EmailIMAPPort env),
           ec_imapUsername = fieldFromDB (ed_imapUsername d) (env_EmailIMAPUser env),
           ec_imapPassword = secretFromDB (ed_imapPassword d) (env_EmailIMAPPass env), ec_skipped = False, ec_source = SrcUnset\<rparr>
         in c\<lparr>ec_source := pickEmailSource c\<rparr>))"

definition Resolve :: "env_snapshot \<Rightarrow> global_draft \<Rightarrow> global_config" where
  "Resolve env d =
     \<lparr>g_provider = providerField d,
      g_openai = \<lparr>oc_baseUrl = fieldFromDB (od_baseUrl (d_openai d)) (env_LLMBaseURL env),
        oc_apiKey = secretFromDB (od_apiKey (d_openai d)) (env_LLMAPIKey env)\<rparr>,
      g_gonka = \<lparr>gc_nodeUrl = fieldFromDB (gd_nodeUrl (d_gonka d)) (env_GonkaNodeURL env),
        gc_privateKey = secretFromDB (gd_privateKey (d_gonka d)) (env_GonkaPrivateKey env)\<rparr>,
      g_models = resolveModels (d_models d) (env_LLMModels env),
      g_telegram = resolveTelegram env (d_telegram d),
      g_email = resolveEmail env (d_email d)\<rparr>"

section \<open>Saving a draft\<close>

definition empty_draft :: global_draft where
  "empty_draft = \<lparr>d_provider = [], d_openai = \<lparr>od_baseUrl = [], od_apiKey = []\<rparr>, d_gonka = \<lparr>gd_nodeUrl = [], gd_privateKey = []\<rparr>,
     d_models = [], d_telegram = \<lparr>td_token = [], td_allowedUserIds = [], td_skipped = False\<rparr>,
     d_email = \<lparr>ed_address = [], ed_smtpHost = [], ed_smtpPort = [], ed_smtpUsername = [], ed_smtpPassword = [],
       ed_imapHost = [], ed_imapPort = [], ed_imapUsername = [], ed_imapPassword = [], ed_skipped = False\<rparr>\<rparr>"

definition validateDraft :: "global_draft \<Rightarrow> bool" where
  "validateDraft d \<longleftrightarrow> trim (d_provider d) \<in> {[], ''openai'', ''gonka''}"

definition mergeDrafts :: "global_draft \<Rightarrow> global_draft \<Rightarrow> global_draft" where
  "mergeDrafts existing d =
     (let oa = d_openai d; gk = d_gonka d; tg = d_telegram d; em = d_email d; old = d_email existing in
      d\<lparr>d_openai := (if trim (od_apiKey oa) = [] then oa\<lparr>od_apiKey := od_apiKey (d_openai existing)\<rparr> else oa),
        d_gonka := (if trim (gd_privateKey gk) = [] then gk\<lparr>gd_privateKey := gd_privateKey (d_gonka existing)\<rparr> else gk),
        d_telegram := (if trim (td_token tg) = [] \<and> \<not> td_skipped tg then tg\<lparr>td_token := td_token (d_telegram existing)\<rparr> else tg),
        d_email := (if ed_skipped em then em
          else em\<lparr>ed_smtpPassword := (if trim (ed_smtpPassword em) = [] then ed_smtpPassword old else ed_smtpPassword em),
                  ed_imapPassword := (if trim (ed_imapPassword em) = [] then ed_imapPassword old else ed_imapPassword em)\<rparr>)\<rparr>)"

section \<open>Applying it\<close>

record channel =
  ch_id :: string
  ch_type :: string
  ch_name :: string
  ch_token :: string
  ch_modelId :: string
  ch_presetId :: string
  ch_allowedUserIds :: "int list"

record app_store =
  ap_draft :: "global_draft option"
  ap_engine :: engine_store
  ap_channels :: "channel list"

definition loadDraft :: "app_store \<Rightarrow> global_draft" where
  "loadDraft s = or_else (ap_draft s) empty_draft"

datatype apply_error = ProviderUnknown | EndpointRequired | CredentialsRequired | ChatModelRequired | StoreFailed store_error

definition update_config :: "env_snapshot \<Rightarrow> global_draft \<Rightarrow> app_store \<Rightarrow> (apply_error + global_config) \<times> app_store" where
  "update_config env d s =
     (if \<not> validateDraft d then (Inl ProviderUnknown, s)
      else let merged = mergeDrafts (loadDraft s) d in (Inr (Resolve env merged), s\<lparr>ap_draft := Some merged\<rparr>))"

definition get_config :: "env_snapshot \<Rightarrow> app_store \<Rightarrow> global_config" where
  "get_config env s = Resolve env (loadDraft s)"

definition reset_config :: "env_snapshot \<Rightarrow> app_store \<Rightarrow> global_config \<times> app_store" where
  "reset_config env s = (Resolve env empty_draft, s\<lparr>ap_draft := None\<rparr>)"

definition providerCredentials :: "string \<Rightarrow> global_draft \<Rightarrow> string \<times> string" where
  "providerCredentials p v =
     (if p = ''gonka'' then (trim (gd_nodeUrl (d_gonka v)), trim (gd_privateKey (d_gonka v)))
      else (trim (od_baseUrl (d_openai v)), trim (od_apiKey (d_openai v))))"

definition hasChatModel :: "model_row list \<Rightarrow> bool" where
  "hasChatModel rows = list_ex (\<lambda>r. mr_role r = RoleChat \<and> trim (mr_name r) \<noteq> []) rows"

definition validateApply :: "global_draft \<Rightarrow> apply_error option" where
  "validateApply v =
     (let p = trim (d_provider v); (baseURL, apiKey) = providerCredentials p v in
      if p \<noteq> ''openai'' \<and> p \<noteq> ''gonka'' then Some ProviderUnknown
      else if baseURL = [] then Some EndpointRequired
      else if apiKey = [] then Some CredentialsRequired
      else if \<not> hasChatModel (d_models v) then Some ChatModelRequired
      else None)"

subsection \<open>Identifiers of endpoints\<close>

record go_url =
  u_scheme :: string
  u_host :: string
  u_hostname :: string
  u_port :: string
  u_path :: string

definition trim_slashes :: "string \<Rightarrow> string" where
  "trim_slashes s = rev (dropWhile (\<lambda>c. c = CHR ''/'') (rev s))"

definition normalizeBaseURL :: "(string \<Rightarrow> go_url option) \<Rightarrow> string \<Rightarrow> string" where
  "normalizeBaseURL url raw =
     (let t = trim raw in
      if t = [] then []
      else case url t of
          Some u \<Rightarrow> if u_host u = [] then map to_lower (trim_slashes t)
                    else map to_lower (trim_slashes (u_scheme u @ ''://'' @ u_host u @ u_path u))
        | None \<Rightarrow> map to_lower (trim_slashes t))"

definition slug_char :: "char \<Rightarrow> bool" where
  "slug_char c \<longleftrightarrow> is_digit c \<or> is_lower c"

text \<open>Every run of other characters becomes one dash.\<close>

fun dashed :: "string \<Rightarrow> string" where
  "dashed [] = []"
| "dashed (c # cs) =
     (if slug_char c then c # dashed cs
      else if cs \<noteq> [] \<and> \<not> slug_char (hd cs) then dashed cs else CHR ''-'' # dashed cs)"

definition trim_dashes :: "string \<Rightarrow> string" where
  "trim_dashes s = rev (dropWhile (\<lambda>c. c = CHR ''-'') (rev (dropWhile (\<lambda>c. c = CHR ''-'') s)))"

definition slugify :: "string \<Rightarrow> string" where
  "slugify s = str_or (trim_dashes (dashed (map to_lower s))) ''llm-primary''"

definition suggestEndpointID :: "(string \<Rightarrow> go_url option) \<Rightarrow> string \<Rightarrow> string \<Rightarrow> string" where
  "suggestEndpointID url baseURL prov =
     (if prov = ''gonka'' then ''gonka-primary''
      else case url (trim baseURL) of
          None \<Rightarrow> ''llm-primary''
        | Some u \<Rightarrow>
            if u_host u = [] then ''llm-primary''
            else let hostSlug = slugify (if u_port u \<noteq> [] then u_hostname u @ ''-'' @ u_port u else u_hostname u)
                 in if sublist ''openai'' hostSlug then ''openai-primary''
                    else if sublist ''localhost'' hostSlug \<or> starts_with ''127-'' hostSlug then ''local-llm''
                    else take 48 (''llm-'' @ hostSlug))"

definition makeUniqueID :: "string \<Rightarrow> string list \<Rightarrow> string" where
  "makeUniqueID base existing =
     (if base \<notin> set existing then base
      else or_else (find (\<lambda>c. c \<notin> set existing) (map (\<lambda>i. take 48 (base @ ''-'' @ nat_str i)) [2..<1000]))
             (take 48 (base @ ''-0'')))"

subsection \<open>Tables\<close>

definition applyLLMConnection :: "(string \<Rightarrow> go_url option) \<Rightarrow> string \<Rightarrow> string \<Rightarrow> string \<Rightarrow> engine_store \<Rightarrow> store_error + string \<times> engine_store" where
  "applyLLMConnection url prov baseURL apiKey s =
     (case find (\<lambda>c. normalizeBaseURL url (lc_baseUrl c) = normalizeBaseURL url baseURL) (es_connections s) of
        Some c \<Rightarrow>
          map_sum id (Pair (lc_id c)) (update_llm_connection (c\<lparr>lc_provider := prov, lc_baseUrl := trim baseURL, lc_apiKey := apiKey\<rparr>) s)
      | None \<Rightarrow>
          (let i = makeUniqueID (suggestEndpointID url baseURL prov) (map lc_id (es_connections s))
           in map_sum id (Pair i)
                (create_llm_connection \<lparr>lc_id = i, lc_provider = prov, lc_baseUrl = trim baseURL, lc_apiKey = apiKey\<rparr> s)))"

definition new_model :: "string \<Rightarrow> string \<Rightarrow> string \<Rightarrow> llm_model" where
  "new_model uuid connID name = \<lparr>lm_id = uuid, lm_connectionId = connID, lm_name = name, lm_thinkingMode = [],
     lm_contextWindow = 128000, lm_reserveTokens = 20000, lm_compactTokens = 108000\<rparr>"

text \<open>\<open>byName\<close> is read once; the rows are worked off in order, the \<open>k\<close>-th identifier drawn for the \<open>k\<close>-th of them.\<close>

definition byName :: "string \<Rightarrow> llm_model list \<Rightarrow> string \<Rightarrow> llm_model option" where
  "byName connID all = map_of (rev (map (\<lambda>m. (lm_name m, m)) (filter (\<lambda>m. lm_connectionId m = connID) all)))"

fun apply_rows :: "(nat \<Rightarrow> string) \<Rightarrow> nat \<Rightarrow> string \<Rightarrow> (string \<Rightarrow> llm_model option) \<Rightarrow> model_row list \<Rightarrow> (string \<Rightarrow> string option) \<Rightarrow> engine_store
    \<Rightarrow> (store_error + (string \<Rightarrow> string option)) \<times> engine_store" where
  "apply_rows uuid k connID known [] out s = (Inr out, s)"
| "apply_rows uuid k connID known (r # rs) out s =
     (let name = trim (mr_name r) in
      if name = [] then apply_rows uuid (Suc k) connID known rs out s
      else case known name of
          Some m \<Rightarrow> apply_rows uuid (Suc k) connID known rs (out(name \<mapsto> lm_id m)) s
        | None \<Rightarrow>
            (case insert_row lm_id (new_model (uuid k) connID name) (es_models s) of
               Inl e \<Rightarrow> (Inl e, s)
             | Inr ms \<Rightarrow> apply_rows uuid (Suc k) connID known rs (out(name \<mapsto> uuid k)) (s\<lparr>es_models := ms\<rparr>)))"

definition applyModels :: "(nat \<Rightarrow> string) \<Rightarrow> string \<Rightarrow> model_row list \<Rightarrow> engine_store \<Rightarrow> (store_error + (string \<Rightarrow> string option)) \<times> engine_store" where
  "applyModels uuid connID rows s = apply_rows uuid 0 connID (byName connID (es_models s)) rows Map.empty s"

text \<open>A key that is not in the map reads as the empty text; of two rows with one role the later counts.\<close>

definition pick_model :: "model_role \<Rightarrow> model_row list \<Rightarrow> (string \<Rightarrow> string option) \<Rightarrow> string" where
  "pick_model role rows ids =
     (case filter (\<lambda>r. trim (mr_name r) \<noteq> [] \<and> mr_role r = role) rows of
        [] \<Rightarrow> [] | rs \<Rightarrow> or_else (ids (trim (mr_name (last rs)))) [])"

definition pickModelIDs :: "model_row list \<Rightarrow> (string \<Rightarrow> string option) \<Rightarrow> string \<times> string \<times> string" where
  "pickModelIDs rows ids = (pick_model RoleChat rows ids, pick_model RoleSummary rows ids, pick_model RoleVision rows ids)"

definition profile_name :: "string \<Rightarrow> string" where
  "profile_name connID = ''Main profile ('' @ connID @ '')''"

definition matching_profile :: "string \<Rightarrow> llm_preset list \<Rightarrow> llm_preset option" where
  "matching_profile name all =
     (case find (\<lambda>p. lp_name p = name) all of Some p \<Rightarrow> Some p | None \<Rightarrow> find (\<lambda>p. lp_name p = ''Default'') all)"

definition apply_preset :: "string \<Rightarrow> string \<Rightarrow> model_row list \<Rightarrow> (string \<Rightarrow> string option) \<Rightarrow> engine_store \<Rightarrow> apply_error + string \<times> engine_store" where
  "apply_preset uuid connID rows modelIDs s =
     (let (chat, summary, image) = pickModelIDs rows modelIDs; name = profile_name connID in
      if chat = [] then Inl ChatModelRequired
      else
        (let new = (\<lambda>i. \<lparr>lp_id = i, lp_name = name, lp_chatModelId = chat, lp_summaryModelId = summary, lp_imageModelId = image,
               lp_fallbackModelId = [], lp_temperature = None, lp_systemPrompt = []\<rparr>) in
         case matching_profile name (es_presets s) of
           Some p \<Rightarrow> map_sum StoreFailed (\<lambda>ps. (lp_id p, s\<lparr>es_presets := ps\<rparr>)) (update_row lp_id (new (lp_id p)) (es_presets s))
         | None \<Rightarrow> map_sum StoreFailed (\<lambda>ps. (uuid, s\<lparr>es_presets := ps\<rparr>)) (insert_row lp_id (new uuid) (es_presets s))))"

definition applySettings :: "string \<Rightarrow> engine_store \<Rightarrow> engine_store" where
  "applySettings presetID s = s\<lparr>es_settings := Some \<lparr>as_chatPresetId = presetID, as_serverPresetId = presetID,
     as_memoryEnabled = True, as_userMemories = []\<rparr>\<rparr>"

subsection \<open>Channels\<close>

definition applyChatChannel :: "channel list \<Rightarrow> store_error + channel list" where
  "applyChatChannel cs =
     (case find_by ch_id cs ''chat'' of
        Some c \<Rightarrow>
          if ch_name c \<noteq> [] \<and> ch_token c = [] \<and> ch_allowedUserIds c = [] then Inr cs
          else update_row ch_id (c\<lparr>ch_name := ''Chat'', ch_token := [], ch_allowedUserIds := []\<rparr>) cs
      | None \<Rightarrow> insert_row ch_id \<lparr>ch_id = ''chat'', ch_type = ''chat'', ch_name = ''Chat'', ch_token = [], ch_modelId = [], ch_presetId = [], ch_allowedUserIds = []\<rparr> cs)"

definition dedupeIDs :: "int list \<Rightarrow> int list" where
  "dedupeIDs xs = dedupe (filter (\<lambda>i. i \<noteq> 0) xs)"

definition applyTelegramChannel :: "string \<Rightarrow> telegram_draft \<Rightarrow> channel list \<Rightarrow> store_error + channel list" where
  "applyTelegramChannel uuid tg cs =
     (let token = trim (td_token tg); allowed = dedupeIDs (td_allowedUserIds tg) in
      if token = [] \<or> td_skipped tg then Inr cs
      else case find (\<lambda>c. ch_type c = ''telegram'') cs of
          Some c \<Rightarrow> update_row ch_id (c\<lparr>ch_name := ''Telegram'', ch_token := token, ch_allowedUserIds := allowed\<rparr>) cs
        | None \<Rightarrow> insert_row ch_id \<lparr>ch_id = uuid, ch_type = ''telegram'', ch_name = ''Telegram'', ch_token = token, ch_modelId = [], ch_presetId = [],
            ch_allowedUserIds = allowed\<rparr> cs)"

subsection \<open>The whole use case\<close>

text \<open>Each part works on what the parts before it stored, and an error leaves that stored. \<open>uuid 0\<close> is for the profile,
  \<open>uuid 1\<close> for the channel, the others for the models.\<close>

definition apply_channels :: "string \<Rightarrow> telegram_draft \<Rightarrow> app_store \<Rightarrow> apply_error option \<times> app_store" where
  "apply_channels uuid tg s =
     (case applyChatChannel (ap_channels s) of
        Inl e \<Rightarrow> (Some (StoreFailed e), s)
      | Inr cs \<Rightarrow>
          (case applyTelegramChannel uuid tg cs of
             Inl e \<Rightarrow> (Some (StoreFailed e), s\<lparr>ap_channels := cs\<rparr>)
           | Inr cs' \<Rightarrow> (None, s\<lparr>ap_channels := cs'\<rparr>)))"

definition apply_values :: "(string \<Rightarrow> go_url option) \<Rightarrow> (nat \<Rightarrow> string) \<Rightarrow> global_draft \<Rightarrow> app_store \<Rightarrow> apply_error option \<times> app_store" where
  "apply_values url uuid v s =
     (let prov = trim (d_provider v); (baseURL, apiKey) = providerCredentials prov v in
      case applyLLMConnection url prov baseURL apiKey (ap_engine s) of
        Inl e \<Rightarrow> (Some (StoreFailed e), s)
      | Inr (connID, e1) \<Rightarrow>
          (case applyModels (\<lambda>k. uuid (k + 2)) connID (d_models v) e1 of
             (Inl e, e2) \<Rightarrow> (Some (StoreFailed e), s\<lparr>ap_engine := e2\<rparr>)
           | (Inr ids, e2) \<Rightarrow>
               (case apply_preset (uuid 0) connID (d_models v) ids e2 of
                  Inl e \<Rightarrow> (Some e, s\<lparr>ap_engine := e2\<rparr>)
                | Inr (presetID, e3) \<Rightarrow> apply_channels (uuid 1) (d_telegram v) (s\<lparr>ap_engine := applySettings presetID e3\<rparr>))))"

definition apply_config :: "env_snapshot \<Rightarrow> (string \<Rightarrow> go_url option) \<Rightarrow> (nat \<Rightarrow> string) \<Rightarrow> app_store \<Rightarrow> apply_error option \<times> app_store" where
  "apply_config env url uuid s =
     (let v = ResolveValues env (loadDraft s) in
      case validateApply v of Some e \<Rightarrow> (Some e, s) | None \<Rightarrow> apply_values url uuid v s)"

section \<open>The model of a conversation\<close>

text \<open>\<open>core/plugins/model/resolver.go\<close>: the model is the one asked for, that of the channel's profile, that of the profile in the
  settings, or the one the channel itself names (\<open>legacy\<close>), which comes last where there is a default profile. The stores
  are those of the server; an error of a store is not modelled.\<close>

record resolver_input =
  ri_explicit :: string
  ri_channel :: string
  ri_default :: string

record resolver_output =
  ro_modelId :: string
  ro_source :: string
  ro_presetId :: string
  ro_presetName :: string
  ro_role :: string

definition no_output :: resolver_output where
  "no_output = \<lparr>ro_modelId = [], ro_source = [], ro_presetId = [], ro_presetName = [], ro_role = []\<rparr>"

definition resolvePresetToModel :: "engine_store \<Rightarrow> string \<Rightarrow> resolver_output" where
  "resolvePresetToModel e presetID =
     (if presetID = [] then no_output
      else case find_by lp_id (es_presets e) presetID of
          None \<Rightarrow> no_output
        | Some p \<Rightarrow>
            (let out = no_output\<lparr>ro_presetId := presetID, ro_presetName := lp_name p\<rparr> in
             if trim (lp_chatModelId p) \<noteq> [] then out\<lparr>ro_modelId := trim (lp_chatModelId p), ro_role := ''primary''\<rparr>
             else if trim (lp_fallbackModelId p) \<noteq> [] then out\<lparr>ro_modelId := trim (lp_fallbackModelId p), ro_role := ''fallback''\<rparr>
             else out))"

datatype resolver_error = ChannelNotFound string

definition resolveFromChannel :: "app_store \<Rightarrow> string \<Rightarrow> resolver_error + resolver_output" where
  "resolveFromChannel s channelID =
     (case find_by ch_id (ap_channels s) channelID of
        None \<Rightarrow> Inl (ChannelNotFound channelID)
      | Some c \<Rightarrow>
          (let pid = trim (ch_presetId c); out = resolvePresetToModel (ap_engine s) pid; mid = trim (ch_modelId c) in
           if pid \<noteq> [] \<and> ro_modelId out \<noteq> [] then Inr out
           else if mid \<noteq> [] then Inr (no_output\<lparr>ro_modelId := mid, ro_role := ''legacy''\<rparr>)
           else Inr no_output))"

text \<open>\<open>None\<close> is an error: no settings are stored, or the slot is unknown.\<close>

definition resolveDefaultPresetID :: "app_store \<Rightarrow> string \<Rightarrow> string option" where
  "resolveDefaultPresetID s slot =
     (case es_settings (ap_engine s) of
        None \<Rightarrow> None
      | Some a \<Rightarrow>
          (let k = map to_lower (trim slot) in
           if k = ''chat'' then Some (trim (as_chatPresetId a))
           else if k = ''server'' then Some (trim (as_serverPresetId a))
           else None))"

fun resolve_slots :: "app_store \<Rightarrow> string list \<Rightarrow> resolver_output option" where
  "resolve_slots s [] = None"
| "resolve_slots s (slot # slots) =
     (case resolveDefaultPresetID s slot of
        Some pid \<Rightarrow>
          (let out = resolvePresetToModel (ap_engine s) pid in
           if pid \<noteq> [] \<and> ro_modelId out \<noteq> [] then Some (out\<lparr>ro_source := ''settings''\<rparr>) else resolve_slots s slots)
      | None \<Rightarrow> resolve_slots s slots)"

definition resolve_model :: "resolver_input \<Rightarrow> app_store \<Rightarrow> resolver_error + resolver_output" where
  "resolve_model inp s =
     (if trim (ri_explicit inp) \<noteq> [] then
        Inr (no_output\<lparr>ro_modelId := trim (ri_explicit inp), ro_source := ''explicit'', ro_role := ''explicit''\<rparr>)
      else
        (case if trim (ri_channel inp) \<noteq> [] then resolveFromChannel s (ri_channel inp) else Inr no_output of
           Inl e \<Rightarrow> Inl e
         | Inr out \<Rightarrow>
             (let legacy = ri_default inp \<noteq> [] \<and> ro_role out = ''legacy'';
                  slots = (if ri_default inp \<noteq> [] then [ri_default inp] else []) @ (if ri_default inp \<noteq> ''chat'' then [''chat''] else [])
              in if ro_modelId out \<noteq> [] \<and> \<not> legacy then Inr (out\<lparr>ro_source := ''channel''\<rparr>)
                 else case resolve_slots s slots of
                     Some r \<Rightarrow> Inr r
                   | None \<Rightarrow> if ro_modelId out \<noteq> [] then Inr (out\<lparr>ro_source := ''channel''\<rparr>) else Inr (no_output\<lparr>ro_source := ''none''\<rparr>))))"

text \<open>What \<open>SendMessage\<close> asks the resolver, and the model and the endpoint that the agent then uses (\<open>shared/resolve.go\<close>,
  \<open>agents/mantis.go\<close>).\<close>

definition chat_input :: resolver_input where
  "chat_input = \<lparr>ri_explicit = [], ri_channel = ''chat'', ri_default = ''chat''\<rparr>"

definition ResolveModel :: "engine_store \<Rightarrow> string \<Rightarrow> llm_model option" where
  "ResolveModel e i = (if i = [] then None else find_by lm_id (es_models e) i)"

definition ResolveConnection :: "engine_store \<Rightarrow> string \<Rightarrow> llm_connection option" where
  "ResolveConnection e i = (if i = [] then None else find_by lc_id (es_connections e) i)"

definition chat_engine :: "app_store \<Rightarrow> (llm_model \<times> llm_connection) option" where
  "chat_engine s =
     (case resolve_model chat_input s of
        Inl _ \<Rightarrow> None
      | Inr out \<Rightarrow>
          (case ResolveModel (ap_engine s) (trim (ro_modelId out)) of
             None \<Rightarrow> None
           | Some m \<Rightarrow>
               (case ResolveConnection (ap_engine s) (lm_connectionId m) of None \<Rightarrow> None | Some c \<Rightarrow> Some (m, c))))"

end
