(* ===== verification/SetupFinish.thy ===== *)
theory SetupFinish
  imports ServerConfig WizardRuns
begin

text \<open>
  The setup wizard and the server together: what the wizard saves, the server merges, completes and applies. The wizard's
  own view of what is still missing (\<open>deriveStatus\<close>) against the server's (\<open>validateApply\<close>), what the last page shows
  against what is stored, and what else the last button does.
\<close>

section \<open>What is missing\<close>

lemma trim_filled [simp]: "trim (filled x y) = (if trim x = [] then trim y else trim x)"
  by (simp add: filled_def)

lemma source_of_field [simp]: "cf_source (fieldFromDB x y) = SrcUnset \<longleftrightarrow> trim (filled x y) = []"
  by (simp add: fieldFromDB_def)

lemma set_of_secret [simp]: "cs_set (secretFromDB x y) \<longleftrightarrow> trim (filled x y) \<noteq> []"
  by (simp add: secretFromDB_def)

lemma has_chat_resolved: "has_chat_row (resolveModels rows names)
    = hasChatModel (if rows = [] then modelRowsFromEnv names else rows)"
  by (simp add: has_chat_row_def hasChatModel_def resolveModels_def)

text \<open>The wizard and the server agree on when a setup is complete. For every stored draft that names one of the two
  providers and every environment, the status the client derives from the configuration it reads is done exactly when
  the server, on the values it completes, accepts the configuration to be applied.\<close>

lemma done_openai:
  assumes "trim (d_provider d) = ''openai''"
  shows "ws_done (deriveStatus (Some (Resolve env d))) \<longleftrightarrow>
    trim (filled (od_baseUrl (d_openai d)) (env_LLMBaseURL env)) \<noteq> [] \<and> trim (filled (od_apiKey (d_openai d)) (env_LLMAPIKey env)) \<noteq> []
    \<and> has_chat_row (resolveModels (d_models d) (env_LLMModels env))"
  by (simp add: deriveStatus_def Let_def provider_steps_def Resolve_def providerField_def assms del: trim_filled)

lemma done_gonka:
  assumes "trim (d_provider d) = ''gonka''"
  shows "ws_done (deriveStatus (Some (Resolve env d))) \<longleftrightarrow>
    trim (filled (gd_nodeUrl (d_gonka d)) (env_GonkaNodeURL env)) \<noteq> [] \<and> trim (filled (gd_privateKey (d_gonka d)) (env_GonkaPrivateKey env)) \<noteq> []
    \<and> has_chat_row (resolveModels (d_models d) (env_LLMModels env))"
  by (simp add: deriveStatus_def Let_def provider_steps_def Resolve_def providerField_def assms del: trim_filled)

lemma accepted_openai:
  assumes "trim (d_provider v) = ''openai''"
  shows "validateApply v = None \<longleftrightarrow> trim (od_baseUrl (d_openai v)) \<noteq> [] \<and> trim (od_apiKey (d_openai v)) \<noteq> [] \<and> hasChatModel (d_models v)"
  by (simp add: validateApply_def Let_def providerCredentials_def assms)

lemma accepted_gonka:
  assumes "trim (d_provider v) = ''gonka''"
  shows "validateApply v = None \<longleftrightarrow> trim (gd_nodeUrl (d_gonka v)) \<noteq> [] \<and> trim (gd_privateKey (d_gonka v)) \<noteq> [] \<and> hasChatModel (d_models v)"
  by (simp add: validateApply_def Let_def providerCredentials_def assms)

lemma resolved_values:
  "d_openai (ResolveValues env d) = \<lparr>od_baseUrl = filled (od_baseUrl (d_openai d)) (env_LLMBaseURL env),
     od_apiKey = filled (od_apiKey (d_openai d)) (env_LLMAPIKey env)\<rparr>"
  "d_gonka (ResolveValues env d) = \<lparr>gd_nodeUrl = filled (gd_nodeUrl (d_gonka d)) (env_GonkaNodeURL env),
     gd_privateKey = filled (gd_privateKey (d_gonka d)) (env_GonkaPrivateKey env)\<rparr>"
  "d_models (ResolveValues env d) = (if d_models d = [] then modelRowsFromEnv (env_LLMModels env) else d_models d)"
  "trim (d_provider d) \<noteq> [] \<Longrightarrow> d_provider (ResolveValues env d) = d_provider d"
  by (simp_all add: ResolveValues_def Let_def)

text \<open>C14: The wizard and the server agree on when a setup is complete. For every stored draft that names one of the two
  providers and every environment, the status the client derives from the configuration it reads is done exactly when
  the server, on the values it completes, accepts the configuration to be applied.\<close>

theorem done_iff_accepted:
  assumes "trim (d_provider d) = ''openai'' \<or> trim (d_provider d) = ''gonka''"
  shows "ws_done (deriveStatus (Some (Resolve env d))) \<longleftrightarrow> validateApply (ResolveValues env d) = None"
  using assms
proof
  assume o: "trim (d_provider d) = ''openai''"
  then have "trim (d_provider (ResolveValues env d)) = ''openai''" by (simp add: resolved_values)
  then show ?thesis by (simp only: done_openai [OF o] accepted_openai has_chat_resolved resolved_values openai_draft.simps)
next
  assume g: "trim (d_provider d) = ''gonka''"
  then have "trim (d_provider (ResolveValues env d)) = ''gonka''" by (simp add: resolved_values)
  then show ?thesis by (simp only: done_gonka [OF g] accepted_gonka has_chat_resolved resolved_values gonka_draft.simps)
qed

definition no_env :: env_snapshot where
  "no_env = \<lparr>env_LLMBaseURL = [], env_LLMAPIKey = [], env_LLMModels = [], env_GonkaNodeURL = [], env_GonkaPrivateKey = [],
     env_TGBotToken = [], env_TGUserIDs = [], env_EmailAddress = [], env_EmailSMTPHost = [], env_EmailSMTPPort = [],
     env_EmailSMTPUser = [], env_EmailSMTPPass = [], env_EmailIMAPHost = [], env_EmailIMAPPort = [], env_EmailIMAPUser = [],
     env_EmailIMAPPass = []\<rparr>"

definition sample_draft :: global_draft where
  "sample_draft = empty_draft\<lparr>d_provider := ''openai'', d_openai := \<lparr>od_baseUrl = ''http://h'', od_apiKey = ''k''\<rparr>,
     d_models := [\<lparr>mr_name = ''m'', mr_role = RoleChat\<rparr>]\<rparr>"

theorem done_iff_accepted_witness:
  "ws_done (deriveStatus (Some (Resolve no_env sample_draft))) \<and> validateApply (ResolveValues no_env sample_draft) = None"
proof -
  have "validateApply (ResolveValues no_env sample_draft) = None" by code_simp
  moreover have "trim (d_provider sample_draft) = ''openai'' \<or> trim (d_provider sample_draft) = ''gonka''" by code_simp
  ultimately show ?thesis using done_iff_accepted [of sample_draft no_env] by simp
qed

section \<open>A server without a key\<close>

text \<open>C32: A local server that needs no key cannot be set up. The page says to leave the key blank for it, and with an
  address and a chat model Next is offered; but as long as neither the stored configuration nor the environment has a
  key, the last button ends with the server's complaint about credentials, and no table has changed.\<close>

theorem blank_key_cannot_finish:
  assumes "provider st = ''openai''" and "\<not> isNextDisabled SOpenai st" and "trim (openaiApiKey st) = []"
    and "trim (od_apiKey (d_openai (loadDraft s))) = []" and "trim (env_LLMAPIKey env) = []"
  shows "let s' = snd (update_config env (buildDraft st) s) in
    apply_config env url uuid s' = (Some CredentialsRequired, s') \<and> ap_engine s' = ap_engine s \<and> ap_channels s' = ap_channels s"
proof -
  let ?m = "mergeDrafts (loadDraft s) (buildDraft st)"
  have p: "d_provider ?m = ''openai''" "trim ''openai'' = ''openai''"
    using assms(1) by (simp_all add: mergeDrafts_def buildDraft_def Let_def trim_id trimmed_def is_ws_def)
  have v: "validateDraft (buildDraft st)" using assms(1) p by (simp add: validateDraft_def buildDraft_def)
  have o: "trim (od_baseUrl (d_openai ?m)) \<noteq> []" "trim (od_apiKey (d_openai ?m)) = []"
    using assms(2-4) by (simp_all add: mergeDrafts_def buildDraft_def Let_def)
  have "validateApply (ResolveValues env ?m) = Some CredentialsRequired"
    using o assms(5) p by (simp add: validateApply_def resolved_values providerCredentials_def Let_def)
  then show ?thesis using v by (simp add: Let_def update_config_def apply_config_def loadDraft_def or_else_def)
qed

definition keyless_state :: wizard_state where
  "keyless_state = buildInitialState (Resolve no_env (sample_draft\<lparr>d_openai := \<lparr>od_baseUrl = ''http://localhost:1/v1'', od_apiKey = []\<rparr>\<rparr>)) []"

definition new_store :: app_store where
  "new_store = \<lparr>ap_draft = None, ap_engine = \<lparr>es_connections = [], es_models = [], es_presets = [], es_settings = None\<rparr>, ap_channels = []\<rparr>"

theorem blank_key_cannot_finish_witness:
  "fst (apply_config no_env (\<lambda>_. None) (\<lambda>k. nat_str k) (snd (update_config no_env (buildDraft keyless_state) new_store))) = Some CredentialsRequired"
proof -
  have "provider keyless_state = ''openai''" "\<not> isNextDisabled SOpenai keyless_state" "trim (openaiApiKey keyless_state) = []"
    "trim (od_apiKey (d_openai (loadDraft new_store))) = []" "trim (env_LLMAPIKey no_env) = []" by code_simp+
  from blank_key_cannot_finish [OF this, of "\<lambda>_. None" "\<lambda>k. nat_str k"] show ?thesis by (simp add: Let_def)
qed

section \<open>What the last page shows\<close>

text \<open>The rows of the last page (\<open>FinishStep\<close>).\<close>

definition finish_chat_model :: "model_row list \<Rightarrow> string" where
  "finish_chat_model rows = (case find (\<lambda>r. mr_role r = RoleChat) rows of None \<Rightarrow> [] | Some r \<Rightarrow> mr_name r)"

definition finish_endpoint :: "wizard_state \<Rightarrow> string" where
  "finish_endpoint st = (if provider st = ''openai'' then openaiBaseUrl st else gonkaNodeUrl st)"

definition finish_rows :: "wizard_state \<Rightarrow> (string \<times> string) list" where
  "finish_rows st =
     [(''Powered by'', if provider st = ''openai'' then ''OpenAI-compatible API'' else ''Gonka wallet''),
      (''Server'', str_or (finish_endpoint st) [em_dash]),
      (''Chat model'', str_or (finish_chat_model (modelRows st)) [em_dash]),
      (''Telegram'', telegramSummary st), (''Email'', emailSummary st)]"

text \<open>No role is given to two models.\<close>

definition roles_once :: "model_row list \<Rightarrow> bool" where
  "roles_once rows \<longleftrightarrow> list_all (\<lambda>role. length (filter (\<lambda>r. mr_role r = role) rows) \<le> 1) [RoleChat, RoleSummary, RoleVision]"

lemma only_row:
  assumes "length (filter P rows) \<le> 1" and "r \<in> set rows" and "P r"
  shows "filter P rows = [r]" and "find P rows = Some r"
proof -
  have "r \<in> set (filter P rows)" using assms by simp
  then show f: "filter P rows = [r]" using assms(1) by (cases "filter P rows" rule: rev_cases) (auto split: if_splits)
  show "find P rows = Some r" using f
  proof (induction rows)
    case (Cons a rows)
    then show ?case by (cases "P a") (auto simp: filter_empty_conv)
  qed simp
qed

lemma pick_chat:
  assumes "roles_once rows" and "r \<in> set rows" and "mr_role r = RoleChat" and "trim (mr_name r) \<noteq> []"
  shows "finish_chat_model rows = mr_name r"
    and "pick_model RoleChat (valid_rows rows) ids = or_else (ids (trim (mr_name r))) []"
proof -
  have o: "length (filter (\<lambda>r. mr_role r = RoleChat) rows) \<le> 1" using assms(1) by (simp add: roles_once_def)
  note one = only_row [OF o assms(2), OF assms(3)]
  show "finish_chat_model rows = mr_name r" by (simp add: finish_chat_model_def one(2))
  have "filter (\<lambda>r. trim (mr_name r) \<noteq> [] \<and> mr_role r = RoleChat) rows = filter (\<lambda>r. trim (mr_name r) \<noteq> []) (filter (\<lambda>r. mr_role r = RoleChat) rows)"
    by (simp add: conj_commute)
  also have "\<dots> = [r]" using assms(4) by (simp add: one(1))
  finally have f: "filter (\<lambda>r. trim (mr_name r) \<noteq> [] \<and> mr_role r = RoleChat) rows = [r]" .
  have "filter (\<lambda>r. trim (mr_name r) \<noteq> [] \<and> mr_role r = RoleChat) (valid_rows rows)
      = map (\<lambda>r. r\<lparr>mr_name := trim (mr_name r)\<rparr>) (filter (\<lambda>r. trim (mr_name r) \<noteq> [] \<and> mr_role r = RoleChat) rows)"
    unfolding valid_rows_def by (induction rows) auto
  then show "pick_model RoleChat (valid_rows rows) ids = or_else (ids (trim (mr_name r))) []"
    unfolding f by (simp add: pick_model_def)
qed

subsection \<open>What each part stores\<close>

lemma stored_row:
  assumes "insert_row key v xs = Inr ys"
  shows "find_by key ys (key v) = Some v"
  using assms by (auto simp: insert_row_def find_by_append split: if_splits option.splits)

lemma inserted_keeps: "insert_row key v xs = Inr ys \<Longrightarrow> find_by key xs i = Some w \<Longrightarrow> find_by key ys i = Some w"
  by (auto simp: insert_row_def find_by_append split: if_splits option.splits)

lemma connection_stored:
  assumes "applyLLMConnection url p b k s = Inr (i, s')"
  shows "\<exists>c. find_by lc_id (es_connections s') i = Some c \<and> lc_provider c = p \<and> lc_baseUrl c = trim b \<and> lc_apiKey c = k"
    and "es_models s' = es_models s" and "es_presets s' = es_presets s"
  using assms
  by (auto simp: applyLLMConnection_def Let_def update_llm_connection_def create_llm_connection_def map_sum_Inr
      update_row_find dest: stored_row split: option.splits)

definition models_known :: "string \<Rightarrow> (string \<Rightarrow> string option) \<Rightarrow> llm_model list \<Rightarrow> bool" where
  "models_known connID out ms \<longleftrightarrow>
     (\<forall>n i. out n = Some i \<longrightarrow> (\<exists>m. find_by lm_id ms i = Some m \<and> lm_name m = n \<and> lm_connectionId m = connID))"

lemma models_stored:
  assumes "apply_rows uuid k connID known rows out s = (Inr ids, s')" and "models_known connID out (es_models s)"
    and "models_known connID (\<lambda>n. map_option lm_id (known n)) (es_models s)"
  shows "models_known connID ids (es_models s') \<and> (\<forall>r \<in> set rows. trim (mr_name r) \<noteq> [] \<longrightarrow> ids (trim (mr_name r)) \<noteq> None)
    \<and> (\<forall>n. out n \<noteq> None \<longrightarrow> ids n \<noteq> None) \<and> es_connections s' = es_connections s \<and> es_presets s' = es_presets s"
  using assms
proof (induction uuid k connID known rows out s rule: apply_rows.induct)
  case (1 uuid k connID known out s)
  then show ?case by simp
next
  case (2 uuid k connID known r rs out s)
  show ?case
  proof (cases "trim (mr_name r) = []")
    case True
    then show ?thesis using 2 by simp
  next
    case False
    show ?thesis
    proof (cases "known (trim (mr_name r))")
      case (Some m)
      have o: "models_known connID (out(trim (mr_name r) \<mapsto> lm_id m)) (es_models s)"
        using "2.prems"(2,3) Some unfolding models_known_def by auto
      have "apply_rows uuid (Suc k) connID known rs (out(trim (mr_name r) \<mapsto> lm_id m)) s = (Inr ids, s')"
        using "2.prems"(1) False Some by (simp add: Let_def)
      note ih = "2.IH"(3) [OF refl False Some this o "2.prems"(3)]
      then show ?thesis by (metis fun_upd_apply option.distinct(1) set_ConsD)
    next
      case None
      obtain ms where ms: "insert_row lm_id (new_model (uuid k) connID (trim (mr_name r))) (es_models s) = Inr ms"
        using "2.prems"(1) False None by (auto simp: Let_def split: sum.splits)
      have "find_by lm_id ms (uuid k) = Some (new_model (uuid k) connID (trim (mr_name r)))"
        using stored_row [OF ms] by (simp add: new_model_def)
      then have o: "models_known connID (out(trim (mr_name r) \<mapsto> uuid k)) (es_models (s\<lparr>es_models := ms\<rparr>))"
        using "2.prems"(2) inserted_keeps [OF ms] unfolding models_known_def by (auto simp: new_model_def) metis
      have kn: "models_known connID (\<lambda>n. map_option lm_id (known n)) (es_models (s\<lparr>es_models := ms\<rparr>))"
        using "2.prems"(3) inserted_keeps [OF ms] unfolding models_known_def by simp metis
      have "apply_rows uuid (Suc k) connID known rs (out(trim (mr_name r) \<mapsto> uuid k)) (s\<lparr>es_models := ms\<rparr>) = (Inr ids, s')"
        using "2.prems"(1) False None ms by (simp add: Let_def)
      note ih = "2.IH"(2) [OF refl False None ms this o kn]
      then show ?thesis by simp
    qed
  qed
qed

lemma known_at_first:
  assumes "distinct (map lm_id ms)"
  shows "models_known connID (\<lambda>n. map_option lm_id (byName connID ms n)) ms"
proof -
  have "find_by lm_id ms (lm_id m) = Some m \<and> lm_name m = n \<and> lm_connectionId m = connID" if "byName connID ms n = Some m" for n m
  proof -
    have "(n, m) \<in> set (map (\<lambda>m. (lm_name m, m)) (filter (\<lambda>m. lm_connectionId m = connID) ms))"
      using map_of_SomeD [OF that [unfolded byName_def]] by simp
    then show ?thesis using find_by_mem [OF assms] by auto
  qed
  then show ?thesis unfolding models_known_def by auto
qed

lemma map_sum_right: "map_sum g f x = Inr y \<longleftrightarrow> (\<exists>z. x = Inr z \<and> y = f z)"
  by (cases x) auto

lemma profile_stored:
  assumes "apply_preset uuid connID rows ids s = Inr (i, s')"
  shows "\<exists>p. find_by lp_id (es_presets s') i = Some p \<and> lp_chatModelId p = pick_model RoleChat rows ids"
    and "es_connections s' = es_connections s" and "es_models s' = es_models s"
  using assms
  by (auto simp: apply_preset_def pickModelIDs_def Let_def map_sum_right update_row_find split: if_splits option.splits
      dest: stored_row)

text \<open>Identifiers as the server draws them: without spaces around them and not empty.\<close>

definition tidy_id :: "string \<Rightarrow> bool" where
  "tidy_id i \<longleftrightarrow> trimmed i \<and> i \<noteq> []"

definition tidy_ids :: "engine_store \<Rightarrow> bool" where
  "tidy_ids e \<longleftrightarrow> list_all tidy_id (map lc_id (es_connections e)) \<and> list_all tidy_id (map lm_id (es_models e))
     \<and> list_all tidy_id (map lp_id (es_presets e))"

lemma inserted_ids: "insert_row key v xs = Inr ys \<Longrightarrow> list_all P (map key xs) \<Longrightarrow> P (key v) \<Longrightarrow> list_all P (map key ys)"
  by (auto simp: insert_row_def split: if_splits option.splits)

lemma rows_keep_ids:
  assumes "apply_rows uuid k connID known rows out s = (Inr ids, s')" and "list_all P (map lm_id (es_models s))" and "\<forall>k. P (uuid k)"
  shows "list_all P (map lm_id (es_models s'))"
  using assms
proof (induction uuid k connID known rows out s rule: apply_rows.induct)
  case (2 uuid k connID known r rs out s)
  show ?case
  proof (cases "trim (mr_name r) = []")
    case True
    then show ?thesis using 2 by simp
  next
    case False
    show ?thesis
    proof (cases "known (trim (mr_name r))")
      case (Some m)
      then show ?thesis using 2 False by (simp add: Let_def fun_upd_def)
    next
      case None
      obtain ms where ms: "insert_row lm_id (new_model (uuid k) connID (trim (mr_name r))) (es_models s) = Inr ms"
        using "2.prems"(1) False None by (auto simp: Let_def split: sum.splits)
      then have "list_all P (map lm_id ms)" using inserted_ids [OF ms "2.prems"(2)] "2.prems"(3) by (simp add: new_model_def)
      then show ?thesis using 2 False None ms by (simp add: Let_def fun_upd_def)
    qed
  qed
qed simp

lemma find_mem: "find P xs = Some x \<Longrightarrow> x \<in> set xs"
  by (auto simp: find_Some_iff)

lemma unique_id: "base \<noteq> [] \<Longrightarrow> makeUniqueID base xs \<noteq> []"
proof -
  assume b: "base \<noteq> []"
  have "c \<noteq> []" if "find P (map (\<lambda>i. take 48 (base @ ''-'' @ nat_str i)) is) = Some c" for P "is" c
    using find_mem [OF that] b by auto
  then show ?thesis using b by (auto simp: makeUniqueID_def or_else_def split: option.split simp del: upt.simps upt_rec_numeral)
qed

lemma endpoint_id:
  assumes "applyLLMConnection url p b k e = Inr (i, e')" and "tidy_ids e"
  shows "i \<noteq> []"
proof (cases "find (\<lambda>c. normalizeBaseURL url (lc_baseUrl c) = normalizeBaseURL url b) (es_connections e)")
  case None
  have "suggestEndpointID url b p \<noteq> []" by (simp add: suggestEndpointID_def Let_def split: option.split)
  then have "makeUniqueID (suggestEndpointID url b p) xs \<noteq> []" for xs by (rule unique_id)
  then show ?thesis using assms(1) None by (auto simp: applyLLMConnection_def Let_def map_sum_right)
next
  case (Some c)
  then have "c \<in> set (es_connections e)" by (rule find_mem)
  then show ?thesis using assms Some by (auto simp: applyLLMConnection_def map_sum_right tidy_ids_def list_all_iff tidy_id_def)
qed

lemma profile_id:
  assumes "apply_preset uuid connID rows ids s = Inr (i, s')" and "list_all P (map lp_id (es_presets s))" and "P uuid"
  shows "P i"
proof -
  have "P (lp_id p)" if "matching_profile n (es_presets s) = Some p" for n p
    using that assms(2) by (auto simp: matching_profile_def list_all_iff find_Some_iff split: option.splits)
  then show ?thesis using assms(1,3) by (auto simp: apply_preset_def pickModelIDs_def Let_def map_sum_right split: if_splits option.splits)
qed

text \<open>The channel of the chat names no profile of its own; one that does not exist yet will not.\<close>

definition chat_unpinned :: "channel list \<Rightarrow> bool" where
  "chat_unpinned cs = (case find_by ch_id cs ''chat'' of None \<Rightarrow> True | Some c \<Rightarrow> trim (ch_presetId c) = [])"

lemma chat_channel_kept:
  assumes "apply_channels uuid tg s = (None, s')" and "distinct (map ch_id (ap_channels s))"
  shows "\<exists>c. find_by ch_id (ap_channels s') ''chat'' = Some c \<and> ap_engine s' = ap_engine s
    \<and> ch_presetId c = (case find_by ch_id (ap_channels s) ''chat'' of None \<Rightarrow> [] | Some c \<Rightarrow> ch_presetId c)"
proof -
  obtain cs where cs: "applyChatChannel (ap_channels s) = Inr cs" "applyTelegramChannel uuid tg cs = Inr (ap_channels s')"
    and e: "ap_engine s' = ap_engine s"
    using assms(1) by (auto simp: apply_channels_def split: sum.splits)
  obtain c where c: "find_by ch_id cs ''chat'' = Some c"
    "ch_presetId c = (case find_by ch_id (ap_channels s) ''chat'' of None \<Rightarrow> [] | Some c \<Rightarrow> ch_presetId c)"
    using cs(1) by (auto simp: applyChatChannel_def update_row_find split: option.splits if_splits dest: find_by_Some_key stored_row)
  have "table_ok ch_id (\<lambda>_. True) (ap_channels s)" using assms(2) by (simp add: table_ok_def list_all_iff)
  then have "table_ok ch_id (\<lambda>_. True) cs" using cs(1) insert_row_ok [of ch_id "\<lambda>_. True"] update_row_ok [of ch_id "\<lambda>_. True"]
    by (auto simp: applyChatChannel_def split: option.splits if_splits)
  then have d: "distinct (map ch_id cs)" by (simp add: table_ok_def)
  have same: "x = c" if "find Q cs = Some x" "ch_id x = ''chat''" for x Q
    using find_by_mem [OF d find_mem [OF that(1)]] that(2) c(1) by simp
  have "\<exists>c'. find_by ch_id (ap_channels s') ''chat'' = Some c' \<and> ch_presetId c' = ch_presetId c"
  proof (cases "trim (td_token tg) = [] \<or> td_skipped tg")
    case True
    then show ?thesis using cs(2) c(1) by (auto simp: applyTelegramChannel_def)
  next
    case False
    show ?thesis
    proof (cases "find (\<lambda>c. ch_type c = ''telegram'') cs")
      case None
      then show ?thesis using cs(2) c(1) False inserted_keeps by (fastforce simp: applyTelegramChannel_def Let_def)
    next
      case (Some x)
      then show ?thesis using cs(2) c(1) False same [OF Some] by (auto simp: applyTelegramChannel_def Let_def update_row_find)
    qed
  qed
  then show ?thesis using c e by auto
qed

lemma merged_values:
  assumes "provider st = ''openai'' \<or> provider st = ''gonka''" and "has_chat_row (modelRows st)" and "trim (finish_endpoint st) \<noteq> []"
  shows "let v = ResolveValues env (mergeDrafts old (buildDraft st)) in
    trim (d_provider v) = provider st \<and> d_models v = valid_rows (modelRows st)
    \<and> fst (providerCredentials (provider st) v) = trim (finish_endpoint st)"
proof -
  have t: "trim ''openai'' = ''openai''" "trim ''gonka'' = ''gonka''" by code_simp+
  have "valid_rows (modelRows st) \<noteq> []"
    using assms(2) by (auto simp: has_chat_row_def list_ex_iff valid_rows_def filter_empty_conv)
  then have "d_models (ResolveValues env (mergeDrafts old (buildDraft st))) = valid_rows (modelRows st)"
    by (simp add: resolved_values mergeDrafts_def buildDraft_def Let_def)
  then show ?thesis using assms(1, 3) t
    by (auto simp: Let_def resolved_values mergeDrafts_def buildDraft_def providerCredentials_def finish_endpoint_def)
qed

text \<open>What the setup leaves: identifiers are tidy, and the settings lead to the chat model of the wizard and its endpoint.\<close>

lemma applied_profile:
  assumes "provider st = ''openai'' \<or> provider st = ''gonka''" and "has_chat_row (modelRows st)" and "roles_once (modelRows st)"
    and "trim (finish_endpoint st) \<noteq> []" and "distinct (map lm_id (es_models (ap_engine s)))" and "tidy_ids (ap_engine s)" and "\<forall>k. tidy_id (uuid k)"
    and "apply_config env url uuid (snd (update_config env (buildDraft st) s)) = (None, s')"
  shows "\<exists>i k e1 m c j p tg s1. applyLLMConnection url (provider st) (trim (finish_endpoint st)) k (ap_engine s) = Inr (i, e1)
    \<and> apply_channels (uuid 1) tg s1 = (None, s') \<and> ap_channels s1 = ap_channels s
    \<and> es_settings (ap_engine s1) = Some \<lparr>as_chatPresetId = j, as_serverPresetId = j, as_memoryEnabled = True, as_userMemories = []\<rparr>
    \<and> find_by lp_id (es_presets (ap_engine s1)) j = Some p \<and> find_by lm_id (es_models (ap_engine s1)) (lp_chatModelId p) = Some m
    \<and> find_by lc_id (es_connections (ap_engine s1)) (lm_connectionId m) = Some c
    \<and> tidy_id j \<and> tidy_id (lm_id m) \<and> lm_connectionId m = i \<and> i \<noteq> [] \<and> lm_name m = trim (finish_chat_model (modelRows st))
    \<and> lc_provider c = provider st \<and> lc_baseUrl c = trim (finish_endpoint st)"
proof -
  let ?d = "mergeDrafts (loadDraft s) (buildDraft st)" let ?v = "ResolveValues env ?d" let ?s = "s\<lparr>ap_draft := Some ?d\<rparr>"
  have t: "trim ''openai'' = ''openai''" "trim ''gonka'' = ''gonka''" by code_simp+
  have u: "snd (update_config env (buildDraft st) s) = ?s"
    using assms(1) t by (auto simp: update_config_def validateDraft_def buildDraft_def Let_def)
  have v: "trim (d_provider ?v) = provider st" "d_models ?v = valid_rows (modelRows st)"
    "fst (providerCredentials (provider st) ?v) = trim (finish_endpoint st)"
    using merged_values [OF assms(1, 2, 4), of env "loadDraft s"] by (simp_all add: Let_def)
  obtain k where k: "providerCredentials (provider st) ?v = (trim (finish_endpoint st), k)"
    using v(3) by (metis surjective_pairing)
  have run: "apply_values url uuid ?v ?s = (None, s')"
    using assms(8) unfolding u apply_config_def by (simp add: loadDraft_def or_else_def Let_def split: option.splits)
  obtain i e1 where e1: "applyLLMConnection url (provider st) (trim (finish_endpoint st)) k (ap_engine s) = Inr (i, e1)"
    using run by (auto simp: apply_values_def v k split: sum.splits)
  obtain ids e2 where e2: "applyModels (\<lambda>k. uuid (k + 2)) i (valid_rows (modelRows st)) e1 = (Inr ids, e2)"
    using run by (auto simp: apply_values_def v k e1 split: sum.splits prod.splits)
  obtain j e3 where e3: "apply_preset (uuid 0) i (valid_rows (modelRows st)) ids e2 = Inr (j, e3)"
    using run by (auto simp: apply_values_def v k e1 e2 [simplified] split: sum.splits prod.splits)
  let ?s1 = "?s\<lparr>ap_engine := applySettings j e3\<rparr>"
  have ch: "apply_channels (uuid 1) (d_telegram ?v) ?s1 = (None, s')"
    using run by (auto simp: apply_values_def v k e1 e2 [simplified] e3)
  obtain r where r: "r \<in> set (modelRows st)" "mr_role r = RoleChat" "trim (mr_name r) \<noteq> []"
    using assms(2) by (auto simp: has_chat_row_def list_ex_iff)
  note c = connection_stored [OF e1]
  have e2c: "models_known i ids (es_models e2) \<and> (\<forall>r \<in> set (valid_rows (modelRows st)). trim (mr_name r) \<noteq> [] \<longrightarrow> ids (trim (mr_name r)) \<noteq> None)
    \<and> es_connections e2 = es_connections e1 \<and> es_presets e2 = es_presets e1"
    using models_stored [OF e2 [unfolded applyModels_def]] known_at_first [of "es_models e1" i] assms(5) c(2)
    by (simp add: models_known_def)
  moreover have "r\<lparr>mr_name := trim (mr_name r)\<rparr> \<in> set (valid_rows (modelRows st))" using r by (auto simp: valid_rows_def)
  ultimately obtain a m where m: "ids (trim (mr_name r)) = Some a" "find_by lm_id (es_models e2) a = Some m"
    "lm_name m = trim (mr_name r)" "lm_connectionId m = i" "es_connections e2 = es_connections e1"
    using r unfolding models_known_def by fastforce
  have pk: "pick_model RoleChat (valid_rows (modelRows st)) ids = a" "finish_chat_model (modelRows st) = mr_name r"
    using pick_chat(1) [OF assms(3) r] pick_chat(2) [OF assms(3) r, of ids] m(1) by (simp_all add: or_else_def)
  obtain c' where c': "find_by lc_id (es_connections e1) i = Some c'" "lc_provider c' = provider st" "lc_baseUrl c' = trim (finish_endpoint st)"
    using c(1) by auto
  obtain p where p: "find_by lp_id (es_presets e3) j = Some p" "lp_chatModelId p = a" using profile_stored(1) [OF e3] pk by auto
  have "list_all tidy_id (map lm_id (es_models e2))"
    using rows_keep_ids [OF e2 [unfolded applyModels_def]] assms(6,7) c(2) by (simp add: tidy_ids_def)
  then have tm: "tidy_id (lm_id m)" using find_by_Some_key [OF m(2)] by (auto simp: list_all_iff)
  have tj: "tidy_id j" using profile_id [OF e3, of tidy_id] assms(6,7) e2c c(3) by (simp add: tidy_ids_def)
  have "i \<noteq> []" using endpoint_id [OF e1 assms(6)] .
  moreover have "find_by lp_id (es_presets (ap_engine ?s1)) j = Some p" "find_by lm_id (es_models (ap_engine ?s1)) (lp_chatModelId p) = Some m"
    "find_by lc_id (es_connections (ap_engine ?s1)) (lm_connectionId m) = Some c'"
    using p m c' profile_stored(2, 3) [OF e3] by (simp_all add: applySettings_def)
  moreover have "es_settings (ap_engine ?s1) = Some \<lparr>as_chatPresetId = j, as_serverPresetId = j, as_memoryEnabled = True, as_userMemories = []\<rparr>"
    "ap_channels ?s1 = ap_channels s" "lm_name m = trim (finish_chat_model (modelRows st))"
    using m(3) pk(2) by (simp_all add: applySettings_def)
  ultimately show ?thesis using e1 ch tm tj m(4) c'(2, 3) by metis
qed

lemma unpinned_resolves:
  assumes "find_by ch_id (ap_channels s) ''chat'' = Some c" and "trim (ch_presetId c) = []"
    and "es_settings (ap_engine s) = Some a" and "tidy_id (as_chatPresetId a)"
    and "find_by lp_id (es_presets (ap_engine s)) (as_chatPresetId a) = Some p" and "tidy_id (lp_chatModelId p)"
  shows "resolve_model chat_input s = Inr \<lparr>ro_modelId = lp_chatModelId p, ro_source = ''settings'', ro_presetId = as_chatPresetId a,
    ro_presetName = lp_name p, ro_role = ''primary''\<rparr>"
proof -
  have l: "trim ''chat'' \<noteq> []" "map to_lower (trim ''chat'') = ''chat''" "trim [] = []" by code_simp+
  have t: "trim (as_chatPresetId a) = as_chatPresetId a" "trim (lp_chatModelId p) = lp_chatModelId p" "as_chatPresetId a \<noteq> []" "lp_chatModelId p \<noteq> []"
    using assms(4,6) by (simp_all add: tidy_id_def trim_id)
  have "resolve_slots s [''chat''] = Some \<lparr>ro_modelId = lp_chatModelId p, ro_source = ''settings'', ro_presetId = as_chatPresetId a,
    ro_presetName = lp_name p, ro_role = ''primary''\<rparr>"
    using assms(3,5) t l by (simp add: resolveDefaultPresetID_def resolvePresetToModel_def no_output_def Let_def)
  moreover have "resolveFromChannel s ''chat'' = Inr (if trim (ch_modelId c) \<noteq> [] then no_output\<lparr>ro_modelId := trim (ch_modelId c), ro_role := ''legacy''\<rparr> else no_output)"
    using assms(1,2) by (simp add: resolveFromChannel_def Let_def)
  ultimately show ?thesis using l by (auto simp: resolve_model_def chat_input_def Let_def no_output_def)
qed

lemma applied_engine:
  assumes "provider st = ''openai'' \<or> provider st = ''gonka''" and "has_chat_row (modelRows st)" and "roles_once (modelRows st)"
    and "trim (finish_endpoint st) \<noteq> []" and "distinct (map lm_id (es_models (ap_engine s)))" and "tidy_ids (ap_engine s)" and "\<forall>k. tidy_id (uuid k)"
    and "distinct (map ch_id (ap_channels s))" and "chat_unpinned (ap_channels s)"
    and "apply_config env url uuid (snd (update_config env (buildDraft st) s)) = (None, s')"
  shows "\<exists>i k e1 m c. applyLLMConnection url (provider st) (trim (finish_endpoint st)) k (ap_engine s) = Inr (i, e1)
    \<and> chat_engine s' = Some (m, c) \<and> lc_id c = i \<and> lm_name m = trim (finish_chat_model (modelRows st))
    \<and> lc_provider c = provider st \<and> lc_baseUrl c = trim (finish_endpoint st)"
proof -
  obtain i k e1 m c j p tg s1 where a: "applyLLMConnection url (provider st) (trim (finish_endpoint st)) k (ap_engine s) = Inr (i, e1)"
    and ch: "apply_channels (uuid 1) tg s1 = (None, s')" "ap_channels s1 = ap_channels s"
    and st: "es_settings (ap_engine s1) = Some \<lparr>as_chatPresetId = j, as_serverPresetId = j, as_memoryEnabled = True, as_userMemories = []\<rparr>"
    and f: "find_by lp_id (es_presets (ap_engine s1)) j = Some p" "find_by lm_id (es_models (ap_engine s1)) (lp_chatModelId p) = Some m"
      "find_by lc_id (es_connections (ap_engine s1)) (lm_connectionId m) = Some c"
    and t: "tidy_id j" "tidy_id (lm_id m)" "lm_connectionId m = i" "i \<noteq> []"
    and n: "lm_name m = trim (finish_chat_model (modelRows st))" "lc_provider c = provider st" "lc_baseUrl c = trim (finish_endpoint st)"
    using applied_profile [OF assms(1-7, 10)] by blast
  obtain x where x: "find_by ch_id (ap_channels s') ''chat'' = Some x" "trim (ch_presetId x) = []" and e: "ap_engine s' = ap_engine s1"
    using chat_channel_kept [OF ch(1)] assms(8,9) unfolding ch(2) chat_unpinned_def by (auto simp: trim_id trimmed_def split: option.splits)
  have mid: "lm_id m = lp_chatModelId p" using find_by_Some_key [OF f(2)] by simp
  have "resolve_model chat_input s' = Inr \<lparr>ro_modelId = lp_chatModelId p, ro_source = ''settings'', ro_presetId = j, ro_presetName = lp_name p, ro_role = ''primary''\<rparr>"
    using unpinned_resolves [OF x, of "\<lparr>as_chatPresetId = j, as_serverPresetId = j, as_memoryEnabled = True, as_userMemories = []\<rparr>" p] st f(1) t mid
    unfolding e by simp
  then have "chat_engine s' = Some (m, c)" using f t mid by (simp add: chat_engine_def ResolveModel_def ResolveConnection_def e tidy_id_def trim_id)
  moreover have "lc_id c = i" using find_by_Some_key [OF f(3)] t(3) by simp
  ultimately show ?thesis using a n by blast
qed

text \<open>C16: What the last page shows is what the chat uses. When a draft of the wizard with an address, a chat model and no role
  given twice is saved and applied without an error and the
  channel of the chat names no profile of its own, the server resolves the chat to a model with the name shown as chat
  model, on an endpoint with the address and the provider shown, whatever it had stored before. (Identifiers are taken as
  the server draws them. A chat channel with a profile keeps it: \<open>pinned_chat_keeps_its_profile\<close>.)\<close>

theorem last_page_is_what_chats_use:
  assumes "provider st = ''openai'' \<or> provider st = ''gonka''" and "has_chat_row (modelRows st)" and "roles_once (modelRows st)"
    and "trim (finish_endpoint st) \<noteq> []" and "distinct (map lm_id (es_models (ap_engine s)))" and "tidy_ids (ap_engine s)" and "\<forall>k. tidy_id (uuid k)"
    and "distinct (map ch_id (ap_channels s))" and "chat_unpinned (ap_channels s)"
    and "apply_config env url uuid (snd (update_config env (buildDraft st) s)) = (None, s')"
  shows "\<exists>m c. chat_engine s' = Some (m, c) \<and> lm_name m = trim (finish_chat_model (modelRows st))
    \<and> lc_provider c = provider st \<and> lc_baseUrl c = trim (finish_endpoint st)"
  using applied_engine [OF assms] by blast

text \<open>The identifiers of the examples: one letter per number.\<close>

definition letters :: "nat \<Rightarrow> string" where "letters k = replicate (Suc k) CHR ''u''"

lemma letters_tidy: "\<forall>k. tidy_id (letters k)"
  by (simp add: letters_def tidy_id_def trimmed_def is_ws_def)

definition finish_store :: app_store where
  "finish_store = new_store\<lparr>ap_engine := \<lparr>es_connections = [\<lparr>lc_id = ''old'', lc_provider = ''openai'', lc_baseUrl = ''http://h/'', lc_apiKey = ''x''\<rparr>],
     es_models = [], es_presets = [], es_settings = None\<rparr>\<rparr>"

definition finish_state :: wizard_state where
  "finish_state = buildInitialState (Resolve no_env sample_draft) []"

abbreviation finish_run :: "apply_error option \<times> app_store" where
  "finish_run \<equiv> apply_config no_env (\<lambda>_. None) letters (snd (update_config no_env (buildDraft finish_state) finish_store))"

lemma finish_succeeds: "finish_run = (None, snd finish_run)"
  by code_simp

theorem last_page_is_what_chats_use_witness:
  "\<exists>m c. chat_engine (snd finish_run) = Some (m, c) \<and> lm_name m = trim (finish_chat_model (modelRows finish_state))
    \<and> lc_provider c = provider finish_state \<and> lc_baseUrl c = trim (finish_endpoint finish_state)"
proof (rule last_page_is_what_chats_use [OF _ _ _ _ _ _ letters_tidy _ _ finish_succeeds])
  show "provider finish_state = ''openai'' \<or> provider finish_state = ''gonka''" by code_simp
  show "has_chat_row (modelRows finish_state)" by code_simp
  show "roles_once (modelRows finish_state)" by code_simp
  show "trim (finish_endpoint finish_state) \<noteq> []" by code_simp
  show "distinct (map lm_id (es_models (ap_engine finish_store)))" by code_simp
  show "tidy_ids (ap_engine finish_store)" by code_simp
  show "distinct (map ch_id (ap_channels finish_store))" by code_simp
  show "chat_unpinned (ap_channels finish_store)" by code_simp
qed

text \<open>A profile that was chosen for the chat channel stays in use after a setup: the setup keeps the channel's profile, and the
  resolver asks it first.\<close>

lemma pinned_chat_keeps_its_profile:
  assumes "apply_channels uuid tg s = (None, s')" and "distinct (map ch_id (ap_channels s))"
    and "find_by ch_id (ap_channels s) ''chat'' = Some c" and "trim (ch_presetId c) = i" and "i \<noteq> []"
    and "find_by lp_id (es_presets (ap_engine s)) i = Some p" and "trim (lp_chatModelId p) \<noteq> []"
  shows "resolve_model chat_input s' = Inr \<lparr>ro_modelId = trim (lp_chatModelId p), ro_source = ''channel'', ro_presetId = i,
    ro_presetName = lp_name p, ro_role = ''primary''\<rparr>"
proof -
  have l: "trim ''chat'' \<noteq> []" "trim [] = []" by code_simp+
  obtain x where "find_by ch_id (ap_channels s') ''chat'' = Some x" "ch_presetId x = ch_presetId c" "ap_engine s' = ap_engine s"
    using chat_channel_kept [OF assms(1,2)] assms(3) by auto
  then show ?thesis using assms(4-7) l
    by (simp add: resolve_model_def chat_input_def resolveFromChannel_def resolvePresetToModel_def no_output_def Let_def)
qed

section \<open>Listing models while the setup is finished\<close>

text \<open>\<open>loadModels\<close> lists the models of an address by storing an endpoint for it, asking, and deleting it again.\<close>

definition probe_connection :: "string \<Rightarrow> string \<Rightarrow> string \<Rightarrow> string \<Rightarrow> llm_connection" where
  "probe_connection tempId p baseUrl apiKey = \<lparr>lc_id = tempId, lc_provider = p, lc_baseUrl = trim baseUrl, lc_apiKey = trim apiKey\<rparr>"

text \<open>The whole request when nothing else happens on the server: an error of the first call, or what the list call gives.\<close>

definition probe_models :: "llm_connection \<Rightarrow> (llm_connection \<Rightarrow> string + string list) \<Rightarrow> bool \<Rightarrow> engine_store
    \<Rightarrow> (string + string list) \<times> engine_store" where
  "probe_models c listed deleted s =
     (case create_llm_connection c s of
        Inl e \<Rightarrow> (Inl ''Could not load models'', s)
      | Inr s1 \<Rightarrow> (listed c, if deleted then delete_llm_connection (lc_id c) s1 else s1))"

lemma drop_fresh: "find_by key xs k = None \<Longrightarrow> drop_by key k (xs @ [v]) = xs" if "key v = k"
  using that by (induction xs) (auto split: if_splits)

lemma probe_leaves_no_trace: "snd (probe_models c listed True s) = s"
  by (auto simp: probe_models_def create_llm_connection_def delete_llm_connection_def map_sum_def insert_row_def drop_fresh)

lemma find_snoc: "\<forall>x \<in> set xs. \<not> P x \<Longrightarrow> P y \<Longrightarrow> find P (xs @ [y]) = Some y"
  by (induction xs) auto

lemma chat_engine_without:
  assumes "chat_engine s = Some (m, c)"
  shows "chat_engine (s\<lparr>ap_engine := delete_llm_connection (lc_id c) (ap_engine s)\<rparr>) = None"
proof -
  let ?s = "s\<lparr>ap_engine := delete_llm_connection (lc_id c) (ap_engine s)\<rparr>"
  have p: "resolvePresetToModel (delete_llm_connection i e) j = resolvePresetToModel e j" for i e j
    by (simp add: resolvePresetToModel_def delete_llm_connection_def)
  have d: "resolveDefaultPresetID ?s k = resolveDefaultPresetID s k" for k
    by (simp add: resolveDefaultPresetID_def delete_llm_connection_def)
  have "resolve_slots ?s ks = resolve_slots s ks" for ks by (induction ks) (simp_all add: d p Let_def split: option.split)
  then have "resolve_model chat_input ?s = resolve_model chat_input s"
    by (simp add: resolve_model_def resolveFromChannel_def p Let_def cong: if_cong option.case_cong sum.case_cong)
  then show ?thesis using assms
    by (auto simp: chat_engine_def ResolveModel_def ResolveConnection_def delete_llm_connection_def find_by_drop
        split: option.splits sum.splits if_splits dest: find_by_Some_key)
qed

text \<open>C34: A first setup with an address (no stored endpoint has it yet) that is finished while the wizard still lists the models
  of that address loses its endpoint. The server looks for an endpoint with the address and finds the one the list was
  asked through; profile and models are put on it, and the wizard's deletion that follows leaves the chat with a model
  whose endpoint is gone, its channel naming no profile of its own. (With an endpoint of that address stored before, that one is found first and nothing is lost.)\<close>

theorem listing_takes_the_endpoint_away:
  assumes "provider st = ''openai'' \<or> provider st = ''gonka''" and "has_chat_row (modelRows st)" and "roles_once (modelRows st)"
    and "trim (finish_endpoint st) \<noteq> []" and "distinct (map lm_id (es_models (ap_engine s)))" and "tidy_ids (ap_engine s)" and "\<forall>k. tidy_id (uuid k)"
    and "distinct (map ch_id (ap_channels s))" and "chat_unpinned (ap_channels s)" and "tidy_id tempId"
    and "create_llm_connection (probe_connection tempId (provider st) (finish_endpoint st) key) (ap_engine s) = Inr e"
    and "\<forall>c \<in> set (es_connections (ap_engine s)). normalizeBaseURL url (lc_baseUrl c) \<noteq> normalizeBaseURL url (trim (finish_endpoint st))"
    and "apply_config env url uuid (snd (update_config env (buildDraft st) (s\<lparr>ap_engine := e\<rparr>))) = (None, s')"
  shows "chat_engine s' \<noteq> None \<and> chat_engine (s'\<lparr>ap_engine := delete_llm_connection tempId (ap_engine s')\<rparr>) = None"
proof -
  let ?c = "probe_connection tempId (provider st) (finish_endpoint st) key"
  have e: "es_connections e = es_connections (ap_engine s) @ [?c]" "es_models e = es_models (ap_engine s)" "es_presets e = es_presets (ap_engine s)"
    using assms(11) by (auto simp: create_llm_connection_def map_sum_right insert_row_def split: if_splits)
  have d: "distinct (map lm_id (es_models (ap_engine (s\<lparr>ap_engine := e\<rparr>))))" "tidy_ids (ap_engine (s\<lparr>ap_engine := e\<rparr>))"
    "distinct (map ch_id (ap_channels (s\<lparr>ap_engine := e\<rparr>)))" "chat_unpinned (ap_channels (s\<lparr>ap_engine := e\<rparr>))"
    using assms(5,6,8-10) by (simp_all add: e tidy_ids_def probe_connection_def)
  obtain i k e1 m c where run: "applyLLMConnection url (provider st) (trim (finish_endpoint st)) k e = Inr (i, e1)"
    and r: "chat_engine s' = Some (m, c)" "lc_id c = i"
    using applied_engine [OF assms(1-4) d(1,2) assms(7) d(3,4) assms(13)] by auto
  have "find (\<lambda>c. normalizeBaseURL url (lc_baseUrl c) = normalizeBaseURL url (trim (finish_endpoint st))) (es_connections (ap_engine s) @ [?c]) = Some ?c"
    using assms(12) by (intro find_snoc) (auto simp: probe_connection_def)
  then have "i = tempId" using run by (auto simp: applyLLMConnection_def e map_sum_right probe_connection_def)
  then show ?thesis using r chat_engine_without [OF r(1)] by simp
qed

abbreviation racing_store :: app_store where
  "racing_store \<equiv> new_store\<lparr>ap_engine := (ap_engine new_store)\<lparr>es_connections := [probe_connection ''t'' ''openai'' ''http://h'' ''k'']\<rparr>\<rparr>"

abbreviation racing_run :: "apply_error option \<times> app_store" where
  "racing_run \<equiv> apply_config no_env (\<lambda>_. None) letters (snd (update_config no_env (buildDraft finish_state) racing_store))"

lemma racing_succeeds: "racing_run = (None, snd racing_run)"
  by code_simp

theorem listing_takes_the_endpoint_away_witness:
  "chat_engine (snd racing_run) \<noteq> None
   \<and> chat_engine ((snd racing_run)\<lparr>ap_engine := delete_llm_connection ''t'' (ap_engine (snd racing_run))\<rparr>) = None"
proof (rule listing_takes_the_endpoint_away [OF _ _ _ _ _ _ letters_tidy _ _ _ _ _ racing_succeeds, where key = "''k''"])
  show "provider finish_state = ''openai'' \<or> provider finish_state = ''gonka''" by code_simp
  show "has_chat_row (modelRows finish_state)" by code_simp
  show "roles_once (modelRows finish_state)" by code_simp
  show "trim (finish_endpoint finish_state) \<noteq> []" by code_simp
  show "distinct (map lm_id (es_models (ap_engine new_store)))" by code_simp
  show "tidy_ids (ap_engine new_store)" by code_simp
  show "distinct (map ch_id (ap_channels new_store))" by code_simp
  show "chat_unpinned (ap_channels new_store)" by code_simp
  show "tidy_id ''t''" by code_simp
  show "create_llm_connection (probe_connection ''t'' (provider finish_state) (finish_endpoint finish_state) ''k'') (ap_engine new_store)
    = Inr ((ap_engine new_store)\<lparr>es_connections := [probe_connection ''t'' ''openai'' ''http://h'' ''k'']\<rparr>)" by code_simp
  show "\<forall>c \<in> set (es_connections (ap_engine new_store)). normalizeBaseURL (\<lambda>_. None) (lc_baseUrl c)
      \<noteq> normalizeBaseURL (\<lambda>_. None) (trim (finish_endpoint finish_state))" by (simp add: new_store_def)
qed

section \<open>What else the last button does\<close>

text \<open>C36: Finishing the setup forgets what agents have learned about the user. Whatever the settings were, after a setup that
  was applied the memories are empty and memory is on, and both slots use the profile of the setup; the profile it finds
  is overwritten with no fallback model, no temperature and no system prompt.\<close>

theorem setup_forgets_memories:
  assumes "apply_config env url uuid s = (None, s')"
  shows "as_userMemories (get_settings (ap_engine s')) = [] \<and> as_memoryEnabled (get_settings (ap_engine s'))
    \<and> as_serverPresetId (get_settings (ap_engine s')) = as_chatPresetId (get_settings (ap_engine s'))
    \<and> (\<exists>p. find_by lp_id (es_presets (ap_engine s')) (as_chatPresetId (get_settings (ap_engine s'))) = Some p
        \<and> lp_systemPrompt p = [] \<and> lp_temperature p = None \<and> lp_fallbackModelId p = [])"
proof -
  let ?v = "ResolveValues env (loadDraft s)"
  have run: "apply_values url uuid ?v s = (None, s')"
    using assms by (simp add: apply_config_def Let_def split: option.splits)
  obtain i j ids e2 e3 where e3: "apply_preset (uuid 0) i (d_models ?v) ids e2 = Inr (j, e3)" "ap_engine s' = applySettings j e3"
    using run by (auto simp: apply_values_def apply_channels_def Let_def split: sum.splits prod.splits)
  have "\<exists>p. find_by lp_id (es_presets e3) j = Some p \<and> lp_systemPrompt p = [] \<and> lp_temperature p = None \<and> lp_fallbackModelId p = []"
    using e3(1) by (auto simp: apply_preset_def pickModelIDs_def Let_def map_sum_right update_row_find split: if_splits option.splits
      dest: stored_row)
  then show ?thesis by (simp add: e3(2) applySettings_def get_settings_def or_else_def)
qed

theorem setup_forgets_memories_witness:
  "as_userMemories (get_settings (ap_engine (snd finish_run))) = []"
  using setup_forgets_memories [OF finish_succeeds] by simp

section \<open>The test of a mailbox\<close>

record email_probe =
  epr_ok :: bool
  epr_skipped :: bool
  epr_detail :: string

text \<open>Both pages send the fields that \<open>buildDraft\<close> saves, with \<open>skipped\<close> off.\<close>

definition canTest :: "wizard_state \<Rightarrow> bool" where
  "canTest st \<longleftrightarrow> \<not> emailSkip st \<and> trim (emailAddress st) \<noteq> []
     \<and> (trim (emailSmtpHost st) \<noteq> [] \<and> (emailSmtpPasswordKnown st \<or> trim (emailSmtpPassword st) \<noteq> [])
        \<or> trim (emailImapHost st) \<noteq> [] \<and> (emailImapPasswordKnown st \<or> trim (emailImapPassword st) \<noteq> []))"

definition test_payload :: "wizard_state \<Rightarrow> email_draft" where
  "test_payload st = \<lparr>ed_address = trim (emailAddress st), ed_smtpHost = trim (emailSmtpHost st),
     ed_smtpPort = trim (emailSmtpPort st), ed_smtpUsername = trim (emailSmtpUsername st), ed_smtpPassword = trim (emailSmtpPassword st),
     ed_imapHost = trim (emailImapHost st), ed_imapPort = trim (emailImapPort st), ed_imapUsername = trim (emailImapUsername st),
     ed_imapPassword = trim (emailImapPassword st), ed_skipped = False\<rparr>"

text \<open>The server's probe of one side; \<open>login\<close> is the conversation with the mail server, an error with its text.\<close>

definition probe_side :: "(string \<Rightarrow> string \<Rightarrow> string \<Rightarrow> string option) \<Rightarrow> string \<Rightarrow> string \<Rightarrow> string \<Rightarrow> string \<Rightarrow> email_probe" where
  "probe_side login side host user pass =
     (let h = trim host in
      if h = [] \<or> trim user = [] \<or> trim pass = [] then \<lparr>epr_ok = False, epr_skipped = True, epr_detail = ''no '' @ side @ '' credentials''\<rparr>
      else case login h user pass of
          Some e \<Rightarrow> \<lparr>epr_ok = False, epr_skipped = False, epr_detail = e\<rparr>
        | None \<Rightarrow> \<lparr>epr_ok = True, epr_skipped = False, epr_detail = ''login succeeded''\<rparr>)"

definition verify_email :: "(string \<Rightarrow> string \<Rightarrow> string \<Rightarrow> string option) \<Rightarrow> (string \<Rightarrow> string \<Rightarrow> string \<Rightarrow> string option) \<Rightarrow> email_draft
    \<Rightarrow> (email_probe \<times> email_probe) option" where
  "verify_email smtp imap d =
     (let addr = trim (ed_address d) in
      if addr = [] \<and> ed_smtpUsername d = [] \<and> ed_imapUsername d = [] then None
      else Some (probe_side smtp ''SMTP'' (ed_smtpHost d) (str_or (ed_smtpUsername d) addr) (ed_smtpPassword d),
                 probe_side imap ''IMAP'' (ed_imapHost d) (str_or (ed_imapUsername d) addr) (ed_imapPassword d)))"

text \<open>The line of a side under the button (\<open>ProbeRow\<close>).\<close>

definition probe_message :: "email_probe \<Rightarrow> string" where
  "probe_message p =
     (if epr_skipped p then ''skipped '' @ [em_dash] @ '' fill in to test''
      else str_or (epr_detail p) (if epr_ok p then ''login succeeded'' else ''failed''))"

lemma canTest_is_next: "canTest st \<longleftrightarrow> \<not> emailSkip st \<and> \<not> isNextDisabled SEmail st"
  by (auto simp: canTest_def Let_def)

lemma tested_is_saved: "\<not> emailSkip st \<Longrightarrow> test_payload st = d_email (buildDraft st)"
  by (simp add: test_payload_def buildDraft_def)

text \<open>A stored mailbox password whose field was emptied is not tested. The label says that the password is saved and to be
  entered to replace it, and the test is offered; but the page sends the empty field, the server does not add the stored
  password, and both sides are reported as skipped, although saving the same page keeps the passwords.\<close>

theorem stored_password_is_not_tested:
  assumes "emailSmtpPassword st = []" and "emailImapPassword st = []" and "canTest st"
  shows "(\<exists>a b. verify_email smtp imap (test_payload st) = Some (a, b) \<and> epr_skipped a \<and> epr_skipped b)
    \<and> ed_smtpPassword (d_email (mergeDrafts old (buildDraft st))) = ed_smtpPassword (d_email old)
    \<and> ed_imapPassword (d_email (mergeDrafts old (buildDraft st))) = ed_imapPassword (d_email old)"
  using assms by (auto simp: canTest_def verify_email_def test_payload_def probe_side_def mergeDrafts_def buildDraft_def Let_def)

theorem stored_password_is_not_tested_witness:
  "\<exists>a b. verify_email (\<lambda>_ _ _. None) (\<lambda>_ _ _. None) (test_payload (finish_state\<lparr>emailAddress := ''a'', emailSmtpHost := ''h'', emailSmtpPasswordKnown := True,
      emailSmtpPassword := [], emailImapPassword := [], emailSkip := False\<rparr>)) = Some (a, b) \<and> epr_skipped a \<and> epr_skipped b"
  using stored_password_is_not_tested [of "finish_state\<lparr>emailAddress := ''a'', emailSmtpHost := ''h'', emailSmtpPasswordKnown := True,
      emailSmtpPassword := [], emailImapPassword := [], emailSkip := False\<rparr>"]
  by (simp add: canTest_def trim_id trimmed_def is_ws_def)
end
