(* ===== verification/WizardController.thy ===== *)
theory WizardController
  imports SetupFinish
begin

text \<open>
  The desktop's setup wizard: the controller \<open>frontend/src/pages/chat-winxp/wizard-steps/useWizardController.ts\<close>, written out with
  the functions of that file. It has no mode and does not resume. It is compared with the plain page (\<open>WizardMachine\<close>), which it
  repeats. Then the bars that show the progress and the buttons of both (\<open>Stepper.tsx\<close>, \<open>NavBar.tsx\<close>, \<open>WinXpWizard.tsx\<close>,
  \<open>WizardFooter.tsx\<close>, \<open>wizard-steps/index.ts\<close>).
\<close>

section \<open>State\<close>

text \<open>\<open>xc_saved\<close> and \<open>xc_done\<close> say what was sent to the server and how often \<open>onDone\<close> was called.\<close>

record wizard_controller =
  xc_state :: "wizard_state option"
  xc_stepId :: step_id
  xc_gonkaConfig :: "gonka_config option"
  xc_error :: string
  xc_submitting :: bool
  xc_availableModels :: "string list option"
  xc_loadingModels :: bool
  xc_modelsError :: string
  xc_saved :: "global_draft option"
  xc_done :: nat

definition xc_start :: wizard_controller where
  "xc_start = \<lparr>xc_state = None, xc_stepId = SProvider, xc_gonkaConfig = None, xc_error = [], xc_submitting = False,
     xc_availableModels = None, xc_loadingModels = False, xc_modelsError = [], xc_saved = None, xc_done = 0\<rparr>"

definition xc_buildInitialState :: "global_config \<Rightarrow> string \<Rightarrow> wizard_state" where
  "xc_buildInitialState cfg defaultGonkaNode =
     (let ids = or_else (tc_allowedUserIds (g_telegram cfg)) [];
          linkedFromConfig = (if ids = [] then 0 else hd ids); tg = g_telegram cfg; em = g_email cfg
      in \<lparr>provider = (if cf_value (g_provider cfg) = [] then ''openai'' else cf_value (g_provider cfg)),
          openaiBaseUrl = cf_value (oc_baseUrl (g_openai cfg)), openaiApiKey = cs_value (oc_apiKey (g_openai cfg)),
          openaiApiKeyKnown = cs_set (oc_apiKey (g_openai cfg)),
          modelRows = (if g_models cfg = [] then [empty_row] else map (\<lambda>m. \<lparr>mr_name = mr_name m, mr_role = mr_role m\<rparr>) (g_models cfg)),
          walletMode = CreateWallet, walletImportMode = Mnemonic,
          gonkaNodeUrl = (if cf_value (gc_nodeUrl (g_gonka cfg)) = [] then defaultGonkaNode else cf_value (gc_nodeUrl (g_gonka cfg))),
          gonkaPrivateKey = [], gonkaPrivateKeyKnown = cs_set (gc_privateKey (g_gonka cfg)), gonkaMnemonicInput = [],
          gonkaAddress = [], gonkaMnemonicWords = [], mnemonicAcknowledged = False, bypassBalance = False, gonkaBalance = None,
          tgToken = cs_value (tc_token tg), tgTokenKnown = cs_set (tc_token tg),
          tgLinkedUser = (if linkedFromConfig = 0 then None else Some \<lparr>tu_id = linkedFromConfig, tu_username = None, tu_name = []\<rparr>),
          tgAllowedUserIds = ids, tgSkip = tc_skipped tg,
          emailAddress = cf_value (ec_address em), emailSmtpHost = cf_value (ec_smtpHost em), emailSmtpPort = cf_value (ec_smtpPort em),
          emailSmtpUsername = cf_value (ec_smtpUsername em), emailSmtpPassword = cs_value (ec_smtpPassword em),
          emailSmtpPasswordKnown = cs_set (ec_smtpPassword em), emailImapHost = cf_value (ec_imapHost em),
          emailImapPort = cf_value (ec_imapPort em), emailImapUsername = cf_value (ec_imapUsername em),
          emailImapPassword = cs_value (ec_imapPassword em), emailImapPasswordKnown = cs_set (ec_imapPassword em),
          emailSkip = ec_skipped em\<rparr>)"

text \<open>The effect that loads the configuration; \<open>None\<close> is a request for the Gonka node that failed.\<close>

definition xc_loaded :: "global_config \<Rightarrow> gonka_config option \<Rightarrow> wizard_controller \<Rightarrow> wizard_controller" where
  "xc_loaded cfg gonka c =
     (let fallback = str_or (case gonka of Some g \<Rightarrow> defaultNodeUrl g | None \<Rightarrow> []) DEFAULT_GONKA_NODE in
      c\<lparr>xc_gonkaConfig := Some (or_else gonka \<lparr>defaultNodeUrl = fallback, inferencedAvailable = False, minBalanceGnk = ''0.1''\<rparr>),
        xc_state := Some (xc_buildInitialState cfg fallback)\<rparr>)"

definition xc_path :: "wizard_controller \<Rightarrow> step_id list" where
  "xc_path c = (case xc_state c of None \<Rightarrow> [] | Some st \<Rightarrow> buildPath st (xc_gonkaConfig c) FullMode None)"

definition xc_currentIdx :: "wizard_controller \<Rightarrow> nat" where
  "xc_currentIdx c = (if xc_state c = None then 0 else or_else (index_of (xc_stepId c) (xc_path c)) 0)"

definition xc_canBack :: "wizard_controller \<Rightarrow> bool" where
  "xc_canBack c \<longleftrightarrow> xc_currentIdx c > 0 \<and> xc_stepId c \<noteq> SWalletReveal"

definition xc_hasEnoughBalance :: "wizard_state \<Rightarrow> bool" where
  "xc_hasEnoughBalance st \<longleftrightarrow> gonkaBalance st \<noteq> None \<and> (\<forall>b. gonkaBalance st = Some b \<longrightarrow> b_gnk b \<ge> MIN_BALANCE_GNK)"

definition xc_isNextDisabled :: "step_id \<Rightarrow> wizard_state \<Rightarrow> bool" where
  "xc_isNextDisabled i st =
     (let hasChat = list_ex (\<lambda>r. mr_role r = RoleChat \<and> trim (mr_name r) \<noteq> []) (modelRows st) in
      case i of
        SProvider \<Rightarrow> provider st = []
      | SOpenai \<Rightarrow> trim (openaiBaseUrl st) = [] \<or> \<not> hasChat
      | SWalletChoice \<Rightarrow> False
      | SWalletCreate \<Rightarrow> True
      | SWalletImport \<Rightarrow> True
      | SWalletReveal \<Rightarrow> \<not> mnemonicAcknowledged st
      | SWalletBalance \<Rightarrow> \<not> bypassBalance st \<and> \<not> xc_hasEnoughBalance st
      | SGonkaModels \<Rightarrow> \<not> hasChat
      | STelegram \<Rightarrow> if tgSkip st \<or> tgLinkedUser st \<noteq> None then False else \<not> tgTokenKnown st
      | SEmail \<Rightarrow>
          if emailSkip st then False
          else
            (let hasAddress = trim (emailAddress st) \<noteq> [];
                 hasSmtp = trim (emailSmtpHost st) \<noteq> [] \<and> (emailSmtpPasswordKnown st \<or> trim (emailSmtpPassword st) \<noteq> []);
                 hasImap = trim (emailImapHost st) \<noteq> [] \<and> (emailImapPasswordKnown st \<or> trim (emailImapPassword st) \<noteq> [])
             in \<not> (hasAddress \<and> (hasSmtp \<or> hasImap)))
      | SFinish \<Rightarrow> False)"

definition xc_canNext :: "wizard_controller \<Rightarrow> bool" where
  "xc_canNext c = (case xc_state c of Some st \<Rightarrow> \<not> xc_isNextDisabled (xc_stepId c) st | None \<Rightarrow> False)"

section \<open>Handlers\<close>

definition xc_update :: "(wizard_state \<Rightarrow> wizard_state) \<Rightarrow> wizard_controller \<Rightarrow> wizard_controller" where
  "xc_update f c = c\<lparr>xc_state := map_option f (xc_state c)\<rparr>"

definition xc_goNext :: "wizard_controller \<Rightarrow> wizard_controller" where
  "xc_goNext c =
     (let c1 = c\<lparr>xc_error := []\<rparr> in
      case JsPrelude.at (xc_path c) (xc_currentIdx c + 1) of Some i \<Rightarrow> c1\<lparr>xc_stepId := i\<rparr> | None \<Rightarrow> c1)"

text \<open>\<open>path[-1]\<close> is undefined.\<close>

definition xc_goBack :: "wizard_controller \<Rightarrow> wizard_controller" where
  "xc_goBack c =
     (let c1 = c\<lparr>xc_error := []\<rparr> in
      case (if xc_currentIdx c = 0 then None else JsPrelude.at (xc_path c) (xc_currentIdx c - 1)) of
        Some i \<Rightarrow> c1\<lparr>xc_stepId := i\<rparr> | None \<Rightarrow> c1)"

text \<open>The change of the state, and the effect on a change of the provider.\<close>

definition xc_onProviderSelect :: "string \<Rightarrow> wizard_controller \<Rightarrow> wizard_controller" where
  "xc_onProviderSelect x c =
     (let c1 = xc_update (\<lambda>st. if provider st = x then st else st\<lparr>provider := x, modelRows := [empty_row]\<rparr>) c in
      if map_option provider (xc_state c1) = map_option provider (xc_state c) then c1
      else c1\<lparr>xc_availableModels := None, xc_modelsError := []\<rparr>)"

definition xc_onCreateWallet_begin :: "wizard_controller \<Rightarrow> wizard_controller" where
  "xc_onCreateWallet_begin c = c\<lparr>xc_submitting := True, xc_error := []\<rparr>"

definition xc_onCreateWallet_end :: "string + gonka_wallet \<Rightarrow> wizard_controller \<Rightarrow> wizard_controller" where
  "xc_onCreateWallet_end answer c =
     (case answer of
        Inl msg \<Rightarrow> c\<lparr>xc_error := msg, xc_submitting := False\<rparr>
      | Inr w \<Rightarrow>
          (xc_update (\<lambda>st. st\<lparr>gonkaPrivateKey := w_privateKeyHex w, gonkaPrivateKeyKnown := True, gonkaAddress := w_address w,
             gonkaMnemonicWords := w_words w, mnemonicAcknowledged := False\<rparr>) c)\<lparr>xc_stepId := SWalletReveal, xc_submitting := False\<rparr>)"

definition xc_onUseExisting_begin :: "wizard_controller \<Rightarrow> wizard_controller" where
  "xc_onUseExisting_begin c = (if xc_state c = None then c else c\<lparr>xc_submitting := True, xc_error := []\<rparr>)"

definition xc_onUseExisting_end :: "string + import_answer \<Rightarrow> wizard_controller \<Rightarrow> wizard_controller" where
  "xc_onUseExisting_end answer c =
     (case answer of
        Inl msg \<Rightarrow> c\<lparr>xc_error := msg, xc_submitting := False\<rparr>
      | Inr (ImportedWallet w) \<Rightarrow>
          (xc_update (\<lambda>st. st\<lparr>gonkaPrivateKey := w_privateKeyHex w, gonkaPrivateKeyKnown := True, gonkaAddress := w_address w,
             gonkaMnemonicWords := w_words w\<rparr>) c)\<lparr>xc_stepId := SWalletBalance, xc_submitting := False\<rparr>
      | Inr (DerivedAddress a) \<Rightarrow>
          (xc_update (\<lambda>st. st\<lparr>gonkaAddress := a, gonkaPrivateKeyKnown := True\<rparr>) c)\<lparr>xc_stepId := SWalletBalance, xc_submitting := False\<rparr>)"

definition xc_loadModels_begin :: "string \<Rightarrow> wizard_controller \<Rightarrow> wizard_controller" where
  "xc_loadModels_begin baseUrl c =
     (if trim baseUrl = [] then c\<lparr>xc_modelsError := ''Fill in the server URL first.''\<rparr>
      else c\<lparr>xc_loadingModels := True, xc_modelsError := []\<rparr>)"

definition xc_autoFillFirstModel :: "string list \<Rightarrow> wizard_state \<Rightarrow> wizard_state" where
  "xc_autoFillFirstModel models prev =
     (let isEmpty = (case modelRows prev of [] \<Rightarrow> True | [r] \<Rightarrow> trim (mr_name r) = [] | _ \<Rightarrow> False) in
      case models of m # _ \<Rightarrow> if isEmpty then prev\<lparr>modelRows := [\<lparr>mr_name = m, mr_role = RoleChat\<rparr>]\<rparr> else prev | [] \<Rightarrow> prev)"

text \<open>The end of \<open>loadModels\<close> and what its callers do with the list it returns, which is empty after an error.\<close>

definition xc_loadModels_end :: "string + string list \<Rightarrow> wizard_controller \<Rightarrow> wizard_controller" where
  "xc_loadModels_end answer c =
     (case answer of
        Inl msg \<Rightarrow> xc_update (xc_autoFillFirstModel []) (c\<lparr>xc_modelsError := msg, xc_loadingModels := False\<rparr>)
      | Inr models \<Rightarrow> xc_update (xc_autoFillFirstModel models) (c\<lparr>xc_availableModels := Some models, xc_loadingModels := False\<rparr>))"

definition xc_buildDraft :: "wizard_state \<Rightarrow> global_draft" where
  "xc_buildDraft st =
     (let validRows = map (\<lambda>r. \<lparr>mr_name = trim (mr_name r), mr_role = mr_role r\<rparr>) (filter (\<lambda>r. trim (mr_name r) \<noteq> []) (modelRows st));
          linkedId = (case tgLinkedUser st of Some u \<Rightarrow> tu_id u | None \<Rightarrow> 0);
          merged = (if linkedId = 0 then tgAllowedUserIds st else dedupe (linkedId # tgAllowedUserIds st))
      in \<lparr>d_provider = provider st,
          d_openai = \<lparr>od_baseUrl = trim (openaiBaseUrl st), od_apiKey = trim (openaiApiKey st)\<rparr>,
          d_gonka = \<lparr>gd_nodeUrl = trim (gonkaNodeUrl st), gd_privateKey = trim (gonkaPrivateKey st)\<rparr>,
          d_models = validRows,
          d_telegram = \<lparr>td_token = trim (tgToken st), td_allowedUserIds = (if tgSkip st then [] else merged), td_skipped = tgSkip st\<rparr>,
          d_email = \<lparr>ed_address = trim (emailAddress st), ed_smtpHost = trim (emailSmtpHost st), ed_smtpPort = trim (emailSmtpPort st),
            ed_smtpUsername = trim (emailSmtpUsername st), ed_smtpPassword = trim (emailSmtpPassword st),
            ed_imapHost = trim (emailImapHost st), ed_imapPort = trim (emailImapPort st), ed_imapUsername = trim (emailImapUsername st),
            ed_imapPassword = trim (emailImapPassword st), ed_skipped = emailSkip st\<rparr>\<rparr>)"

definition xc_onComplete_begin :: "wizard_controller \<Rightarrow> wizard_controller" where
  "xc_onComplete_begin c = (case xc_state c of None \<Rightarrow> c
     | Some st \<Rightarrow> c\<lparr>xc_submitting := True, xc_error := [], xc_saved := Some (xc_buildDraft st)\<rparr>)"

definition xc_onComplete_end :: "string option \<Rightarrow> wizard_controller \<Rightarrow> wizard_controller" where
  "xc_onComplete_end failure c = (case failure of
      Some msg \<Rightarrow> c\<lparr>xc_error := msg, xc_submitting := False\<rparr>
    | None \<Rightarrow> c\<lparr>xc_done := Suc (xc_done c), xc_submitting := False\<rparr>)"

text \<open>When the controller starts to list models by itself.\<close>

definition xc_autoloads_openai :: "wizard_controller \<Rightarrow> bool" where
  "xc_autoloads_openai c \<longleftrightarrow> xc_stepId c = SOpenai \<and> trim (case xc_state c of Some st \<Rightarrow> openaiBaseUrl st | None \<Rightarrow> []) \<noteq> []"

definition xc_autoloads_gonka :: "bool \<Rightarrow> wizard_controller \<Rightarrow> bool" where
  "xc_autoloads_gonka alreadyLoaded c = (case xc_state c of None \<Rightarrow> False
     | Some st \<Rightarrow> xc_stepId c = SGonkaModels \<and> \<not> alreadyLoaded \<and> \<not> (xc_availableModels c \<noteq> None \<or> xc_loadingModels c)
         \<and> \<not> (trim (gonkaNodeUrl st) = [] \<or> trim (gonkaPrivateKey st) = []))"

fun xc_step :: "wizard_event \<Rightarrow> wizard_controller \<Rightarrow> wizard_controller" where
  "xc_step (Loaded cfg gonka) c = xc_loaded cfg gonka c"
| "xc_step (Edit e) c = xc_update (edit_field e) c"
| "xc_step Next c = xc_goNext c"
| "xc_step Back c = xc_goBack c"
| "xc_step (SelectProvider x) c = xc_onProviderSelect x c"
| "xc_step (SelectWalletMode w) c = xc_update (\<lambda>st. st\<lparr>walletMode := w\<rparr>) c"
| "xc_step CreateStart c = xc_onCreateWallet_begin c"
| "xc_step (CreateEnd a) c = xc_onCreateWallet_end a c"
| "xc_step UseStart c = xc_onUseExisting_begin c"
| "xc_step (UseEnd a) c = xc_onUseExisting_end a c"
| "xc_step (ModelsStart url) c = xc_loadModels_begin url c"
| "xc_step (ModelsEnd a) c = xc_loadModels_end a c"
| "xc_step CompleteStart c = xc_onComplete_begin c"
| "xc_step (CompleteEnd f) c = xc_onComplete_end f c"

section \<open>Both wizards agree\<close>

text \<open>What the controller has of the state of the plain page: neither the mode nor the configuration that resuming needs.\<close>

definition controller :: "wizard \<Rightarrow> wizard_controller" where
  "controller m = \<lparr>xc_state = wm_state m, xc_stepId = stepId m, xc_gonkaConfig = wm_gonka m, xc_error = wm_error m,
     xc_submitting = submitting m, xc_availableModels = availableModels m, xc_loadingModels = loadingModels m,
     xc_modelsError = modelsError m, xc_saved = wm_saved m, xc_done = wm_done m\<rparr>"

lemma controller_sel [simp]:
  "xc_state (controller m) = wm_state m" "xc_stepId (controller m) = stepId m" "xc_gonkaConfig (controller m) = wm_gonka m"
  "xc_submitting (controller m) = submitting m"
  by (simp_all add: controller_def)

lemma controller_path: "wm_mode m = FullMode \<Longrightarrow> xc_path (controller m) = path m"
  by (simp add: path_def xc_path_def buildPath_def Let_def split: option.split)

lemma controller_idx: "wm_mode m = FullMode \<Longrightarrow> xc_currentIdx (controller m) = currentIdx m"
  by (simp add: currentIdx_def xc_currentIdx_def controller_path split: option.split)

lemma controller_back: "wm_mode m = FullMode \<Longrightarrow> xc_canBack (controller m) = canBack m"
  by (simp add: canBack_def xc_canBack_def controller_idx)

lemma xc_disabled_eq: "xc_isNextDisabled i st = isNextDisabled i st"
  by (cases i) (auto simp: xc_isNextDisabled_def has_chat_row_def xc_hasEnoughBalance_def hasEnoughBalance_def Let_def split: option.split)

lemma controller_next: "xc_canNext (controller m) = canNext m"
  by (simp add: xc_canNext_def canNext_def xc_disabled_eq split: option.split)

lemma xc_initial_eq: "xc_buildInitialState cfg n = buildInitialState cfg n"
  by (auto simp: xc_buildInitialState_def buildInitialState_def Let_def str_or_def map_idI split: list.split)

lemma xc_draft_eq: "xc_buildDraft st = buildDraft st"
  by (auto simp: xc_buildDraft_def buildDraft_def valid_rows_def merged_ids_def Let_def split: option.split)

lemma xc_autofill_eq: "xc_autoFillFirstModel models st = autoFillFirstModel models st"
  by (auto simp: xc_autoFillFirstModel_def autoFillFirstModel_def Let_def split: list.split)

lemma next_simulates: "wm_mode m = FullMode \<Longrightarrow> controller (goNext m) = xc_goNext (controller m)"
  by (simp add: xc_goNext_def goNext_def Let_def controller_path controller_idx split: option.split)
    (simp add: controller_def goTo_def)

lemma back_simulates: "wm_mode m = FullMode \<Longrightarrow> controller (goBack m) = xc_goBack (controller m)"
  by (simp add: xc_goBack_def goBack_def Let_def controller_path controller_idx split: option.split)
    (simp add: controller_def goTo_def)

lemmas xc_simps = xc_update_def on_state_def goTo_def Let_def xc_onProviderSelect_def onProviderSelect_def
  xc_onCreateWallet_begin_def submit_begin_def xc_onCreateWallet_end_def onCreateWallet_def
  xc_onUseExisting_begin_def onUseExisting_begin_def xc_onUseExisting_end_def onUseExisting_def
  xc_loadModels_begin_def loadModels_begin_def xc_loadModels_end_def loadModels_end_def onWalletModeSelect_def
  xc_onComplete_begin_def onComplete_begin_def xc_onComplete_end_def onComplete_end_def
  xc_draft_eq xc_autofill_eq [abs_def] controller_def

lemma step_simulates: "wm_mode m = FullMode \<Longrightarrow> controller (wizard_step e m) = xc_step e (controller m)"
proof (cases e)
  case (Loaded cfg gonka)
  moreover assume "wm_mode m = FullMode"
  ultimately show ?thesis
    by (cases gonka; cases "ws_firstMissing (deriveStatus (Some cfg))")
      (auto simp: xc_loaded_def loaded_def Let_def xc_initial_eq or_else_def str_or_def controller_def)
next
  case Next
  moreover assume "wm_mode m = FullMode"
  ultimately show ?thesis by (simp add: next_simulates)
next
  case Back
  moreover assume "wm_mode m = FullMode"
  ultimately show ?thesis by (simp add: back_simulates)
qed (auto simp: xc_simps split: option.split sum.split import_answer.split)

lemma mode_stays: "wm_mode (wizard_step e m) = wm_mode m"
proof (cases e)
  case (Loaded cfg gonka)
  then show ?thesis by (cases "ws_firstMissing (deriveStatus (Some cfg))") (simp_all add: loaded_def Let_def)
qed (auto simp: xc_simps split: option.split sum.split import_answer.split)

lemma run_simulates: "wm_mode m = FullMode \<Longrightarrow> wm_mode (run_steps wizard_step es m) = FullMode
    \<and> controller (run_steps wizard_step es m) = run_steps xc_step es (controller m)"
  by (induction es arbitrary: m) (simp_all add: step_simulates mode_stays)

text \<open>C30: The two setup wizards, which are written twice, agree on a whole setup. After the same events, in any order and with
  any answers of the server, the desktop's controller shows the step and has the answers, errors, lists of models and the
  saved draft of the plain page that was opened for a whole setup; both go through the same steps, and Back and Next are
  on at the same time. (The plain page can also resume a setup; the desktop's wizard cannot.)\<close>

theorem both_wizards_agree:
  "let m = run_steps wizard_step es (wizard_start FullMode); c = run_steps xc_step es xc_start in
   controller m = c \<and> xc_path c = path m \<and> xc_currentIdx c = currentIdx m \<and> xc_canBack c = canBack m \<and> xc_canNext c = canNext m"
proof -
  have "controller (wizard_start FullMode) = xc_start" "wm_mode (wizard_start FullMode) = FullMode"
    by (simp_all add: controller_def xc_start_def wizard_start_def)
  then show ?thesis using run_simulates [of "wizard_start FullMode" es] controller_path controller_idx controller_back controller_next
    by (metis (no_types, lifting))
qed

section \<open>Progress and buttons\<close>

datatype dot = DotDone | DotActive | DotTodo

definition stepper_dots :: "step_id list \<Rightarrow> step_id \<Rightarrow> dot list" where
  "stepper_dots pth i =
     (let idx = or_else (index_of i pth) 0 in
      map (\<lambda>(k, _). if k = idx then DotActive else if k < idx then DotDone else DotTodo) (enumerate 0 pth))"

text \<open>The text beside it: \<open>step i/n\<close>, or \<open>finishing\<close> when a setup is resumed.\<close>

definition step_counter :: "wizard \<Rightarrow> string" where
  "step_counter m = (if wm_mode m = ResumeMode then ''finishing''
     else ''step '' @ nat_str (currentIdx m + 1) @ ''/'' @ nat_str (length (path m)))"

definition GONKA_LINK_STEPS :: "step_id list" where
  "GONKA_LINK_STEPS = [SProvider, SWalletChoice, SWalletCreate, SWalletImport, SWalletReveal, SWalletBalance, SGonkaModels]"

definition showsGonkaLink :: "step_id \<Rightarrow> bool" where
  "showsGonkaLink i \<longleftrightarrow> i \<in> set GONKA_LINK_STEPS"

definition WIDE_STEPS :: "step_id list" where "WIDE_STEPS = [SProvider, SWalletChoice]"

definition contentMaxWidth :: "step_id \<Rightarrow> string" where
  "contentMaxWidth i = (if i \<in> set WIDE_STEPS then ''max-w-5xl'' else ''max-w-lg'')"

text \<open>The bar at the bottom: whether Back is there, and the main button with what it does and whether it is off.\<close>

datatype wizard_button = ContinueButton | CompleteButton

definition STEPS_WITH_INLINE_ACTION :: "step_id list" where
  "STEPS_WITH_INLINE_ACTION = [SWalletCreate, SWalletImport]"

definition nav_bar :: "wizard \<Rightarrow> bool \<times> (wizard_button \<times> bool) option" where
  "nav_bar m = (case wm_state m of None \<Rightarrow> (False, None)
     | Some st \<Rightarrow>
         (canBack m,
          if stepId m \<in> set STEPS_WITH_INLINE_ACTION then None
          else if stepId m = SFinish then Some (CompleteButton, submitting m)
          else Some (ContinueButton, isNextDisabled (stepId m) st)))"

record step_def =
  sd_heading :: "string option"
  sd_hideNext :: bool

fun STEP_REGISTRY :: "step_id \<Rightarrow> step_def" where
  "STEP_REGISTRY SProvider = \<lparr>sd_heading = Some ''Where should your AI live?'', sd_hideNext = False\<rparr>"
| "STEP_REGISTRY SOpenai = \<lparr>sd_heading = Some ''Connect your AI'', sd_hideNext = False\<rparr>"
| "STEP_REGISTRY SWalletChoice = \<lparr>sd_heading = Some ''Get a Gonka wallet'', sd_hideNext = False\<rparr>"
| "STEP_REGISTRY SWalletImport = \<lparr>sd_heading = Some ''Plug in your wallet'', sd_hideNext = True\<rparr>"
| "STEP_REGISTRY SWalletCreate = \<lparr>sd_heading = Some ''Create a new wallet'', sd_hideNext = True\<rparr>"
| "STEP_REGISTRY SWalletReveal = \<lparr>sd_heading = Some ''Your secret words'', sd_hideNext = False\<rparr>"
| "STEP_REGISTRY SWalletBalance = \<lparr>sd_heading = Some ''Add some GNK'', sd_hideNext = False\<rparr>"
| "STEP_REGISTRY SGonkaModels = \<lparr>sd_heading = Some ''Pick your models'', sd_hideNext = False\<rparr>"
| "STEP_REGISTRY STelegram = \<lparr>sd_heading = Some ''Add Telegram'', sd_hideNext = False\<rparr>"
| "STEP_REGISTRY SEmail = \<lparr>sd_heading = Some ''Connect your mailbox'', sd_hideNext = False\<rparr>"
| "STEP_REGISTRY SFinish = \<lparr>sd_heading = None, sd_hideNext = False\<rparr>"

definition wizard_footer :: "wizard_controller \<Rightarrow> bool \<times> (wizard_button \<times> bool) option" where
  "wizard_footer c =
     (xc_canBack c,
      if xc_stepId c = SFinish then Some (CompleteButton, xc_submitting c)
      else if \<not> sd_hideNext (STEP_REGISTRY (xc_stepId c)) then Some (ContinueButton, \<not> xc_canNext c)
      else None)"

text \<open>Both wizards offer the same buttons, and both name a step alike.\<close>

lemma same_buttons: "wm_state m \<noteq> None \<Longrightarrow> wm_mode m = FullMode \<Longrightarrow> nav_bar m = wizard_footer (controller m)"
  by (cases "stepId m") (auto simp: nav_bar_def wizard_footer_def STEPS_WITH_INLINE_ACTION_def controller_next controller_back canNext_def)

lemma same_headings: "sd_heading (STEP_REGISTRY i) = (if i = SFinish then None else Some (meta_title (stepMeta i)))"
  by (cases i) simp_all

lemma dots_of_step:
  assumes "distinct xs" and "JsPrelude.at xs k = Some i"
  shows "stepper_dots xs i = replicate k DotDone @ DotActive # replicate (length xs - k - 1) DotTodo"
proof (rule nth_equalityI)
  have k: "k < length xs" "xs ! k = i" using assms(2) by (auto simp: at_def split: if_splits)
  then have "index_of i xs = Some k"
    using assms(1) by (auto simp: index_of_def find_index_Some nth_eq_iff_index_eq)
  then show "stepper_dots xs i ! j = (replicate k DotDone @ DotActive # replicate (length xs - k - 1) DotTodo) ! j"
    if "j < length (stepper_dots xs i)" for j
    using that k(1) by (auto simp: stepper_dots_def Let_def or_else_def nth_append nth_enumerate_eq nth_Cons')
  show "length (stepper_dots xs i) = length (replicate k DotDone @ DotActive # replicate (length xs - k - 1) DotTodo)"
    using k(1) by (simp add: stepper_dots_def Let_def)
qed

text \<open>The bar of dots shows where the setup is. In every run in which wallets find the step they were asked for on, the dots are
  those of the steps before the shown one, done, then the one of the shown step, then those of the steps to come, and the
  counter beside it counts them.\<close>

theorem progress_bar_shows_the_step:
  assumes "admissible wizard_enabled wizard_step es (wizard_start md)"
    and "m = run_steps wizard_step es (wizard_start md)" and "wm_state m \<noteq> None"
  shows "stepper_dots (path m) (stepId m) = replicate (currentIdx m) DotDone @ DotActive # replicate (length (path m) - currentIdx m - 1) DotTodo
    \<and> JsPrelude.at (path m) (currentIdx m) = Some (stepId m)"
proof -
  have "stepId m \<in> set (path m)" using wizard_run_inv [OF assms(1)] inv_on_path [of m] assms(2,3) by auto
  then have "JsPrelude.at (path m) (currentIdx m) = Some (stepId m)" using current_index [of m] by (simp add: at_def)
  then show ?thesis using dots_of_step distinct_path [of m] by simp
qed

theorem progress_bar_shows_the_step_witness:
  "let m = run_steps wizard_step [Loaded sample_config (Some sample_gonka), Next, CreateStart, CreateEnd (Inr sample_wallet)] (wizard_start ResumeMode)
   in stepper_dots (path m) (stepId m) = replicate (currentIdx m) DotDone @ DotActive # replicate (length (path m) - currentIdx m - 1) DotTodo"
  using progress_bar_shows_the_step [OF sample_admissible refl]
  by (simp add: Let_def loaded_def on_state_def goNext_def goTo_def submit_begin_def onCreateWallet_def split: option.split)
end
