(* ===== verification/SetupSteps.thy ===== *)
theory SetupSteps
  imports WizardController
begin

text \<open>
  The steps of the two wizards that keep a state of their own or change more than one field: the list of models with their
  roles (\<open>ModelEditor\<close>), the balance of a
  wallet (\<open>WalletBalanceStep.tsx\<close>), the choices of provider and wallet, and the test of a mailbox (\<open>EmailStep.tsx\<close>).
\<close>

section \<open>Models and roles\<close>

datatype models_event = ToggleModel string | ClickRole string model_role | AddModel string | ListLoaded "string list"

fun models_step :: "models_event \<Rightarrow> wizard_state \<Rightarrow> wizard_state" where
  "models_step (ToggleModel n) st = st\<lparr>modelRows := toggleSelect n (modelRows st)\<rparr>"
| "models_step (ClickRole n role) st = st\<lparr>modelRows := click_role n role (modelRows st)\<rparr>"
| "models_step (AddModel draft) st = st\<lparr>modelRows := snd (addCustom draft (modelRows st))\<rparr>"
| "models_step (ListLoaded ms) st = autoFillFirstModel ms st"

text \<open>The page has a row to tick for every model with a name, and a role to click where one is ticked.\<close>

fun models_enabled :: "models_event \<Rightarrow> wizard_state \<Rightarrow> bool" where
  "models_enabled (ToggleModel n) st = (trim n \<noteq> [])"
| "models_enabled (ClickRole n role) st = (findRow n (modelRows st) \<noteq> None \<and> role \<noteq> RoleNone)"
| "models_enabled _ st = True"

definition models_inv :: "wizard_state \<Rightarrow> bool" where
  "models_inv st \<longleftrightarrow> roles_once (modelRows st) \<and> distinct (map mr_name (cleanRows (modelRows st)))"

definition with_role :: "model_role \<Rightarrow> model_row list \<Rightarrow> nat" where
  "with_role role rows = length (filter (\<lambda>r. mr_role r = role) rows)"

lemma roles_once_iff: "roles_once rows \<longleftrightarrow> (\<forall>role. role \<noteq> RoleNone \<longrightarrow> with_role role rows \<le> 1)"
  by (auto simp: roles_once_def with_role_def) (metis model_role.exhaust)

lemma with_role_filter: "with_role role (filter P rows) \<le> with_role role rows"
  by (induction rows) (auto simp: with_role_def)

lemma roles_once_filter: "roles_once rows \<Longrightarrow> roles_once (filter P rows)"
  unfolding roles_once_iff using with_role_filter le_trans by blast

lemma roles_once_append:
  assumes "roles_once rows" and "mr_role r = RoleNone \<or> with_role (mr_role r) rows = 0"
  shows "roles_once (rows @ [r])"
  using assms unfolding roles_once_iff by (auto simp: with_role_def)

lemma choose_inv:
  assumes "roles_once rows" and "distinct (map mr_name (cleanRows rows))" and "findRow n rows = None" and "trim n \<noteq> []"
  shows "roles_once (choose_model n rows) \<and> distinct (map mr_name (cleanRows (choose_model n rows)))"
proof -
  let ?c = "cleanRows rows"
  have c: "cleanRows (choose_model n rows) = choose_model n rows"
    using assms(4) by (simp add: choose_model_def cleanRows_def Let_def)
  have "n \<notin> mr_name ` set ?c" using assms(3) by (auto simp: findRow_def find_None_iff cleanRows_def)
  then have d: "distinct (map mr_name (choose_model n rows))" using assms(2) by (auto simp: choose_model_def Let_def)
  have "roles_once ?c" using assms(1) unfolding cleanRows_def by (rule roles_once_filter)
  then have "roles_once (choose_model n rows)"
    by (auto simp: choose_model_def Let_def list_ex_iff with_role_def filter_empty_conv intro!: roles_once_append)
  then show ?thesis unfolding c using d by simp
qed

lemma set_role_inv:
  assumes "roles_once rows" and "distinct (map mr_name (cleanRows rows))"
  shows "roles_once (setRowRole n role rows) \<and> distinct (map mr_name (cleanRows (setRowRole n role rows)))"
proof -
  define c where "c = cleanRows rows"
  define f where "f = (\<lambda>r :: model_row. if mr_name r = n then r\<lparr>mr_role := role\<rparr>
    else if role \<noteq> RoleNone \<and> mr_role r = role then r\<lparr>mr_role := RoleNone\<rparr> else r)"
  have names: "mr_name (f r) = mr_name r" for r by (simp add: f_def)
  have d: "distinct (map mr_name c)" and once: "roles_once c"
    using assms roles_once_filter by (simp_all add: c_def) (simp add: cleanRows_def roles_once_filter)
  have "\<forall>r \<in> set c. trim (mr_name r) \<noteq> []" by (simp add: c_def cleanRows_def)
  then have clean: "cleanRows (map f c) = map f c" by (simp add: cleanRows_def names)
  have "with_role x (map f c) \<le> 1" if x: "x \<noteq> RoleNone" for x
  proof (cases "x = role")
    case True
    have "with_role x (map f rs) = length (filter (\<lambda>r. mr_name r = n) rs)" for rs
      using True x by (induction rs) (auto simp: with_role_def f_def)
    moreover have "length (filter (\<lambda>r. mr_name r = n) rs) \<le> 1" if "distinct (map mr_name rs)" for rs
      using that by (induction rs) (auto simp: filter_empty_conv, metis imageI)
    ultimately show ?thesis using d by simp
  next
    case False
    have "with_role x (map f rs) \<le> with_role x rs" for rs
      using False x by (induction rs) (auto simp: with_role_def f_def)
    then show ?thesis using once x unfolding roles_once_iff by (meson le_trans)
  qed
  then have "roles_once (map f c)" unfolding roles_once_iff by blast
  moreover have "distinct (map mr_name (map f c))" using d by (simp add: comp_def names)
  ultimately show ?thesis unfolding setRowRole_def f_def [symmetric] c_def [symmetric] clean by simp
qed

lemma toggle_inv:
  assumes "roles_once rows" and "distinct (map mr_name (cleanRows rows))" and "trim n \<noteq> []"
  shows "roles_once (toggleSelect n rows) \<and> distinct (map mr_name (cleanRows (toggleSelect n rows)))"
proof (cases "findRow n rows = None")
  case True
  then show ?thesis using choose_inv [OF assms(1,2) True assms(3)] by (simp add: toggleSelect_def)
next
  case False
  have "distinct (map mr_name (filter P (cleanRows rows)))" for P using assms(2) by (rule distinct_map_filter)
  then show ?thesis using False assms(1)
    by (simp add: toggleSelect_def) (simp add: cleanRows_def roles_once_filter)
qed

lemma models_step_inv: "models_inv st \<Longrightarrow> models_enabled e st \<Longrightarrow> models_inv (models_step e st)"
proof (cases e)
  case (AddModel draft)
  assume "models_inv st"
  then show ?thesis using AddModel choose_inv [of "modelRows st" "trim draft"]
    by (auto simp: models_inv_def addCustom_def Let_def)
next
  case (ListLoaded ms)
  assume "models_inv st"
  then show ?thesis using ListLoaded
    by (auto simp: models_inv_def autoFillFirstModel_def Let_def roles_once_def cleanRows_def)
qed (auto simp: models_inv_def toggle_inv set_role_inv click_role_def Let_def)

interpretation model_rows: guarded_steps models_step models_inv models_enabled
  by unfold_locales (rule models_step_inv)

lemma set_clean: "set (cleanRows rows) = {r \<in> set rows. trim (mr_name r) \<noteq> []}"
  by (auto simp: cleanRows_def)

text \<open>Every model that will be saved is offered, so that it can be taken back, and nothing is offered twice.\<close>

lemma items_offer_the_rows:
  assumes "models_inv st" and "distinct (or_else available [])"
  shows "mr_name ` set (cleanRows (modelRows st)) \<subseteq> mi_id ` set (model_items available (modelRows st))"
    and "distinct (map mi_id (model_items available (modelRows st)))"
proof -
  let ?s = "map (\<lambda>m. \<lparr>mi_id = m, mi_custom = False\<rparr>) (or_else available [])"
  let ?P = "\<lambda>r. \<not> list_ex (\<lambda>s. mi_id s = mr_name r) ?s"
  have i: "map mi_id (model_items available (modelRows st)) = map mr_name (filter ?P (cleanRows (modelRows st))) @ or_else available []"
    by (simp add: model_items_def Let_def cleanRows_def comp_def)
  have "distinct (map mr_name (filter ?P (cleanRows (modelRows st))))"
    using assms(1) by (simp add: models_inv_def distinct_map_filter)
  then show "distinct (map mi_id (model_items available (modelRows st)))"
    using assms(2) unfolding i by (auto simp: list_ex_iff)
  have "mr_name ` set (cleanRows (modelRows st)) \<subseteq> set (map mi_id (model_items available (modelRows st)))"
    unfolding i by (auto simp: list_ex_iff)
  then show "mr_name ` set (cleanRows (modelRows st)) \<subseteq> mi_id ` set (model_items available (modelRows st))" by simp
qed

text \<open>C37: Wherever Next is offered after models were ticked, given roles and typed in, exactly one chat model is saved: the
  editor never gives a role to two models, and the draft keeps the one whose role is chat.\<close>

theorem next_means_one_chat_model:
  assumes "models_inv st" and "admissible models_enabled models_step es st"
    and "\<not> isNextDisabled SGonkaModels (run_steps models_step es st)"
  shows "\<exists>r. filter (\<lambda>r. mr_role r = RoleChat) (d_models (buildDraft (run_steps models_step es st))) = [r] \<and> mr_name r \<noteq> []"
proof -
  let ?st = "run_steps models_step es st"
  have inv: "models_inv ?st" using model_rows.run_inv [OF assms(1,2)] .
  obtain r where r: "r \<in> set (modelRows ?st)" "mr_role r = RoleChat" "trim (mr_name r) \<noteq> []"
    using assms(3) by (auto simp: has_chat_row_def list_ex_iff)
  let ?t = "r\<lparr>mr_name := trim (mr_name r)\<rparr>"
  have "roles_once (cleanRows (modelRows ?st))" using inv roles_once_filter by (auto simp: models_inv_def cleanRows_def)
  moreover have "with_role x (valid_rows rows) = with_role x (cleanRows rows)" for x rows
    by (induction rows) (auto simp: with_role_def valid_rows_def cleanRows_def)
  ultimately have "length (filter (\<lambda>r. mr_role r = RoleChat) (valid_rows (modelRows ?st))) \<le> 1"
    unfolding roles_once_iff by (auto simp: with_role_def)
  moreover have "?t \<in> set (valid_rows (modelRows ?st))" using r by (auto simp: valid_rows_def)
  ultimately have "filter (\<lambda>r. mr_role r = RoleChat) (valid_rows (modelRows ?st)) = [?t]"
    using only_row(1) [of "\<lambda>r. mr_role r = RoleChat" _ ?t] r(2) by simp
  then show ?thesis using r(3) by (simp add: buildDraft_def)
qed

definition editing :: "models_event list" where
  "editing = [ListLoaded [''a'', ''b''], ToggleModel ''b'', ClickRole ''b'' RoleChat, AddModel '' c ''  , ClickRole ''c'' RoleVision]"

theorem next_means_one_chat_model_witness:
  "\<exists>r. filter (\<lambda>r. mr_role r = RoleChat) (d_models (buildDraft (run_steps models_step editing finish_state))) = [r] \<and> mr_name r \<noteq> []"
proof (rule next_means_one_chat_model)
  show "models_inv finish_state" by code_simp
  show "admissible models_enabled models_step editing finish_state" by code_simp
  show "\<not> isNextDisabled SGonkaModels (run_steps models_step editing finish_state)" by code_simp
qed

section \<open>The balance of a wallet\<close>

text \<open>The step with its own state, mounted on the state of the wizard. \<open>MIN_BALANCE_GNK\<close> is what \<open>minBalance\<close> is given.\<close>

record balance_step =
  bl_wizard :: wizard_state
  bl_loading :: bool
  bl_refreshError :: string

definition open_balance :: "wizard_state \<Rightarrow> balance_step" where
  "open_balance st = \<lparr>bl_wizard = st, bl_loading = False, bl_refreshError = []\<rparr>"

definition sufficient :: "wizard_state \<Rightarrow> bool" where
  "sufficient st = (case gonkaBalance st of None \<Rightarrow> False | Some b \<Rightarrow> MIN_BALANCE_GNK \<le> b_gnk b)"

text \<open>\<open>refresh\<close> asks for the address and node of the render it was made in.\<close>

definition refresh_begin :: "balance_step \<Rightarrow> (string \<times> string) option \<times> balance_step" where
  "refresh_begin s =
     (let st = bl_wizard s in
      if gonkaAddress st = [] \<or> gonkaNodeUrl st = [] then (None, s)
      else (Some (gonkaAddress st, gonkaNodeUrl st), s\<lparr>bl_loading := True, bl_refreshError := []\<rparr>))"

definition refresh_end :: "string + gonka_balance \<Rightarrow> balance_step \<Rightarrow> balance_step" where
  "refresh_end answer s =
     (case answer of
        Inl msg \<Rightarrow> s\<lparr>bl_refreshError := msg, bl_loading := False\<rparr>
      | Inr b \<Rightarrow> s\<lparr>bl_wizard := (bl_wizard s)\<lparr>gonkaBalance := Some b\<rparr>, bl_loading := False\<rparr>)"

text \<open>The effect: unless the balance suffices it asks at once and again with every tick of 15 seconds.\<close>

definition balance_tick :: "balance_step \<Rightarrow> (string \<times> string) option \<times> balance_step" where
  "balance_tick s = (if sufficient (bl_wizard s) then (None, s) else refresh_begin s)"

definition shown_balance :: "wizard_state \<Rightarrow> string" where
  "shown_balance st = (case gonkaBalance st of Some b \<Rightarrow> formatGnk (b_gnk b) | None \<Rightarrow> [em_dash])"

definition toggle_bypass :: "balance_step \<Rightarrow> balance_step" where
  "toggle_bypass s = s\<lparr>bl_wizard := (bl_wizard s)\<lparr>bypassBalance := \<not> bypassBalance (bl_wizard s)\<rparr>\<rparr>"

lemma next_needs_funds: "isNextDisabled SWalletBalance st \<longleftrightarrow> \<not> bypassBalance st \<and> \<not> sufficient st"
  by (simp add: hasEnoughBalance_def sufficient_def)

text \<open>Ticks and answers, each answer for the address that was asked for.\<close>

definition balance_round :: "(string \<times> string \<Rightarrow> string + gonka_balance) \<Rightarrow> balance_step \<Rightarrow> balance_step" where
  "balance_round ask s = (case balance_tick s of (None, s') \<Rightarrow> s' | (Some q, s') \<Rightarrow> refresh_end (ask q) s')"

lemma round_keeps:
  "sufficient (bl_wizard s) \<Longrightarrow> balance_round ask s = s"
  by (simp add: balance_round_def balance_tick_def)

text \<open>The balance of a wallet that was replaced stands for the new one. When a funded wallet was connected before and another
  is imported, the step shows the old amount, offers Next, and never asks for the balance of the new address, however
  often it ticks.\<close>

theorem old_balance_passes_for_a_new_wallet:
  assumes "wm_state m = Some st" and "sufficient st" and "wm_state (onUseExisting (Inr (ImportedWallet w)) m) = Some st'"
  shows "gonkaAddress st' = w_address w \<and> shown_balance st' = shown_balance st \<and> \<not> isNextDisabled SWalletBalance st'
    \<and> ((balance_round ask) ^^ n) (open_balance st') = open_balance st'"
proof -
  have st': "st' = st\<lparr>gonkaPrivateKey := w_privateKeyHex w, gonkaPrivateKeyKnown := True, gonkaAddress := w_address w,
      gonkaMnemonicWords := w_words w\<rparr>" using assms(1,3) by (simp add: onUseExisting_def on_state_def goTo_def Let_def)
  then have s: "sufficient st'" using assms(2) by (simp add: sufficient_def)
  have "((balance_round ask) ^^ n) (open_balance st') = open_balance st'"
    by (induction n) (simp_all add: round_keeps s open_balance_def)
  moreover have "\<not> isNextDisabled SWalletBalance st'" using s unfolding next_needs_funds by simp
  ultimately show ?thesis by (simp del: isNextDisabled.simps) (simp add: shown_balance_def st')
qed

definition funded_state :: wizard_state where
  "funded_state = finish_state\<lparr>gonkaBalance := Some \<lparr>b_address = ''old'', b_nodeUrl = ''n'', b_amount = ''5'', b_gnk = 5, b_label = ''5''\<rparr>\<rparr>"

theorem old_balance_passes_for_a_new_wallet_witness:
  "\<exists>st'. wm_state (onUseExisting (Inr (ImportedWallet sample_wallet)) ((wizard_start FullMode)\<lparr>wm_state := Some funded_state\<rparr>)) = Some st'
     \<and> gonkaAddress st' = w_address sample_wallet \<and> \<not> isNextDisabled SWalletBalance st'"
proof -
  let ?m = "(wizard_start FullMode)\<lparr>wm_state := Some funded_state\<rparr>"
  have a: "wm_state ?m = Some funded_state" by simp
  have b: "sufficient funded_state" by (simp add: funded_state_def sufficient_def MIN_BALANCE_GNK_def)
  obtain st' where c: "wm_state (onUseExisting (Inr (ImportedWallet sample_wallet)) ?m) = Some st'"
    by (simp add: onUseExisting_def on_state_def goTo_def Let_def)
  show ?thesis using old_balance_passes_for_a_new_wallet [OF a b c, where n = 0] c by blast
qed

text \<open>An answer for the wallet before is taken for the new one as well.\<close>

lemma late_balance_is_taken:
  "gonkaBalance (bl_wizard (refresh_end (Inr b) (s\<lparr>bl_wizard := (bl_wizard s)\<lparr>gonkaAddress := a\<rparr>\<rparr>))) = Some b"
  by (simp add: refresh_end_def)

section \<open>Provider and wallet\<close>

text \<open>Which cards of the two choices are off.\<close>

definition gonkaUnavailable :: "gonka_config option \<Rightarrow> bool" where
  "gonkaUnavailable g = (case g of None \<Rightarrow> False | Some c \<Rightarrow> \<not> inferencedAvailable c)"

definition inferencedReady :: "gonka_config option \<Rightarrow> bool" where
  "inferencedReady g = or_else (map_option inferencedAvailable g) False"

text \<open>A new wallet is preset even where none can be created; the step it leads to then only has Back.\<close>

lemma preset_wallet_is_a_dead_end:
  assumes "\<not> inferencedReady (wm_gonka m)" and "wm_state m = Some st" and "stepId m = SWalletCreate"
  shows "\<not> canCreate (inferencedReady (wm_gonka m)) st \<and> snd (nav_bar m) = None"
  using assms by (simp add: canCreate_def nav_bar_def STEPS_WITH_INLINE_ACTION_def)

lemma choices_are_offered: "wm_gonka m \<noteq> None \<Longrightarrow> inferenced m = inferencedReady (wm_gonka m) \<and> inferenced m = (\<not> gonkaUnavailable (wm_gonka m))"
  by (auto simp: inferenced_def inferencedReady_def gonkaUnavailable_def or_else_def)

section \<open>The test of a mailbox\<close>

record email_step =
  em_selected :: "email_provider option"
  em_testing :: bool
  em_testError :: string
  em_result :: "(email_probe \<times> email_probe) option"

definition email_start :: email_step where
  "email_start = \<lparr>em_selected = None, em_testing = False, em_testError = [], em_result = None\<rparr>"

definition onPickPreset :: "email_provider option \<Rightarrow> email_step \<times> wizard_state \<Rightarrow> email_step \<times> wizard_state" where
  "onPickPreset i = (\<lambda>(s, st).
     (s\<lparr>em_selected := i\<rparr>,
      case i of None \<Rightarrow> st
      | Some _ \<Rightarrow> (case findEmailPreset i of Some q \<Rightarrow> WizardModel.applyPreset q st | None \<Rightarrow> st)))"

definition onTest_begin :: "email_step \<Rightarrow> email_step" where
  "onTest_begin s = s\<lparr>em_testing := True, em_testError := [], em_result := None\<rparr>"

definition onTest_end :: "string + email_probe \<times> email_probe \<Rightarrow> email_step \<Rightarrow> email_step" where
  "onTest_end answer s =
     (case answer of
        Inr res \<Rightarrow> s\<lparr>em_result := Some res, em_testing := False\<rparr>
      | Inl msg \<Rightarrow> s\<lparr>em_testError := msg, em_testing := False\<rparr>)"

text \<open>The line of the desktop's step for one side.\<close>

definition xp_probe_line :: "string \<Rightarrow> email_probe \<Rightarrow> string" where
  "xp_probe_line side q = side @ '': '' @ (if epr_ok q then ''OK'' else if epr_skipped q then ''skipped'' else ''failed'')
     @ (if epr_detail q \<noteq> [] then '' '' @ [em_dash] @ '' '' @ epr_detail q else [])"

text \<open>A preset fills in both servers, keeps what was typed as user names, and makes a mailbox with a password complete.\<close>

lemma preset_completes_the_mailbox:
  assumes "trim (emailAddress st) \<noteq> []" and "trim (emailSmtpPassword st) \<noteq> []"
  shows "\<not> isNextDisabled SEmail (snd (onPickPreset (Some i) (s, st)))"
proof -
  obtain q where q: "findEmailPreset (Some i) = Some q" "q \<in> set EMAIL_PRESETS"
    by (cases i) (auto simp: findEmailPreset_def EMAIL_PRESETS_def)
  have "list_all (\<lambda>q. trim (ep_smtpHost q) \<noteq> []) EMAIL_PRESETS" by code_simp
  then have "trim (ep_smtpHost q) \<noteq> []" using q(2) by (simp add: list_all_iff)
  then show ?thesis using assms by (simp add: onPickPreset_def q(1) WizardModel.applyPreset_def Let_def)
qed
end
