(* ===== verification/Spec2Isabelle.thy ===== *)
theory Spec2Isabelle
  imports Router GuardFixes WindowManager Desktop WizardRuns CronDescribe PlanRunList LogEntries AttachmentTags StepView AppShell GuardAttachments GuardMerge ApiClient LogsPage AiEngine HostsPage TelegramLink SetupSteps
begin

text \<open>
  Verification library of the GRAND web frontend (\<open>src/frontend/src\<close>, TypeScript with React) and of the parts of the Go
  server (\<open>src/core\<close>, \<open>src/apps\<close>) whose texts and verdicts the frontend writes or reads.

  \<^bold>\<open>The program.\<close> GRAND runs agents on remote hosts. The frontend is a single page: a router chooses the page from the
  address (\<open>router.ts\<close>), the frame (\<open>App.tsx\<close>) knows who is signed in and which chat is open, and every page keeps its own
  state, asks the server through one client (\<open>api.ts\<close>) and polls it. The pages are a chat in two dresses (the plain page and
  a desktop in the style of Windows XP with its own window manager), the guard profiles that say what an agent may do on a
  host, the plans, which are graphs run on a schedule, the logs, and the setup wizard, again in two dresses.

  \<^bold>\<open>How the code is modelled.\<close> A component's state is a \<open>record\<close> with the fields of its \<open>useState\<close> hooks; a handler is a
  function on that record with the code's guards and early returns; a handler that waits for a request is two functions,
  one for what it does before it asks and one, named \<open>_end\<close>, for what it does with the answer, so that answers may come
  late, in another order, or as errors (\<open>None\<close>, or \<open>Inl\<close> with the message). Where a component is judged over whole runs its
  handlers are collected in a step function over a datatype of events, and an \<open>_enabled\<close> predicate says when the page offers
  the event. Optional fields are options, unions are datatypes, a record of rows updated by id is a list. Texts are lists of
  characters, one for each UTF-16 unit below 256; regular expressions are written out as the scanners they denote. Numbers
  are \<open>int\<close> or \<open>nat\<close> where the code cannot leave the exact range and rounded to 53 bits (\<open>JsNumbers\<close>) where it can; the
  scroll and clock values a handler reads are its arguments. Code that is not in the repository (the URL parser of the
  browser, the canvas library, the shell parser of the server, the domain name lookup) is an argument of the definitions
  that use it.

  \<^bold>\<open>The theories.\<close>

  \<^descr>[Shared] \<open>JsPrelude\<close> (strings and arrays of JavaScript, generic lemmas), \<open>JsNumbers\<close> (53-bit counters, \<open>toFixed\<close>,
    \<open>Number\<close>, elapsed times), \<open>Json\<close> (\<open>JSON.stringify\<close> and \<open>JSON.parse\<close>), \<open>ApiTypes\<close> (messages and steps of \<open>types.ts\<close>), \<open>Interfaces\<close> (the locales below).
  \<^descr>[Guard profiles] \<open>GuardRules\<close> (command rules as text: \<open>parseCommandRule\<close>, \<open>formatCommandRule\<close>, \<open>mergeCommandRule\<close>),
    \<open>GuardStudio\<close> (the form, modes, presets and the suggested fixes of \<open>pages/guard-profiles/types.ts\<close>), \<open>GuardPolicy\<close> (the
    server's verdict on a command and on an address, \<open>core/plugins/guard/guard.go\<close>, \<open>core/types/egress.go\<close>), \<open>GuardFixes\<close>
    (the fixes against that verdict), \<open>GuardPages\<close> (\<open>GuardProfilesPage.tsx\<close>, \<open>Studio.tsx\<close>), \<open>GuardTyping\<close> (typed rules against
    the verdict), \<open>GuardMerge\<close> (several profiles on one host, in the order a Go map yields them), \<open>GuardAttachments\<close> (hosts of
    a profile, with the use case of the server that saves them).
  \<^descr>[Chat] \<open>ChatTimeline\<close> (the handlers of \<open>ChatPage.tsx\<close>, merging of messages), \<open>ChatSync\<close> (the page against the log of the
    server), \<open>ChatWindow\<close> (the same handlers in \<open>WinXpChatWindow.tsx\<close>), \<open>ChatParts\<close> (\<open>parts.ts\<close>, with UTF-8), \<open>ChatText\<close>
    (\<open>utils.ts\<close>, thoughts, bubbles), \<open>AttachmentTags\<close> (tags written by \<open>core/workflows/message\<close>, read by
    \<open>AttachmentTag.tsx\<close>).
  \<^descr>[Tool calls and logs] \<open>ToolOutput\<close> (text written by \<open>core/agents/ssh.go\<close>, read by \<open>LogEntries.tsx\<close> and
    \<open>GuardBlockBadge.tsx\<close>), \<open>LogEntries\<close> (rows of a log), \<open>StepView\<close> (\<open>stepHelpers.ts\<close>, \<open>StepPanel.tsx\<close>, the shell window
    \<open>WinXpCmdTerminal.tsx\<close>), \<open>LogsPage\<close> (\<open>LogsPage.tsx\<close> with the server's paging).
  \<^descr>[Desktop] \<open>WindowGeometry\<close> (\<open>useDraggable.ts\<close>, \<open>useResizable.ts\<close>), \<open>WindowManager\<close> (\<open>WinXpExperiment.tsx\<close>),
    \<open>IconPositions\<close> (\<open>useIconPositions.ts\<close>), \<open>Desktop\<close> (\<open>WinXpDesktop.tsx\<close>).
  \<^descr>[Setup] \<open>WizardModel\<close> (data, path, status, draft), \<open>WizardMachine\<close> (\<open>useWizardController.ts\<close>), \<open>WizardRuns\<close> (whole runs).
  \<^descr>[Plans] \<open>CronDescribe\<close> (\<open>lib/cron.ts\<close>), \<open>PlanGraph\<close>, \<open>PlanEditor\<close> (\<open>PlanEditor.tsx\<close>), \<open>PlanParams\<close>
    (\<open>ParameterEditor.tsx\<close>, \<open>ParamButtons.tsx\<close>), \<open>PlanRunList\<close> (\<open>PlanRuns.tsx\<close>).
  \<^descr>[Frame] \<open>Router\<close> (\<open>router.ts\<close>), \<open>AppShell\<close> (\<open>App.tsx\<close>, \<open>ChatSidebar.tsx\<close>), \<open>ApiClient\<close> (all calls of \<open>api.ts\<close>, against
    the table of operations of the server).

  \<^bold>\<open>Interfaces.\<close> \<open>codec\<close> and \<open>normalising_codec\<close> are a printer and a parser, up to a normal form: routes, command rules, plan
  graphs and plan parameters are their interpretations. \<open>id_collection\<close> and \<open>id_collection_add\<close> are lists of records with
  identifiers: the windows are one. \<open>guarded_steps\<close> is a step function with an invariant and a guard; window manager,
  wizard, plan editor, chat, frame and log page are its interpretations, and every invariant below over runs is the lemma
  \<open>run_inv\<close> of an interpretation.

  \<^bold>\<open>What is shown.\<close> Guard profiles: a suggested fix makes the server allow (or refuse) the very call it was offered for;
  typed rules print and read back; the studio's list holds no command twice, so that the server's merge is what is listed;
  the verdict under several profiles does not depend on the order of a Go map, and what the merge adds up to. Chat: in
  every run with at most four messages between two polls the page shows the newest part of the log, and older messages
  are reached by finitely many presses; the desktop's window simulates the page; cutting at byte offsets is cutting by
  characters; attachments, tool output and JSON arguments are shown as they were sent. Desktop: the stacking order, the
  maximized windows and the icons keep their invariants over every run. Setup: the current step is on the path, every
  setup can be finished, an untouched one saves what was configured. Plans: the editor saves well-formed graphs, graphs and
  parameters come back as they were saved, the described schedule is the schedule. Frame: addresses and routes agree, an
  addressed chat is shown, every client call reaches the operation of the server it is for. Some properties say where the
  code fails, on the inputs where it does; each is listed as a finding with its place.

  \<^bold>\<open>Bounds and fuel.\<close> The fuel of the JSON parser, twice the length of the text plus two, bounds the depth of the
  recursion; more fuel gives the same value (\<open>parse_fuel_enough\<close>). Page sizes (10 messages, 4 for a poll, 10 logs), the 53
  bits of counters and the sizes of windows and icons are the constants of the code. The guard of a run that limits
  arrivals between two polls is the size of the polled page; the lemmas named \<open>gap\<close> show that it is needed.

  \<^bold>\<open>What is not modelled.\<close> Markup, styling, icons, animation and sound; rendering of Markdown (a library); speech input; the
  canvas of the plan editor (a library); the pages whose handlers only open forms and call the client. Of the server only
  what is named above: storage, agents, workflows and adapters are effects on services outside the repository.
\<close>

end
